(* ===== verification/Prelude.thy ===== *)
theory Prelude
  imports
    Main
    "HOL-Library.Char_ord"
    "HOL-Library.List_Lexorder"
    "HOL-Library.AList"
begin

text \<open>
  The prelude of the development: the result type of fallible code, the part of Go's
  \<open>strings\<close>, \<open>strconv\<close> and \<open>sort\<close> packages the program uses, and the generic list
  and option lemmas the components share.

  A Go string is a byte string, so it is HOL's \<open>string\<close> (a list of 8-bit characters) and
  \<open>len\<close> is \<open>length\<close>; Go's \<open><\<close> on strings is the byte-wise lexicographic order, which is
  the order of \<open>HOL-Library.List_Lexorder\<close> over \<open>HOL-Library.Char_ord\<close>.
  A Go \<open>map[string]string\<close> is an association list read through \<open>map_of\<close>.

  \<open>to_lower\<close> is \<open>strings.ToLower\<close> on ASCII letters and the identity on every other byte. It is
  exact for ASCII text and for scripts without case (the Chinese texts of the repository); letters
  of other cased scripts are left as they are.
\<close>

named_theorems ws_defs \<open>the definitions of the transactions, for unfolding one operation\<close>
named_theorems ws_frame \<open>what an operation leaves alone\<close>
named_theorems ws_inv \<open>preservation of the invariants\<close>

section \<open>Results\<close>

type_synonym ('e, 'a) res = "'e + 'a"

definition res_bind :: "('e, 'a) res \<Rightarrow> ('a \<Rightarrow> ('e, 'b) res) \<Rightarrow> ('e, 'b) res" where
  "res_bind m f = (case m of Inl e \<Rightarrow> Inl e | Inr a \<Rightarrow> f a)"

lemma res_bind_simps [simp]:
  "res_bind (Inl e) f = Inl e"
  "res_bind (Inr a) f = f a"
  by (simp_all add: res_bind_def)

lemma res_bind_InrE:
  assumes "res_bind m f = Inr b"
  obtains a where "m = Inr a" and "f a = Inr b"
  using assms by (cases m) auto

lemma res_bind_eq_Inr: "res_bind m f = Inr b \<longleftrightarrow> (\<exists>a. m = Inr a \<and> f a = Inr b)"
  by (cases m) auto

definition res_of :: "'e \<Rightarrow> 'a option \<Rightarrow> ('e, 'a) res" where
  "res_of e m = (case m of None \<Rightarrow> Inl e | Some a \<Rightarrow> Inr a)"

lemma res_of_simps [simp]:
  "res_of e None = Inl e"
  "res_of e (Some a) = Inr a"
  "(res_of e m = Inr a) = (m = Some a)"
  by (auto simp: res_of_def split: option.splits)

fun fold_res :: "('a \<Rightarrow> 's \<Rightarrow> ('e, 's) res) \<Rightarrow> 'a list \<Rightarrow> 's \<Rightarrow> ('e, 's) res" where
  "fold_res f [] s = Inr s"
| "fold_res f (x # xs) s = res_bind (f x s) (fold_res f xs)"

lemma fold_res_invariant:
  assumes "fold_res f xs s = Inr s'" and "P s"
    and "\<And>x s s'. x \<in> set xs \<Longrightarrow> P s \<Longrightarrow> f x s = Inr s' \<Longrightarrow> P s'"
  shows "P s'"
  using assms
proof (induction xs arbitrary: s)
  case Nil
  then show ?case by simp
next
  case (Cons x xs)
  from Cons.prems(1) obtain t where t: "f x s = Inr t" "fold_res f xs t = Inr s'"
    by (auto elim: res_bind_InrE)
  have "P t" using Cons.prems(2,3) t(1) by auto
  with t(2) show ?case
    by (rule Cons.IH) (auto intro: Cons.prems(3))
qed

lemma fold_res_append:
  "fold_res f (xs @ ys) s = res_bind (fold_res f xs s) (fold_res f ys)"
proof (induction xs arbitrary: s)
  case (Cons x xs)
  then show ?case by (cases "f x s") simp_all
qed simp

fun map_res :: "('a \<Rightarrow> ('e, 'b) res) \<Rightarrow> 'a list \<Rightarrow> ('e, 'b list) res" where
  "map_res f [] = Inr []"
| "map_res f (x # xs) = res_bind (f x) (\<lambda>y. res_bind (map_res f xs) (\<lambda>ys. Inr (y # ys)))"

lemma map_res_Inr:
  "map_res f xs = Inr ys \<longleftrightarrow> list_all2 (\<lambda>x y. f x = Inr y) xs ys"
proof (induction xs arbitrary: ys)
  case Nil
  then show ?case by auto
next
  case (Cons x xs)
  then show ?case by (cases ys) (auto simp: res_bind_eq_Inr)
qed

section \<open>Go strings\<close>

definition bytes :: "int list \<Rightarrow> string" where
  "bytes ns = map char_of ns"

definition has_prefix :: "string \<Rightarrow> string \<Rightarrow> bool" where
  "has_prefix s p \<longleftrightarrow> take (length p) s = p"

definition has_suffix :: "string \<Rightarrow> string \<Rightarrow> bool" where
  "has_suffix s p \<longleftrightarrow> length p \<le> length s \<and> drop (length s - length p) s = p"

fun contains :: "string \<Rightarrow> string \<Rightarrow> bool" where
  "contains [] p \<longleftrightarrow> p = []"
| "contains (c # s) p \<longleftrightarrow> has_prefix (c # s) p \<or> contains s p"

lemma has_prefix_iff: "has_prefix s p \<longleftrightarrow> (\<exists>t. s = p @ t)"
  unfolding has_prefix_def
  by (metis append_eq_conv_conj append_take_drop_id)

lemma contains_iff: "contains s p \<longleftrightarrow> (\<exists>a b. s = a @ p @ b)"
proof (induction s)
  case (Cons c s)
  show ?case
  proof
    assume "contains (c # s) p"
    then consider "has_prefix (c # s) p" | "contains s p" by auto
    then show "\<exists>a b. c # s = a @ p @ b"
    proof cases
      case 1
      then obtain t where "c # s = p @ t" by (auto simp: has_prefix_iff)
      then have "c # s = [] @ p @ t" by simp
      then show ?thesis by blast
    next
      case 2
      then obtain a b where "s = a @ p @ b" using Cons by blast
      then have "c # s = (c # a) @ p @ b" by simp
      then show ?thesis by blast
    qed
  next
    assume "\<exists>a b. c # s = a @ p @ b"
    then obtain a b where ab: "c # s = a @ p @ b" by blast
    show "contains (c # s) p"
    proof (cases a)
      case Nil
      with ab have "has_prefix (c # s) p" by (simp add: has_prefix_iff)
      then show ?thesis by simp
    next
      case (Cons d a')
      with ab have "s = a' @ p @ b" by simp
      with Cons.IH show ?thesis by auto
    qed
  qed
qed auto

definition lower_char :: "char \<Rightarrow> char" where
  "lower_char c = (let n = of_char c :: nat in if 65 \<le> n \<and> n \<le> 90 then char_of (n + 32) else c)"

definition to_lower :: "string \<Rightarrow> string" where
  "to_lower s = map lower_char s"

lemma of_char_lt_256: "(of_char c :: nat) < 256"
  using of_char_mod_256 [of c] by (metis mod_less_divisor zero_less_numeral)

lemma lower_char_idem [simp]: "lower_char (lower_char c) = lower_char c"
  by (simp add: lower_char_def Let_def)

lemma to_lower_idem [simp]: "to_lower (to_lower s) = to_lower s"
  by (simp add: to_lower_def)

lemma length_to_lower [simp]: "length (to_lower s) = length s"
  by (simp add: to_lower_def)

text \<open>
  \<open>strings.TrimSpace\<close> removes the Unicode white space at both ends; each such code point is one
  of these UTF-8 byte sequences.
\<close>

definition ws_encodings :: "string list" where
  "ws_encodings = map bytes (
     [[9], [10], [11], [12], [13], [32], [0xC2, 0x85], [0xC2, 0xA0], [0xE1, 0x9A, 0x80]]
     @ map (\<lambda>n. [0xE2, 0x80, n])
         [0x80, 0x81, 0x82, 0x83, 0x84, 0x85, 0x86, 0x87, 0x88, 0x89, 0x8A]
     @ [[0xE2, 0x80, 0xA8], [0xE2, 0x80, 0xA9], [0xE2, 0x80, 0xAF], [0xE2, 0x81, 0x9F],
        [0xE3, 0x80, 0x80]])"

lemma ws_encodings_nonempty: "w \<in> set ws_encodings \<Longrightarrow> w \<noteq> []"
  by (auto simp: ws_encodings_def bytes_def)

function trim_left :: "string \<Rightarrow> string" where
  "trim_left s =
     (case find (has_prefix s) ws_encodings of
        None \<Rightarrow> s
      | Some w \<Rightarrow> trim_left (drop (length w) s))"
  by pat_completeness auto
termination
proof (relation "measure length", simp)
  fix s w
  assume "find (has_prefix s) ws_encodings = Some w"
  then have "has_prefix s w" and "w \<in> set ws_encodings"
    by (auto simp: find_Some_iff)
  then show "(drop (length w) s, s) \<in> measure length"
    by (auto simp: has_prefix_iff dest: ws_encodings_nonempty)
qed

function trim_right :: "string \<Rightarrow> string" where
  "trim_right s =
     (case find (has_suffix s) ws_encodings of
        None \<Rightarrow> s
      | Some w \<Rightarrow> trim_right (take (length s - length w) s))"
  by pat_completeness auto
termination
proof (relation "measure length", simp)
  fix s w
  assume "find (has_suffix s) ws_encodings = Some w"
  then have "has_suffix s w" and "w \<in> set ws_encodings"
    by (auto simp: find_Some_iff)
  then show "(take (length s - length w) s, s) \<in> measure length"
    using ws_encodings_nonempty [of w] by (cases w) (auto simp: has_suffix_def)
qed

declare trim_left.simps [simp del] trim_right.simps [simp del]

definition trim_space :: "string \<Rightarrow> string" where
  "trim_space s = trim_right (trim_left s)"

lemma trim_left_Nil [simp]: "trim_left [] = []"
proof -
  have "find (has_prefix []) ws_encodings = None"
    using ws_encodings_nonempty by (auto simp: find_None_iff has_prefix_def)
  then show ?thesis by (subst trim_left.simps) simp
qed

lemma trim_right_Nil [simp]: "trim_right [] = []"
proof -
  have "find (has_suffix []) ws_encodings = None"
    using ws_encodings_nonempty by (auto simp: find_None_iff has_suffix_def)
  then show ?thesis by (subst trim_right.simps) simp
qed

lemma trim_space_Nil [simp]: "trim_space [] = []"
  by (simp add: trim_space_def)

text \<open>\<open>strings.Join\<close>, \<open>strings.Split\<close> on a one-byte separator, and \<open>strconv.Itoa\<close>.\<close>

fun join_with :: "string \<Rightarrow> string list \<Rightarrow> string" where
  "join_with sep [] = []"
| "join_with sep [s] = s"
| "join_with sep (s # t # ss) = s @ sep @ join_with sep (t # ss)"

fun split_at_char :: "char \<Rightarrow> string \<Rightarrow> string list" where
  "split_at_char c [] = [[]]"
| "split_at_char c (d # s) =
     (if d = c then [] # split_at_char c s
      else (case split_at_char c s of
              [] \<Rightarrow> [[d]]
            | w # ws \<Rightarrow> (d # w) # ws))"

lemma split_at_char_nonempty [simp]: "split_at_char c s \<noteq> []"
  by (cases s) (auto split: list.splits)

lemma join_split: "join_with [c] (split_at_char c s) = s"
proof (induction s)
  case (Cons d s)
  show ?case
  proof (cases "split_at_char c s")
    case Nil
    then show ?thesis by simp
  next
    case (Cons w ws)
    with Cons.IH show ?thesis by (cases ws) auto
  qed
qed simp

fun dec :: "nat \<Rightarrow> string" where
  "dec n = (if n < 10 then [char_of (48 + n)] else dec (n div 10) @ [char_of (48 + n mod 10)])"

declare dec.simps [simp del]

definition itoa :: "int \<Rightarrow> string" where
  "itoa n = (if n < 0 then ''-'' @ dec (nat (- n)) else dec (nat n))"

fun dec_val :: "nat \<Rightarrow> string \<Rightarrow> nat" where
  "dec_val acc [] = acc"
| "dec_val acc (c # s) = dec_val (10 * acc + (of_char c - 48)) s"

lemma dec_val_snoc: "dec_val acc (s @ [c]) = 10 * dec_val acc s + (of_char c - 48)"
  by (induction s arbitrary: acc) auto

lemma dec_val_dec: "dec_val 0 (dec n) = n"
proof (induction n rule: dec.induct)
  case (1 n)
  show ?case
  proof (cases "n < 10")
    case True
    then show ?thesis by (subst dec.simps) (simp add: of_char_of)
  next
    case False
    then have "dec_val 0 (dec n) = 10 * (n div 10) + n mod 10"
      using 1 by (subst dec.simps) (simp add: dec_val_snoc of_char_of)
    then show ?thesis by simp
  qed
qed

lemma dec_inject [simp]: "dec m = dec n \<longleftrightarrow> m = n"
  by (metis dec_val_dec)

lemma dec_nonempty [simp]: "dec n \<noteq> []"
  by (subst dec.simps) simp

lemma dec_digit: "c \<in> set (dec n) \<Longrightarrow> (48::nat) \<le> of_char c"
proof (induction n rule: dec.induct)
  case (1 n)
  show ?case
  proof (cases "n < 10")
    case True
    with 1 show ?thesis by (auto simp: dec.simps [of n] of_char_of)
  next
    case False
    have "(48 + n mod 10) mod 256 = 48 + n mod 10" by simp
    with False 1 show ?thesis by (auto simp: dec.simps [of n] of_char_of)
  qed
qed

lemma itoa_inject [simp]: "itoa m = itoa n \<longleftrightarrow> m = n"
proof -
  have minus: "CHR ''-'' \<notin> set (dec k)" for k
    by (auto dest!: dec_digit)
  have "itoa m = itoa n \<Longrightarrow> m = n"
    using minus [of "nat n"] minus [of "nat m"]
    by (auto simp: itoa_def split: if_splits) (metis list.set_intros(1))+
  then show ?thesis by auto
qed

section \<open>Go maps from strings to strings\<close>

type_synonym gomap = "(string \<times> string) list"

definition mget :: "gomap \<Rightarrow> string \<Rightarrow> string" where
  "mget m k = (case map_of m k of None \<Rightarrow> [] | Some v \<Rightarrow> v)"

definition mput :: "string \<Rightarrow> string \<Rightarrow> gomap \<Rightarrow> gomap" where
  "mput k v m = AList.update k v m"

lemma mget_mput: "mget (mput k v m) k' = (if k = k' then v else mget m k')"
  by (simp add: mget_def mput_def update_conv')

section \<open>Lists\<close>

lemma find_SomeD: "find P xs = Some x \<Longrightarrow> x \<in> set xs \<and> P x"
  by (auto simp: find_Some_iff)

lemma find_map: "find P (map f xs) = map_option f (find (P \<circ> f) xs)"
  by (induction xs) auto

lemma find_append:
  "find P (xs @ ys) = (case find P xs of None \<Rightarrow> find P ys | Some x \<Rightarrow> Some x)"
  by (induction xs) auto

lemma find_cong_set: "(\<And>x. x \<in> set xs \<Longrightarrow> P x = Q x) \<Longrightarrow> find P xs = find Q xs"
  by (induction xs) auto

end
