(* ===== verification/GoTime.thy ===== *)
theory GoTime
  imports Prelude
begin

text \<open>
  The part of Go's \<open>time\<close> package the program uses. An instant is its number of nanoseconds since
  1970-01-01T00:00:00Z. \<open>fmt_nano\<close> is \<open>t.UTC().Format(time.RFC3339Nano)\<close> (trailing zeros of the
  fraction dropped, and the whole fraction when it is zero), \<open>fmt_sec\<close> the layout
  \<open>time.RFC3339\<close>, and \<open>parse_nano\<close> is \<open>time.Parse(time.RFC3339Nano, s)\<close> with the parser's own
  liberties: a one-digit hour, a comma before the fraction, offsets up to 24 hours and 60 minutes,
  and digits after the ninth of the fraction ignored.
\<close>

type_synonym time = int

section \<open>The civil calendar\<close>

definition civil_of_days :: "int \<Rightarrow> int \<times> int \<times> int" where
  "civil_of_days z =
     (let z' = z + 719468; era = z' div 146097; doe = z' mod 146097;
          yoe = (doe - doe div 1460 + doe div 36524 - doe div 146096) div 365;
          doy = doe - (365 * yoe + yoe div 4 - yoe div 100);
          mp = (5 * doy + 2) div 153;
          d = doy - (153 * mp + 2) div 5 + 1;
          m = (if mp < 10 then mp + 3 else mp - 9)
      in (yoe + era * 400 + (if m \<le> 2 then 1 else 0), m, d))"

definition days_of_civil :: "int \<Rightarrow> int \<Rightarrow> int \<Rightarrow> int" where
  "days_of_civil y m d =
     (let y' = (if m \<le> 2 then y - 1 else y); era = y' div 400; yoe = y' mod 400;
          doy = (153 * (if m > 2 then m - 3 else m + 9) + 2) div 5 + d - 1;
          doe = yoe * 365 + yoe div 4 - yoe div 100 + doy
      in era * 146097 + doe - 719468)"

definition leap_year :: "int \<Rightarrow> bool" where
  "leap_year y \<longleftrightarrow> y mod 4 = 0 \<and> (y mod 100 \<noteq> 0 \<or> y mod 400 = 0)"

definition days_in :: "int \<Rightarrow> int \<Rightarrow> int" where
  "days_in m y =
     (if m = 2 then (if leap_year y then 29 else 28)
      else if m \<in> {4, 6, 9, 11} then 30 else 31)"

section \<open>Formatting\<close>

definition pad :: "nat \<Rightarrow> string \<Rightarrow> string" where
  "pad n s = replicate (n - length s) CHR ''0'' @ s"

definition pad_int :: "nat \<Rightarrow> int \<Rightarrow> string" where
  "pad_int n v = (if v < 0 then ''-'' @ pad n (dec (nat (- v))) else pad n (dec (nat v)))"

definition drop_zeros :: "string \<Rightarrow> string" where
  "drop_zeros s = rev (dropWhile (\<lambda>c. c = CHR ''0'') (rev s))"

definition fmt_date_time :: "time \<Rightarrow> string" where
  "fmt_date_time t =
     (let secs = t div 1000000000; sod = secs mod 86400
      in case civil_of_days (secs div 86400) of (y, m, d) \<Rightarrow>
           pad_int 4 y @ ''-'' @ pad_int 2 m @ ''-'' @ pad_int 2 d @ ''T''
           @ pad_int 2 (sod div 3600) @ '':'' @ pad_int 2 (sod div 60 mod 60) @ '':''
           @ pad_int 2 (sod mod 60))"

definition fmt_fraction :: "time \<Rightarrow> string" where
  "fmt_fraction t =
     (let f = drop_zeros (pad_int 9 (t mod 1000000000)) in if f = [] then [] else ''.'' @ f)"

definition fmt_nano :: "time \<Rightarrow> string" where
  "fmt_nano t = fmt_date_time t @ fmt_fraction t @ ''Z''"

definition fmt_sec :: "time \<Rightarrow> string" where
  "fmt_sec t = fmt_date_time t @ ''Z''"

definition fmt_day :: "time \<Rightarrow> string" where
  "fmt_day t = take (length (fmt_date_time t) - 9) (fmt_date_time t)"

text \<open>\<open>t.Truncate(d)\<close> rounds down to a multiple of \<open>d\<close> since year 1; for the five minutes
  the program uses that is the multiple since 1970.\<close>

definition truncate_to :: "int \<Rightarrow> time \<Rightarrow> time" where
  "truncate_to d t = t - t mod d"

definition five_minutes :: int where
  "five_minutes = 300 * 1000000000"

definition seconds :: "int \<Rightarrow> int" where
  "seconds n = n * 1000000000"

section \<open>Parsing\<close>

definition is_digit :: "char \<Rightarrow> bool" where
  "is_digit c \<longleftrightarrow> CHR ''0'' \<le> c \<and> c \<le> CHR ''9''"

text \<open>\<open>n\<close> digits exactly.\<close>

definition take_digits :: "nat \<Rightarrow> string \<Rightarrow> (int \<times> string) option" where
  "take_digits n s =
     (if n \<le> length s \<and> list_all is_digit (take n s)
      then Some (int (dec_val 0 (take n s)), drop n s) else None)"

text \<open>\<open>getnum\<close> without \<open>fixed\<close>: one digit when the second character is no digit.\<close>

definition take_hour :: "string \<Rightarrow> (int \<times> string) option" where
  "take_hour s =
     (case take_digits 2 s of Some r \<Rightarrow> Some r | None \<Rightarrow> take_digits 1 s)"

definition take_char :: "char \<Rightarrow> string \<Rightarrow> string option" where
  "take_char c s = (case s of [] \<Rightarrow> None | d # s' \<Rightarrow> if d = c then Some s' else None)"

definition take_fraction :: "string \<Rightarrow> int \<times> string" where
  "take_fraction s =
     (case s of
        c # d # _ \<Rightarrow>
          if (c = CHR ''.'' \<or> c = CHR '','') \<and> is_digit d
          then (let ds = takeWhile is_digit (tl s)
                in (int (dec_val 0 (take 9 (ds @ replicate 9 CHR ''0''))), drop (length ds) (tl s)))
          else (0, s)
      | _ \<Rightarrow> (0, s))"

definition take_zone :: "string \<Rightarrow> (int \<times> string) option" where
  "take_zone s =
     (case s of
        [] \<Rightarrow> None
      | c # s' \<Rightarrow>
          if c = CHR ''Z'' then Some (0, s')
          else if c = CHR ''+'' \<or> c = CHR ''-''
          then Option.bind (take_digits 2 s') (\<lambda>(hh, s1).
               Option.bind (take_char CHR '':'' s1) (\<lambda>s2.
               Option.bind (take_digits 2 s2) (\<lambda>(mm, s3).
                 if hh \<le> 24 \<and> mm \<le> 60
                 then Some ((if c = CHR ''-'' then - 1 else 1) * (hh * 60 + mm) * 60, s3)
                 else None)))
          else None)"

definition parse_nano :: "string \<Rightarrow> time option" where
  "parse_nano s =
     Option.bind (take_digits 4 s) (\<lambda>(y, s).
     Option.bind (take_char CHR ''-'' s) (\<lambda>s.
     Option.bind (take_digits 2 s) (\<lambda>(mo, s).
     Option.bind (take_char CHR ''-'' s) (\<lambda>s.
     Option.bind (take_digits 2 s) (\<lambda>(d, s).
     Option.bind (take_char CHR ''T'' s) (\<lambda>s.
     Option.bind (take_hour s) (\<lambda>(h, s).
     Option.bind (take_char CHR '':'' s) (\<lambda>s.
     Option.bind (take_digits 2 s) (\<lambda>(mi, s).
     Option.bind (take_char CHR '':'' s) (\<lambda>s.
     Option.bind (take_digits 2 s) (\<lambda>(sec, s).
       (case take_fraction s of (ns, s) \<Rightarrow>
        Option.bind (take_zone s) (\<lambda>(off, s).
          if s = [] \<and> 1 \<le> mo \<and> mo \<le> 12 \<and> 1 \<le> d \<and> d \<le> days_in mo y \<and> h < 24 \<and> mi < 60 \<and> sec < 60
          then Some ((days_of_civil y mo d * 86400 + h * 3600 + mi * 60 + sec - off) * 1000000000 + ns)
          else None)))))))))))))"

text \<open>The zero \<open>time.Time\<close>, which a failed parse also returns: the start of year 1.\<close>

definition zero_time :: time where
  "zero_time = - 62135596800000000000"

definition parse_or_zero :: "string \<Rightarrow> time" where
  "parse_or_zero s = (case parse_nano s of None \<Rightarrow> zero_time | Some t \<Rightarrow> t)"

section \<open>Order\<close>

text \<open>
  The formatted strings do not order as the instants do: the fraction is dropped when it is zero, and
  \<open>Z\<close> is larger than the decimal point.
\<close>

lemma dec_eval:
  "n < 10 \<Longrightarrow> dec n = [char_of (48 + n)]"
  "\<not> n < 10 \<Longrightarrow> dec n = dec (n div 10) @ [char_of (48 + n mod 10)]"
  by (simp_all add: dec.simps [of n])

lemma replicate_eval: "0 < n \<Longrightarrow> replicate n x = x # replicate (n - 1) x"
  by (cases n) simp_all

lemma digit_chars:
  "char_of (48::nat) = CHR ''0''" "char_of (49::nat) = CHR ''1''" "char_of (50::nat) = CHR ''2''"
  "char_of (51::nat) = CHR ''3''" "char_of (52::nat) = CHR ''4''" "char_of (53::nat) = CHR ''5''"
  "char_of (54::nat) = CHR ''6''" "char_of (55::nat) = CHR ''7''" "char_of (56::nat) = CHR ''8''"
  "char_of (57::nat) = CHR ''9''"
  by (simp_all add: char_of_def bit_0)

lemmas pad_evals = pad_int_def pad_def dec_eval replicate_eval digit_chars

lemmas parse_evals = parse_nano_def take_digits_def take_hour_def take_char_def take_fraction_def
  take_zone_def is_digit_def days_of_civil_def days_in_def leap_year_def less_eq_char_def
  replicate_eval

lemma civil_epoch: "civil_of_days 0 = (1970, 1, 1)"
  by code_simp

lemma fmt_epoch: "fmt_nano 0 = ''1970-01-01T00:00:00Z''"
  by (simp add: fmt_nano_def fmt_date_time_def civil_epoch pad_evals fmt_fraction_def drop_zeros_def)

lemma fmt_half_second: "fmt_nano 500000000 = ''1970-01-01T00:00:00.5Z''"
  by (simp add: fmt_nano_def fmt_date_time_def civil_epoch pad_evals fmt_fraction_def drop_zeros_def)

lemma parse_epoch: "parse_nano ''1970-01-01T00:00:00Z'' = Some 0"
  by (simp add: parse_evals)

lemma parse_half_second: "parse_nano ''1970-01-01T00:00:00.5Z'' = Some 500000000"
  by (simp add: parse_evals)

lemma parse_offset: "parse_nano ''1970-01-01T01:30:00.25+01:30'' = Some 250000000"
  by (simp add: parse_evals)

lemma fmt_nano_not_monotone: "fmt_nano 500000000 < fmt_nano 0"
  by (simp add: fmt_epoch fmt_half_second)

lemma parse_nano_Nil [simp]: "parse_nano [] = None"
  by (simp add: parse_nano_def take_digits_def)

end
