(* ===== verification/Sha256.thy ===== *)
theory Sha256
  imports Prelude "HOL-Library.Word"
begin

unbundle bit_operations_syntax

text \<open>
  SHA-256 and hexadecimal output: what \<open>hash\<close> and \<open>stableID\<close> of
  \<open>src/internal/workspace/model.go\<close> take from Go's \<open>crypto/sha256\<close> and
  \<open>encoding/hex\<close>. Go strings are byte strings, so a message is a list of 8-bit characters.
\<close>

type_synonym u32 = "32 word"

definition rotr :: "nat \<Rightarrow> u32 \<Rightarrow> u32" where
  "rotr n x = drop_bit n x OR push_bit (32 - n) x"

definition sha_k :: "u32 list" where
  "sha_k = [
    1116352408, 1899447441, 3049323471, 3921009573, 961987163, 1508970993, 2453635748,
    2870763221, 3624381080, 310598401, 607225278, 1426881987, 1925078388, 2162078206, 2614888103,
    3248222580, 3835390401, 4022224774, 264347078, 604807628, 770255983, 1249150122, 1555081692,
    1996064986, 2554220882, 2821834349, 2952996808, 3210313671, 3336571891, 3584528711,
    113926993, 338241895, 666307205, 773529912, 1294757372, 1396182291, 1695183700, 1986661051,
    2177026350, 2456956037, 2730485921, 2820302411, 3259730800, 3345764771, 3516065817,
    3600352804, 4094571909, 275423344, 430227734, 506948616, 659060556, 883997877, 958139571,
    1322822218, 1537002063, 1747873779, 1955562222, 2024104815, 2227730452, 2361852424,
    2428436474, 2756734187, 3204031479, 3329325298]"

definition sha_init :: "u32 list" where
  "sha_init = [
    1779033703, 3144134277, 1013904242, 2773480762, 1359893119, 2600822924, 528734635, 1541459225]"

definition small0 :: "u32 \<Rightarrow> u32" where
  "small0 x = rotr 7 x XOR rotr 18 x XOR drop_bit 3 x"

definition small1 :: "u32 \<Rightarrow> u32" where
  "small1 x = rotr 17 x XOR rotr 19 x XOR drop_bit 10 x"

definition big0 :: "u32 \<Rightarrow> u32" where
  "big0 x = rotr 2 x XOR rotr 13 x XOR rotr 22 x"

definition big1 :: "u32 \<Rightarrow> u32" where
  "big1 x = rotr 6 x XOR rotr 11 x XOR rotr 25 x"

definition sha_ch :: "u32 \<Rightarrow> u32 \<Rightarrow> u32 \<Rightarrow> u32" where
  "sha_ch e f g = (e AND f) XOR (NOT e AND g)"

definition sha_maj :: "u32 \<Rightarrow> u32 \<Rightarrow> u32 \<Rightarrow> u32" where
  "sha_maj a b c = (a AND b) XOR (a AND c) XOR (b AND c)"

text \<open>The message schedule, newest word first: the next word needs the words 2, 7, 15 and 16 back.\<close>

primrec extend :: "nat \<Rightarrow> u32 list \<Rightarrow> u32 list" where
  "extend 0 w = w"
| "extend (Suc n) w = extend n ((small1 (w ! 1) + w ! 6 + small0 (w ! 14) + w ! 15) # w)"

definition sha_round :: "u32 \<times> u32 \<Rightarrow> u32 list \<Rightarrow> u32 list" where
  "sha_round kw s =
     (let a = s ! 0; b = s ! 1; c = s ! 2; d = s ! 3; e = s ! 4; f = s ! 5; g = s ! 6; h = s ! 7;
          t1 = h + big1 e + sha_ch e f g + fst kw + snd kw;
          t2 = big0 a + sha_maj a b c
      in [t1 + t2, a, b, c, d + t1, e, f, g])"

primrec sha_rounds :: "(u32 \<times> u32) list \<Rightarrow> u32 list \<Rightarrow> u32 list" where
  "sha_rounds [] s = s"
| "sha_rounds (kw # kws) s = sha_rounds kws (sha_round kw s)"

definition sha_block :: "u32 list \<Rightarrow> u32 list \<Rightarrow> u32 list" where
  "sha_block hs block = map2 (+) hs (sha_rounds (zip sha_k (rev (extend 48 (rev block)))) hs)"

definition be32 :: "nat list \<Rightarrow> u32" where
  "be32 bs = foldl (\<lambda>acc b. push_bit 8 acc OR of_nat b) 0 bs"

fun group :: "nat \<Rightarrow> 'a list \<Rightarrow> 'a list list" where
  "group n xs = (if n = 0 \<or> xs = [] then [] else take n xs # group n (drop n xs))"

declare group.simps [simp del]

definition be_bytes :: "nat \<Rightarrow> nat \<Rightarrow> nat list" where
  "be_bytes n v = map (\<lambda>i. unat (take_bit 8 (drop_bit (8 * i) (of_nat v :: 64 word)))) (rev [0..<n])"

definition sha_pad :: "nat list \<Rightarrow> nat list" where
  "sha_pad m = m @ [128] @ replicate ((119 - length m mod 64) mod 64) 0 @ be_bytes 8 (8 * length m)"

definition sha256_words :: "nat list \<Rightarrow> u32 list" where
  "sha256_words m = foldl sha_block sha_init (group 16 (map be32 (group 4 (sha_pad m))))"

definition hex_digit :: "nat \<Rightarrow> char" where
  "hex_digit n = ''0123456789abcdef'' ! (n mod 16)"

definition hex_word :: "u32 \<Rightarrow> string" where
  "hex_word w = map (\<lambda>i. hex_digit (unat (take_bit 4 (drop_bit (4 * i) w)))) (rev [0..<8])"

definition hash :: "string \<Rightarrow> string" where
  "hash s = concat (map hex_word (sha256_words (map of_char s)))"


definition stableID :: "string \<Rightarrow> string \<Rightarrow> string" where
  "stableID prefix s = prefix @ take 32 (hash s)"

section \<open>Shape of the digests\<close>

lemma length_sha_rounds: "length s = 8 \<Longrightarrow> length (sha_rounds kws s) = 8"
  by (induction kws arbitrary: s) (simp_all add: sha_round_def Let_def)

lemma length_sha_block: "length hs = 8 \<Longrightarrow> length (sha_block hs b) = 8"
  by (simp add: sha_block_def length_sha_rounds)

lemma length_sha_fold: "length hs = 8 \<Longrightarrow> length (foldl sha_block hs bs) = 8"
  by (induction bs arbitrary: hs) (auto simp: length_sha_block)

lemma length_hash [simp]: "length (hash s) = 64"
proof -
  have 8: "length (sha256_words m) = 8" for m
    unfolding sha256_words_def by (rule length_sha_fold) (simp add: sha_init_def)
  have "length (hash s) = sum_list (map (\<lambda>w. 8) (sha256_words (map of_char s)))"
    unfolding hash_def by (simp add: length_concat comp_def hex_word_def)
  also have "\<dots> = 64" by (simp add: sum_list_triv 8)
  finally show ?thesis .
qed

lemma length_stableID [simp]: "length (stableID p s) = length p + 32"
  by (simp add: stableID_def)

lemma stableID_neq_prefix:
  assumes "length p = length q" and "p \<noteq> q"
  shows "stableID p s \<noteq> stableID q t"
  using assms by (simp add: stableID_def)

lemma stableID_same_prefix [simp]: "stableID p s = stableID p t \<longleftrightarrow> take 32 (hash s) = take 32 (hash t)"
  by (simp add: stableID_def)

end
