(* ===== verification/GoJson.thy ===== *)
theory GoJson
  imports Prelude
begin

text \<open>
  The part of Go's \<open>encoding/json\<close> the program's identities depend on: \<open>json.Marshal\<close> of a string,
  of a \<open>[]string\<close> and of a \<open>map[string]string\<close> (sorted by key, \<open>null\<close> for a nil map), with the
  HTML-safe escaping and the replacement of invalid UTF-8 that \<open>Marshal\<close> does.
\<close>

section \<open>UTF-8\<close>

definition in_range :: "nat \<Rightarrow> nat \<Rightarrow> char \<Rightarrow> bool" where
  "in_range lo hi c \<longleftrightarrow> lo \<le> of_char c \<and> of_char c \<le> hi"

abbreviation cont_byte :: "char \<Rightarrow> bool" where
  "cont_byte \<equiv> in_range 0x80 0xBF"

text \<open>The length of the valid multi-byte sequence at the head of a byte string, 0 for none.\<close>

definition utf8_len :: "string \<Rightarrow> nat" where
  "utf8_len s =
     (case s of
        b0 # b1 # rest \<Rightarrow>
          if in_range 0xC2 0xDF b0 \<and> cont_byte b1 then 2
          else if (in_range 0xE0 0xE0 b0 \<and> in_range 0xA0 0xBF b1
                   \<or> in_range 0xED 0xED b0 \<and> in_range 0x80 0x9F b1
                   \<or> (in_range 0xE1 0xEC b0 \<or> in_range 0xEE 0xEF b0) \<and> cont_byte b1)
                  \<and> (case rest of b2 # _ \<Rightarrow> cont_byte b2 | [] \<Rightarrow> False) then 3
          else if (in_range 0xF0 0xF0 b0 \<and> in_range 0x90 0xBF b1
                   \<or> in_range 0xF4 0xF4 b0 \<and> in_range 0x80 0x8F b1
                   \<or> in_range 0xF1 0xF3 b0 \<and> cont_byte b1)
                  \<and> (case rest of b2 # b3 # _ \<Rightarrow> cont_byte b2 \<and> cont_byte b3 | _ \<Rightarrow> False) then 4
          else 0
      | _ \<Rightarrow> 0)"

section \<open>Strings\<close>

definition hex_nibble :: "nat \<Rightarrow> char" where
  "hex_nibble n = ''0123456789abcdef'' ! (n mod 16)"

definition json_escape :: "char \<Rightarrow> string" where
  "json_escape c =
     (let n = of_char c :: nat; bs = char_of (92::nat) in
      if n = 34 \<or> n = 92 then [bs, c]
      else if n = 8 then [bs, CHR ''b'']
      else if n = 12 then [bs, CHR ''f'']
      else if n = 10 then [bs, CHR ''n'']
      else if n = 13 then [bs, CHR ''r'']
      else if n = 9 then [bs, CHR ''t'']
      else if n < 32 \<or> n = 38 \<or> n = 60 \<or> n = 62
      then [bs] @ ''u00'' @ [hex_nibble (n div 16), hex_nibble n]
      else [c])"

definition line_sep :: "string" where "line_sep = bytes [0xE2, 0x80, 0xA8]"
definition para_sep :: "string" where "para_sep = bytes [0xE2, 0x80, 0xA9]"

function json_chars :: "string \<Rightarrow> string" where
  "json_chars [] = []"
| "json_chars (c # s) =
     (if (of_char c :: nat) < 128 then json_escape c @ json_chars s
      else let n = utf8_len (c # s); bs = char_of (92::nat) in
        if n = 0 then [bs] @ ''ufffd'' @ json_chars s
        else if take 3 (c # s) = line_sep then [bs] @ ''u2028'' @ json_chars (drop 3 (c # s))
        else if take 3 (c # s) = para_sep then [bs] @ ''u2029'' @ json_chars (drop 3 (c # s))
        else take n (c # s) @ json_chars (drop n (c # s)))"
  by pat_completeness auto
termination
  by (relation "measure length") auto

definition json_string :: "string \<Rightarrow> string" where
  "json_string s = [CHR 0x22] @ json_chars s @ [CHR 0x22]"

section \<open>Arrays and maps\<close>

definition json_strings :: "string list \<Rightarrow> string" where
  "json_strings ss = ''['' @ join_with '','' (map json_string ss) @ '']''"

definition json_map :: "gomap \<Rightarrow> string" where
  "json_map m =
     ''{'' @ join_with '','' (map (\<lambda>(k, v). json_string k @ '':'' @ json_string v) (sort_key fst m)) @ ''}''"

definition json_map_opt :: "gomap option \<Rightarrow> string" where
  "json_map_opt m = (case m of None \<Rightarrow> ''null'' | Some m \<Rightarrow> json_map m)"

end
