(* ===== verification/Tables.thy ===== *)
theory Tables
  imports Prelude
begin

text \<open>
  SQLite tables. A table is the list of its rows in \<open>rowid\<close> order: \<open>INSERT\<close> appends, \<open>UPDATE\<close>
  rewrites in place, \<open>INSERT OR IGNORE\<close> does nothing when the key is taken and
  \<open>INSERT OR REPLACE\<close> removes the old row and appends the new one, which gets a new \<open>rowid\<close>.
  A key is a function of the row (the primary key, or one of the \<open>UNIQUE\<close> columns).

  The locale \<open>rel_table\<close> is the interface the transactions rely on. It is interpreted for the list
  tables here, and every table of the schema is an instance of it.
\<close>

definition tget :: "('r \<Rightarrow> 'k) \<Rightarrow> 'k \<Rightarrow> 'r list \<Rightarrow> 'r option" where
  "tget key k t = find (\<lambda>r. key r = k) t"

definition tins :: "('r \<Rightarrow> 'k) \<Rightarrow> 'r \<Rightarrow> 'r list \<Rightarrow> 'r list option" where
  "tins key r t = (if key r \<in> set (map key t) then None else Some (t @ [r]))"

definition tign :: "('r \<Rightarrow> 'k) \<Rightarrow> 'r \<Rightarrow> 'r list \<Rightarrow> 'r list" where
  "tign key r t = (if key r \<in> set (map key t) then t else t @ [r])"

definition trep :: "('r \<Rightarrow> 'k) \<Rightarrow> 'r \<Rightarrow> 'r list \<Rightarrow> 'r list" where
  "trep key r t = filter (\<lambda>x. key x \<noteq> key r) t @ [r]"

definition tupd :: "('r \<Rightarrow> 'k) \<Rightarrow> 'k \<Rightarrow> ('r \<Rightarrow> 'r) \<Rightarrow> 'r list \<Rightarrow> 'r list" where
  "tupd key k f t = map (\<lambda>r. if key r = k then f r else r) t"

definition tkeys :: "('r \<Rightarrow> 'k) \<Rightarrow> 'r list \<Rightarrow> 'k set" where
  "tkeys key t = set (map key t)"

definition tok :: "('r \<Rightarrow> 'k) \<Rightarrow> 'r list \<Rightarrow> bool" where
  "tok key t \<longleftrightarrow> distinct (map key t)"

section \<open>The interface\<close>

locale rel_table =
  fixes key :: "'r \<Rightarrow> 'k"
    and get :: "'k \<Rightarrow> 't \<Rightarrow> 'r option"
    and ins :: "'r \<Rightarrow> 't \<Rightarrow> 't option"
    and ign :: "'r \<Rightarrow> 't \<Rightarrow> 't"
    and upd :: "'k \<Rightarrow> ('r \<Rightarrow> 'r) \<Rightarrow> 't \<Rightarrow> 't"
    and rows :: "'t \<Rightarrow> 'r set"
    and ok :: "'t \<Rightarrow> bool"
  assumes get_rows: "get k t = Some r \<Longrightarrow> r \<in> rows t \<and> key r = k"
    and get_None: "get k t = None \<longleftrightarrow> (\<forall>r \<in> rows t. key r \<noteq> k)"
    and get_unique: "ok t \<Longrightarrow> r \<in> rows t \<Longrightarrow> get (key r) t = Some r"
    and ins_iff: "ins r t = None \<longleftrightarrow> get (key r) t \<noteq> None"
    and ins_rows: "ins r t = Some t' \<Longrightarrow> rows t' = insert r (rows t)"
    and ins_ok: "ins r t = Some t' \<Longrightarrow> ok t \<Longrightarrow> ok t'"
    and ign_ins: "ign r t = (case ins r t of None \<Rightarrow> t | Some t' \<Rightarrow> t')"
    and upd_rows: "rows (upd k f t) = (\<lambda>r. if key r = k then f r else r) ` rows t"
    and upd_ok: "(\<And>r. key (f r) = key r) \<Longrightarrow> ok t \<Longrightarrow> ok (upd k f t)"
begin

lemma get_ins:
  assumes "ins r t = Some t'" and "ok t"
  shows "get k t' = (if key r = k then Some r else get k t)"
proof (cases "get k t'")
  case None
  have all: "\<forall>x \<in> insert r (rows t). key x \<noteq> k"
    using None get_None [of k t'] ins_rows [OF assms(1)] by simp
  then have "get k t = None" using get_None [of k t] by auto
  with all None show ?thesis by auto
next
  case (Some x)
  have x: "x \<in> insert r (rows t)" "key x = k"
    using get_rows [OF Some] ins_rows [OF assms(1)] by auto
  have fresh: "\<forall>y \<in> rows t. key y \<noteq> key r"
    using ins_iff [of r t] assms(1) get_None [of "key r" t] by auto
  show ?thesis
  proof (cases "key r = k")
    case True
    with x fresh Some show ?thesis by auto
  next
    case False
    with x have "x \<in> rows t" by auto
    with get_unique [OF assms(2)] x(2) Some False show ?thesis by auto
  qed
qed

lemma get_ign:
  assumes "ok t"
  shows "get k (ign r t) = (if key r = k \<and> get k t = None then Some r else get k t)"
proof (cases "ins r t")
  case None
  then show ?thesis using ins_iff [of r t] by (auto simp: ign_ins)
next
  case (Some t')
  then have "get (key r) t = None" using ins_iff [of r t] by auto
  with Some get_ins [OF Some assms] show ?thesis by (auto simp: ign_ins)
qed

lemma ign_keeps: "r \<in> rows t \<Longrightarrow> r \<in> rows (ign x t)"
  by (cases "ins x t") (auto simp: ign_ins ins_rows)

lemma ign_present: "\<exists>y \<in> rows (ign r t). key y = key r"
proof (cases "ins r t")
  case None
  then obtain y where "get (key r) t = Some y" using ins_iff [of r t] by auto
  with get_rows None show ?thesis by (auto simp: ign_ins)
next
  case (Some t')
  then show ?thesis by (auto simp: ign_ins ins_rows)
qed

lemma ign_ok: "ok t \<Longrightarrow> ok (ign r t)"
  by (cases "ins r t") (auto simp: ign_ins ins_ok)

lemma get_upd:
  assumes "\<And>r. key (f r) = key r" and "ok t"
  shows "get k' (upd k f t) = (if k' = k then map_option f (get k t) else get k' t)"
proof (cases "get k' t")
  case None
  then have "\<forall>r \<in> rows (upd k f t). key r \<noteq> k'"
    using assms(1) get_None [of k' t] by (auto simp: upd_rows)
  then have "get k' (upd k f t) = None" by (simp add: get_None)
  with None show ?thesis by auto
next
  case (Some r)
  then have r: "r \<in> rows t" "key r = k'" using get_rows by auto
  let ?r = "if key r = k then f r else r"
  have "?r \<in> rows (upd k f t)" using r(1) by (auto simp: upd_rows)
  moreover have "key ?r = k'" using assms(1) r(2) by simp
  moreover have "ok (upd k f t)" using assms by (rule upd_ok)
  ultimately have "get k' (upd k f t) = Some ?r"
    using get_unique [of "upd k f t" ?r] by simp
  with r(2) Some show ?thesis by auto
qed

end

section \<open>List tables implement it\<close>

lemma find_distinct_key:
  assumes "distinct (map key t)" and "r \<in> set t"
  shows "find (\<lambda>x. key x = key r) t = Some r"
  using assms by (induction t) force+

lemma tget_None_iff: "tget key k t = None \<longleftrightarrow> k \<notin> set (map key t)"
  unfolding tget_def by (induction t) auto

interpretation lt: rel_table
  where key = key and get = "tget key" and ins = "tins key" and ign = "tign key"
    and upd = "tupd key" and rows = set and ok = "tok key"
  for key :: "'r \<Rightarrow> 'k"
proof
  show "tget key k t = Some r \<Longrightarrow> r \<in> set t \<and> key r = k" for k t r
    by (auto simp: tget_def dest: find_SomeD)
  show "(tget key k t = None) = (\<forall>r \<in> set t. key r \<noteq> k)" for k t
    by (auto simp: tget_None_iff)
  show "tok key t \<Longrightarrow> r \<in> set t \<Longrightarrow> tget key (key r) t = Some r" for t r
    by (simp add: tget_def tok_def find_distinct_key)
  show "(tins key r t = None) = (tget key (key r) t \<noteq> None)" for r t
    by (simp add: tins_def tget_None_iff)
  show "tins key r t = Some t' \<Longrightarrow> set t' = insert r (set t)" for r t t'
    by (auto simp: tins_def split: if_splits)
  show "tins key r t = Some t' \<Longrightarrow> tok key t \<Longrightarrow> tok key t'" for r t t'
    by (auto simp: tins_def tok_def split: if_splits)
  show "tign key r t = (case tins key r t of None \<Rightarrow> t | Some t' \<Rightarrow> t')" for r t
    by (simp add: tign_def tins_def)
  show "set (tupd key k f t) = (\<lambda>r. if key r = k then f r else r) ` set t" for k f t
    by (simp add: tupd_def)
  show "(\<And>r. key (f r) = key r) \<Longrightarrow> tok key t \<Longrightarrow> tok key (tupd key k f t)" for f t k
    by (simp add: tok_def tupd_def comp_def if_distrib cong: if_cong)
qed

section \<open>Facts of the list representation\<close>

lemma tget_SomeD: "tget key k t = Some r \<Longrightarrow> r \<in> set t \<and> key r = k"
  by (rule lt.get_rows)

lemma map_key_tupd: "(\<And>r. key (f r) = key r) \<Longrightarrow> map key (tupd key k f t) = map key t"
  by (simp add: tupd_def comp_def if_distrib cong: if_cong)

lemma tok_trep: "tok key t \<Longrightarrow> tok key (trep key r t)"
  by (auto simp: tok_def trep_def distinct_map_filter)

lemma tget_trep: "tget key k (trep key r t) = (if key r = k then Some r else tget key k t)"
proof -
  have "find (\<lambda>x. key x = k) (filter (\<lambda>x. key x \<noteq> key r) t)
        = (if key r = k then None else find (\<lambda>x. key x = k) t)"
    by (induction t) auto
  then show ?thesis by (auto simp: tget_def trep_def find_append split: option.splits)
qed

lemma length_tign: "length (tign key r t) = length t + (if tget key (key r) t = None then 1 else 0)"
  by (simp add: tign_def tget_None_iff)

lemma tign_id: "tget key (key r) t \<noteq> None \<Longrightarrow> tign key r t = t"
  by (simp add: tign_def tget_None_iff)

lemma filter_tign_other:
  "\<not> P r \<Longrightarrow> filter P (tign key r t) = filter P t"
  by (simp add: tign_def)

lemma filter_tupd_frame:
  assumes "\<And>r. key r = k \<Longrightarrow> \<not> P r \<and> \<not> P (f r)"
  shows "filter P (tupd key k f t) = filter P t"
  using assms by (induction t) (auto simp: tupd_def)

end
