(* ===== verification/Model.thy ===== *)
theory Model
  imports
    Complex_Main
    "HOL-Library.Product_Lexorder"
    GoTime Sha256 GoJson Tables
begin

text \<open>
  The data model and the database (\<open>src/internal/workspace/model.go\<close> and
  \<open>database.go\<close>): the structs as records, the SQLite schema as a record of list tables, the
  row queries, \<open>saveRun\<close> and \<open>addEvent\<close>.

  A \<open>data\<close> column holds the JSON of a struct; the model keeps the struct itself. The round trip
  through JSON is the identity on the program's values up to the replacement of invalid UTF-8, which
  is not modelled. Pointers are options. Counters that start at zero and only count up are naturals.
  A status is the string the code uses. Floats are real numbers.

  A SQL transaction is a function from the database to an error or a new database: an error is the
  deferred \<open>Rollback\<close>, so nothing of the transaction is kept. \<open>now\<close> is the clock, read once
  per transaction. \<open>PRIMARY KEY\<close>, \<open>UNIQUE\<close> and \<open>REFERENCES\<close> violations are
  \<open>ErrConstraint\<close>. Failures of the disk or of the SQLite library are not modelled.
\<close>

section \<open>Errors\<close>

datatype ws_error =
    ErrConflict
  | ErrUnavailable
  | ErrFenced
  | ErrNoRows
  | ErrConstraint
  | ErrCanceled
  | ErrDeadline
  | ErrSkipRetry
  | ErrTaskIDConflict
  | ErrJSON
  | ErrMsg string

type_synonym 'a ws = "(ws_error, 'a) res"

definition ensure :: "bool \<Rightarrow> ws_error \<Rightarrow> 'a ws \<Rightarrow> 'a ws" where
  "ensure b e m = (if b then m else Inl e)"

lemma ensure_eq_Inr [simp]: "(ensure b e m = Inr x) = (b \<and> m = Inr x)"
  by (simp add: ensure_def)

section \<open>The structs of model.go\<close>

record incident =
  inc_id :: string
  inc_source_namespace :: string
  inc_environment :: string
  inc_service :: string
  inc_name :: string
  inc_severity :: string
  inc_lifecycle_status :: string
  inc_starts_at :: "string option"
  inc_resolved_at :: "string option"
  inc_first_received_at :: string
  inc_last_observed_at :: string
  inc_identity_quality :: string
  inc_latest_run_id :: "string option"

record api_error =
  ae_code :: string
  ae_message :: string
  ae_retryable :: bool

record run =
  run_id :: string
  run_incident_ids :: "string list"
  run_status :: string
  run_dispatch_state :: string
  run_evidence_status :: string
  run_notification_status :: string
  run_judge_score :: "int option"
  run_received_at :: string
  run_started_at :: "string option"
  run_finished_at :: "string option"
  run_duration_ms :: "int option"
  run_current_attempt :: nat
  run_revision :: nat
  run_report_text :: "string option"
  run_citation_ids :: "string list"
  run_error :: "api_error option"

record event =
  ev_event_id :: string
  ev_run_id :: string
  ev_attempt :: nat
  ev_sequence :: nat
  ev_stage :: string
  ev_stage_attempt :: nat
  ev_kind :: string
  ev_occurred_at :: string
  ev_duration_ms :: "int option"
  ev_result_ref :: "string option"
  ev_error :: "api_error option"

record observation =
  obs_name :: string
  obs_severity :: string
  obs_description :: string
  obs_labels :: "gomap option"
  obs_annotations :: "gomap option"
  obs_starts_at :: string
  obs_ends_at :: string
  obs_status :: string

text \<open>The values a \<open>map[string]any\<close> of the program holds.\<close>

datatype meta = MNull | MStr string | MInt int | MBool bool | MObs observation

record evidence =
  evi_id :: string
  evi_kind :: string
  evi_source_kind :: string
  evi_source_ref :: string
  evi_recorded_at :: string
  evi_observed_at :: "string option"
  evi_document_id :: "string option"
  evi_version_id :: "string option"
  evi_chunk_id :: "string option"
  evi_snippet :: "string option"
  evi_metadata :: "(string \<times> meta) list"

record document =
  doc_id :: string
  doc_title :: string
  doc_source_kind :: string
  doc_environment :: string
  doc_active_version_id :: "string option"
  doc_deleted_at :: "string option"
  doc_index_status :: string

record chunk =
  chk_id :: string
  chk_version_id :: string
  chk_document_id :: string
  chk_title :: string
  chk_snippet :: string
  chk_source :: string
  chk_space_id :: string

record version =
  ver_id :: string
  ver_document_id :: string
  ver_content :: string
  ver_content_sha256 :: string
  ver_created_at :: string
  ver_status :: string
  ver_index_status :: string
  ver_space_id :: string
  ver_chunks :: "chunk list"

text \<open>\<open>const SafeReport\<close>\<close>

definition SafeReport :: string where
  "SafeReport = bytes [0xE5, 0xBD, 0x93, 0xE5, 0x89, 0x8D, 0xE6, 0x9C, 0xAA, 0xE6, 0x89, 0xBE, 0xE5,
    0x88, 0xB0, 0xE5, 0x8F, 0xAF, 0xE7, 0x94, 0xA8, 0xE4, 0xBA, 0x8E, 0xE5, 0xA4, 0x84, 0xE7, 0xBD,
    0xAE, 0xE7, 0x9A, 0x84, 0xE5, 0x90, 0x88, 0xE6, 0xA0, 0xBC, 0xE7, 0x9F, 0xA5, 0xE8, 0xAF, 0x86,
    0xEF, 0xBC, 0x8C, 0xE8, 0xAF, 0xB7, 0xE4, 0xBA, 0xBA, 0xE5, 0xB7, 0xA5, 0xE7, 0xA0, 0x94, 0xE5,
    0x88, 0xA4, 0xE3, 0x80, 0x82]"

section \<open>The schema\<close>

record incident_row =
  ir_id :: string
  ir_key :: string
  ir_environment :: string
  ir_service :: string
  ir_received_at :: string
  ir_data :: incident

record observation_row =
  or_id :: string
  or_incident :: "string option"
  or_event_key :: string
  or_data :: observation

record run_row =
  rr_id :: string
  rr_business_key :: string
  rr_status :: string
  rr_received_at :: string
  rr_attempt :: nat
  rr_lease_until :: "string option"
  rr_revision :: nat
  rr_data :: run

record event_row =
  er_id :: string
  er_run :: string
  er_seq :: nat
  er_data :: event

record document_row =
  dr_id :: string
  dr_namespace :: string
  dr_title :: string
  dr_data :: document

record version_row =
  vr_id :: string
  vr_document :: string
  vr_content_hash :: string
  vr_data :: version

record chunk_row =
  kr_id :: string
  kr_version :: string
  kr_data :: chunk

record retrieval_row =
  tr_id :: string
  tr_run :: string
  tr_incident :: string
  tr_data :: evidence

text \<open>The \<open>map[string]any\<close> that \<open>diagnose\<close> stores for a hit.\<close>

record hit_data =
  hd_rank :: nat
  hd_dense_score :: "real option"
  hd_bm25_score :: "real option"
  hd_rrf_score :: real
  hd_eligibility :: bool

record hit_row =
  hr_retrieval :: string
  hr_chunk :: string
  hr_data :: hit_data

record citation_row =
  cr_run :: string
  cr_incident :: string
  cr_retrieval :: string
  cr_chunk :: string
  cr_evidence :: string

record evidence_row =
  vi_id :: string
  vi_run :: "string option"
  vi_incident :: "string option"
  vi_data :: evidence

text \<open>
  An outbox payload is the JSON of one of three structs; the notification payload is the legacy
  report, of which the consumers read the \<open>id\<close>. Decoding a payload as another struct ignores the
  fields it does not know, so each reader below gives the zero values for the other structs.
\<close>

record legacy_citation =
  lc_doc :: string
  lc_snippet :: "string option"
  lc_source :: string
  lc_version_id :: "string option"
  lc_chunk_id :: "string option"

record legacy_report =
  lr_id :: string
  lr_status :: string
  lr_received_at :: string
  lr_alerts :: "observation list"
  lr_diagnosis :: string
  lr_citations :: "legacy_citation list"
  lr_score :: int
  lr_low_score :: bool
  lr_evidence_status :: string
  lr_notification_status :: string
  lr_legacy_incomplete :: bool
  lr_archived :: "string option"

datatype payload =
    PDiagnosis string "observation list"
  | PNotification legacy_report
  | PCleanup string string

record outbox_row =
  ob_id :: string
  ob_kind :: string
  ob_dedupe_key :: string
  ob_payload :: payload
  ob_state :: string
  ob_attempts :: nat
  ob_next_at :: string
  ob_last_error :: "string option"

record idempotency_row =
  idm_scope :: string
  idm_key :: string
  idm_body_hash :: string
  idm_result_id :: string

record db =
  t_incidents :: "incident_row list"
  t_observations :: "observation_row list"
  t_runs :: "run_row list"
  t_run_incidents :: "(string \<times> string) list"
  t_events :: "event_row list"
  t_documents :: "document_row list"
  t_versions :: "version_row list"
  t_chunks :: "chunk_row list"
  t_retrievals :: "retrieval_row list"
  t_hits :: "hit_row list"
  t_citations :: "citation_row list"
  t_evidence :: "evidence_row list"
  t_outbox :: "outbox_row list"
  t_idempotency :: "idempotency_row list"

text \<open>What \<open>migrate\<close> creates: every table, empty.\<close>

definition empty_db :: db where
  "empty_db = \<lparr> t_incidents = [], t_observations = [], t_runs = [], t_run_incidents = [],
     t_events = [], t_documents = [], t_versions = [], t_chunks = [], t_retrievals = [],
     t_hits = [], t_citations = [], t_evidence = [], t_outbox = [], t_idempotency = [] \<rparr>"

section \<open>Queries\<close>

definition get_run :: "string \<Rightarrow> db \<Rightarrow> run ws" where
  "get_run i d = res_of ErrNoRows (map_option rr_data (tget rr_id i (t_runs d)))"

definition get_incident :: "string \<Rightarrow> db \<Rightarrow> incident ws" where
  "get_incident i d = res_of ErrNoRows (map_option ir_data (tget ir_id i (t_incidents d)))"

definition get_document :: "string \<Rightarrow> db \<Rightarrow> document ws" where
  "get_document i d = res_of ErrNoRows (map_option dr_data (tget dr_id i (t_documents d)))"

definition get_version :: "string \<Rightarrow> db \<Rightarrow> version ws" where
  "get_version i d = res_of ErrNoRows (map_option vr_data (tget vr_id i (t_versions d)))"

definition get_evidence :: "string \<Rightarrow> db \<Rightarrow> evidence ws" where
  "get_evidence i d = res_of ErrNoRows (map_option vi_data (tget vi_id i (t_evidence d)))"

definition get_chunk :: "string \<Rightarrow> db \<Rightarrow> chunk ws" where
  "get_chunk i d = res_of ErrNoRows (map_option kr_data (tget kr_id i (t_chunks d)))"

definition desc :: "('r \<Rightarrow> string \<times> string) \<Rightarrow> 'r list \<Rightarrow> 'r list" where
  "desc k t = rev (sort_key k t)"

definition list_runs :: "db \<Rightarrow> run list" where
  "list_runs d = map rr_data (desc (\<lambda>r. (rr_received_at r, rr_id r)) (t_runs d))"

definition list_incidents :: "db \<Rightarrow> incident list" where
  "list_incidents d = map ir_data (desc (\<lambda>r. (ir_received_at r, ir_id r)) (t_incidents d))"

definition list_documents :: "db \<Rightarrow> document list" where
  "list_documents d = map dr_data (sort_key (\<lambda>r. (dr_title r, dr_id r)) (t_documents d))"

definition list_versions :: "string \<Rightarrow> db \<Rightarrow> version list" where
  "list_versions i d = map vr_data (rev (filter (\<lambda>r. vr_document r = i) (t_versions d)))"

text \<open>A negative \<open>LIMIT\<close> is no limit in SQLite.\<close>

definition limit_rows :: "int \<Rightarrow> 'r list \<Rightarrow> 'r list" where
  "limit_rows n xs = (if n < 0 then xs else take (nat n) xs)"

definition list_events :: "string \<Rightarrow> int \<Rightarrow> int \<Rightarrow> db \<Rightarrow> event list" where
  "list_events i after n d =
     map er_data (limit_rows n (sort_key er_seq
       (filter (\<lambda>r. er_run r = i \<and> after < int (er_seq r)) (t_events d))))"

section \<open>saveRun and addEvent\<close>

definition saveRun :: "run \<Rightarrow> db \<Rightarrow> db" where
  "saveRun r d = d\<lparr>t_runs := tupd rr_id (run_id r)
     (\<lambda>x. x\<lparr>rr_status := run_status r, rr_attempt := run_current_attempt r,
            rr_revision := run_revision r, rr_data := r\<rparr>) (t_runs d)\<rparr>"

definition run_seqs :: "string \<Rightarrow> event_row list \<Rightarrow> nat list" where
  "run_seqs i t = map er_seq (filter (\<lambda>e. er_run e = i) t)"

definition next_seq :: "string \<Rightarrow> event_row list \<Rightarrow> nat" where
  "next_seq i t = foldr max (run_seqs i t) 0 + 1"

definition execution_stage :: "string \<Rightarrow> string" where
  "execution_stage stage = (if stage = ''notification'' then ''notification'' else ''queue'')"

definition started_count :: "string \<Rightarrow> string \<Rightarrow> event_row list \<Rightarrow> nat" where
  "started_count i stage t =
     length (filter (\<lambda>e. er_run e = i \<and> ev_stage (er_data e) = stage
                         \<and> ev_kind (er_data e) = ''started'') t)"

definition event_id :: "string \<Rightarrow> nat \<Rightarrow> string" where
  "event_id i seq = stableID ''evt_'' (i @ '':'' @ dec seq)"

definition stage_attempt :: "string \<Rightarrow> string \<Rightarrow> string \<Rightarrow> event_row list \<Rightarrow> nat" where
  "stage_attempt i stage kind t =
     (let n = started_count i (execution_stage stage) t
      in max 1 (if stage = execution_stage stage \<and> kind = ''started'' then n + 1 else n))"

definition has_run :: "string \<Rightarrow> db \<Rightarrow> bool" where
  "has_run i d \<longleftrightarrow> tget rr_id i (t_runs d) \<noteq> None"

definition has_incident :: "string \<Rightarrow> db \<Rightarrow> bool" where
  "has_incident i d \<longleftrightarrow> tget ir_id i (t_incidents d) \<noteq> None"

definition addEvent :: "run \<Rightarrow> string \<Rightarrow> string \<Rightarrow> int option \<Rightarrow> string option \<Rightarrow>
    api_error option \<Rightarrow> time \<Rightarrow> db \<Rightarrow> db ws" where
  "addEvent r stage kind ms ref ae now d =
     (let i = run_id r; seq = next_seq i (t_events d);
          e = \<lparr> ev_event_id = event_id i seq, ev_run_id = i, ev_attempt = run_current_attempt r,
                ev_sequence = seq, ev_stage = stage,
                ev_stage_attempt = stage_attempt i stage kind (t_events d), ev_kind = kind,
                ev_occurred_at = fmt_nano now, ev_duration_ms = ms, ev_result_ref = ref,
                ev_error = ae \<rparr>
      in ensure (has_run i d) ErrConstraint
         (ensure (seq \<notin> set (run_seqs i (t_events d))) ErrConstraint
         (res_bind (res_of ErrConstraint
            (tins er_id \<lparr> er_id = ev_event_id e, er_run = i, er_seq = seq, er_data = e \<rparr> (t_events d)))
            (\<lambda>t. Inr (d\<lparr>t_events := t\<rparr>)))))"

text \<open>The final states of a run.\<close>

definition terminal :: "string \<Rightarrow> bool" where
  "terminal s \<longleftrightarrow> s = ''succeeded'' \<or> s = ''failed'' \<or> s = ''cancelled''"

section \<open>Queries return what the tables hold\<close>

lemma get_run_Inr:
  "get_run i d = Inr r \<longleftrightarrow> (\<exists>row. tget rr_id i (t_runs d) = Some row \<and> rr_data row = r)"
  by (auto simp: get_run_def)

lemma get_incident_Inr:
  "get_incident i d = Inr r \<longleftrightarrow> (\<exists>row. tget ir_id i (t_incidents d) = Some row \<and> ir_data row = r)"
  by (auto simp: get_incident_def)

lemma get_document_Inr:
  "get_document i d = Inr r \<longleftrightarrow> (\<exists>row. tget dr_id i (t_documents d) = Some row \<and> dr_data row = r)"
  by (auto simp: get_document_def)

lemma get_version_Inr:
  "get_version i d = Inr r \<longleftrightarrow> (\<exists>row. tget vr_id i (t_versions d) = Some row \<and> vr_data row = r)"
  by (auto simp: get_version_def)

lemma get_evidence_Inr:
  "get_evidence i d = Inr r \<longleftrightarrow> (\<exists>row. tget vi_id i (t_evidence d) = Some row \<and> vi_data row = r)"
  by (auto simp: get_evidence_def)

lemma get_chunk_Inr:
  "get_chunk i d = Inr r \<longleftrightarrow> (\<exists>row. tget kr_id i (t_chunks d) = Some row \<and> kr_data row = r)"
  by (auto simp: get_chunk_def)

lemmas get_Inr = get_run_Inr get_incident_Inr get_document_Inr get_version_Inr get_evidence_Inr
  get_chunk_Inr

section \<open>The run table\<close>

text \<open>The columns of a run row repeat fields of its \<open>data\<close>: they must agree.\<close>

definition row_agrees :: "run_row \<Rightarrow> bool" where
  "row_agrees x \<longleftrightarrow> run_id (rr_data x) = rr_id x \<and> run_status (rr_data x) = rr_status x
     \<and> run_current_attempt (rr_data x) = rr_attempt x \<and> run_revision (rr_data x) = rr_revision x"

definition runs_ok :: "db \<Rightarrow> bool" where
  "runs_ok d \<longleftrightarrow> tok rr_id (t_runs d) \<and> tok rr_business_key (t_runs d) \<and> list_all row_agrees (t_runs d)"

lemma runs_okD:
  assumes "runs_ok d"
  shows "tok rr_id (t_runs d)" and "x \<in> set (t_runs d) \<Longrightarrow> row_agrees x"
  using assms by (auto simp: runs_ok_def list_all_iff)

lemma runs_ok_cong: "t_runs d' = t_runs d \<Longrightarrow> runs_ok d' = runs_ok d"
  by (simp add: runs_ok_def)

lemma map_tupd_other: "(\<And>x. key x = k \<Longrightarrow> g (f x) = g x) \<Longrightarrow> map g (tupd key k f t) = map g t"
  by (induction t) (auto simp: tupd_def)

lemma runs_ok_saveRun [ws_inv]: "runs_ok d \<Longrightarrow> runs_ok (saveRun r d)"
  by (auto simp: runs_ok_def saveRun_def tok_def map_tupd_other list_all_iff lt.upd_rows row_agrees_def)

lemma saveRun_frame [simp]:
  "t_incidents (saveRun r d) = t_incidents d" "t_observations (saveRun r d) = t_observations d"
  "t_run_incidents (saveRun r d) = t_run_incidents d" "t_events (saveRun r d) = t_events d"
  "t_documents (saveRun r d) = t_documents d" "t_versions (saveRun r d) = t_versions d"
  "t_chunks (saveRun r d) = t_chunks d" "t_retrievals (saveRun r d) = t_retrievals d"
  "t_hits (saveRun r d) = t_hits d" "t_citations (saveRun r d) = t_citations d"
  "t_evidence (saveRun r d) = t_evidence d" "t_outbox (saveRun r d) = t_outbox d"
  "t_idempotency (saveRun r d) = t_idempotency d"
  by (simp_all add: saveRun_def)

lemma tget_saveRun:
  assumes "tok rr_id (t_runs d)"
  shows "tget rr_id i (t_runs (saveRun r d)) =
    (if i = run_id r
     then map_option (\<lambda>x. x\<lparr>rr_status := run_status r, rr_attempt := run_current_attempt r,
            rr_revision := run_revision r, rr_data := r\<rparr>) (tget rr_id i (t_runs d))
     else tget rr_id i (t_runs d))"
  unfolding saveRun_def using assms by (simp add: lt.get_upd)

lemma get_run_saveRun:
  assumes "runs_ok d"
  shows "get_run i (saveRun r d) =
    (if i = run_id r \<and> has_run i d then Inr r else get_run i d)"
  using runs_okD(1) [OF assms]
  by (cases "tget rr_id i (t_runs d)") (auto simp: get_run_def tget_saveRun has_run_def)

lemma has_run_keys: "has_run i d \<longleftrightarrow> i \<in> rr_id ` set (t_runs d)"
  by (simp add: has_run_def tget_None_iff)

lemma has_incident_keys: "has_incident i d \<longleftrightarrow> i \<in> ir_id ` set (t_incidents d)"
  by (simp add: has_incident_def tget_None_iff)

lemma run_keys_saveRun [simp]: "map rr_id (t_runs (saveRun r d)) = map rr_id (t_runs d)"
  by (simp add: saveRun_def map_tupd_other)

lemma has_run_saveRun [simp]: "has_run i (saveRun r d) = has_run i d"
  by (simp add: has_run_def tget_None_iff flip: set_map)

lemma get_run_has: "get_run i d = Inr r \<Longrightarrow> has_run i d"
  by (auto simp: get_run_Inr has_run_def)

lemma get_run_id:
  assumes "runs_ok d" and "get_run i d = Inr r"
  shows "run_id r = i"
  using assms runs_okD(2) [OF assms(1)] by (auto simp: get_run_Inr row_agrees_def dest!: tget_SomeD)

section \<open>The event table\<close>

definition event_agrees :: "event_row \<Rightarrow> bool" where
  "event_agrees e \<longleftrightarrow> ev_event_id (er_data e) = er_id e \<and> ev_run_id (er_data e) = er_run e
     \<and> ev_sequence (er_data e) = er_seq e \<and> er_id e = event_id (er_run e) (er_seq e)"

text \<open>Every run's events are numbered 1, 2, 3 and so on, in the order of insertion.\<close>

definition dense :: "nat list \<Rightarrow> bool" where
  "dense ns \<longleftrightarrow> ns = [1..<Suc (length ns)]"

definition events_ok :: "db \<Rightarrow> bool" where
  "events_ok d \<longleftrightarrow> tok er_id (t_events d)
     \<and> list_all (\<lambda>e. event_agrees e \<and> has_run (er_run e) d
                      \<and> dense (run_seqs (er_run e) (t_events d))) (t_events d)"

lemma dense_Nil [simp]: "dense []"
  by (simp add: dense_def)

lemma dense_snoc: "dense ns \<Longrightarrow> dense (ns @ [Suc (length ns)])"
  by (simp add: dense_def)

lemma foldr_max_upt: "foldr max [Suc 0..<Suc n] 0 = n"
proof (induction n)
  case (Suc n)
  have gen: "foldr max ns m = max (foldr max ns 0) m" for ns and m :: nat
    by (induction ns) auto
  show ?case
    using Suc gen [of "[Suc 0..<Suc n]" "Suc n"] by simp
qed simp

lemma dense_max: "dense ns \<Longrightarrow> foldr max ns 0 = length ns"
  by (metis dense_def foldr_max_upt One_nat_def)

lemma events_ok_dense: "events_ok d \<Longrightarrow> dense (run_seqs i (t_events d))"
proof (cases "run_seqs i (t_events d) = []")
  case False
  assume "events_ok d"
  moreover from False obtain e where "e \<in> set (t_events d)" "er_run e = i"
    by (auto simp: run_seqs_def filter_empty_conv)
  ultimately show ?thesis by (auto simp: events_ok_def list_all_iff)
qed simp

lemma next_seq_dense: "dense (run_seqs i t) \<Longrightarrow> next_seq i t = Suc (length (run_seqs i t))"
  by (simp add: next_seq_def dense_max)

lemma run_seqs_snoc [simp]:
  "run_seqs i (t @ [e]) = (if er_run e = i then run_seqs i t @ [er_seq e] else run_seqs i t)"
  by (simp add: run_seqs_def)

text \<open>What a successful \<open>addEvent\<close> does: it appends one row for the run.\<close>

lemma addEvent_Inr:
  assumes "addEvent r stage kind ms ref ae now d = Inr d'"
  obtains row where "d' = d\<lparr>t_events := t_events d @ [row]\<rparr>" and "er_run row = run_id r"
    and "er_seq row = next_seq (run_id r) (t_events d)" and "event_agrees row"
    and "er_id row \<notin> set (map er_id (t_events d))" and "has_run (run_id r) d"
    and "ev_stage (er_data row) = stage" and "ev_kind (er_data row) = kind"
    and "ev_attempt (er_data row) = run_current_attempt r" and "ev_error (er_data row) = ae"
    and "ev_result_ref (er_data row) = ref" and "ev_duration_ms (er_data row) = ms"
  using assms
  by (auto simp: addEvent_def Let_def res_bind_eq_Inr tins_def event_agrees_def split: if_splits)

lemma addEvent_frame:
  assumes "addEvent r stage kind ms ref ae now d = Inr d'"
  shows "d' = d\<lparr>t_events := t_events d'\<rparr>"
  using assms by (auto elim: addEvent_Inr)

lemma addEvent_same [ws_frame]:
  assumes "addEvent r stage kind ms ref ae now d = Inr d'"
  shows "t_incidents d' = t_incidents d" "t_observations d' = t_observations d"
    "t_runs d' = t_runs d" "t_run_incidents d' = t_run_incidents d"
    "t_documents d' = t_documents d" "t_versions d' = t_versions d" "t_chunks d' = t_chunks d"
    "t_retrievals d' = t_retrievals d" "t_hits d' = t_hits d" "t_citations d' = t_citations d"
    "t_evidence d' = t_evidence d" "t_outbox d' = t_outbox d" "t_idempotency d' = t_idempotency d"
  using assms by (auto elim: addEvent_Inr)

lemma has_run_cong: "t_runs d' = t_runs d \<Longrightarrow> has_run i d' = has_run i d"
  by (simp add: has_run_def)

lemma events_ok_addEvent [ws_inv]:
  assumes "addEvent r stage kind ms ref ae now d = Inr d'" and "events_ok d"
  shows "events_ok d'"
proof -
  obtain row where d': "d' = d\<lparr>t_events := t_events d @ [row]\<rparr>"
    and row: "er_run row = run_id r" "er_seq row = next_seq (run_id r) (t_events d)"
      "event_agrees row" "er_id row \<notin> set (map er_id (t_events d))" "has_run (run_id r) d"
    using assms(1) by (rule addEvent_Inr)
  have "dense (run_seqs i (t_events d'))" for i
    using events_ok_dense [OF assms(2), of i] row(1,2)
    by (auto simp: d' next_seq_dense intro: dense_snoc)
  then show ?thesis
    using assms(2) row by (auto simp: events_ok_def d' tok_def list_all_iff has_run_def)
qed

lemma events_ok_cong:
  "t_events d' = t_events d \<Longrightarrow> map rr_id (t_runs d') = map rr_id (t_runs d)
    \<Longrightarrow> events_ok d' = events_ok d"
  by (simp add: events_ok_def has_run_def tget_None_iff flip: set_map)

lemma events_ok_grow:
  assumes "events_ok d" and "t_events d' = t_events d"
    and "rr_id ` set (t_runs d) \<subseteq> rr_id ` set (t_runs d')"
  shows "events_ok d'"
  using assms by (auto simp: events_ok_def list_all_iff has_run_keys)

end
