(* ===== verification/Admission.thy ===== *)
theory Admission
  imports Model
begin

text \<open>
  Admission (\<open>src/internal/workspace/admission.go\<close>): the canonical identity of an alert, the
  decoding of an alert batch, and the transactions \<open>Admit\<close> and \<open>ReDiagnose\<close> with
  \<open>insertRun\<close>.

  The bytes of a request are read by Go's JSON parser; the model starts from the parsed value
  (\<open>None\<close> for a syntax error) and spells out what \<open>json.Unmarshal\<close> does with it: field names
  match without regard to ASCII case, \<open>null\<close> leaves a field as it is, another type is an error.
\<close>

section \<open>Identity\<close>

definition label :: "gomap option \<Rightarrow> string \<Rightarrow> string" where
  "label m k = (case m of None \<Rightarrow> [] | Some m \<Rightarrow> mget m k)"

definition or_else :: "string \<Rightarrow> string \<Rightarrow> string" where
  "or_else s t = (if s = [] then t else s)"

definition canonical_labels :: "observation \<Rightarrow> gomap" where
  "canonical_labels o1 =
     (let m = (case obs_labels o1 of None \<Rightarrow> [] | Some m \<Rightarrow> m)
      in if mget m ''alertname'' = [] then mput ''alertname'' (obs_name o1) m else m)"

definition canonical :: "observation \<Rightarrow> time \<Rightarrow> (string \<times> string \<times> string option) ws" where
  "canonical o1 now =
     (let labels = canonical_labels o1;
          env = or_else (mget labels ''environment'') ''unknown'';
          key = (\<lambda>epoch. hash (''alert-v1:alertmanager:'' @ env @ '':'' @ json_map labels @ '':'' @ epoch))
      in ensure (mget labels ''alertname'' \<noteq> []) (ErrMsg ''alertname required'')
           (if obs_starts_at o1 \<noteq> [] then
              res_bind (res_of (ErrMsg ''invalid startsAt'') (parse_nano (obs_starts_at o1)))
                (\<lambda>t. Inr (key (fmt_nano t), ''exact'', Some (fmt_nano t)))
            else Inr (key (fmt_sec (truncate_to five_minutes now)), ''windowed'', None)))"

definition severity :: "string \<Rightarrow> string" where
  "severity s =
     (let l = to_lower s in
      if l = ''p0'' \<or> l = ''critical'' then ''P0''
      else if l = ''p1'' \<or> l = ''warning'' then ''P1''
      else if l = ''p2'' then ''P2''
      else if l = ''p3'' \<or> l = ''info'' then ''P3''
      else ''unknown'')"

section \<open>Decoding a batch\<close>

datatype json = JNull | JBool bool | JNum string | JStr string | JArr "json list"
  | JObj "(string \<times> json) list"

definition jvalues :: "string \<Rightarrow> (string \<times> json) list \<Rightarrow> json list" where
  "jvalues f kvs = map snd (filter (\<lambda>(k, v). to_lower k = to_lower f) kvs)"

definition set_string :: "json \<Rightarrow> string \<Rightarrow> string ws" where
  "set_string v old = (case v of JNull \<Rightarrow> Inr old | JStr s \<Rightarrow> Inr s | _ \<Rightarrow> Inl ErrJSON)"

definition set_entry :: "string \<times> json \<Rightarrow> gomap \<Rightarrow> gomap ws" where
  "set_entry kv m =
     (case kv of (k, v) \<Rightarrow> res_bind (set_string v []) (\<lambda>s. Inr (mput k s m)))"

definition set_map :: "json \<Rightarrow> gomap option \<Rightarrow> gomap option ws" where
  "set_map v old =
     (case v of
        JNull \<Rightarrow> Inr None
      | JObj kvs \<Rightarrow>
          res_bind (fold_res set_entry kvs (case old of None \<Rightarrow> [] | Some m \<Rightarrow> m)) (\<lambda>m. Inr (Some m))
      | _ \<Rightarrow> Inl ErrJSON)"

definition str_field :: "string \<Rightarrow> (string \<times> json) list \<Rightarrow> string ws" where
  "str_field f kvs = fold_res set_string (jvalues f kvs) []"

definition map_field :: "string \<Rightarrow> (string \<times> json) list \<Rightarrow> gomap option ws" where
  "map_field f kvs = fold_res set_map (jvalues f kvs) None"

text \<open>A JSON number decodes into an \<open>int\<close> when its literal is an integer of 64 bits.\<close>

definition int_literal :: "string \<Rightarrow> int option" where
  "int_literal s =
     (let neg = has_prefix s ''-''; ds = (if neg then tl s else s);
          v = (if neg then - int (dec_val 0 ds) else int (dec_val 0 ds))
      in if ds \<noteq> [] \<and> list_all is_digit ds \<and> - (2 ^ 63) \<le> v \<and> v < 2 ^ 63 then Some v else None)"

definition set_int :: "json \<Rightarrow> int \<Rightarrow> int ws" where
  "set_int v old = (case v of JNull \<Rightarrow> Inr old | JNum s \<Rightarrow> res_of ErrJSON (int_literal s) | _ \<Rightarrow> Inl ErrJSON)"

definition set_bool :: "json \<Rightarrow> bool \<Rightarrow> bool ws" where
  "set_bool v old = (case v of JNull \<Rightarrow> Inr old | JBool b \<Rightarrow> Inr b | _ \<Rightarrow> Inl ErrJSON)"

definition int_field :: "string \<Rightarrow> (string \<times> json) list \<Rightarrow> int ws" where
  "int_field f kvs = fold_res set_int (jvalues f kvs) 0"

definition zero_observation :: observation where
  "zero_observation = \<lparr> obs_name = [], obs_severity = [], obs_description = [], obs_labels = None,
     obs_annotations = None, obs_starts_at = [], obs_ends_at = [], obs_status = [] \<rparr>"

text \<open>The fields an element of \<open>alerts\<close> shares with an \<open>Observation\<close>.\<close>

definition unmarshal_alert :: "json \<Rightarrow> observation ws" where
  "unmarshal_alert j =
     (case j of
        JNull \<Rightarrow> Inr zero_observation
      | JObj kvs \<Rightarrow>
          res_bind (str_field ''status'' kvs) (\<lambda>st.
          res_bind (map_field ''labels'' kvs) (\<lambda>ls.
          res_bind (map_field ''annotations'' kvs) (\<lambda>an.
          res_bind (str_field ''startsAt'' kvs) (\<lambda>sa.
          res_bind (str_field ''endsAt'' kvs) (\<lambda>ea.
            Inr (zero_observation\<lparr>obs_status := st, obs_labels := ls, obs_annotations := an,
                   obs_starts_at := sa, obs_ends_at := ea\<rparr>))))))
      | _ \<Rightarrow> Inl ErrJSON)"

definition unmarshal_observation :: "json \<Rightarrow> observation ws" where
  "unmarshal_observation j =
     (case j of
        JObj kvs \<Rightarrow>
          res_bind (unmarshal_alert j) (\<lambda>a.
          res_bind (str_field ''name'' kvs) (\<lambda>nm.
          res_bind (str_field ''severity'' kvs) (\<lambda>sv.
          res_bind (str_field ''description'' kvs) (\<lambda>de.
            Inr (a\<lparr>obs_name := nm, obs_severity := sv, obs_description := de\<rparr>)))))
      | _ \<Rightarrow> unmarshal_alert j)"

definition set_alerts :: "json \<Rightarrow> observation list option \<Rightarrow> observation list option ws" where
  "set_alerts v old =
     (case v of
        JNull \<Rightarrow> Inr None
      | JArr js \<Rightarrow> res_bind (map_res unmarshal_alert js) (\<lambda>as. Inr (Some as))
      | _ \<Rightarrow> Inl ErrJSON)"

text \<open>The anonymous struct of \<open>ParseObservations\<close>: the batch status and the alerts.\<close>

definition unmarshal_root :: "json \<Rightarrow> (string \<times> observation list option) ws" where
  "unmarshal_root j =
     (case j of
        JNull \<Rightarrow> Inr ([], None)
      | JObj kvs \<Rightarrow>
          res_bind (str_field ''status'' kvs) (\<lambda>st.
          res_bind (fold_res set_alerts (jvalues ''alerts'' kvs) None) (\<lambda>as. Inr (st, as)))
      | _ \<Rightarrow> Inl ErrJSON)"

definition alert_observation :: "string \<Rightarrow> observation \<Rightarrow> observation" where
  "alert_observation root_status a =
     a\<lparr>obs_name := label (obs_labels a) ''alertname'',
       obs_severity := label (obs_labels a) ''severity'',
       obs_description := or_else (label (obs_annotations a) ''description'')
                                  (label (obs_annotations a) ''summary''),
       obs_status := or_else (or_else (obs_status a) root_status) ''firing''\<rparr>"

definition single_observation :: "observation \<Rightarrow> observation" where
  "single_observation a =
     a\<lparr>obs_name := or_else (obs_name a) (label (obs_labels a) ''alertname''),
       obs_description := or_else (obs_description a) (label (obs_annotations a) ''description'')\<rparr>"

definition check_observation :: "observation \<Rightarrow> observation ws" where
  "check_observation o1 =
     (let st = or_else (obs_status o1) ''firing'';
          ls = (case obs_labels o1 of None \<Rightarrow> [] | Some m \<Rightarrow> m);
          ls' = (if mget ls ''alertname'' = [] then mput ''alertname'' (obs_name o1) ls else ls);
          nm = or_else (obs_name o1) (mget ls' ''alertname'')
      in ensure (st = ''firing'' \<or> st = ''resolved'') (ErrMsg ''invalid alert status'')
         (ensure (nm \<noteq> []) (ErrMsg ''alertname required'')
           (Inr (o1\<lparr>obs_status := st, obs_labels := Some ls', obs_name := nm\<rparr>))))"

definition decode_batch :: "json \<Rightarrow> observation list ws" where
  "decode_batch j =
     (case unmarshal_root j of
        Inl _ \<Rightarrow> Inl (ErrMsg ''invalid alert JSON'')
      | Inr (root_status, Some as) \<Rightarrow> Inr (map (alert_observation root_status) as)
      | Inr (_, None) \<Rightarrow>
          res_bind (unmarshal_observation j) (\<lambda>a.
            let one = single_observation a in
            if obs_name one \<noteq> [] then Inr [one\<lparr>obs_status := or_else (obs_status one) ''firing''\<rparr>]
            else (case j of
                    JArr js \<Rightarrow> (case map_res unmarshal_observation js of Inl _ \<Rightarrow> Inr [] | Inr l \<Rightarrow> Inr l)
                  | _ \<Rightarrow> Inr [])))"

definition ParseObservations :: "json option \<Rightarrow> observation list ws" where
  "ParseObservations raw =
     (case raw of
        None \<Rightarrow> Inl (ErrMsg ''invalid alert JSON'')
      | Some j \<Rightarrow>
          res_bind (decode_batch j) (\<lambda>out.
          ensure (out \<noteq> [] \<and> length out \<le> 100)
                 (ErrMsg ''alert batch must contain 1..100 observations'')
            (map_res check_observation out)))"

section \<open>Runs\<close>

definition json_member :: "string \<Rightarrow> string \<Rightarrow> string" where
  "json_member k v = json_string k @ '':'' @ v"

definition marshal_observation :: "observation \<Rightarrow> string" where
  "marshal_observation o1 = ''{'' @ join_with '',''
     [json_member ''name'' (json_string (obs_name o1)),
      json_member ''severity'' (json_string (obs_severity o1)),
      json_member ''description'' (json_string (obs_description o1)),
      json_member ''labels'' (json_map_opt (obs_labels o1)),
      json_member ''annotations'' (json_map_opt (obs_annotations o1)),
      json_member ''startsAt'' (json_string (obs_starts_at o1)),
      json_member ''endsAt'' (json_string (obs_ends_at o1)),
      json_member ''status'' (json_string (obs_status o1))] @ ''}''"

text \<open>\<open>INSERT OR IGNORE INTO alert_observations\<close>: either key may be taken.\<close>

definition add_observation :: "string option \<Rightarrow> string \<Rightarrow> observation \<Rightarrow> db \<Rightarrow> db" where
  "add_observation inc key o1 d =
     (let r = \<lparr> or_id = stableID ''obs_'' (key @ marshal_observation o1), or_incident = inc,
                or_event_key = hash (key @ marshal_observation o1), or_data = o1 \<rparr>
      in if or_event_key r \<in> set (map or_event_key (t_observations d)) then d
         else d\<lparr>t_observations := tign or_id r (t_observations d)\<rparr>)"

definition latest_observation :: "string \<Rightarrow> db \<Rightarrow> observation option" where
  "latest_observation i d =
     map_option or_data (find (\<lambda>r. or_incident r = Some i) (rev (t_observations d)))"

definition link_incident :: "run \<Rightarrow> string \<Rightarrow> db \<Rightarrow> db ws" where
  "link_incident r i d =
     ensure (has_incident i d \<and> (run_id r, i) \<notin> set (t_run_incidents d)) ErrConstraint
       (Inr (d\<lparr>t_run_incidents := t_run_incidents d @ [(run_id r, i)],
               t_incidents := tupd ir_id i
                 (\<lambda>x. x\<lparr>ir_data := (ir_data x)\<lparr>inc_latest_run_id := Some (run_id r)\<rparr>\<rparr>)
                 (t_incidents d)\<rparr>))"

definition alert_evidence_id :: "string \<Rightarrow> string \<Rightarrow> string" where
  "alert_evidence_id r i = stableID ''alert_'' (r @ i)"

definition add_alert_evidence :: "run \<Rightarrow> string \<Rightarrow> db \<Rightarrow> db ws" where
  "add_alert_evidence r i d =
     (case latest_observation i d of
        None \<Rightarrow> Inr d
      | Some o1 \<Rightarrow>
          (let ev = \<lparr> evi_id = alert_evidence_id (run_id r) i, evi_kind = ''alert_observation'',
                      evi_source_kind = ''manual'', evi_source_ref = i,
                      evi_recorded_at = run_received_at r, evi_observed_at = Some (obs_starts_at o1),
                      evi_document_id = None, evi_version_id = None, evi_chunk_id = None,
                      evi_snippet = None,
                      evi_metadata = [(''observation'', MObs o1), (''run_id'', MStr (run_id r)),
                                      (''incident_id'', MStr i)] \<rparr>
           in res_bind (res_of ErrConstraint (tins vi_id
                \<lparr> vi_id = evi_id ev, vi_run = Some (run_id r), vi_incident = Some i, vi_data = ev \<rparr>
                (t_evidence d)))
                (\<lambda>t. Inr (d\<lparr>t_evidence := t\<rparr>))))"

definition diagnosis_key :: "string \<Rightarrow> string" where
  "diagnosis_key i = ''diagnosis:'' @ i"

definition insert_outbox :: "outbox_row \<Rightarrow> db \<Rightarrow> db ws" where
  "insert_outbox r d =
     ensure (ob_dedupe_key r \<notin> set (map ob_dedupe_key (t_outbox d))) ErrConstraint
       (res_bind (res_of ErrConstraint (tins ob_id r (t_outbox d))) (\<lambda>t. Inr (d\<lparr>t_outbox := t\<rparr>)))"

definition diagnosis_outbox :: "string \<Rightarrow> observation list \<Rightarrow> time \<Rightarrow> outbox_row" where
  "diagnosis_outbox i obs now =
     \<lparr> ob_id = diagnosis_key i, ob_kind = ''diagnosis'', ob_dedupe_key = diagnosis_key i,
       ob_payload = PDiagnosis i obs, ob_state = ''pending'', ob_attempts = 0,
       ob_next_at = fmt_nano now, ob_last_error = None \<rparr>"

definition insert_run_row :: "run \<Rightarrow> string \<Rightarrow> db \<Rightarrow> db ws" where
  "insert_run_row r business d =
     ensure (business \<notin> set (map rr_business_key (t_runs d))) ErrConstraint
       (res_bind (res_of ErrConstraint (tins rr_id
          \<lparr> rr_id = run_id r, rr_business_key = business, rr_status = run_status r,
            rr_received_at = run_received_at r, rr_attempt = 0, rr_lease_until = None,
            rr_revision = 1, rr_data = r \<rparr> (t_runs d)))
          (\<lambda>t. Inr (d\<lparr>t_runs := t\<rparr>)))"

definition insertRun :: "run \<Rightarrow> string \<Rightarrow> observation list \<Rightarrow> time \<Rightarrow> db \<Rightarrow> db ws" where
  "insertRun r business obs now d =
     res_bind (insert_run_row r business d) (\<lambda>d.
     res_bind (fold_res (link_incident r) (run_incident_ids r) d) (\<lambda>d.
     res_bind (fold_res (add_alert_evidence r) (run_incident_ids r) d) (\<lambda>d.
     res_bind (fold_res (\<lambda>stage. addEvent r stage ''succeeded'' None None None now)
                        [''receive'', ''queue''] d) (\<lambda>d.
       insert_outbox (diagnosis_outbox (run_id r) obs now) d))))"

text \<open>The run both callers insert.\<close>

definition queued_run :: "string \<Rightarrow> string list \<Rightarrow> time \<Rightarrow> run" where
  "queued_run business ids now =
     \<lparr> run_id = stableID ''run_'' business, run_incident_ids = ids, run_status = ''queued'',
       run_dispatch_state = ''pending'', run_evidence_status = ''not_evaluated'',
       run_notification_status = ''disabled'', run_judge_score = None,
       run_received_at = fmt_nano now, run_started_at = None, run_finished_at = None,
       run_duration_ms = None, run_current_attempt = 0, run_revision = 1, run_report_text = None,
       run_citation_ids = [], run_error = None \<rparr>"

section \<open>Admit\<close>

text \<open>The incident of a first firing observation.\<close>

definition new_incident :: "observation \<Rightarrow> string \<Rightarrow> string \<Rightarrow> string option \<Rightarrow> time \<Rightarrow> incident" where
  "new_incident o1 i quality start now =
     \<lparr> inc_id = i, inc_source_namespace = ''alertmanager'',
       inc_environment = or_else (label (obs_labels o1) ''environment'') ''unknown'',
       inc_service = or_else (label (obs_labels o1) ''service'') ''unknown'',
       inc_name = obs_name o1, inc_severity = severity (obs_severity o1),
       inc_lifecycle_status = ''active'', inc_starts_at = start, inc_resolved_at = None,
       inc_first_received_at = fmt_nano now, inc_last_observed_at = fmt_nano now,
       inc_identity_quality = quality, inc_latest_run_id = None \<rparr>"

definition insert_incident :: "string \<Rightarrow> incident \<Rightarrow> db \<Rightarrow> db ws" where
  "insert_incident key inc d =
     ensure (key \<notin> set (map ir_key (t_incidents d))) ErrConstraint
       (res_bind (res_of ErrConstraint (tins ir_id
          \<lparr> ir_id = inc_id inc, ir_key = key, ir_environment = inc_environment inc,
            ir_service = inc_service inc, ir_received_at = inc_first_received_at inc,
            ir_data = inc \<rparr> (t_incidents d)))
          (\<lambda>t. Inr (d\<lparr>t_incidents := t\<rparr>)))"

text \<open>The branch of a resolved observation: it may close the incident, never reopen it.\<close>

definition resolve_incident :: "observation \<Rightarrow> string option \<Rightarrow> incident \<Rightarrow> incident ws" where
  "resolve_incident o1 start inc =
     (case start of
        None \<Rightarrow> Inl (ErrMsg ''resolved observation requires startsAt and endsAt'')
      | Some s \<Rightarrow>
          ensure (obs_ends_at o1 \<noteq> []) (ErrMsg ''resolved observation requires startsAt and endsAt'')
            (case parse_nano (obs_ends_at o1) of
               None \<Rightarrow> Inl (ErrMsg ''invalid endsAt'')
             | Some end_t \<Rightarrow>
                 ensure (case parse_nano s of None \<Rightarrow> True | Some begin_t \<Rightarrow> begin_t \<le> end_t)
                        (ErrMsg ''invalid endsAt'')
                   (let val = fmt_nano end_t in
                    Inr (case inc_resolved_at inc of
                           None \<Rightarrow> inc\<lparr>inc_resolved_at := Some val, inc_lifecycle_status := ''resolved''\<rparr>
                         | Some old \<Rightarrow>
                             if val > old
                             then inc\<lparr>inc_resolved_at := Some val, inc_lifecycle_status := ''resolved''\<rparr>
                             else inc))))"

definition observe_incident :: "time \<Rightarrow> string \<Rightarrow> observation \<Rightarrow> string option \<Rightarrow> incident \<Rightarrow>
    string list \<Rightarrow> db \<Rightarrow> (string list \<times> db) ws" where
  "observe_incident now key o1 start inc ids d =
     (let i = stableID ''inc_'' key in
      res_bind (if obs_status o1 = ''resolved'' then resolve_incident o1 start inc else Inr inc)
        (\<lambda>inc. Inr
          (if obs_status o1 = ''resolved'' then ids else ids @ [i],
           add_observation (Some i) key o1
             (d\<lparr>t_incidents := tupd ir_id i
                  (\<lambda>x. x\<lparr>ir_data := inc\<lparr>inc_last_observed_at := fmt_nano now\<rparr>\<rparr>) (t_incidents d)\<rparr>))))"

definition admit_one :: "time \<Rightarrow> observation \<Rightarrow> string list \<times> db \<Rightarrow> (string list \<times> db) ws" where
  "admit_one now o1 st =
     (case st of (ids, d) \<Rightarrow>
      res_bind (canonical o1 now) (\<lambda>(key, quality, start).
        let i = stableID ''inc_'' key in
        case tget ir_id i (t_incidents d) of
          Some row \<Rightarrow> observe_incident now key o1 start (ir_data row) ids d
        | None \<Rightarrow>
            if obs_status o1 = ''resolved'' then Inr (ids, add_observation None key o1 d)
            else (let inc = new_incident o1 i quality start now in
                  res_bind (insert_incident key inc d)
                    (observe_incident now key o1 start inc ids))))"

fun unique :: "string list \<Rightarrow> string list" where
  "unique [] = []"
| "unique [x] = [x]"
| "unique (x # y # xs) = (if x = y then unique (y # xs) else x # unique (y # xs))"

definition business_key :: "string list \<Rightarrow> string" where
  "business_key ids = hash (''policy-v1:'' @ join_with '','' ids)"

definition Admit :: "observation list \<Rightarrow> bool \<Rightarrow> time \<Rightarrow> db \<Rightarrow> ((run option \<times> bool) \<times> db) ws" where
  "Admit obs knownReady now d =
     ensure (obs \<noteq> [] \<and> length obs \<le> 100) (ErrMsg ''invalid batch size'')
     (res_bind (fold_res (admit_one now) obs ([], d)) (\<lambda>(ids, d).
        let ids = unique (sort ids) in
        if ids = [] then Inr ((None, False), d)
        else let business = business_key ids in
          case tget rr_business_key business (t_runs d) of
            Some row \<Rightarrow> Inr ((Some (rr_data row), True), d)
          | None \<Rightarrow>
              ensure knownReady ErrUnavailable
                (let r = queued_run business ids now in
                 res_bind (insertRun r business obs now d) (\<lambda>d. Inr ((Some r, False), d)))))"

section \<open>ReDiagnose\<close>

definition get_idempotency :: "string \<Rightarrow> string \<Rightarrow> db \<Rightarrow> idempotency_row option" where
  "get_idempotency scope key d =
     tget (\<lambda>r. (idm_scope r, idm_key r)) (scope, key) (t_idempotency d)"

definition manual_key :: "string \<Rightarrow> string \<Rightarrow> string" where
  "manual_key incident key = hash (''manual:'' @ incident @ '':'' @ key)"

definition insert_idempotency :: "string \<Rightarrow> string \<Rightarrow> string \<Rightarrow> string \<Rightarrow> db \<Rightarrow> db ws" where
  "insert_idempotency scope key body result d =
     res_bind (res_of ErrConstraint (tins (\<lambda>r. (idm_scope r, idm_key r))
        \<lparr> idm_scope = scope, idm_key = key, idm_body_hash = body, idm_result_id = result \<rparr>
        (t_idempotency d)))
       (\<lambda>t. Inr (d\<lparr>t_idempotency := t\<rparr>))"

definition ReDiagnose :: "string \<Rightarrow> string \<Rightarrow> string \<Rightarrow> bool \<Rightarrow> time \<Rightarrow> db \<Rightarrow> (run \<times> db) ws" where
  "ReDiagnose incident key body ready now d =
     ensure (key \<noteq> [] \<and> length key \<le> 200) (ErrMsg ''Idempotency-Key required'')
     (case get_idempotency (''run:'' @ incident) key d of
        Some row \<Rightarrow>
          ensure (idm_body_hash row = hash body) ErrConflict
            (res_bind (get_run (idm_result_id row) d) (\<lambda>r. Inr (r, d)))
      | None \<Rightarrow>
          ensure ready ErrUnavailable
          (res_bind (get_incident incident d) (\<lambda>inc.
            case latest_observation incident d of
              None \<Rightarrow> Inl (ErrMsg ''observation unavailable'')
            | Some o1 \<Rightarrow>
                (let business = manual_key incident key; r = queued_run business [inc_id inc] now in
                 res_bind (insertRun r business [o1\<lparr>obs_status := ''firing''\<rparr>] now d) (\<lambda>d.
                 res_bind (insert_idempotency (''run:'' @ incident) key (hash body) (run_id r) d) (\<lambda>d.
                   Inr (r, d)))))))"

section \<open>The decoded batch\<close>

definition observation_ok :: "observation \<Rightarrow> bool" where
  "observation_ok o1 \<longleftrightarrow> (obs_status o1 = ''firing'' \<or> obs_status o1 = ''resolved'')
     \<and> obs_name o1 \<noteq> [] \<and> obs_labels o1 \<noteq> None \<and> label (obs_labels o1) ''alertname'' \<noteq> []"

lemma check_observation_ok: "check_observation o1 = Inr o2 \<Longrightarrow> observation_ok o2"
  by (auto simp: check_observation_def observation_ok_def Let_def label_def or_else_def mget_mput
      split: if_splits)

lemma ParseObservations_Inr:
  assumes "ParseObservations raw = Inr os"
  shows "1 \<le> length os \<and> length os \<le> 100 \<and> list_all observation_ok os"
proof -
  obtain xs where "xs \<noteq> []" "length xs \<le> 100" "list_all2 (\<lambda>x y. check_observation x = Inr y) xs os"
    using assms
    by (auto simp: ParseObservations_def res_bind_eq_Inr map_res_Inr split: option.splits)
  then show ?thesis
    by (auto simp: list_all_length list_all2_conv_all_nth check_observation_ok Suc_le_eq)
qed

text \<open>A checked observation always has an identity, unless its start time is malformed.\<close>

lemma canonical_defined:
  assumes "observation_ok o1" and "obs_starts_at o1 = [] \<or> parse_nano (obs_starts_at o1) \<noteq> None"
  obtains key quality start where "canonical o1 now = Inr (key, quality, start)"
    and "(start = None) = (obs_starts_at o1 = [])"
proof -
  from assms(1) have "mget (canonical_labels o1) ''alertname'' \<noteq> []"
    by (auto simp: observation_ok_def canonical_labels_def label_def split: option.splits)
  then have "canonical o1 now \<noteq> Inl e" for e
    using assms(2) by (cases "parse_nano (obs_starts_at o1)") (auto simp: canonical_def ensure_def Let_def)
  then obtain k where k: "canonical o1 now = Inr k" by (cases "canonical o1 now") auto
  moreover have "(snd (snd k) = None) = (obs_starts_at o1 = [])"
    using k by (auto simp: canonical_def Let_def res_bind_eq_Inr split: if_splits)
  ultimately show ?thesis using that by (cases k) auto
qed

lemma canonical_exact:
  "obs_starts_at o1 \<noteq> [] \<Longrightarrow> canonical o1 now = canonical o1 now'"
  by (simp add: canonical_def Let_def)

section \<open>Effects of insertRun\<close>

lemma tins_Some: "tins key r t = Some t' \<longleftrightarrow> key r \<notin> set (map key t) \<and> t' = t @ [r]"
  by (auto simp: tins_def)

lemma insert_run_row_Inr:
  "insert_run_row r business d = Inr d' \<longleftrightarrow>
     business \<notin> set (map rr_business_key (t_runs d)) \<and> run_id r \<notin> set (map rr_id (t_runs d))
     \<and> d' = d\<lparr>t_runs := t_runs d @ [\<lparr> rr_id = run_id r, rr_business_key = business,
              rr_status = run_status r, rr_received_at = run_received_at r, rr_attempt = 0,
              rr_lease_until = None, rr_revision = 1, rr_data = r \<rparr>]\<rparr>"
  by (auto simp: insert_run_row_def res_bind_eq_Inr tins_Some)

definition set_latest :: "string \<Rightarrow> string list \<Rightarrow> incident_row \<Rightarrow> incident_row" where
  "set_latest rid ids x =
     (if ir_id x \<in> set ids then x\<lparr>ir_data := (ir_data x)\<lparr>inc_latest_run_id := Some rid\<rparr>\<rparr> else x)"

lemma set_latest_id [simp]: "ir_id (set_latest rid ids x) = ir_id x"
  by (simp add: set_latest_def)

lemma link_incident_Inr:
  "link_incident r i d = Inr d' \<longleftrightarrow> has_incident i d \<and> (run_id r, i) \<notin> set (t_run_incidents d)
     \<and> d' = d\<lparr>t_run_incidents := t_run_incidents d @ [(run_id r, i)],
               t_incidents := tupd ir_id i
                 (\<lambda>x. x\<lparr>ir_data := (ir_data x)\<lparr>inc_latest_run_id := Some (run_id r)\<rparr>\<rparr>)
                 (t_incidents d)\<rparr>"
  by (auto simp: link_incident_def)

lemma link_incidents_Inr:
  assumes "fold_res (link_incident r) ids d = Inr d'"
  shows "d' = d\<lparr>t_run_incidents := t_run_incidents d @ map (Pair (run_id r)) ids,
                t_incidents := map (set_latest (run_id r) ids) (t_incidents d)\<rparr>
    \<and> (\<forall>i \<in> set ids. has_incident i d)"
  using assms
proof (induction ids arbitrary: d)
  case Nil
  have "map (set_latest (run_id r) []) t = t" for t by (induction t) (auto simp: set_latest_def)
  with Nil show ?case by simp
next
  case (Cons i ids)
  define e where "e = d\<lparr>t_run_incidents := t_run_incidents d @ [(run_id r, i)],
               t_incidents := tupd ir_id i
                 (\<lambda>x. x\<lparr>ir_data := (ir_data x)\<lparr>inc_latest_run_id := Some (run_id r)\<rparr>\<rparr>)
                 (t_incidents d)\<rparr>"
  from Cons.prems have i: "has_incident i d" and rest: "fold_res (link_incident r) ids e = Inr d'"
    by (auto simp: res_bind_eq_Inr link_incident_Inr e_def)
  have keys: "map ir_id (t_incidents e) = map ir_id (t_incidents d)"
    by (simp add: e_def map_key_tupd)
  have "map (set_latest (run_id r) ids) (t_incidents e) =
        map (set_latest (run_id r) (i # ids)) (t_incidents d)"
    by (auto simp: e_def tupd_def set_latest_def)
  with Cons.IH [OF rest] i keys show ?case
    by (auto simp: e_def has_incident_def tget_None_iff simp flip: set_map)
qed

definition alert_row :: "run \<Rightarrow> string list \<Rightarrow> evidence_row \<Rightarrow> bool" where
  "alert_row r ids e \<longleftrightarrow> vi_run e = Some (run_id r) \<and> (\<exists>i \<in> set ids. vi_incident e = Some i
       \<and> vi_id e = alert_evidence_id (run_id r) i)
     \<and> evi_id (vi_data e) = vi_id e \<and> evi_kind (vi_data e) = ''alert_observation''"

lemma add_alert_evidence_Inr:
  assumes "add_alert_evidence r i d = Inr d'"
  obtains es where "d' = d\<lparr>t_evidence := t_evidence d @ es\<rparr>" and "list_all (alert_row r [i]) es"
    and "tok vi_id (t_evidence d) \<longrightarrow> tok vi_id (t_evidence d')"
  using assms that [of "[]"]
  by (cases "latest_observation i d")
     (auto simp: add_alert_evidence_def res_bind_eq_Inr tins_Some alert_row_def tok_def Let_def)

lemma add_alert_evidences_Inr:
  assumes "fold_res (add_alert_evidence r) ids d = Inr d'"
  shows "\<exists>es. d' = d\<lparr>t_evidence := t_evidence d @ es\<rparr> \<and> list_all (alert_row r ids) es
    \<and> (tok vi_id (t_evidence d) \<longrightarrow> tok vi_id (t_evidence d'))"
  using assms
proof (induction ids arbitrary: d)
  case (Cons i ids)
  then obtain d1 where d1: "add_alert_evidence r i d = Inr d1" "fold_res (add_alert_evidence r) ids d1 = Inr d'"
    by (auto simp: res_bind_eq_Inr)
  from d1(1) obtain es where es: "d1 = d\<lparr>t_evidence := t_evidence d @ es\<rparr>"
    "list_all (alert_row r [i]) es" "tok vi_id (t_evidence d) \<longrightarrow> tok vi_id (t_evidence d1)"
    by (rule add_alert_evidence_Inr)
  from Cons.IH [OF d1(2)] obtain fs where fs: "d' = d1\<lparr>t_evidence := t_evidence d1 @ fs\<rparr>"
    "list_all (alert_row r ids) fs" "tok vi_id (t_evidence d1) \<longrightarrow> tok vi_id (t_evidence d')" by auto
  have "list_all (alert_row r (i # ids)) (es @ fs)"
    using es(2) fs(2) by (auto simp: list_all_iff alert_row_def)
  then show ?case
    using es(1,3) fs(1,3) by (intro exI [of _ "es @ fs"]) auto
qed (auto intro: exI [of _ "[]"])

lemma insert_outbox_Inr:
  "insert_outbox r d = Inr d' \<longleftrightarrow>
     ob_dedupe_key r \<notin> set (map ob_dedupe_key (t_outbox d)) \<and> ob_id r \<notin> set (map ob_id (t_outbox d))
     \<and> d' = d\<lparr>t_outbox := t_outbox d @ [r]\<rparr>"
  by (auto simp: insert_outbox_def res_bind_eq_Inr tins_Some)

text \<open>What a committed \<open>insertRun\<close> has written.\<close>

lemma insertRun_Inr:
  assumes "insertRun r business obs now d = Inr d'"
  obtains es e1 e2 where
    "t_runs d' = t_runs d @ [\<lparr> rr_id = run_id r, rr_business_key = business,
       rr_status = run_status r, rr_received_at = run_received_at r, rr_attempt = 0,
       rr_lease_until = None, rr_revision = 1, rr_data = r \<rparr>]"
    and "business \<notin> set (map rr_business_key (t_runs d))" and "\<not> has_run (run_id r) d"
    and "t_incidents d' = map (set_latest (run_id r) (run_incident_ids r)) (t_incidents d)"
    and "t_run_incidents d' = t_run_incidents d @ map (Pair (run_id r)) (run_incident_ids r)"
    and "\<forall>i \<in> set (run_incident_ids r). has_incident i d"
    and "t_evidence d' = t_evidence d @ es" and "list_all (alert_row r (run_incident_ids r)) es"
    and "tok vi_id (t_evidence d) \<longrightarrow> tok vi_id (t_evidence d')"
    and "t_events d' = t_events d @ [e1, e2]" and "er_run e1 = run_id r" and "er_run e2 = run_id r"
    and "t_outbox d' = t_outbox d @ [diagnosis_outbox (run_id r) obs now]"
    and "diagnosis_key (run_id r) \<notin> set (map ob_dedupe_key (t_outbox d))"
    and "diagnosis_key (run_id r) \<notin> set (map ob_id (t_outbox d))"
    and "t_observations d' = t_observations d" and "t_documents d' = t_documents d"
    and "t_versions d' = t_versions d" and "t_chunks d' = t_chunks d"
    and "t_retrievals d' = t_retrievals d" and "t_hits d' = t_hits d"
    and "t_citations d' = t_citations d" and "t_idempotency d' = t_idempotency d"
    and "events_ok d \<longrightarrow> events_ok d'"
proof -
  from assms obtain d1 d2 d3 d4 d5 where
    1: "insert_run_row r business d = Inr d1" and
    2: "fold_res (link_incident r) (run_incident_ids r) d1 = Inr d2" and
    3: "fold_res (add_alert_evidence r) (run_incident_ids r) d2 = Inr d3" and
    4: "addEvent r ''receive'' ''succeeded'' None None None now d3 = Inr d4" and
    5: "addEvent r ''queue'' ''succeeded'' None None None now d4 = Inr d5" and
    6: "insert_outbox (diagnosis_outbox (run_id r) obs now) d5 = Inr d'"
    by (auto simp: insertRun_def res_bind_eq_Inr)
  from add_alert_evidences_Inr [OF 3] obtain es where
    3: "d3 = d2\<lparr>t_evidence := t_evidence d2 @ es\<rparr>" "list_all (alert_row r (run_incident_ids r)) es"
    "tok vi_id (t_evidence d2) \<longrightarrow> tok vi_id (t_evidence d3)" by auto
  from 4 obtain e1 where e1: "d4 = d3\<lparr>t_events := t_events d3 @ [e1]\<rparr>" "er_run e1 = run_id r"
    by (rule addEvent_Inr)
  from 5 obtain e2 where e2: "d5 = d4\<lparr>t_events := t_events d4 @ [e2]\<rparr>" "er_run e2 = run_id r"
    by (rule addEvent_Inr)
  have grow: "events_ok d3" if "events_ok d"
    using that
    by (rule events_ok_grow) (use 1 link_incidents_Inr [OF 2] 3(1) in \<open>auto simp: insert_run_row_Inr\<close>)
  have "events_ok d \<longrightarrow> events_ok d5"
    using grow 4 5 events_ok_addEvent by blast
  moreover have "events_ok d' = events_ok d5"
    using 6 by (intro events_ok_cong) (auto simp: insert_outbox_Inr)
  ultimately have ev: "events_ok d \<longrightarrow> events_ok d'" by simp
  show ?thesis
    by (rule that [of es e1 e2])
       (use 1 link_incidents_Inr [OF 2] 3 e1 e2 6 ev in
         \<open>auto simp: insert_run_row_Inr insert_outbox_Inr has_run_keys diagnosis_outbox_def has_incident_def\<close>)
qed

section \<open>Well-formedness of the tables admission writes\<close>

definition incident_agrees :: "incident_row \<Rightarrow> bool" where
  "incident_agrees x \<longleftrightarrow> inc_id (ir_data x) = ir_id x \<and> ir_id x = stableID ''inc_'' (ir_key x)
     \<and> inc_environment (ir_data x) = ir_environment x \<and> inc_service (ir_data x) = ir_service x
     \<and> inc_first_received_at (ir_data x) = ir_received_at x"

definition incidents_ok :: "db \<Rightarrow> bool" where
  "incidents_ok d \<longleftrightarrow> tok ir_id (t_incidents d) \<and> tok ir_key (t_incidents d)
     \<and> list_all (\<lambda>x. incident_agrees x
          \<and> (case inc_latest_run_id (ir_data x) of None \<Rightarrow> True | Some r \<Rightarrow> has_run r d)) (t_incidents d)"

text \<open>The join table repeats the incident list of each run.\<close>

definition run_links :: "string \<Rightarrow> db \<Rightarrow> string list" where
  "run_links i d = map snd (filter (\<lambda>l. fst l = i) (t_run_incidents d))"

definition links_ok :: "db \<Rightarrow> bool" where
  "links_ok d \<longleftrightarrow> list_all (\<lambda>l. has_run (fst l) d \<and> has_incident (snd l) d) (t_run_incidents d)
     \<and> list_all (\<lambda>x. run_incident_ids (rr_data x) = run_links (rr_id x) d) (t_runs d)"

definition evidence_ok :: "db \<Rightarrow> bool" where
  "evidence_ok d \<longleftrightarrow> tok vi_id (t_evidence d)
     \<and> list_all (\<lambda>e. evi_id (vi_data e) = vi_id e \<and> (\<forall>r \<in> set_option (vi_run e). has_run r d)) (t_evidence d)"

text \<open>
  A run that is not finished is never lost: its diagnosis row is in the outbox, and while the run is
  queued that row is pending as long as the run waits for dispatch and sent once it is enqueued.
\<close>

definition diagnosis_row :: "string \<Rightarrow> outbox_row \<Rightarrow> bool" where
  "diagnosis_row i ob \<longleftrightarrow> ob_id ob = diagnosis_key i \<and> ob_dedupe_key ob = diagnosis_key i
     \<and> ob_kind ob = ''diagnosis'' \<and> (case ob_payload ob of PDiagnosis j _ \<Rightarrow> j = i | _ \<Rightarrow> False)"

definition dispatch_state :: "run \<Rightarrow> string" where
  "dispatch_state r = (if run_dispatch_state r = ''pending'' then ''pending'' else ''sent'')"

definition outbox_ok :: "db \<Rightarrow> bool" where
  "outbox_ok d \<longleftrightarrow> tok ob_id (t_outbox d) \<and> tok ob_dedupe_key (t_outbox d)
     \<and> list_all (\<lambda>ob. ob_dedupe_key ob = ob_id ob
          \<and> (ob_kind ob = ''diagnosis'' \<longrightarrow>
               (case ob_payload ob of PDiagnosis i _ \<Rightarrow> ob_id ob = diagnosis_key i \<and> has_run i d | _ \<Rightarrow> False)))
        (t_outbox d)"

definition queue_ok :: "db \<Rightarrow> bool" where
  "queue_ok d \<longleftrightarrow> list_all (\<lambda>x. \<not> terminal (rr_status x) \<longrightarrow>
     list_ex (\<lambda>ob. diagnosis_row (rr_id x) ob
       \<and> (rr_status x = ''queued'' \<longrightarrow> ob_state ob = dispatch_state (rr_data x))) (t_outbox d)) (t_runs d)"

lemma diagnosis_key_inject [simp]: "diagnosis_key i = diagnosis_key j \<longleftrightarrow> i = j"
  by (simp add: diagnosis_key_def)

lemma queued_run_simps [simp]:
  "run_id (queued_run b ids now) = stableID ''run_'' b"
  "run_incident_ids (queued_run b ids now) = ids"
  "run_status (queued_run b ids now) = ''queued''"
  "run_dispatch_state (queued_run b ids now) = ''pending''"
  "run_current_attempt (queued_run b ids now) = 0"
  "run_revision (queued_run b ids now) = 1"
  "run_citation_ids (queued_run b ids now) = []"
  "run_report_text (queued_run b ids now) = None"
  by (simp_all add: queued_run_def)

text \<open>\<open>insertRun\<close> keeps them all, for a fresh queued run.\<close>

lemma has_run_insertRun:
  assumes "insertRun r business obs now d = Inr d'"
  shows "has_run i d' \<longleftrightarrow> i = run_id r \<or> has_run i d"
  using assms by (elim insertRun_Inr) (auto simp: has_run_keys)

lemma has_incident_insertRun:
  assumes "insertRun r business obs now d = Inr d'"
  shows "has_incident i d' = has_incident i d"
  using assms by (elim insertRun_Inr) (auto simp: has_incident_keys image_image)

lemma runs_ok_insertRun [ws_inv]:
  assumes "insertRun r business obs now d = Inr d'" and "runs_ok d"
    and "run_current_attempt r = 0" and "run_revision r = 1"
  shows "runs_ok d'"
  using assms(1)
  by (rule insertRun_Inr) (use assms(2-) in \<open>auto simp: runs_ok_def tok_def row_agrees_def has_run_keys\<close>)

lemma events_ok_insertRun [ws_inv]:
  assumes "insertRun r business obs now d = Inr d'" and "events_ok d"
  shows "events_ok d'"
  using assms by (elim insertRun_Inr) auto

lemma incidents_ok_insertRun [ws_inv]:
  assumes ins: "insertRun r business obs now d = Inr d'" and "incidents_ok d"
  shows "incidents_ok d'"
proof -
  have t: "t_incidents d' = map (set_latest (run_id r) (run_incident_ids r)) (t_incidents d)"
    using ins by (rule insertRun_Inr)
  have "ir_key \<circ> set_latest (run_id r) (run_incident_ids r) = ir_key"
    and "ir_id \<circ> set_latest (run_id r) (run_incident_ids r) = ir_id"
    by (auto simp: set_latest_def)
  then show ?thesis
    using assms(2)
    by (auto simp: incidents_ok_def t tok_def list_all_iff has_run_insertRun [OF ins]
        incident_agrees_def set_latest_def split: option.splits)
qed

lemma evidence_ok_insertRun [ws_inv]:
  assumes ins: "insertRun r business obs now d = Inr d'" and "evidence_ok d"
  shows "evidence_ok d'"
  using ins
  by (rule insertRun_Inr)
     (use assms(2) in \<open>auto simp: evidence_ok_def list_all_iff has_run_insertRun [OF ins] alert_row_def\<close>)

lemma run_links_append:
  "run_links i (d\<lparr>t_run_incidents := t_run_incidents d @ map (Pair j) ids\<rparr>)
     = run_links i d @ (if i = j then ids else [])"
  by (auto simp: run_links_def comp_def)

lemma links_ok_insertRun [ws_inv]:
  assumes ins: "insertRun r business obs now d = Inr d'" and ok: "links_ok d" and agree: "runs_ok d"
  shows "links_ok d'"
  using ins
proof (rule insertRun_Inr)
  assume new: "\<not> has_run (run_id r) d"
    and runs: "t_runs d' = t_runs d @ [\<lparr> rr_id = run_id r, rr_business_key = business,
       rr_status = run_status r, rr_received_at = run_received_at r, rr_attempt = 0,
       rr_lease_until = None, rr_revision = 1, rr_data = r \<rparr>]"
    and links: "t_run_incidents d' = t_run_incidents d @ map (Pair (run_id r)) (run_incident_ids r)"
    and inc: "\<forall>i \<in> set (run_incident_ids r). has_incident i d"
  have none: "run_links (run_id r) d = []"
    using ok new by (auto simp: links_ok_def run_links_def list_all_iff filter_empty_conv)
  have rl: "run_links i d' = run_links i d @ (if i = run_id r then run_incident_ids r else [])" for i
    using run_links_append [of i d "run_id r" "run_incident_ids r"] by (simp add: run_links_def links)
  have old: "rr_id x \<noteq> run_id r" if "x \<in> set (t_runs d)" for x
    using that new by (force simp: has_run_keys)
  show ?thesis
    unfolding links_ok_def
  proof
    show "list_all (\<lambda>l. has_run (fst l) d' \<and> has_incident (snd l) d') (t_run_incidents d')"
      using ok inc
      by (auto simp: links_ok_def links list_all_iff has_run_insertRun [OF ins] has_incident_insertRun [OF ins])
    show "list_all (\<lambda>x. run_incident_ids (rr_data x) = run_links (rr_id x) d') (t_runs d')"
      using ok old none by (auto simp: links_ok_def runs rl list_all_iff)
  qed
qed

lemma outbox_ok_insertRun [ws_inv]:
  assumes ins: "insertRun r business obs now d = Inr d'" and "outbox_ok d"
  shows "outbox_ok d'"
  using ins
  by (rule insertRun_Inr)
     (use assms(2) in \<open>auto simp: outbox_ok_def tok_def list_all_iff diagnosis_outbox_def
        has_run_insertRun [OF ins] split: payload.splits\<close>)

lemma queue_ok_insertRun [ws_inv]:
  assumes ins: "insertRun r business obs now d = Inr d'" and "queue_ok d"
    and "run_dispatch_state r = ''pending''"
  shows "queue_ok d'"
  using ins
  by (rule insertRun_Inr)
     (use assms(2,3) in \<open>auto simp: queue_ok_def list_all_iff list_ex_iff diagnosis_outbox_def
        diagnosis_row_def dispatch_state_def\<close>)

section \<open>Effects of Admit\<close>

text \<open>Processing one observation touches the incident and observation tables only.\<close>

definition alert_only :: "db \<Rightarrow> db \<Rightarrow> bool" where
  "alert_only d d' \<longleftrightarrow>
     d' = d\<lparr>t_incidents := t_incidents d', t_observations := t_observations d'\<rparr>"

lemma alert_only_refl [simp]: "alert_only d d"
  by (simp add: alert_only_def)

lemma alert_only_trans: "alert_only d d1 \<Longrightarrow> alert_only d1 d2 \<Longrightarrow> alert_only d d2"
  by (cases d, cases d1, cases d2) (simp add: alert_only_def)

lemma alert_only_same:
  assumes "alert_only d d'"
  shows "t_runs d' = t_runs d" "t_run_incidents d' = t_run_incidents d" "t_events d' = t_events d"
    "t_documents d' = t_documents d" "t_versions d' = t_versions d" "t_chunks d' = t_chunks d"
    "t_retrievals d' = t_retrievals d" "t_hits d' = t_hits d" "t_citations d' = t_citations d"
    "t_evidence d' = t_evidence d" "t_outbox d' = t_outbox d" "t_idempotency d' = t_idempotency d"
  using assms by (cases d, cases d'; simp add: alert_only_def)+

lemma alert_only_add_observation [simp]: "alert_only d (add_observation inc key o1 d)"
  by (simp add: alert_only_def add_observation_def Let_def)

lemma add_observation_incidents [simp]: "t_incidents (add_observation inc key o1 d) = t_incidents d"
  by (simp add: add_observation_def Let_def)

text \<open>
  An incident row keeps its identity and its first facts for ever, and a resolved incident is never
  reopened.
\<close>

definition incident_follows :: "incident_row \<Rightarrow> incident_row \<Rightarrow> bool" where
  "incident_follows x y \<longleftrightarrow> ir_id y = ir_id x \<and> ir_key y = ir_key x
     \<and> ir_received_at y = ir_received_at x
     \<and> inc_name (ir_data y) = inc_name (ir_data x) \<and> inc_severity (ir_data y) = inc_severity (ir_data x)
     \<and> inc_starts_at (ir_data y) = inc_starts_at (ir_data x)
     \<and> inc_environment (ir_data y) = inc_environment (ir_data x)
     \<and> inc_service (ir_data y) = inc_service (ir_data x)
     \<and> (inc_lifecycle_status (ir_data x) = ''resolved'' \<longrightarrow> inc_lifecycle_status (ir_data y) = ''resolved'')
     \<and> (inc_resolved_at (ir_data x) \<noteq> None \<longrightarrow> inc_resolved_at (ir_data y) \<noteq> None)"

definition incidents_follow :: "db \<Rightarrow> db \<Rightarrow> bool" where
  "incidents_follow d d' \<longleftrightarrow>
     (\<forall>x \<in> set (t_incidents d). \<exists>y \<in> set (t_incidents d'). incident_follows x y)"

lemma incident_follows_refl [simp]: "incident_follows x x"
  by (simp add: incident_follows_def)

lemma incidents_follow_refl [simp]: "incidents_follow d d"
  unfolding incidents_follow_def by (meson incident_follows_refl)

lemma incident_follows_trans: "incident_follows x y \<Longrightarrow> incident_follows y z \<Longrightarrow> incident_follows x z"
  by (auto simp: incident_follows_def)

lemma incidents_follow_trans:
  "incidents_follow d d1 \<Longrightarrow> incidents_follow d1 d2 \<Longrightarrow> incidents_follow d d2"
  unfolding incidents_follow_def by (meson incident_follows_trans)

lemma incidents_follow_same: "t_incidents d' = t_incidents d \<Longrightarrow> incidents_follow d d'"
  unfolding incidents_follow_def by (metis incident_follows_refl)

text \<open>What an observation may change of an incident.\<close>

definition only_closes :: "incident \<Rightarrow> incident \<Rightarrow> bool" where
  "only_closes inc inc' \<longleftrightarrow>
     inc' = inc\<lparr>inc_resolved_at := inc_resolved_at inc', inc_lifecycle_status := inc_lifecycle_status inc',
                inc_last_observed_at := inc_last_observed_at inc'\<rparr>
     \<and> (inc_lifecycle_status inc = ''resolved'' \<longrightarrow> inc_lifecycle_status inc' = ''resolved'')
     \<and> (inc_resolved_at inc \<noteq> None \<longrightarrow> inc_resolved_at inc' \<noteq> None)"

lemma only_closes_resolve: "resolve_incident o1 start inc = Inr inc' \<Longrightarrow> only_closes inc inc'"
  by (auto simp: resolve_incident_def Let_def only_closes_def split: option.splits if_splits)

lemma only_closes_observed:
  "only_closes inc inc' \<Longrightarrow> only_closes inc (inc'\<lparr>inc_last_observed_at := t\<rparr>)"
  unfolding only_closes_def by (erule conjE, drule arg_cong [of _ _ "inc_last_observed_at_update (\<lambda>_. t)"]) simp

lemma only_closes_follows:
  "only_closes (ir_data x) inc \<Longrightarrow> incident_follows x (x\<lparr>ir_data := inc\<rparr>)"
  unfolding only_closes_def by (erule conjE, erule ssubst) (auto simp: incident_follows_def)

lemma only_closes_same:
  assumes "only_closes inc inc'"
  shows "inc_id inc' = inc_id inc" "inc_environment inc' = inc_environment inc"
    "inc_service inc' = inc_service inc" "inc_first_received_at inc' = inc_first_received_at inc"
    "inc_latest_run_id inc' = inc_latest_run_id inc" "inc_name inc' = inc_name inc"
    "inc_severity inc' = inc_severity inc"
  using assms by (cases inc, cases inc'; simp add: only_closes_def)+

lemma observe_incident_Inr:
  assumes "observe_incident now key o1 start inc ids d = Inr (ids', d')"
  obtains inc' where
    "ids' = (if obs_status o1 = ''resolved'' then ids else ids @ [stableID ''inc_'' key])"
    and "alert_only d d'"
    and "t_incidents d' = tupd ir_id (stableID ''inc_'' key) (\<lambda>x. x\<lparr>ir_data := inc'\<rparr>) (t_incidents d)"
    and "only_closes inc inc'"
proof -
  from assms obtain inc1 where
    1: "(if obs_status o1 = ''resolved'' then resolve_incident o1 start inc else Inr inc) = Inr inc1"
    and 2: "ids' = (if obs_status o1 = ''resolved'' then ids else ids @ [stableID ''inc_'' key])"
    and 3: "d' = add_observation (Some (stableID ''inc_'' key)) key o1
             (d\<lparr>t_incidents := tupd ir_id (stableID ''inc_'' key)
                  (\<lambda>x. x\<lparr>ir_data := inc1\<lparr>inc_last_observed_at := fmt_nano now\<rparr>\<rparr>) (t_incidents d)\<rparr>)"
    by (auto simp: observe_incident_def Let_def res_bind_eq_Inr)
  have "only_closes inc inc1"
    using 1 only_closes_resolve by (auto simp: only_closes_def split: if_splits)
  then have "only_closes inc (inc1\<lparr>inc_last_observed_at := fmt_nano now\<rparr>)"
    by (rule only_closes_observed)
  moreover have "alert_only d d'"
    unfolding 3 by (rule alert_only_trans [OF _ alert_only_add_observation]) (simp add: alert_only_def)
  ultimately show ?thesis
    using that 2 3 by simp
qed

lemma insert_incident_Inr:
  "insert_incident key inc d = Inr d' \<longleftrightarrow>
     key \<notin> set (map ir_key (t_incidents d)) \<and> inc_id inc \<notin> set (map ir_id (t_incidents d))
     \<and> d' = d\<lparr>t_incidents := t_incidents d @ [\<lparr> ir_id = inc_id inc, ir_key = key,
            ir_environment = inc_environment inc, ir_service = inc_service inc,
            ir_received_at = inc_first_received_at inc, ir_data = inc \<rparr>]\<rparr>"
  by (auto simp: insert_incident_def res_bind_eq_Inr tins_Some)

lemma incidents_ok_cong:
  "t_incidents d' = t_incidents d \<Longrightarrow> t_runs d' = t_runs d \<Longrightarrow> incidents_ok d' = incidents_ok d"
  by (simp add: incidents_ok_def has_run_def cong: option.case_cong)

lemma close_incident:
  assumes ok: "incidents_ok d" and row: "tget ir_id i (t_incidents d) = Some row"
    and cl: "only_closes (ir_data row) inc'" and runs: "t_runs d' = t_runs d"
    and t: "t_incidents d' = tupd ir_id i (\<lambda>x. x\<lparr>ir_data := inc'\<rparr>) (t_incidents d)"
  shows "incidents_ok d'" and "incidents_follow d d'"
proof -
  have one: "x = row" if "x \<in> set (t_incidents d)" "ir_id x = i" for x
  proof -
    have "tget ir_id (ir_id x) (t_incidents d) = Some x"
      using ok that(1) by (intro lt.get_unique) (simp_all add: incidents_ok_def)
    with row that(2) show ?thesis by simp
  qed
  have keys: "map ir_id (t_incidents d') = map ir_id (t_incidents d)"
    "map ir_key (t_incidents d') = map ir_key (t_incidents d)"
    by (simp_all add: t map_tupd_other)
  have "incident_agrees y
          \<and> (case inc_latest_run_id (ir_data y) of None \<Rightarrow> True | Some r \<Rightarrow> has_run r d')"
    if y: "y \<in> set (t_incidents d')" for y
  proof -
    obtain x where x: "x \<in> set (t_incidents d)" "y = (if ir_id x = i then x\<lparr>ir_data := inc'\<rparr> else x)"
      using y by (auto simp: t lt.upd_rows)
    then have "incident_agrees x
          \<and> (case inc_latest_run_id (ir_data x) of None \<Rightarrow> True | Some r \<Rightarrow> has_run r d')"
      using ok by (simp add: incidents_ok_def list_all_iff has_run_cong [OF runs] cong: option.case_cong)
    with x one [OF x(1)] only_closes_same [OF cl] show ?thesis
      by (simp add: incident_agrees_def split: if_splits)
  qed
  with ok keys show "incidents_ok d'" by (simp add: incidents_ok_def tok_def list_all_iff)
  show "incidents_follow d d'"
    unfolding incidents_follow_def t lt.upd_rows
  proof
    fix x assume x: "x \<in> set (t_incidents d)"
    let ?f = "\<lambda>x. if ir_id x = i then x\<lparr>ir_data := inc'\<rparr> else x"
    have "incident_follows x (?f x)" using one [OF x] only_closes_follows [OF cl] by auto
    with x show "\<exists>y \<in> ?f ` set (t_incidents d). incident_follows x y" by blast
  qed
qed

lemma insert_incident_ok:
  assumes "insert_incident key inc d = Inr d'" and "incidents_ok d"
    and "inc_id inc = stableID ''inc_'' key" and "inc_latest_run_id inc = None"
  shows "incidents_ok d'" and "incidents_follow d d'"
proof -
  show "incidents_ok d'"
    using assms by (auto simp: insert_incident_Inr incidents_ok_def tok_def incident_agrees_def has_run_def
        list_all_iff split: option.splits)
  show "incidents_follow d d'"
    using assms(1) incident_follows_refl by (fastforce simp: insert_incident_Inr incidents_follow_def)
qed

definition incident_of :: "time \<Rightarrow> observation \<Rightarrow> string" where
  "incident_of now o1 =
     (case canonical o1 now of Inl _ \<Rightarrow> [] | Inr (key, _, _) \<Rightarrow> stableID ''inc_'' key)"

definition firing_ids :: "time \<Rightarrow> observation list \<Rightarrow> string list" where
  "firing_ids now obs = map (incident_of now) (filter (\<lambda>o1. obs_status o1 \<noteq> ''resolved'') obs)"

text \<open>The two kinds of step: an unmatched recovery is only audited, everything else observes an
  incident that exists or was just created.\<close>

lemma admit_one_cases:
  assumes "admit_one now o1 (ids, d) = Inr (ids', d')"
  obtains (audit) key quality start where "canonical o1 now = Inr (key, quality, start)"
      and "obs_status o1 = ''resolved''" and "ids' = ids" and "d' = add_observation None key o1 d"
  | (known) key quality start row where "canonical o1 now = Inr (key, quality, start)"
      and "tget ir_id (stableID ''inc_'' key) (t_incidents d) = Some row"
      and "observe_incident now key o1 start (ir_data row) ids d = Inr (ids', d')"
  | (fresh) key quality start d1 where "canonical o1 now = Inr (key, quality, start)"
      and "obs_status o1 \<noteq> ''resolved''"
      and "insert_incident key (new_incident o1 (stableID ''inc_'' key) quality start now) d = Inr d1"
      and "observe_incident now key o1 start (new_incident o1 (stableID ''inc_'' key) quality start now)
             ids d1 = Inr (ids', d')"
proof -
  from assms obtain key quality start where c: "canonical o1 now = Inr (key, quality, start)"
    by (auto simp: admit_one_def res_bind_eq_Inr)
  show ?thesis
    using assms c that
    by (cases "tget ir_id (stableID ''inc_'' key) (t_incidents d)")
       (auto simp: admit_one_def res_bind_eq_Inr Let_def split: if_splits)
qed

lemma new_incident_simps [simp]:
  "inc_id (new_incident o1 i quality start now) = i"
  "inc_latest_run_id (new_incident o1 i quality start now) = None"
  "inc_first_received_at (new_incident o1 i quality start now) = fmt_nano now"
  by (simp_all add: new_incident_def)

lemma admit_one_effect:
  assumes step: "admit_one now o1 (ids, d) = Inr (ids', d')" and ok: "incidents_ok d"
  shows "alert_only d d' \<and> incidents_ok d' \<and> incidents_follow d d'
    \<and> ids' = ids @ firing_ids now [o1] \<and> (\<forall>i \<in> set (firing_ids now [o1]). has_incident i d')"
  using step
proof (cases rule: admit_one_cases)
  case (audit key quality start)
  then show ?thesis
    using ok incidents_ok_cong [of d' d] alert_only_same(1) [OF alert_only_add_observation]
    by (auto simp: firing_ids_def intro: incidents_follow_same)
next
  case (known key quality start row)
  from known(3) obtain inc' where
    o: "ids' = (if obs_status o1 = ''resolved'' then ids else ids @ [stableID ''inc_'' key])"
    "alert_only d d'"
    "t_incidents d' = tupd ir_id (stableID ''inc_'' key) (\<lambda>x. x\<lparr>ir_data := inc'\<rparr>) (t_incidents d)"
    "only_closes (ir_data row) inc'"
    by (rule observe_incident_Inr)
  have "has_incident (stableID ''inc_'' key) d'"
    using known(2) o(3) by (force simp: has_incident_def tget_None_iff map_tupd_other dest: tget_SomeD)
  with close_incident [OF ok known(2) o(4) alert_only_same(1) [OF o(2)] o(3)] o(1,2) known(1) show ?thesis
    by (auto simp: firing_ids_def incident_of_def)
next
  case (fresh key quality start d1)
  let ?i = "stableID ''inc_'' key" and ?inc = "new_incident o1 (stableID ''inc_'' key) quality start now"
  note new = insert_incident_ok [OF fresh(3) ok, simplified]
  have d1: "alert_only d d1" using fresh(3) by (auto simp: insert_incident_Inr alert_only_def)
  obtain row where row: "tget ir_id ?i (t_incidents d1) = Some row" and data: "ir_data row = ?inc"
  proof -
    let ?row = "\<lparr> ir_id = ?i, ir_key = key, ir_environment = inc_environment ?inc,
            ir_service = inc_service ?inc, ir_received_at = inc_first_received_at ?inc, ir_data = ?inc \<rparr>"
    have "?row \<in> set (t_incidents d1)" using fresh(3) by (auto simp: insert_incident_Inr)
    then have "tget ir_id (ir_id ?row) (t_incidents d1) = Some ?row"
      using new(1) by (intro lt.get_unique) (simp_all add: incidents_ok_def)
    then show ?thesis using that [of ?row] by simp
  qed
  from fresh(4) obtain inc' where
    o: "ids' = (if obs_status o1 = ''resolved'' then ids else ids @ [?i])" "alert_only d1 d'"
    "t_incidents d' = tupd ir_id ?i (\<lambda>x. x\<lparr>ir_data := inc'\<rparr>) (t_incidents d1)"
    "only_closes ?inc inc'"
    by (rule observe_incident_Inr)
  have "has_incident ?i d'"
    using row o(3) by (force simp: has_incident_def tget_None_iff map_tupd_other dest: tget_SomeD)
  with close_incident [OF new(1) row o(4) [folded data] alert_only_same(1) [OF o(2)] o(3)] new(2) o(1,2) d1
    fresh(1) show ?thesis
    by (auto simp: firing_ids_def incident_of_def intro: alert_only_trans incidents_follow_trans)
qed

lemma has_incident_follow:
  "incidents_follow d d' \<Longrightarrow> has_incident i d \<Longrightarrow> has_incident i d'"
  unfolding incidents_follow_def has_incident_keys incident_follows_def by (metis (no_types) image_iff)

lemma admit_all_effect:
  assumes "fold_res (admit_one now) obs (ids, d) = Inr (ids', d')" and "incidents_ok d"
  shows "alert_only d d' \<and> incidents_ok d' \<and> incidents_follow d d'
    \<and> ids' = ids @ firing_ids now obs \<and> (\<forall>i \<in> set (firing_ids now obs). has_incident i d')"
  using assms
proof (induction obs arbitrary: ids d)
  case Nil
  then show ?case by (simp add: firing_ids_def)
next
  case (Cons o1 obs)
  from Cons.prems(1) obtain ids1 d1 where 1: "admit_one now o1 (ids, d) = Inr (ids1, d1)"
    and 2: "fold_res (admit_one now) obs (ids1, d1) = Inr (ids', d')"
    by (auto simp: res_bind_eq_Inr)
  note e1 = admit_one_effect [OF 1 Cons.prems(2)]
  from e1 have ok1: "incidents_ok d1" by simp
  note e2 = Cons.IH [OF 2 ok1]
  have "firing_ids now (o1 # obs) = firing_ids now [o1] @ firing_ids now obs"
    by (simp add: firing_ids_def)
  with e1 e2 show ?case
    by (auto intro: alert_only_trans incidents_follow_trans has_incident_follow)
qed

lemma unique_sorted:
  "sorted xs \<Longrightarrow> distinct (unique xs) \<and> sorted (unique xs) \<and> set (unique xs) = set xs"
proof (induction xs rule: unique.induct)
  case (3 x y xs)
  show ?case
  proof (cases "x = y")
    case True
    with 3 show ?thesis by auto
  next
    case False
    with 3 have "\<forall>z \<in> set (y # xs). x < z"
      by (auto simp: order.strict_iff_order intro: order.trans)
    with 3 False show ?thesis by (auto simp: less_imp_le)
  qed
qed auto

definition batch_ids :: "time \<Rightarrow> observation list \<Rightarrow> string list" where
  "batch_ids now obs = unique (sort (firing_ids now obs))"

lemma set_batch_ids [simp]: "set (batch_ids now obs) = set (firing_ids now obs)"
  and distinct_batch_ids [simp]: "distinct (batch_ids now obs)"
  using unique_sorted [of "sort (firing_ids now obs)"] by (auto simp: batch_ids_def)

lemma batch_ids_Nil [simp]: "batch_ids now obs = [] \<longleftrightarrow> firing_ids now obs = []"
  by (metis set_batch_ids set_empty)

lemma Admit_cases:
  assumes "Admit obs ready now d = Inr ((ro, dup), d')" and "incidents_ok d"
  obtains (nothing) "firing_ids now obs = []" and "ro = None" and "\<not> dup" and "alert_only d d'"
      and "incidents_ok d'" and "incidents_follow d d'"
  | (duplicate) row where "firing_ids now obs \<noteq> []"
      and "tget rr_business_key (business_key (batch_ids now obs)) (t_runs d) = Some row"
      and "ro = Some (rr_data row)" and dup and "alert_only d d'"
      and "incidents_ok d'" and "incidents_follow d d'"
  | (created) r d1 where "firing_ids now obs \<noteq> []" and ready and "\<not> dup"
      and "r = queued_run (business_key (batch_ids now obs)) (batch_ids now obs) now"
      and "ro = Some r" and "alert_only d d1" and "incidents_ok d1" and "incidents_follow d d1"
      and "insertRun r (business_key (batch_ids now obs)) obs now d1 = Inr d'"
      and "tget rr_business_key (business_key (batch_ids now obs)) (t_runs d) = None"
proof -
  from assms(1) obtain ids d1 where 1: "fold_res (admit_one now) obs ([], d) = Inr (ids, d1)"
    by (auto simp: Admit_def res_bind_eq_Inr)
  note e = admit_all_effect [OF 1 assms(2)]
  from e have u: "unique (sort ids) = batch_ids now obs" by (simp add: batch_ids_def)
  have runs: "t_runs d1 = t_runs d" using e alert_only_same(1) by blast
  consider (n) "firing_ids now obs = []"
    | (f) "firing_ids now obs \<noteq> []" "tget rr_business_key (business_key (batch_ids now obs)) (t_runs d) = None"
    | (s) row where "firing_ids now obs \<noteq> []"
        "tget rr_business_key (business_key (batch_ids now obs)) (t_runs d) = Some row"
    by (cases "tget rr_business_key (business_key (batch_ids now obs)) (t_runs d)") blast+
  then show ?thesis
  proof cases
    case n
    with assms(1) 1 u have "ro = None \<and> \<not> dup \<and> d' = d1" by (simp add: Admit_def)
    with n e show ?thesis using that(1) by blast
  next
    case f
    with assms(1) 1 e u runs show ?thesis
      by (intro created [OF _ _ _ refl]) (auto simp: Admit_def Let_def res_bind_eq_Inr)
  next
    case s
    with assms(1) 1 e u runs show ?thesis by (intro duplicate) (auto simp: Admit_def Let_def)
  qed
qed

section \<open>Admission keeps the tables well-formed\<close>

definition core_ok :: "db \<Rightarrow> bool" where
  "core_ok d \<longleftrightarrow> runs_ok d \<and> events_ok d \<and> incidents_ok d \<and> links_ok d \<and> evidence_ok d
     \<and> outbox_ok d \<and> queue_ok d"

lemma outbox_ok_cong:
  "t_outbox d' = t_outbox d \<Longrightarrow> t_runs d' = t_runs d \<Longrightarrow> outbox_ok d' = outbox_ok d"
  by (simp add: outbox_ok_def has_run_def cong: payload.case_cong)

lemma core_ok_alert_only:
  assumes "core_ok d" and a: "alert_only d d'" and "incidents_ok d'" and "incidents_follow d d'"
  shows "core_ok d'"
proof -
  note same = alert_only_same [OF a]
  have "links_ok d'"
    using assms(1) has_incident_follow [OF assms(4)]
    by (auto simp: core_ok_def links_ok_def run_links_def list_all_iff same has_run_def)
  moreover have "evidence_ok d'" "queue_ok d'"
    using assms(1) by (auto simp: core_ok_def evidence_ok_def queue_ok_def same has_run_def)
  moreover have "outbox_ok d'"
    using assms(1) outbox_ok_cong [of d' d] by (simp add: core_ok_def same)
  moreover have "runs_ok d'" "events_ok d'"
    using assms(1) by (auto simp: core_ok_def same runs_ok_cong [of d' d] events_ok_cong [of d' d])
  ultimately show ?thesis using assms(3) by (simp add: core_ok_def)
qed

lemma core_ok_insertRun:
  assumes "insertRun r business obs now d = Inr d'" and "core_ok d"
    and "run_current_attempt r = 0" and "run_revision r = 1" and "run_dispatch_state r = ''pending''"
  shows "core_ok d'"
  using assms(2-) runs_ok_insertRun [OF assms(1)] events_ok_insertRun [OF assms(1)]
    incidents_ok_insertRun [OF assms(1)] links_ok_insertRun [OF assms(1)]
    evidence_ok_insertRun [OF assms(1)] outbox_ok_insertRun [OF assms(1)] queue_ok_insertRun [OF assms(1)]
  by (simp add: core_ok_def)

lemma core_ok_Admit [ws_inv]:
  assumes "Admit obs ready now d = Inr (x, d')" and "core_ok d"
  shows "core_ok d'"
proof -
  obtain ro dup where x: "x = (ro, dup)" by fastforce
  have inc: "incidents_ok d" using assms(2) by (simp add: core_ok_def)
  from assms(1) [unfolded x] inc show ?thesis
  proof (cases rule: Admit_cases)
    case (created r d1)
    with assms(2) core_ok_alert_only core_ok_insertRun show ?thesis by (metis queued_run_simps(4-6))
  qed (use assms(2) core_ok_alert_only in blast)+
qed

lemma insert_idempotency_Inr:
  "insert_idempotency scope key body result d = Inr d' \<longleftrightarrow>
     (scope, key) \<notin> set (map (\<lambda>r. (idm_scope r, idm_key r)) (t_idempotency d))
     \<and> d' = d\<lparr>t_idempotency := t_idempotency d @ [\<lparr> idm_scope = scope, idm_key = key,
              idm_body_hash = body, idm_result_id = result \<rparr>]\<rparr>"
  by (auto simp: insert_idempotency_def res_bind_eq_Inr tins_Some)

lemma core_ok_idempotency [simp]: "core_ok (d\<lparr>t_idempotency := t\<rparr>) = core_ok d"
  by (simp add: core_ok_def runs_ok_def events_ok_def incidents_ok_def links_ok_def evidence_ok_def
      outbox_ok_def queue_ok_def has_run_def has_incident_def run_links_def
      cong: option.case_cong payload.case_cong)

lemma ReDiagnose_cases:
  assumes "ReDiagnose incident key body ready now d = Inr (r, d')"
  obtains (repeated) row where "get_idempotency (''run:'' @ incident) key d = Some row"
      and "idm_body_hash row = hash body" and "get_run (idm_result_id row) d = Inr r" and "d' = d"
  | (created) inc o1 d1 where "get_idempotency (''run:'' @ incident) key d = None" and ready
      and "get_incident incident d = Inr inc" and "latest_observation incident d = Some o1"
      and "r = queued_run (manual_key incident key) [inc_id inc] now"
      and "insertRun r (manual_key incident key) [o1\<lparr>obs_status := ''firing''\<rparr>] now d = Inr d1"
      and "insert_idempotency (''run:'' @ incident) key (hash body) (run_id r) d1 = Inr d'"
proof (cases "get_idempotency (''run:'' @ incident) key d")
  case (Some row)
  with assms show ?thesis by (intro repeated [of row]) (auto simp: ReDiagnose_def res_bind_eq_Inr)
next
  case None
  with assms obtain inc o1 where i: "get_incident incident d = Inr inc"
    "latest_observation incident d = Some o1" ready
    by (auto simp: ReDiagnose_def res_bind_eq_Inr split: option.splits)
  let ?r = "queued_run (manual_key incident key) [inc_id inc] now"
  from assms None i obtain d1 where
    "insertRun ?r (manual_key incident key) [o1\<lparr>obs_status := ''firing''\<rparr>] now d = Inr d1"
    "insert_idempotency (''run:'' @ incident) key (hash body) (run_id ?r) d1 = Inr d'" "r = ?r"
    by (simp add: ReDiagnose_def Let_def) (auto simp only: res_bind_eq_Inr sum.inject prod.inject)
  with None i show ?thesis by (intro created [of inc o1 d1]) simp_all
qed

lemma core_ok_ReDiagnose [ws_inv]:
  assumes "ReDiagnose incident key body ready now d = Inr (r, d')" and "core_ok d"
  shows "core_ok d'"
  using assms(1)
proof (cases rule: ReDiagnose_cases)
  case (repeated row)
  with assms(2) show ?thesis by simp
next
  case (created inc o1 d1)
  with assms(2) core_ok_insertRun [OF created(6)] show ?thesis
    by (auto simp: insert_idempotency_Inr)
qed

section \<open>Properties of admission\<close>

text \<open>A Go map has no order: marshalling sorts it, so equal maps have one text.\<close>

lemma json_map_cong:
  assumes "distinct (map fst m)" "distinct (map fst m')" and "map_of m = map_of m'"
  shows "json_map m = json_map m'"
proof -
  have s: "set m = set m'" using assms by (metis map_of_inject_set)
  have inj: "inj_on fst (set m)" using assms(1) by (simp add: distinct_map)
  have "distinct (map fst (sort_key fst m))"
    using assms(1) by (metis distinct_map distinct_sort set_sort)
  moreover have "distinct (map fst (sort_key fst m'))"
    using assms(2) by (metis distinct_map distinct_sort set_sort)
  ultimately have "sort_key fst m = sort_key fst m'"
    using inj s by (intro map_sorted_distinct_set_unique [where f = fst]) simp_all
  then show ?thesis by (simp add: json_map_def)
qed

definition same_labels :: "observation \<Rightarrow> observation \<Rightarrow> bool" where
  "same_labels o1 o2 \<longleftrightarrow>
     (case (obs_labels o1, obs_labels o2) of
        (Some m, Some m') \<Rightarrow> distinct (map fst m) \<and> distinct (map fst m')
           \<and> list_all (\<lambda>(k, v). map_of m' k = Some v) m \<and> list_all (\<lambda>(k, v). map_of m k = Some v) m'
      | (None, None) \<Rightarrow> True
      | _ \<Rightarrow> False)"

lemma same_labels_map_of:
  assumes "list_all (\<lambda>(k, v). map_of m' k = Some v) m" and "list_all (\<lambda>(k, v). map_of m k = Some v) m'"
  shows "map_of m = map_of m'"
proof
  fix k
  show "map_of m k = map_of m' k"
  proof (cases "map_of m k")
    case None
    then show ?thesis using assms(2)
      by (cases "map_of m' k") (fastforce simp: list_all_iff dest: map_of_SomeD)+
  next
    case (Some v)
    then show ?thesis using assms(1) by (fastforce simp: list_all_iff dest: map_of_SomeD)
  qed
qed

lemma canonical_labels_cong:
  assumes "same_labels o1 o2" and "obs_name o1 = obs_name o2"
  shows "json_map (canonical_labels o1) = json_map (canonical_labels o2)
    \<and> mget (canonical_labels o1) k = mget (canonical_labels o2) k"
proof (cases "obs_labels o1"; cases "obs_labels o2")
  fix m m' assume l: "obs_labels o1 = Some m" "obs_labels o2 = Some m'"
  with assms(1) have d: "distinct (map fst m)" "distinct (map fst m')" and eq: "map_of m = map_of m'"
    by (auto simp: same_labels_def intro: same_labels_map_of)
  have g: "mget m k = mget m' k" for k by (simp add: mget_def eq)
  have "map_of (mput k v m) = map_of (mput k v m')" for k v
    by (simp add: mput_def update_conv' eq)
  moreover have "distinct (map fst (mput k v m))" "distinct (map fst (mput k v m'))" for k v
    using d by (simp_all add: mput_def distinct_update)
  ultimately show ?thesis
    using l assms(2) g d eq by (auto simp: canonical_labels_def json_map_cong mget_mput)
qed (use assms in \<open>auto simp: same_labels_def canonical_labels_def\<close>)

text \<open>The identity of an alert does not depend on the order in which its labels arrive: two
  observations with the same label map, name and start time have the same canonical key, quality and
  start.\<close>

theorem canonical_label_order:
  assumes "same_labels o1 o2" and "obs_name o1 = obs_name o2" and "obs_starts_at o1 = obs_starts_at o2"
  shows "canonical o1 now = canonical o2 now"
  using canonical_labels_cong [OF assms(1,2)] assms(3) by (simp add: canonical_def Let_def)

definition ex_obs :: "gomap \<Rightarrow> observation" where
  "ex_obs m = zero_observation\<lparr>obs_name := ''Down'', obs_labels := Some m,
     obs_starts_at := ''1970-01-01T00:00:00Z'', obs_status := ''firing''\<rparr>"

theorem canonical_label_order_witness:
  "canonical (ex_obs [(''alertname'', ''Down''), (''service'', ''api'')]) 5
   = canonical (ex_obs [(''service'', ''api''), (''alertname'', ''Down'')]) 5"
  by (rule canonical_label_order) (simp_all add: ex_obs_def same_labels_def)

text \<open>A decoded batch holds 1 to 100 observations; each is firing or resolved, has a name, and
  its label map has a non-empty \<open>alertname\<close>.\<close>

theorem ParseObservations_wf:
  assumes "ParseObservations raw = Inr os"
  shows "1 \<le> length os \<and> length os \<le> 100 \<and> list_all observation_ok os"
  using assms by (rule ParseObservations_Inr)

definition ex_batch :: json where
  "ex_batch = JObj [(''status'', JStr ''resolved''),
     (''alerts'', JArr [JObj [(''labels'', JObj [(''alertname'', JStr ''Down'')])]])]"

lemma ex_batch_parsed:
  "ParseObservations (Some ex_batch) = Inr [zero_observation\<lparr>obs_name := ''Down'',
     obs_labels := Some [(''alertname'', ''Down'')], obs_status := ''resolved''\<rparr>]"
  by code_simp

theorem ParseObservations_wf_witness:
  "list_all observation_ok [zero_observation\<lparr>obs_name := ''Down'',
     obs_labels := Some [(''alertname'', ''Down'')], obs_status := ''resolved''\<rparr>]"
  using ParseObservations_wf [OF ex_batch_parsed] by simp

text \<open>A batch given as a bare JSON array is always refused, with the same error as malformed JSON:
  decoding it into the root struct already fails, so the branch of \<open>ParseObservations\<close> that decodes
  a list of observations is never reached with one.\<close>

theorem ParseObservations_array:
  "ParseObservations (Some (JArr js)) = Inl (ErrMsg ''invalid alert JSON'')"
  by (simp add: ParseObservations_def decode_batch_def unmarshal_root_def)


text \<open>Once its incidents exist, a firing batch with start times is observed again without fail, at any
  later time.\<close>

definition replayable :: "observation \<Rightarrow> bool" where
  "replayable o1 \<longleftrightarrow> obs_status o1 \<noteq> ''resolved'' \<and> obs_starts_at o1 \<noteq> []"

lemma admit_all_canonical:
  assumes "fold_res (admit_one now) obs st = Inr st'" and "o1 \<in> set obs"
  shows "\<exists>k. canonical o1 now = Inr k"
  using assms
proof (induction obs arbitrary: st)
  case (Cons o2 obs)
  then obtain st1 where "admit_one now o2 st = Inr st1" "fold_res (admit_one now) obs st1 = Inr st'"
    by (auto simp: res_bind_eq_Inr)
  with Cons show ?case by (cases st) (auto simp: admit_one_def res_bind_eq_Inr)
qed simp

lemma admit_one_again:
  assumes "replayable o1" and c: "canonical o1 now = Inr k" and "has_incident (incident_of now o1) d"
  shows "\<exists>d'. admit_one now' o1 (ids, d) = Inr (ids @ [incident_of now o1], d')
    \<and> alert_only d d' \<and> map ir_id (t_incidents d') = map ir_id (t_incidents d)"
proof -
  obtain key quality start where k: "k = (key, quality, start)" by (cases k)
  have c': "canonical o1 now' = Inr (key, quality, start)"
    using assms(1) c k canonical_exact [of o1 now' now] by (simp add: replayable_def)
  have i: "incident_of now o1 = stableID ''inc_'' key" using c k by (simp add: incident_of_def)
  with assms(3) obtain row where row: "tget ir_id (stableID ''inc_'' key) (t_incidents d) = Some row"
    by (auto simp: has_incident_def)
  define d' where "d' = snd (projr (admit_one now' o1 (ids, d)))"
  have step: "admit_one now' o1 (ids, d) = Inr (ids @ [stableID ''inc_'' key], d')"
    using assms(1) c' row by (simp add: d'_def admit_one_def observe_incident_def replayable_def Let_def)
  moreover have "observe_incident now' key o1 start (ir_data row) ids d = Inr (ids @ [stableID ''inc_'' key], d')"
    using step c' row by (simp add: admit_one_def)
  then have "alert_only d d'" and "map ir_id (t_incidents d') = map ir_id (t_incidents d)"
    by (auto elim!: observe_incident_Inr simp: map_tupd_other)
  ultimately show ?thesis using i by auto
qed

lemma admit_all_again:
  assumes "list_all replayable obs" and "\<forall>o1 \<in> set obs. \<exists>k. canonical o1 now = Inr k"
    and "\<forall>o1 \<in> set obs. has_incident (incident_of now o1) d"
  shows "\<exists>d'. fold_res (admit_one now') obs (ids, d) = Inr (ids @ map (incident_of now) obs, d')
    \<and> alert_only d d'"
  using assms
proof (induction obs arbitrary: ids d)
  case (Cons o1 obs)
  then obtain k where k: "canonical o1 now = Inr k" by auto
  from admit_one_again [OF _ k] Cons.prems obtain d1 where
    1: "admit_one now' o1 (ids, d) = Inr (ids @ [incident_of now o1], d1)" "alert_only d d1"
    "map ir_id (t_incidents d1) = map ir_id (t_incidents d)" by fastforce
  have "has_incident i d1 = has_incident i d" for i
    using 1(3) by (simp add: has_incident_def tget_None_iff flip: set_map)
  with Cons.IH [of d1 "ids @ [incident_of now o1]"] Cons.prems 1 show ?case
    by (auto intro: alert_only_trans)
qed auto

lemma firing_ids_replayable: "list_all replayable obs \<Longrightarrow> firing_ids now obs = map (incident_of now) obs"
  by (induction obs) (auto simp: firing_ids_def replayable_def)

lemma Admit_incidents:
  assumes "Admit obs ready now d = Inr (x, d')" and "incidents_ok d"
  shows "\<forall>i \<in> set (firing_ids now obs). has_incident i d'"
proof -
  from assms(1) obtain ids d1 where 1: "fold_res (admit_one now) obs ([], d) = Inr (ids, d1)"
    by (auto simp: Admit_def res_bind_eq_Inr)
  have "d' = d1 \<or> (\<exists>r b. insertRun r b obs now d1 = Inr d')"
    using assms(1) 1 by (auto simp: Admit_def Let_def res_bind_eq_Inr split: if_splits option.splits)
  with admit_all_effect [OF 1 assms(2)] show ?thesis
    by (auto simp: has_incident_insertRun)
qed

lemma Admit_business:
  assumes "Admit obs ready now d = Inr ((Some r, dup), d')" and "incidents_ok d"
  shows "\<exists>row. tget rr_business_key (business_key (batch_ids now obs)) (t_runs d') = Some row \<and> rr_data row = r"
  using assms
proof (cases rule: Admit_cases)
  case (created r1 d1)
  from created(10) alert_only_same(1) [OF created(6)]
  have none: "tget rr_business_key (business_key (batch_ids now obs)) (t_runs d1) = None" by simp
  from created(9) none created(5) show ?thesis
    by (elim insertRun_Inr) (simp add: tget_def find_append)
qed (auto dest: alert_only_same(1))

text \<open>C21. Redelivery. After a firing batch with start times was admitted, admitting the same batch
  again, at any time and even while the queue is down, succeeds, returns the same run as a duplicate and
  adds no run, no event, no evidence and no outbox row.\<close>

theorem Admit_redelivery:
  assumes "incidents_ok d" and "list_all replayable obs"
    and "Admit obs ready now d = Inr ((Some r, dup), d')"
  shows "\<exists>d''. Admit obs ready' now' d' = Inr ((Some r, True), d'') \<and> t_runs d'' = t_runs d'
    \<and> t_events d'' = t_events d' \<and> t_evidence d'' = t_evidence d' \<and> t_outbox d'' = t_outbox d'"
proof -
  from assms(3) obtain st where 1: "fold_res (admit_one now) obs ([], d) = Inr st"
    and size: "obs \<noteq> []" "length obs \<le> 100"
    by (auto simp: Admit_def res_bind_eq_Inr)
  note ids = firing_ids_replayable [OF assms(2), of now]
  have "\<forall>o1 \<in> set obs. has_incident (incident_of now o1) d'"
    using Admit_incidents [OF assms(3,1)] by (simp add: ids)
  moreover have "\<forall>o1 \<in> set obs. \<exists>k. canonical o1 now = Inr k"
    using admit_all_canonical [OF 1] by blast
  ultimately obtain d'' where d'': "fold_res (admit_one now') obs ([], d') = Inr (firing_ids now obs, d'')"
    "alert_only d' d''"
    using admit_all_again [OF assms(2), of now d' now' "[]"] by (auto simp: ids)
  have "unique (sort (firing_ids now obs)) \<noteq> []"
    using size(1) batch_ids_Nil [of now obs] by (simp add: batch_ids_def ids)
  with d'' size Admit_business [OF assms(3,1)] alert_only_same [OF d''(2)]
  have "Admit obs ready' now' d' = Inr ((Some r, True), d'')"
    by (auto simp: Admit_def Let_def ensure_def batch_ids_def)
  with alert_only_same [OF d''(2)] show ?thesis by blast
qed

definition ex_row :: "string \<Rightarrow> string \<Rightarrow> run_row" where
  "ex_row business status =
     (let r = (queued_run business [] 0)\<lparr>run_status := status\<rparr>
      in \<lparr> rr_id = run_id r, rr_business_key = business, rr_status = status,
           rr_received_at = run_received_at r, rr_attempt = 0, rr_lease_until = None, rr_revision = 1,
           rr_data = r \<rparr>)"

definition ex_down :: observation where
  "ex_down = ex_obs [(''alertname'', ''Down'')]"

definition ex_known :: db where
  "ex_known = empty_db\<lparr>t_runs := [ex_row (business_key (batch_ids 0 [ex_down])) ''running'']\<rparr>"

lemma canonical_ex_down:
  "canonical ex_down now = Inr (hash (''alert-v1:alertmanager:unknown:'' @ json_map [(''alertname'', ''Down'')]
     @ '':1970-01-01T00:00:00Z''), ''exact'', Some ''1970-01-01T00:00:00Z'')"
  by (simp add: canonical_def ensure_def canonical_labels_def ex_down_def ex_obs_def mget_def
      or_else_def Let_def parse_epoch fmt_epoch)

lemma Admit_ex_known:
  "\<exists>d'. Admit [ex_down] False 7 ex_known = Inr ((Some (rr_data (ex_row (business_key (batch_ids 0 [ex_down])) ''running'')), True), d')"
proof -
  have b: "unique (sort [stableID ''inc_'' k]) = batch_ids 0 [ex_down]"
    if "canonical ex_down 0 = Inr (k, q, s)" for k q s
    using that by (simp add: batch_ids_def firing_ids_def incident_of_def ex_down_def ex_obs_def)
  have "obs_status ex_down = ''firing''" and "firing_ids 0 [ex_down] \<noteq> []"
    by (simp_all add: ex_down_def ex_obs_def firing_ids_def)
  then show ?thesis
    using b [OF canonical_ex_down]
    by (simp add: Admit_def ensure_def ex_known_def empty_db_def admit_one_def canonical_ex_down
        tget_def insert_incident_def tins_def observe_incident_def Let_def add_observation_def
        ex_row_def del: unique.simps sort_key_simps)
qed

theorem Admit_redelivery_witness:
  "\<exists>r d' d''. Admit [ex_down] False 7 ex_known = Inr ((Some r, True), d')
     \<and> Admit [ex_down] False 9 d' = Inr ((Some r, True), d'') \<and> t_runs d'' = t_runs d'"
proof -
  obtain r d' where 1: "Admit [ex_down] False 7 ex_known = Inr ((Some r, True), d')"
    using Admit_ex_known by auto
  have "incidents_ok ex_known" "list_all replayable [ex_down]"
    by (simp_all add: ex_known_def empty_db_def incidents_ok_def tok_def replayable_def ex_down_def ex_obs_def)
  from Admit_redelivery [OF this 1, of False 9] 1 show ?thesis by blast
qed

text \<open>One transaction, one run. When \<open>Admit\<close> creates a run, the queue was ready; exactly one
  run row is appended, for the sorted distinct incidents of the firing observations; every one of those
  incidents exists and points to the run; the run's first two events are numbered 1 and 2; and exactly
  one outbox row is appended, pending, with the whole batch as its payload.\<close>

theorem Admit_creates:
  assumes "core_ok d"
  shows "case Admit obs ready now d of
      Inr ((Some r, False), d') \<Rightarrow> ready
        \<and> run_incident_ids r = batch_ids now obs \<and> run_incident_ids r \<noteq> []
        \<and> (\<exists>x. t_runs d' = t_runs d @ [x] \<and> rr_data x = r \<and> rr_id x = run_id r
              \<and> rr_status x = ''queued'' \<and> rr_business_key x = business_key (batch_ids now obs))
        \<and> (\<forall>i \<in> set (run_incident_ids r). \<exists>x \<in> set (t_incidents d'). ir_id x = i
              \<and> inc_latest_run_id (ir_data x) = Some (run_id r))
        \<and> run_seqs (run_id r) (t_events d') = [1, 2]
        \<and> t_outbox d' = t_outbox d @ [diagnosis_outbox (run_id r) obs now]
    | _ \<Rightarrow> True"
proof (cases "Admit obs ready now d")
  case (Inr y)
  obtain ro dup d' where y: "y = ((ro, dup), d')" by (metis surj_pair)
  have inc: "incidents_ok d" using assms by (simp add: core_ok_def)
  from Inr [unfolded y] inc show ?thesis
  proof (cases rule: Admit_cases)
    case (created r d1)
    have d1: "core_ok d1" using assms created core_ok_alert_only by blast
    have ok': "events_ok d'" "events_ok d1"
      using Inr y assms d1 core_ok_Admit by (auto simp: core_ok_def)
    from created(9) obtain x where
      x: "t_runs d' = t_runs d1 @ [x]" "rr_data x = r" "rr_id x = run_id r"
        "rr_status x = ''queued''" "rr_business_key x = business_key (batch_ids now obs)"
      and new: "\<not> has_run (run_id r) d1"
      and inc: "t_incidents d' = map (set_latest (run_id r) (run_incident_ids r)) (t_incidents d1)"
      and has: "\<forall>i \<in> set (run_incident_ids r). has_incident i d1"
      and ev: "length (run_seqs (run_id r) (t_events d')) = length (run_seqs (run_id r) (t_events d1)) + 2"
      and ob: "t_outbox d' = t_outbox d1 @ [diagnosis_outbox (run_id r) obs now]"
      by (elim insertRun_Inr) (simp add: created(4) run_seqs_def)
    have "run_seqs (run_id r) (t_events d1) = []"
      using ok'(2) new by (auto simp: events_ok_def list_all_iff run_seqs_def filter_empty_conv)
    then have seqs: "run_seqs (run_id r) (t_events d') = [1, 2]"
      using events_ok_dense [OF ok'(1), of "run_id r"] ev by (simp add: dense_def numeral_2_eq_2)
    have "\<exists>x \<in> set (t_incidents d'). ir_id x = i \<and> inc_latest_run_id (ir_data x) = Some (run_id r)"
      if "i \<in> set (run_incident_ids r)" for i
    proof -
      from has that obtain x where x: "x \<in> set (t_incidents d1)" "ir_id x = i"
        by (auto simp: has_incident_keys)
      have "set_latest (run_id r) (run_incident_ids r) x \<in> set (t_incidents d')"
        using x(1) by (simp add: inc)
      with x(2) that show ?thesis by (intro bexI) (auto simp: set_latest_def)
    qed
    with created x seqs ob alert_only_same [OF created(6)] show ?thesis
      unfolding Inr y by auto
  qed (auto simp: Inr y)
qed simp

lemma core_ok_empty: "core_ok empty_db"
  by (simp add: core_ok_def empty_db_def runs_ok_def events_ok_def incidents_ok_def links_ok_def
      evidence_ok_def outbox_ok_def queue_ok_def tok_def)

theorem Admit_creates_witness:
  "core_ok empty_db \<and> (case Admit [ex_down] True 7 empty_db of
      Inr ((Some r, False), d') \<Rightarrow> run_seqs (run_id r) (t_events d') = [1, 2]
        \<and> t_outbox d' = [diagnosis_outbox (run_id r) [ex_down] 7]
    | _ \<Rightarrow> True)"
proof -
  have "t_outbox empty_db = []" by (simp add: empty_db_def)
  with Admit_creates [OF core_ok_empty, where obs = "[ex_down]" and ready = True and now = 7] core_ok_empty show ?thesis
    by (auto split: sum.splits prod.splits option.splits bool.splits)
qed

text \<open>A batch of recoveries never starts a diagnosis: it returns no run and leaves runs, events,
  evidence and outbox alone, whether the queue is ready or not.\<close>

theorem Admit_resolved_only:
  assumes "incidents_ok d" and "list_all (\<lambda>o1. obs_status o1 = ''resolved'') obs"
    and "Admit obs ready now d = Inr (x, d')"
  shows "x = (None, False) \<and> t_runs d' = t_runs d \<and> t_events d' = t_events d
    \<and> t_evidence d' = t_evidence d \<and> t_outbox d' = t_outbox d \<and> incidents_follow d d'"
proof -
  have none: "firing_ids now obs = []"
    using assms(2) by (auto simp: firing_ids_def list_all_iff filter_empty_conv)
  obtain ro dup where x: "x = (ro, dup)" by fastforce
  from assms(3) [unfolded x] assms(1) show ?thesis
    by (cases rule: Admit_cases) (auto simp: none x dest: alert_only_same)
qed

definition ex_recovery :: observation where
  "ex_recovery = ex_down\<lparr>obs_status := ''resolved''\<rparr>"

lemma obs_status_ex_recovery: "obs_status ex_recovery = ''resolved''"
  by (simp add: ex_recovery_def)

lemma canonical_ex_recovery: "canonical ex_recovery now = canonical ex_down now"
  by (rule canonical_label_order) (simp_all add: ex_recovery_def ex_down_def ex_obs_def same_labels_def)

lemma Admit_ex_recovery: "\<exists>d'. Admit [ex_recovery] True 7 empty_db = Inr ((None, False), d')"
  by (simp add: Admit_def ensure_def empty_db_def admit_one_def canonical_ex_recovery canonical_ex_down
      tget_def Let_def obs_status_ex_recovery)

theorem Admit_resolved_only_witness:
  "\<exists>d'. Admit [ex_recovery] True 7 empty_db = Inr ((None, False), d') \<and> t_outbox d' = []"
proof -
  obtain d' where 1: "Admit [ex_recovery] True 7 empty_db = Inr ((None, False), d')"
    using Admit_ex_recovery by auto
  have "incidents_ok empty_db" and "t_outbox empty_db = []"
    by (simp_all add: empty_db_def incidents_ok_def tok_def)
  moreover have "list_all (\<lambda>o1. obs_status o1 = ''resolved'') [ex_recovery]"
    by (simp add: ex_recovery_def)
  ultimately show ?thesis using Admit_resolved_only [OF _ _ 1] 1 by auto
qed

lemma set_latest_follows: "incident_follows x (set_latest rid ids x)"
  by (simp add: incident_follows_def set_latest_def)

lemma incidents_follow_insertRun: "insertRun r b obs now d = Inr d' \<Longrightarrow> incidents_follow d d'"
  by (elim insertRun_Inr) (auto simp: incidents_follow_def intro: set_latest_follows)

text \<open>Incidents are never lost, renamed or reopened: whatever \<open>Admit\<close> does, every incident row
  is still there with its identity, name, severity, environment, service and start time, and a resolved
  incident stays resolved.\<close>

theorem Admit_incidents_follow:
  assumes "incidents_ok d"
  shows "case Admit obs ready now d of Inl _ \<Rightarrow> True | Inr (_, d') \<Rightarrow> incidents_ok d' \<and> incidents_follow d d'"
proof (cases "Admit obs ready now d")
  case (Inr y)
  obtain ro dup d' where y: "y = ((ro, dup), d')" by (metis surj_pair)
  from Inr [unfolded y] assms show ?thesis
  proof (cases rule: Admit_cases)
    case (created r d1)
    note ok = incidents_ok_insertRun [OF created(9,7)]
    have "incidents_follow d d'"
      using created(8) incidents_follow_insertRun [OF created(9)] by (rule incidents_follow_trans)
    with ok show ?thesis by (simp add: Inr y)
  qed (simp_all add: Inr y)
qed simp

theorem Admit_incidents_follow_witness:
  "incidents_ok empty_db \<and> (case Admit [ex_down] True 7 empty_db of
     Inl _ \<Rightarrow> True | Inr (_, d') \<Rightarrow> incidents_ok d' \<and> incidents_follow empty_db d')"
  using Admit_incidents_follow [of empty_db "[ex_down]" True 7] core_ok_empty by (simp add: core_ok_def)

text \<open>A manual diagnosis is idempotent per key: repeating the request with the same body returns
  the same run and changes nothing, queue ready or not, and with a body of another hash it is a conflict.\<close>

theorem ReDiagnose_idempotent:
  assumes "get_idempotency (''run:'' @ incident) key d = None" and "runs_ok d"
  shows "case ReDiagnose incident key body ready now d of
      Inl _ \<Rightarrow> True
    | Inr (r, d') \<Rightarrow> ReDiagnose incident key body ready' now' d' = Inr (r, d')
        \<and> (hash body' \<noteq> hash body \<longrightarrow> ReDiagnose incident key body' ready' now' d' = Inl ErrConflict)"
proof (cases "ReDiagnose incident key body ready now d")
  case (Inr y)
  obtain r d' where y: "y = (r, d')" by fastforce
  from Inr [unfolded y] obtain inc :: incident and o1 :: observation and d1 where
    r: "r = queued_run (manual_key incident key) [inc_id inc] now"
    and ins: "insertRun r (manual_key incident key) [o1\<lparr>obs_status := ''firing''\<rparr>] now d = Inr d1"
    and idem: "insert_idempotency (''run:'' @ incident) key (hash body) (run_id r) d1 = Inr d'"
  proof (cases rule: ReDiagnose_cases)
    case (created inc o1 d1)
    then show ?thesis by (intro that [of inc o1 d1])
  qed (use assms(1) in simp)
  have same: "t_idempotency d1 = t_idempotency d" using ins by (rule insertRun_Inr)
  have get: "get_idempotency (''run:'' @ incident) key d' = Some \<lparr> idm_scope = ''run:'' @ incident,
      idm_key = key, idm_body_hash = hash body, idm_result_id = run_id r \<rparr>"
    using assms(1) idem by (simp add: get_idempotency_def insert_idempotency_Inr same tget_def find_append)
  have "runs_ok d1" using ins assms(2) r by (intro runs_ok_insertRun [OF ins]) simp_all
  then have "get_run (run_id r) d1 = Inr r"
    using ins by (elim insertRun_Inr)
      (auto simp: get_run_Inr tget_def find_append has_run_def split: option.splits)
  then have run: "get_run (run_id r) d' = Inr r" using idem by (auto simp: insert_idempotency_Inr get_run_def)
  have "key \<noteq> [] \<and> length key \<le> 200" using Inr by (simp add: ReDiagnose_def)
  with get run show ?thesis by (simp add: Inr y) (simp add: ReDiagnose_def ensure_def)
qed simp

definition ex_incident :: incident_row where
  "ex_incident = \<lparr> ir_id = stableID ''inc_'' ''k'', ir_key = ''k'', ir_environment = ''prod'',
     ir_service = ''api'', ir_received_at = ''t'',
     ir_data = (new_incident ex_down (stableID ''inc_'' ''k'') ''exact'' None 0)
       \<lparr>inc_environment := ''prod'', inc_service := ''api'', inc_first_received_at := ''t''\<rparr> \<rparr>"

definition ex_observed :: db where
  "ex_observed = empty_db\<lparr>t_incidents := [ex_incident], t_observations := [\<lparr> or_id = ''o'',
     or_incident = Some (ir_id ex_incident), or_event_key = ''e'', or_data = ex_down \<rparr>]\<rparr>"

theorem ReDiagnose_idempotent_witness:
  "latest_observation (ir_id ex_incident) ex_observed = Some ex_down
   \<and> (case ReDiagnose (ir_id ex_incident) ''key'' ''body'' True 3 ex_observed of
      Inl _ \<Rightarrow> True
    | Inr (r, d') \<Rightarrow> ReDiagnose (ir_id ex_incident) ''key'' ''body'' False 4 d' = Inr (r, d'))"
proof -
  have "get_idempotency (''run:'' @ ir_id ex_incident) ''key'' ex_observed = None" "runs_ok ex_observed"
    "latest_observation (ir_id ex_incident) ex_observed = Some ex_down"
    by (simp_all add: ex_observed_def get_idempotency_def empty_db_def tget_def runs_ok_def tok_def
        latest_observation_def)
  with ReDiagnose_idempotent [OF this(1,2), where body = "''body''" and ready = True and now = 3
      and ready' = False and now' = 4] show ?thesis by (auto split: sum.splits)
qed

text \<open>A later recovery notice can move the recorded end of an incident backwards: the code orders
  the formatted timestamps as strings, and RFC3339Nano drops a zero fraction. An incident that ended half
  a second after the epoch is overwritten by an end at the epoch itself.\<close>

theorem resolve_incident_regress:
  "resolve_incident (ex_recovery\<lparr>obs_ends_at := ''1970-01-01T00:00:00Z''\<rparr>) (Some ''1970-01-01T00:00:00Z'')
     ((ir_data ex_incident)\<lparr>inc_resolved_at := Some (fmt_nano 500000000)\<rparr>)
   = Inr ((ir_data ex_incident)\<lparr>inc_resolved_at := Some (fmt_nano 0), inc_lifecycle_status := ''resolved''\<rparr>)"
  by (simp add: resolve_incident_def parse_epoch ensure_def Let_def fmt_nano_not_monotone)

end
