(* ===== verification/Base64.thy ===== *)
theory Base64
  imports Prelude
begin

text \<open>
  \<open>base64.RawURLEncoding\<close> of Go's standard library: the URL alphabet without padding. The decoder skips carriage
  returns and line feeds and does not check the unused bits of the last character, as the library does.
\<close>

definition b64_alphabet :: string where
  "b64_alphabet = ''ABCDEFGHIJKLMNOPQRSTUVWXYZabcdefghijklmnopqrstuvwxyz0123456789-_''"

definition b64_char :: "nat \<Rightarrow> char" where
  "b64_char n = b64_alphabet ! (n mod 64)"

fun index_in :: "'a \<Rightarrow> 'a list \<Rightarrow> nat option" where
  "index_in x [] = None"
| "index_in x (y # ys) = (if x = y then Some 0 else map_option Suc (index_in x ys))"

definition b64_value :: "char \<Rightarrow> nat option" where
  "b64_value c = index_in c b64_alphabet"

fun b64_encode :: "string \<Rightarrow> string" where
  "b64_encode [] = []"
| "b64_encode [a] = (let n = of_char a * 16 in [b64_char (n div 64), b64_char n])"
| "b64_encode [a, b] = (let n = (of_char a * 256 + of_char b) * 4 in [b64_char (n div 4096), b64_char (n div 64), b64_char n])"
| "b64_encode (a # b # c # s) =
     (let n = (of_char a * 256 + of_char b) * 256 + of_char c
      in [b64_char (n div 262144), b64_char (n div 4096), b64_char (n div 64), b64_char n] @ b64_encode s)"

fun b64_groups :: "nat list \<Rightarrow> string option" where
  "b64_groups [] = Some []"
| "b64_groups [_] = None"
| "b64_groups [p, q] = Some [char_of ((p * 64 + q) div 16)]"
| "b64_groups [p, q, r] = (let n = ((p * 64 + q) * 64 + r) div 4 in Some [char_of (n div 256), char_of n])"
| "b64_groups (p # q # r # t # vs) =
     (let n = ((p * 64 + q) * 64 + r) * 64 + t
      in map_option ((@) [char_of (n div 65536), char_of (n div 256), char_of n]) (b64_groups vs))"

definition b64_values :: "string \<Rightarrow> nat list option" where
  "b64_values s = those (map b64_value (filter (\<lambda>c. c \<noteq> CHR 0x0A \<and> c \<noteq> CHR 0x0D) s))"

definition b64_decode :: "string \<Rightarrow> string option" where
  "b64_decode s = Option.bind (b64_values s) b64_groups"

section \<open>Round trip\<close>

lemma b64_encode_Nil: "b64_encode s = [] \<longleftrightarrow> s = []"
  by (cases s rule: b64_encode.cases) (simp_all add: Let_def)

lemma b64_value_char: "b64_value (b64_char n) = Some (n mod 64)"
proof -
  have "list_all (\<lambda>k. b64_value (b64_char k) = Some k) [0..<64]" by code_simp
  then have "b64_value (b64_char (n mod 64)) = Some (n mod 64)" by (simp add: list_all_iff)
  then show ?thesis by (simp add: b64_char_def)
qed

lemma b64_char_visible: "b64_char n \<noteq> CHR 0x0A \<and> b64_char n \<noteq> CHR 0x0D"
proof -
  have "list_all (\<lambda>k. b64_char k \<noteq> CHR 0x0A \<and> b64_char k \<noteq> CHR 0x0D) [0..<64]" by code_simp
  then have "b64_char (n mod 64) \<noteq> CHR 0x0A \<and> b64_char (n mod 64) \<noteq> CHR 0x0D" by (simp add: list_all_iff)
  then show ?thesis by (simp add: b64_char_def)
qed

lemma b64_values_Nil [simp]: "b64_values [] = Some []"
  by (simp add: b64_values_def)

lemma b64_values_Cons [simp]: "b64_values (b64_char n # s) = map_option ((#) (n mod 64)) (b64_values s)"
  by (simp add: b64_values_def b64_value_char b64_char_visible)

lemma char_of_bytes:
  assumes "(x :: nat) = of_char a" shows "char_of x = a"
  using assms by simp

lemma three_bytes:
  fixes a b c :: nat
  assumes "a < 256" "b < 256" "c < 256" and n: "n = (a * 256 + b) * 256 + c"
  shows "((n div 262144 mod 64 * 64 + n div 4096 mod 64) * 64 + n div 64 mod 64) * 64 + n mod 64 = n"
    and "n div 65536 = a" and "n div 256 mod 256 = b" and "n mod 256 = c"
proof -
  have lt: "n < 16777216" using assms by simp
  have 1: "n div 262144 mod 64 = n div 64 div 64 div 64" using lt by (simp add: div_mult2_eq [symmetric])
  have 2: "n div 4096 mod 64 = n div 64 div 64 mod 64" by (simp add: div_mult2_eq [symmetric])
  show "((n div 262144 mod 64 * 64 + n div 4096 mod 64) * 64 + n div 64 mod 64) * 64 + n mod 64 = n"
    unfolding 1 2 by simp
  have hi: "n div 256 = a * 256 + b" unfolding n by (rule div_nat_eqI) (use assms(3) in simp_all)
  have "n div 65536 = n div 256 div 256" by (simp add: div_mult2_eq [symmetric])
  also have "\<dots> = a" unfolding hi by (rule div_nat_eqI) (use assms(2) in simp_all)
  finally show "n div 65536 = a" .
  show "n div 256 mod 256 = b" unfolding hi using assms(2) by simp
  have "n mod 256 = c mod 256" unfolding n by (rule mod_mult_self3)
  with assms(3) show "n mod 256 = c" by simp
qed

lemma digits64:
  fixes n :: nat
  shows "n < 4096 \<Longrightarrow> n div 64 mod 64 * 64 + n mod 64 = n"
    and "n < 262144 \<Longrightarrow> (n div 4096 mod 64 * 64 + n div 64 mod 64) * 64 + n mod 64 = n"
proof -
  show "n < 4096 \<Longrightarrow> n div 64 mod 64 * 64 + n mod 64 = n" by simp
  assume "n < 262144"
  then have "n div 4096 mod 64 = n div 64 div 64" by (simp add: div_mult2_eq [symmetric])
  then show "(n div 4096 mod 64 * 64 + n div 64 mod 64) * 64 + n mod 64 = n" by simp
qed

lemma b64_roundtrip: "b64_decode (b64_encode s) = Some s"
proof (induction s rule: b64_encode.induct)
  case (2 a)
  define n :: nat where "n = of_char a * 16"
  have "n < 4096" "n div 16 = of_char a" using of_char_lt_256 [of a] by (simp_all add: n_def)
  then show ?case by (simp add: b64_decode_def n_def [symmetric] Let_def digits64(1))
next
  case (3 a b)
  define n :: nat where "n = (of_char a * 256 + of_char b) * 4"
  have "x < 256 \<Longrightarrow> y < 256 \<Longrightarrow> (x * 256 + y) * 4 < 262144" for x y :: nat by simp
  then have lt: "n < 262144" unfolding n_def using of_char_lt_256 by blast
  have n: "n div 4 = of_char a * 256 + of_char b" by (simp add: n_def)
  have "n div 4 div 256 = of_char a" unfolding n by (rule div_nat_eqI) (use of_char_lt_256 [of b] in simp_all)
  moreover have "char_of (n div 4) = b" unfolding n by (metis char_of_char char_of_mod_256 mod_mult_self3 of_char_mod_256)
  moreover have "b64_encode [a, b] = [b64_char (n div 4096), b64_char (n div 64), b64_char n]"
    unfolding b64_encode.simps Let_def n_def by (rule refl)
  then have "b64_decode (b64_encode [a, b]) = b64_groups [n div 4096 mod 64, n div 64 mod 64, n mod 64]"
    by (simp add: b64_decode_def)
  ultimately show ?case unfolding b64_groups.simps Let_def digits64(2) [OF lt] by simp
next
  case (4 a b c s)
  define n :: nat where "n = (of_char a * 256 + of_char b) * 256 + of_char c"
  note bytes = three_bytes [OF of_char_lt_256 of_char_lt_256 of_char_lt_256 n_def]
  have ch: "char_of (n div 65536) = a" "char_of (n div 256) = b" "char_of n = c"
    using bytes(2-4) by (simp_all, metis char_of_mod_256 char_of_char, metis char_of_mod_256 char_of_char)
  from 4 obtain vs where vs: "b64_values (b64_encode s) = Some vs" "b64_groups vs = Some s"
    by (cases "b64_values (b64_encode s)") (auto simp: b64_decode_def)
  have "b64_encode (a # b # c # s) = [b64_char (n div 262144), b64_char (n div 4096), b64_char (n div 64), b64_char n] @ b64_encode s"
    unfolding b64_encode.simps Let_def n_def by (rule refl)
  then have "b64_decode (b64_encode (a # b # c # s))
      = b64_groups (n div 262144 mod 64 # n div 4096 mod 64 # n div 64 mod 64 # n mod 64 # vs)"
    by (simp add: b64_decode_def vs(1))
  then show ?case unfolding b64_groups.simps Let_def bytes(1) by (simp add: vs(2) ch)
qed (simp add: b64_decode_def)

end
