(* ===== verification/GoUrl.thy ===== *)
theory GoUrl
  imports Prelude
begin

text \<open>
  The part of Go's \<open>net/url\<close> the program uses: \<open>url.PathEscape\<close>, the quoting of \<open>url.Values.Encode\<close>, and the
  trimming of slashes at the end of a base address.
\<close>

definition unreserved :: "char \<Rightarrow> bool" where
  "unreserved c \<longleftrightarrow> c \<in> set ''abcdefghijklmnopqrstuvwxyzABCDEFGHIJKLMNOPQRSTUVWXYZ0123456789-_.~''"

definition upper_nibble :: "nat \<Rightarrow> char" where
  "upper_nibble n = ''0123456789ABCDEF'' ! (n mod 16)"

definition percent :: "char \<Rightarrow> string" where
  "percent c = [CHR ''%'', upper_nibble (of_char c div 16), upper_nibble (of_char c)]"

definition path_plain :: "char \<Rightarrow> bool" where
  "path_plain c \<longleftrightarrow> unreserved c \<or> c \<in> set ''$&+:=@''"

definition path_escape_char :: "char \<Rightarrow> string" where
  "path_escape_char c = (if path_plain c then [c] else percent c)"

definition PathEscape :: "string \<Rightarrow> string" where
  "PathEscape s = concat (map path_escape_char s)"

definition query_escape_char :: "char \<Rightarrow> string" where
  "query_escape_char c = (if unreserved c then [c] else if c = CHR '' '' then ''+'' else percent c)"

definition QueryEscape :: "string \<Rightarrow> string" where
  "QueryEscape s = concat (map query_escape_char s)"

definition trim_slashes :: "string \<Rightarrow> string" where
  "trim_slashes s = rev (dropWhile (\<lambda>c. c = CHR ''/'') (rev s))"

end
