(* ===== verification/Web.thy ===== *)
theory Web
  imports Admission Base64 GoUrl "HOL-Library.Multiset"
begin

text \<open>
  Requests, errors and paging of the HTTP surface (the helpers of \<open>src/internal/handler/workspace.go\<close>).

  A request holds its route, its query parameters in order, its path parameters, headers and body. A handler returns
  an error with its status, code and retry flag, or what it renders; the user-facing message of an error and the
  request identifier are not modelled. \<open>parse\<close> is the JSON reader of the standard library.

  \<open>sort.Slice\<close> is an insertion sort with the code's own comparison: whenever the comparison is a strict total order on
  the items, every sorting algorithm gives that result.
\<close>

section \<open>Requests and errors\<close>

record web_request =
  wr_path :: string
  wr_query :: "(string \<times> string) list"
  wr_param :: "string \<Rightarrow> string"
  wr_header :: "string \<Rightarrow> string"
  wr_body :: string

record web_error =
  we_status :: nat
  we_code :: string
  we_retry :: bool

type_synonym 'a web = "(web_error, 'a) res"

definition query_of :: "web_request \<Rightarrow> string \<Rightarrow> string" where
  "query_of rq k = (case map_of (wr_query rq) k of None \<Rightarrow> [] | Some v \<Rightarrow> v)"

definition wsError :: "nat \<Rightarrow> string \<Rightarrow> bool \<Rightarrow> web_error" where
  "wsError status code retry = \<lparr> we_status = status, we_code = code, we_retry = retry \<rparr>"

definition invalid_request :: web_error where
  "invalid_request = wsError 400 ''invalid_request'' False"

text \<open>\<open>ctx\<close> is the error of the request's context, if it has ended.\<close>

definition wsFail :: "ws_error option \<Rightarrow> ws_error \<Rightarrow> web_error" where
  "wsFail ctx e =
     (if e = ErrNoRows then wsError 404 ''not_found'' False
      else if e = ErrConflict then wsError 409 ''conflict'' False
      else if e = ErrUnavailable then wsError 503 ''source_unavailable'' True
      else if ctx = Some e then wsError 504 ''timeout'' True
      else wsError 503 ''source_unavailable'' True)"

definition web_of :: "ws_error option \<Rightarrow> 'a ws \<Rightarrow> 'a web" where
  "web_of ctx r = (case r of Inl e \<Rightarrow> Inl (wsFail ctx e) | Inr x \<Rightarrow> Inr x)"

definition guard :: "bool \<Rightarrow> web_error \<Rightarrow> 'a web \<Rightarrow> 'a web" where
  "guard b e m = (if b then m else Inl e)"

lemma guard_Inr [simp]: "guard b e m = Inr x \<longleftrightarrow> b \<and> m = Inr x"
  by (simp add: guard_def)

lemma web_of_Inr [simp]: "web_of ctx r = Inr x \<longleftrightarrow> r = Inr x"
  by (simp add: web_of_def split: sum.splits)

definition wsBody :: "nat \<Rightarrow> web_request \<Rightarrow> string web" where
  "wsBody mx rq = guard (length (wr_body rq) \<le> mx) (wsError 413 ''body_too_large'' False) (Inr (wr_body rq))"

text \<open>\<open>strconv.Atoi\<close>\<close>

definition atoi :: "string \<Rightarrow> int option" where
  "atoi s =
     (let neg = has_prefix s ''-''; ds = (if neg \<or> has_prefix s ''+'' then tl s else s);
          v = (if neg then - int (dec_val 0 ds) else int (dec_val 0 ds))
      in if ds \<noteq> [] \<and> list_all is_digit ds \<and> - (2 ^ 63) \<le> v \<and> v < 2 ^ 63 then Some v else None)"

definition wsInt :: "string \<Rightarrow> int \<Rightarrow> int \<Rightarrow> int \<Rightarrow> web_request \<Rightarrow> int web" where
  "wsInt key def mn mx rq =
     (let s = query_of rq key in
      if s = [] then Inr def
      else case atoi s of
        None \<Rightarrow> Inl invalid_request
      | Some n \<Rightarrow> if n < mn \<or> mx < n then Inl invalid_request else Inr n)"

section \<open>Stamps and cursors\<close>

definition compareStamp :: "string \<Rightarrow> string \<Rightarrow> int" where
  "compareStamp a b =
     (case (parse_nano a, parse_nano b) of
        (Some ta, Some tb) \<Rightarrow> if ta < tb then - 1 else if tb < ta then 1 else 0
      | _ \<Rightarrow> if a < b then - 1 else if b < a then 1 else 0)"

record page_cursor =
  pc_filter :: string
  pc_time :: string
  pc_id :: string

text \<open>\<open>url.Values.Encode\<close>: sorted by key, the values of a key in their order.\<close>

definition encode_query :: "(string \<times> string) list \<Rightarrow> string" where
  "encode_query q = join_with ''&'' (map (\<lambda>(k, v). QueryEscape k @ ''='' @ QueryEscape v) (sort_key fst q))"

definition filterHash :: "web_request \<Rightarrow> string" where
  "filterHash rq =
     hash (wr_path rq @ ''?'' @ encode_query (filter (\<lambda>(k, v). k \<noteq> ''cursor'' \<and> k \<noteq> ''limit'') (wr_query rq)))"

definition cursor_json :: "page_cursor \<Rightarrow> string" where
  "cursor_json c = ''{'' @ json_string ''filter'' @ '':'' @ json_string (pc_filter c) @ '','' @ json_string ''time'' @ '':''
     @ json_string (pc_time c) @ '','' @ json_string ''id'' @ '':'' @ json_string (pc_id c) @ ''}''"

definition encodeCursor :: "page_cursor \<Rightarrow> string" where
  "encodeCursor c = b64_encode (cursor_json c)"

definition zero_cursor :: page_cursor where
  "zero_cursor = \<lparr> pc_filter = [], pc_time = [], pc_id = [] \<rparr>"

definition decode_cursor_json :: "json option \<Rightarrow> page_cursor ws" where
  "decode_cursor_json j =
     (case j of
        Some JNull \<Rightarrow> Inr zero_cursor
      | Some (JObj kvs) \<Rightarrow>
          res_bind (str_field ''filter'' kvs) (\<lambda>f.
          res_bind (str_field ''time'' kvs) (\<lambda>t.
          res_bind (str_field ''id'' kvs) (\<lambda>i. Inr \<lparr> pc_filter = f, pc_time = t, pc_id = i \<rparr>)))
      | _ \<Rightarrow> Inl ErrJSON)"

definition invalid_cursor :: web_error where
  "invalid_cursor = wsError 400 ''invalid_cursor'' False"

definition decodeCursor :: "(string \<Rightarrow> json option) \<Rightarrow> web_request \<Rightarrow> page_cursor web" where
  "decodeCursor parse rq =
     (let raw = query_of rq ''cursor'' in
      if raw = [] then Inr zero_cursor
      else if length raw > 4096 then Inl invalid_cursor
      else case b64_decode raw of
        None \<Rightarrow> Inl invalid_cursor
      | Some b \<Rightarrow>
          (case decode_cursor_json (parse b) of
             Inl _ \<Rightarrow> Inl invalid_cursor
           | Inr cur \<Rightarrow>
               if pc_filter cur \<noteq> filterHash rq \<or> pc_id cur = [] then Inl invalid_cursor
               else if pc_time cur \<noteq> [] \<and> parse_nano (pc_time cur) = None then Inl invalid_cursor
               else Inr cur))"

section \<open>Pages\<close>

fun insert_by :: "('a \<Rightarrow> 'a \<Rightarrow> bool) \<Rightarrow> 'a \<Rightarrow> 'a list \<Rightarrow> 'a list" where
  "insert_by before x [] = [x]"
| "insert_by before x (y # ys) = (if before y x then y # insert_by before x ys else x # y # ys)"

definition sort_by :: "('a \<Rightarrow> 'a \<Rightarrow> bool) \<Rightarrow> 'a list \<Rightarrow> 'a list" where
  "sort_by before xs = foldr (insert_by before) xs []"

definition page_before :: "('a \<Rightarrow> string \<times> string) \<Rightarrow> 'a \<Rightarrow> 'a \<Rightarrow> bool" where
  "page_before key x y =
     (case (key x, key y) of ((ti, ii), (tj, ij)) \<Rightarrow>
        let cmp = compareStamp ti tj in cmp > 0 \<or> (cmp = 0 \<and> ij < ii))"

definition skipped :: "page_cursor \<Rightarrow> string \<times> string \<Rightarrow> bool" where
  "skipped cur = (\<lambda>(t, i).
     pc_id cur \<noteq> [] \<and> (compareStamp t (pc_time cur) > 0 \<or> (compareStamp t (pc_time cur) = 0 \<and> pc_id cur \<le> i)))"

fun page_loop :: "page_cursor \<Rightarrow> int \<Rightarrow> ('a \<Rightarrow> string \<times> string) \<Rightarrow> 'a list \<Rightarrow> 'a list \<Rightarrow> 'a list \<times> bool" where
  "page_loop cur limit key [] out = (out, False)"
| "page_loop cur limit key (x # xs) out =
     (if skipped cur (key x) then page_loop cur limit key xs out
      else if int (length out) = limit then (out, True)
      else page_loop cur limit key xs (out @ [x]))"

definition pageItems :: "(string \<Rightarrow> json option) \<Rightarrow> web_request \<Rightarrow> 'a list \<Rightarrow> ('a \<Rightarrow> string \<times> string) \<Rightarrow>
    ('a list \<times> bool \<times> string option) web" where
  "pageItems parse rq items key =
     res_bind (wsInt ''limit'' 20 1 100 rq) (\<lambda>limit.
     res_bind (decodeCursor parse rq) (\<lambda>cur.
       case page_loop cur limit key (sort_by (page_before key) items) [] of (out, hasMore) \<Rightarrow>
         Inr (out, hasMore,
           if hasMore \<and> out \<noteq> []
           then (case key (last out) of (t, i) \<Rightarrow>
             Some (encodeCursor \<lparr> pc_filter = filterHash rq, pc_time = t, pc_id = i \<rparr>))
           else None)))"

section \<open>Sorting\<close>

lemma mset_insert_by [simp]: "mset (insert_by before x xs) = add_mset x (mset xs)"
  by (induction xs) auto

lemma mset_sort_by [simp]: "mset (sort_by before xs) = mset xs"
  by (induction xs) (auto simp: sort_by_def)

lemma set_insert_by [simp]: "set (insert_by before x xs) = insert x (set xs)"
  by (induction xs) auto

lemma set_sort_by [simp]: "set (sort_by before xs) = set xs"
  by (metis mset_sort_by set_mset_mset)

text \<open>The comparison is a strict total order on the items.\<close>

definition strict_on :: "('a \<Rightarrow> 'a \<Rightarrow> bool) \<Rightarrow> 'a set \<Rightarrow> bool" where
  "strict_on before A \<longleftrightarrow> (\<forall>x \<in> A. \<forall>y \<in> A. \<forall>z \<in> A. before x y \<longrightarrow> before y z \<longrightarrow> before x z)
     \<and> (\<forall>x \<in> A. \<forall>y \<in> A. x \<noteq> y \<longrightarrow> before x y \<or> before y x)"

lemma strict_on_trans: "strict_on before A \<Longrightarrow> x \<in> A \<Longrightarrow> y \<in> A \<Longrightarrow> z \<in> A \<Longrightarrow> before x y \<Longrightarrow> before y z \<Longrightarrow> before x z"
  unfolding strict_on_def by blast

lemma strict_on_total: "strict_on before A \<Longrightarrow> x \<in> A \<Longrightarrow> y \<in> A \<Longrightarrow> x \<noteq> y \<Longrightarrow> \<not> before y x \<Longrightarrow> before x y"
  unfolding strict_on_def by blast

lemma sorted_insert_by:
  assumes "strict_on before A" and "x \<in> A" and "set xs \<subseteq> A" and "x \<notin> set xs" and "sorted_wrt before xs"
  shows "sorted_wrt before (insert_by before x xs)"
  using assms(3-5)
proof (induction xs)
  case (Cons y ys)
  have xy: "x \<noteq> y" "y \<in> A" using Cons.prems by auto
  show ?case
  proof (cases "before y x")
    case True
    with Cons show ?thesis by auto
  next
    case False
    then have b: "before x y" by (rule strict_on_total [OF assms(1,2) xy(2,1)])
    have "before x z" if "z \<in> set ys" for z
      by (rule strict_on_trans [OF assms(1,2) xy(2) _ b]) (use that Cons.prems in auto)
    with False b Cons.prems show ?thesis by simp
  qed
qed simp

lemma sorted_sort_by:
  assumes "strict_on before (set xs)" and "distinct xs"
  shows "sorted_wrt before (sort_by before xs)"
proof -
  have "sorted_wrt before (sort_by before ys)" if "set ys \<subseteq> set xs" "distinct ys" for ys
    using that
  proof (induction ys)
    case (Cons y ys)
    have "sort_by before (y # ys) = insert_by before y (sort_by before ys)" by (simp add: sort_by_def)
    with Cons sorted_insert_by [OF assms(1), of y "sort_by before ys"] show ?case by simp
  qed (simp add: sort_by_def)
  with assms(2) show ?thesis by simp
qed

section \<open>Following the cursors\<close>

text \<open>The stamps of one listing are all instants, or all empty. Then the comparison is the order of the instants and,
  for equal instants, of the identifiers.\<close>

definition uniform_stamps :: "('a \<Rightarrow> string \<times> string) \<Rightarrow> 'a list \<Rightarrow> bool" where
  "uniform_stamps key xs \<longleftrightarrow> (\<forall>x \<in> set xs. parse_nano (fst (key x)) \<noteq> None) \<or> (\<forall>x \<in> set xs. fst (key x) = [])"

definition page_rank :: "string \<times> string \<Rightarrow> int \<times> string" where
  "page_rank k = (parse_or_zero (fst k), snd k)"

lemma compare_uniform:
  assumes "uniform_stamps key xs" and "x \<in> set xs" and "y \<in> set xs"
  shows "compareStamp (fst (key x)) (fst (key y)) =
    (if parse_or_zero (fst (key x)) < parse_or_zero (fst (key y)) then - 1
     else if parse_or_zero (fst (key y)) < parse_or_zero (fst (key x)) then 1 else 0)"
proof -
  consider ta tb where "parse_nano (fst (key x)) = Some ta" "parse_nano (fst (key y)) = Some tb"
    | "fst (key x) = []" "fst (key y) = []"
    using assms unfolding uniform_stamps_def by blast
  then show ?thesis by cases (simp_all add: compareStamp_def parse_or_zero_def)
qed

lemma page_before_rank:
  assumes "uniform_stamps key xs" and "x \<in> set xs" and "y \<in> set xs"
  shows "page_before key x y \<longleftrightarrow> page_rank (key y) < page_rank (key x)"
proof -
  obtain t i t' i' where k: "key x = (t, i)" "key y = (t', i')" by fastforce
  show ?thesis using compare_uniform [OF assms]
    by (auto simp: page_before_def page_rank_def k less_prod_simp split: if_splits)
qed

lemma skipped_rank:
  assumes "uniform_stamps key xs" and "x \<in> set xs" and "y \<in> set xs" and "snd (key y) \<noteq> []"
  shows "skipped \<lparr> pc_filter = f, pc_time = fst (key y), pc_id = snd (key y) \<rparr> (key x) \<longleftrightarrow> page_rank (key y) \<le> page_rank (key x)"
proof -
  obtain t i t' i' where k: "key x = (t, i)" "key y = (t', i')" by fastforce
  show ?thesis using compare_uniform [OF assms(1-3)] assms(4)
    by (auto simp: skipped_def page_rank_def k less_eq_prod_simp split: if_splits)
qed

lemma strict_page_before:
  assumes "uniform_stamps key xs" and "inj_on (snd \<circ> key) (set xs)"
  shows "strict_on (page_before key) (set xs)"
proof -
  have "page_rank (key x) \<noteq> page_rank (key y)" if "x \<in> set xs" "y \<in> set xs" "x \<noteq> y" for x y
    using that assms(2) by (auto simp: page_rank_def inj_on_def)
  note ne = this and r = page_before_rank [OF assms(1)]
  show ?thesis unfolding strict_on_def
  proof (intro conjI ballI impI)
    fix x y z assume xyz: "x \<in> set xs" "y \<in> set xs" "z \<in> set xs" and b: "page_before key x y" "page_before key y z"
    have "page_rank (key z) < page_rank (key x)" using b r xyz by (metis less_trans)
    with r xyz show "page_before key x z" by simp
  next
    fix x y assume xy: "x \<in> set xs" "y \<in> set xs" "x \<noteq> y"
    from ne [OF xy] have "page_rank (key x) < page_rank (key y) \<or> page_rank (key y) < page_rank (key x)" by (rule neq_iff [THEN iffD1])
    with r xy(1,2) show "page_before key x y \<or> page_before key y x" by blast
  qed
qed

lemma page_loop_eq:
  "page_loop cur limit key xs out =
     (let rest = filter (\<lambda>x. \<not> skipped cur (key x)) xs; n = nat (limit - int (length out))
      in if limit < int (length out) then (out @ rest, False) else (out @ take n rest, n < length rest))"
proof (induction xs arbitrary: out)
  case (Cons x xs)
  show ?case
  proof (cases "skipped cur (key x)")
    case False
    show ?thesis
    proof (cases "int (length out) = limit")
      case True
      with False show ?thesis by (simp add: Let_def)
    next
      case other: False
      have "nat (limit - int (length out)) = Suc (nat (limit - int (length (out @ [x]))))" if "int (length out) < limit"
        using that by simp
      with False other Cons [of "out @ [x]"] show ?thesis by (auto simp: Let_def not_less)
    qed
  qed (use Cons in simp)
qed (simp add: Let_def)

definition set_cursor :: "string \<Rightarrow> web_request \<Rightarrow> web_request" where
  "set_cursor c rq = rq\<lparr>wr_query := (''cursor'', c) # filter (\<lambda>(k, v). k \<noteq> ''cursor'') (wr_query rq)\<rparr>"

lemma map_of_other_key: "k' \<noteq> k \<Longrightarrow> map_of (filter (\<lambda>(k, v). k \<noteq> k') q) k = map_of q k"
  by (induction q) auto

lemma filter_other_keys:
  "filter (\<lambda>(k, v). k \<noteq> a \<and> k \<noteq> b) (filter (\<lambda>(k, v). k \<noteq> a) q) = filter (\<lambda>(k, v). k \<noteq> a \<and> k \<noteq> b) q"
  by (induction q) auto

lemma set_cursor_limit [simp]: "query_of (set_cursor c rq) ''limit'' = query_of rq ''limit''"
  using map_of_other_key [of "''cursor''" "''limit''" "wr_query rq"] by (simp add: query_of_def set_cursor_def)

lemma set_cursor_hash [simp]: "filterHash (set_cursor c rq) = filterHash rq"
  using filter_other_keys [of "''cursor''" "''limit''" "wr_query rq"] by (simp add: filterHash_def set_cursor_def)

lemma set_cursor_simps [simp]:
  "query_of (set_cursor c rq) ''cursor'' = c" "set_cursor c (set_cursor c' rq) = set_cursor c rq"
  by (simp_all add: query_of_def set_cursor_def)

lemma wsInt_set_cursor [simp]: "wsInt ''limit'' a b l (set_cursor c rq) = wsInt ''limit'' a b l rq"
  by (simp add: wsInt_def)

text \<open>What a client does that follows the cursors until there is none.\<close>

fun follow :: "nat \<Rightarrow> (string \<Rightarrow> json option) \<Rightarrow> web_request \<Rightarrow> 'a list \<Rightarrow> ('a \<Rightarrow> string \<times> string) \<Rightarrow> 'a list list option" where
  "follow 0 parse rq items key = None"
| "follow (Suc n) parse rq items key =
     (case pageItems parse rq items key of
        Inl _ \<Rightarrow> None
      | Inr (out, _, nxt) \<Rightarrow>
          (case nxt of
             None \<Rightarrow> Some [out]
           | Some c \<Rightarrow> map_option ((#) out) (follow n parse (set_cursor c rq) items key)))"

text \<open>Cursors of a listing that the JSON reader reads back and that are not too long.\<close>

definition cursor_of :: "web_request \<Rightarrow> string \<times> string \<Rightarrow> page_cursor" where
  "cursor_of rq k = \<lparr> pc_filter = filterHash rq, pc_time = fst k, pc_id = snd k \<rparr>"

definition readable :: "(string \<Rightarrow> json option) \<Rightarrow> web_request \<Rightarrow> string \<times> string \<Rightarrow> bool" where
  "readable parse rq k \<longleftrightarrow> snd k \<noteq> [] \<and> length (encodeCursor (cursor_of rq k)) \<le> 4096
     \<and> parse (cursor_json (cursor_of rq k))
         = Some (JObj [(''filter'', JStr (filterHash rq)), (''time'', JStr (fst k)), (''id'', JStr (snd k))])"

lemma length_json_escape: "length (json_escape c) \<le> 6"
  by (simp add: json_escape_def Let_def)

lemma length_json_chars: "length (json_chars s) \<le> 6 * length s"
proof (induction s rule: length_induct)
  case (1 s)
  show ?case
  proof (cases s)
    case (Cons c t)
    have drop: "length (json_chars (drop k s)) \<le> 6 * (length s - k)" if "0 < k" for k
      using 1 [rule_format, of "drop k s"] that Cons by simp
    have tl: "length (json_chars t) \<le> 6 * length t" using drop [of 1] Cons by simp
    consider "(of_char c :: nat) < 128" | "\<not> (of_char c :: nat) < 128" "utf8_len (c # t) = 0"
      | "\<not> (of_char c :: nat) < 128" "0 < utf8_len (c # t)" by blast
    then show ?thesis
    proof cases
      case 1
      with tl length_json_escape [of c] Cons show ?thesis by simp
    next
      case 2
      with tl Cons show ?thesis by (simp add: Let_def)
    next
      case 3
      have drops: "length (json_chars (drop 3 (c # t))) \<le> 6 * (Suc (length t) - 3)"
        "length (json_chars (drop (utf8_len (c # t)) (c # t))) \<le> 6 * (Suc (length t) - utf8_len (c # t))"
        using drop [of 3] drop [of "utf8_len (c # t)"] 3 Cons by simp_all
      show ?thesis
      proof (cases "take 3 (c # t) = line_sep \<or> take 3 (c # t) = para_sep")
        case True
        then have "length (json_chars (c # t)) = 6 + length (json_chars (drop 3 (c # t)))" using 3 by (auto simp: Let_def)
        then show ?thesis unfolding Cons using drops(1) by simp
      next
        case False
        then have "length (json_chars (c # t)) = min (Suc (length t)) (utf8_len (c # t)) + length (json_chars (drop (utf8_len (c # t)) (c # t)))"
          using 3 by (simp add: Let_def)
        then show ?thesis unfolding Cons using drops(2) by simp
      qed
    qed
  qed simp
qed

lemma length_b64_encode: "length (b64_encode s) \<le> 2 * length s"
  by (induction s rule: b64_encode.induct) (simp_all add: Let_def)

lemma length_json_string: "length (json_string s) \<le> 6 * length s + 2"
  using length_json_chars [of s] by (simp add: json_string_def)

lemma encodeCursor_length: "length (encodeCursor (cursor_of rq k)) \<le> 1000 + 12 * (length (fst k) + length (snd k))"
proof -
  have "length (cursor_json (cursor_of rq k)) \<le> 500 + 6 * (length (fst k) + length (snd k))"
    using length_json_string [of "''filter''"] length_json_string [of "''time''"] length_json_string [of "''id''"]
      length_json_string [of "filterHash rq"] length_json_string [of "fst k"] length_json_string [of "snd k"]
    unfolding cursor_json_def cursor_of_def length_append page_cursor.simps
    by (simp add: filterHash_def del: json_chars.simps)
  with length_b64_encode [of "cursor_json (cursor_of rq k)"] show ?thesis by (simp add: encodeCursor_def)
qed

lemma encodeCursor_nonempty: "encodeCursor c \<noteq> []"
  by (simp add: encodeCursor_def cursor_json_def b64_encode_Nil)

lemma decode_encoded:
  assumes "readable parse rq k" and "fst k \<noteq> [] \<longrightarrow> parse_nano (fst k) \<noteq> None"
  shows "decodeCursor parse (set_cursor (encodeCursor (cursor_of rq k)) rq) = Inr (cursor_of rq k)"
proof -
  have "decode_cursor_json (parse (cursor_json (cursor_of rq k))) = Inr (cursor_of rq k)"
    using assms(1) by (simp add: readable_def decode_cursor_json_def str_field_def jvalues_def to_lower_def lower_char_def
        set_string_def cursor_of_def)
  moreover have f: "pc_filter (cursor_of rq k) = filterHash rq" "pc_time (cursor_of rq k) = fst k" "pc_id (cursor_of rq k) = snd k"
    by (simp_all add: cursor_of_def)
  moreover have "b64_decode (encodeCursor (cursor_of rq k)) = Some (cursor_json (cursor_of rq k))"
    by (simp add: encodeCursor_def b64_roundtrip)
  ultimately show ?thesis
    using assms encodeCursor_nonempty [of "cursor_of rq k"] by (auto simp: decodeCursor_def readable_def f)
qed

lemma filter_descending:
  assumes "sorted_wrt (\<lambda>x y. (r :: 'a \<Rightarrow> 'b::linorder) y < r x) xs" and "k < length xs"
  shows "filter (\<lambda>x. \<not> r (xs ! k) \<le> r x) xs = drop (Suc k) xs"
proof -
  have "xs = take (Suc k) xs @ drop (Suc k) xs" by simp
  moreover have "filter (\<lambda>x. \<not> r (xs ! k) \<le> r x) (take (Suc k) xs) = []"
    using assms by (fastforce simp: filter_empty_conv in_set_conv_nth less_Suc_eq sorted_wrt_iff_nth_less)
  moreover have "filter (\<lambda>x. \<not> r (xs ! k) \<le> r x) (drop (Suc k) xs) = drop (Suc k) xs"
    using assms by (fastforce simp: filter_id_conv in_set_conv_nth sorted_wrt_iff_nth_less not_le)
  ultimately show ?thesis by (metis append_Nil filter_append)
qed

text \<open>The request after \<open>m\<close> items of the sorted listing.\<close>

definition request_at :: "web_request \<Rightarrow> ('a \<Rightarrow> string \<times> string) \<Rightarrow> 'a list \<Rightarrow> nat \<Rightarrow> web_request" where
  "request_at rq key xs m = (if m = 0 then rq else set_cursor (encodeCursor (cursor_of rq (key (xs ! (m - 1))))) rq)"

definition listing_ok :: "(string \<Rightarrow> json option) \<Rightarrow> web_request \<Rightarrow> 'a list \<Rightarrow> ('a \<Rightarrow> string \<times> string) \<Rightarrow> bool" where
  "listing_ok parse rq items key \<longleftrightarrow> query_of rq ''cursor'' = [] \<and> distinct (map (snd \<circ> key) items)
     \<and> uniform_stamps key items \<and> (\<forall>x \<in> set items. readable parse rq (key x))"

lemma listing_sorted:
  assumes "listing_ok parse rq items key"
  shows "sorted_wrt (\<lambda>x y. page_rank (key y) < page_rank (key x)) (sort_by (page_before key) items)"
proof -
  have u: "uniform_stamps key items" and d: "distinct (map (snd \<circ> key) items)" using assms by (simp_all add: listing_ok_def)
  have "sorted_wrt (page_before key) (sort_by (page_before key) items)"
    using strict_page_before [OF u] d by (intro sorted_sort_by) (simp_all add: distinct_map)
  then show ?thesis
    by (rule sorted_wrt_mono_rel [rotated]) (simp add: page_before_rank [OF u])
qed

lemma page_at:
  assumes ok: "listing_ok parse rq items key" and lim: "wsInt ''limit'' 20 1 100 rq = Inr limit"
    and m: "m \<le> length items" and xs: "xs = sort_by (page_before key) items"
  shows "pageItems parse (request_at rq key xs m) items key
    = Inr (take (nat limit) (drop m xs), nat limit < length xs - m,
        if nat limit < length xs - m then Some (encodeCursor (cursor_of rq (key (xs ! (m + nat limit - 1))))) else None)"
proof -
  have u: "uniform_stamps key items" using ok by (simp add: listing_ok_def)
  have len: "length xs = length items" unfolding xs by (metis mset_sort_by size_mset)
  have set_xs: "set xs = set items" unfolding xs by simp
  have pos: "1 \<le> limit" using lim by (auto simp: wsInt_def Let_def split: if_splits option.splits)
  define rq' where "rq' = request_at rq key xs m"
  have lim': "wsInt ''limit'' 20 1 100 rq' = Inr limit" and h: "filterHash rq' = filterHash rq"
    using lim by (simp_all add: rq'_def request_at_def)
  obtain cur where cur: "decodeCursor parse rq' = Inr cur"
    and rest: "filter (\<lambda>x. \<not> skipped cur (key x)) xs = drop m xs"
  proof (cases m)
    case 0
    have "decodeCursor parse rq' = Inr zero_cursor" using ok 0 by (simp add: rq'_def request_at_def decodeCursor_def listing_ok_def)
    moreover have "filter (\<lambda>x. \<not> skipped zero_cursor (key x)) xs = drop m xs"
      using 0 by (simp add: skipped_def zero_cursor_def case_prod_unfold)
    ultimately show ?thesis by (rule that)
  next
    case (Suc k)
    then have k: "k < length xs" using m len by simp
    then have mem: "xs ! k \<in> set items" using set_xs nth_mem by blast
    with ok have r: "readable parse rq (key (xs ! k))" by (simp add: listing_ok_def)
    have t: "fst (key (xs ! k)) \<noteq> [] \<longrightarrow> parse_nano (fst (key (xs ! k))) \<noteq> None" using u mem unfolding uniform_stamps_def by blast
    have "decodeCursor parse rq' = Inr (cursor_of rq (key (xs ! k)))"
      using decode_encoded [OF r t] Suc by (simp add: rq'_def request_at_def)
    moreover have "skipped (cursor_of rq (key (xs ! k))) (key x) \<longleftrightarrow> page_rank (key (xs ! k)) \<le> page_rank (key x)" if "x \<in> set xs" for x
      using skipped_rank [OF u _ mem] that r set_xs by (simp add: cursor_of_def readable_def)
    then have "filter (\<lambda>x. \<not> skipped (cursor_of rq (key (xs ! k))) (key x)) xs
        = filter (\<lambda>x. \<not> page_rank (key (xs ! k)) \<le> page_rank (key x)) xs" by (auto intro: filter_cong)
    then have "filter (\<lambda>x. \<not> skipped (cursor_of rq (key (xs ! k))) (key x)) xs = drop m xs"
      using filter_descending [OF listing_sorted [OF ok, folded xs] k] Suc by simp
    ultimately show ?thesis by (rule that)
  qed
  have loop: "page_loop cur limit key xs [] = (take (nat limit) (drop m xs), nat limit < length xs - m)"
    using pos rest by (simp add: page_loop_eq Let_def)
  have last: "last (take (nat limit) (drop m xs)) = xs ! (m + nat limit - 1)" if "nat limit < length xs - m"
  proof -
    have "take (nat limit) (drop m xs) \<noteq> []" using that pos by simp
    then have "last (take (nat limit) (drop m xs)) = take (nat limit) (drop m xs) ! (nat limit - 1)"
      using that by (simp add: last_conv_nth)
    also have "\<dots> = xs ! (m + (nat limit - 1))" using that pos by simp
    finally show ?thesis using pos by simp
  qed
  have ne: "take (nat limit) (drop m xs) \<noteq> []" if "nat limit < length xs - m" using that pos by simp
  show ?thesis
  proof (cases "nat limit < length xs - m")
    case True
    show ?thesis
      unfolding rq'_def [symmetric] pageItems_def lim' res_bind_simps cur xs [symmetric] loop prod.case last [OF True]
      using True ne [OF True] by (simp only: cursor_of_def h case_prod_unfold if_True simp_thms)
  next
    case False
    then show ?thesis
      unfolding rq'_def [symmetric] pageItems_def lim' res_bind_simps cur xs [symmetric] loop prod.case
      by (simp only: simp_thms if_False)
  qed
qed

lemma request_at_Suc: "0 < m \<Longrightarrow> set_cursor (encodeCursor (cursor_of rq (key (xs ! (m - 1))))) (request_at rq key xs j) = request_at rq key xs m"
  by (simp add: request_at_def)

lemma follow_from:
  assumes ok: "listing_ok parse rq items key" and lim: "wsInt ''limit'' 20 1 100 rq = Inr limit"
    and xs: "xs = sort_by (page_before key) items"
  shows "m \<le> length items \<Longrightarrow> length xs - m < n \<Longrightarrow>
    \<exists>ps. follow n parse (request_at rq key xs m) items key = Some ps \<and> concat ps = drop m xs \<and> (\<forall>p \<in> set ps. length p \<le> nat limit)"
proof (induction n arbitrary: m)
  case (Suc n)
  have pos: "1 \<le> limit" using lim by (auto simp: wsInt_def Let_def split: if_splits option.splits)
  have len: "length xs = length items" unfolding xs by (metis mset_sort_by size_mset)
  note page = page_at [OF ok lim Suc.prems(1) xs]
  show ?case
  proof (cases "nat limit < length xs - m")
    case True
    let ?m = "m + nat limit"
    have le: "?m \<le> length items" "length xs - ?m < n" using True Suc.prems pos len by simp_all
    obtain ps where ps: "follow n parse (request_at rq key xs ?m) items key = Some ps" "concat ps = drop ?m xs"
      "\<forall>p \<in> set ps. length p \<le> nat limit" using Suc.IH [OF le] by blast
    have nx: "set_cursor (encodeCursor (cursor_of rq (key (xs ! (?m - 1))))) (request_at rq key xs m) = request_at rq key xs ?m"
      using pos request_at_Suc [of ?m rq key xs m] by simp
    have "follow (Suc n) parse (request_at rq key xs m) items key = Some (take (nat limit) (drop m xs) # ps)"
      using True nx ps(1) by (simp add: page)
    moreover have "concat (take (nat limit) (drop m xs) # ps) = drop m xs"
      using ps(2) by (simp, metis add.commute append_take_drop_id drop_drop)
    ultimately show ?thesis using ps(3) by auto
  next
    case False
    then have "follow (Suc n) parse (request_at rq key xs m) items key = Some [take (nat limit) (drop m xs)]" by (simp add: page)
    with False show ?thesis by simp
  qed
qed simp

text \<open>C10. Paging is complete. A client that follows the cursors of a listing gets, in finitely many pages of at most the
  requested size, every item exactly once, the latest first and equal instants by descending identifier, whatever the size
  of a page: no item is skipped or repeated at a page boundary.\<close>

theorem paging_complete:
  assumes "listing_ok parse rq items key" and "wsInt ''limit'' 20 1 100 rq = Inr limit"
  shows "\<exists>ps. follow (Suc (length items)) parse rq items key = Some ps
    \<and> mset (concat ps) = mset items \<and> sorted_wrt (\<lambda>x y. page_rank (key y) < page_rank (key x)) (concat ps)
    \<and> (\<forall>p \<in> set ps. length p \<le> nat limit)"
proof -
  define xs where "xs = sort_by (page_before key) items"
  have "length xs = length items" unfolding xs_def by (metis mset_sort_by size_mset)
  then obtain ps where ps: "follow (Suc (length items)) parse (request_at rq key xs 0) items key = Some ps" "concat ps = xs"
    "\<forall>p \<in> set ps. length p \<le> nat limit"
    using follow_from [OF assms xs_def, of 0 "Suc (length items)"] by auto
  have rq: "request_at rq key xs 0 = rq" by (simp add: request_at_def)
  have "mset (concat ps) = mset items" by (simp add: ps(2) xs_def)
  moreover have "sorted_wrt (\<lambda>x y. page_rank (key y) < page_rank (key x)) (concat ps)"
    using listing_sorted [OF assms(1)] by (simp add: ps(2) xs_def)
  ultimately show ?thesis using ps(1) [unfolded rq] ps(3) by blast
qed

definition ex_request :: web_request where
  "ex_request = \<lparr> wr_path = ''/api/v1/incidents'', wr_query = [(''limit'', ''1'')], wr_param = (\<lambda>_. []), wr_header = (\<lambda>_. []),
     wr_body = [] \<rparr>"

definition ex_keys :: "(string \<times> string) list" where
  "ex_keys = [(''1970-01-01T00:00:00Z'', ''a''), (''1970-01-01T00:00:00.5Z'', ''b'')]"

definition ex_read_cursor :: "string \<Rightarrow> json option" where
  "ex_read_cursor s = map_option (\<lambda>k. JObj [(''filter'', JStr (filterHash ex_request)), (''time'', JStr (fst k)), (''id'', JStr (snd k))])
     (find (\<lambda>k. cursor_json (cursor_of ex_request k) = s) ex_keys)"

lemma ex_readable: "k \<in> set ex_keys \<Longrightarrow> readable ex_read_cursor ex_request k"
proof -
  have ne: "cursor_json (cursor_of ex_request (ex_keys ! 0)) \<noteq> cursor_json (cursor_of ex_request (ex_keys ! 1))"
    by (simp add: cursor_json_def cursor_of_def ex_keys_def json_string_def json_escape_def)
  have "length (encodeCursor (cursor_of ex_request k)) \<le> 4096" if "k \<in> set ex_keys"
    using that encodeCursor_length [of ex_request k] by (auto simp: ex_keys_def)
  then show "k \<in> set ex_keys \<Longrightarrow> readable ex_read_cursor ex_request k"
    using ne by (auto simp: readable_def ex_read_cursor_def ex_keys_def)
qed

theorem paging_complete_witness:
  "\<exists>ps. follow 3 ex_read_cursor ex_request ex_keys id = Some ps \<and> mset (concat ps) = mset ex_keys
     \<and> sorted_wrt (\<lambda>x y. page_rank y < page_rank x) (concat ps)"
proof -
  have "listing_ok ex_read_cursor ex_request ex_keys id"
    using ex_readable by (auto simp: listing_ok_def query_of_def ex_request_def uniform_stamps_def ex_keys_def parse_epoch parse_half_second)
  moreover have "wsInt ''limit'' 20 1 100 ex_request = Inr 1"
    by (simp add: wsInt_def query_of_def ex_request_def atoi_def has_prefix_def is_digit_def less_eq_char_def Let_def)
  ultimately obtain ps where "follow (Suc (length ex_keys)) ex_read_cursor ex_request ex_keys id = Some ps"
    "mset (concat ps) = mset ex_keys" "sorted_wrt (\<lambda>x y. page_rank (id y) < page_rank (id x)) (concat ps)"
    using paging_complete by blast
  moreover have "Suc (length ex_keys) = 3" by (simp add: ex_keys_def)
  ultimately show ?thesis by (simp only: id_apply) blast
qed

end
