(* ===== verification/Runs.thy ===== *)
theory Runs
  imports Admission
begin

text \<open>
  The life of a run (\<open>src/internal/workspace/service.go\<close>, and the legacy report of
  \<open>diagnosis.go\<close>): claiming with a lease and a fencing attempt number, the fenced transactions
  \<open>event\<close> and \<open>finish\<close>, recovery after a crash, and the notification worker.

  A worker holds the \<open>run\<close> that \<open>claim\<close> returned; its \<open>CurrentAttempt\<close> is the fencing
  token that \<open>owned\<close> compares with the row.
\<close>

record service =
  sv_space_id :: string
  sv_webhook_url :: string
  sv_judge_threshold :: int
  sv_judge_key :: string
  sv_judge_model :: string

text \<open>\<open>Duration.Milliseconds\<close> truncates towards zero.\<close>

definition ms_between :: "time \<Rightarrow> time \<Rightarrow> int" where
  "ms_between t0 t1 = (if t1 < t0 then - ((t0 - t1) div 1000000) else (t1 - t0) div 1000000)"

section \<open>The legacy report\<close>

definition evidence_observation :: "evidence \<Rightarrow> observation ws" where
  "evidence_observation e =
     (case map_of (evi_metadata e) ''observation'' of
        None \<Rightarrow> Inr zero_observation
      | Some MNull \<Rightarrow> Inr zero_observation
      | Some (MObs o1) \<Rightarrow> Inr o1
      | Some _ \<Rightarrow> Inl ErrJSON)"

definition run_alerts :: "string \<Rightarrow> db \<Rightarrow> observation list ws" where
  "run_alerts i d = map_res evidence_observation
     (filter (\<lambda>e. evi_kind e = ''alert_observation'')
        (map vi_data (filter (\<lambda>x. vi_run x = Some i) (t_evidence d))))"

text \<open>The join of evidence and citations; SQL leaves its order open, the model takes the order of the
  citation table.\<close>

definition cited_evidence :: "string \<Rightarrow> db \<Rightarrow> evidence list" where
  "cited_evidence i d =
     List.map_filter (\<lambda>c. map_option vi_data (tget vi_id (cr_evidence c) (t_evidence d)))
       (filter (\<lambda>c. cr_run c = i) (t_citations d))"

definition legacy_cite :: "db \<Rightarrow> evidence \<Rightarrow> legacy_citation ws" where
  "legacy_cite d e =
     res_bind (case evi_chunk_id e of
                 None \<Rightarrow> Inr (case evi_document_id e of None \<Rightarrow> [] | Some s \<Rightarrow> s)
               | Some c \<Rightarrow> res_bind (get_chunk c d) (\<lambda>c. Inr (chk_title c)))
       (\<lambda>title. Inr \<lparr> lc_doc = title, lc_snippet = evi_snippet e, lc_source = evi_source_kind e,
                      lc_version_id = evi_version_id e, lc_chunk_id = evi_chunk_id e \<rparr>)"

definition legacy_status :: "run \<Rightarrow> string" where
  "legacy_status r = (if run_status r = ''succeeded'' then ''done'' else run_status r)"

text \<open>
  The archived report of an imported run. \<open>parse\<close> is Go's JSON parser; of the archived object the
  code replaces four members and keeps the others, which the model holds as the raw text.
\<close>

definition archived_report :: "(string \<Rightarrow> json option) \<Rightarrow> run \<Rightarrow> db \<Rightarrow> legacy_report option" where
  "archived_report parse r d =
     (if run_incident_ids r \<noteq> [] then None
      else case tget vi_id (stableID ''legacy_'' (run_id r)) (t_evidence d) of
        None \<Rightarrow> None
      | Some x \<Rightarrow>
          (case map_of (evi_metadata (vi_data x)) ''legacy_json'' of
             Some (MStr raw) \<Rightarrow>
               (case parse raw of
                  Some (JObj _) \<Rightarrow>
                    Some \<lparr> lr_id = run_id r, lr_status = legacy_status r, lr_received_at = [],
                           lr_alerts = [], lr_diagnosis = [], lr_citations = [], lr_score = 0,
                           lr_low_score = False, lr_evidence_status = ''not_evaluated'',
                           lr_notification_status = ''disabled'', lr_legacy_incomplete = True,
                           lr_archived = Some raw \<rparr>
                | _ \<Rightarrow> None)
           | _ \<Rightarrow> None))"

definition legacyReportTx :: "(string \<Rightarrow> json option) \<Rightarrow> service \<Rightarrow> run \<Rightarrow> db \<Rightarrow> legacy_report ws" where
  "legacyReportTx parse sv r d =
     res_bind (run_alerts (run_id r) d) (\<lambda>alerts.
     res_bind (map_res (legacy_cite d) (cited_evidence (run_id r) d)) (\<lambda>cites.
       case archived_report parse r d of
         Some old \<Rightarrow> Inr old
       | None \<Rightarrow>
           (let score = (case run_judge_score r of None \<Rightarrow> 0 | Some s \<Rightarrow> s) in
            Inr \<lparr> lr_id = run_id r, lr_status = legacy_status r,
                  lr_received_at = run_received_at r, lr_alerts = alerts,
                  lr_diagnosis = (case run_report_text r of None \<Rightarrow> [] | Some t \<Rightarrow> t),
                  lr_citations = cites, lr_score = score,
                  lr_low_score = (score > 0 \<and> sv_judge_threshold sv > 0 \<and> score < sv_judge_threshold sv),
                  lr_evidence_status = run_evidence_status r,
                  lr_notification_status = run_notification_status r,
                  lr_legacy_incomplete = False, lr_archived = None \<rparr>)))"

definition LegacyReports :: "(string \<Rightarrow> json option) \<Rightarrow> service \<Rightarrow> db \<Rightarrow> legacy_report list ws" where
  "LegacyReports parse sv d = map_res (\<lambda>r. legacyReportTx parse sv r d) (take 20 (list_runs d))"

definition LegacyReport :: "(string \<Rightarrow> json option) \<Rightarrow> service \<Rightarrow> string \<Rightarrow> db \<Rightarrow> legacy_report ws" where
  "LegacyReport parse sv i d = res_bind (get_run i d) (\<lambda>r. legacyReportTx parse sv r d)"

section \<open>Claiming\<close>

definition lease_held :: "string \<Rightarrow> time \<Rightarrow> db \<Rightarrow> bool" where
  "lease_held i now d =
     (case tget rr_id i (t_runs d) of
        None \<Rightarrow> False
      | Some x \<Rightarrow> (case rr_lease_until x of None \<Rightarrow> False | Some l \<Rightarrow> fmt_nano now < l))"

definition lease_time :: "int" where
  "lease_time = seconds 95"

definition set_lease :: "string \<Rightarrow> string \<Rightarrow> db \<Rightarrow> db" where
  "set_lease i l d = d\<lparr>t_runs := tupd rr_id i (\<lambda>x. x\<lparr>rr_lease_until := Some l\<rparr>) (t_runs d)\<rparr>"

definition delete_citations :: "string \<Rightarrow> db \<Rightarrow> db" where
  "delete_citations i d = d\<lparr>t_citations := filter (\<lambda>c. cr_run c \<noteq> i) (t_citations d)\<rparr>"

definition wait_ms :: "run \<Rightarrow> time \<Rightarrow> int" where
  "wait_ms r now = (case parse_nano (run_received_at r) of None \<Rightarrow> 0 | Some t \<Rightarrow> max 0 (ms_between t now))"

definition claimed :: "run \<Rightarrow> time \<Rightarrow> run" where
  "claimed r now = r\<lparr>run_citation_ids := [], run_evidence_status := ''not_evaluated'',
     run_report_text := None, run_status := ''running'',
     run_current_attempt := run_current_attempt r + 1, run_revision := run_revision r + 1,
     run_started_at := Some (fmt_nano now)\<rparr>"

definition claim :: "string \<Rightarrow> time \<Rightarrow> db \<Rightarrow> ((run \<times> bool) \<times> db) ws" where
  "claim i now d =
     res_bind (get_run i d) (\<lambda>r.
       if terminal (run_status r) then Inr ((r, False), d)
       else ensure (\<not> (run_status r = ''running'' \<and> lease_held i now d)) (ErrMsg ''run already leased'')
         (let r1 = claimed r now;
              d1 = set_lease i (fmt_nano (now + lease_time)) (saveRun r1 (delete_citations (run_id r) d))
          in res_bind (addEvent r1 ''queue'' ''started'' None None None now d1) (\<lambda>d2.
             res_bind (addEvent r1 ''queue'' ''succeeded'' (Some (wait_ms r1 now)) None None now d2) (\<lambda>d3.
               Inr ((r1, True), d3)))))"

section \<open>Fenced transactions\<close>

definition owned :: "run \<Rightarrow> db \<Rightarrow> unit ws" where
  "owned r d =
     (case tget rr_id (run_id r) (t_runs d) of
        None \<Rightarrow> Inl ErrNoRows
      | Some x \<Rightarrow> if rr_attempt x \<noteq> run_current_attempt r \<or> rr_status x \<noteq> ''running''
                  then Inl ErrFenced else Inr ())"

definition run_event :: "run \<Rightarrow> string \<Rightarrow> string \<Rightarrow> int option \<Rightarrow> string option \<Rightarrow> api_error option \<Rightarrow>
    time \<Rightarrow> db \<Rightarrow> db ws" where
  "run_event r stage kind ms ref ae now d =
     res_bind (owned r d) (\<lambda>_. addEvent r stage kind ms ref ae now d)"

definition notification_key :: "string \<Rightarrow> string" where
  "notification_key i = ''notification:'' @ i"

definition ignore_outbox :: "outbox_row \<Rightarrow> db \<Rightarrow> db" where
  "ignore_outbox r d =
     (if ob_dedupe_key r \<in> set (map ob_dedupe_key (t_outbox d)) then d
      else d\<lparr>t_outbox := tign ob_id r (t_outbox d)\<rparr>)"

definition notification_outbox :: "string \<Rightarrow> legacy_report \<Rightarrow> time \<Rightarrow> outbox_row" where
  "notification_outbox i rep now =
     \<lparr> ob_id = notification_key i, ob_kind = ''notification'', ob_dedupe_key = notification_key i,
       ob_payload = PNotification rep, ob_state = ''pending'', ob_attempts = 0,
       ob_next_at = fmt_nano now, ob_last_error = None \<rparr>"

definition report_id :: "string \<Rightarrow> string" where
  "report_id i = ''report_'' @ i"

definition report_evidence :: "run \<Rightarrow> string \<Rightarrow> string \<Rightarrow> time \<Rightarrow> evidence" where
  "report_evidence r ev text now =
     \<lparr> evi_id = report_id (run_id r), evi_kind = ''report'', evi_source_kind = ''system'',
       evi_source_ref = run_id r, evi_recorded_at = fmt_nano now, evi_observed_at = None,
       evi_document_id = None, evi_version_id = None, evi_chunk_id = None, evi_snippet = Some text,
       evi_metadata = [(''run_id'', MStr (run_id r)), (''evidence_status'', MStr ev),
                       (''verification'', MStr ''unverified'')] \<rparr>"

definition replace_evidence :: "evidence \<Rightarrow> string \<Rightarrow> db \<Rightarrow> db" where
  "replace_evidence e i d = d\<lparr>t_evidence := trep vi_id
     \<lparr> vi_id = evi_id e, vi_run = Some i, vi_incident = None, vi_data = e \<rparr> (t_evidence d)\<rparr>"

text \<open>The run that \<open>finish\<close> publishes: the worker's copy, with the citations and the revision of the
  row.\<close>

definition finished :: "run \<Rightarrow> run \<Rightarrow> time \<Rightarrow> string \<Rightarrow> string \<Rightarrow> string \<Rightarrow> int option \<Rightarrow>
    api_error option \<Rightarrow> time \<Rightarrow> run" where
  "finished r current began status ev text score ae now =
     r\<lparr>run_citation_ids := run_citation_ids current, run_status := status,
       run_evidence_status := ev, run_report_text := Some text, run_judge_score := score,
       run_error := ae, run_finished_at := Some (fmt_nano now),
       run_duration_ms := Some (ms_between began now), run_revision := run_revision current + 1\<rparr>"

definition notifies :: "service \<Rightarrow> string \<Rightarrow> int option \<Rightarrow> bool" where
  "notifies sv status score \<longleftrightarrow> sv_webhook_url sv \<noteq> []
     \<and> (status = ''failed''
        \<or> (case score of None \<Rightarrow> False | Some s \<Rightarrow> sv_judge_threshold sv > 0 \<and> s < sv_judge_threshold sv))"

definition finish :: "(string \<Rightarrow> json option) \<Rightarrow> service \<Rightarrow> run \<Rightarrow> time \<Rightarrow> string \<Rightarrow> string \<Rightarrow> string \<Rightarrow>
    int option \<Rightarrow> api_error option \<Rightarrow> time \<Rightarrow> db \<Rightarrow> db ws" where
  "finish parse sv r began status ev text score ae now d =
     res_bind (owned r d) (\<lambda>_.
     res_bind (get_run (run_id r) d) (\<lambda>current.
       let r1 = finished r current began status ev text score ae now;
           kind = (if status = ''succeeded'' then ''succeeded'' else ''failed'');
           publish = (\<lambda>r2 d2. Inr (saveRun r2 (replace_evidence (report_evidence r2 ev text now) (run_id r2) d2)))
       in res_bind (addEvent r1 ''report'' kind (run_duration_ms r1) None ae now d) (\<lambda>d1.
         if notifies sv status score
         then (let r2 = r1\<lparr>run_notification_status := ''pending''\<rparr> in
               res_bind (legacyReportTx parse sv r2 d1) (\<lambda>rep.
                 publish r2 (ignore_outbox (notification_outbox (run_id r2) rep now) d1)))
         else (let r2 = r1\<lparr>run_notification_status := ''disabled''\<rparr> in
               res_bind (addEvent r2 ''notification'' ''skipped'' None None None now d1) (publish r2)))))"

section \<open>Recovery\<close>

definition interrupted :: api_error where
  "interrupted = \<lparr> ae_code = ''interrupted'', ae_message = bytes [0xE4, 0xB8, 0x8A, 0xE6, 0xAC, 0xA1,
     0xE6, 0x89, 0xA7, 0xE8, 0xA1, 0x8C, 0xE5, 0x9B, 0xA0, 0xE8, 0xBF, 0x9B, 0xE7, 0xA8, 0x8B, 0xE9,
     0x80, 0x80, 0xE5, 0x87, 0xBA, 0xE4, 0xB8, 0xAD, 0xE6, 0x96, 0xAD], ae_retryable = True \<rparr>"

definition requeue_outbox :: "string \<Rightarrow> time \<Rightarrow> db \<Rightarrow> db" where
  "requeue_outbox i now d = d\<lparr>t_outbox := tupd ob_dedupe_key (diagnosis_key i)
     (\<lambda>x. x\<lparr>ob_state := ''pending'', ob_next_at := fmt_nano now\<rparr>) (t_outbox d)\<rparr>"

definition requeued :: "run \<Rightarrow> run" where
  "requeued r = r\<lparr>run_status := ''queued'', run_dispatch_state := ''pending'',
     run_current_attempt := run_current_attempt r + 1, run_revision := run_revision r + 1\<rparr>"

definition recover_one :: "time \<Rightarrow> run \<Rightarrow> db \<Rightarrow> db ws" where
  "recover_one now r d =
     res_bind (addEvent r ''queue'' ''failed'' None None (Some interrupted) now d) (\<lambda>d.
       Inr (requeue_outbox (run_id r) now (saveRun (requeued r) d)))"

definition Recover :: "time \<Rightarrow> db \<Rightarrow> db ws" where
  "Recover now d =
     fold_res (recover_one now)
       (map rr_data (filter (\<lambda>x. rr_status x = ''running'') (t_runs d))) d"

section \<open>The notification worker\<close>

text \<open>
  \<open>ProcessNotification\<close> is two transactions around the call of the webhook. Its outcome
  (\<open>sent\<close>), and the retry count and limit of the task (\<open>None\<close> outside the queue), are
  parameters.
\<close>

definition notify_start :: "service \<Rightarrow> string \<Rightarrow> time \<Rightarrow> db \<Rightarrow> db option ws" where
  "notify_start sv i now d =
     res_bind (get_run i d) (\<lambda>r.
       if run_notification_status r = ''sent'' then Inr None
       else ensure (sv_webhook_url sv \<noteq> []) ErrSkipRetry
         (res_bind (addEvent r ''notification'' ''started'' None None None now d) (\<lambda>d. Inr (Some d))))"

definition notification_failed :: "bool \<Rightarrow> api_error" where
  "notification_failed retry = \<lparr> ae_code = ''notification_failed'', ae_message = bytes [0xE9, 0x80,
     0x9A, 0xE7, 0x9F, 0xA5, 0xE6, 0x8A, 0x95, 0xE9, 0x80, 0x92, 0xE5, 0xA4, 0xB1, 0xE8, 0xB4, 0xA5],
     ae_retryable = retry \<rparr>"

definition kill_outbox :: "string \<Rightarrow> db \<Rightarrow> db" where
  "kill_outbox i d = d\<lparr>t_outbox := tupd ob_dedupe_key (notification_key i)
     (\<lambda>x. x\<lparr>ob_state := ''dead'', ob_last_error := Some ''notification_failed''\<rparr>) (t_outbox d)\<rparr>"

definition last_retry :: "(nat \<times> nat) option \<Rightarrow> bool" where
  "last_retry retries = (case retries of None \<Rightarrow> False | Some (count, limit) \<Rightarrow> limit \<le> count)"

definition notify_finish :: "string \<Rightarrow> bool \<Rightarrow> (nat \<times> nat) option \<Rightarrow> time \<Rightarrow> time \<Rightarrow> db \<Rightarrow> db ws" where
  "notify_finish i sent retries began now d =
     res_bind (get_run i d) (\<lambda>r.
       let ms = Some (ms_between began now) in
       if sent then
         (let r1 = r\<lparr>run_notification_status := ''sent''\<rparr> in
          res_bind (addEvent r1 ''notification'' ''succeeded'' ms None None now d) (\<lambda>d.
            Inr (saveRun (r1\<lparr>run_revision := run_revision r + 1\<rparr>) d)))
       else
         (let dead = last_retry retries;
              r1 = r\<lparr>run_notification_status := (if dead then ''failed'' else ''pending'')\<rparr>;
              d1 = (if dead then kill_outbox i d else d)
          in res_bind (addEvent r1 ''notification'' ''failed'' ms None (Some (notification_failed (\<not> dead))) now d1)
               (\<lambda>d. Inr (saveRun (r1\<lparr>run_revision := run_revision r + 1\<rparr>) d))))"

text \<open>The whole handler: \<open>post\<close> is the webhook, \<open>t1\<close> and \<open>t2\<close> the times of the two
  transactions. The result is the error the queue sees and the database.\<close>

definition ProcessNotification :: "service \<Rightarrow> string \<Rightarrow> ws_error option \<Rightarrow> (nat \<times> nat) option \<Rightarrow>
    time \<Rightarrow> time \<Rightarrow> db \<Rightarrow> ws_error option \<times> db" where
  "ProcessNotification sv i post retries t1 t2 d =
     (case notify_start sv i t1 d of
        Inl e \<Rightarrow> (Some e, d)
      | Inr None \<Rightarrow> (None, d)
      | Inr (Some d1) \<Rightarrow>
          (case notify_finish i (post = None) retries t1 t2 d1 of
             Inl e \<Rightarrow> (Some e, d1)
           | Inr d2 \<Rightarrow> (post, d2)))"

section \<open>Judging\<close>

definition judge_unavailable :: api_error where
  "judge_unavailable = \<lparr> ae_code = ''judge_unavailable'', ae_message = bytes [0xE8, 0xAF, 0x84, 0xE5,
     0x88, 0x86, 0xE6, 0x9C, 0x8D, 0xE5, 0x8A, 0xA1, 0xE4, 0xB8, 0x8D, 0xE5, 0x8F, 0xAF, 0xE7, 0x94,
     0xA8, 0xEF, 0xBC, 0x8C, 0xE6, 0x9C, 0xAA, 0xE8, 0xAF, 0x84, 0xE5, 0x88, 0x86], ae_retryable = True \<rparr>"

text \<open>\<open>score\<close> is the answer of the scoring service, \<open>None\<close> when it fails. The score is
  returned even when the last event is refused.\<close>

definition judge :: "service \<Rightarrow> run \<Rightarrow> int option \<Rightarrow> time \<Rightarrow> time \<Rightarrow> db \<Rightarrow> (int option \<times> ws_error option) \<times> db" where
  "judge sv r score t1 t2 d =
     (let ev = (\<lambda>result kind ms ae now d.
            case run_event r ''judge'' kind ms None ae now d of
              Inl e \<Rightarrow> ((result, Some e), d)
            | Inr d' \<Rightarrow> ((result, None), d'))
      in if sv_judge_key sv = [] \<or> sv_judge_model sv = []
         then ev None ''skipped'' None None t1 d
         else (case run_event r ''judge'' ''started'' None None None t1 d of
                 Inl e \<Rightarrow> ((None, Some e), d)
               | Inr d1 \<Rightarrow>
                   (let ms = Some (ms_between t1 t2) in
                    case score of
                      None \<Rightarrow> ev None ''failed'' ms (Some judge_unavailable) t2 d1
                    | Some s \<Rightarrow> ev (Some s) ''succeeded'' ms None t2 d1)))"

section \<open>The history of a run row\<close>

text \<open>What a finished run has published.\<close>

definition published :: "run \<Rightarrow> string option \<times> string \<times> string list \<times> int option \<times> api_error option \<times> string option" where
  "published r = (run_report_text r, run_evidence_status r, run_citation_ids r, run_judge_score r,
     run_error r, run_finished_at r)"

text \<open>
  One row before and after a transaction: identity, incidents and arrival time never change, attempt
  and revision never decrease, every change of the data raises the revision, and a finished run keeps
  its status, its attempt and all it has published.
\<close>

definition run_follows :: "run_row \<Rightarrow> run_row \<Rightarrow> bool" where
  "run_follows x y \<longleftrightarrow> rr_id y = rr_id x \<and> rr_business_key y = rr_business_key x
     \<and> rr_received_at y = rr_received_at x
     \<and> run_incident_ids (rr_data y) = run_incident_ids (rr_data x)
     \<and> run_received_at (rr_data y) = run_received_at (rr_data x)
     \<and> rr_attempt x \<le> rr_attempt y \<and> rr_revision x \<le> rr_revision y
     \<and> (rr_data y = rr_data x \<or> rr_revision x < rr_revision y)
     \<and> (terminal (rr_status x) \<longrightarrow> rr_status y = rr_status x \<and> rr_attempt y = rr_attempt x
          \<and> published (rr_data y) = published (rr_data x))"

definition runs_follow :: "db \<Rightarrow> db \<Rightarrow> bool" where
  "runs_follow d d' \<longleftrightarrow> (\<forall>x \<in> set (t_runs d). \<exists>y \<in> set (t_runs d'). run_follows x y)"

lemma run_follows_refl [simp]: "run_follows x x"
  by (simp add: run_follows_def)

lemma run_follows_trans: "run_follows x y \<Longrightarrow> run_follows y z \<Longrightarrow> run_follows x z"
  by (auto simp: run_follows_def)

lemma runs_follow_append: "t_runs d' = t_runs d @ xs \<Longrightarrow> runs_follow d d'"
  unfolding runs_follow_def by (metis UnI1 run_follows_refl set_append)

lemma runs_follow_same: "t_runs d' = t_runs d \<Longrightarrow> runs_follow d d'"
  using runs_follow_append [of d' d "[]"] by simp

lemma runs_follow_refl [simp]: "runs_follow d d"
  by (rule runs_follow_same) simp

lemma runs_follow_trans: "runs_follow d d1 \<Longrightarrow> runs_follow d1 d2 \<Longrightarrow> runs_follow d d2"
  unfolding runs_follow_def by (meson run_follows_trans)

text \<open>The same for the data that \<open>saveRun\<close> writes.\<close>

definition run_succeeds :: "run \<Rightarrow> run \<Rightarrow> bool" where
  "run_succeeds r0 r \<longleftrightarrow> run_id r = run_id r0 \<and> run_incident_ids r = run_incident_ids r0
     \<and> run_received_at r = run_received_at r0 \<and> run_current_attempt r0 \<le> run_current_attempt r
     \<and> run_revision r0 < run_revision r
     \<and> (terminal (run_status r0) \<longrightarrow> run_status r = run_status r0
          \<and> run_current_attempt r = run_current_attempt r0 \<and> published r = published r0)"

definition queue_entry :: "run \<Rightarrow> db \<Rightarrow> bool" where
  "queue_entry r d \<longleftrightarrow> (\<not> terminal (run_status r) \<longrightarrow>
     list_ex (\<lambda>ob. diagnosis_row (run_id r) ob
       \<and> (run_status r = ''queued'' \<longrightarrow> ob_state ob = dispatch_state r)) (t_outbox d))"

lemma row_unique:
  assumes "runs_ok d" and "get_run i d = Inr r0" and "x \<in> set (t_runs d)" and "rr_id x = i"
  shows "rr_data x = r0 \<and> row_agrees x"
proof -
  have "tget rr_id (rr_id x) (t_runs d) = Some x"
    using assms(1,3) by (intro lt.get_unique) (simp_all add: runs_ok_def)
  with assms show ?thesis using runs_okD(2) [OF assms(1,3)] by (auto simp: get_run_Inr)
qed

lemma queue_entry_get:
  assumes "core_ok d" and "get_run i d = Inr r"
  shows "queue_entry r d"
proof -
  from assms(2) obtain x where x: "x \<in> set (t_runs d)" "rr_id x = i" "rr_data x = r"
    by (auto simp: get_run_Inr dest: tget_SomeD)
  have "row_agrees x" using assms(1) x runs_okD(2) by (auto simp: core_ok_def)
  with x assms(1) show ?thesis
    by (auto simp: core_ok_def queue_ok_def list_all_iff queue_entry_def row_agrees_def)
qed

text \<open>Everything but the link between queued runs and their outbox rows.\<close>

definition base_ok :: "db \<Rightarrow> bool" where
  "base_ok d \<longleftrightarrow> runs_ok d \<and> events_ok d \<and> incidents_ok d \<and> links_ok d \<and> evidence_ok d \<and> outbox_ok d"

lemma core_ok_base: "core_ok d \<longleftrightarrow> base_ok d \<and> queue_ok d"
  by (auto simp: core_ok_def base_ok_def)

definition store_run :: "run \<Rightarrow> run_row \<Rightarrow> run_row" where
  "store_run r x = (if rr_id x = run_id r
     then x\<lparr>rr_status := run_status r, rr_attempt := run_current_attempt r,
            rr_revision := run_revision r, rr_data := r\<rparr> else x)"

lemma saveRun_rows: "set (t_runs (saveRun r d)) = store_run r ` set (t_runs d)"
  by (simp add: saveRun_def lt.upd_rows store_run_def [abs_def])

lemma saveRun_base:
  assumes ok: "base_ok d" and get: "get_run i d = Inr r0" and succ: "run_succeeds r0 r"
  shows "base_ok (saveRun r d) \<and> runs_follow d (saveRun r d)"
proof
  have runs: "runs_ok d" using ok by (simp add: base_ok_def)
  have i: "run_id r = i" using get_run_id [OF runs get] succ by (simp add: run_succeeds_def)
  have follow: "run_follows x (store_run r x)" if "x \<in> set (t_runs d)" for x
    using row_unique [OF runs get that] succ i
    by (auto simp: store_run_def run_follows_def run_succeeds_def row_agrees_def)
  then show "runs_follow d (saveRun r d)"
    unfolding runs_follow_def saveRun_rows by blast
  have l: "run_links j (saveRun r d) = run_links j d" for j by (simp add: run_links_def)
  have h: "has_incident j (saveRun r d) = has_incident j d" for j by (simp add: has_incident_def)
  have "list_all (\<lambda>x. run_incident_ids (rr_data x) = run_links (rr_id x) (saveRun r d)) (t_runs (saveRun r d))"
    using ok follow unfolding list_all_iff saveRun_rows l
    by (auto simp: base_ok_def links_ok_def list_all_iff run_follows_def)
  then have "links_ok (saveRun r d)"
    using ok by (simp add: base_ok_def links_ok_def h)
  moreover have "events_ok (saveRun r d) = events_ok d" by (rule events_ok_cong) simp_all
  moreover have "incidents_ok (saveRun r d)" "evidence_ok (saveRun r d)" "outbox_ok (saveRun r d)"
    using ok by (auto simp: base_ok_def incidents_ok_def evidence_ok_def outbox_ok_def
        cong: option.case_cong payload.case_cong)
  ultimately show "base_ok (saveRun r d)"
    using ok runs_ok_saveRun [OF runs] by (simp add: base_ok_def)
qed

lemma saveRun_effect:
  assumes ok: "core_ok d" and get: "get_run i d = Inr r0" and succ: "run_succeeds r0 r"
    and q: "queue_entry r d"
  shows "core_ok (saveRun r d) \<and> runs_follow d (saveRun r d)"
proof -
  have base: "base_ok d" using ok by (simp add: core_ok_base)
  have "queue_ok (saveRun r d)"
    using ok q unfolding queue_ok_def list_all_iff saveRun_rows
    by (auto simp: core_ok_def queue_ok_def list_all_iff queue_entry_def store_run_def)
  with saveRun_base [OF base get succ] show ?thesis by (simp add: core_ok_base)
qed

lemma addEvent_effect:
  assumes "addEvent r stage kind ms ref ae now d = Inr d'" and "core_ok d"
  shows "core_ok d' \<and> runs_follow d d'"
proof -
  note same = addEvent_same [OF assms(1)]
  have "incidents_ok d'" "outbox_ok d'"
    using assms(2) incidents_ok_cong [of d' d] outbox_ok_cong [of d' d] by (simp_all add: core_ok_def same)
  moreover have "links_ok d'" "evidence_ok d'" "queue_ok d'" "runs_ok d'"
    using assms(2) by (simp_all add: core_ok_def links_ok_def evidence_ok_def queue_ok_def runs_ok_def same
        run_links_def has_run_def has_incident_def)
  ultimately show ?thesis
    using assms events_ok_addEvent runs_follow_same [of d' d] by (auto simp: core_ok_def same)
qed

lemma core_ok_delete_citations [simp]: "core_ok (delete_citations i d) = core_ok d"
  by (simp add: delete_citations_def core_ok_def runs_ok_def events_ok_def incidents_ok_def links_ok_def
      evidence_ok_def outbox_ok_def queue_ok_def has_run_def has_incident_def run_links_def
      cong: option.case_cong payload.case_cong)

lemma set_lease_rows:
  "set (t_runs (set_lease i l d)) = (\<lambda>x. if rr_id x = i then x\<lparr>rr_lease_until := Some l\<rparr> else x) ` set (t_runs d)"
  by (simp add: set_lease_def lt.upd_rows)

lemma set_lease_keys: "map rr_id (t_runs (set_lease i l d)) = map rr_id (t_runs d)"
  "map rr_business_key (t_runs (set_lease i l d)) = map rr_business_key (t_runs d)"
  by (simp_all add: set_lease_def map_tupd_other)

lemma set_lease_effect:
  assumes "core_ok d"
  shows "core_ok (set_lease i l d) \<and> runs_follow d (set_lease i l d)"
proof
  have h: "has_run j (set_lease i l d) = has_run j d" for j
    using set_lease_keys(1) by (simp add: has_run_def tget_None_iff flip: set_map)
  have e: "events_ok (set_lease i l d) = events_ok d"
    by (rule events_ok_cong) (simp_all add: set_lease_keys, simp add: set_lease_def)
  have other: "t_incidents (set_lease i l d) = t_incidents d" "t_outbox (set_lease i l d) = t_outbox d"
    "t_evidence (set_lease i l d) = t_evidence d" "t_run_incidents (set_lease i l d) = t_run_incidents d"
    by (simp_all add: set_lease_def)
  have "links_ok (set_lease i l d)" "queue_ok (set_lease i l d)" "runs_ok (set_lease i l d)"
    using assms
    by (auto simp: core_ok_def links_ok_def queue_ok_def runs_ok_def list_all_iff set_lease_rows other h
        run_links_def has_incident_def row_agrees_def tok_def set_lease_keys)
  moreover have "incidents_ok (set_lease i l d)" "evidence_ok (set_lease i l d)" "outbox_ok (set_lease i l d)"
    using assms by (auto simp: core_ok_def incidents_ok_def evidence_ok_def outbox_ok_def other h
        cong: option.case_cong payload.case_cong)
  ultimately show "core_ok (set_lease i l d)" using assms e by (simp add: core_ok_def)
  show "runs_follow d (set_lease i l d)"
    unfolding runs_follow_def
  proof
    fix x assume x: "x \<in> set (t_runs d)"
    let ?y = "if rr_id x = i then x\<lparr>rr_lease_until := Some l\<rparr> else x"
    have "?y \<in> set (t_runs (set_lease i l d))" using x unfolding set_lease_rows by blast
    then show "\<exists>y \<in> set (t_runs (set_lease i l d)). run_follows x y"
      by (rule rev_bexI) (simp add: run_follows_def)
  qed
qed

section \<open>Effects of the transactions\<close>

lemma get_run_cong: "t_runs d' = t_runs d \<Longrightarrow> get_run i d' = get_run i d"
  by (simp add: get_run_def)

lemma delete_citations_runs [simp]:
  "t_runs (delete_citations i d) = t_runs d" "t_outbox (delete_citations i d) = t_outbox d"
  "get_run j (delete_citations i d) = get_run j d" "queue_entry r (delete_citations i d) = queue_entry r d"
  by (simp_all add: delete_citations_def get_run_def queue_entry_def)

lemma claim_cases:
  assumes "claim i now d = Inr ((r, ok), d')"
  obtains (over) "get_run i d = Inr r" and "terminal (run_status r)" and "\<not> ok" and "d' = d"
  | (taken) r0 d1 d2 where "get_run i d = Inr r0" and "\<not> terminal (run_status r0)" and ok
      and "run_status r0 = ''running'' \<longrightarrow> \<not> lease_held i now d" and "r = claimed r0 now"
      and "d1 = set_lease i (fmt_nano (now + lease_time)) (saveRun r (delete_citations (run_id r0) d))"
      and "addEvent r ''queue'' ''started'' None None None now d1 = Inr d2"
      and "addEvent r ''queue'' ''succeeded'' (Some (wait_ms r now)) None None now d2 = Inr d'"
proof -
  from assms obtain r0 where r0: "get_run i d = Inr r0" by (auto simp: claim_def res_bind_eq_Inr)
  show ?thesis
  proof (cases "terminal (run_status r0)")
    case True
    with assms r0 have "r = r0 \<and> \<not> ok \<and> d' = d" by (auto simp: claim_def)
    with r0 True show ?thesis using that(1) by blast
  next
    case False
    let ?r = "claimed r0 now"
    let ?d1 = "set_lease i (fmt_nano (now + lease_time)) (saveRun ?r (delete_citations (run_id r0) d))"
    from False assms r0 have free: "\<not> (run_status r0 = ''running'' \<and> lease_held i now d)"
      and rest: "res_bind (addEvent ?r ''queue'' ''started'' None None None now ?d1) (\<lambda>d2.
             res_bind (addEvent ?r ''queue'' ''succeeded'' (Some (wait_ms ?r now)) None None now d2) (\<lambda>d3.
               Inr ((?r, True), d3))) = Inr ((r, ok), d')"
      by (simp_all add: claim_def Let_def)
    from rest obtain d2 where "addEvent ?r ''queue'' ''started'' None None None now ?d1 = Inr d2"
      "addEvent ?r ''queue'' ''succeeded'' (Some (wait_ms ?r now)) None None now d2 = Inr d'" "r = ?r" ok
      by (elim res_bind_InrE) simp
    with free show ?thesis using that(2) [OF r0 False, of ?d1 d2] by blast
  qed
qed

lemma claimed_succeeds: "\<not> terminal (run_status r0) \<Longrightarrow> run_succeeds r0 (claimed r0 now)"
  by (simp add: run_succeeds_def claimed_def)

lemma queue_entry_running:
  assumes "core_ok d" and "get_run i d = Inr r0" and "\<not> terminal (run_status r0)"
    and "run_id r = run_id r0" and "run_status r \<noteq> ''queued''"
  shows "queue_entry r d"
  using queue_entry_get [OF assms(1,2)] assms(3-) by (auto simp: queue_entry_def list_ex_iff)

lemma claim_effect:
  assumes "claim i now d = Inr ((r, ok), d')" and "core_ok d"
  shows "core_ok d' \<and> runs_follow d d'"
  using assms(1)
proof (cases rule: claim_cases)
  case (taken r0 d1 d2)
  let ?d0 = "delete_citations (run_id r0) d"
  have "queue_entry r ?d0"
    using queue_entry_running [OF assms(2) taken(1,2), of r] by (simp add: taken(5) claimed_def)
  then have 1: "core_ok (saveRun r ?d0) \<and> runs_follow ?d0 (saveRun r ?d0)"
    using assms(2) taken(1,2) claimed_succeeds unfolding taken(5)
    by (intro saveRun_effect [of _ i r0]) simp_all
  then have 2: "core_ok d1 \<and> runs_follow (saveRun r ?d0) d1"
    unfolding taken(6) by (intro set_lease_effect) simp
  then have 3: "core_ok d2 \<and> runs_follow d1 d2" using addEvent_effect [OF taken(7)] by simp
  then have 4: "core_ok d' \<and> runs_follow d2 d'" using addEvent_effect [OF taken(8)] by simp
  have "runs_follow d ?d0" by (rule runs_follow_same) simp
  with 1 2 3 4 show ?thesis by (meson runs_follow_trans)
qed (use assms(2) in simp)

text \<open>The row of a claimed run.\<close>

lemma claim_row:
  assumes "claim i now d = Inr ((r, True), d')" and "runs_ok d"
  obtains x r0 where "tget rr_id i (t_runs d') = Some x" and "rr_data x = r" and "rr_status x = ''running''"
    and "rr_attempt x = run_current_attempt r" and "rr_lease_until x = Some (fmt_nano (now + lease_time))"
    and "get_run i d = Inr r0" and "r = claimed r0 now" and "run_id r = i"
    and "t_citations d' = filter (\<lambda>c. cr_run c \<noteq> i) (t_citations d)"
  using assms(1)
proof (cases rule: claim_cases)
  case (taken r0 d1 d2)
  have i: "run_id r0 = i" using get_run_id [OF assms(2) taken(1)] .
  then have ri: "run_id r = i" by (simp add: taken(5) claimed_def)
  have ok1: "tok rr_id (t_runs (saveRun r (delete_citations (run_id r0) d)))"
    using runs_ok_saveRun [of "delete_citations (run_id r0) d" r] assms(2) runs_ok_cong [of "delete_citations (run_id r0) d" d]
    by (simp add: runs_ok_def)
  have runs: "t_runs d' = t_runs d1" using addEvent_same(3) [OF taken(7)] addEvent_same(3) [OF taken(8)] by simp
  from taken(1) obtain x0 where x0: "tget rr_id i (t_runs d) = Some x0" by (auto simp: get_run_Inr)
  have "tok rr_id (t_runs (delete_citations (run_id r0) d))" using assms(2) by (simp add: runs_ok_def)
  then have "tget rr_id i (t_runs d1) = Some (x0\<lparr>rr_status := run_status r, rr_attempt := run_current_attempt r,
      rr_revision := run_revision r, rr_data := r, rr_lease_until := Some (fmt_nano (now + lease_time))\<rparr>)"
    using ok1 x0 ri by (simp add: taken(6) set_lease_def lt.get_upd tget_saveRun)
  moreover have "t_citations d' = filter (\<lambda>c. cr_run c \<noteq> i) (t_citations d)"
    using addEvent_same(10) [OF taken(7)] addEvent_same(10) [OF taken(8)] i
    by (simp add: taken(6) set_lease_def delete_citations_def)
  ultimately show ?thesis
    using taken(1,5) ri that by (simp add: runs claimed_def)
qed simp

lemma owned_Inr:
  "owned r d = Inr u \<longleftrightarrow> (\<exists>x. tget rr_id (run_id r) (t_runs d) = Some x
     \<and> rr_attempt x = run_current_attempt r \<and> rr_status x = ''running'')"
  by (auto simp: owned_def split: option.splits)

lemma run_event_effect:
  assumes "run_event r stage kind ms ref ae now d = Inr d'" and "core_ok d"
  shows "core_ok d' \<and> runs_follow d d'"
  using assms by (auto simp: run_event_def res_bind_eq_Inr dest: addEvent_effect)

lemma ignore_outbox_other [simp]:
  "t_runs (ignore_outbox r d) = t_runs d" "t_events (ignore_outbox r d) = t_events d"
  "t_evidence (ignore_outbox r d) = t_evidence d" "t_citations (ignore_outbox r d) = t_citations d"
  "t_incidents (ignore_outbox r d) = t_incidents d" "t_run_incidents (ignore_outbox r d) = t_run_incidents d"
  "t_retrievals (ignore_outbox r d) = t_retrievals d" "t_chunks (ignore_outbox r d) = t_chunks d"
  "t_documents (ignore_outbox r d) = t_documents d" "t_versions (ignore_outbox r d) = t_versions d"
  "t_hits (ignore_outbox r d) = t_hits d" "t_observations (ignore_outbox r d) = t_observations d"
  "t_idempotency (ignore_outbox r d) = t_idempotency d"
  by (simp_all add: ignore_outbox_def)

lemma core_ok_ignore_outbox:
  assumes "core_ok d" and "ob_dedupe_key r = ob_id r" and "ob_kind r \<noteq> ''diagnosis''"
  shows "core_ok (ignore_outbox r d)"
proof -
  have "queue_ok (ignore_outbox r d)"
    using assms(1) by (auto simp: core_ok_def queue_ok_def ignore_outbox_def tign_def list_all_iff list_ex_iff)
  moreover have "outbox_ok (ignore_outbox r d)"
    using assms by (auto simp: core_ok_def outbox_ok_def ignore_outbox_def tign_def tok_def list_all_iff has_run_def
        split: payload.splits)
  moreover have "incidents_ok (ignore_outbox r d) = incidents_ok d" by (rule incidents_ok_cong) simp_all
  moreover have "events_ok (ignore_outbox r d) = events_ok d" by (rule events_ok_cong) simp_all
  ultimately show ?thesis
    using assms(1) by (simp add: core_ok_def runs_ok_def links_ok_def evidence_ok_def has_run_def
        has_incident_def run_links_def)
qed

lemma replace_evidence_other [simp]:
  "t_runs (replace_evidence e i d) = t_runs d" "t_events (replace_evidence e i d) = t_events d"
  "t_outbox (replace_evidence e i d) = t_outbox d" "t_citations (replace_evidence e i d) = t_citations d"
  "t_incidents (replace_evidence e i d) = t_incidents d"
  "t_run_incidents (replace_evidence e i d) = t_run_incidents d"
  "t_retrievals (replace_evidence e i d) = t_retrievals d" "t_chunks (replace_evidence e i d) = t_chunks d"
  "t_documents (replace_evidence e i d) = t_documents d" "t_versions (replace_evidence e i d) = t_versions d"
  "t_hits (replace_evidence e i d) = t_hits d" "t_observations (replace_evidence e i d) = t_observations d"
  "t_idempotency (replace_evidence e i d) = t_idempotency d"
  by (simp_all add: replace_evidence_def)

lemma core_ok_replace_evidence:
  assumes "core_ok d" and "has_run i d"
  shows "core_ok (replace_evidence e i d)"
proof -
  have "evidence_ok (replace_evidence e i d)"
    using assms
    by (auto simp: core_ok_def evidence_ok_def replace_evidence_def list_all_iff has_run_def tok_trep)
       (auto simp: trep_def)
  moreover have "incidents_ok (replace_evidence e i d) = incidents_ok d" by (rule incidents_ok_cong) simp_all
  moreover have "events_ok (replace_evidence e i d) = events_ok d" by (rule events_ok_cong) simp_all
  moreover have "outbox_ok (replace_evidence e i d) = outbox_ok d" by (rule outbox_ok_cong) simp_all
  ultimately show ?thesis
    using assms(1) by (simp add: core_ok_def runs_ok_def links_ok_def queue_ok_def has_run_def
        has_incident_def run_links_def)
qed

text \<open>The worker's copy and the row are about the same run.\<close>

definition same_run :: "run \<Rightarrow> run \<Rightarrow> bool" where
  "same_run r0 r \<longleftrightarrow> run_id r = run_id r0 \<and> run_incident_ids r = run_incident_ids r0
     \<and> run_received_at r = run_received_at r0"

lemma finish_cases:
  assumes "finish parse sv r began status ev text score ae now d = Inr d'"
  obtains current r2 d1 d2 where "owned r d = Inr ()" and "get_run (run_id r) d = Inr current"
    and "addEvent (finished r current began status ev text score ae now) ''report''
           (if status = ''succeeded'' then ''succeeded'' else ''failed'')
           (Some (ms_between began now)) None ae now d = Inr d1"
    and "r2 = (finished r current began status ev text score ae now)
           \<lparr>run_notification_status := if notifies sv status score then ''pending'' else ''disabled''\<rparr>"
    and "if notifies sv status score
         then \<exists>rep. legacyReportTx parse sv r2 d1 = Inr rep
              \<and> d2 = ignore_outbox (notification_outbox (run_id r) rep now) d1
         else addEvent r2 ''notification'' ''skipped'' None None None now d1 = Inr d2"
    and "d' = saveRun r2 (replace_evidence (report_evidence r2 ev text now) (run_id r) d2)"
proof -
  from assms obtain current where o: "owned r d = Inr ()" and c: "get_run (run_id r) d = Inr current"
    by (auto simp: finish_def res_bind_eq_Inr)
  define r1 where "r1 = finished r current began status ev text score ae now"
  have ms: "run_duration_ms r1 = Some (ms_between began now)" and i: "run_id r1 = run_id r"
    by (simp_all add: r1_def finished_def)
  define r2 where "r2 = r1\<lparr>run_notification_status := if notifies sv status score then ''pending'' else ''disabled''\<rparr>"
  have i2: "run_id r2 = run_id r" by (simp add: r2_def i)
  from assms o c obtain d1 where
    1: "addEvent r1 ''report'' (if status = ''succeeded'' then ''succeeded'' else ''failed'')
           (Some (ms_between began now)) None ae now d = Inr d1"
    by (auto simp: finish_def res_bind_eq_Inr ms simp flip: r1_def)
  show ?thesis
  proof (cases "notifies sv status score")
    case True
    with assms o c 1 obtain rep where rep: "legacyReportTx parse sv r2 d1 = Inr rep"
      "d' = saveRun r2 (replace_evidence (report_evidence r2 ev text now) (run_id r)
              (ignore_outbox (notification_outbox (run_id r) rep now) d1))"
      by (auto simp: finish_def res_bind_eq_Inr ms i r2_def Let_def simp flip: r1_def)
    with True show ?thesis
      using that [OF o c 1 [unfolded r1_def], of r2 "ignore_outbox (notification_outbox (run_id r) rep now) d1"]
      by (auto simp: r2_def r1_def)
  next
    case False
    with assms o c 1 obtain d2 where
      "addEvent r2 ''notification'' ''skipped'' None None None now d1 = Inr d2"
      "d' = saveRun r2 (replace_evidence (report_evidence r2 ev text now) (run_id r) d2)"
      by (auto simp: finish_def res_bind_eq_Inr ms i r2_def Let_def simp flip: r1_def)
    with False show ?thesis
      using that [OF o c 1 [unfolded r1_def], of r2 d2] by (simp add: r2_def r1_def)
  qed
qed

lemma finish_effect:
  assumes "finish parse sv r began status ev text score ae now d = Inr d'" and "core_ok d"
    and "terminal status" and "\<And>current. get_run (run_id r) d = Inr current \<Longrightarrow> same_run current r"
  shows "core_ok d' \<and> runs_follow d d'"
  using assms(1)
proof (cases rule: finish_cases)
  case (1 current r2 d1 d2)
  have runs: "runs_ok d" using assms(2) by (simp add: core_ok_def)
  have e1: "core_ok d1 \<and> t_runs d1 = t_runs d"
    using addEvent_effect [OF 1(3) assms(2)] addEvent_same(3) [OF 1(3)] by simp
  have e2: "core_ok d2 \<and> t_runs d2 = t_runs d"
  proof (cases "notifies sv status score")
    case True
    with 1(5) e1 show ?thesis
      by (auto intro!: core_ok_ignore_outbox simp: notification_outbox_def)
  next
    case False
    with 1(5) e1 show ?thesis
      using addEvent_effect [of r2 _ _ _ _ _ now d1 d2] addEvent_same(3) [of r2 _ _ _ _ _ now d1 d2] by auto
  qed
  let ?d3 = "replace_evidence (report_evidence r2 ev text now) (run_id r) d2"
  have has: "has_run (run_id r) d2" using get_run_has [OF 1(2)] e2 by (simp add: has_run_def)
  have e3: "core_ok ?d3" "t_runs ?d3 = t_runs d"
    using e2 core_ok_replace_evidence [OF _ has] by simp_all
  obtain x where x: "tget rr_id (run_id r) (t_runs d) = Some x" "rr_attempt x = run_current_attempt r"
    "rr_status x = ''running''" using 1(1) by (auto simp: owned_Inr)
  then have "rr_data x = current" "row_agrees x" using 1(2) runs runs_okD(2) [OF runs] tget_SomeD [OF x(1)]
    by (auto simp: get_run_Inr)
  then have "run_succeeds current r2"
    using assms(4) [OF 1(2)] x(2,3)
    by (simp add: run_succeeds_def same_run_def 1(4) finished_def row_agrees_def terminal_def)
  moreover have "queue_entry r2 ?d3" using assms(3) by (simp add: queue_entry_def 1(4) finished_def)
  ultimately have "core_ok d' \<and> runs_follow ?d3 d'"
    unfolding 1(6) using e3 1(2) get_run_cong [of ?d3 d "run_id r"]
    by (intro saveRun_effect [of _ "run_id r" current]) simp_all
  moreover have "runs_follow d ?d3" using e3(2) by (rule runs_follow_same)
  ultimately show ?thesis using runs_follow_trans by blast
qed

lemma notify_start_effect:
  assumes "notify_start sv i now d = Inr (Some d')" and "core_ok d"
  shows "core_ok d' \<and> runs_follow d d'"
  using assms
  by (auto simp: notify_start_def res_bind_eq_Inr split: if_splits dest: addEvent_effect)

lemma kill_outbox_other [simp]:
  "t_runs (kill_outbox i d) = t_runs d" "t_incidents (kill_outbox i d) = t_incidents d"
  "t_events (kill_outbox i d) = t_events d" "t_citations (kill_outbox i d) = t_citations d"
  "t_evidence (kill_outbox i d) = t_evidence d" "t_run_incidents (kill_outbox i d) = t_run_incidents d"
  "t_retrievals (kill_outbox i d) = t_retrievals d" "t_chunks (kill_outbox i d) = t_chunks d"
  "t_documents (kill_outbox i d) = t_documents d" "t_versions (kill_outbox i d) = t_versions d"
  "t_hits (kill_outbox i d) = t_hits d" "t_observations (kill_outbox i d) = t_observations d"
  "t_idempotency (kill_outbox i d) = t_idempotency d"
  by (simp_all add: kill_outbox_def)

lemma notification_not_diagnosis [simp]: "notification_key i \<noteq> diagnosis_key j"
  by (simp add: notification_key_def diagnosis_key_def)

text \<open>Rewriting outbox rows in place: the keys, kinds and payloads stay, and no diagnosis row that a
  queued run relies on changes its state.\<close>

lemma base_ok_outbox_upd:
  assumes ok: "base_ok d"
    and f: "\<And>x. ob_id (f x) = ob_id x \<and> ob_dedupe_key (f x) = ob_dedupe_key x \<and> ob_kind (f x) = ob_kind x
              \<and> ob_payload (f x) = ob_payload x"
  shows "base_ok (d\<lparr>t_outbox := tupd key k f (t_outbox d)\<rparr>)"
proof -
  let ?d = "d\<lparr>t_outbox := tupd key k f (t_outbox d)\<rparr>"
  have keys: "map ob_id (t_outbox ?d) = map ob_id (t_outbox d)"
    "map ob_dedupe_key (t_outbox ?d) = map ob_dedupe_key (t_outbox d)"
    using f by (simp_all add: map_tupd_other)
  have rows: "set (t_outbox ?d) = (\<lambda>x. if key x = k then f x else x) ` set (t_outbox d)"
    by (simp add: lt.upd_rows)
  have "outbox_ok ?d"
    using ok f unfolding outbox_ok_def list_all_iff rows tok_def keys
    by (auto simp: base_ok_def outbox_ok_def list_all_iff tok_def has_run_def cong: payload.case_cong)
  then show ?thesis
    using ok by (simp add: base_ok_def runs_ok_def events_ok_def incidents_ok_def links_ok_def
        evidence_ok_def has_run_def has_incident_def run_links_def cong: option.case_cong)
qed

lemma core_ok_outbox_upd:
  assumes ok: "core_ok d"
    and f: "\<And>x. ob_id (f x) = ob_id x \<and> ob_dedupe_key (f x) = ob_dedupe_key x \<and> ob_kind (f x) = ob_kind x
              \<and> ob_payload (f x) = ob_payload x"
    and st: "\<And>x y. y \<in> set (t_runs d) \<Longrightarrow> rr_status y = ''queued'' \<Longrightarrow> diagnosis_row (rr_id y) x
              \<Longrightarrow> x \<in> set (t_outbox d) \<Longrightarrow> key x = k \<Longrightarrow> ob_state (f x) = ob_state x"
  shows "core_ok (d\<lparr>t_outbox := tupd key k f (t_outbox d)\<rparr>)"
proof -
  let ?d = "d\<lparr>t_outbox := tupd key k f (t_outbox d)\<rparr>"
  have rows: "set (t_outbox ?d) = (\<lambda>x. if key x = k then f x else x) ` set (t_outbox d)"
    by (simp add: lt.upd_rows)
  have "queue_ok ?d"
    unfolding queue_ok_def list_all_iff list_ex_iff
  proof (intro ballI impI)
    fix y assume y: "y \<in> set (t_runs ?d)" and nt: "\<not> terminal (rr_status y)"
    then obtain x where x: "x \<in> set (t_outbox d)" "diagnosis_row (rr_id y) x"
      "rr_status y = ''queued'' \<longrightarrow> ob_state x = dispatch_state (rr_data y)"
      using ok by (auto simp: core_ok_def queue_ok_def list_all_iff list_ex_iff)
    let ?x = "if key x = k then f x else x"
    have "?x \<in> set (t_outbox ?d)" using x(1) unfolding rows by blast
    moreover have "diagnosis_row (rr_id y) ?x" using x(2) f by (simp add: diagnosis_row_def)
    moreover have "rr_status y = ''queued'' \<longrightarrow> ob_state ?x = dispatch_state (rr_data y)"
      using x y st [of y x] by auto
    ultimately show "\<exists>ob \<in> set (t_outbox ?d). diagnosis_row (rr_id y) ob
        \<and> (rr_status y = ''queued'' \<longrightarrow> ob_state ob = dispatch_state (rr_data y))" by blast
  qed
  moreover have "base_ok ?d" using ok f by (intro base_ok_outbox_upd) (simp_all add: core_ok_base)
  ultimately show ?thesis by (simp add: core_ok_base)
qed

lemma core_ok_kill_outbox: "core_ok d \<Longrightarrow> core_ok (kill_outbox i d)"
  unfolding kill_outbox_def
  by (rule core_ok_outbox_upd)
     (auto simp: diagnosis_row_def notification_not_diagnosis [THEN not_sym])

lemma notify_finish_effect:
  assumes "notify_finish i sent retries began now d = Inr d'" and "core_ok d"
  shows "core_ok d' \<and> runs_follow d d'"
proof -
  from assms(1) obtain r where r: "get_run i d = Inr r" by (auto simp: notify_finish_def res_bind_eq_Inr)
  define d1 where "d1 = (if \<not> sent \<and> last_retry retries then kill_outbox i d else d)"
  obtain st kind ae d2 where
    2: "addEvent (r\<lparr>run_notification_status := st\<rparr>) ''notification'' kind (Some (ms_between began now)) None ae now d1 = Inr d2"
    and d': "d' = saveRun (r\<lparr>run_notification_status := st, run_revision := run_revision r + 1\<rparr>) d2"
    using assms(1) r by (cases sent; cases "last_retry retries")
      (auto simp: notify_finish_def res_bind_eq_Inr d1_def Let_def)
  have 1: "core_ok d1" "t_runs d1 = t_runs d"
    using assms(2) core_ok_kill_outbox by (auto simp: d1_def)
  have e2: "core_ok d2" "t_runs d2 = t_runs d"
    using addEvent_effect [OF 2 1(1)] addEvent_same(3) [OF 2] 1(2) by simp_all
  let ?r = "r\<lparr>run_notification_status := st, run_revision := run_revision r + 1\<rparr>"
  have get: "get_run i d2 = Inr r" using r e2(2) get_run_cong by metis
  have "queue_entry ?r d2" using queue_entry_get [OF e2(1) get] by (simp add: queue_entry_def dispatch_state_def)
  moreover have "run_succeeds r ?r" by (simp add: run_succeeds_def published_def)
  ultimately have "core_ok d' \<and> runs_follow d2 d'"
    unfolding d' using saveRun_effect [OF e2(1) get] by blast
  with e2(2) show ?thesis using runs_follow_same runs_follow_trans by metis
qed

section \<open>Recovery\<close>

lemma requeue_outbox_other [simp]:
  "t_runs (requeue_outbox i now d) = t_runs d" "t_events (requeue_outbox i now d) = t_events d"
  "get_run j (requeue_outbox i now d) = get_run j d"
  "t_evidence (requeue_outbox i now d) = t_evidence d" "t_citations (requeue_outbox i now d) = t_citations d"
  "t_incidents (requeue_outbox i now d) = t_incidents d"
  by (simp_all add: requeue_outbox_def get_run_def)

lemma requeue_commute: "requeue_outbox i now (saveRun r d) = saveRun r (requeue_outbox i now d)"
  by (simp add: requeue_outbox_def saveRun_def)

lemma core_ok_requeue_outbox:
  assumes "core_ok d" and "get_run i d = Inr r" and "run_status r = ''running''"
  shows "core_ok (requeue_outbox i now d)"
  unfolding requeue_outbox_def
proof (rule core_ok_outbox_upd [OF assms(1)])
  fix x y
  assume y: "y \<in> set (t_runs d)" "rr_status y = ''queued''" "diagnosis_row (rr_id y) x"
    "ob_dedupe_key x = diagnosis_key i"
  then have "rr_id y = i" by (auto simp: diagnosis_row_def)
  moreover have "runs_ok d" using assms(1) by (simp add: core_ok_def)
  ultimately have "rr_data y = r \<and> row_agrees y" using y(1) assms(2) row_unique by blast
  with assms(3) y(2) show "ob_state (x\<lparr>ob_state := ''pending'', ob_next_at := fmt_nano now\<rparr>) = ob_state x"
    by (auto simp: row_agrees_def)
qed simp

lemma recover_one_effect:
  assumes "recover_one now r d = Inr d'" and "core_ok d" and get: "get_run i d = Inr r"
    and run: "run_status r = ''running''"
  shows "core_ok d' \<and> runs_follow d d' \<and> t_runs d' = t_runs (saveRun (requeued r) d)"
proof -
  from assms(1) obtain d1 where
    1: "addEvent r ''queue'' ''failed'' None None (Some interrupted) now d = Inr d1"
    and d': "d' = saveRun (requeued r) (requeue_outbox (run_id r) now d1)"
    by (auto simp: recover_one_def res_bind_eq_Inr requeue_commute)
  have e1: "core_ok d1" "t_runs d1 = t_runs d"
    using addEvent_effect [OF 1 assms(2)] addEvent_same(3) [OF 1] by simp_all
  have i: "run_id r = i" using get assms(2) get_run_id by (auto simp: core_ok_def)
  have g1: "get_run i d1 = Inr r" using get e1(2) get_run_cong by metis
  have e2: "core_ok (requeue_outbox i now d1)" using core_ok_requeue_outbox [OF e1(1) g1 run] .
  have "\<exists>ob \<in> set (t_outbox d1). diagnosis_row i ob"
    using queue_entry_get [OF e1(1) g1] run i by (auto simp: queue_entry_def list_ex_iff terminal_def)
  then obtain ob where ob: "ob \<in> set (t_outbox d1)" "diagnosis_row i ob" by blast
  let ?ob = "ob\<lparr>ob_state := ''pending'', ob_next_at := fmt_nano now\<rparr>"
  have "?ob \<in> set (t_outbox (requeue_outbox i now d1))"
    using ob by (auto simp: requeue_outbox_def lt.upd_rows diagnosis_row_def)
  moreover have "diagnosis_row i ?ob" using ob(2) by (simp add: diagnosis_row_def)
  ultimately have "queue_entry (requeued r) (requeue_outbox i now d1)"
    using i unfolding queue_entry_def list_ex_iff
    by (intro impI bexI [of _ ?ob]) (simp_all add: requeued_def dispatch_state_def)
  moreover have "run_succeeds r (requeued r)" using run by (simp add: run_succeeds_def requeued_def terminal_def)
  ultimately have "core_ok d' \<and> runs_follow (requeue_outbox i now d1) d'"
    unfolding d' i using saveRun_effect [OF e2, of i r] g1 by simp
  moreover have "runs_follow d (requeue_outbox i now d1)" by (rule runs_follow_same) (simp add: e1(2))
  ultimately show ?thesis
    using runs_follow_trans e1(2) by (auto simp: d' saveRun_def)
qed

definition requeue_row :: "run_row \<Rightarrow> run_row" where
  "requeue_row x = x\<lparr>rr_status := ''queued'', rr_attempt := run_current_attempt (rr_data x) + 1,
     rr_revision := run_revision (rr_data x) + 1, rr_data := requeued (rr_data x)\<rparr>"

lemma recover_fold:
  assumes "fold_res (recover_one now) rs d = Inr d'" and "core_ok d" and "distinct (map run_id rs)"
    and "\<forall>r \<in> set rs. get_run (run_id r) d = Inr r \<and> run_status r = ''running''"
  shows "core_ok d' \<and> runs_follow d d'
    \<and> t_runs d' = map (\<lambda>x. if rr_id x \<in> run_id ` set rs then requeue_row x else x) (t_runs d)"
  using assms
proof (induction rs arbitrary: d)
  case (Cons r rs)
  then obtain d1 where 1: "recover_one now r d = Inr d1" and 2: "fold_res (recover_one now) rs d1 = Inr d'"
    by (auto simp: res_bind_eq_Inr)
  have get: "get_run (run_id r) d = Inr r" "run_status r = ''running''" using Cons.prems(4) by simp_all
  note e1 = recover_one_effect [OF 1 Cons.prems(2) get]
  have runs: "runs_ok d" using Cons.prems(2) by (simp add: core_ok_def)
  have t1: "t_runs d1 = map (\<lambda>x. if rr_id x = run_id r then requeue_row x else x) (t_runs d)"
    using e1 row_unique [OF runs get(1)]
    by (auto simp: saveRun_def tupd_def requeue_row_def requeued_def)
  have "get_run (run_id s) d1 = Inr s" if "s \<in> set rs" for s
  proof -
    have "run_id s \<in> run_id ` set rs" using that by simp
    then have "run_id s \<noteq> run_id r" using Cons.prems(3) by auto
    then have "get_run (run_id s) (saveRun (requeued r) d) = get_run (run_id s) d"
      using get_run_saveRun [OF runs, of "run_id s" "requeued r"] by (simp add: requeued_def)
    with Cons.prems(4) that e1 get_run_cong [of d1 "saveRun (requeued r) d"] show ?thesis by simp
  qed
  with Cons.IH [OF 2] Cons.prems e1 have e2: "core_ok d' \<and> runs_follow d1 d'
    \<and> t_runs d' = map (\<lambda>x. if rr_id x \<in> run_id ` set rs then requeue_row x else x) (t_runs d1)"
    by simp
  have "run_id r \<notin> run_id ` set rs" using Cons.prems(3) by simp
  then have "t_runs d' = map (\<lambda>x. if rr_id x \<in> run_id ` set (r # rs) then requeue_row x else x) (t_runs d)"
    using e2 by (auto simp: t1 requeue_row_def)
  with e1 e2 show ?case by (auto intro: runs_follow_trans)
qed simp

lemma Recover_effect:
  assumes "Recover now d = Inr d'" and "core_ok d"
  shows "core_ok d' \<and> runs_follow d d'
    \<and> t_runs d' = map (\<lambda>x. if rr_status x = ''running'' then requeue_row x else x) (t_runs d)"
proof -
  let ?rs = "map rr_data (filter (\<lambda>x. rr_status x = ''running'') (t_runs d))"
  have runs: "runs_ok d" using assms(2) by (simp add: core_ok_def)
  have agree: "row_agrees x" if "x \<in> set (t_runs d)" for x using runs_okD(2) [OF runs that] .
  have ids: "map run_id ?rs = map rr_id (filter (\<lambda>x. rr_status x = ''running'') (t_runs d))"
    using agree by (auto simp: row_agrees_def)
  have dist: "distinct (map run_id ?rs)"
    unfolding ids using runs by (simp add: runs_ok_def tok_def distinct_map_filter)
  have all: "\<forall>r \<in> set ?rs. get_run (run_id r) d = Inr r \<and> run_status r = ''running''"
  proof
    fix r assume "r \<in> set ?rs"
    then obtain x where x: "x \<in> set (t_runs d)" "rr_status x = ''running''" "r = rr_data x" by auto
    then have "tget rr_id (rr_id x) (t_runs d) = Some x"
      using runs by (intro lt.get_unique) (simp_all add: runs_ok_def)
    with x agree [OF x(1)] show "get_run (run_id r) d = Inr r \<and> run_status r = ''running''"
      by (auto simp: get_run_Inr row_agrees_def)
  qed
  have "rr_id x \<in> run_id ` set ?rs \<longleftrightarrow> rr_status x = ''running''" if x: "x \<in> set (t_runs d)" for x
  proof
    assume "rr_id x \<in> run_id ` set ?rs"
    then obtain y where y: "y \<in> set (t_runs d)" "rr_status y = ''running''" "rr_id x = rr_id y"
      using agree by (auto simp: row_agrees_def)
    then have "x = y" using x runs by (auto simp: runs_ok_def tok_def distinct_map inj_on_def)
    with y show "rr_status x = ''running''" by simp
  next
    assume "rr_status x = ''running''"
    with x agree [OF x] show "rr_id x \<in> run_id ` set ?rs" by (force simp: row_agrees_def)
  qed
  then have "map (\<lambda>x. if rr_id x \<in> run_id ` set ?rs then requeue_row x else x) (t_runs d)
      = map (\<lambda>x. if rr_status x = ''running'' then requeue_row x else x) (t_runs d)" by auto
  with recover_fold [OF assms(1) [unfolded Recover_def] assms(2) dist all] show ?thesis by simp
qed

lemma queue_ok_pending:
  assumes "queue_ok d" and "y \<in> set (t_runs d)" and "rr_status y = ''queued''"
    and "run_dispatch_state (rr_data y) = ''pending''"
  shows "\<exists>ob \<in> set (t_outbox d). diagnosis_row (rr_id y) ob \<and> ob_state ob = ''pending''"
  using bspec [OF assms(1) [unfolded queue_ok_def list_all_iff list_ex_iff] assms(2)] assms(3,4)
  by (auto simp: terminal_def dispatch_state_def)

section \<open>Properties of a run's life\<close>

text \<open>Recovery after a crash. When \<open>Recover\<close> commits, no run is running, so every worker of the
  dead process is fenced; exactly the rows that were running changed, each to queued with the next attempt
  and the next revision; and each of them has its diagnosis row pending in the outbox again.\<close>

theorem Recover_requeues:
  assumes "core_ok d" and "Recover now d = Inr d'"
  shows "t_runs d' = map (\<lambda>x. if rr_status x = ''running'' then requeue_row x else x) (t_runs d)
    \<and> (\<forall>w. owned w d' \<noteq> Inr ())
    \<and> (\<forall>x \<in> set (t_runs d). rr_status x = ''running'' \<longrightarrow>
         (\<exists>ob \<in> set (t_outbox d'). diagnosis_row (rr_id x) ob \<and> ob_state ob = ''pending''))"
proof (intro conjI allI ballI impI)
  note e = Recover_effect [OF assms(2,1)]
  show t: "t_runs d' = map (\<lambda>x. if rr_status x = ''running'' then requeue_row x else x) (t_runs d)"
    using e by simp
  show "owned w d' \<noteq> Inr ()" for w
    by (auto simp: owned_Inr t requeue_row_def dest!: tget_SomeD split: if_splits)
  fix x assume x: "x \<in> set (t_runs d)" "rr_status x = ''running''"
  then have "requeue_row x \<in> set (t_runs d')" by (force simp: t)
  with e show "\<exists>ob \<in> set (t_outbox d'). diagnosis_row (rr_id x) ob \<and> ob_state ob = ''pending''"
    using queue_ok_pending [of d' "requeue_row x"]
    by (simp add: core_ok_def requeue_row_def requeued_def)
qed

definition ex_run :: "string \<Rightarrow> run" where
  "ex_run status = (queued_run ''b'' [] 0)\<lparr>run_id := ''r'', run_status := status\<rparr>"

definition ex_running :: db where
  "ex_running = empty_db\<lparr>
     t_runs := [\<lparr> rr_id = ''r'', rr_business_key = ''b'', rr_status = ''running'',
       rr_received_at = run_received_at (ex_run ''running''), rr_attempt = 0, rr_lease_until = None,
       rr_revision = 1, rr_data = ex_run ''running'' \<rparr>],
     t_outbox := [(diagnosis_outbox ''r'' [] 0)\<lparr>ob_state := ''sent''\<rparr>]\<rparr>"

lemma core_ok_ex_running: "core_ok ex_running"
  by (simp add: ex_running_def core_ok_def empty_db_def runs_ok_def events_ok_def incidents_ok_def
      links_ok_def evidence_ok_def outbox_ok_def queue_ok_def tok_def row_agrees_def ex_run_def
      diagnosis_outbox_def diagnosis_row_def has_run_def tget_def run_links_def)

lemma Recover_ex_running: "\<exists>d'. Recover 9 ex_running = Inr d'"
  by (simp add: ex_running_def empty_db_def Recover_def recover_one_def addEvent_def ensure_def has_run_def
      tget_def ex_run_def run_seqs_def tins_def Let_def)

theorem Recover_requeues_witness:
  "\<exists>d'. Recover 9 ex_running = Inr d' \<and> (\<forall>w. owned w d' \<noteq> Inr ())
     \<and> (\<exists>ob \<in> set (t_outbox d'). diagnosis_row ''r'' ob \<and> ob_state ob = ''pending'')"
proof -
  obtain d' where d': "Recover 9 ex_running = Inr d'" using Recover_ex_running by blast
  note r = Recover_requeues [OF core_ok_ex_running d']
  have "\<exists>ob \<in> set (t_outbox d'). diagnosis_row ''r'' ob \<and> ob_state ob = ''pending''"
    using r by (simp add: ex_running_def)
  with r d' show ?thesis by blast
qed

text \<open>C18. Claiming fences every other worker. A successful claim gives the next attempt number of the
  row; afterwards the claimer owns the run, every copy of the run with another attempt number is refused
  as fenced, the citations of earlier attempts are gone, and until the lease has passed nobody else can
  claim the run.\<close>

theorem claim_exclusive:
  assumes "runs_ok d"
  shows "case claim i now d of
      Inr ((r, True), d') \<Rightarrow> run_id r = i \<and> owned r d' = Inr ()
        \<and> (\<exists>r0. get_run i d = Inr r0 \<and> \<not> terminal (run_status r0)
              \<and> run_current_attempt r = run_current_attempt r0 + 1)
        \<and> (\<forall>w. run_id w = i \<longrightarrow> run_current_attempt w \<noteq> run_current_attempt r \<longrightarrow> owned w d' = Inl ErrFenced)
        \<and> list_all (\<lambda>c. cr_run c \<noteq> i) (t_citations d')
        \<and> (\<forall>now'. fmt_nano now' < fmt_nano (now + lease_time) \<longrightarrow>
              claim i now' d' = Inl (ErrMsg ''run already leased''))
    | _ \<Rightarrow> True"
proof (cases "claim i now d")
  case (Inr y)
  obtain r ok d' where y: "y = ((r, ok), d')" by (metis surj_pair)
  show ?thesis
  proof (cases ok)
    case True
    with Inr y have c: "claim i now d = Inr ((r, True), d')" by simp
    from c assms obtain x r0 where x: "tget rr_id i (t_runs d') = Some x" "rr_data x = r"
      "rr_status x = ''running''" "rr_attempt x = run_current_attempt r"
      "rr_lease_until x = Some (fmt_nano (now + lease_time))"
      and r0: "get_run i d = Inr r0" "r = claimed r0 now" "run_id r = i"
      and cites: "t_citations d' = filter (\<lambda>c. cr_run c \<noteq> i) (t_citations d)"
      by (rule claim_row)
    from c have nt: "\<not> terminal (run_status r0)" using r0(1) by (cases rule: claim_cases) auto
    have run: "run_status r = ''running''" by (simp add: r0(2) claimed_def)
    have "claim i now' d' = Inl (ErrMsg ''run already leased'')"
      if "fmt_nano now' < fmt_nano (now + lease_time)" for now'
      using x run that by (simp add: claim_def get_run_def ensure_def lease_held_def terminal_def)
    then show ?thesis
      using x r0 nt cites by (auto simp: c owned_def list_all_iff claimed_def)
  qed (simp add: Inr y)
qed simp

theorem claim_exclusive_witness:
  "runs_ok ex_running \<and> (case claim ''r'' 5 ex_running of
      Inr ((r, True), d') \<Rightarrow> owned r d' = Inr () \<and> owned (ex_run ''running'') d' = Inl ErrFenced
    | _ \<Rightarrow> True)"
proof -
  have ok: "runs_ok ex_running" using core_ok_ex_running by (simp add: core_ok_def)
  have get: "get_run ''r'' ex_running = Inr (ex_run ''running'')"
    by (simp add: ex_running_def get_run_def tget_def)
  have "run_id (ex_run ''running'') = ''r''" by (simp add: ex_run_def)
  with claim_exclusive [OF ok, of "''r''" 5] ok get show ?thesis
    by (auto split: sum.splits prod.splits bool.splits)
qed

text \<open>A worker that lost its run changes nothing: once the attempt number of the row has moved on, or
  the run is no longer running, an event and the final report are refused as fenced, and nothing of the
  transaction is kept.\<close>

theorem fenced_worker:
  assumes "tget rr_id (run_id w) (t_runs d) = Some x"
    and "rr_attempt x \<noteq> run_current_attempt w \<or> rr_status x \<noteq> ''running''"
  shows "run_event w stage kind ms ref ae now d = Inl ErrFenced
    \<and> finish parse sv w began status ev text score ae now d = Inl ErrFenced"
  using assms by (simp add: run_event_def finish_def owned_def)

theorem fenced_worker_witness:
  "finish (\<lambda>_. None) \<lparr> sv_space_id = [], sv_webhook_url = [], sv_judge_threshold = 0,
       sv_judge_key = [], sv_judge_model = [] \<rparr> ((ex_run ''running'')\<lparr>run_current_attempt := 7\<rparr>)
     0 ''succeeded'' ''no_evidence'' ''text'' None None 5 ex_running = Inl ErrFenced"
  using fenced_worker [of "(ex_run ''running'')\<lparr>run_current_attempt := 7\<rparr>" ex_running
      "hd (t_runs ex_running)"]
  by (simp add: ex_running_def ex_run_def tget_def)

lemma tget_tign_present: "tget key (key r) (tign key r t) \<noteq> None"
  by (auto simp: tget_None_iff tign_def)

lemma ignore_outbox_present:
  "\<exists>ob \<in> set (t_outbox (ignore_outbox r d)). ob_dedupe_key ob = ob_dedupe_key r \<or> ob_id ob = ob_id r"
  by (auto simp: ignore_outbox_def tign_def)

text \<open>C19. The final report is published in one transaction. When \<open>finish\<close> commits, the row holds the
  given status, evidence status, text and score, the citations the row had, and the next revision; the
  report is stored as evidence of the run; and a notification is in the outbox with the run marked pending
  exactly when a webhook is configured and the run failed or scored below the threshold, otherwise the run
  is marked disabled and no outbox row changes.\<close>

theorem finish_publishes:
  assumes "core_ok d" and "finish parse sv r began status ev text score ae now d = Inr d'"
  shows "\<exists>current r'. get_run (run_id r) d = Inr current \<and> get_run (run_id r) d' = Inr r'
    \<and> run_status r' = status \<and> run_evidence_status r' = ev \<and> run_report_text r' = Some text
    \<and> run_judge_score r' = score \<and> run_error r' = ae
    \<and> run_citation_ids r' = run_citation_ids current \<and> run_revision r' = run_revision current + 1
    \<and> get_evidence (report_id (run_id r)) d' = Inr (report_evidence r' ev text now)
    \<and> (if notifies sv status score
       then run_notification_status r' = ''pending''
         \<and> (\<exists>ob \<in> set (t_outbox d'). ob_id ob = notification_key (run_id r))
       else run_notification_status r' = ''disabled'' \<and> t_outbox d' = t_outbox d)"
  using assms(2)
proof (cases rule: finish_cases)
  case (1 current r2 d1 d2)
  let ?d3 = "replace_evidence (report_evidence r2 ev text now) (run_id r) d2"
  have i: "run_id r2 = run_id r" by (simp add: 1(4) finished_def)
  have t2: "t_runs d2 = t_runs d" and ob1: "t_outbox d1 = t_outbox d"
    using 1(5) addEvent_same(3,12) [OF 1(3)] by (auto split: if_splits dest: addEvent_same(3))
  have runs3: "runs_ok ?d3" using assms(1) runs_ok_cong [of ?d3 d] t2 by (simp add: core_ok_def)
  have "has_run (run_id r) ?d3" using get_run_has [OF 1(2)] t2 by (simp add: has_run_def)
  then have get': "get_run (run_id r) d' = Inr r2"
    unfolding 1(6) using get_run_saveRun [OF runs3, of "run_id r" r2] i by simp
  have evi: "get_evidence (report_id (run_id r)) d' = Inr (report_evidence r2 ev text now)"
    by (simp add: 1(6) get_evidence_def replace_evidence_def tget_trep report_evidence_def i)
  have "t_outbox d2 = (if notifies sv status score then t_outbox d2 else t_outbox d)"
    using 1(5) ob1 by (auto split: if_splits dest: addEvent_same(12))
  moreover have "\<exists>ob \<in> set (t_outbox d2). ob_id ob = notification_key (run_id r)" if n: "notifies sv status score"
  proof -
    have "core_ok d1" using addEvent_effect [OF 1(3) assms(1)] by simp
    then have "ob_dedupe_key ob = ob_id ob" if "ob \<in> set (t_outbox d1)" for ob
      using that by (auto simp: core_ok_def outbox_ok_def list_all_iff)
    with 1(5) n show ?thesis
      by (fastforce simp: ignore_outbox_def tign_def notification_outbox_def)
  qed
  ultimately show ?thesis
    using 1(2) get' evi by (auto simp: 1(4,6) finished_def)
qed

definition ex_service :: service where
  "ex_service = \<lparr> sv_space_id = ''s'', sv_webhook_url = ''http://hook'', sv_judge_threshold = 3,
     sv_judge_key = [], sv_judge_model = [] \<rparr>"

lemma finish_ex_running:
  "\<exists>d'. finish (\<lambda>_. None) ex_service (ex_run ''running'') 0 ''failed'' ''source_unavailable'' ''text''
     None None 5 ex_running = Inr d'"
  by (simp add: ex_running_def empty_db_def finish_def owned_def get_run_def addEvent_def ensure_def has_run_def
      tget_def ex_run_def run_seqs_def tins_def Let_def finished_def notifies_def ex_service_def
      legacyReportTx_def run_alerts_def cited_evidence_def List.map_filter_def archived_report_def queued_run_def)

theorem finish_publishes_witness:
  "\<exists>d' r'. finish (\<lambda>_. None) ex_service (ex_run ''running'') 0 ''failed'' ''source_unavailable'' ''text''
       None None 5 ex_running = Inr d'
     \<and> get_run ''r'' d' = Inr r' \<and> run_status r' = ''failed'' \<and> run_revision r' = 2
     \<and> run_notification_status r' = ''pending''
     \<and> (\<exists>ob \<in> set (t_outbox d'). ob_id ob = notification_key ''r'')"
proof -
  obtain d' where d': "finish (\<lambda>_. None) ex_service (ex_run ''running'') 0 ''failed'' ''source_unavailable''
     ''text'' None None 5 ex_running = Inr d'" using finish_ex_running by blast
  have n: "notifies ex_service ''failed'' None" by (simp add: notifies_def ex_service_def)
  have i: "run_id (ex_run ''running'') = ''r''" "run_revision (ex_run ''running'') = 1"
    by (simp_all add: ex_run_def)
  have get: "get_run ''r'' ex_running = Inr (ex_run ''running'')"
    by (simp add: ex_running_def get_run_def tget_def)
  show ?thesis
    using finish_publishes [OF core_ok_ex_running d'] d' n get i by auto
qed

definition ex_enqueued :: db where
  "ex_enqueued = saveRun ((ex_run ''running'')\<lparr>run_dispatch_state := ''enqueued'', run_revision := 2\<rparr>) ex_running"

text \<open>The dispatch state of the published run is the one the worker read when it claimed the run.
  A dispatch that was recorded in between is lost: the outbox row is sent, the row said enqueued, and the
  published run says pending again.\<close>

theorem finish_reverts_dispatch:
  "\<exists>d' r0 r'. get_run ''r'' ex_enqueued = Inr r0 \<and> run_dispatch_state r0 = ''enqueued''
     \<and> map ob_state (t_outbox ex_enqueued) = [''sent'']
     \<and> finish (\<lambda>_. None) ex_service (ex_run ''running'') 0 ''failed'' ''source_unavailable'' ''text''
         None None 5 ex_enqueued = Inr d'
     \<and> get_run ''r'' d' = Inr r' \<and> run_dispatch_state r' = ''pending''"
  by (simp add: ex_enqueued_def saveRun_def tupd_def ex_running_def empty_db_def finish_def owned_def get_run_def
      addEvent_def ensure_def has_run_def tget_def ex_run_def run_seqs_def tins_def Let_def finished_def
      notifies_def ex_service_def legacyReportTx_def run_alerts_def cited_evidence_def List.map_filter_def
      archived_report_def queued_run_def diagnosis_outbox_def replace_evidence_def ignore_outbox_def
      report_evidence_def)

text \<open>The outcome of a delivery is recorded once and for all. After the second transaction of the
  notification worker the run is marked sent when the webhook accepted, failed when it refused on the last
  retry (and then the outbox row is dead), and pending when it refused earlier; the revision goes up by
  one; and a run marked sent is never delivered again.\<close>

theorem notify_finish_outcome:
  assumes "core_ok d" and "notify_finish i sent retries began now d = Inr d'"
  shows "\<exists>r r'. get_run i d = Inr r \<and> get_run i d' = Inr r'
    \<and> run_notification_status r' =
        (if sent then ''sent'' else if last_retry retries then ''failed'' else ''pending'')
    \<and> run_revision r' = run_revision r + 1
    \<and> (\<not> sent \<and> last_retry retries \<longrightarrow>
         (\<forall>ob \<in> set (t_outbox d'). ob_dedupe_key ob = notification_key i \<longrightarrow> ob_state ob = ''dead''))
    \<and> (sent \<longrightarrow> (\<forall>sv now'. notify_start sv i now' d' = Inr None))"
proof -
  from assms(2) obtain r where r: "get_run i d = Inr r" by (auto simp: notify_finish_def res_bind_eq_Inr)
  define st where "st = (if sent then ''sent'' else if last_retry retries then ''failed'' else ''pending'')"
  define d1 where "d1 = (if \<not> sent \<and> last_retry retries then kill_outbox i d else d)"
  let ?r' = "r\<lparr>run_notification_status := st, run_revision := run_revision r + 1\<rparr>"
  obtain kind ae d2 where
    2: "addEvent (r\<lparr>run_notification_status := st\<rparr>) ''notification'' kind (Some (ms_between began now)) None ae now d1 = Inr d2"
    and d': "d' = saveRun ?r' d2"
    using assms(2) r by (cases sent; cases "last_retry retries")
      (auto simp: notify_finish_def res_bind_eq_Inr d1_def st_def Let_def)
  have runs: "t_runs d2 = t_runs d" using addEvent_same(3) [OF 2] by (simp add: d1_def)
  have runs_ok: "runs_ok d2" using assms(1) runs_ok_cong [OF runs] by (simp add: core_ok_def)
  have id: "run_id r = i" using r assms(1) get_run_id by (auto simp: core_ok_def)
  have "has_run i d2" using get_run_has [OF r] runs by (simp add: has_run_def)
  then have get: "get_run i d' = Inr ?r'" using get_run_saveRun [OF runs_ok, of i ?r'] id by (simp add: d')
  have ob: "t_outbox d' = t_outbox d1" using addEvent_same(12) [OF 2] by (simp add: d')
  have "ob_state ob = ''dead''" if "\<not> sent \<and> last_retry retries" "ob \<in> set (t_outbox d')"
    "ob_dedupe_key ob = notification_key i" for ob
    using that by (auto simp: ob d1_def kill_outbox_def lt.upd_rows)
  moreover have "notify_start sv i now' d' = Inr None" if sent for sv now'
    using that get by (simp add: notify_start_def st_def)
  ultimately show ?thesis using r get by (auto simp: st_def)
qed

lemma notify_ex_running: "\<exists>d'. notify_finish ''r'' False (Some (3, 3)) 0 5 ex_running = Inr d'"
  by (simp add: ex_running_def empty_db_def notify_finish_def get_run_def addEvent_def ensure_def has_run_def
      tget_def ex_run_def run_seqs_def tins_def Let_def last_retry_def kill_outbox_def)

theorem notify_finish_outcome_witness:
  "\<exists>d' r'. notify_finish ''r'' False (Some (3, 3)) 0 5 ex_running = Inr d'
     \<and> get_run ''r'' d' = Inr r' \<and> run_notification_status r' = ''failed''"
proof -
  obtain d' where d': "notify_finish ''r'' False (Some (3, 3)) 0 5 ex_running = Inr d'"
    using notify_ex_running by blast
  show ?thesis using notify_finish_outcome [OF core_ok_ex_running d'] d' by (auto simp: last_retry_def)
qed

end
