(* ===== verification/Md5.thy ===== *)
theory Md5
  imports Sha256
begin

unbundle bit_operations_syntax

text \<open>
  MD5 (RFC 1321) with lower-case hexadecimal output, as \<open>fmt.Sprintf("%x", md5.Sum(...))\<close>: the chunk
  identifiers of \<open>src/internal/rag\<close>.
\<close>

definition rotl :: "nat \<Rightarrow> u32 \<Rightarrow> u32" where
  "rotl n x = push_bit n x OR drop_bit (32 - n) x"

definition md5_k :: "u32 list" where
  "md5_k = [
    0xd76aa478, 0xe8c7b756, 0x242070db, 0xc1bdceee, 0xf57c0faf, 0x4787c62a, 0xa8304613, 0xfd469501,
    0x698098d8, 0x8b44f7af, 0xffff5bb1, 0x895cd7be, 0x6b901122, 0xfd987193, 0xa679438e, 0x49b40821,
    0xf61e2562, 0xc040b340, 0x265e5a51, 0xe9b6c7aa, 0xd62f105d, 0x02441453, 0xd8a1e681, 0xe7d3fbc8,
    0x21e1cde6, 0xc33707d6, 0xf4d50d87, 0x455a14ed, 0xa9e3e905, 0xfcefa3f8, 0x676f02d9, 0x8d2a4c8a,
    0xfffa3942, 0x8771f681, 0x6d9d6122, 0xfde5380c, 0xa4beea44, 0x4bdecfa9, 0xf6bb4b60, 0xbebfbc70,
    0x289b7ec6, 0xeaa127fa, 0xd4ef3085, 0x04881d05, 0xd9d4d039, 0xe6db99e5, 0x1fa27cf8, 0xc4ac5665,
    0xf4292244, 0x432aff97, 0xab9423a7, 0xfc93a039, 0x655b59c3, 0x8f0ccc92, 0xffeff47d, 0x85845dd1,
    0x6fa87e4f, 0xfe2ce6e0, 0xa3014314, 0x4e0811a1, 0xf7537e82, 0xbd3af235, 0x2ad7d2bb, 0xeb86d391]"

definition md5_s :: "nat list" where
  "md5_s = concat (map (\<lambda>r. concat (replicate 4 r))
     [[7, 12, 17, 22], [5, 9, 14, 20], [4, 11, 16, 23], [6, 10, 15, 21]])"

definition md5_f :: "nat \<Rightarrow> u32 \<Rightarrow> u32 \<Rightarrow> u32 \<Rightarrow> u32" where
  "md5_f i b c d =
     (if i < 16 then (b AND c) OR (NOT b AND d)
      else if i < 32 then (d AND b) OR (NOT d AND c)
      else if i < 48 then b XOR c XOR d
      else c XOR (b OR NOT d))"

definition md5_g :: "nat \<Rightarrow> nat" where
  "md5_g i = (if i < 16 then i else if i < 32 then (5 * i + 1) mod 16
     else if i < 48 then (3 * i + 5) mod 16 else (7 * i) mod 16)"

definition md5_round :: "u32 list \<Rightarrow> u32 \<times> u32 \<times> u32 \<times> u32 \<Rightarrow> nat \<times> u32 \<times> nat \<Rightarrow> u32 \<times> u32 \<times> u32 \<times> u32" where
  "md5_round m st ik =
     (case st of (a, b, c, d) \<Rightarrow> case ik of (i, k, s) \<Rightarrow>
        (d, b + rotl s (a + md5_f i b c d + k + m ! md5_g i), b, c))"

definition md5_block :: "u32 \<times> u32 \<times> u32 \<times> u32 \<Rightarrow> u32 list \<Rightarrow> u32 \<times> u32 \<times> u32 \<times> u32" where
  "md5_block st m =
     (case st of (a, b, c, d) \<Rightarrow>
      case foldl (md5_round m) st (zip [0..<64] (zip md5_k md5_s)) of (a', b', c', d') \<Rightarrow>
        (a + a', b + b', c + c', d + d'))"

definition le32 :: "nat list \<Rightarrow> u32" where
  "le32 bs = be32 (rev bs)"

definition md5_pad :: "nat list \<Rightarrow> nat list" where
  "md5_pad m = m @ [128] @ replicate ((119 - length m mod 64) mod 64) 0 @ rev (be_bytes 8 (8 * length m))"

definition le_hex :: "u32 \<Rightarrow> string" where
  "le_hex w = concat (map (\<lambda>i. [hex_digit (unat (take_bit 4 (drop_bit (8 * i + 4) w))),
                               hex_digit (unat (take_bit 4 (drop_bit (8 * i) w)))]) [0..<4])"

definition md5_hex :: "string \<Rightarrow> string" where
  "md5_hex s =
     (case foldl md5_block (0x67452301, 0xefcdab89, 0x98badcfe, 0x10325476)
             (group 16 (map le32 (group 4 (md5_pad (map of_char s))))) of
        (a, b, c, d) \<Rightarrow> concat (map le_hex [a, b, c, d]))"

lemma length_md5_hex [simp]: "length (md5_hex s) = 32"
  by (simp add: md5_hex_def le_hex_def length_concat comp_def sum_list_triv split: prod.splits)

end
