(* ===== verification/Bm25.thy ===== *)
theory Bm25
  imports Complex_Main GoJson Md5
begin

text \<open>
  The sparse side of the retrieval (\<open>src/internal/rag/bm25.go\<close>): the tokenizer, the in-memory BM25
  index with its document frequencies, the filtered search, and reciprocal rank fusion.

  Go's \<open>range\<close> over a string decodes UTF-8. \<open>float64\<close> is \<open>real\<close>. The index is a Go map,
  whose iteration order is arbitrary, and \<open>sort.Slice\<close> leaves the order of equal scores open: the
  model keeps the entries as a list and every iteration follows that list, so a statement that holds for
  every list holds for every order.
\<close>

section \<open>Runes\<close>

definition byte_at :: "nat \<Rightarrow> string \<Rightarrow> int" where
  "byte_at i s = of_char (s ! i)"

text \<open>The code point of the valid sequence of \<open>n\<close> bytes at the head.\<close>

definition code_point :: "nat \<Rightarrow> string \<Rightarrow> int" where
  "code_point n s =
     (if n = 2 then (byte_at 0 s - 0xC0) * 64 + (byte_at 1 s - 0x80)
      else if n = 3 then ((byte_at 0 s - 0xE0) * 64 + (byte_at 1 s - 0x80)) * 64 + (byte_at 2 s - 0x80)
      else (((byte_at 0 s - 0xF0) * 64 + (byte_at 1 s - 0x80)) * 64 + (byte_at 2 s - 0x80)) * 64
           + (byte_at 3 s - 0x80))"

text \<open>The runes of a string with the bytes they came from; an invalid byte is U+FFFD.\<close>

function runes :: "string \<Rightarrow> (int \<times> string) list" where
  "runes [] = []"
| "runes (c # s) =
     (if (of_char c :: int) < 128 then (of_char c, [c]) # runes s
      else let n = utf8_len (c # s) in
        if n = 0 then (0xFFFD, bytes [0xEF, 0xBF, 0xBD]) # runes s
        else (code_point n (c # s), take n (c # s)) # runes (drop n (c # s)))"
  by pat_completeness auto
termination
  by (relation "measure length") auto

section \<open>Tokens\<close>

definition ascii_alnum :: "int \<Rightarrow> bool" where
  "ascii_alnum r \<longleftrightarrow> (48 \<le> r \<and> r \<le> 57) \<or> (65 \<le> r \<and> r \<le> 90) \<or> (97 \<le> r \<and> r \<le> 122)"

text \<open>The ranges of \<open>unicode.Han\<close> (Unicode 15).\<close>

definition han_ranges :: "(int \<times> int) list" where
  "han_ranges = [(0x2E80, 0x2E99), (0x2E9B, 0x2EF3), (0x2F00, 0x2FD5), (0x3005, 0x3005),
     (0x3007, 0x3007), (0x3021, 0x3029), (0x3038, 0x303B), (0x3400, 0x4DBF), (0x4E00, 0x9FFF),
     (0xF900, 0xFA6D), (0xFA70, 0xFAD9), (0x16FE2, 0x16FE3), (0x16FF0, 0x16FF1),
     (0x20000, 0x2A6DF), (0x2A700, 0x2B739), (0x2B740, 0x2B81D), (0x2B820, 0x2CEA1),
     (0x2CEB0, 0x2EBE0), (0x2F800, 0x2FA1D), (0x30000, 0x3134A), (0x31350, 0x323AF)]"

definition is_han :: "int \<Rightarrow> bool" where
  "is_han r \<longleftrightarrow> list_ex (\<lambda>(lo, hi). lo \<le> r \<and> r \<le> hi) han_ranges"

definition flush_latin :: "string \<Rightarrow> string list" where
  "flush_latin latin = (if latin = [] then [] else [latin])"

text \<open>Consecutive pairs of Han characters.\<close>

fun flush_han :: "string list \<Rightarrow> string list" where
  "flush_han (a # b # hs) = (a @ b) # flush_han (b # hs)"
| "flush_han _ = []"

fun tok_loop :: "(int \<times> string) list \<Rightarrow> string \<Rightarrow> string list \<Rightarrow> string list" where
  "tok_loop [] latin han = flush_latin latin @ flush_han han"
| "tok_loop ((r, bs) # rs) latin han =
     (if r < 128 \<and> ascii_alnum r then flush_han han @ tok_loop rs (latin @ bs) []
      else if is_han r then flush_latin latin @ tok_loop rs [] (han @ [bs])
      else flush_latin latin @ flush_han han @ tok_loop rs [] [])"

definition tokenize :: "string \<Rightarrow> string list" where
  "tokenize s = tok_loop (runes (to_lower s)) [] []"

section \<open>The index\<close>

text \<open>\<open>tf\<close> of a token list: one entry per distinct token.\<close>

definition term_freq :: "string list \<Rightarrow> (string \<times> nat) list" where
  "term_freq toks = map (\<lambda>t. (t, count_list toks t)) (remdups toks)"

record bm25_doc =
  bd_doc :: string
  bd_title :: string
  bd_snippet :: string
  bd_source :: string
  bd_tf :: "(string \<times> nat) list"
  bd_length :: nat

text \<open>A missing key of the Go map \<open>df\<close> reads as zero and deleting a key makes it missing, so the map is
  a function.\<close>

record bm25_index =
  bm_docs :: "(string \<times> bm25_doc) list"
  bm_df :: "string \<Rightarrow> nat"
  bm_tot_len :: int

definition newBM25Index :: bm25_index where
  "newBM25Index = \<lparr> bm_docs = [], bm_df = (\<lambda>_. 0), bm_tot_len = 0 \<rparr>"

definition df_dec :: "string \<Rightarrow> (string \<Rightarrow> nat) \<Rightarrow> string \<Rightarrow> nat" where
  "df_dec t df = df(t := if df t \<le> 1 then 0 else df t - 1)"

definition df_inc :: "string \<Rightarrow> (string \<Rightarrow> nat) \<Rightarrow> string \<Rightarrow> nat" where
  "df_inc t df = df(t := df t + 1)"

definition forget_doc :: "bm25_doc \<Rightarrow> bm25_index \<Rightarrow> bm25_index" where
  "forget_doc old b = b\<lparr>bm_df := fold df_dec (map fst (bd_tf old)) (bm_df b),
     bm_tot_len := bm_tot_len b - int (bd_length old)\<rparr>"

definition bm_upsert :: "string \<Rightarrow> string \<Rightarrow> string \<Rightarrow> string \<Rightarrow> string \<Rightarrow> bm25_index \<Rightarrow> bm25_index" where
  "bm_upsert i doc title snippet source b =
     (let toks = tokenize (title @ [CHR 0x0A] @ snippet);
          tf = term_freq toks;
          b1 = (case map_of (bm_docs b) i of None \<Rightarrow> b | Some old \<Rightarrow> forget_doc old b)
      in b1\<lparr>bm_df := fold df_inc (map fst tf) (bm_df b1),
            bm_docs := AList.update i \<lparr> bd_doc = doc, bd_title = title, bd_snippet = snippet,
              bd_source = source, bd_tf = tf, bd_length = length toks \<rparr> (bm_docs b1),
            bm_tot_len := bm_tot_len b1 + int (length toks)\<rparr>)"

definition removeLocked :: "string \<Rightarrow> bm25_index \<Rightarrow> bm25_index" where
  "removeLocked i b =
     (case map_of (bm_docs b) i of
        None \<Rightarrow> b
      | Some old \<Rightarrow> (forget_doc old b)\<lparr>bm_docs := AList.delete i (bm_docs b)\<rparr>)"

definition deleteDoc :: "string \<Rightarrow> bm25_index \<Rightarrow> bm25_index" where
  "deleteDoc doc b = fold removeLocked
     (map fst (filter (\<lambda>(i, d). bd_doc d = doc) (bm_docs b))) b"

definition deleteSource :: "string \<Rightarrow> bm25_index \<Rightarrow> bm25_index" where
  "deleteSource source b = fold removeLocked
     (map fst (filter (\<lambda>(i, d). bd_source d = source) (bm_docs b))) b"

section \<open>Search\<close>

definition bm25K1 :: real where "bm25K1 = 1.2"
definition bm25B :: real where "bm25B = 0.75"

definition idf :: "nat \<Rightarrow> nat \<Rightarrow> real" where
  "idf n df = ln (1 + (real n - real df + 0.5) / (real df + 0.5))"

definition term_score :: "nat \<Rightarrow> nat \<Rightarrow> real \<Rightarrow> nat \<Rightarrow> nat \<Rightarrow> real" where
  "term_score n df avg len tf =
     idf n df * real tf * (bm25K1 + 1) / (real tf + bm25K1 * (1 - bm25B + bm25B * real len / avg))"

definition doc_score :: "bm25_index \<Rightarrow> real \<Rightarrow> string list \<Rightarrow> bm25_doc \<Rightarrow> real" where
  "doc_score b avg qtoks d =
     (\<Sum>t \<leftarrow> remdups qtoks.
        case map_of (bd_tf d) t of
          None \<Rightarrow> 0
        | Some tf \<Rightarrow> if tf = 0 then 0
                    else term_score (length (bm_docs b)) (bm_df b t) avg (bd_length d) tf)"

definition by_score :: "(string \<times> real) list \<Rightarrow> (string \<times> real) list" where
  "by_score hits = sort_key (\<lambda>h. - snd h) hits"

definition searchFiltered :: "string \<Rightarrow> int \<Rightarrow> (string \<Rightarrow> bm25_doc \<Rightarrow> bool) \<Rightarrow> bm25_index \<Rightarrow> (string \<times> real) list" where
  "searchFiltered query topK eligible b =
     (let qtoks = tokenize query; n = length (bm_docs b);
          avg = real_of_int (bm_tot_len b) / real n
      in if qtoks = [] \<or> topK \<le> 0 \<or> n = 0 \<or> avg = 0 then []
         else take (nat topK) (by_score
           (filter (\<lambda>h. snd h > 0)
             (map (\<lambda>(i, d). (i, doc_score b avg qtoks d))
               (filter (\<lambda>(i, d). eligible i d) (bm_docs b))))))"

text \<open>\<open>rrfFuse\<close>: each list gives an identifier one over \<open>k\<close> plus its rank.\<close>

definition rrf_add :: "real \<Rightarrow> nat \<times> string \<Rightarrow> (string \<times> real) list \<Rightarrow> (string \<times> real) list" where
  "rrf_add k ri m = (case ri of (i, s) \<Rightarrow>
     AList.update s ((case map_of m s of None \<Rightarrow> 0 | Some v \<Rightarrow> v) + 1 / (k + real (i + 1))) m)"

definition rrfFuse :: "string list \<Rightarrow> string list \<Rightarrow> real \<Rightarrow> (string \<times> real) list" where
  "rrfFuse dense bm25 k =
     fold (rrf_add k) (enumerate 0 bm25) (fold (rrf_add k) (enumerate 0 dense) [])"

section \<open>The index invariant\<close>

definition has_term :: "string \<Rightarrow> bm25_doc \<Rightarrow> bool" where
  "has_term t d \<longleftrightarrow> t \<in> set (map fst (bd_tf d))"

definition doc_freq :: "(string \<times> bm25_doc) list \<Rightarrow> string \<Rightarrow> nat" where
  "doc_freq docs t = (\<Sum>x \<leftarrow> docs. if has_term t (snd x) then 1 else 0)"

definition doc_wf :: "bm25_doc \<Rightarrow> bool" where
  "doc_wf d \<longleftrightarrow> distinct (map fst (bd_tf d)) \<and> list_all (\<lambda>(t, n). 0 < n) (bd_tf d)
     \<and> sum_list (map snd (bd_tf d)) = bd_length d"

text \<open>Identifiers are unique, the document frequencies count the documents that have the term, and the
  total length is the sum of the lengths.\<close>

definition bm_ok :: "bm25_index \<Rightarrow> bool" where
  "bm_ok b \<longleftrightarrow> distinct (map fst (bm_docs b)) \<and> list_all (\<lambda>x. doc_wf (snd x)) (bm_docs b)
     \<and> bm_df b = doc_freq (bm_docs b)
     \<and> bm_tot_len b = int (sum_list (map (\<lambda>x. bd_length (snd x)) (bm_docs b)))"

lemma sum_update:
  fixes g :: "'k \<times> 'v \<Rightarrow> 'a::comm_monoid_add"
  assumes "distinct (map fst xs)"
  shows "sum_list (map g (AList.update i d xs)) = sum_list (map g (AList.delete i xs)) + g (i, d)"
  using assms
proof (induction xs)
  case (Cons x xs)
  then show ?case
  proof (cases "fst x = i")
    case True
    with Cons.prems have "AList.delete i xs = xs"
      by (intro delete_id) (auto simp: image_iff)
    with True show ?thesis by (cases x) (auto simp: ac_simps AList.delete_eq)
  next
    case False
    with Cons show ?thesis by (cases x) (auto simp: ac_simps AList.delete_eq)
  qed
qed simp

lemma sum_delete:
  fixes g :: "'k \<times> 'v \<Rightarrow> 'a::comm_monoid_add"
  assumes "distinct (map fst xs)" and "map_of xs i = Some d"
  shows "sum_list (map g xs) = sum_list (map g (AList.delete i xs)) + g (i, d)"
  using assms
proof (induction xs)
  case (Cons x xs)
  then show ?case
  proof (cases "fst x = i")
    case True
    with Cons.prems have "AList.delete i xs = xs"
      by (intro delete_id) (auto simp: image_iff)
    with True Cons.prems show ?thesis by (cases x) (auto simp: ac_simps AList.delete_eq)
  next
    case False
    with Cons show ?thesis by (cases x) (auto simp: ac_simps AList.delete_eq)
  qed
qed simp

lemma delete_none: "map_of xs i = None \<Longrightarrow> AList.delete i xs = xs"
  by (intro delete_id) (simp add: map_of_eq_None_iff)

lemma fold_df_dec:
  "distinct ts \<Longrightarrow> fold df_dec ts df t = (if t \<in> set ts then df t - 1 else df t)"
  by (induction ts arbitrary: df) (auto simp: df_dec_def)

lemma fold_df_inc:
  "distinct ts \<Longrightarrow> fold df_inc ts df t = (if t \<in> set ts then df t + 1 else df t)"
  by (induction ts arbitrary: df) (auto simp: df_inc_def)

lemma doc_wf_term_freq:
  "doc_wf \<lparr> bd_doc = a, bd_title = b, bd_snippet = c, bd_source = e, bd_tf = term_freq toks,
     bd_length = length toks \<rparr>"
proof -
  have "sum_list (map (count_list toks) (remdups toks)) = length toks"
    by (simp add: sum_list_distinct_conv_sum_set sum_count_set)
  then show ?thesis
    by (auto simp: doc_wf_def term_freq_def list_all_iff comp_def count_list_0_iff intro!: gr0I)
qed

text \<open>Forgetting a document leaves the frequencies and the length of the others.\<close>

lemma forget_doc_ok:
  assumes ok: "bm_ok b" and old: "map_of (bm_docs b) i = Some d"
  shows "bm_df (forget_doc d b) = doc_freq (AList.delete i (bm_docs b))"
    and "bm_tot_len (forget_doc d b) = int (sum_list (map (\<lambda>x. bd_length (snd x)) (AList.delete i (bm_docs b))))"
    and "bm_docs (forget_doc d b) = bm_docs b"
proof -
  have dist: "distinct (map fst (bm_docs b))" using ok by (simp add: bm_ok_def)
  have "doc_wf d" using ok map_of_SomeD [OF old] by (force simp: bm_ok_def list_all_iff)
  then have ts: "distinct (map fst (bd_tf d))" by (simp add: doc_wf_def)
  show "bm_df (forget_doc d b) = doc_freq (AList.delete i (bm_docs b))"
  proof
    fix t
    have "doc_freq (bm_docs b) t = doc_freq (AList.delete i (bm_docs b)) t + (if has_term t d then 1 else 0)"
      using sum_delete [OF dist old, of "\<lambda>x. if has_term t (snd x) then 1 else (0::nat)"]
      by (simp add: doc_freq_def)
    with ok show "bm_df (forget_doc d b) t = doc_freq (AList.delete i (bm_docs b)) t"
      by (simp add: forget_doc_def bm_ok_def fold_df_dec [OF ts] has_term_def)
  qed
  show "bm_tot_len (forget_doc d b) = int (sum_list (map (\<lambda>x. bd_length (snd x)) (AList.delete i (bm_docs b))))"
    using sum_delete [OF dist old, of "\<lambda>x. bd_length (snd x)"] ok by (simp add: forget_doc_def bm_ok_def)
  show "bm_docs (forget_doc d b) = bm_docs b" by (simp add: forget_doc_def)
qed

lemma set_update_subset: "set (AList.update i d xs) \<subseteq> insert (i, d) (set xs)"
  by (induction xs) auto

lemma bm_ok_upsert:
  assumes "bm_ok b"
  shows "bm_ok (bm_upsert i doc title snippet source b)"
proof -
  define toks where "toks = tokenize (title @ [CHR 0x0A] @ snippet)"
  define d where "d = \<lparr> bd_doc = doc, bd_title = title, bd_snippet = snippet, bd_source = source,
     bd_tf = term_freq toks, bd_length = length toks \<rparr>"
  define b1 where "b1 = (case map_of (bm_docs b) i of None \<Rightarrow> b | Some old \<Rightarrow> forget_doc old b)"
  let ?rest = "AList.delete i (bm_docs b)"
  have dist: "distinct (map fst (bm_docs b))" using assms by (simp add: bm_ok_def)
  have b1: "bm_df b1 = doc_freq ?rest" "bm_tot_len b1 = int (sum_list (map (\<lambda>x. bd_length (snd x)) ?rest))"
    "bm_docs b1 = bm_docs b"
    using assms forget_doc_ok [OF assms]
    by (auto simp: b1_def bm_ok_def delete_none split: option.splits)
  have ts: "distinct (map fst (bd_tf d))" by (simp add: d_def term_freq_def comp_def)
  have up: "bm_upsert i doc title snippet source b = b1\<lparr>bm_df := fold df_inc (map fst (bd_tf d)) (bm_df b1),
     bm_docs := AList.update i d (bm_docs b), bm_tot_len := bm_tot_len b1 + int (bd_length d)\<rparr>"
    by (simp add: bm_upsert_def Let_def toks_def d_def b1_def b1(3) [unfolded b1_def])
  have "fold df_inc (map fst (bd_tf d)) (bm_df b1) = doc_freq (AList.update i d (bm_docs b))"
  proof
    fix t
    show "fold df_inc (map fst (bd_tf d)) (bm_df b1) t = doc_freq (AList.update i d (bm_docs b)) t"
      using sum_update [OF dist, of "\<lambda>x. if has_term t (snd x) then 1 else (0::nat)" i d]
      by (simp add: fold_df_inc [OF ts] b1(1) doc_freq_def has_term_def)
  qed
  moreover have "list_all (\<lambda>x. doc_wf (snd x)) (AList.update i d (bm_docs b))"
    using assms set_update_subset [of i d "bm_docs b"] doc_wf_term_freq
    by (fastforce simp: bm_ok_def list_all_iff d_def)
  ultimately show ?thesis
    using dist sum_update [OF dist, of "\<lambda>x. bd_length (snd x)" i d]
    by (simp add: up bm_ok_def b1(2) distinct_update)
qed

lemma bm_ok_removeLocked:
  assumes "bm_ok b"
  shows "bm_ok (removeLocked i b)"
proof (cases "map_of (bm_docs b) i")
  case (Some d)
  have "set (AList.delete i (bm_docs b)) \<subseteq> set (bm_docs b)" by (auto simp: AList.delete_eq)
  with assms forget_doc_ok [OF assms Some] Some show ?thesis
    by (auto simp: removeLocked_def bm_ok_def list_all_iff distinct_delete)
qed (simp add: removeLocked_def assms)

lemma bm_ok_fold_remove: "bm_ok b \<Longrightarrow> bm_ok (fold removeLocked is b)"
  by (induction "is" arbitrary: b) (simp_all add: bm_ok_removeLocked)

lemma bm_ok_new: "bm_ok newBM25Index"
  by (simp add: bm_ok_def newBM25Index_def doc_freq_def fun_eq_iff)

section \<open>Scores\<close>

lemma doc_freq_le: "doc_freq docs t \<le> length docs"
  unfolding doc_freq_def by (induction docs) auto

lemma idf_pos: "df \<le> n \<Longrightarrow> 0 < idf n df"
  unfolding idf_def by (intro ln_gt_zero) (simp add: divide_simps)

lemma term_score_pos:
  assumes "df \<le> n" and "0 < avg" and "0 < tf"
  shows "0 < term_score n df avg len tf"
  using assms idf_pos [OF assms(1)]
  by (auto simp: term_score_def bm25K1_def bm25B_def intro!: divide_pos_pos mult_pos_pos add_pos_nonneg)

lemma doc_score_pos:
  assumes ok: "bm_ok b" and d: "(i, d) \<in> set (bm_docs b)" and "0 < avg"
    and t: "t \<in> set qtoks" "has_term t d"
  shows "0 < doc_score b avg qtoks d"
proof -
  let ?f = "\<lambda>t. case map_of (bd_tf d) t of None \<Rightarrow> 0
    | Some tf \<Rightarrow> if tf = 0 then 0 else term_score (length (bm_docs b)) (bm_df b t) avg (bd_length d) tf"
  have df: "bm_df b u \<le> length (bm_docs b)" for u
    using ok doc_freq_le by (simp add: bm_ok_def)
  have nonneg: "0 \<le> ?f u" for u
    using term_score_pos [OF df assms(3)] by (auto split: option.splits intro: less_imp_le)
  from t(2) obtain tf where tf: "map_of (bd_tf d) t = Some tf"
    using map_of_eq_None_iff [of "bd_tf d" t] by (auto simp: has_term_def)
  have "doc_wf d" using ok d by (auto simp: bm_ok_def list_all_iff)
  then have "0 < tf" using map_of_SomeD [OF tf] by (auto simp: doc_wf_def list_all_iff)
  then have pos: "0 < ?f t" using tf term_score_pos [OF df assms(3)] by simp
  have "doc_score b avg qtoks d = (\<Sum>u \<in> set qtoks. ?f u)"
    by (simp add: doc_score_def sum_list_distinct_conv_sum_set)
  also have "\<dots> \<ge> ?f t" using t(1) nonneg by (intro member_le_sum) auto
  finally show ?thesis using pos by linarith
qed

text \<open>The index counts exactly: starting from the empty index, every upsert, every removal and every
  bulk removal keeps identifiers unique, the frequency of each term equal to the number of documents that
  contain it, and the total length equal to the sum of the document lengths.\<close>

theorem bm25_index_exact:
  assumes "bm_ok b"
  shows "bm_ok newBM25Index \<and> bm_ok (bm_upsert i doc title snippet source b) \<and> bm_ok (removeLocked i b)
    \<and> bm_ok (deleteDoc doc b) \<and> bm_ok (deleteSource source b)"
  using assms bm_ok_new bm_ok_upsert bm_ok_removeLocked bm_ok_fold_remove
  by (simp add: deleteDoc_def deleteSource_def)

theorem bm25_index_exact_witness:
  "bm_ok (bm_upsert ''a'' ''doc'' ''title'' ''text'' ''demo'' newBM25Index)"
  using bm25_index_exact [OF bm_ok_new] by blast

lemma mem_by_score [simp]: "set (by_score hits) = set hits"
  by (simp add: by_score_def)

lemma searchFiltered_sound:
  assumes "(i, s) \<in> set (searchFiltered query topK eligible b)"
  shows "0 < s \<and> (\<exists>d. (i, d) \<in> set (bm_docs b) \<and> eligible i d)"
  using assms by (auto simp: searchFiltered_def Let_def split: if_splits dest!: in_set_takeD)

lemma searchFiltered_sorted:
  "sorted_wrt (\<lambda>x y. snd y \<le> snd x) (searchFiltered query topK eligible b)"
proof -
  have "sorted_wrt (\<lambda>x y. snd y \<le> snd x) (by_score hits)" for hits
    using sorted_sort_key [of "\<lambda>h. - snd h" hits] by (simp add: by_score_def sorted_map)
  then show ?thesis by (auto simp: searchFiltered_def Let_def intro: sorted_wrt_take)
qed

lemma searchFiltered_length: "length (searchFiltered query topK eligible b) \<le> nat topK"
  by (simp add: searchFiltered_def Let_def)

text \<open>The sparse search returns at most \<open>topK\<close> hits in order of falling score, each an admitted
  document with a positive score; and as long as the index is not larger than \<open>topK\<close>, it misses no
  admitted document that shares a token with the query.\<close>

theorem bm25_search:
  assumes "bm_ok b" and "int (length (bm_docs b)) \<le> topK"
  shows "length (searchFiltered query topK eligible b) \<le> nat topK
    \<and> sorted_wrt (\<lambda>x y. snd y \<le> snd x) (searchFiltered query topK eligible b)
    \<and> (\<forall>(i, s) \<in> set (searchFiltered query topK eligible b).
          0 < s \<and> (\<exists>d. (i, d) \<in> set (bm_docs b) \<and> eligible i d))
    \<and> (\<forall>(i, d) \<in> set (bm_docs b). eligible i d \<and> list_ex (\<lambda>t. has_term t d) (tokenize query) \<longrightarrow>
          (\<exists>s. (i, s) \<in> set (searchFiltered query topK eligible b)))"
proof (intro conjI)
  show "length (searchFiltered query topK eligible b) \<le> nat topK" by (rule searchFiltered_length)
  show "sorted_wrt (\<lambda>x y. snd y \<le> snd x) (searchFiltered query topK eligible b)"
    by (rule searchFiltered_sorted)
  show "\<forall>(i, s) \<in> set (searchFiltered query topK eligible b).
          0 < s \<and> (\<exists>d. (i, d) \<in> set (bm_docs b) \<and> eligible i d)"
    using searchFiltered_sound by blast
  show "\<forall>(i, d) \<in> set (bm_docs b). eligible i d \<and> list_ex (\<lambda>t. has_term t d) (tokenize query) \<longrightarrow>
          (\<exists>s. (i, s) \<in> set (searchFiltered query topK eligible b))"
  proof (clarsimp simp: list_ex_iff)
    fix i d t
    assume d: "(i, d) \<in> set (bm_docs b)" "eligible i d" and t: "t \<in> set (tokenize query)" "has_term t d"
    let ?n = "length (bm_docs b)" and ?avg = "real_of_int (bm_tot_len b) / real (length (bm_docs b))"
    have n: "0 < ?n" using d(1) by (cases "bm_docs b") auto
    have "doc_wf d" using assms(1) d(1) by (auto simp: bm_ok_def list_all_iff)
    then have "0 < bd_length d"
      using t(2) by (cases "bd_tf d") (auto simp: doc_wf_def has_term_def)
    moreover have "bd_length d \<in> set (map (\<lambda>x. bd_length (snd x)) (bm_docs b))" using d(1) by force
    then have "bd_length d \<le> sum_list (map (\<lambda>x. bd_length (snd x)) (bm_docs b))"
      by (rule member_le_sum_list) simp
    ultimately have "0 < bm_tot_len b" using assms(1) by (simp add: bm_ok_def)
    with n have avg: "0 < ?avg" by simp
    have pos: "0 < doc_score b ?avg (tokenize query) d"
      using doc_score_pos [OF assms(1) d(1) avg t] .
    let ?hits = "filter (\<lambda>h. snd h > 0) (map (\<lambda>(i, d). (i, doc_score b ?avg (tokenize query) d))
               (filter (\<lambda>(i, d). eligible i d) (bm_docs b)))"
    have "length (by_score ?hits) \<le> ?n"
      unfolding by_score_def length_sort by (rule order.trans [OF length_filter_le]) simp
    then have all: "take (nat topK) (by_score ?hits) = by_score ?hits" using assms(2) by simp
    have "0 < topK" using assms(2) n by linarith
    then have ne: "\<not> (tokenize query = [] \<or> topK \<le> 0 \<or> ?n = 0 \<or> ?avg = 0)"
      using n avg t(1) by auto
    have "searchFiltered query topK eligible b = by_score ?hits"
      unfolding searchFiltered_def Let_def if_not_P [OF ne] by (rule all)
    moreover have "(i, doc_score b ?avg (tokenize query) d) \<in> set ?hits" using d pos by force
    ultimately show "\<exists>s. (i, s) \<in> set (searchFiltered query topK eligible b)" by auto
  qed
qed

definition ex_index :: bm25_index where
  "ex_index = bm_upsert ''a'' ''doc'' ''Api Down'' ''text'' ''demo'' newBM25Index"

lemma ex_index_docs:
  "bm_docs ex_index = [(''a'', \<lparr> bd_doc = ''doc'', bd_title = ''Api Down'', bd_snippet = ''text'',
     bd_source = ''demo'', bd_tf = [(''api'', 1), (''down'', 1), (''text'', 1)], bd_length = 3 \<rparr>)]"
  by code_simp

lemma ex_tokens: "tokenize ''why down?'' = [''why'', ''down'']"
  by code_simp

theorem bm25_search_witness:
  "\<exists>s. (''a'', s) \<in> set (searchFiltered ''why down?'' 5 (\<lambda>i d. True) ex_index) \<and> 0 < s"
proof -
  have ok: "bm_ok ex_index" using bm_ok_upsert [OF bm_ok_new] by (simp add: ex_index_def)
  have "int (length (bm_docs ex_index)) \<le> 5" by (simp add: ex_index_docs)
  note r = bm25_search [OF ok this, of "''why down?''" "\<lambda>i d. True"]
  then obtain s where "(''a'', s) \<in> set (searchFiltered ''why down?'' 5 (\<lambda>i d. True) ex_index)"
    by (auto simp: ex_index_docs ex_tokens has_term_def)
  with r show ?thesis by blast
qed

section \<open>Reciprocal rank fusion\<close>

definition rank_score :: "real \<Rightarrow> string list \<Rightarrow> string \<Rightarrow> real" where
  "rank_score k xs s =
     (if s \<in> set xs then 1 / (k + real (length (takeWhile (\<lambda>x. x \<noteq> s) xs) + 1)) else 0)"

definition fused :: "(string \<times> real) list \<Rightarrow> string \<Rightarrow> real" where
  "fused m s = (case map_of m s of None \<Rightarrow> 0 | Some v \<Rightarrow> v)"

lemma fused_rrf_add: "fused (rrf_add k (i, t) m) s = fused m s + (if s = t then 1 / (k + real (i + 1)) else 0)"
  by (simp add: rrf_add_def fused_def update_conv')

lemma fused_fold:
  assumes "distinct xs"
  shows "fused (fold (rrf_add k) (enumerate n xs) m) s = fused m s
    + (if s \<in> set xs then 1 / (k + real (n + length (takeWhile (\<lambda>x. x \<noteq> s) xs) + 1)) else 0)"
  using assms
proof (induction xs arbitrary: n m)
  case (Cons x xs)
  then show ?case by (auto simp: fused_rrf_add)
qed simp

lemma fst_fold_rrf:
  "fst ` set (fold (rrf_add k) (enumerate n xs) m) = set xs \<union> fst ` set m"
proof (induction xs arbitrary: n m)
  case (Cons x xs)
  have "fst ` set (rrf_add k (n, x) m) = insert x (fst ` set m)"
    by (simp add: rrf_add_def dom_update)
  with Cons show ?case by simp
qed simp

text \<open>Reciprocal rank fusion: for two rankings without repetition, the fused identifiers are exactly
  those of either ranking, and the score of each is the sum of its reciprocal ranks, an absent ranking
  counting nothing.\<close>

theorem rrfFuse_scores:
  assumes "distinct dense" and "distinct bm25"
  shows "fst ` set (rrfFuse dense bm25 k) = set dense \<union> set bm25
    \<and> fused (rrfFuse dense bm25 k) s = rank_score k dense s + rank_score k bm25 s"
  by (simp add: rrfFuse_def fst_fold_rrf Un_commute fused_fold [OF assms(1)] fused_fold [OF assms(2)]
      rank_score_def) (simp add: fused_def)

theorem rrfFuse_scores_witness:
  "fused (rrfFuse [''a'', ''b''] [''b''] 60) ''b'' = 1 / 62 + 1 / 61"
  using rrfFuse_scores [of "[''a'', ''b'']" "[''b'']" 60 "''b''"] by (simp add: rank_score_def)

end
