(* ===== verification/Rag.thy ===== *)
theory Rag
  imports Model Bm25
begin

text \<open>
  The retrieval projection (\<open>src/internal/rag/rag.go\<close> and \<open>versions.go\<close>): splitting Markdown
  into chunks, indexing a version, restoring and activating the projection, and the fused search.

  The embedding service and the vector store appear here as parameters: the length of the embedding of a text, the
  outcome of a write and the hits of a vector search. The theories \<open>Vector\<close> and \<open>Embed\<close> supply them.
\<close>

section \<open>Splitting Markdown\<close>

definition heading_level :: "string \<Rightarrow> nat \<times> string" where
  "heading_level line =
     (let s = trim_space line in
      if \<not> has_prefix s ''#'' then (0, [])
      else (length (takeWhile (\<lambda>c. c = CHR ''#'') s), trim_space (dropWhile (\<lambda>c. c = CHR ''#'') s)))"

definition parseHeading :: "string \<Rightarrow> string" where
  "parseHeading line = snd (heading_level line)"

record md_chunk =
  mc_doc :: string
  mc_title :: string
  mc_snippet :: string

definition newline :: string where "newline = [CHR 0x0A]"

definition doc_title_of :: "string \<Rightarrow> string list \<Rightarrow> string" where
  "doc_title_of doc lines =
     (case find (\<lambda>t. t \<noteq> []) (map parseHeading lines) of None \<Rightarrow> doc | Some t \<Rightarrow> t)"

definition flush_chunk :: "string \<Rightarrow> string \<Rightarrow> string \<Rightarrow> string list \<Rightarrow> md_chunk list" where
  "flush_chunk doc docTitle curTitle cur =
     (let snip = trim_space (join_with newline cur) in
      if cur = [] \<or> snip = [] then []
      else [\<lparr> mc_doc = doc, mc_title = (if curTitle = [] then docTitle else curTitle), mc_snippet = snip \<rparr>])"

fun chunk_loop :: "string \<Rightarrow> string \<Rightarrow> string list \<Rightarrow> string \<Rightarrow> string list \<Rightarrow> md_chunk list" where
  "chunk_loop doc docTitle [] curTitle cur = flush_chunk doc docTitle curTitle cur"
| "chunk_loop doc docTitle (line # lns) curTitle cur =
     (case heading_level line of (lvl, t) \<Rightarrow>
        if lvl = 2 \<and> t \<noteq> []
        then flush_chunk doc docTitle curTitle cur @ chunk_loop doc docTitle lns t [line]
        else chunk_loop doc docTitle lns curTitle (cur @ [line]))"

definition ChunkMarkdown :: "string \<Rightarrow> string \<Rightarrow> md_chunk list" where
  "ChunkMarkdown doc md =
     (let lines = split_at_char (CHR 0x0A) md;
          docTitle = doc_title_of doc lines;
          chunks = chunk_loop doc docTitle lines [] []
      in if chunks = [] \<and> trim_space md \<noteq> []
         then [\<lparr> mc_doc = doc, mc_title = docTitle, mc_snippet = trim_space md \<rparr>]
         else chunks)"

section \<open>The projection\<close>

record version_chunk =
  vc_id :: string
  vc_doc_id :: string
  vc_version_id :: string
  vc_title :: string
  vc_snippet :: string
  vc_source :: string
  vc_space_id :: string
  vc_environment :: string

record active_version =
  av_doc_id :: string
  av_version_id :: string
  av_space_id :: string

record rag =
  rg_bm :: bm25_index
  rg_chunks :: "(string \<times> version_chunk) list"
  rg_active :: "(string \<times> active_version) list"
  rg_versioned :: bool
  rg_space_id :: string
  rg_dimension :: nat
  rg_floor :: real
  rg_incident_weight :: real

definition new_rag :: rag where
  "new_rag = \<lparr> rg_bm = newBM25Index, rg_chunks = [], rg_active = [], rg_versioned = False,
     rg_space_id = [], rg_dimension = 0, rg_floor = 0, rg_incident_weight = 1/2 \<rparr>"

definition restore_chunk :: "version_chunk \<Rightarrow> rag \<Rightarrow> rag" where
  "restore_chunk c r = r\<lparr>rg_chunks := AList.update (vc_id c) c (rg_chunks r),
     rg_bm := bm_upsert (vc_id c) (vc_title c) (vc_title c) (vc_snippet c) (vc_source c) (rg_bm r)\<rparr>"

definition RestoreChunks :: "version_chunk list \<Rightarrow> rag \<Rightarrow> rag" where
  "RestoreChunks cs r = fold restore_chunk cs r"

definition ActivateVersions :: "active_version list \<Rightarrow> rag \<Rightarrow> rag" where
  "ActivateVersions vs r =
     r\<lparr>rg_versioned := True, rg_active := fold (\<lambda>v. AList.update (av_doc_id v) v) vs []\<rparr>"

definition rag_eligible :: "rag \<Rightarrow> string \<Rightarrow> string \<Rightarrow> bool" where
  "rag_eligible r i source \<longleftrightarrow>
     \<not> (source = ''incident'' \<or> source = ''space_metadata'')
     \<and> (case map_of (rg_chunks r) i of
          None \<Rightarrow> \<not> rg_versioned r
        | Some c \<Rightarrow>
            (case map_of (rg_active r) (vc_doc_id c) of
               None \<Rightarrow> False
             | Some v \<Rightarrow> av_version_id v = vc_version_id c \<and> av_space_id v = vc_space_id c))"

definition SetEmbeddingSpace :: "string \<Rightarrow> nat \<Rightarrow> rag \<Rightarrow> rag" where
  "SetEmbeddingSpace space dims r = r\<lparr>rg_space_id := space, rg_dimension := dims\<rparr>"

definition validateSpace :: "string \<Rightarrow> nat \<Rightarrow> rag \<Rightarrow> unit ws" where
  "validateSpace space dims r =
     ensure (rg_space_id r = [] \<or> rg_space_id r = space) (ErrMsg ''embedding space mismatch'')
     (ensure (rg_dimension r = 0 \<or> dims = rg_dimension r) (ErrMsg ''embedding dimension mismatch'')
        (Inr ()))"

text \<open>\<open>emb\<close> gives the dimension of the embedding of a text or an error, \<open>upsert\<close> the outcome of
  writing a point to the vector store.\<close>

definition chunk_id :: "string \<Rightarrow> string \<Rightarrow> nat \<Rightarrow> string" where
  "chunk_id doc ver i = md5_hex (doc @ ''#'' @ ver @ ''#'' @ dec i)"

definition index_chunk :: "(string \<Rightarrow> nat ws) \<Rightarrow> (version_chunk \<Rightarrow> ws_error option) \<Rightarrow> rag \<Rightarrow>
    string \<Rightarrow> string \<Rightarrow> string \<Rightarrow> string \<Rightarrow> string \<Rightarrow> nat \<times> md_chunk \<Rightarrow> version_chunk ws" where
  "index_chunk emb upsert r doc ver title source space ic =
     (case ic of (i, c) \<Rightarrow>
      res_bind (emb (mc_title c @ newline @ mc_snippet c)) (\<lambda>dims.
      res_bind (validateSpace space dims r) (\<lambda>_.
        let vc = \<lparr> vc_id = chunk_id doc ver i, vc_doc_id = doc, vc_version_id = ver,
                   vc_title = title, vc_snippet = mc_snippet c, vc_source = source,
                   vc_space_id = space, vc_environment = [] \<rparr>
        in case upsert vc of None \<Rightarrow> Inr vc | Some e \<Rightarrow> Inl e)))"

definition IndexVersion :: "(string \<Rightarrow> nat ws) \<Rightarrow> (version_chunk \<Rightarrow> ws_error option) \<Rightarrow>
    string \<Rightarrow> string \<Rightarrow> string \<Rightarrow> string \<Rightarrow> string \<Rightarrow> string \<Rightarrow> rag \<Rightarrow> (version_chunk list \<times> rag) ws" where
  "IndexVersion emb upsert doc ver title md source space r =
     ensure (doc \<noteq> [] \<and> ver \<noteq> [] \<and> space \<noteq> []) (ErrMsg ''document, version and embedding space required'')
     (let cs = ChunkMarkdown title md in
      ensure (length cs \<le> 512) (ErrMsg ''document exceeds 512 chunks'')
      (res_bind (map_res (index_chunk emb upsert r doc ver title source space) (enumerate 0 cs)) (\<lambda>out.
         Inr (out, RestoreChunks out r))))"

text \<open>\<open>DeleteVersionWithContext\<close>, after the vector store has dropped the version.\<close>

definition delete_chunk :: "string \<Rightarrow> rag \<Rightarrow> rag" where
  "delete_chunk i r = r\<lparr>rg_bm := removeLocked i (rg_bm r), rg_chunks := AList.delete i (rg_chunks r)\<rparr>"

definition DeleteVersion :: "string \<Rightarrow> rag \<Rightarrow> rag" where
  "DeleteVersion ver r =
     fold delete_chunk (map fst (filter (\<lambda>(i, c). vc_version_id c = ver) (rg_chunks r))) r"

section \<open>Title boost\<close>

definition flush_field :: "string \<Rightarrow> string list" where
  "flush_field cur = (if cur = [] then [] else [cur])"

function fields_loop :: "string \<Rightarrow> string \<Rightarrow> string list" where
  "fields_loop [] cur = flush_field cur"
| "fields_loop (c # s) cur =
     (case find (has_prefix (c # s)) ws_encodings of
        Some w \<Rightarrow> flush_field cur @ fields_loop (drop (length w) (c # s)) []
      | None \<Rightarrow> fields_loop s (cur @ [c]))"
  by pat_completeness auto
termination
proof (relation "measure (length \<circ> fst)")
  fix c s w and cur :: string
  assume "find (has_prefix (c # s)) ws_encodings = Some w"
  then show "((drop (length w) (c # s), []), (c # s, cur)) \<in> measure (length \<circ> fst)"
    using ws_encodings_nonempty [of w] by (cases w) (auto dest: find_SomeD)
qed simp_all

definition fields :: "string \<Rightarrow> string list" where
  "fields s = fields_loop s []"

definition TitleBoost :: "real \<Rightarrow> string \<Rightarrow> string \<Rightarrow> real" where
  "TitleBoost score query title =
     (let q = to_lower (trim_space query); t = to_lower (trim_space title) in
      if q = [] \<or> t = [] then score
      else if contains q t \<or> contains t q then score * 1.5
      else let parts = fields t;
               hit = length (filter (\<lambda>p. length p > 1 \<and> contains q p) parts)
           in if parts = [] then score
              else if length parts \<le> hit * 2 then score * 1.5 else score)"

section \<open>Fused search\<close>

record point =
  pt_id :: string
  pt_title :: string
  pt_content :: string
  pt_source :: string

record rag_result =
  res_environment :: string
  res_doc :: string
  res_snippet :: string
  res_score :: real
  res_source :: string
  res_chunk_id :: string
  res_version_id :: string
  res_doc_id :: string
  res_dense_score :: "real option"
  res_bm25_score :: "real option"
  res_rrf_score :: real

definition open_bracket :: string where "open_bracket = bytes [0xE3, 0x80, 0x90]"
definition close_bracket :: string where "close_bracket = bytes [0xE3, 0x80, 0x91]"

fun index_of :: "string \<Rightarrow> string \<Rightarrow> nat option" where
  "index_of p [] = (if p = [] then Some 0 else None)"
| "index_of p (c # s) = (if has_prefix (c # s) p then Some 0 else map_option Suc (index_of p s))"

definition docOf :: "string \<Rightarrow> string" where
  "docOf content =
     (if has_prefix content open_bracket
      then (case index_of close_bracket content of
              Some e \<Rightarrow> if 0 < e then drop 3 (take e content) else []
            | None \<Rightarrow> [])
      else [])"

record cand =
  cd_doc :: string
  cd_title :: string
  cd_snippet :: string
  cd_source :: string

definition dense_cand :: "point \<Rightarrow> cand" where
  "dense_cand p = \<lparr> cd_doc = docOf (pt_content p), cd_title = pt_title p, cd_snippet = pt_content p,
     cd_source = pt_source p \<rparr>"

definition sparse_cand :: "bm25_doc \<Rightarrow> cand" where
  "sparse_cand d = \<lparr> cd_doc = bd_doc d, cd_title = bd_title d,
     cd_snippet = open_bracket @ bd_doc d @ close_bracket @ bd_snippet d, cd_source = bd_source d \<rparr>"

definition find_cand :: "rag \<Rightarrow> (point \<times> real) list \<Rightarrow> (string \<times> real) list \<Rightarrow> string \<Rightarrow> cand option" where
  "find_cand r hits bhits i =
     (case find (\<lambda>h. pt_id (fst h) = i) (rev hits) of
        Some h \<Rightarrow> Some (dense_cand (fst h))
      | None \<Rightarrow> if i \<in> set (map fst bhits) then map_option sparse_cand (map_of (bm_docs (rg_bm r)) i) else None)"

definition zero_chunk :: version_chunk where
  "zero_chunk = \<lparr> vc_id = [], vc_doc_id = [], vc_version_id = [], vc_title = [], vc_snippet = [],
     vc_source = [], vc_space_id = [], vc_environment = [] \<rparr>"

definition fuse_result :: "rag \<Rightarrow> string \<Rightarrow> (point \<times> real) list \<Rightarrow> (string \<times> real) list \<Rightarrow>
    string \<times> real \<Rightarrow> rag_result option" where
  "fuse_result r query hits bhits f =
     (case f of (i, fs) \<Rightarrow>
      map_option (\<lambda>c.
        let boosted = TitleBoost fs query (cd_title c);
            w = rg_incident_weight r;
            vc = (case map_of (rg_chunks r) i of None \<Rightarrow> zero_chunk | Some v \<Rightarrow> v)
        in \<lparr> res_environment = vc_environment vc, res_doc = cd_doc c, res_snippet = cd_snippet c,
             res_score = (if cd_source c = ''incident'' \<and> 0 < w \<and> w < 1 then boosted * w else boosted),
             res_source = cd_source c, res_chunk_id = i, res_version_id = vc_version_id vc,
             res_doc_id = vc_doc_id vc,
             res_dense_score = map_option snd (find (\<lambda>h. pt_id (fst h) = i) (rev hits)),
             res_bm25_score = map_of bhits i, res_rrf_score = fs \<rparr>)
        (find_cand r hits bhits i))"

text \<open>\<open>dims\<close> is the dimension of the query's embedding or an error, \<open>vhits\<close> the filtered hits of the
  vector store, best first.\<close>

definition searchFused :: "nat ws \<Rightarrow> (point \<times> real) list ws \<Rightarrow> string \<Rightarrow> int \<Rightarrow> nat \<Rightarrow> rag \<Rightarrow> rag_result list ws" where
  "searchFused dims vhits query fetchK outK r =
     (if trim_space query = [] then Inr []
      else res_bind dims (\<lambda>n.
        res_bind (validateSpace (rg_space_id r) n r) (\<lambda>_.
        res_bind vhits (\<lambda>hits.
          if rg_floor r > 0 \<and> (hits = [] \<or> snd (hd hits) < rg_floor r) then Inr []
          else let bhits = searchFiltered query fetchK (\<lambda>i d. rag_eligible r i (bd_source d)) (rg_bm r);
                   fused = rrfFuse (map (pt_id \<circ> fst) hits) (map fst bhits) 60;
                   out = List.map_filter (fuse_result r query hits bhits) fused
               in Inr (take outK (sort_key (\<lambda>x. - res_score x) out))))))"

definition SearchWithContext :: "nat ws \<Rightarrow> (point \<times> real) list ws \<Rightarrow> string \<Rightarrow> int \<Rightarrow> rag \<Rightarrow> rag_result list ws" where
  "SearchWithContext dims vhits query topK r =
     (let k = (if topK \<le> 0 then 5 else topK) in searchFused dims vhits query (k * 2) (nat k) r)"

definition SearchPoolWithContext :: "nat ws \<Rightarrow> (point \<times> real) list ws \<Rightarrow> string \<Rightarrow> int \<Rightarrow> rag \<Rightarrow> rag_result list ws" where
  "SearchPoolWithContext dims vhits query poolN r =
     (let k = (if poolN \<le> 0 then 8 else poolN) in searchFused dims vhits query (k * 2) (nat k) r)"

section \<open>Properties of the projection\<close>

definition rag_ok :: "rag \<Rightarrow> bool" where
  "rag_ok r \<longleftrightarrow> bm_ok (rg_bm r) \<and> distinct (map fst (rg_chunks r))
     \<and> list_all (\<lambda>x. vc_id (snd x) = fst x) (rg_chunks r)
     \<and> distinct (map fst (rg_active r)) \<and> list_all (\<lambda>x. av_doc_id (snd x) = fst x) (rg_active r)"

lemma list_all_update: "list_all P xs \<Longrightarrow> P (k, v) \<Longrightarrow> list_all P (AList.update k v xs)"
  using set_update_subset [of k v xs] by (auto simp: list_all_iff)

lemma list_all_delete: "list_all P xs \<Longrightarrow> list_all P (AList.delete k xs)"
  by (induction xs) auto

lemma rag_ok_restore_chunk: "rag_ok r \<Longrightarrow> rag_ok (restore_chunk c r)"
  by (simp add: rag_ok_def restore_chunk_def bm_ok_upsert distinct_update list_all_update)

lemma rag_ok_RestoreChunks: "rag_ok r \<Longrightarrow> rag_ok (RestoreChunks cs r)"
  unfolding RestoreChunks_def by (induction cs arbitrary: r) (simp_all add: rag_ok_restore_chunk)

lemma fold_active_ok:
  "distinct (map fst m) \<and> list_all (\<lambda>x. av_doc_id (snd x) = fst x) m \<Longrightarrow>
   distinct (map fst (fold (\<lambda>v. AList.update (av_doc_id v) v) vs m))
     \<and> list_all (\<lambda>x. av_doc_id (snd x) = fst x) (fold (\<lambda>v. AList.update (av_doc_id v) v) vs m)"
proof (induction vs arbitrary: m)
  case (Cons v vs)
  have "distinct (map fst (AList.update (av_doc_id v) v m))
      \<and> list_all (\<lambda>x. av_doc_id (snd x) = fst x) (AList.update (av_doc_id v) v m)"
    using Cons.prems by (simp add: distinct_update list_all_update)
  from Cons.IH [OF this] show ?case by simp
qed simp

lemma rag_ok_ActivateVersions: "rag_ok r \<Longrightarrow> rag_ok (ActivateVersions vs r)"
  using fold_active_ok [of "[]" vs] by (simp add: rag_ok_def ActivateVersions_def)

lemma rag_ok_delete_chunk: "rag_ok r \<Longrightarrow> rag_ok (delete_chunk i r)"
  by (simp add: rag_ok_def delete_chunk_def bm_ok_removeLocked distinct_delete list_all_delete)

lemma rag_ok_DeleteVersion: "rag_ok r \<Longrightarrow> rag_ok (DeleteVersion ver r)"
proof -
  have "rag_ok r \<Longrightarrow> rag_ok (fold delete_chunk is r)" for "is" r
    by (induction "is" arbitrary: r) (simp_all add: rag_ok_delete_chunk)
  then show "rag_ok r \<Longrightarrow> rag_ok (DeleteVersion ver r)" by (simp add: DeleteVersion_def)
qed

text \<open>The active map after activation: the last entry per document.\<close>

lemma map_of_fold_active:
  "map_of (fold (\<lambda>v. AList.update (av_doc_id v) v) vs m) d =
     (case find (\<lambda>v. av_doc_id v = d) (rev vs) of None \<Rightarrow> map_of m d | Some v \<Rightarrow> Some v)"
  by (induction vs arbitrary: m) (auto simp: find_append update_conv' split: option.splits)

lemma mem_sort_key: "x \<in> set (take n (sort_key f xs)) \<Longrightarrow> x \<in> set xs"
  by (metis in_set_takeD set_sort)

lemma map_filter_mem: "y \<in> set (List.map_filter f xs) \<Longrightarrow> \<exists>x \<in> set xs. f x = Some y"
  by (auto simp: List.map_filter_def)

lemma fst_set_rrfFuse: "fst ` set (rrfFuse ds bs k) = set ds \<union> set bs"
  by (simp add: rrfFuse_def fst_fold_rrf Un_commute)

text \<open>What a search can return. At most \<open>outK\<close> results in order of falling score; and every
  result is a hit of the filtered vector search or, found by the local index alone, a chunk that the
  projection admits: its version is the active version of its document in the current embedding space, and
  it is neither an archived incident nor space metadata.\<close>

theorem searchFused_sound:
  assumes "searchFused dims (Inr hits) query fetchK outK r = Inr out" and "rg_versioned r"
  shows "length out \<le> outK \<and> sorted_wrt (\<lambda>x y. res_score y \<le> res_score x) out
    \<and> (\<forall>x \<in> set out. res_chunk_id x \<in> set (map (pt_id \<circ> fst) hits)
         \<or> (\<exists>c v. map_of (rg_chunks r) (res_chunk_id x) = Some c
              \<and> map_of (rg_active r) (vc_doc_id c) = Some v \<and> av_version_id v = vc_version_id c
              \<and> av_space_id v = vc_space_id c \<and> res_version_id x = vc_version_id c
              \<and> res_doc_id x = vc_doc_id c))"
proof (cases "out = []")
  case False
  define bhits where "bhits = searchFiltered query fetchK (\<lambda>i d. rag_eligible r i (bd_source d)) (rg_bm r)"
  define fs where "fs = rrfFuse (map (pt_id \<circ> fst) hits) (map fst bhits) 60"
  define all where "all = List.map_filter (fuse_result r query hits bhits) fs"
  have out: "out = take outK (sort_key (\<lambda>x. - res_score x) all)"
    using assms(1) False
    by (auto simp: searchFused_def res_bind_eq_Inr Let_def all_def fs_def bhits_def split: if_splits)
  have sorted: "sorted_wrt (\<lambda>x y. res_score y \<le> res_score x) out"
    using sorted_sort_key [of "\<lambda>x. - res_score x" all] unfolding out sorted_map
    by (intro sorted_wrt_take) simp
  have "res_chunk_id x \<in> set (map (pt_id \<circ> fst) hits)
         \<or> (\<exists>c v. map_of (rg_chunks r) (res_chunk_id x) = Some c
              \<and> map_of (rg_active r) (vc_doc_id c) = Some v \<and> av_version_id v = vc_version_id c
              \<and> av_space_id v = vc_space_id c \<and> res_version_id x = vc_version_id c
              \<and> res_doc_id x = vc_doc_id c)" if x: "x \<in> set out" for x
  proof -
    from x obtain f where f: "f \<in> set fs" "fuse_result r query hits bhits f = Some x"
      unfolding out by (auto dest!: mem_sort_key simp: all_def dest: map_filter_mem)
    then have id: "res_chunk_id x = fst f" and vc: "map_of (rg_chunks r) (fst f) = Some c \<Longrightarrow>
        res_version_id x = vc_version_id c \<and> res_doc_id x = vc_doc_id c" for c
      by (auto simp: fuse_result_def Let_def split: prod.splits)
    have "fst f \<in> set (map (pt_id \<circ> fst) hits) \<union> set (map fst bhits)"
      using f(1) fst_set_rrfFuse unfolding fs_def by blast
    then consider "fst f \<in> set (map (pt_id \<circ> fst) hits)" | s where "(fst f, s) \<in> set bhits" by auto
    then show ?thesis
    proof cases
      case 2
      from searchFiltered_sound [OF 2 [unfolded bhits_def]]
      obtain d :: bm25_doc where "rag_eligible r (fst f) (bd_source d)" by auto
      with assms(2) vc show ?thesis
        by (auto simp: id rag_eligible_def split: option.splits)
    qed (simp add: id)
  qed
  with sorted show ?thesis by (auto simp: out)
qed simp

definition ex_rag :: rag where
  "ex_rag = ActivateVersions [\<lparr> av_doc_id = ''d'', av_version_id = ''v'', av_space_id = ''s'' \<rparr>]
     (RestoreChunks [\<lparr> vc_id = ''a'', vc_doc_id = ''d'', vc_version_id = ''v'', vc_title = ''Api Down'',
        vc_snippet = ''text'', vc_source = ''demo'', vc_space_id = ''s'', vc_environment = ''prod'' \<rparr>] new_rag)"

theorem searchFused_sound_witness:
  "\<exists>out. searchFused (Inr 3) (Inr []) ''down'' 6 3 ex_rag = Inr out \<and> length out \<le> 3"
proof -
  have v: "rg_versioned ex_rag" and sp: "rg_space_id ex_rag = []" "rg_dimension ex_rag = 0"
    by (simp_all add: ex_rag_def ActivateVersions_def RestoreChunks_def restore_chunk_def new_rag_def)
  have "validateSpace (rg_space_id ex_rag) 3 ex_rag = Inr ()"
    by (simp add: validateSpace_def ensure_def sp)
  then obtain out where "searchFused (Inr 3) (Inr []) ''down'' 6 3 ex_rag = Inr out"
    by (cases "searchFused (Inr 3) (Inr []) ''down'' 6 3 ex_rag") (auto simp: searchFused_def Let_def split: if_splits)
  with searchFused_sound [OF this v] show ?thesis by blast
qed

section \<open>Properties of the splitter\<close>

fun segments :: "string list \<Rightarrow> string list \<Rightarrow> string list list" where
  "segments [] cur = [cur]"
| "segments (line # lns) cur =
     (case heading_level line of (lvl, t) \<Rightarrow>
        if lvl = 2 \<and> t \<noteq> [] then cur # segments lns [line] else segments lns (cur @ [line]))"

lemma concat_segments: "concat (segments lns cur) = cur @ lns"
  by (induction lns cur rule: segments.induct) (auto split: prod.splits)

definition segment_text :: "string list \<Rightarrow> string" where
  "segment_text cur = (if cur = [] then [] else trim_space (join_with newline cur))"

lemma flush_chunk_text:
  "map mc_snippet (flush_chunk doc dt ct cur) = filter (\<lambda>t. t \<noteq> []) [segment_text cur]"
  by (simp add: flush_chunk_def segment_text_def Let_def)

lemma chunk_loop_text:
  "map mc_snippet (chunk_loop doc dt lns ct cur) = filter (\<lambda>t. t \<noteq> []) (map segment_text (segments lns cur))"
proof (induction doc dt lns ct cur rule: chunk_loop.induct)
  case (1 doc dt ct cur)
  show ?case by (simp add: flush_chunk_text del: filter.simps)
next
  case (2 doc dt line lns ct cur)
  then show ?case by (cases "heading_level line") (auto simp: flush_chunk_text)
qed

text \<open>Splitting loses no text and invents none. The lines of the document fall into consecutive
  segments, cut exactly before the second-level headings; the snippets are the trimmed texts of the
  segments, in order, without the blank ones; and a document that is not blank has at least one chunk.\<close>

theorem ChunkMarkdown_partition:
  assumes "trim_space md \<noteq> []"
  shows "ChunkMarkdown doc md \<noteq> []
    \<and> concat (segments (split_at_char (CHR 0x0A) md) []) = split_at_char (CHR 0x0A) md
    \<and> (let texts = filter (\<lambda>t. t \<noteq> []) (map segment_text (segments (split_at_char (CHR 0x0A) md) []))
       in map mc_snippet (ChunkMarkdown doc md) = (if texts = [] then [trim_space md] else texts))"
proof -
  let ?lines = "split_at_char (CHR 0x0A) md"
  let ?dt = "doc_title_of doc ?lines"
  let ?texts = "filter (\<lambda>t. t \<noteq> []) (map segment_text (segments ?lines []))"
  have t: "map mc_snippet (chunk_loop doc ?dt ?lines [] []) = ?texts" by (rule chunk_loop_text)
  then have "chunk_loop doc ?dt ?lines [] [] = [] \<longleftrightarrow> ?texts = []" by (metis list.map_disc_iff)
  with assms t show ?thesis by (auto simp: ChunkMarkdown_def Let_def concat_segments)
qed

theorem ChunkMarkdown_partition_witness:
  "map mc_snippet (ChunkMarkdown ''doc'' ''x'') = [''x'']"
proof -
  have "trim_space ''x'' = ''x''"
    by code_simp
  moreover have "segments (split_at_char (CHR 0x0A) ''x'') [] = [[''x'']]"
    by (simp add: heading_level_def \<open>trim_space ''x'' = ''x''\<close> has_prefix_def)
  ultimately show ?thesis
    using ChunkMarkdown_partition [of "''x''" "''doc''"] by (simp add: segment_text_def Let_def)
qed

end
