(* ===== verification/Knowledge.thy ===== *)
theory Knowledge
  imports Runs Rag
begin

text \<open>
  The knowledge base (\<open>src/internal/workspace/knowledge.go\<close>): publishing, deleting and re-indexing
  documents, and rebuilding the retrieval projection from SQL.

  \<open>PutDocument\<close> is a sequence of autocommitted statements and one transaction; every statement the
  code runs before an error stays, so the result carries the database next to the error. The code holds
  \<open>knowledgeMu\<close> for the whole operation: no other document operation runs in between. What the
  embedding service and the vector store answer are fields of \<open>put_env\<close>.
\<close>

record kstate =
  ks_db :: db
  ks_rag :: rag

record put_env =
  pe_ready :: bool
  pe_embed :: "string \<Rightarrow> nat ws"
  pe_upsert :: "version_chunk \<Rightarrow> ws_error option"

section \<open>The projection from SQL\<close>

text \<open>The documents whose active version is projected, in the order of \<open>Documents\<close>.\<close>

fun collect_active :: "string \<Rightarrow> db \<Rightarrow> document list \<Rightarrow> (document \<times> version) list ws" where
  "collect_active space d [] = Inr []"
| "collect_active space d (doc # docs) =
     (case (doc_deleted_at doc, doc_active_version_id doc) of
        (None, Some vid) \<Rightarrow>
          res_bind (get_version vid d) (\<lambda>v.
          res_bind (collect_active space d docs) (\<lambda>rest.
            Inr (if ver_status v = ''active'' \<and> ver_space_id v = space then (doc, v) # rest else rest)))
      | _ \<Rightarrow> collect_active space d docs)"

definition project_chunk :: "document \<Rightarrow> version \<Rightarrow> chunk \<Rightarrow> version_chunk" where
  "project_chunk doc v c = \<lparr> vc_id = chk_id c, vc_doc_id = doc_id doc, vc_version_id = ver_id v,
     vc_title = chk_title c, vc_snippet = chk_snippet c, vc_source = chk_source c,
     vc_space_id = chk_space_id c, vc_environment = doc_environment doc \<rparr>"

definition project_version :: "document \<times> version \<Rightarrow> active_version" where
  "project_version dv = \<lparr> av_doc_id = doc_id (fst dv), av_version_id = ver_id (snd dv),
     av_space_id = ver_space_id (snd dv) \<rparr>"

definition RestoreProjection :: "service \<Rightarrow> kstate \<Rightarrow> ws_error option \<times> kstate" where
  "RestoreProjection sv k =
     (case collect_active (sv_space_id sv) (ks_db k) (list_documents (ks_db k)) of
        Inl e \<Rightarrow> (Some e, k)
      | Inr dvs \<Rightarrow>
          (None, k\<lparr>ks_rag := ActivateVersions (map project_version dvs)
             (RestoreChunks (concat (map (\<lambda>(doc, v). map (project_chunk doc v) (ver_chunks v)) dvs))
               (ks_rag k))\<rparr>))"

section \<open>Publishing\<close>

definition zero_document :: document where
  "zero_document = \<lparr> doc_id = [], doc_title = [], doc_source_kind = [], doc_environment = [],
     doc_active_version_id = None, doc_deleted_at = None, doc_index_status = [] \<rparr>"

definition zero_version :: version where
  "zero_version = \<lparr> ver_id = [], ver_document_id = [], ver_content = [], ver_content_sha256 = [],
     ver_created_at = [], ver_status = [], ver_index_status = [], ver_space_id = [], ver_chunks = [] \<rparr>"

type_synonym put_result = "(ws_error option \<times> document \<times> version) \<times> kstate"

definition restored :: "service \<Rightarrow> document \<Rightarrow> version \<Rightarrow> kstate \<Rightarrow> put_result" where
  "restored sv doc v k = (case RestoreProjection sv k of (e, k') \<Rightarrow> ((e, doc, v), k'))"

definition insert_document :: "document \<Rightarrow> string \<Rightarrow> db \<Rightarrow> db ws" where
  "insert_document doc namespace d =
     ensure ((namespace, to_lower (doc_title doc)) \<notin> set (map (\<lambda>r. (dr_namespace r, dr_title r)) (t_documents d)))
       ErrConstraint
       (res_bind (res_of ErrConstraint (tins dr_id \<lparr> dr_id = doc_id doc, dr_namespace = namespace,
            dr_title = to_lower (doc_title doc), dr_data = doc \<rparr> (t_documents d)))
          (\<lambda>t. Inr (d\<lparr>t_documents := t\<rparr>)))"

definition update_version :: "version \<Rightarrow> db \<Rightarrow> db" where
  "update_version v d = d\<lparr>t_versions := tupd vr_id (ver_id v) (\<lambda>x. x\<lparr>vr_data := v\<rparr>) (t_versions d)\<rparr>"

text \<open>\<open>INSERT ... ON CONFLICT(id) DO UPDATE SET data\<close>\<close>

definition upsert_version :: "version \<Rightarrow> string \<Rightarrow> db \<Rightarrow> db" where
  "upsert_version v doc d =
     (if tget vr_id (ver_id v) (t_versions d) = None
      then d\<lparr>t_versions := t_versions d @ [\<lparr> vr_id = ver_id v, vr_document = doc,
               vr_content_hash = ver_content_sha256 v, vr_data = v \<rparr>]\<rparr>
      else update_version v d)"

definition idm_row_key :: "idempotency_row \<Rightarrow> string \<times> string" where
  "idm_row_key r = (idm_scope r, idm_key r)"

definition ignore_idempotency :: "string \<Rightarrow> string \<Rightarrow> string \<Rightarrow> string \<Rightarrow> db \<Rightarrow> db" where
  "ignore_idempotency scope key body result d =
     (if key = [] then d
      else d\<lparr>t_idempotency := tign idm_row_key \<lparr> idm_scope = scope, idm_key = key, idm_body_hash = body,
               idm_result_id = result \<rparr> (t_idempotency d)\<rparr>)"

definition replace_idempotency :: "string \<Rightarrow> string \<Rightarrow> string \<Rightarrow> string \<Rightarrow> db \<Rightarrow> db" where
  "replace_idempotency scope key body result d =
     (if key = [] then d
      else d\<lparr>t_idempotency := trep idm_row_key \<lparr> idm_scope = scope, idm_key = key, idm_body_hash = body,
               idm_result_id = result \<rparr> (t_idempotency d)\<rparr>)"

text \<open>\<open>UPDATE documents SET title=?,data=? WHERE id=?\<close> under \<open>UNIQUE(namespace,title)\<close>.\<close>

definition update_document :: "document \<Rightarrow> string \<Rightarrow> db \<Rightarrow> db ws" where
  "update_document doc title d =
     (let t' = tupd dr_id (doc_id doc) (\<lambda>x. x\<lparr>dr_title := to_lower title, dr_data := doc\<rparr>) (t_documents d)
      in ensure (tok (\<lambda>r. (dr_namespace r, dr_title r)) t') ErrConstraint (Inr (d\<lparr>t_documents := t'\<rparr>)))"

definition save_document :: "document \<Rightarrow> db \<Rightarrow> db" where
  "save_document doc d = d\<lparr>t_documents := tupd dr_id (doc_id doc) (\<lambda>x. x\<lparr>dr_data := doc\<rparr>) (t_documents d)\<rparr>"

definition add_chunk :: "string \<Rightarrow> chunk \<Rightarrow> db \<Rightarrow> db" where
  "add_chunk vid c d = d\<lparr>t_chunks := tign kr_id \<lparr> kr_id = chk_id c, kr_version = vid, kr_data = c \<rparr> (t_chunks d)\<rparr>"

definition sql_chunk :: "string \<Rightarrow> string \<Rightarrow> string \<Rightarrow> string \<Rightarrow> string \<Rightarrow> version_chunk \<Rightarrow> chunk" where
  "sql_chunk vid i title source space c =
     \<lparr> chk_id = vc_id c, chk_version_id = vid, chk_document_id = i, chk_title = title,
       chk_snippet = vc_snippet c, chk_source = source, chk_space_id = space \<rparr>"

text \<open>The transaction that activates a version: the old one is superseded, the new one active, and the
  document points to it.\<close>

definition activated :: "version \<Rightarrow> version" where
  "activated v = v\<lparr>ver_status := ''active'', ver_index_status := ''indexed''\<rparr>"

definition pointed :: "document \<Rightarrow> string \<Rightarrow> string \<Rightarrow> string \<Rightarrow> document" where
  "pointed doc vid title environment =
     doc\<lparr>doc_active_version_id := Some vid, doc_deleted_at := None, doc_index_status := ''indexed'',
         doc_title := title, doc_environment := environment\<rparr>"

definition supersede :: "document \<Rightarrow> db \<Rightarrow> db ws" where
  "supersede doc d =
     (case doc_active_version_id doc of
        None \<Rightarrow> Inr d
      | Some old \<Rightarrow> res_bind (get_version old d) (\<lambda>v. Inr (update_version (v\<lparr>ver_status := ''superseded''\<rparr>) d)))"

definition publish :: "document \<Rightarrow> version \<Rightarrow> string \<Rightarrow> string \<Rightarrow> string \<Rightarrow> string \<Rightarrow> string \<Rightarrow> db \<Rightarrow> db ws" where
  "publish doc v title environment scope key body d =
     res_bind (supersede doc d) (\<lambda>d.
     res_bind (update_document (pointed doc (ver_id v) title environment) title (update_version (activated v) d)) (\<lambda>d.
       Inr (replace_idempotency scope key body (ver_id v) (fold (add_chunk (ver_id v)) (ver_chunks v) d))))"

definition version_key :: "string \<Rightarrow> string \<Rightarrow> string \<Rightarrow> string \<Rightarrow> string \<Rightarrow> string" where
  "version_key i content title environment space =
     stableID ''ver_'' (i @ '':'' @ hash content @ '':'' @ hash (json_strings [title, environment]) @ '':'' @ space)"

text \<open>The version to stage: a new one, or the earlier version of the same content back to staging.\<close>

definition staged :: "service \<Rightarrow> string \<Rightarrow> string \<Rightarrow> string \<Rightarrow> time \<Rightarrow> db \<Rightarrow> version" where
  "staged sv i vid content now d =
     (case tget vr_id vid (t_versions d) of
        Some x \<Rightarrow> (vr_data x)\<lparr>ver_status := ''staging'', ver_index_status := ''pending''\<rparr>
      | None \<Rightarrow> \<lparr> ver_id = vid, ver_document_id = i, ver_content = content, ver_content_sha256 = hash content,
                  ver_created_at = fmt_nano now, ver_status = ''staging'', ver_index_status = ''pending'',
                  ver_space_id = sv_space_id sv, ver_chunks = [] \<rparr>)"

definition stage_and_publish :: "service \<Rightarrow> put_env \<Rightarrow> document \<Rightarrow> string \<Rightarrow> string \<Rightarrow> string \<Rightarrow> string \<Rightarrow> string \<Rightarrow>
    string \<Rightarrow> string \<Rightarrow> string \<Rightarrow> time \<Rightarrow> kstate \<Rightarrow> put_result" where
  "stage_and_publish sv env doc i title content source environment scope key body now k =
     (let vid = version_key i content title environment (sv_space_id sv);
          v = staged sv i vid content now (ks_db k);
          d1 = ignore_idempotency scope key body vid (upsert_version v i (ks_db k));
          k1 = k\<lparr>ks_db := d1\<rparr>
      in if \<not> pe_ready env then ((Some ErrUnavailable, doc, v), k1)
         else case IndexVersion (pe_embed env) (pe_upsert env) i vid title content source (sv_space_id sv) (ks_rag k) of
           Inl e \<Rightarrow>
             (let v' = v\<lparr>ver_index_status := ''failed''\<rparr>
              in ((Some (ErrMsg ''index unavailable''), doc, v'), k\<lparr>ks_db := update_version v' d1\<rparr>))
         | Inr (cs, rg) \<Rightarrow>
             (let v' = v\<lparr>ver_chunks := map (sql_chunk vid i title source (sv_space_id sv)) cs\<rparr>;
                  k2 = k1\<lparr>ks_rag := rg\<rparr>
              in case publish doc v' title environment scope key body d1 of
                   Inl e \<Rightarrow> ((Some e, doc, v'), k2)
                 | Inr d2 \<Rightarrow> restored sv (pointed doc vid title environment) (activated v') (k2\<lparr>ks_db := d2\<rparr>)))"

text \<open>The document to publish into: found or created, after the compare-and-swap checks.\<close>

definition with_doc :: "document \<Rightarrow> 'a ws \<Rightarrow> (ws_error \<times> document, 'a) res" where
  "with_doc doc m = (case m of Inl e \<Rightarrow> Inl (e, doc) | Inr x \<Rightarrow> Inr x)"

definition create_document :: "string \<Rightarrow> string \<Rightarrow> string \<Rightarrow> string \<Rightarrow> document" where
  "create_document i title source environment =
     \<lparr> doc_id = i, doc_title = title, doc_source_kind = source, doc_environment = environment,
       doc_active_version_id = None, doc_deleted_at = None, doc_index_status = ''pending'' \<rparr>"

definition same_publication :: "document \<Rightarrow> version \<Rightarrow> string \<Rightarrow> string \<Rightarrow> string \<Rightarrow> string \<Rightarrow> bool" where
  "same_publication doc old title content source environment \<longleftrightarrow> ver_content_sha256 old = hash content
     \<and> doc_title doc = title \<and> doc_source_kind doc = source \<and> doc_environment doc = environment"

definition target_document :: "string \<Rightarrow> string \<Rightarrow> string \<Rightarrow> string \<Rightarrow> string \<Rightarrow> string \<Rightarrow> string \<Rightarrow> db \<Rightarrow>
    (ws_error \<times> document, document \<times> db) res" where
  "target_document i title content source environment expected namespace d =
     (case tget dr_id i (t_documents d) of
        None \<Rightarrow>
          if expected \<noteq> [] then Inl (ErrConflict, zero_document)
          else let doc = create_document i title source environment
               in with_doc doc (res_bind (insert_document doc namespace d) (\<lambda>d. Inr (doc, d)))
      | Some x \<Rightarrow>
          (let doc = dr_data x in
           with_doc doc
             (ensure (doc_source_kind doc = source
                      \<and> (expected = [] \<or> doc_active_version_id doc = Some expected)) ErrConflict
               (case doc_active_version_id doc of
                  None \<Rightarrow> Inr (doc, d)
                | Some vid \<Rightarrow>
                    if expected \<noteq> [] then Inr (doc, d)
                    else res_bind (get_version vid d) (\<lambda>old.
                      ensure (same_publication doc old title content source environment) ErrConflict
                        (Inr (doc, d)))))))"

definition unchanged_version :: "document \<Rightarrow> string \<Rightarrow> string \<Rightarrow> string \<Rightarrow> db \<Rightarrow> version option ws" where
  "unchanged_version doc title content environment d =
     (case doc_active_version_id doc of
        None \<Rightarrow> Inr None
      | Some vid \<Rightarrow>
          res_bind (get_version vid d) (\<lambda>old.
            Inr (if ver_content_sha256 old = hash content \<and> doc_deleted_at doc = None
                    \<and> doc_title doc = title \<and> doc_environment doc = environment
                 then Some old else None)))"

text \<open>The answer to a repeated request: \<open>None\<close> when the request has to be carried out.\<close>

definition repeated_put :: "string \<Rightarrow> string \<Rightarrow> string \<Rightarrow> string \<Rightarrow> db \<Rightarrow>
    ((ws_error \<times> document \<times> version) + (document \<times> version)) option" where
  "repeated_put scope key body i d =
     (if key = [] then None
      else case get_idempotency scope key d of
        None \<Rightarrow> None
      | Some row \<Rightarrow>
          if idm_body_hash row \<noteq> body then Some (Inl (ErrConflict, zero_document, zero_version))
          else (case get_document i d of
                  Inl e \<Rightarrow> Some (Inl (e, zero_document, zero_version))
                | Inr doc \<Rightarrow>
                    (case get_version (idm_result_id row) d of
                       Inl e \<Rightarrow> Some (Inl (e, doc, zero_version))
                     | Inr v \<Rightarrow>
                         if (ver_status v = ''active'' \<or> ver_status v = ''superseded'') \<and> ver_index_status v = ''indexed''
                         then Some (Inr (doc, v)) else None)))"

definition PutDocument :: "service \<Rightarrow> put_env \<Rightarrow> string \<Rightarrow> string \<Rightarrow> string \<Rightarrow> string \<Rightarrow> string \<Rightarrow> string \<Rightarrow> string \<Rightarrow>
    time \<Rightarrow> kstate \<Rightarrow> put_result" where
  "PutDocument sv env id0 title0 content source environment0 expected key now k =
     (let title = trim_space title0;
          environment = or_else environment0 ''unknown'';
          namespace = ''local:'' @ source;
          i = (if id0 = [] then stableID ''doc_'' (namespace @ '':'' @ to_lower title) else id0);
          body = hash (json_strings [i, title, content, source, environment]);
          scope = (if id0 = [] then ''document:create'' else ''document:'' @ i);
          fail = (\<lambda>e. ((Some e, zero_document, zero_version), k))
      in if title = [] \<or> length title > 512 \<or> trim_space content = [] \<or> length content > 512 * 1024
         then fail (ErrMsg ''title/content invalid or exceeds 512KiB'')
         else if source \<noteq> ''upload'' \<and> source \<noteq> ''demo'' then fail (ErrMsg ''invalid source_kind'')
         else case repeated_put scope key body i (ks_db k) of
           Some (Inl (e, doc, v)) \<Rightarrow> ((Some e, doc, v), k)
         | Some (Inr (doc, v)) \<Rightarrow> restored sv doc v k
         | None \<Rightarrow>
             (case target_document i title content source environment expected namespace (ks_db k) of
                Inl (e, doc) \<Rightarrow> ((Some e, doc, zero_version), k)
              | Inr (doc, d) \<Rightarrow>
                  (let k1 = k\<lparr>ks_db := d\<rparr> in
                   case unchanged_version doc title content environment d of
                     Inl e \<Rightarrow> ((Some e, doc, zero_version), k1)
                   | Inr (Some old) \<Rightarrow>
                       restored sv doc old (k\<lparr>ks_db := ignore_idempotency scope key body (ver_id old) d\<rparr>)
                   | Inr None \<Rightarrow>
                       stage_and_publish sv env doc i title content source environment scope key body now k1)))"

section \<open>Deleting\<close>

definition cleanup_key :: "string \<Rightarrow> string \<Rightarrow> string \<Rightarrow> string" where
  "cleanup_key i expected stamp = stableID ''cleanup_'' (i @ '':'' @ expected @ '':'' @ stamp)"

definition cleanup_outbox :: "string \<Rightarrow> string \<Rightarrow> time \<Rightarrow> outbox_row" where
  "cleanup_outbox i expected now =
     \<lparr> ob_id = cleanup_key i expected (fmt_nano now), ob_kind = ''cleanup'',
       ob_dedupe_key = cleanup_key i expected (fmt_nano now), ob_payload = PCleanup i expected,
       ob_state = ''pending'', ob_attempts = 0, ob_next_at = fmt_nano now, ob_last_error = None \<rparr>"

definition delete_tx :: "string \<Rightarrow> string \<Rightarrow> time \<Rightarrow> db \<Rightarrow> (document \<times> db) ws" where
  "delete_tx i expected now d =
     res_bind (get_document i d) (\<lambda>doc.
       ensure (expected \<noteq> [] \<and> doc_active_version_id doc = Some expected) ErrConflict
         (let doc' = doc\<lparr>doc_deleted_at := Some (fmt_nano now), doc_index_status := ''cleanup_pending''\<rparr>
          in res_bind (insert_outbox (cleanup_outbox i expected now)
                (d\<lparr>t_documents := tupd dr_id i (\<lambda>x. x\<lparr>dr_data := doc'\<rparr>) (t_documents d)\<rparr>))
               (\<lambda>d. Inr (doc', d))))"

definition DeleteDocument :: "service \<Rightarrow> string \<Rightarrow> string \<Rightarrow> time \<Rightarrow> kstate \<Rightarrow> (ws_error option \<times> document) \<times> kstate" where
  "DeleteDocument sv i expected now k =
     (case delete_tx i expected now (ks_db k) of
        Inl e \<Rightarrow> ((Some e, (case get_document i (ks_db k) of Inl _ \<Rightarrow> zero_document | Inr doc \<Rightarrow> doc)), k)
      | Inr (doc, d) \<Rightarrow>
          (case RestoreProjection sv (k\<lparr>ks_db := d\<rparr>) of (e, k') \<Rightarrow> ((e, doc), k')))"

text \<open>The cleanup job. \<open>del\<close> is the outcome of dropping the version from the vector store,
  \<open>None\<close> for no RAG at all.\<close>

definition still_active :: "document \<Rightarrow> string \<Rightarrow> bool" where
  "still_active doc vid \<longleftrightarrow> doc_deleted_at doc = None \<and> doc_active_version_id doc = Some vid"

definition mark_sent :: "string \<Rightarrow> db \<Rightarrow> db" where
  "mark_sent i d = d\<lparr>t_outbox := tupd ob_id i
     (\<lambda>x. x\<lparr>ob_state := ''sent'', ob_attempts := ob_attempts x + 1, ob_last_error := None\<rparr>) (t_outbox d)\<rparr>"

definition cleanup_payload :: "payload \<Rightarrow> string \<times> string" where
  "cleanup_payload p = (case p of PCleanup a b \<Rightarrow> (a, b) | _ \<Rightarrow> ([], []))"

definition dispatchCleanup :: "ws_error option option \<Rightarrow> string \<Rightarrow> payload \<Rightarrow> kstate \<Rightarrow> kstate ws" where
  "dispatchCleanup del oid p k =
     (case cleanup_payload p of (i, vid) \<Rightarrow>
      ensure (i \<noteq> [] \<and> vid \<noteq> []) (ErrMsg ''invalid cleanup payload'')
      (res_bind (get_document i (ks_db k)) (\<lambda>doc.
         if still_active doc vid then Inr (k\<lparr>ks_db := mark_sent oid (ks_db k)\<rparr>)
         else (case del of
                 None \<Rightarrow> Inl ErrUnavailable
               | Some (Some e) \<Rightarrow> Inl e
               | Some None \<Rightarrow>
                   (let d1 = (if doc_deleted_at doc \<noteq> None \<and> doc_active_version_id doc = Some vid
                              then save_document (doc\<lparr>doc_index_status := ''removed''\<rparr>) (ks_db k)
                              else ks_db k)
                    in Inr (k\<lparr>ks_db := mark_sent oid d1, ks_rag := DeleteVersion vid (ks_rag k)\<rparr>))))))"

section \<open>Re-indexing the demo documents\<close>

definition trim_suffix :: "string \<Rightarrow> string \<Rightarrow> string" where
  "trim_suffix s p = (if has_suffix s p then take (length s - length p) s else s)"

definition md_title :: "string \<Rightarrow> string \<Rightarrow> string" where
  "md_title name content =
     (case find (\<lambda>l. has_prefix l ''# '') (split_at_char (CHR 0x0A) content) of
        Some l \<Rightarrow> trim_space (drop 2 l)
      | None \<Rightarrow> trim_suffix name ''.md'')"

definition reindex_file :: "service \<Rightarrow> put_env \<Rightarrow> time \<Rightarrow> string \<Rightarrow> string \<Rightarrow> kstate \<Rightarrow> put_result" where
  "reindex_file sv env now name content k =
     (let title = md_title name content;
          i = stableID ''doc_'' (''local:demo:'' @ to_lower title);
          expected = (case get_document i (ks_db k) of
                        Inl _ \<Rightarrow> []
                      | Inr doc \<Rightarrow> (case doc_active_version_id doc of None \<Rightarrow> [] | Some v \<Rightarrow> v))
      in PutDocument sv env i title content ''demo'' ''unknown'' expected [] now k)"

text \<open>A directory entry: its name, whether it is a directory, and what reading it gives. \<open>ctx\<close> tells whether the
  context has ended when an entry is reached.\<close>

type_synonym dir_entry = "string \<times> bool \<times> string ws"

fun reindex_files :: "service \<Rightarrow> put_env \<Rightarrow> (string \<Rightarrow> ws_error option) \<Rightarrow> time \<Rightarrow> dir_entry list \<Rightarrow> nat \<Rightarrow> string list \<Rightarrow>
    kstate \<Rightarrow> (ws_error option \<times> nat \<times> string list) \<times> kstate" where
  "reindex_files sv env ctx now [] count seen k = ((None, count, seen), k)"
| "reindex_files sv env ctx now ((name, is_dir, content) # es) count seen k =
     (if ctx name \<noteq> None then ((ctx name, count, seen), k)
      else if is_dir \<or> \<not> has_suffix name ''.md'' then reindex_files sv env ctx now es count seen k
      else case content of
        Inl e \<Rightarrow> ((Some e, count, seen), k)
      | Inr b \<Rightarrow>
          (case reindex_file sv env now name b k of
             ((Some e, _, _), k') \<Rightarrow> ((Some e, count, seen), k')
           | ((None, doc, _), k') \<Rightarrow> reindex_files sv env ctx now es (count + 1) (doc_id doc # seen) k'))"

fun drop_unseen :: "service \<Rightarrow> time \<Rightarrow> string list \<Rightarrow> document list \<Rightarrow> kstate \<Rightarrow> ws_error option \<times> kstate" where
  "drop_unseen sv now seen [] k = (None, k)"
| "drop_unseen sv now seen (doc # docs) k =
     (case (doc_source_kind doc = ''demo'' \<and> doc_deleted_at doc = None \<and> doc_id doc \<notin> set seen,
            doc_active_version_id doc) of
        (True, Some vid) \<Rightarrow>
          (case DeleteDocument sv (doc_id doc) vid now k of
             ((Some e, _), k') \<Rightarrow> (Some e, k')
           | ((None, _), k') \<Rightarrow> drop_unseen sv now seen docs k')
      | _ \<Rightarrow> drop_unseen sv now seen docs k)"

definition ReindexDemo :: "service \<Rightarrow> put_env \<Rightarrow> (string \<Rightarrow> ws_error option) \<Rightarrow> time \<Rightarrow> dir_entry list ws \<Rightarrow> kstate \<Rightarrow>
    (nat \<times> ws_error option) \<times> kstate" where
  "ReindexDemo sv env ctx now dir k =
     (case dir of
        Inl e \<Rightarrow> ((0, Some e), k)
      | Inr entries \<Rightarrow>
          (case reindex_files sv env ctx now entries 0 [] k of
             ((Some e, count, _), k') \<Rightarrow> ((count, Some e), k')
           | ((None, count, seen), k') \<Rightarrow>
               (case drop_unseen sv now seen (list_documents (ks_db k')) k' of
                  (e, k'') \<Rightarrow> ((count, e), k''))))"

section \<open>Well-formed knowledge\<close>

definition versions_agree :: "db \<Rightarrow> bool" where
  "versions_agree d \<longleftrightarrow> tok vr_id (t_versions d) \<and> list_all (\<lambda>x. ver_id (vr_data x) = vr_id x) (t_versions d)"

definition documents_agree :: "db \<Rightarrow> bool" where
  "documents_agree d \<longleftrightarrow> tok dr_id (t_documents d)
     \<and> tok (\<lambda>r. (dr_namespace r, dr_title r)) (t_documents d)
     \<and> list_all (\<lambda>x. doc_id (dr_data x) = dr_id x) (t_documents d)"

text \<open>Every active version is the one its document points to, so a document has at most one; and the
  version a document points to exists.\<close>

definition pointers_ok :: "db \<Rightarrow> bool" where
  "pointers_ok d \<longleftrightarrow>
     list_all (\<lambda>x. ver_status (vr_data x) = ''active'' \<longrightarrow>
       list_ex (\<lambda>y. doc_active_version_id (dr_data y) = Some (vr_id x)) (t_documents d)) (t_versions d)
     \<and> list_all (\<lambda>y. set_option (doc_active_version_id (dr_data y)) \<subseteq> set (map vr_id (t_versions d)))
          (t_documents d)"

definition knowledge_ok :: "db \<Rightarrow> bool" where
  "knowledge_ok d \<longleftrightarrow> versions_agree d \<and> documents_agree d \<and> pointers_ok d"

lemma knowledge_ok_cong:
  "t_documents d' = t_documents d \<Longrightarrow> t_versions d' = t_versions d \<Longrightarrow> knowledge_ok d' = knowledge_ok d"
  by (simp add: knowledge_ok_def versions_agree_def documents_agree_def pointers_ok_def)

lemma knowledge_ok_empty: "knowledge_ok empty_db"
  by (simp add: knowledge_ok_def versions_agree_def documents_agree_def pointers_ok_def empty_db_def tok_def)

lemma idempotency_docs [simp]:
  "t_documents (ignore_idempotency a b c e d) = t_documents d" "t_versions (ignore_idempotency a b c e d) = t_versions d"
  "t_documents (replace_idempotency a b c e d) = t_documents d" "t_versions (replace_idempotency a b c e d) = t_versions d"
  "t_chunks (ignore_idempotency a b c e d) = t_chunks d" "t_chunks (replace_idempotency a b c e d) = t_chunks d"
  by (simp_all add: ignore_idempotency_def replace_idempotency_def)

lemma get_version_ok:
  assumes "versions_agree d" and "get_version vid d = Inr v"
  shows "ver_id v = vid"
  using assms tget_SomeD [of vr_id vid "t_versions d"]
  by (auto simp: get_version_Inr versions_agree_def list_all_iff)

lemma get_document_ok:
  assumes "documents_agree d" and "get_document i d = Inr doc"
  shows "doc_id doc = i"
  using assms tget_SomeD [of dr_id i "t_documents d"]
  by (auto simp: get_document_Inr documents_agree_def list_all_iff)

lemma update_version_other [simp]:
  "t_documents (update_version v d) = t_documents d" "t_chunks (update_version v d) = t_chunks d"
  "map vr_id (t_versions (update_version v d)) = map vr_id (t_versions d)"
  by (simp_all add: update_version_def map_tupd_other)

lemma update_version_rows:
  "set (t_versions (update_version v d)) = (\<lambda>x. if vr_id x = ver_id v then x\<lparr>vr_data := v\<rparr> else x) ` set (t_versions d)"
  by (simp add: update_version_def lt.upd_rows)

lemma versions_agree_update: "versions_agree d \<Longrightarrow> versions_agree (update_version v d)"
  by (auto simp: versions_agree_def tok_def list_all_iff update_version_rows)

lemma tget_update_version:
  "versions_agree d \<Longrightarrow> tget vr_id i (t_versions (update_version v d)) =
    (if i = ver_id v then map_option (\<lambda>x. x\<lparr>vr_data := v\<rparr>) (tget vr_id i (t_versions d)) else tget vr_id i (t_versions d))"
  by (simp add: update_version_def versions_agree_def lt.get_upd)

lemma has_version_keys: "tget vr_id i t \<noteq> None \<longleftrightarrow> i \<in> set (map vr_id t)"
  by (simp add: tget_None_iff)

lemma pointers_ok_update_version:
  assumes "pointers_ok d" and "ver_status v = ''active'' \<longrightarrow>
     list_ex (\<lambda>y. doc_active_version_id (dr_data y) = Some (ver_id v)) (t_documents d)"
  shows "pointers_ok (update_version v d)"
  using assms unfolding pointers_ok_def list_all_iff update_version_rows update_version_other by auto

lemma knowledge_ok_update_version:
  assumes "knowledge_ok d" and "ver_status v \<noteq> ''active''"
  shows "knowledge_ok (update_version v d)"
  using assms pointers_ok_update_version [of d v] versions_agree_update
  by (simp add: knowledge_ok_def documents_agree_def)

lemma knowledge_ok_upsert_version:
  assumes "knowledge_ok d" and "ver_status v \<noteq> ''active''"
  shows "knowledge_ok (upsert_version v doc d)"
proof (cases "tget vr_id (ver_id v) (t_versions d)")
  case None
  then have "ver_id v \<notin> set (map vr_id (t_versions d))" by (simp add: tget_None_iff)
  with None assms show ?thesis
    by (auto simp: upsert_version_def knowledge_ok_def versions_agree_def documents_agree_def pointers_ok_def
        tok_def list_all_iff)
next
  case (Some x)
  with knowledge_ok_update_version [OF assms] show ?thesis by (simp add: upsert_version_def)
qed

lemma upsert_version_other [simp]: "t_documents (upsert_version v doc d) = t_documents d"
  "t_chunks (upsert_version v doc d) = t_chunks d"
  by (simp_all add: upsert_version_def)

lemma upsert_version_present: "tget vr_id (ver_id v) (t_versions (upsert_version v doc d)) \<noteq> None"
  by (auto simp: upsert_version_def tget_None_iff simp flip: set_map)

lemma insert_document_Inr:
  "insert_document doc namespace d = Inr d' \<longleftrightarrow>
     (namespace, to_lower (doc_title doc)) \<notin> set (map (\<lambda>r. (dr_namespace r, dr_title r)) (t_documents d))
     \<and> doc_id doc \<notin> set (map dr_id (t_documents d))
     \<and> d' = d\<lparr>t_documents := t_documents d @ [\<lparr> dr_id = doc_id doc, dr_namespace = namespace,
            dr_title = to_lower (doc_title doc), dr_data = doc \<rparr>]\<rparr>"
  by (auto simp: insert_document_def res_bind_eq_Inr tins_Some)

lemma with_doc_Inr [simp]: "with_doc doc m = Inr x \<longleftrightarrow> m = Inr x"
  by (cases m) (simp_all add: with_doc_def)

text \<open>The target is the current row of the document, and only a fresh document may have been added.\<close>

lemma target_document_effect:
  assumes "target_document i title content source environment expected namespace d = Inr (doc, d')"
    and ok: "knowledge_ok d"
  shows "knowledge_ok d' \<and> get_document i d' = Inr doc \<and> d' = d\<lparr>t_documents := t_documents d'\<rparr>
    \<and> (d' = d \<or> (get_document i d = Inl ErrNoRows \<and> doc_active_version_id doc = None))"
proof (cases "tget dr_id i (t_documents d)")
  case None
  let ?doc = "create_document i title source environment"
  from assms(1) None have doc: "doc = ?doc" and ins: "insert_document ?doc namespace d = Inr d'"
    by (auto simp: target_document_def Let_def res_bind_eq_Inr split: if_splits)
  have id: "doc_id ?doc = i" and act: "doc_active_version_id ?doc = None" by (simp_all add: create_document_def)
  have "get_document i d' = Inr ?doc"
    using ins None id by (auto simp: insert_document_Inr get_document_def tget_def find_append)
  moreover have "knowledge_ok d'"
    using ins ok act by (auto simp: insert_document_Inr knowledge_ok_def versions_agree_def documents_agree_def
        pointers_ok_def tok_def list_all_iff)
  ultimately show ?thesis using ins None doc act by (auto simp: insert_document_Inr get_document_def)
next
  case (Some x)
  with assms(1) have "doc = dr_data x \<and> d' = d"
    by (auto simp: target_document_def Let_def res_bind_eq_Inr split: option.splits if_splits)
  with Some ok show ?thesis by (simp add: get_document_def)
qed

lemma supersede_effect:
  assumes "supersede doc d = Inr d'" and ok: "knowledge_ok d"
  shows "versions_agree d' \<and> t_documents d' = t_documents d \<and> t_chunks d' = t_chunks d
    \<and> map vr_id (t_versions d') = map vr_id (t_versions d)
    \<and> (\<forall>x \<in> set (t_versions d'). ver_status (vr_data x) = ''active'' \<longrightarrow>
         x \<in> set (t_versions d) \<and> doc_active_version_id doc \<noteq> Some (vr_id x))"
proof (cases "doc_active_version_id doc")
  case None
  with assms show ?thesis by (auto simp: supersede_def knowledge_ok_def)
next
  case (Some old)
  with assms(1) obtain v where v: "get_version old d = Inr v"
    and d': "d' = update_version (v\<lparr>ver_status := ''superseded''\<rparr>) d"
    by (auto simp: supersede_def res_bind_eq_Inr)
  define w where "w = v\<lparr>ver_status := ''superseded''\<rparr>"
  have w: "ver_id w = old" "ver_status w = ''superseded''"
    using get_version_ok v ok by (auto simp: knowledge_ok_def w_def)
  have rows: "x \<in> set (t_versions d) \<and> vr_id x \<noteq> old"
    if "x \<in> set (t_versions (update_version w d))" "ver_status (vr_data x) = ''active''" for x
    using that w unfolding update_version_rows by (auto split: if_splits)
  have "versions_agree (update_version w d)" using ok versions_agree_update by (simp add: knowledge_ok_def)
  with rows Some show ?thesis by (auto simp: d' simp flip: w_def)
qed

lemma fold_add_chunk_other [simp]:
  "t_documents (fold (add_chunk vid) cs d) = t_documents d"
  "t_versions (fold (add_chunk vid) cs d) = t_versions d"
  by (induction cs arbitrary: d) (simp_all add: add_chunk_def)

lemma fold_add_chunk_present:
  "c \<in> set cs \<Longrightarrow> tget kr_id (chk_id c) (t_chunks (fold (add_chunk vid) cs d)) \<noteq> None"
proof (induction cs arbitrary: d)
  case (Cons c' cs)
  have keep: "tget kr_id i (t_chunks d) \<noteq> None \<Longrightarrow> tget kr_id i (t_chunks (fold (add_chunk vid) cs d)) \<noteq> None"
    for i cs d
    by (induction cs arbitrary: d) (auto simp: add_chunk_def tget_None_iff tign_def)
  show ?case
  proof (cases "c = c'")
    case True
    have "tget kr_id (chk_id c') (t_chunks (add_chunk vid c' d)) \<noteq> None"
      by (auto simp: add_chunk_def tget_None_iff tign_def)
    with True keep show ?thesis by simp
  next
    case False
    with Cons show ?thesis by simp
  qed
qed simp

lemma publish_effect:
  assumes pub: "publish doc v title environment scope key body d = Inr d'"
    and ok: "knowledge_ok d" and get: "get_document i d = Inr doc"
    and has: "tget vr_id (ver_id v) (t_versions d) \<noteq> None"
  shows "knowledge_ok d' \<and> get_document i d' = Inr (pointed doc (ver_id v) title environment)
    \<and> get_version (ver_id v) d' = Inr (activated v)
    \<and> (\<forall>c \<in> set (ver_chunks v). tget kr_id (chk_id c) (t_chunks d') \<noteq> None)"
proof -
  from pub obtain d1 d2 where sup: "supersede doc d = Inr d1"
    and upd: "update_document (pointed doc (ver_id v) title environment) title (update_version (activated v) d1) = Inr d2"
    and d': "d' = replace_idempotency scope key body (ver_id v) (fold (add_chunk (ver_id v)) (ver_chunks v) d2)"
    by (auto simp: publish_def res_bind_eq_Inr)
  note s = supersede_effect [OF sup ok]
  define doc' where "doc' = pointed doc (ver_id v) title environment"
  define f where "f x = (if dr_id x = i then x\<lparr>dr_title := to_lower title, dr_data := doc'\<rparr> else x)" for x :: document_row
  have id: "doc_id doc = i" using get_document_ok get ok by (auto simp: knowledge_ok_def)
  have id': "doc_id doc' = i" by (simp add: doc'_def pointed_def id)
  have docs: "t_documents d2 = map f (t_documents d)" and vers: "t_versions d2 = t_versions (update_version (activated v) d1)"
    and uniq: "tok (\<lambda>r. (dr_namespace r, dr_title r)) (t_documents d2)" and ch: "t_chunks d2 = t_chunks d"
    using upd s by (auto simp: update_document_def Let_def tupd_def f_def doc'_def [symmetric] id')
  have fid: "dr_id (f x) = dr_id x" for x by (simp add: f_def)
  have vagree: "versions_agree d2" using s versions_agree_update [of d1 "activated v"] vers by (simp add: versions_agree_def)
  have keys: "map vr_id (t_versions d2) = map vr_id (t_versions d)" using s vers by simp
  have dagree: "documents_agree d2"
    using ok uniq id' by (auto simp: knowledge_ok_def documents_agree_def docs tok_def comp_def fid list_all_iff)
      (auto simp: f_def)
  from get obtain x0 where x0: "x0 \<in> set (t_documents d)" "dr_id x0 = i" "dr_data x0 = doc"
    by (auto simp: get_document_Inr dest: tget_SomeD)
  have only: "dr_data y = doc" if "y \<in> set (t_documents d)" "dr_id y = i" for y
  proof -
    have "tget dr_id (dr_id y) (t_documents d) = Some y"
      using ok that(1) by (intro lt.get_unique) (simp_all add: knowledge_ok_def documents_agree_def)
    with get that(2) show ?thesis by (auto simp: get_document_Inr)
  qed
  have "\<exists>y \<in> set (t_documents d2). doc_active_version_id (dr_data y) = Some (vr_id x)"
    if x: "x \<in> set (t_versions d2)" "ver_status (vr_data x) = ''active''" for x
  proof (cases "vr_id x = ver_id v")
    case True
    have "f x0 \<in> set (t_documents d2)" using x0(1) by (simp add: docs)
    moreover have "doc_active_version_id (dr_data (f x0)) = Some (vr_id x)"
      using True x0 by (simp add: f_def doc'_def pointed_def)
    ultimately show ?thesis by blast
  next
    case False
    then have "x \<in> set (t_versions d1)" using x(1) by (auto simp: vers update_version_rows activated_def)
    then have "x \<in> set (t_versions d)" "doc_active_version_id doc \<noteq> Some (vr_id x)" using s x(2) by auto
    then obtain y where y: "y \<in> set (t_documents d)" "doc_active_version_id (dr_data y) = Some (vr_id x)"
      using ok x(2) by (auto simp: knowledge_ok_def pointers_ok_def list_all_iff list_ex_iff)
    then have "dr_id y \<noteq> i" using only \<open>doc_active_version_id doc \<noteq> Some (vr_id x)\<close> by auto
    with y have "f y = y" and "f y \<in> set (t_documents d2)" by (simp_all add: f_def docs)
    with y(2) show ?thesis by auto
  qed
  moreover have "set_option (doc_active_version_id (dr_data y)) \<subseteq> set (map vr_id (t_versions d2))"
    if "y \<in> set (t_documents d2)" for y
  proof -
    from that obtain x where x: "x \<in> set (t_documents d)" "y = f x" by (auto simp: docs)
    have "ver_id v \<in> set (map vr_id (t_versions d))" using has by (simp add: tget_None_iff)
    moreover have "set_option (doc_active_version_id (dr_data x)) \<subseteq> set (map vr_id (t_versions d))"
      using ok x(1) by (simp add: knowledge_ok_def pointers_ok_def list_all_iff)
    ultimately show ?thesis
      unfolding keys x(2) by (simp add: f_def doc'_def pointed_def del: set_map)
  qed
  ultimately have "pointers_ok d2" by (auto simp: pointers_ok_def list_all_iff list_ex_iff)
  with vagree dagree have k2: "knowledge_ok d2" by (simp add: knowledge_ok_def)
  have "tget dr_id i (t_documents d2) = Some (f x0)"
    using dagree x0(1,2) lt.get_unique [of dr_id "t_documents d2" "f x0"]
    by (simp add: documents_agree_def docs fid)
  then have "get_document i d2 = Inr doc'" using x0(2) by (simp add: get_document_def f_def)
  moreover have "get_version (ver_id v) d2 = Inr (activated v)"
    using s has tget_update_version [of d1 "ver_id v" "activated v"]
    by (cases "tget vr_id (ver_id v) (t_versions d1)")
       (auto simp: get_version_def vers activated_def tget_None_iff simp flip: set_map)
  ultimately show ?thesis
    using k2 knowledge_ok_cong [of d' d2] fold_add_chunk_present
    by (auto simp: d' doc'_def get_document_def get_version_def)
qed

section \<open>The projection is the active part of SQL\<close>

text \<open>The contract between the fact store and the retrieval projection: a restore never fails on
  well-formed facts, leaves them alone, and afterwards the view of the projection is the view of the
  facts.\<close>

locale fact_projection =
  fixes facts :: "'k \<Rightarrow> 'd"
    and ok :: "'d \<Rightarrow> bool"
    and restore :: "'k \<Rightarrow> 'e option \<times> 'k"
    and view :: "'k \<Rightarrow> 'i \<Rightarrow> 'v option"
    and spec :: "'d \<Rightarrow> 'i \<Rightarrow> 'v option"
  assumes restore_total: "ok (facts k) \<Longrightarrow> fst (restore k) = None"
    and restore_facts: "facts (snd (restore k)) = facts k"
    and restore_view: "ok (facts k) \<Longrightarrow> view (snd (restore k)) = spec (facts k)"
begin

text \<open>What a client may conclude: the restored view depends on the facts alone, restoring again changes
  nothing in it, and an entity the facts hide is hidden.\<close>

lemma restore_idem: "ok (facts k) \<Longrightarrow> view (snd (restore (snd (restore k)))) = view (snd (restore k))"
  by (simp add: restore_view restore_facts)

lemma restore_determined: "ok (facts k) \<Longrightarrow> facts k = facts k' \<Longrightarrow> view (snd (restore k)) = view (snd (restore k'))"
  by (simp add: restore_view)

lemma restore_hides: "ok (facts k) \<Longrightarrow> spec (facts k) i = None \<Longrightarrow> view (snd (restore k)) i = None"
  by (simp add: restore_view)

lemma restore_ok: "ok (facts k) \<Longrightarrow> \<exists>k'. restore k = (None, k') \<and> facts k' = facts k \<and> view k' = spec (facts k)"
  using restore_total [of k] restore_facts [of k] restore_view [of k] by (cases "restore k") auto

end

definition sql_active :: "string \<Rightarrow> db \<Rightarrow> string \<Rightarrow> active_version option" where
  "sql_active space d i =
     (case get_document i d of
        Inl _ \<Rightarrow> None
      | Inr doc \<Rightarrow>
          (case (doc_deleted_at doc, doc_active_version_id doc) of
             (None, Some vid) \<Rightarrow>
               (case get_version vid d of
                  Inl _ \<Rightarrow> None
                | Inr v \<Rightarrow> if ver_status v = ''active'' \<and> ver_space_id v = space
                          then Some (project_version (doc, v)) else None)
           | _ \<Rightarrow> None))"

definition rag_view :: "kstate \<Rightarrow> string \<Rightarrow> active_version option" where
  "rag_view k i = map_of (rg_active (ks_rag k)) i"

definition selected :: "string \<Rightarrow> db \<Rightarrow> document \<Rightarrow> version option" where
  "selected space d doc =
     (case (doc_deleted_at doc, doc_active_version_id doc) of
        (None, Some vid) \<Rightarrow>
          (case get_version vid d of
             Inl _ \<Rightarrow> None
           | Inr v \<Rightarrow> if ver_status v = ''active'' \<and> ver_space_id v = space then Some v else None)
      | _ \<Rightarrow> None)"

lemma collect_active_eq:
  assumes "\<forall>doc \<in> set docs. \<forall>vid. doc_active_version_id doc = Some vid \<longrightarrow> (\<exists>v. get_version vid d = Inr v)"
  shows "collect_active space d docs =
    Inr (List.map_filter (\<lambda>doc. map_option (Pair doc) (selected space d doc)) docs)"
  using assms
proof (induction docs)
  case (Cons doc docs)
  then have IH: "collect_active space d docs =
      Inr (List.map_filter (\<lambda>doc. map_option (Pair doc) (selected space d doc)) docs)" by simp
  show ?case
  proof (cases "doc_deleted_at doc"; cases "doc_active_version_id doc")
    fix vid assume a: "doc_deleted_at doc = None" "doc_active_version_id doc = Some vid"
    with Cons.prems obtain v where "get_version vid d = Inr v" by auto
    with a IH show ?thesis by (auto simp: selected_def List.map_filter_simps)
  qed (use IH in \<open>simp_all add: selected_def List.map_filter_simps\<close>)
qed (simp add: List.map_filter_simps)

lemma find_selected:
  assumes "distinct (map doc_id docs)"
  shows "find (\<lambda>v. av_doc_id v = i) (rev (map project_version
      (List.map_filter (\<lambda>doc. map_option (Pair doc) (g doc)) docs)))
    = (case find (\<lambda>doc. doc_id doc = i) docs of None \<Rightarrow> None
       | Some doc \<Rightarrow> map_option (\<lambda>v. project_version (doc, v)) (g doc))"
  using assms
proof (induction docs)
  case (Cons doc docs)
  have none: "find (\<lambda>doc. doc_id doc = i) docs = None" if "doc_id doc = i"
    using Cons.prems that by (auto simp: find_None_iff image_iff)
  show ?case
  proof (cases "g doc")
    case None
    with Cons none show ?thesis by (auto simp: List.map_filter_simps)
  next
    case (Some v)
    have "av_doc_id (project_version (doc, v)) = doc_id doc" by (simp add: project_version_def)
    with Some Cons none show ?thesis
      by (auto simp: List.map_filter_simps find_append split: option.splits)
  qed
qed (simp add: List.map_filter_simps)

lemma find_unique_perm:
  assumes "set xs = set ys" and "distinct (map f xs)" and "distinct (map f ys)"
  shows "find (\<lambda>x. f x = i) xs = find (\<lambda>x. f x = i) ys"
proof (cases "find (\<lambda>x. f x = i) xs")
  case None
  with assms(1) have "find (\<lambda>x. f x = i) ys = None" by (simp add: find_None_iff)
  with None show ?thesis by simp
next
  case (Some x)
  then have "x \<in> set ys" "f x = i" using assms(1) by (auto dest: find_SomeD)
  with find_distinct_key [OF assms(3)] Some show ?thesis by auto
qed

lemma distinct_map_sort_key:
  assumes "distinct (map f xs)"
  shows "distinct (map f (sort_key g xs))"
  using assms by (simp add: distinct_map)

lemma documents_found:
  assumes "documents_agree d"
  shows "find (\<lambda>doc. doc_id doc = i) (list_documents d) =
     (case get_document i d of Inl _ \<Rightarrow> None | Inr doc \<Rightarrow> Some doc)"
proof -
  let ?s = "sort_key (\<lambda>r. (dr_title r, dr_id r)) (t_documents d)"
  have agree: "\<forall>x \<in> set (t_documents d). doc_id (dr_data x) = dr_id x"
    using assms by (simp add: documents_agree_def list_all_iff)
  have dist: "distinct (map dr_id (t_documents d))" using assms by (simp add: documents_agree_def tok_def)
  then have dist': "distinct (map dr_id ?s)" by (rule distinct_map_sort_key)
  have "find (\<lambda>doc. doc_id doc = i) (list_documents d) = map_option dr_data (find (\<lambda>x. doc_id (dr_data x) = i) ?s)"
    by (simp add: list_documents_def find_map comp_def)
  also have "find (\<lambda>x. doc_id (dr_data x) = i) ?s = find (\<lambda>x. dr_id x = i) ?s"
    using agree by (intro find_cong_set) simp
  also have "\<dots> = find (\<lambda>x. dr_id x = i) (t_documents d)"
    using find_unique_perm [OF _ dist' dist] by simp
  finally show ?thesis
    by (cases "find (\<lambda>x. dr_id x = i) (t_documents d)") (simp_all add: get_document_def tget_def)
qed

lemma distinct_list_documents:
  assumes "documents_agree d"
  shows "distinct (map doc_id (list_documents d))"
proof -
  let ?s = "sort_key (\<lambda>r. (dr_title r, dr_id r)) (t_documents d)"
  have "map doc_id (list_documents d) = map dr_id ?s"
    using assms by (auto simp: list_documents_def documents_agree_def list_all_iff)
  moreover have "distinct (map dr_id ?s)"
    using assms by (intro distinct_map_sort_key) (simp add: documents_agree_def tok_def)
  ultimately show ?thesis by simp
qed

lemma versions_exist:
  assumes "knowledge_ok d"
  shows "\<forall>doc \<in> set (list_documents d). \<forall>vid. doc_active_version_id doc = Some vid \<longrightarrow> (\<exists>v. get_version vid d = Inr v)"
proof (intro ballI allI impI)
  fix doc vid assume "doc \<in> set (list_documents d)" "doc_active_version_id doc = Some vid"
  then have "vid \<in> set (map vr_id (t_versions d))"
    using assms by (force simp: list_documents_def knowledge_ok_def pointers_ok_def list_all_iff)
  then show "\<exists>v. get_version vid d = Inr v"
    by (cases "tget vr_id vid (t_versions d)") (auto simp: get_version_def tget_None_iff)
qed

interpretation rp: fact_projection
  where facts = ks_db and ok = knowledge_ok and restore = "RestoreProjection sv"
    and view = rag_view and spec = "sql_active (sv_space_id sv)" for sv
proof
  fix k :: kstate
  let ?d = "ks_db k" and ?sp = "sv_space_id sv"
  let ?dvs = "List.map_filter (\<lambda>doc. map_option (Pair doc) (selected ?sp ?d doc)) (list_documents ?d)"
  show "ks_db (snd (RestoreProjection sv k)) = ks_db k"
    by (simp add: RestoreProjection_def split: sum.splits)
  assume ok: "knowledge_ok ?d"
  note c = collect_active_eq [OF versions_exist [OF ok], of ?sp]
  show "fst (RestoreProjection sv k) = None" by (simp add: RestoreProjection_def c)
  show "rag_view (snd (RestoreProjection sv k)) = sql_active ?sp ?d"
  proof
    fix i
    have da: "documents_agree ?d" using ok by (simp add: knowledge_ok_def)
    have "rag_view (snd (RestoreProjection sv k)) i =
        (case find (\<lambda>doc. doc_id doc = i) (list_documents ?d) of None \<Rightarrow> None
         | Some doc \<Rightarrow> map_option (\<lambda>v. project_version (doc, v)) (selected ?sp ?d doc))"
      using find_selected [OF distinct_list_documents [OF da], of i "selected ?sp ?d"]
      by (simp add: RestoreProjection_def c rag_view_def ActivateVersions_def map_of_fold_active split: option.splits)
    also have "\<dots> = sql_active ?sp ?d i"
      by (auto simp: documents_found [OF da] sql_active_def selected_def split: sum.splits option.splits)
    finally show "rag_view (snd (RestoreProjection sv k)) i = sql_active ?sp ?d i" .
  qed
qed

end
