(* ===== verification/Publication.thy ===== *)
theory Publication
  imports Knowledge
begin

text \<open>
  What the document operations of \<open>Knowledge\<close> guarantee: the well-formedness of the facts, the
  immutability of version contents, compare-and-swap, the equality of the retrieval projection and the
  active part of SQL after every successful operation, and the safety of the clean-up job.
\<close>

section \<open>What a document operation may touch\<close>

text \<open>Only the documents, versions, chunks and idempotency keys.\<close>

definition knowledge_only :: "db \<Rightarrow> db \<Rightarrow> bool" where
  "knowledge_only d d' \<longleftrightarrow> d' = d\<lparr>t_documents := t_documents d', t_versions := t_versions d',
     t_chunks := t_chunks d', t_idempotency := t_idempotency d'\<rparr>"

lemma knowledge_only_refl [simp]: "knowledge_only d d"
  by (simp add: knowledge_only_def)

lemma knowledge_only_trans: "knowledge_only d d1 \<Longrightarrow> knowledge_only d1 d2 \<Longrightarrow> knowledge_only d d2"
  by (cases d; cases d1; cases d2) (simp add: knowledge_only_def)

lemma knowledge_only_same:
  assumes "knowledge_only d d'"
  shows "t_incidents d' = t_incidents d" "t_observations d' = t_observations d" "t_runs d' = t_runs d"
    "t_run_incidents d' = t_run_incidents d" "t_events d' = t_events d" "t_retrievals d' = t_retrievals d"
    "t_hits d' = t_hits d" "t_citations d' = t_citations d" "t_evidence d' = t_evidence d" "t_outbox d' = t_outbox d"
  using assms by (cases d; cases d'; simp add: knowledge_only_def)+

text \<open>The part of a version that is fixed when it is created.\<close>

definition version_core :: "version \<Rightarrow> string \<times> string \<times> string \<times> string \<times> string \<times> string" where
  "version_core v = (ver_id v, ver_document_id v, ver_content v, ver_content_sha256 v, ver_created_at v, ver_space_id v)"

definition versions_follow :: "db \<Rightarrow> db \<Rightarrow> bool" where
  "versions_follow d d' \<longleftrightarrow> (\<forall>x \<in> set (t_versions d). \<exists>y \<in> set (t_versions d').
     vr_id y = vr_id x \<and> version_core (vr_data y) = version_core (vr_data x))"

lemma versions_follow_refl [simp]: "versions_follow d d"
  by (auto simp: versions_follow_def)

lemma versions_follow_same: "t_versions d' = t_versions d \<Longrightarrow> versions_follow d d'"
  by (auto simp: versions_follow_def)

lemma versions_follow_trans: "versions_follow d d1 \<Longrightarrow> versions_follow d1 d2 \<Longrightarrow> versions_follow d d2"
  unfolding versions_follow_def by metis

lemma version_row_unique:
  assumes "versions_agree d" and "get_version i d = Inr v" and "x \<in> set (t_versions d)" and "vr_id x = i"
  shows "vr_data x = v"
proof -
  have "tget vr_id (vr_id x) (t_versions d) = Some x"
    using assms(1,3) by (intro lt.get_unique) (simp_all add: versions_agree_def)
  with assms show ?thesis by (auto simp: get_version_Inr)
qed

lemma update_version_follow:
  assumes "versions_agree d" and "get_version (ver_id w) d = Inr v" and "version_core w = version_core v"
  shows "versions_follow d (update_version w d)"
  unfolding versions_follow_def update_version_rows
proof
  fix x assume x: "x \<in> set (t_versions d)"
  let ?f = "\<lambda>x. if vr_id x = ver_id w then x\<lparr>vr_data := w\<rparr> else x"
  have "vr_id (?f x) = vr_id x \<and> version_core (vr_data (?f x)) = version_core (vr_data x)"
    using version_row_unique [OF assms(1,2) x] assms(3) by simp
  with x show "\<exists>y \<in> ?f ` set (t_versions d). vr_id y = vr_id x \<and> version_core (vr_data y) = version_core (vr_data x)"
    by blast
qed

lemma upsert_version_follow:
  assumes "versions_agree d"
    and "\<And>v. get_version (ver_id w) d = Inr v \<Longrightarrow> version_core w = version_core v"
  shows "versions_follow d (upsert_version w i d)"
proof (cases "tget vr_id (ver_id w) (t_versions d)")
  case None
  then show ?thesis by (auto simp: upsert_version_def versions_follow_def)
next
  case (Some x)
  then have "get_version (ver_id w) d = Inr (vr_data x)" by (simp add: get_version_def)
  with Some assms update_version_follow show ?thesis by (simp add: upsert_version_def)
qed

lemma get_upsert_version:
  assumes "versions_agree d"
  shows "get_version (ver_id w) (upsert_version w i d) = Inr w"
  using assms tget_update_version [OF assms, of "ver_id w" w]
  by (cases "tget vr_id (ver_id w) (t_versions d)")
     (auto simp: upsert_version_def get_version_def tget_def find_append)

lemma supersede_follow:
  assumes "supersede doc d = Inr d'" and "versions_agree d"
  shows "versions_follow d d'"
proof (cases "doc_active_version_id doc")
  case (Some old)
  with assms(1) obtain v where v: "get_version old d = Inr v"
    and d': "d' = update_version (v\<lparr>ver_status := ''superseded''\<rparr>) d"
    by (auto simp: supersede_def res_bind_eq_Inr)
  have "ver_id v = old" using get_version_ok [OF assms(2) v] .
  with v assms(2) show ?thesis
    unfolding d' by (intro update_version_follow [where v = v]) (simp_all add: version_core_def)
qed (use assms in \<open>simp add: supersede_def\<close>)

lemma knowledge_only_simps [simp]:
  "knowledge_only d (update_version v d)" "knowledge_only d (upsert_version v i d)"
  "knowledge_only d (ignore_idempotency a b c e d)" "knowledge_only d (replace_idempotency a b c e d)"
  "knowledge_only d (save_document doc d)"
  by (simp_all add: knowledge_only_def update_version_def upsert_version_def ignore_idempotency_def
      replace_idempotency_def save_document_def)

lemma knowledge_only_chunks [simp]: "knowledge_only d (fold (add_chunk vid) cs d)"
proof (induction cs arbitrary: d)
  case (Cons c cs)
  have "knowledge_only d (add_chunk vid c d)" by (simp add: knowledge_only_def add_chunk_def)
  with Cons knowledge_only_trans show ?case by fastforce
qed simp

lemma knowledge_only_supersede: "supersede doc d = Inr d' \<Longrightarrow> knowledge_only d d'"
  by (auto simp: supersede_def res_bind_eq_Inr split: option.splits)

lemma knowledge_only_update_document: "update_document doc title d = Inr d' \<Longrightarrow> knowledge_only d d'"
  by (auto simp: update_document_def Let_def knowledge_only_def)

lemma publish_follow:
  assumes "publish doc v title environment scope key body d = Inr d'" and ok: "knowledge_ok d"
    and get: "get_version (ver_id v) d = Inr w" and "version_core v = version_core w"
  shows "versions_follow d d' \<and> knowledge_only d d'"
proof -
  from assms(1) obtain d1 d2 where sup: "supersede doc d = Inr d1"
    and upd: "update_document (pointed doc (ver_id v) title environment) title (update_version (activated v) d1) = Inr d2"
    and d': "d' = replace_idempotency scope key body (ver_id v) (fold (add_chunk (ver_id v)) (ver_chunks v) d2)"
    by (auto simp: publish_def res_bind_eq_Inr)
  have agree: "versions_agree d" "versions_agree d1"
    using ok supersede_effect [OF sup ok] by (simp_all add: knowledge_ok_def)
  have f1: "versions_follow d d1" by (rule supersede_follow [OF sup agree(1)])
  from get obtain x where x: "x \<in> set (t_versions d)" "vr_id x = ver_id v" "vr_data x = w"
    by (auto simp: get_version_Inr dest: tget_SomeD)
  with f1 obtain y where y: "y \<in> set (t_versions d1)" "vr_id y = ver_id v"
      "version_core (vr_data y) = version_core w"
    unfolding versions_follow_def by metis
  have "tget vr_id (vr_id y) (t_versions d1) = Some y"
    using agree(2) y(1) by (intro lt.get_unique) (simp_all add: versions_agree_def)
  then have g1: "get_version (ver_id (activated v)) d1 = Inr (vr_data y)"
    using y(2) by (simp add: get_version_def activated_def)
  have f2: "versions_follow d1 (update_version (activated v) d1)"
    using assms(4) y(3) by (intro update_version_follow [OF agree(2) g1]) (simp add: activated_def version_core_def)
  have f3: "versions_follow (update_version (activated v) d1) d'"
    using upd by (intro versions_follow_same) (auto simp: d' update_document_def Let_def)
  have "knowledge_only d d2"
    using knowledge_only_supersede [OF sup] knowledge_only_update_document [OF upd] knowledge_only_simps(1)
    by (metis knowledge_only_trans)
  then have "knowledge_only d d'"
    unfolding d' by (metis knowledge_only_trans knowledge_only_chunks knowledge_only_simps(4))
  with f1 f2 f3 versions_follow_trans show ?thesis by metis
qed

section \<open>Publishing\<close>

definition put_ok :: "service \<Rightarrow> kstate \<Rightarrow> put_result \<Rightarrow> bool" where
  "put_ok sv k res \<longleftrightarrow>
     (case res of ((e, doc, v), k') \<Rightarrow>
        knowledge_ok (ks_db k') \<and> versions_follow (ks_db k) (ks_db k') \<and> knowledge_only (ks_db k) (ks_db k')
        \<and> (e = None \<longrightarrow> get_document (doc_id doc) (ks_db k') = Inr doc \<and> get_version (ver_id v) (ks_db k') = Inr v
             \<and> rag_view k' = sql_active (sv_space_id sv) (ks_db k')))"

lemma put_ok_error:
  assumes "knowledge_ok (ks_db k')" "versions_follow (ks_db k) (ks_db k')" "knowledge_only (ks_db k) (ks_db k')"
  shows "put_ok sv k ((Some e, doc, v), k')"
  using assms by (simp add: put_ok_def)

lemma restored_eq:
  assumes "knowledge_ok (ks_db k)"
  shows "restored sv doc v k = ((None, doc, v), snd (RestoreProjection sv k))"
  using rp.restore_total [OF assms, of sv] by (cases "RestoreProjection sv k") (simp add: restored_def)

lemma put_ok_restored:
  assumes ok: "knowledge_ok (ks_db k')" and "versions_follow (ks_db k) (ks_db k')" "knowledge_only (ks_db k) (ks_db k')"
    and "get_document (doc_id doc) (ks_db k') = Inr doc" "get_version (ver_id v) (ks_db k') = Inr v"
  shows "put_ok sv k (restored sv doc v k')"
  using assms rp.restore_view [OF ok, of sv] rp.restore_facts [of sv k']
  by (simp add: restored_eq [OF ok] put_ok_def)

lemma staged_simps:
  assumes "versions_agree d"
  shows "ver_id (staged sv i vid content now d) = vid"
    and "ver_status (staged sv i vid content now d) = ''staging''"
    and "get_version vid d = Inr v \<Longrightarrow> version_core (staged sv i vid content now d) = version_core v"
  using assms tget_SomeD [of vr_id vid "t_versions d"]
  by (auto simp: staged_def versions_agree_def list_all_iff get_version_def version_core_def split: option.splits)

lemma knowledge_ok_idempotency [simp]:
  "knowledge_ok (ignore_idempotency a b c e d) = knowledge_ok d"
  by (rule knowledge_ok_cong) simp_all

lemma get_idempotency_version [simp]:
  "get_version i (ignore_idempotency a b c e d) = get_version i d"
  "get_document i (ignore_idempotency a b c e d) = get_document i d"
  by (simp_all add: get_version_def get_document_def)

lemma versions_agree_idempotency [simp]: "versions_agree (ignore_idempotency a b c e d) = versions_agree d"
  by (simp add: versions_agree_def)

lemma versions_follow_idempotency [simp]:
  "versions_follow d (ignore_idempotency a b c e d') = versions_follow d d'"
  by (simp add: versions_follow_def)

text \<open>The outcomes of staging, with the database of each: \<open>d1\<close> holds the staged version, and
  on an indexing error it is marked as failed there.\<close>

lemma stage_and_publish_cases:
  fixes k :: kstate
  defines "d1 vid v scope key body i \<equiv> ignore_idempotency scope key body vid (upsert_version v i (ks_db k))"
  assumes "stage_and_publish sv env doc i title content source environment scope key body now k = res"
    and "vid = version_key i content title environment (sv_space_id sv)"
    and "v = staged sv i vid content now (ks_db k)"
  obtains (failed) e doc' v' k' where "res = ((Some e, doc', v'), k')" and "ks_db k' = d1 vid v scope key body i"
  | (index) e doc' v' k' where "res = ((Some e, doc', v'), k')"
      and "ks_db k' = update_version (v\<lparr>ver_index_status := ''failed''\<rparr>) (d1 vid v scope key body i)"
  | (ok) cs rg d2 where "IndexVersion (pe_embed env) (pe_upsert env) i vid title content source (sv_space_id sv) (ks_rag k) = Inr (cs, rg)"
      and "publish doc (v\<lparr>ver_chunks := map (sql_chunk vid i title source (sv_space_id sv)) cs\<rparr>)
             title environment scope key body (d1 vid v scope key body i) = Inr d2"
      and "res = restored sv (pointed doc vid title environment)
             (activated (v\<lparr>ver_chunks := map (sql_chunk vid i title source (sv_space_id sv)) cs\<rparr>))
             (k\<lparr>ks_rag := rg, ks_db := d2\<rparr>)"
  using assms(2-)
  by (auto simp: stage_and_publish_def Let_def d1_def split: if_splits sum.splits prod.splits)

lemma put_ok_stage:
  assumes ok: "knowledge_ok (ks_db k)" and get: "get_document i (ks_db k) = Inr doc"
  shows "put_ok sv k (stage_and_publish sv env doc i title content source environment scope key body now k)"
proof -
  define vid where "vid = version_key i content title environment (sv_space_id sv)"
  define v where "v = staged sv i vid content now (ks_db k)"
  define d1 where "d1 = ignore_idempotency scope key body vid (upsert_version v i (ks_db k))"
  have agree: "versions_agree (ks_db k)" using ok by (simp add: knowledge_ok_def)
  note st = staged_simps [OF agree, where sv = sv and i = i and vid = vid and content = content and now = now, folded v_def]
  have ok1: "knowledge_ok d1" using knowledge_ok_upsert_version [OF ok, of v i] st by (simp add: d1_def)
  have f1: "versions_follow (ks_db k) d1"
    using upsert_version_follow [OF agree, of v i] st by (simp add: d1_def)
  have o1: "knowledge_only (ks_db k) d1" unfolding d1_def
    using knowledge_only_simps(2,3) knowledge_only_trans by blast
  have g1: "get_version (ver_id v) d1 = Inr v" using get_upsert_version [OF agree] by (simp add: d1_def)
  have agree1: "versions_agree d1" using ok1 by (simp add: knowledge_ok_def)
  let ?res = "stage_and_publish sv env doc i title content source environment scope key body now k"
  from refl [of ?res] vid_def v_def show ?thesis
  proof (cases rule: stage_and_publish_cases)
    case (failed e doc' v' k')
    with ok1 f1 o1 show ?thesis by (simp add: put_ok_error d1_def)
  next
    case (index e doc' v' k')
    let ?w = "v\<lparr>ver_index_status := ''failed''\<rparr>"
    have "knowledge_ok (update_version ?w d1)" using knowledge_ok_update_version [OF ok1] st by simp
    moreover have "versions_follow d1 (update_version ?w d1)"
      using update_version_follow [OF agree1, of ?w v] g1 by (simp add: version_core_def)
    moreover have "knowledge_only (ks_db k) (update_version ?w d1)"
      using o1 knowledge_only_simps(1) knowledge_only_trans by blast
    ultimately show ?thesis
      using index f1 versions_follow_trans by (auto intro!: put_ok_error simp: d1_def [symmetric])
  next
    case (ok cs rg d2)
    define w where "w = v\<lparr>ver_chunks := map (sql_chunk vid i title source (sv_space_id sv)) cs\<rparr>"
    have pub: "publish doc w title environment scope key body d1 = Inr d2" using ok(2) by (simp add: w_def d1_def)
    have get1: "get_document i d1 = Inr doc" using get by (simp add: d1_def get_document_def)
    have w: "ver_id w = ver_id v" "version_core w = version_core v" by (simp_all add: w_def version_core_def)
    have has: "tget vr_id (ver_id w) (t_versions d1) \<noteq> None" using g1 w by (auto simp: get_version_Inr)
    note eff = publish_effect [OF pub ok1 get1 has]
    have fol: "versions_follow d1 d2 \<and> knowledge_only d1 d2"
      using publish_follow [OF pub ok1] g1 w by simp
    have "doc_id doc = i" using get_document_ok get \<open>knowledge_ok (ks_db k)\<close> by (auto simp: knowledge_ok_def)
    then have id: "doc_id (pointed doc vid title environment) = i" by (simp add: pointed_def)
    have vid: "ver_id (activated w) = vid" using w st(1) by (simp add: activated_def)
    have "put_ok sv k (restored sv (pointed doc vid title environment) (activated w) (k\<lparr>ks_rag := rg, ks_db := d2\<rparr>))"
      using eff fol f1 o1 versions_follow_trans knowledge_only_trans w st(1)
      by (intro put_ok_restored) (auto simp: id vid)
    then show ?thesis using ok(3) by (simp add: w_def)
  qed
qed

lemma repeated_put_Inr:
  assumes "repeated_put scope key body i d = Some (Inr (doc, v))"
  shows "get_document i d = Inr doc \<and> (\<exists>vid. get_version vid d = Inr v)"
  using assms by (auto simp: repeated_put_def split: if_splits option.splits sum.splits)

lemma unchanged_version_Inr:
  assumes "unchanged_version doc title content environment d = Inr (Some old)"
  shows "\<exists>vid. doc_active_version_id doc = Some vid \<and> get_version vid d = Inr old"
  using assms by (auto simp: unchanged_version_def res_bind_eq_Inr split: option.splits if_splits)

lemma put_ok_trans:
  assumes "put_ok sv (k\<lparr>ks_db := d\<rparr>) res" and "versions_follow (ks_db k) d" and "knowledge_only (ks_db k) d"
  shows "put_ok sv k res"
  using assms versions_follow_trans knowledge_only_trans
  by (cases res rule: prod.exhaust) (auto simp: put_ok_def split: prod.splits)

lemma put_ok_target:
  assumes ok: "knowledge_ok (ks_db k)"
    and t: "target_document i title content source environment expected namespace (ks_db k) = Inr (doc, d)"
  shows "put_ok sv k
    (let k1 = k\<lparr>ks_db := d\<rparr> in
     case unchanged_version doc title content environment d of
       Inl e \<Rightarrow> ((Some e, doc, zero_version), k1)
     | Inr (Some old) \<Rightarrow> restored sv doc old (k\<lparr>ks_db := ignore_idempotency scope key body (ver_id old) d\<rparr>)
     | Inr None \<Rightarrow> stage_and_publish sv env doc i title content source environment scope key body now k1)"
proof -
  note te = target_document_effect [OF t ok]
  have get: "get_document i d = Inr doc" and ok1: "knowledge_ok d" using te by auto
  have f: "versions_follow (ks_db k) d" and o: "knowledge_only (ks_db k) d"
    using te by (cases d; cases "ks_db k"; auto simp: versions_follow_def knowledge_only_def)+
  have id: "doc_id doc = i" using get_document_ok get ok1 by (auto simp: knowledge_ok_def)
  show ?thesis
  proof (cases "unchanged_version doc title content environment d")
    case (Inl e)
    with ok1 f o show ?thesis by (simp add: put_ok_error)
  next
    case (Inr x)
    show ?thesis
    proof (cases x)
      case None
      have "put_ok sv (k\<lparr>ks_db := d\<rparr>)
          (stage_and_publish sv env doc i title content source environment scope key body now (k\<lparr>ks_db := d\<rparr>))"
        by (rule put_ok_stage) (simp_all add: ok1 get)
      from put_ok_trans [OF this f o] None Inr show ?thesis by simp
    next
      case (Some old)
      then obtain vid where v: "get_version vid d = Inr old"
        using unchanged_version_Inr Inr by metis
      then have "ver_id old = vid" using get_version_ok ok1 by (auto simp: knowledge_ok_def)
      moreover have "knowledge_only (ks_db k) (ignore_idempotency scope key body (ver_id old) d)"
        using o knowledge_only_simps(3) knowledge_only_trans by blast
      ultimately show ?thesis
        using Some Inr v get id ok1 f by (auto intro!: put_ok_restored)
    qed
  qed
qed

lemma put_ok_PutDocument:
  assumes ok: "knowledge_ok (ks_db k)"
  shows "put_ok sv k (PutDocument sv env id0 title0 content source environment0 expected key now k)"
proof -
  have err: "put_ok sv k ((Some e, doc, v), k)" for e doc v using ok by (simp add: put_ok_error)
  have rep: "put_ok sv k (restored sv doc v k)"
    if "repeated_put scope key body i (ks_db k) = Some (Inr (doc, v))" for scope key body i doc v
  proof -
    from repeated_put_Inr [OF that] obtain vid
      where "get_document i (ks_db k) = Inr doc" "get_version vid (ks_db k) = Inr v" by auto
    moreover from this have "doc_id doc = i" "ver_id v = vid"
      using get_document_ok get_version_ok ok by (auto simp: knowledge_ok_def)
    ultimately show ?thesis using ok by (intro put_ok_restored) auto
  qed
  have run: "put_ok sv k
      (case target_document i title content source environment expected namespace (ks_db k) of
         Inl (e, doc) \<Rightarrow> ((Some e, doc, zero_version), k)
       | Inr (doc, d) \<Rightarrow>
           (let k1 = k\<lparr>ks_db := d\<rparr> in
            case unchanged_version doc title content environment d of
              Inl e \<Rightarrow> ((Some e, doc, zero_version), k1)
            | Inr (Some old) \<Rightarrow> restored sv doc old (k\<lparr>ks_db := ignore_idempotency scope key body (ver_id old) d\<rparr>)
            | Inr None \<Rightarrow> stage_and_publish sv env doc i title content source environment scope key body now k1))"
      (is "put_ok sv k (?run i title environment namespace scope body)") for i title environment namespace scope body
  proof (cases "target_document i title content source environment expected namespace (ks_db k)")
    case (Inl x)
    with err show ?thesis by (cases x) simp
  next
    case (Inr x)
    then obtain doc d where t: "target_document i title content source environment expected namespace (ks_db k) = Inr (doc, d)"
      by (cases x) simp
    with put_ok_target [OF ok t] show ?thesis by simp
  qed
  have "put_ok sv k (case repeated_put scope key body i (ks_db k) of
      Some (Inl (e, doc, v)) \<Rightarrow> ((Some e, doc, v), k)
    | Some (Inr (doc, v)) \<Rightarrow> restored sv doc v k
    | None \<Rightarrow> ?run i title environment namespace scope body)" for i title environment namespace scope body
  proof (cases "repeated_put scope key body i (ks_db k)")
    case None
    with run show ?thesis by simp
  next
    case (Some x)
    with err rep show ?thesis by (cases x) auto
  qed
  then show ?thesis
    unfolding PutDocument_def by (simp add: Let_def err)
qed


definition ex_kstate :: kstate where
  "ex_kstate = \<lparr> ks_db = empty_db, ks_rag = new_rag \<rparr>"

definition ex_env :: put_env where
  "ex_env = \<lparr> pe_ready = True, pe_embed = (\<lambda>_. Inr 3), pe_upsert = (\<lambda>_. None) \<rparr>"

definition ex_sv :: service where
  "ex_sv = \<lparr> sv_space_id = ''s'', sv_webhook_url = [], sv_judge_threshold = 0, sv_judge_key = [], sv_judge_model = [] \<rparr>"

lemma ex_trim: "trim_space ''t'' = ''t''" "trim_space ''x'' = ''x''"
  by code_simp+

lemma ex_chunks: "ChunkMarkdown ''t'' ''x'' = [\<lparr> mc_doc = ''t'', mc_title = ''t'', mc_snippet = ''x'' \<rparr>]"
  by (simp add: ChunkMarkdown_def heading_level_def ex_trim has_prefix_def doc_title_of_def parseHeading_def
      flush_chunk_def Let_def)

lemma ex_put:
  "\<exists>doc v k'. PutDocument ex_sv ex_env ''d'' ''t'' ''x'' ''upload'' ''prod'' [] [] 0 ex_kstate = ((None, doc, v), k')"
proof -
  have nz: "version_key a b c e f \<noteq> []" for a b c e f by (simp add: version_key_def stableID_def)
  let ?p = "PutDocument ex_sv ex_env ''d'' ''t'' ''x'' ''upload'' ''prod'' [] [] 0 ex_kstate"
  have "fst (fst ?p) = None"
    by (simp add: PutDocument_def ex_trim ex_kstate_def ex_env_def ex_sv_def repeated_put_def target_document_def
       tget_def empty_db_def insert_document_def tins_def unchanged_version_def create_document_def Let_def with_doc_def
       ensure_def res_bind_def stage_and_publish_def or_else_def IndexVersion_def nz ex_chunks index_chunk_def
       validateSpace_def new_rag_def publish_def supersede_def update_document_def staged_def upsert_version_def
       ignore_idempotency_def update_version_def pointed_def tupd_def tok_def activated_def add_chunk_def tign_def
       replace_idempotency_def restored_def RestoreProjection_def list_documents_def get_version_def split: prod.splits)
  then show ?thesis by (cases ?p rule: prod.exhaust) (auto simp: prod_eq_iff)
qed


section \<open>Compare-and-swap\<close>

text \<open>A replacement needs the version it replaces. A well-formed request that names an expected
  version is refused with a conflict, and changes nothing at all, when the document does not exist, has
  another source, or has an active version other than the expected one.\<close>

theorem PutDocument_conflict:
  assumes "trim_space title \<noteq> []" "length (trim_space title) \<le> 512"
    and "trim_space content \<noteq> []" "length content \<le> 512 * 1024"
    and "source = ''upload'' \<or> source = ''demo''" and "i \<noteq> []" and "expected \<noteq> []"
    and "\<And>doc. get_document i (ks_db k) = Inr doc \<Longrightarrow>
           doc_source_kind doc \<noteq> source \<or> doc_active_version_id doc \<noteq> Some expected"
  shows "\<exists>doc. PutDocument sv env i title content source environment expected [] now k
           = ((Some ErrConflict, doc, zero_version), k)"
proof -
  have "\<exists>doc. target_document i (trim_space title) content source env0 expected namespace (ks_db k)
      = Inl (ErrConflict, doc)" for env0 namespace
    using assms(7,8)
    by (cases "tget dr_id i (t_documents (ks_db k))")
       (auto simp: target_document_def Let_def with_doc_def ensure_def get_document_def)
  then obtain doc' where "target_document i (trim_space title) content source (or_else environment ''unknown'')
      expected (''local:'' @ source) (ks_db k) = Inl (ErrConflict, doc')" by blast
  with assms show ?thesis by (auto simp: PutDocument_def Let_def repeated_put_def)
qed

theorem PutDocument_conflict_witness:
  "\<exists>doc. PutDocument ex_sv ex_env ''d'' ''t'' ''x'' ''upload'' [] ''v'' [] 0 ex_kstate
     = ((Some ErrConflict, doc, zero_version), ex_kstate)"
  by (rule PutDocument_conflict) (simp_all add: ex_trim ex_kstate_def get_document_def empty_db_def tget_def)

section \<open>A failed publication is invisible\<close>

lemma sql_active_cong:
  assumes "t_documents d' = t_documents d" and "t_versions d' = t_versions d"
  shows "sql_active space d' = sql_active space d"
proof -
  have "get_document j d' = get_document j d" "get_version j d' = get_version j d" for j
    by (simp_all add: get_document_def get_version_def assms)
  then show ?thesis unfolding sql_active_def fun_eq_iff by presburger
qed

lemma sql_active_Some:
  assumes "sql_active space d j = Some a" and "versions_agree d"
  shows "\<exists>doc. get_document j d = Inr doc \<and> doc_active_version_id doc = Some (av_version_id a)"
  using assms get_version_ok
  by (auto simp: sql_active_def project_version_def split: sum.splits option.splits if_splits)

lemma sql_active_new_version:
  assumes agree: "versions_agree d" and st: "ver_status w \<noteq> ''active''"
    and docs: "t_documents d' = t_documents d"
    and vers: "\<And>j. j \<noteq> ver_id w \<Longrightarrow> get_version j d' = get_version j d"
    and new: "get_version (ver_id w) d' = Inr w"
    and dead: "\<forall>j a. sql_active space d j = Some a \<longrightarrow> av_version_id a \<noteq> ver_id w"
  shows "sql_active space d' = sql_active space d"
proof
  fix j
  have g: "get_document j d' = get_document j d" by (simp add: get_document_def docs)
  show "sql_active space d' j = sql_active space d j"
  proof (cases "get_document j d")
    case (Inr doc)
    show ?thesis
    proof (cases "doc_active_version_id doc = Some (ver_id w)")
      case True
      then have "sql_active space d j = None"
        using dead sql_active_Some [OF _ agree] Inr by (cases "sql_active space d j") fastforce+
      with True Inr g new st show ?thesis by (simp add: sql_active_def split: option.splits)
    next
      case False
      with Inr g vers show ?thesis by (auto simp: sql_active_def split: option.splits)
    qed
  qed (simp add: sql_active_def g)
qed

lemma get_update_version_other:
  "versions_agree d \<Longrightarrow> j \<noteq> ver_id w \<Longrightarrow> get_version j (update_version w d) = get_version j d"
  by (simp add: get_version_def tget_update_version)

lemma get_upsert_version_other:
  "versions_agree d \<Longrightarrow> j \<noteq> ver_id w \<Longrightarrow> get_version j (upsert_version w i d) = get_version j d"
  using get_update_version_other [of d j w]
  by (cases "tget vr_id (ver_id w) (t_versions d)"; cases "tget vr_id j (t_versions d)")
     (auto simp: upsert_version_def get_version_def tget_def find_append)

lemma stage_failed_invisible:
  assumes ok: "knowledge_ok (ks_db k)"
    and p: "stage_and_publish sv env doc i title content source environment scope key body now k = ((Some e, doc', v'), k')"
    and dead: "\<forall>j a. sql_active (sv_space_id sv) (ks_db k) j = Some a \<longrightarrow>
      av_version_id a \<noteq> version_key i content title environment (sv_space_id sv)"
    and get: "get_document i (ks_db k) = Inr doc"
  shows "sql_active (sv_space_id sv) (ks_db k') = sql_active (sv_space_id sv) (ks_db k)"
proof -
  define vid where "vid = version_key i content title environment (sv_space_id sv)"
  define v where "v = staged sv i vid content now (ks_db k)"
  define d0 where "d0 = upsert_version v i (ks_db k)"
  have agree: "versions_agree (ks_db k)" using ok by (simp add: knowledge_ok_def)
  note st = staged_simps [OF agree, where sv = sv and i = i and vid = vid and content = content and now = now, folded v_def]
  have ok0: "knowledge_ok d0" unfolding d0_def by (rule knowledge_ok_upsert_version [OF ok]) (simp add: st)
  then have agree0: "versions_agree d0" by (simp add: knowledge_ok_def)
  have vis: "sql_active (sv_space_id sv) (ignore_idempotency a b c x d) = sql_active (sv_space_id sv) d" for a b c x d
    by (rule sql_active_cong) simp_all
  have dead': "\<forall>j a. sql_active (sv_space_id sv) (ks_db k) j = Some a \<longrightarrow> av_version_id a \<noteq> ver_id v"
    using dead st(1) by (simp add: vid_def)
  have s0: "sql_active (sv_space_id sv) d0 = sql_active (sv_space_id sv) (ks_db k)"
    using dead' get_upsert_version_other [OF agree, of _ v i] get_upsert_version [OF agree, of v i]
    by (intro sql_active_new_version [OF agree, where w = v]) (auto simp: st(2) d0_def)
  from p vid_def v_def show ?thesis
  proof (cases rule: stage_and_publish_cases)
    case (failed e doc' v' k'')
    with s0 show ?thesis by (simp add: vis d0_def)
  next
    case (index e doc' v' k'')
    let ?w = "v\<lparr>ver_index_status := ''failed''\<rparr>" and ?d = "ignore_idempotency scope key body vid d0"
    have g: "get_version (ver_id ?w) (update_version ?w ?d) = Inr ?w"
      using get_upsert_version [OF agree, of v i] agree0
      by (auto simp: get_version_def tget_update_version d0_def)
    have "sql_active (sv_space_id sv) (update_version ?w ?d) = sql_active (sv_space_id sv) ?d"
      using dead' s0 get_update_version_other [of ?d] agree0
      by (intro sql_active_new_version [where w = ?w, OF _ _ _ _ g]) (simp_all add: st vis)
    with index s0 show ?thesis by (simp add: vis d0_def)
  next
    case (ok cs rg d2)
    define w where "w = v\<lparr>ver_chunks := map (sql_chunk vid i title source (sv_space_id sv)) cs\<rparr>"
    have "publish doc w title environment scope key body (ignore_idempotency scope key body vid d0) = Inr d2"
      using ok(2) by (simp add: w_def d0_def)
    moreover have "get_document i d0 = Inr doc" using get by (simp add: d0_def get_document_def)
    moreover have "tget vr_id (ver_id w) (t_versions d0) \<noteq> None"
      using upsert_version_present by (simp add: w_def d0_def)
    ultimately have "knowledge_ok d2" using publish_effect ok0 by simp
    with ok(3) show ?thesis by (simp add: restored_eq)
  qed
qed

lemma target_document_visible:
  assumes "target_document i title content source environment expected namespace d = Inr (doc, d')"
  shows "sql_active space d' = sql_active space d"
proof (cases "tget dr_id i (t_documents d)")
  case None
  let ?doc = "create_document i title source environment"
  from assms None have ins: "insert_document ?doc namespace d = Inr d'"
    by (auto simp: target_document_def Let_def res_bind_eq_Inr split: if_splits)
  have act: "doc_active_version_id ?doc = None" "doc_id ?doc = i" by (simp_all add: create_document_def)
  have v: "get_version j d' = get_version j d" for j using ins by (auto simp: insert_document_Inr get_version_def)
  show ?thesis
  proof
    fix j
    show "sql_active space d' j = sql_active space d j"
    proof (cases "j = i")
      case True
      with None ins act have "get_document j d' = Inr ?doc" "get_document j d = Inl ErrNoRows"
        by (auto simp: insert_document_Inr get_document_def tget_def find_append)
      with act show ?thesis by (simp add: sql_active_def split: option.splits)
    next
      case False
      with ins act have "get_document j d' = get_document j d"
        by (auto simp: insert_document_Inr get_document_def tget_def find_append split: option.splits)
      with v show ?thesis by (auto simp: sql_active_def split: sum.splits option.splits)
    qed
  qed
next
  case (Some x)
  with assms have "d' = d"
    by (auto simp: target_document_def Let_def res_bind_eq_Inr split: option.splits if_splits)
  then show ?thesis by simp
qed

lemma put_failed_target:
  assumes ok: "knowledge_ok (ks_db k)"
    and t: "target_document i title content source environment expected namespace (ks_db k) = Inr (doc, d)"
    and p: "(let k1 = k\<lparr>ks_db := d\<rparr> in
     case unchanged_version doc title content environment d of
       Inl e \<Rightarrow> ((Some e, doc, zero_version), k1)
     | Inr (Some old) \<Rightarrow> restored sv doc old (k\<lparr>ks_db := ignore_idempotency scope key body (ver_id old) d\<rparr>)
     | Inr None \<Rightarrow> stage_and_publish sv env doc i title content source environment scope key body now k1)
     = ((Some e, doc', v'), k')"
    and dead: "\<forall>j a. sql_active (sv_space_id sv) (ks_db k) j = Some a \<longrightarrow>
      av_version_id a \<noteq> version_key i content title environment (sv_space_id sv)"
  shows "sql_active (sv_space_id sv) (ks_db k') = sql_active (sv_space_id sv) (ks_db k)"
proof -
  note te = target_document_effect [OF t ok] and tv = target_document_visible [OF t, of "sv_space_id sv"]
  have ok1: "knowledge_ok (ks_db (k\<lparr>ks_db := d\<rparr>))" and get: "get_document i (ks_db (k\<lparr>ks_db := d\<rparr>)) = Inr doc"
    using te by simp_all
  show ?thesis
  proof (cases "unchanged_version doc title content environment d")
    case (Inr x)
    show ?thesis
    proof (cases x)
      case None
      with p Inr stage_failed_invisible [OF ok1 _ _ get] dead tv show ?thesis by simp
    next
      case (Some old)
      with p Inr ok1 show ?thesis by (simp add: restored_eq)
    qed
  qed (use p tv in auto)
qed

text \<open>A publication that fails, at the checks, while indexing or in its transaction, leaves the active
  part of SQL as it was: retrieval after the next restore sees the old versions. The one proviso is that the
  identifier of the version being staged is not that of a live version.\<close>

theorem PutDocument_failure_invisible:
  assumes ok: "knowledge_ok (ks_db k)" and "i \<noteq> []"
    and p: "PutDocument sv env i title content source environment expected key now k = ((Some e, doc, v), k')"
    and dead: "\<forall>j a. sql_active (sv_space_id sv) (ks_db k) j = Some a \<longrightarrow>
      av_version_id a \<noteq> version_key i content (trim_space title) (or_else environment ''unknown'') (sv_space_id sv)"
  shows "sql_active (sv_space_id sv) (ks_db k') = sql_active (sv_space_id sv) (ks_db k)"
proof -
  have r: "restored sv doc0 v0 k \<noteq> ((Some e, doc, v), k')" for doc0 v0 using restored_eq [OF ok] by simp
  define tgt where "tgt = target_document i (trim_space title) content source (or_else environment ''unknown'')
      expected (''local:'' @ source) (ks_db k)"
  show ?thesis
  proof (cases tgt)
    case (Inl x)
    with p r assms(2) show ?thesis unfolding tgt_def
      by (auto simp: PutDocument_def Let_def split: if_splits option.splits sum.splits prod.splits)
  next
    case (Inr x)
    obtain doc1 d1 where t: "tgt = Inr (doc1, d1)" using Inr by (cases x) simp
    show ?thesis
    proof (cases "k' = k")
      case False
      with p r t assms(2) show ?thesis
        by (intro put_failed_target [OF ok t [unfolded tgt_def] _ dead])
           (auto simp: PutDocument_def Let_def tgt_def split: if_splits option.splits sum.splits)
    qed simp
  qed
qed

theorem PutDocument_failure_invisible_witness:
  "\<exists>doc v k'. PutDocument ex_sv (ex_env\<lparr>pe_ready := False\<rparr>) ''d'' ''t'' ''x'' ''upload'' ''prod'' [] [] 0 ex_kstate
       = ((Some ErrUnavailable, doc, v), k') \<and> sql_active ''s'' (ks_db k') = sql_active ''s'' empty_db"
proof -
  let ?p = "PutDocument ex_sv (ex_env\<lparr>pe_ready := False\<rparr>) ''d'' ''t'' ''x'' ''upload'' ''prod'' [] [] 0 ex_kstate"
  have "fst (fst ?p) = Some ErrUnavailable"
    by (simp add: PutDocument_def ex_trim ex_kstate_def ex_env_def ex_sv_def repeated_put_def target_document_def
       tget_def empty_db_def insert_document_def tins_def unchanged_version_def create_document_def Let_def with_doc_def
       ensure_def res_bind_def stage_and_publish_def or_else_def)
  then obtain doc v k' where p: "?p = ((Some ErrUnavailable, doc, v), k')"
    by (cases ?p rule: prod.exhaust) (auto simp: prod_eq_iff)
  have "knowledge_ok (ks_db ex_kstate)" by (simp add: ex_kstate_def knowledge_ok_empty)
  moreover have "sql_active ''s'' (ks_db ex_kstate) j = None" for j
    by (simp add: sql_active_def ex_kstate_def empty_db_def get_document_def tget_def)
  ultimately show ?thesis
    using PutDocument_failure_invisible [OF _ _ p] p by (auto simp: ex_sv_def ex_kstate_def)
qed

section \<open>Deleting\<close>

lemma insert_outbox_docs:
  "insert_outbox o1 d = Inr d' \<Longrightarrow> t_documents d' = t_documents d \<and> t_versions d' = t_versions d"
  by (auto simp: insert_outbox_def res_bind_eq_Inr)

text \<open>The pointers of the documents are all that well-formedness reads of them.\<close>

lemma pointers_ok_cong:
  assumes "map (doc_active_version_id \<circ> dr_data) (t_documents d') = map (doc_active_version_id \<circ> dr_data) (t_documents d)"
    and "t_versions d' = t_versions d"
  shows "pointers_ok d' = pointers_ok d"
proof -
  have ptrs: "pointers_ok d \<longleftrightarrow>
      list_all (\<lambda>x. ver_status (vr_data x) = ''active'' \<longrightarrow>
        Some (vr_id x) \<in> set (map (doc_active_version_id \<circ> dr_data) (t_documents d))) (t_versions d)
      \<and> list_all (\<lambda>p. set_option p \<subseteq> set (map vr_id (t_versions d)))
           (map (doc_active_version_id \<circ> dr_data) (t_documents d))" for d
    by (auto simp: pointers_ok_def list_all_iff list_ex_iff image_iff eq_commute)
  show ?thesis unfolding ptrs assms by simp
qed

lemma delete_tx_effect:
  assumes del: "delete_tx i expected now d = Inr (doc, d')" and ok: "knowledge_ok d"
  shows "knowledge_ok d' \<and> get_document i d' = Inr doc \<and> doc_deleted_at doc \<noteq> None
    \<and> t_versions d' = t_versions d \<and> (\<forall>j. j \<noteq> i \<longrightarrow> get_document j d' = get_document j d)"
proof -
  from del obtain doc0 where g: "get_document i d = Inr doc0"
    and doc: "doc = doc0\<lparr>doc_deleted_at := Some (fmt_nano now), doc_index_status := ''cleanup_pending''\<rparr>"
    and ins: "insert_outbox (cleanup_outbox i expected now)
       (d\<lparr>t_documents := tupd dr_id i (\<lambda>x. x\<lparr>dr_data := doc\<rparr>) (t_documents d)\<rparr>) = Inr d'"
    by (auto simp: delete_tx_def Let_def res_bind_eq_Inr)
  have id: "doc_id doc0 = i" using get_document_ok g ok by (auto simp: knowledge_ok_def)
  have docs: "t_documents d' = tupd dr_id i (\<lambda>x. x\<lparr>dr_data := doc\<rparr>) (t_documents d)"
    and vers: "t_versions d' = t_versions d" using insert_outbox_docs [OF ins] by simp_all
  have tokd: "tok dr_id (t_documents d)" using ok by (simp add: knowledge_ok_def documents_agree_def)
  have only: "dr_data y = doc0" if "y \<in> set (t_documents d)" "dr_id y = i" for y
    using lt.get_unique [OF tokd that(1)] that(2) g by (auto simp: get_document_Inr)
  have "documents_agree d'"
    using ok doc id by (auto simp: knowledge_ok_def documents_agree_def docs tok_def map_tupd_other list_all_iff lt.upd_rows)
  moreover have "pointers_ok d'"
    using ok only pointers_ok_cong [of d' d] vers
    by (auto simp: knowledge_ok_def docs tupd_def doc)
  moreover have "get_document j d' = (if j = i then Inr doc else get_document j d)" for j
    using g tokd by (auto simp: get_document_def docs lt.get_upd)
  ultimately show ?thesis
    using ok doc vers by (auto simp: knowledge_ok_def versions_agree_def)
qed

text \<open>C22. A deleted document disappears from retrieval at once, before any physical clean-up. After a
  successful delete no chunk of the document is eligible, SQL projects nothing for it, and every other
  document is projected exactly as before.\<close>

theorem DeleteDocument_hides:
  assumes ok: "knowledge_ok (ks_db k)" and del: "DeleteDocument sv i expected now k = ((None, doc), k')"
  shows "knowledge_ok (ks_db k') \<and> sql_active (sv_space_id sv) (ks_db k') i = None
    \<and> (\<forall>j. j \<noteq> i \<longrightarrow> sql_active (sv_space_id sv) (ks_db k') j = sql_active (sv_space_id sv) (ks_db k) j)
    \<and> rag_view k' = sql_active (sv_space_id sv) (ks_db k')
    \<and> (\<forall>c source. map_of (rg_chunks (ks_rag k')) c \<noteq> None \<longrightarrow>
         vc_doc_id (the (map_of (rg_chunks (ks_rag k')) c)) = i \<longrightarrow> \<not> rag_eligible (ks_rag k') c source)"
proof -
  from del obtain d where tx: "delete_tx i expected now (ks_db k) = Inr (doc, d)"
    and k': "k' = snd (RestoreProjection sv (k\<lparr>ks_db := d\<rparr>))"
    by (auto simp: DeleteDocument_def split: sum.splits prod.splits)
  note e = delete_tx_effect [OF tx ok]
  then have ok1: "knowledge_ok (ks_db (k\<lparr>ks_db := d\<rparr>))" by simp
  have db: "ks_db k' = d" and view: "rag_view k' = sql_active (sv_space_id sv) d"
    using rp.restore_facts [of sv "k\<lparr>ks_db := d\<rparr>"] rp.restore_view [OF ok1, of sv] by (simp_all add: k')
  have none: "sql_active (sv_space_id sv) d i = None"
    using e by (auto simp: sql_active_def split: option.splits)
  then have "map_of (rg_active (ks_rag k')) i = None" using view by (metis rag_view_def)
  then have hid: "\<not> rag_eligible (ks_rag k') c source"
    if "map_of (rg_chunks (ks_rag k')) c = Some x" "vc_doc_id x = i" for c source x
    using that by (simp add: rag_eligible_def)
  have "sql_active (sv_space_id sv) d j = sql_active (sv_space_id sv) (ks_db k) j" if "j \<noteq> i" for j
    using e that by (auto simp: sql_active_def get_version_def split: sum.splits option.splits)
  with e none view hid show ?thesis by (auto simp: db)
qed

definition ex_document :: document where
  "ex_document = \<lparr> doc_id = ''d'', doc_title = ''t'', doc_source_kind = ''upload'', doc_environment = ''prod'',
     doc_active_version_id = Some ''v'', doc_deleted_at = None, doc_index_status = ''indexed'' \<rparr>"

definition ex_version :: version where
  "ex_version = \<lparr> ver_id = ''v'', ver_document_id = ''d'', ver_content = ''x'', ver_content_sha256 = hash ''x'',
     ver_created_at = [], ver_status = ''active'', ver_index_status = ''indexed'', ver_space_id = ''s'', ver_chunks = [] \<rparr>"

definition ex_published :: kstate where
  "ex_published = \<lparr> ks_db = empty_db\<lparr>
       t_documents := [\<lparr> dr_id = ''d'', dr_namespace = ''local:upload'', dr_title = ''t'', dr_data = ex_document \<rparr>],
       t_versions := [\<lparr> vr_id = ''v'', vr_document = ''d'', vr_content_hash = hash ''x'', vr_data = ex_version \<rparr>]\<rparr>,
     ks_rag = ex_rag \<rparr>"

lemma knowledge_ok_ex_published: "knowledge_ok (ks_db ex_published)"
  by (simp add: ex_published_def knowledge_ok_def versions_agree_def documents_agree_def pointers_ok_def tok_def
      ex_document_def ex_version_def)

theorem DeleteDocument_hides_witness:
  "sql_active ''s'' (ks_db ex_published) ''d'' \<noteq> None
   \<and> (\<exists>doc k'. DeleteDocument ex_sv ''d'' ''v'' 7 ex_published = ((None, doc), k')
        \<and> sql_active ''s'' (ks_db k') ''d'' = None)"
proof -
  have "\<exists>doc d. delete_tx ''d'' ''v'' 7 (ks_db ex_published) = Inr (doc, d)"
    by (simp add: delete_tx_def ex_published_def get_document_def tget_def res_bind_def ensure_def ex_document_def
        insert_outbox_def empty_db_def tins_def Let_def)
  then obtain doc d where tx: "delete_tx ''d'' ''v'' 7 (ks_db ex_published) = Inr (doc, d)" by blast
  have "knowledge_ok (ks_db (ex_published\<lparr>ks_db := d\<rparr>))"
    using delete_tx_effect [OF tx knowledge_ok_ex_published] by simp
  from rp.restore_total [OF this, of ex_sv] tx
  obtain k' where "DeleteDocument ex_sv ''d'' ''v'' 7 ex_published = ((None, doc), k')"
    by (cases "RestoreProjection ex_sv (ex_published\<lparr>ks_db := d\<rparr>)") (simp add: DeleteDocument_def)
  moreover have "sql_active ''s'' (ks_db ex_published) ''d'' \<noteq> None"
    by (simp add: ex_published_def sql_active_def get_document_def get_version_def tget_def ex_document_def ex_version_def)
  ultimately show ?thesis
    using DeleteDocument_hides [OF knowledge_ok_ex_published, of ex_sv "''d''" "''v''" 7 doc k'] by (simp add: ex_sv_def)
qed

section \<open>The clean-up job\<close>

lemma map_of_fold_delete:
  "map_of (rg_chunks (fold delete_chunk is r)) c = (if c \<in> set is then None else map_of (rg_chunks r) c)"
  by (induction "is" arbitrary: r) (auto simp: delete_chunk_def delete_conv')

lemma map_of_DeleteVersion:
  assumes "distinct (map fst (rg_chunks r))"
  shows "map_of (rg_chunks (DeleteVersion ver r)) c = Some x \<longleftrightarrow>
    map_of (rg_chunks r) c = Some x \<and> vc_version_id x \<noteq> ver"
  using map_of_is_SomeI [OF assms] unfolding DeleteVersion_def
  by (force simp: map_of_fold_delete dest: map_of_SomeD)

lemma mark_sent_docs [simp]: "t_documents (mark_sent i d) = t_documents d" "t_versions (mark_sent i d) = t_versions d"
  by (simp_all add: mark_sent_def)

lemma save_document_effect:
  assumes ok: "knowledge_ok d" and g: "get_document i d = Inr doc"
  shows "knowledge_ok (save_document (doc\<lparr>doc_index_status := st\<rparr>) d)
    \<and> get_document j (save_document (doc\<lparr>doc_index_status := st\<rparr>) d)
        = (if j = i then Inr (doc\<lparr>doc_index_status := st\<rparr>) else get_document j d)"
proof -
  let ?doc = "doc\<lparr>doc_index_status := st\<rparr>"
  let ?d = "save_document ?doc d"
  have id: "doc_id doc = i" using get_document_ok g ok by (auto simp: knowledge_ok_def)
  then have docs: "t_documents ?d = tupd dr_id i (\<lambda>x. x\<lparr>dr_data := ?doc\<rparr>) (t_documents d)"
    and vers: "t_versions ?d = t_versions d" by (simp_all add: save_document_def)
  have tokd: "tok dr_id (t_documents d)" using ok by (simp add: knowledge_ok_def documents_agree_def)
  have only: "dr_data y = doc" if "y \<in> set (t_documents d)" "dr_id y = i" for y
    using lt.get_unique [OF tokd that(1)] that(2) g by (auto simp: get_document_Inr)
  have "documents_agree ?d"
    using ok id by (auto simp: knowledge_ok_def documents_agree_def docs tok_def map_tupd_other list_all_iff lt.upd_rows)
  moreover have "pointers_ok ?d"
    using ok only pointers_ok_cong [of ?d d] vers by (auto simp: knowledge_ok_def docs tupd_def)
  moreover have "get_document j ?d = (if j = i then Inr ?doc else get_document j d)"
    using g tokd by (auto simp: get_document_def docs lt.get_upd)
  ultimately show ?thesis using ok vers by (auto simp: knowledge_ok_def versions_agree_def)
qed

text \<open>A late clean-up job cannot hurt a version that was published again. When the job succeeds, the
  chunks it removes from the projection are exactly those of its version, and none at all when that version
  is live again; no document changes its pointer or its deletion mark; the active part of SQL is unchanged;
  and the job's row is marked as sent.\<close>

theorem dispatchCleanup_safe:
  assumes run: "dispatchCleanup del oid p k = Inr k'" and ok: "knowledge_ok (ks_db k)" and rok: "rag_ok (ks_rag k)"
    and pl: "cleanup_payload p = (i, vid)" and get: "get_document i (ks_db k) = Inr doc"
  shows "knowledge_ok (ks_db k') \<and> sql_active space (ks_db k') = sql_active space (ks_db k)
    \<and> (\<forall>c x. map_of (rg_chunks (ks_rag k')) c = Some x \<longleftrightarrow>
         map_of (rg_chunks (ks_rag k)) c = Some x \<and> (still_active doc vid \<or> vc_version_id x \<noteq> vid))
    \<and> rg_active (ks_rag k') = rg_active (ks_rag k)
    \<and> (\<forall>o1 \<in> set (t_outbox (ks_db k')). ob_id o1 = oid \<longrightarrow> ob_state o1 = ''sent'')"
proof -
  define d1 where "d1 = (if \<not> still_active doc vid \<and> doc_deleted_at doc \<noteq> None \<and> doc_active_version_id doc = Some vid
     then save_document (doc\<lparr>doc_index_status := ''removed''\<rparr>) (ks_db k) else ks_db k)"
  have db: "ks_db k' = mark_sent oid d1"
    and rag: "ks_rag k' = (if still_active doc vid then ks_rag k else DeleteVersion vid (ks_rag k))"
    using run pl get by (auto simp: dispatchCleanup_def res_bind_def d1_def Let_def split: if_splits option.splits)
  note sd = save_document_effect [OF ok get, where st = "''removed''"]
  have ok1: "knowledge_ok d1" using sd ok by (simp add: d1_def)
  have v: "get_version j d1 = get_version j (ks_db k)" for j by (simp add: d1_def save_document_def get_version_def)
  have same: "sql_active space d1 = sql_active space (ks_db k)"
  proof
    fix j
    show "sql_active space d1 j = sql_active space (ks_db k) j"
    proof (cases "d1 = ks_db k")
      case False
      then have d1: "d1 = save_document (doc\<lparr>doc_index_status := ''removed''\<rparr>) (ks_db k)" and "doc_deleted_at doc \<noteq> None"
        by (auto simp: d1_def split: if_splits)
      then show ?thesis using sd [of j] get v
        by (cases "j = i") (auto simp: sql_active_def split: sum.splits option.splits)
    qed simp
  qed
  have act: "rg_active (fold delete_chunk is r) = rg_active r" for "is" r
    by (induction "is" arbitrary: r) (simp_all add: delete_chunk_def)
  have "sql_active space (mark_sent oid d1) = sql_active space d1"
    by (rule sql_active_cong) simp_all
  moreover have "knowledge_ok (mark_sent oid d1)" using ok1 knowledge_ok_cong [of "mark_sent oid d1" d1] by simp
  moreover have "\<forall>o1 \<in> set (t_outbox (mark_sent oid d1)). ob_id o1 = oid \<longrightarrow> ob_state o1 = ''sent''"
    unfolding mark_sent_def by (simp add: tupd_def ball_Un)
  moreover have "map_of (rg_chunks (ks_rag k')) c = Some x \<longleftrightarrow>
      map_of (rg_chunks (ks_rag k)) c = Some x \<and> (still_active doc vid \<or> vc_version_id x \<noteq> vid)" for c x
    using map_of_DeleteVersion [of "ks_rag k" vid c x] rok by (simp add: rag rag_ok_def)
  moreover have "rg_active (ks_rag k') = rg_active (ks_rag k)" by (simp add: rag act DeleteVersion_def)
  ultimately show ?thesis using same by (simp add: db)
qed

lemma rag_ok_ex_rag: "rag_ok ex_rag"
  unfolding ex_rag_def by (intro rag_ok_ActivateVersions rag_ok_RestoreChunks)
    (simp add: rag_ok_def new_rag_def bm_ok_new)

theorem dispatchCleanup_safe_witness:
  "\<exists>k'. dispatchCleanup (Some None) ''o'' (PCleanup ''d'' ''v'') ex_published = Inr k'
     \<and> map_of (rg_chunks (ks_rag k')) = map_of (rg_chunks (ks_rag ex_published))"
proof -
  have g: "get_document ''d'' (ks_db ex_published) = Inr ex_document"
    by (simp add: ex_published_def get_document_def tget_def)
  have live: "still_active ex_document ''v''" by (simp add: still_active_def ex_document_def)
  with g obtain k' where run: "dispatchCleanup (Some None) ''o'' (PCleanup ''d'' ''v'') ex_published = Inr k'"
    by (simp add: dispatchCleanup_def cleanup_payload_def res_bind_def ensure_def)
  have "rag_ok (ks_rag ex_published)" by (simp add: ex_published_def rag_ok_ex_rag)
  from dispatchCleanup_safe [OF run knowledge_ok_ex_published this _ g, of "''v''" "''s''"] live
  have "map_of (rg_chunks (ks_rag k')) c = Some x \<longleftrightarrow> map_of (rg_chunks (ks_rag ex_published)) c = Some x" for c x
    by (simp add: cleanup_payload_def)
  then have "map_of (rg_chunks (ks_rag k')) = map_of (rg_chunks (ks_rag ex_published))"
    by (intro ext option.expand) (metis not_None_eq option.sel)+
  with run show ?thesis by auto
qed

section \<open>Restart\<close>

text \<open>The projection is rebuilt from SQL alone. On well-formed facts \<open>RestoreProjection\<close> does not
  fail and does not write SQL, and the document map of the projection afterwards is the active part of SQL,
  whatever the projection was before.\<close>

theorem RestoreProjection_exact:
  assumes "knowledge_ok (ks_db k)"
  shows "\<exists>k'. RestoreProjection sv k = (None, k') \<and> ks_db k' = ks_db k
    \<and> rag_view k' = sql_active (sv_space_id sv) (ks_db k)"
  using assms by (rule rp.restore_ok)

theorem RestoreProjection_exact_witness:
  "\<exists>k'. RestoreProjection ex_sv ex_published = (None, k')
     \<and> rag_view k' ''d'' = Some \<lparr> av_doc_id = ''d'', av_version_id = ''v'', av_space_id = ''s'' \<rparr>"
  using RestoreProjection_exact [OF knowledge_ok_ex_published, of ex_sv]
  by (auto simp: ex_published_def sql_active_def get_document_def get_version_def tget_def ex_document_def
      ex_version_def ex_sv_def project_version_def)

end
