(* ===== verification/Diagnosis.thy ===== *)
theory Diagnosis
  imports Knowledge
begin

text \<open>
  The diagnosis worker (\<open>eligible\<close> and \<open>diagnose\<close> of
  \<open>src/internal/workspace/diagnosis.go\<close>, \<open>ProcessAlertDiagnosis\<close> of \<open>service.go\<close>).

  A diagnosis is a sequence of transactions, each fenced by \<open>owned\<close>: per incident a started event,
  the record of the retrieval, and one transaction per hit. \<open>diagnose\<close> composes them the way the loop
  does; what the transactions commit before an error stays. The search, its readiness check, the scoring
  service, the cancellation of the context and the clock are fields of \<open>diag_env\<close>: \<open>de_time i n\<close> is
  the time of the \<open>n\<close>-th transaction for incident \<open>i\<close>.
\<close>

record diag_env =
  de_ready :: bool
  de_search :: "string \<Rightarrow> rag_result list ws"
  de_ctx_err :: "string \<Rightarrow> ws_error option"
  de_time :: "string \<Rightarrow> nat \<Rightarrow> time"
  de_score :: "int option"
  de_judge_began :: time
  de_judge_done :: time
  de_finished :: time
  de_panic :: bool

section \<open>Qualification of a hit\<close>

definition zero_sql_chunk :: chunk where
  "zero_sql_chunk = \<lparr> chk_id = [], chk_version_id = [], chk_document_id = [], chk_title = [], chk_snippet = [],
     chk_source = [], chk_space_id = [] \<rparr>"

definition applicable :: "string \<Rightarrow> string \<Rightarrow> bool" where
  "applicable env inc \<longleftrightarrow> env = ''unknown'' \<or> env = ''all'' \<or> env = inc"

definition anchored :: "string \<Rightarrow> chunk \<Rightarrow> bool" where
  "anchored name c \<longleftrightarrow>
     (let anchor = to_lower (trim_space name); hay = to_lower (chk_title c @ newline @ chk_snippet c)
      in anchor \<noteq> [] \<and> contains hay anchor)"

definition eligible :: "service \<Rightarrow> incident \<Rightarrow> rag_result \<Rightarrow> db \<Rightarrow> (chunk \<times> bool) ws" where
  "eligible sv inc h d =
     (if res_chunk_id h = [] \<or> res_version_id h = [] \<or> res_doc_id h = [] \<or> res_source h = ''incident''
      then Inr (zero_sql_chunk, False)
      else res_bind (get_chunk (res_chunk_id h) d) (\<lambda>c.
        res_bind (get_document (res_doc_id h) d) (\<lambda>doc.
          if doc_deleted_at doc \<noteq> None \<or> doc_active_version_id doc \<noteq> Some (res_version_id h)
             \<or> chk_version_id c \<noteq> res_version_id h \<or> chk_space_id c \<noteq> sv_space_id sv
          then Inr (c, False)
          else if \<not> applicable (doc_environment doc) (inc_environment inc) then Inr (c, False)
          else Inr (c, anchored (inc_name inc) c))))"

section \<open>The transactions of a diagnosis\<close>

definition source_unavailable :: api_error where
  "source_unavailable = \<lparr> ae_code = ''source_unavailable'', ae_message = bytes [0xE7, 0x9F, 0xA5, 0xE8, 0xAF,
     0x86, 0xE6, 0xA3, 0x80, 0xE7, 0xB4, 0xA2, 0xE6, 0xBA, 0x90, 0xE4, 0xB8, 0x8D, 0xE5, 0x8F, 0xAF, 0xE7,
     0x94, 0xA8], ae_retryable = True \<rparr>"

definition retrieval_id :: "run \<Rightarrow> string \<Rightarrow> string" where
  "retrieval_id r i = stableID ''ret_'' (run_id r @ '':'' @ dec (run_current_attempt r) @ '':'' @ i)"

definition retrieval_evidence :: "service \<Rightarrow> run \<Rightarrow> string \<Rightarrow> string \<Rightarrow> bool \<Rightarrow> time \<Rightarrow> evidence" where
  "retrieval_evidence sv r i query failed now =
     \<lparr> evi_id = retrieval_id r i, evi_kind = ''retrieval'', evi_source_kind = ''system'',
       evi_source_ref = retrieval_id r i, evi_recorded_at = fmt_nano now, evi_observed_at = None,
       evi_document_id = None, evi_version_id = None, evi_chunk_id = None, evi_snippet = None,
       evi_metadata = [(''query'', MStr query),
         (''status'', MStr (if failed then ''source_unavailable'' else ''succeeded'')),
         (''retrieval_config_version'', MStr ''lexical-anchor-v1''), (''embedding_space_id'', MStr (sv_space_id sv)),
         (''attempt'', MInt (int (run_current_attempt r))), (''incident_id'', MStr i), (''run_id'', MStr (run_id r))] \<rparr>"

definition insert_retrieval :: "evidence \<Rightarrow> string \<Rightarrow> string \<Rightarrow> db \<Rightarrow> db ws" where
  "insert_retrieval e rid i d =
     ensure (has_run rid d \<and> has_incident i d) ErrConstraint
       (res_bind (res_of ErrConstraint (tins tr_id \<lparr> tr_id = evi_id e, tr_run = rid, tr_incident = i, tr_data = e \<rparr>
            (t_retrievals d))) (\<lambda>t. Inr (d\<lparr>t_retrievals := t\<rparr>)))"

definition insert_evidence :: "evidence \<Rightarrow> string \<Rightarrow> string \<Rightarrow> db \<Rightarrow> db ws" where
  "insert_evidence e rid i d =
     ensure (has_run rid d \<and> has_incident i d) ErrConstraint
       (res_bind (res_of ErrConstraint (tins vi_id \<lparr> vi_id = evi_id e, vi_run = Some rid, vi_incident = Some i, vi_data = e \<rparr>
            (t_evidence d))) (\<lambda>t. Inr (d\<lparr>t_evidence := t\<rparr>)))"

definition retrieval_tx :: "service \<Rightarrow> run \<Rightarrow> string \<Rightarrow> string \<Rightarrow> bool \<Rightarrow> int \<Rightarrow> time \<Rightarrow> db \<Rightarrow> db ws" where
  "retrieval_tx sv r i query failed ms now d =
     res_bind (owned r d) (\<lambda>_.
       let ret = retrieval_evidence sv r i query failed now in
       res_bind (insert_retrieval ret (run_id r) i d) (\<lambda>d.
       res_bind (insert_evidence ret (run_id r) i d) (\<lambda>d.
         addEvent r ''retrieval'' (if failed then ''failed'' else ''succeeded'') (Some ms) (Some (retrieval_id r i))
           (if failed then Some source_unavailable else None) now d)))"

definition citation_id :: "run \<Rightarrow> string \<Rightarrow> string \<Rightarrow> string" where
  "citation_id r i c = stableID ''chunk_'' (run_id r @ '':'' @ dec (run_current_attempt r) @ '':'' @ i @ '':'' @ c)"

definition chunk_evidence :: "run \<Rightarrow> string \<Rightarrow> chunk \<Rightarrow> nat \<Rightarrow> time \<Rightarrow> evidence" where
  "chunk_evidence r i c rank now =
     \<lparr> evi_id = citation_id r i (chk_id c), evi_kind = ''document_chunk'', evi_source_kind = chk_source c,
       evi_source_ref = chk_id c, evi_recorded_at = fmt_nano now, evi_observed_at = None,
       evi_document_id = Some (chk_document_id c), evi_version_id = Some (chk_version_id c),
       evi_chunk_id = Some (chk_id c), evi_snippet = Some (chk_snippet c),
       evi_metadata = [(''snippet_sha256'', MStr (hash (chk_snippet c))), (''retrieval_id'', MStr (retrieval_id r i)),
         (''attempt'', MInt (int (run_current_attempt r))), (''run_id'', MStr (run_id r)), (''incident_id'', MStr i),
         (''verification'', MStr ''unverified''), (''eligibility_policy'', MStr ''lexical-anchor-v1''),
         (''rank'', MInt (int rank))] \<rparr>"

definition ignore_hit :: "string \<Rightarrow> string \<Rightarrow> hit_data \<Rightarrow> db \<Rightarrow> db ws" where
  "ignore_hit ret c h d =
     ensure (tget tr_id ret (t_retrievals d) \<noteq> None \<and> tget kr_id c (t_chunks d) \<noteq> None) ErrConstraint
       (Inr (d\<lparr>t_hits := tign (\<lambda>x. (hr_retrieval x, hr_chunk x)) \<lparr> hr_retrieval = ret, hr_chunk = c, hr_data = h \<rparr> (t_hits d)\<rparr>))"

definition ignore_evidence :: "evidence \<Rightarrow> string \<Rightarrow> string \<Rightarrow> db \<Rightarrow> db ws" where
  "ignore_evidence e rid i d =
     ensure (has_run rid d \<and> has_incident i d) ErrConstraint
       (Inr (d\<lparr>t_evidence := tign vi_id \<lparr> vi_id = evi_id e, vi_run = Some rid, vi_incident = Some i, vi_data = e \<rparr> (t_evidence d)\<rparr>))"

text \<open>\<open>report_citations\<close> has two keys: the triple of run, incident and chunk, and the evidence.\<close>

definition citation_key :: "citation_row \<Rightarrow> string \<times> string \<times> string" where
  "citation_key c = (cr_run c, cr_incident c, cr_chunk c)"

definition ignore_citation :: "citation_row \<Rightarrow> db \<Rightarrow> db ws" where
  "ignore_citation c d =
     ensure (has_run (cr_run c) d \<and> has_incident (cr_incident c) d \<and> tget tr_id (cr_retrieval c) (t_retrievals d) \<noteq> None
             \<and> tget kr_id (cr_chunk c) (t_chunks d) \<noteq> None) ErrConstraint
       (Inr (if cr_evidence c \<in> set (map cr_evidence (t_citations d)) then d
             else d\<lparr>t_citations := tign citation_key c (t_citations d)\<rparr>))"

definition cite_run :: "string \<Rightarrow> run \<Rightarrow> run" where
  "cite_run e r = r\<lparr>run_citation_ids := run_citation_ids r @ [e], run_revision := run_revision r + 1\<rparr>"

definition cite_tx :: "run \<Rightarrow> string \<Rightarrow> chunk \<Rightarrow> nat \<Rightarrow> time \<Rightarrow> db \<Rightarrow> db ws" where
  "cite_tx r i c rank now d =
     (let e = citation_id r i (chk_id c) in
      res_bind (ignore_evidence (chunk_evidence r i c rank now) (run_id r) i d) (\<lambda>d.
      res_bind (ignore_citation \<lparr> cr_run = run_id r, cr_incident = i, cr_retrieval = retrieval_id r i,
                  cr_chunk = chk_id c, cr_evidence = e \<rparr> d) (\<lambda>d.
      res_bind (get_run (run_id r) d) (\<lambda>current. Inr (saveRun (cite_run e current) d)))))"

definition hit_tx :: "run \<Rightarrow> string \<Rightarrow> rag_result \<Rightarrow> nat \<Rightarrow> chunk \<Rightarrow> bool \<Rightarrow> time \<Rightarrow> db \<Rightarrow> db ws" where
  "hit_tx r i h rank c ok now d =
     res_bind (owned r d) (\<lambda>_.
     res_bind (ignore_hit (retrieval_id r i) (chk_id c)
        \<lparr> hd_rank = rank, hd_dense_score = res_dense_score h, hd_bm25_score = res_bm25_score h,
          hd_rrf_score = res_rrf_score h, hd_eligibility = ok \<rparr> d) (\<lambda>d.
       if ok then cite_tx r i c rank now d else Inr d))"

section \<open>The loop\<close>

definition incident_line :: "incident \<Rightarrow> string" where
  "incident_line inc = newline @ ''['' @ inc_severity inc @ ''] '' @ inc_name inc @ bytes [0xEF, 0xBC, 0x88]
     @ inc_environment inc @ '' / '' @ inc_service inc @ bytes [0xEF, 0xBC, 0x89] @ newline"

definition source_line :: "string \<Rightarrow> chunk \<Rightarrow> string" where
  "source_line doc c = bytes [0xE6, 0x9D, 0xA5, 0xE6, 0xBA, 0x90, 0xE7, 0x89, 0x87, 0xE6, 0xAE, 0xB5, 0xE3, 0x80, 0x90]
     @ doc @ '' / '' @ chk_version_id c @ bytes [0xE3, 0x80, 0x91, 0xEF, 0xBC, 0x9A] @ newline
     @ chk_snippet c @ newline"

definition unverified_line :: string where
  "unverified_line = bytes [0xE4, 0xBB, 0xA5, 0xE4, 0xB8, 0x8A, 0xE4, 0xB8, 0xBA, 0xE6, 0x9D, 0xA5, 0xE6, 0xBA, 0x90,
     0xE8, 0xAE, 0xB0, 0xE5, 0xBD, 0x95, 0xEF, 0xBC, 0x8C, 0xE5, 0xB0, 0x9A, 0xE6, 0x9C, 0xAA, 0xE7, 0x8B, 0xAC, 0xE7,
     0xAB, 0x8B, 0xE6, 0xA0, 0xB8, 0xE9, 0xAA, 0x8C, 0xEF, 0xBC, 0x8C, 0xE4, 0xB8, 0x8D, 0xE4, 0xBB, 0xA3, 0xE8, 0xA1,
     0xA8, 0xE5, 0xB7, 0xB2, 0xE7, 0xA1, 0xAE, 0xE8, 0xAE, 0xA4, 0xE6, 0xA0, 0xB9, 0xE5, 0x9B, 0xA0, 0xE3, 0x80, 0x82]
     @ newline"

definition unavailable_line :: string where
  "unavailable_line = bytes [0xE7, 0x9F, 0xA5, 0xE8, 0xAF, 0x86, 0xE6, 0xA3, 0x80, 0xE7, 0xB4, 0xA2, 0xE6, 0xBA, 0x90,
     0xE4, 0xB8, 0x8D, 0xE5, 0x8F, 0xAF, 0xE7, 0x94, 0xA8, 0xEF, 0xBC, 0x9B, 0xE6, 0x9C, 0xAC, 0xE8, 0xBD, 0xAE, 0xE6,
     0x9C, 0xAA, 0xE7, 0xBB, 0x99, 0xE5, 0x87, 0xBA, 0xE5, 0xA4, 0x84, 0xE7, 0xBD, 0xAE, 0xE5, 0xBB, 0xBA, 0xE8, 0xAE,
     0xAE, 0xEF, 0xBC, 0x8C, 0xE8, 0xAF, 0xB7, 0xE4, 0xBA, 0xBA, 0xE5, 0xB7, 0xA5, 0xE6, 0xA3, 0x80, 0xE6, 0x9F, 0xA5,
     0xE6, 0x95, 0xB0, 0xE6, 0x8D, 0xAE, 0xE6, 0xBA, 0x90, 0xE3, 0x80, 0x82] @ newline"

definition timeout_error :: api_error where
  "timeout_error = \<lparr> ae_code = ''timeout'', ae_message = bytes [0xE8, 0xAF, 0x8A, 0xE6, 0x96, 0xAD, 0xE8, 0xB6, 0x85,
     0xE6, 0x97, 0xB6, 0xE6, 0x88, 0x96, 0xE5, 0x8F, 0x96, 0xE6, 0xB6, 0x88], ae_retryable = True \<rparr>"

definition partial_source_error :: api_error where
  "partial_source_error = \<lparr> ae_code = ''source_unavailable'', ae_message = bytes [0xE9, 0x83, 0xA8, 0xE5, 0x88, 0x86,
     0xE6, 0xA3, 0x80, 0xE7, 0xB4, 0xA2, 0xE6, 0xBA, 0x90, 0xE4, 0xB8, 0x8D, 0xE5, 0x8F, 0xAF, 0xE7, 0x94, 0xA8],
     ae_retryable = True \<rparr>"

definition dependency_error :: api_error where
  "dependency_error = \<lparr> ae_code = ''source_unavailable'', ae_message = bytes [0xE8, 0xAF, 0x8A, 0xE6, 0x96, 0xAD, 0xE4,
     0xBE, 0x9D, 0xE8, 0xB5, 0x96, 0xE5, 0xA4, 0xB1, 0xE8, 0xB4, 0xA5], ae_retryable = True \<rparr>"

definition internal_error :: api_error where
  "internal_error = \<lparr> ae_code = ''internal_error'', ae_message = bytes [0xE8, 0xAF, 0x8A, 0xE6, 0x96, 0xAD, 0xE6, 0x89,
     0xA7, 0xE8, 0xA1, 0x8C, 0xE5, 0xA4, 0xB1, 0xE8, 0xB4, 0xA5], ae_retryable = False \<rparr>"

text \<open>The local variables of the loop: the report so far, the evidence state, the failure of a source and
  the number of qualified hits of the current incident.\<close>

record diag_acc =
  da_report :: string
  da_state :: string
  da_failed :: bool
  da_qualified :: nat

definition write_report :: "string \<Rightarrow> diag_acc \<Rightarrow> diag_acc" where
  "write_report s a = a\<lparr>da_report := da_report a @ s\<rparr>"

definition count_citation :: "string \<Rightarrow> chunk \<Rightarrow> diag_acc \<Rightarrow> diag_acc" where
  "count_citation doc c a = (write_report (source_line doc c) a)\<lparr>da_qualified := da_qualified a + 1\<rparr>"

fun hit_loop :: "service \<Rightarrow> diag_env \<Rightarrow> run \<Rightarrow> incident \<Rightarrow> string \<Rightarrow> nat \<Rightarrow> rag_result list \<Rightarrow> diag_acc \<Rightarrow> db \<Rightarrow>
    (ws_error option \<times> diag_acc) \<times> db" where
  "hit_loop sv env r inc i rank [] a d = ((None, a), d)"
| "hit_loop sv env r inc i rank (h # hits) a d =
     (case eligible sv inc h d of
        Inl e \<Rightarrow> ((Some e, a), d)
      | Inr (c, ok) \<Rightarrow>
          if chk_id c = [] then hit_loop sv env r inc i (rank + 1) hits a d
          else (case hit_tx r i h (rank + 1) c ok (de_time env i (rank + 2)) d of
                  Inl e \<Rightarrow> ((Some e, a), d)
                | Inr d' \<Rightarrow>
                    hit_loop sv env r inc i (rank + 1) hits (if ok then count_citation (res_doc h) c a else a) d'))"

definition search_hits :: "diag_env \<Rightarrow> string \<Rightarrow> rag_result list ws" where
  "search_hits env query = (if de_ready env then de_search env query else Inl ErrUnavailable)"

definition close_incident :: "bool \<Rightarrow> diag_acc \<Rightarrow> diag_acc" where
  "close_incident failed a =
     (if 0 < da_qualified a then write_report unverified_line (a\<lparr>da_state := ''has_citations''\<rparr>)
      else if failed then write_report unavailable_line a
      else write_report (SafeReport @ newline) a)"

definition diagnose_incident :: "service \<Rightarrow> diag_env \<Rightarrow> run \<Rightarrow> string \<Rightarrow> diag_acc \<Rightarrow> db \<Rightarrow>
    (ws_error option \<times> diag_acc) \<times> db" where
  "diagnose_incident sv env r i a d =
     (case get_incident i d of
        Inl e \<Rightarrow> ((Some e, a), d)
      | Inr inc \<Rightarrow>
          (case run_event r ''retrieval'' ''started'' None (Some (retrieval_id r i)) None (de_time env i 0) d of
             Inl e \<Rightarrow> ((Some e, a), d)
           | Inr d1 \<Rightarrow>
               (let found = search_hits env (inc_name inc);
                    failed = isl found;
                    hits = (case found of Inl _ \<Rightarrow> [] | Inr hs \<Rightarrow> hs);
                    ms = ms_between (de_time env i 0) (de_time env i 1);
                    a1 = a\<lparr>da_failed := da_failed a \<or> failed\<rparr>
                in case retrieval_tx sv r i (inc_name inc) failed ms (de_time env i 1) d1 of
                     Inl e \<Rightarrow> ((Some e, a1), d1)
                   | Inr d2 \<Rightarrow>
                       (case hit_loop sv env r inc i 0 hits ((write_report (incident_line inc) a1)\<lparr>da_qualified := 0\<rparr>) d2 of
                          ((Some e, a2), d3) \<Rightarrow> ((Some e, a2), d3)
                        | ((None, a2), d3) \<Rightarrow> ((None, close_incident failed a2), d3)))))"

text \<open>The result of the loop over the incidents: an error to return, the request to finish because the
  context is done, or the end of the loop.\<close>

datatype loop_exit = LoopError ws_error | LoopDone | LoopTimeout

fun incident_loop :: "service \<Rightarrow> diag_env \<Rightarrow> run \<Rightarrow> string list \<Rightarrow> diag_acc \<Rightarrow> db \<Rightarrow> (loop_exit \<times> diag_acc) \<times> db" where
  "incident_loop sv env r [] a d = ((LoopDone, a), d)"
| "incident_loop sv env r (i # is) a d =
     (if de_ctx_err env i \<noteq> None then ((LoopTimeout, a), d)
      else case diagnose_incident sv env r i a d of
        ((Some e, a'), d') \<Rightarrow> ((LoopError e, a'), d')
      | ((None, a'), d') \<Rightarrow> incident_loop sv env r is a' d')"

definition start_acc :: diag_acc where
  "start_acc = \<lparr> da_report = [], da_state = ''no_evidence'', da_failed = False, da_qualified = 0 \<rparr>"

definition tx_result :: "db \<Rightarrow> db ws \<Rightarrow> ws_error option \<times> db" where
  "tx_result d m = (case m of Inl e \<Rightarrow> (Some e, d) | Inr d' \<Rightarrow> (None, d'))"

definition diagnose :: "(string \<Rightarrow> json option) \<Rightarrow> service \<Rightarrow> diag_env \<Rightarrow> run \<Rightarrow> time \<Rightarrow> db \<Rightarrow> ws_error option \<times> db" where
  "diagnose parse sv env r began d =
     (case incident_loop sv env r (run_incident_ids r) start_acc d of
        ((LoopError e, _), d1) \<Rightarrow> (Some e, d1)
      | ((LoopTimeout, _), d1) \<Rightarrow>
          tx_result d1 (finish parse sv r began ''failed'' ''source_unavailable'' SafeReport None (Some timeout_error)
            (de_finished env) d1)
      | ((LoopDone, a), d1) \<Rightarrow>
          (let state = (if da_failed a then ''source_unavailable'' else da_state a) in
           case judge sv r (de_score env) (de_judge_began env) (de_judge_done env) d1 of
             ((_, Some e), d2) \<Rightarrow> (Some e, d2)
           | ((score, None), d2) \<Rightarrow>
               tx_result d2 (finish parse sv r began (if da_failed a then ''failed'' else ''succeeded'') state
                 (da_report a) score (if da_failed a then Some partial_source_error else None) (de_finished env) d2)))"

text \<open>The handler. An error other than fencing makes it publish a failed run; a panic of the diagnosis
  (\<open>de_panic\<close>, here at its start) does so too and stops the retries.\<close>

definition is_timeout :: "ws_error \<Rightarrow> bool" where
  "is_timeout e \<longleftrightarrow> e = ErrCanceled \<or> e = ErrDeadline"

definition publish_failure :: "(string \<Rightarrow> json option) \<Rightarrow> service \<Rightarrow> run \<Rightarrow> time \<Rightarrow> api_error \<Rightarrow> time \<Rightarrow> db \<Rightarrow> db" where
  "publish_failure parse sv r began ae now d =
     snd (tx_result d (finish parse sv r began ''failed'' ''source_unavailable'' SafeReport None (Some ae) now d))"

definition ProcessAlertDiagnosis :: "(string \<Rightarrow> json option) \<Rightarrow> service \<Rightarrow> diag_env \<Rightarrow> string \<Rightarrow> time \<Rightarrow> db \<Rightarrow>
    ws_error option \<times> db" where
  "ProcessAlertDiagnosis parse sv env i now d =
     (case claim i now d of
        Inl e \<Rightarrow> (Some e, d)
      | Inr ((_, False), d1) \<Rightarrow> (None, d1)
      | Inr ((r, True), d1) \<Rightarrow>
          if de_panic env
          then (Some ErrSkipRetry, publish_failure parse sv r now internal_error (de_finished env) d1)
          else (case diagnose parse sv env r now d1 of
                  (None, d2) \<Rightarrow> (None, d2)
                | (Some e, d2) \<Rightarrow>
                    if e = ErrFenced then (Some e, d2)
                    else (Some e, publish_failure parse sv r now
                            (if is_timeout e then timeout_error else dependency_error) (de_finished env) d2)))"

section \<open>Each transaction keeps the tables well-formed\<close>

lemma core_ok_evidence:
  assumes "core_ok d" and "d' = d\<lparr>t_evidence := t_evidence d'\<rparr>" and "evidence_ok d'"
  shows "core_ok d' \<and> runs_follow d d'"
proof -
  have t: "t_runs d' = t_runs d" "t_events d' = t_events d" "t_incidents d' = t_incidents d"
    "t_run_incidents d' = t_run_incidents d" "t_outbox d' = t_outbox d"
    using assms(2) by (cases d; cases d'; simp)+
  have "incidents_ok d' = incidents_ok d" by (rule incidents_ok_cong) (simp_all add: t)
  moreover have "events_ok d' = events_ok d" by (rule events_ok_cong) (simp_all add: t)
  moreover have "outbox_ok d' = outbox_ok d" by (rule outbox_ok_cong) (simp_all add: t)
  ultimately show ?thesis
    using assms(1,3) by (simp add: core_ok_def runs_ok_def links_ok_def queue_ok_def has_run_def
        has_incident_def run_links_def t runs_follow_same)
qed

lemma core_ok_frame:
  assumes "core_ok d" and "t_runs d' = t_runs d" "t_events d' = t_events d" "t_incidents d' = t_incidents d"
    "t_run_incidents d' = t_run_incidents d" "t_outbox d' = t_outbox d" "t_evidence d' = t_evidence d"
  shows "core_ok d' \<and> runs_follow d d'"
proof -
  note t = assms(2-)
  have "incidents_ok d' = incidents_ok d" by (rule incidents_ok_cong) (simp_all add: t)
  moreover have "events_ok d' = events_ok d" by (rule events_ok_cong) (simp_all add: t)
  moreover have "outbox_ok d' = outbox_ok d" by (rule outbox_ok_cong) (simp_all add: t)
  ultimately show ?thesis
    using assms(1) by (simp add: core_ok_def runs_ok_def links_ok_def queue_ok_def evidence_ok_def has_run_def
        has_incident_def run_links_def t runs_follow_same)
qed

lemma insert_evidence_Inr:
  "insert_evidence e rid i d = Inr d' \<longleftrightarrow> has_run rid d \<and> has_incident i d \<and> evi_id e \<notin> set (map vi_id (t_evidence d))
    \<and> d' = d\<lparr>t_evidence := t_evidence d @ [\<lparr> vi_id = evi_id e, vi_run = Some rid, vi_incident = Some i, vi_data = e \<rparr>]\<rparr>"
  by (auto simp: insert_evidence_def res_bind_eq_Inr tins_Some)

lemma insert_retrieval_Inr:
  "insert_retrieval e rid i d = Inr d' \<longleftrightarrow> has_run rid d \<and> has_incident i d \<and> evi_id e \<notin> set (map tr_id (t_retrievals d))
    \<and> d' = d\<lparr>t_retrievals := t_retrievals d @ [\<lparr> tr_id = evi_id e, tr_run = rid, tr_incident = i, tr_data = e \<rparr>]\<rparr>"
  by (auto simp: insert_retrieval_def res_bind_eq_Inr tins_Some)

lemma evidence_ok_append:
  assumes "evidence_ok d" and "has_run rid d" and "evi_id e \<notin> set (map vi_id (t_evidence d))"
  shows "evidence_ok (d\<lparr>t_evidence := t_evidence d @ [\<lparr> vi_id = evi_id e, vi_run = Some rid, vi_incident = j, vi_data = e \<rparr>]\<rparr>)"
  using assms by (auto simp: evidence_ok_def tok_def has_run_def)

lemma insert_evidence_effect:
  assumes "insert_evidence e rid i d = Inr d'" and "core_ok d"
  shows "core_ok d' \<and> runs_follow d d'"
proof (rule core_ok_evidence [OF assms(2)])
  have ev: "evidence_ok d" using assms(2) by (simp add: core_ok_def)
  show "evidence_ok d'" and "d' = d\<lparr>t_evidence := t_evidence d'\<rparr>"
    using assms(1) evidence_ok_append [OF ev] unfolding insert_evidence_Inr by auto
qed

lemma ignore_evidence_effect:
  assumes "ignore_evidence e rid i d = Inr d'" and "core_ok d"
  shows "core_ok d' \<and> runs_follow d d'"
proof (rule core_ok_evidence [OF assms(2)])
  have ev: "evidence_ok d" using assms(2) by (simp add: core_ok_def)
  show "evidence_ok d'" and "d' = d\<lparr>t_evidence := t_evidence d'\<rparr>"
    using assms(1) evidence_ok_append [OF ev] ev by (auto simp: ignore_evidence_def tign_def evidence_ok_def has_run_def)
qed

lemma retrieval_tx_cases:
  assumes "retrieval_tx sv r i query failed ms now d = Inr d'"
  obtains d1 d2 where "owned r d = Inr ()"
    and "insert_retrieval (retrieval_evidence sv r i query failed now) (run_id r) i d = Inr d1"
    and "insert_evidence (retrieval_evidence sv r i query failed now) (run_id r) i d1 = Inr d2"
    and "addEvent r ''retrieval'' (if failed then ''failed'' else ''succeeded'') (Some ms) (Some (retrieval_id r i))
           (if failed then Some source_unavailable else None) now d2 = Inr d'"
  using assms by (auto simp: retrieval_tx_def res_bind_eq_Inr Let_def)

lemma retrieval_tx_effect:
  assumes "retrieval_tx sv r i query failed ms now d = Inr d'" and "core_ok d"
  shows "core_ok d' \<and> runs_follow d d'"
  using assms(1)
proof (cases rule: retrieval_tx_cases)
  case (1 d1 d2)
  have "core_ok d1 \<and> runs_follow d d1"
    using 1(2) by (intro core_ok_frame [OF assms(2)]) (auto simp: insert_retrieval_Inr)
  then show ?thesis
    using insert_evidence_effect [OF 1(3)] addEvent_effect [OF 1(4)] runs_follow_trans by blast
qed

text \<open>Rows of retrievals, hits and citations are outside the core tables.\<close>

lemma ignore_hit_Inr:
  "ignore_hit ret c h d = Inr d' \<longleftrightarrow> tget tr_id ret (t_retrievals d) \<noteq> None \<and> tget kr_id c (t_chunks d) \<noteq> None
    \<and> d' = d\<lparr>t_hits := tign (\<lambda>x. (hr_retrieval x, hr_chunk x)) \<lparr> hr_retrieval = ret, hr_chunk = c, hr_data = h \<rparr> (t_hits d)\<rparr>"
  by (auto simp: ignore_hit_def)

lemma ignore_citation_Inr:
  "ignore_citation c d = Inr d' \<Longrightarrow> d' = d\<lparr>t_citations := t_citations d'\<rparr>
     \<and> (t_citations d' = t_citations d \<or> t_citations d' = t_citations d @ [c])"
  by (auto simp: ignore_citation_def tign_def split: if_splits)

lemma cite_tx_cases:
  assumes "cite_tx r i c rank now d = Inr d'"
  obtains d1 d2 current where "ignore_evidence (chunk_evidence r i c rank now) (run_id r) i d = Inr d1"
    and "ignore_citation \<lparr> cr_run = run_id r, cr_incident = i, cr_retrieval = retrieval_id r i,
                  cr_chunk = chk_id c, cr_evidence = citation_id r i (chk_id c) \<rparr> d1 = Inr d2"
    and "get_run (run_id r) d2 = Inr current" and "d' = saveRun (cite_run (citation_id r i (chk_id c)) current) d2"
  using assms by (auto simp: cite_tx_def res_bind_eq_Inr Let_def)

lemma ignore_citation_frame:
  assumes "ignore_citation c d = Inr d'" and "core_ok d"
  shows "core_ok d' \<and> runs_follow d d' \<and> t_runs d' = t_runs d"
proof -
  have "d' = d\<lparr>t_citations := t_citations d'\<rparr>" using ignore_citation_Inr [OF assms(1)] by simp
  then have t: "t_runs d' = t_runs d" "t_events d' = t_events d" "t_incidents d' = t_incidents d"
    "t_run_incidents d' = t_run_incidents d" "t_outbox d' = t_outbox d" "t_evidence d' = t_evidence d"
    by (cases d; cases d'; simp)+
  with core_ok_frame [OF assms(2)] show ?thesis by blast
qed

lemma owned_running:
  assumes "owned r d = Inr u" and "core_ok d" and "get_run (run_id r) d = Inr current"
  shows "run_status current = ''running'' \<and> run_current_attempt current = run_current_attempt r
    \<and> run_id current = run_id r"
proof -
  from assms(1,3) obtain x where x: "tget rr_id (run_id r) (t_runs d) = Some x" "rr_data x = current"
    "rr_attempt x = run_current_attempt r" "rr_status x = ''running''"
    by (auto simp: owned_Inr get_run_Inr)
  with assms(2) tget_SomeD [OF x(1)] show ?thesis
    by (auto simp: core_ok_def runs_ok_def list_all_iff row_agrees_def)
qed

lemma cite_tx_effect:
  assumes tx: "cite_tx r i c rank now d = Inr d'" and ok: "core_ok d" and own: "owned r d = Inr ()"
  shows "core_ok d' \<and> runs_follow d d'"
  using tx
proof (cases rule: cite_tx_cases)
  case (1 d1 d2 current)
  have e1: "core_ok d1 \<and> runs_follow d d1" by (rule ignore_evidence_effect [OF 1(1) ok])
  then have e2: "core_ok d2 \<and> runs_follow d1 d2" using ignore_citation_frame [OF 1(2)] by blast
  have runs: "t_runs d2 = t_runs d"
    using 1(1) ignore_citation_frame [OF 1(2)] e1 by (auto simp: ignore_evidence_def)
  then have "owned r d2 = Inr ()" using own by (simp add: owned_def)
  note cur = owned_running [OF this conjunct1 [OF e2] 1(3)]
  then have "run_succeeds current (cite_run (citation_id r i (chk_id c)) current)"
    by (simp add: run_succeeds_def cite_run_def terminal_def)
  moreover have "queue_entry (cite_run (citation_id r i (chk_id c)) current) d2"
    using cur e2 1(3) by (intro queue_entry_running [of d2 "run_id r" current]) (simp_all add: cite_run_def terminal_def)
  ultimately have "core_ok d' \<and> runs_follow d2 d'"
    unfolding 1(4) using e2 1(3) by (intro saveRun_effect) auto
  with e1 e2 runs_follow_trans show ?thesis by blast
qed

lemma hit_tx_cases:
  assumes "hit_tx r i h rank c ok now d = Inr d'"
  obtains hd d1 where "owned r d = Inr ()" and "ignore_hit (retrieval_id r i) (chk_id c) hd d = Inr d1"
    and "if ok then cite_tx r i c rank now d1 = Inr d' else d' = d1"
  using assms unfolding hit_tx_def res_bind_eq_Inr by (cases ok) (simp_all, blast+)

lemma hit_tx_effect:
  assumes "hit_tx r i h rank c ok now d = Inr d'" and "core_ok d"
  shows "core_ok d' \<and> runs_follow d d'"
  using assms(1)
proof (cases rule: hit_tx_cases)
  case (1 hd d1)
  have t: "t_runs d1 = t_runs d" "core_ok d1 \<and> runs_follow d d1"
    using 1(2) core_ok_frame [OF assms(2), of d1] by (auto simp: ignore_hit_Inr)
  then have "owned r d1 = Inr ()" using 1(1) by (simp add: owned_def)
  with t 1(3) cite_tx_effect [of r i c rank now d1 d'] runs_follow_trans show ?thesis
    by (auto split: if_splits)
qed

section \<open>What a diagnosis may cite\<close>

text \<open>A citation is qualified in the facts \<open>d\<close>: its chunk belongs to the live active version of a document,
  in the configured embedding space and an applicable environment, and contains the name of the alert.\<close>

definition qualified_citation :: "service \<Rightarrow> run \<Rightarrow> db \<Rightarrow> citation_row \<Rightarrow> bool" where
  "qualified_citation sv r d x \<longleftrightarrow> cr_run x = run_id r
     \<and> (\<exists>inc j c i doc. get_incident (cr_incident x) d = Inr inc
          \<and> get_chunk j d = Inr c \<and> chk_id c = cr_chunk x \<and> chk_space_id c = sv_space_id sv
          \<and> get_document i d = Inr doc \<and> still_active doc (chk_version_id c)
          \<and> applicable (doc_environment doc) (inc_environment inc) \<and> anchored (inc_name inc) c)"

text \<open>The tables qualification reads.\<close>

definition same_facts :: "db \<Rightarrow> db \<Rightarrow> bool" where
  "same_facts d d' \<longleftrightarrow> t_incidents d' = t_incidents d \<and> t_documents d' = t_documents d \<and> t_versions d' = t_versions d
     \<and> t_chunks d' = t_chunks d"

lemma same_facts_refl [simp]: "same_facts d d"
  by (simp add: same_facts_def)

lemma same_facts_trans: "same_facts d d1 \<Longrightarrow> same_facts d1 d2 \<Longrightarrow> same_facts d d2"
  by (simp add: same_facts_def)

lemma eligible_qualified:
  assumes "eligible sv inc h d = Inr (c, True)" and "get_incident i d = Inr inc"
    and "cr_run x = run_id r" "cr_incident x = i" "cr_chunk x = chk_id c"
  shows "qualified_citation sv r d x"
proof -
  from assms(1) obtain doc where "get_chunk (res_chunk_id h) d = Inr c" "get_document (res_doc_id h) d = Inr doc"
      "chk_space_id c = sv_space_id sv" "still_active doc (chk_version_id c)"
      "applicable (doc_environment doc) (inc_environment inc)" "anchored (inc_name inc) c"
    by (auto simp: eligible_def res_bind_eq_Inr still_active_def split: if_splits)
  with assms(2-) show ?thesis by (auto simp: qualified_citation_def)
qed

lemma eligible_cong: "same_facts d d' \<Longrightarrow> eligible sv inc h d' = eligible sv inc h d"
  by (simp add: eligible_def get_chunk_def get_document_def same_facts_def)

lemma qualified_citation_cong: "same_facts d d' \<Longrightarrow> qualified_citation sv r d' x = qualified_citation sv r d x"
  by (simp add: qualified_citation_def get_incident_def get_chunk_def get_document_def same_facts_def)

text \<open>The copy the worker holds and the current row.\<close>

definition working :: "run \<Rightarrow> run \<Rightarrow> bool" where
  "working r c \<longleftrightarrow> run_status c = ''running'' \<and> run_current_attempt c = run_current_attempt r \<and> same_run c r"

text \<open>The relation between the start of a diagnosis and a later moment of it, with the local variables.\<close>

definition diag_inv :: "service \<Rightarrow> run \<Rightarrow> db \<Rightarrow> diag_acc \<Rightarrow> db \<Rightarrow> bool" where
  "diag_inv sv r d0 a d \<longleftrightarrow> core_ok d \<and> runs_follow d0 d \<and> same_facts d0 d
     \<and> (\<exists>c. get_run (run_id r) d = Inr c \<and> working r c
          \<and> (run_citation_ids c \<noteq> [] \<longleftrightarrow> da_state a = ''has_citations'' \<or> 0 < da_qualified a))
     \<and> (\<forall>x \<in> set (t_citations d). x \<in> set (t_citations d0) \<or> qualified_citation sv r d0 x)"

text \<open>A transaction that leaves runs, facts and citations alone keeps it.\<close>

lemma diag_inv_frame:
  assumes "diag_inv sv r d0 a d" and "core_ok d' \<and> runs_follow d d'" and "t_runs d' = t_runs d"
    and "same_facts d d'" and "t_citations d' = t_citations d"
    and "da_state a' = da_state a" and "da_qualified a' = da_qualified a"
  shows "diag_inv sv r d0 a' d'"
proof -
  note i = assms(1) [unfolded diag_inv_def]
  have "runs_follow d0 d'" using i assms(2) runs_follow_trans by blast
  moreover have "same_facts d0 d'" using i assms(4) same_facts_trans by blast
  ultimately show ?thesis
    using i assms(2) by (simp add: diag_inv_def get_run_cong [OF assms(3)] assms(5-))
qed

lemma addEvent_facts:
  "addEvent r stage kind ms ref ae now d = Inr d' \<Longrightarrow>
     t_runs d' = t_runs d \<and> same_facts d d' \<and> t_citations d' = t_citations d"
  using addEvent_same [of r stage kind ms ref ae now d d'] by (simp add: same_facts_def)

lemma run_event_facts:
  "run_event r stage kind ms ref ae now d = Inr d' \<Longrightarrow>
     t_runs d' = t_runs d \<and> same_facts d d' \<and> t_citations d' = t_citations d"
  by (auto simp: run_event_def res_bind_eq_Inr dest: addEvent_facts)

lemma retrieval_tx_facts:
  assumes "retrieval_tx sv r i query failed ms now d = Inr d'"
  shows "t_runs d' = t_runs d \<and> same_facts d d' \<and> t_citations d' = t_citations d"
  using assms
proof (cases rule: retrieval_tx_cases)
  case (1 d1 d2)
  with addEvent_facts [OF 1(4)] show ?thesis
    by (auto simp: insert_retrieval_Inr insert_evidence_Inr same_facts_def)
qed

lemma diag_inv_event:
  assumes "diag_inv sv r d0 a d" and "run_event r stage kind ms ref ae now d = Inr d'"
  shows "diag_inv sv r d0 a d'"
  using assms run_event_facts [OF assms(2)] run_event_effect [OF assms(2)]
  by (intro diag_inv_frame [OF assms(1), where a' = a]) (auto simp: diag_inv_def)

lemma diag_inv_retrieval:
  assumes "diag_inv sv r d0 a d" and "retrieval_tx sv r i query failed ms now d = Inr d'"
  shows "diag_inv sv r d0 a d'"
  using assms retrieval_tx_facts [OF assms(2)] retrieval_tx_effect [OF assms(2)]
  by (intro diag_inv_frame [OF assms(1), where a' = a]) (auto simp: diag_inv_def)

text \<open>The new row and citation of a cited hit.\<close>

lemma cite_tx_run:
  assumes tx: "cite_tx r i c rank now d = Inr d'" and ok: "core_ok d" and get: "get_run (run_id r) d = Inr cur"
  shows "get_run (run_id r) d' = Inr (cite_run (citation_id r i (chk_id c)) cur) \<and> same_facts d d'
    \<and> (\<forall>x \<in> set (t_citations d'). x \<in> set (t_citations d)
         \<or> cr_run x = run_id r \<and> cr_incident x = i \<and> cr_chunk x = chk_id c)"
  using tx
proof (cases rule: cite_tx_cases)
  case (1 d1 d2 current)
  have t1: "d1 = d\<lparr>t_evidence := t_evidence d1\<rparr>" using 1(1) by (auto simp: ignore_evidence_def)
  have t2: "d2 = d1\<lparr>t_citations := t_citations d2\<rparr>" using ignore_citation_Inr [OF 1(2)] by blast
  have cits: "t_citations d2 = t_citations d1 \<or> t_citations d2 = t_citations d1 @ [\<lparr> cr_run = run_id r,
      cr_incident = i, cr_retrieval = retrieval_id r i, cr_chunk = chk_id c, cr_evidence = citation_id r i (chk_id c) \<rparr>]"
    using ignore_citation_Inr [OF 1(2)] by blast
  have runs: "t_runs d2 = t_runs d" and facts: "same_facts d d2" and old: "t_citations d1 = t_citations d"
    using t1 t2 by (cases d; cases d1; cases d2; simp add: same_facts_def)+
  have cur: "current = cur" using 1(3) get get_run_cong [OF runs] by simp
  have ok2: "runs_ok d2" using ok runs_ok_cong [OF runs] by (simp add: core_ok_def)
  have "run_id cur = run_id r" using get_run_id get ok by (auto simp: core_ok_def)
  then have "get_run (run_id r) d' = Inr (cite_run (citation_id r i (chk_id c)) cur)"
    using get_run_saveRun [OF ok2] get_run_has [OF 1(3)] by (simp add: 1(4) cur cite_run_def)
  moreover have "same_facts d d'" using facts by (simp add: 1(4) same_facts_def)
  ultimately show ?thesis using cits old by (auto simp: 1(4))
qed

lemma diag_inv_hit:
  assumes inv: "diag_inv sv r d0 a d" and tx: "hit_tx r i h rank c ok now d = Inr d'"
    and el: "eligible sv inc h d0 = Inr (c, ok)" and inc: "get_incident i d0 = Inr inc"
  shows "diag_inv sv r d0 (if ok then count_citation doc c a else a) d'"
  using tx
proof (cases rule: hit_tx_cases)
  case (1 hd d1)
  have d1: "t_runs d1 = t_runs d" "same_facts d d1" "t_citations d1 = t_citations d" "core_ok d1 \<and> runs_follow d d1"
    using 1(2) core_ok_frame [of d d1] inv by (auto simp: ignore_hit_Inr diag_inv_def same_facts_def)
  then have inv1: "diag_inv sv r d0 a d1" by (intro diag_inv_frame [OF inv]) auto
  show ?thesis
  proof (cases ok)
    case False
    with 1(3) inv1 show ?thesis by simp
  next
    case True
    with 1(3) have cite: "cite_tx r i c rank now d1 = Inr d'" by simp
    from inv1 obtain cur where cur: "get_run (run_id r) d1 = Inr cur" "working r cur" and ok1: "core_ok d1"
      by (auto simp: diag_inv_def)
    note new = cite_tx_run [OF cite ok1 cur(1)]
    have own: "owned r d1 = Inr ()" using 1(1) d1(1) by (simp add: owned_def)
    note eff = cite_tx_effect [OF cite ok1 own]
    have elT: "eligible sv inc h d0 = Inr (c, True)" using el True by simp
    have q: "x \<in> set (t_citations d0) \<or> qualified_citation sv r d0 x" if "x \<in> set (t_citations d')" for x
      using that new inv1 eligible_qualified [OF elT inc] by (auto simp: diag_inv_def)
    have "working r (cite_run (citation_id r i (chk_id c)) cur)"
      using cur(2) by (simp add: working_def cite_run_def same_run_def)
    with new eff q inv1 True show ?thesis
      unfolding diag_inv_def using runs_follow_trans same_facts_trans
      by (auto simp: count_citation_def write_report_def cite_run_def)
  qed
qed

lemma diag_inv_hit_loop:
  assumes "hit_loop sv env r inc i rank hits a d = ((e, a'), d')" and "diag_inv sv r d0 a d"
    and "get_incident i d0 = Inr inc"
  shows "diag_inv sv r d0 a' d' \<and> da_state a' = da_state a \<and> da_failed a' = da_failed a"
  using assms
proof (induction sv env r inc i rank hits a d rule: hit_loop.induct)
  case (2 sv env r inc i rank h hits a d)
  show ?case
  proof (cases "eligible sv inc h d")
    case (Inl e)
    with 2 show ?thesis by simp
  next
    case (Inr p)
    obtain c ok where p: "p = (c, ok)" by (cases p)
    have facts: "same_facts d0 d" using 2(4) by (simp add: diag_inv_def)
    have el: "eligible sv inc h d0 = Inr (c, ok)" using Inr p eligible_cong [OF facts] by simp
    show ?thesis
    proof (cases "chk_id c = []")
      case True
      with 2 Inr p show ?thesis by simp
    next
      case False
      show ?thesis
      proof (cases "hit_tx r i h (rank + 1) c ok (de_time env i (rank + 2)) d")
        case (Inl e)
        with 2 Inr p False \<open>eligible sv inc h d = Inr p\<close> show ?thesis by simp
      next
        case (Inr d1)
        have "diag_inv sv r d0 (if ok then count_citation (res_doc h) c a else a) d1"
          by (rule diag_inv_hit [OF 2(4) Inr el 2(5)])
        with 2(2) [OF \<open>eligible sv inc h d = Inr p\<close> p [symmetric] False Inr] 2(3,5) Inr p False \<open>eligible sv inc h d = Inr p\<close>
        show ?thesis by (auto simp: count_citation_def write_report_def)
      qed
    qed
  qed
qed simp

text \<open>Between two incidents the counter of qualified hits has been folded into the state.\<close>

definition counted :: "diag_acc \<Rightarrow> bool" where
  "counted a \<longleftrightarrow> (0 < da_qualified a \<longrightarrow> da_state a = ''has_citations'')"

lemma diag_inv_acc:
  assumes "diag_inv sv r d0 a d"
    and "da_state a' = ''has_citations'' \<or> 0 < da_qualified a' \<longleftrightarrow> da_state a = ''has_citations'' \<or> 0 < da_qualified a"
  shows "diag_inv sv r d0 a' d"
  using assms by (simp add: diag_inv_def)

lemma close_incident_acc:
  "counted (close_incident failed a) \<and> da_failed (close_incident failed a) = da_failed a
   \<and> (da_state (close_incident failed a) = ''has_citations'' \<or> 0 < da_qualified (close_incident failed a)
        \<longleftrightarrow> da_state a = ''has_citations'' \<or> 0 < da_qualified a)
   \<and> (da_state (close_incident failed a) = ''has_citations'' \<or> da_state (close_incident failed a) = da_state a)"
  by (simp add: close_incident_def counted_def write_report_def)

lemma diagnose_incident_inv:
  assumes run: "diagnose_incident sv env r i a d = ((e, a'), d')" and inv: "diag_inv sv r d0 a d" and "counted a"
  shows "diag_inv sv r d0 a' d' \<and> (e = None \<longrightarrow> counted a')
    \<and> (da_state a' = ''has_citations'' \<or> da_state a' = da_state a)"
proof -
  have facts: "same_facts d0 d" using inv by (simp add: diag_inv_def)
  show ?thesis
  proof (cases "get_incident i d")
    case (Inl err)
    with run inv assms(3) show ?thesis by (auto simp: diagnose_incident_def)
  next
    case (Inr inc)
    then have inc0: "get_incident i d0 = Inr inc" using facts by (simp add: get_incident_def same_facts_def)
    show ?thesis
    proof (cases "run_event r ''retrieval'' ''started'' None (Some (retrieval_id r i)) None (de_time env i 0) d")
      case (Inl err)
      with run Inr inv assms(3) show ?thesis by (auto simp: diagnose_incident_def)
    next
      case ev: (Inr d1)
      define failed where "failed = isl (search_hits env (inc_name inc))"
      define a1 where "a1 = a\<lparr>da_failed := da_failed a \<or> failed\<rparr>"
      define ms where "ms = ms_between (de_time env i 0) (de_time env i 1)"
      have inv1: "diag_inv sv r d0 a1 d1"
        using diag_inv_event [OF inv ev] by (rule diag_inv_acc) (simp add: a1_def)
      have st1: "da_state a1 = da_state a" by (simp add: a1_def)
      show ?thesis
      proof (cases "retrieval_tx sv r i (inc_name inc) failed ms (de_time env i 1) d1")
        case (Inl err)
        with run Inr ev have "e = Some err \<and> a' = a1 \<and> d' = d1"
          by (simp add: diagnose_incident_def Let_def failed_def ms_def a1_def)
        with inv1 st1 show ?thesis by simp
      next
        case ret: (Inr d2)
        define b where "b = (write_report (incident_line inc) a1)\<lparr>da_qualified := 0\<rparr>"
        define hits where "hits = (case search_hits env (inc_name inc) of Inl _ \<Rightarrow> [] | Inr hs \<Rightarrow> hs)"
        have inv2: "diag_inv sv r d0 b d2"
          using diag_inv_retrieval [OF inv1 ret] assms(3)
          by (auto elim!: diag_inv_acc simp: b_def a1_def write_report_def counted_def)
        obtain e2 a2 d3 where loop: "hit_loop sv env r inc i 0 hits b d2 = ((e2, a2), d3)"
          by (metis prod.exhaust)
        note l = diag_inv_hit_loop [OF loop inv2 inc0]
        have res: "e = e2 \<and> d' = d3 \<and> a' = (if e2 = None then close_incident failed a2 else a2)"
          using run Inr ev ret loop
          by (auto simp: diagnose_incident_def Let_def failed_def ms_def a1_def b_def hits_def split: option.splits)
        have "da_state b = da_state a" by (simp add: b_def a1_def write_report_def)
        moreover have "diag_inv sv r d0 (close_incident failed a2) d3"
          by (rule diag_inv_acc [OF conjunct1 [OF l]]) (simp add: close_incident_acc)
        ultimately show ?thesis using l res close_incident_acc [of failed a2] by auto
      qed
    qed
  qed
qed

lemma incident_loop_inv:
  assumes "incident_loop sv env r is a d = ((ex, a'), d')" and "diag_inv sv r d0 a d" and "counted a"
    and "da_state a = ''has_citations'' \<or> da_state a = ''no_evidence''"
  shows "diag_inv sv r d0 a' d' \<and> ((\<forall>e. ex \<noteq> LoopError e) \<longrightarrow> counted a')
    \<and> (da_state a' = ''has_citations'' \<or> da_state a' = ''no_evidence'')"
  using assms
proof (induction sv env r "is" a d rule: incident_loop.induct)
  case (2 sv env r i "is" a d)
  obtain e1 a1 d1 where one: "diagnose_incident sv env r i a d = ((e1, a1), d1)" by (metis prod.exhaust)
  note o = diagnose_incident_inv [OF one 2(3,4)]
  show ?case
  proof (cases "de_ctx_err env i = None")
    case ctx: True
    show ?thesis
    proof (cases e1)
      case None
      with 2(1) [OF _ one [symmetric] refl] 2(2,5) ctx one o show ?thesis by auto
    next
      case (Some e)
      with 2(2,5) ctx one o show ?thesis by auto
    qed
  qed (use 2 in auto)
qed auto

section \<open>The outcome of a diagnosis\<close>

lemma judge_inv:
  assumes "judge sv r score t1 t2 d = ((res, e), d')" and "diag_inv sv r d0 a d"
  shows "diag_inv sv r d0 a d'"
  using assms
  by (auto simp: judge_def Let_def split: if_splits sum.splits option.splits) (blast intro: diag_inv_event)+

lemma finish_run:
  assumes fin: "finish parse sv r began status ev text score ae now d = Inr d'" and ok: "core_ok d"
    and get: "get_run (run_id r) d = Inr c"
  shows "\<exists>r'. get_run (run_id r) d' = Inr r' \<and> run_status r' = status \<and> run_evidence_status r' = ev
    \<and> run_citation_ids r' = run_citation_ids c \<and> run_report_text r' = Some text
    \<and> same_facts d d' \<and> t_citations d' = t_citations d"
  using fin
proof (cases rule: finish_cases)
  case (1 current r2 d1 d2)
  have cur: "current = c" using 1(2) get by simp
  have f1: "t_runs d1 = t_runs d \<and> same_facts d d1 \<and> t_citations d1 = t_citations d" using addEvent_facts [OF 1(3)] .
  have f2: "t_runs d2 = t_runs d \<and> same_facts d d2 \<and> t_citations d2 = t_citations d"
  proof (cases "notifies sv status score")
    case True
    with 1(5) f1 show ?thesis by (auto simp: same_facts_def)
  next
    case False
    with 1(5) have "addEvent r2 ''notification'' ''skipped'' None None None now d1 = Inr d2" by simp
    from addEvent_facts [OF this] f1 same_facts_trans show ?thesis by auto
  qed
  let ?d3 = "replace_evidence (report_evidence r2 ev text now) (run_id r) d2"
  have runs: "t_runs ?d3 = t_runs d" using f2 by simp
  have "runs_ok ?d3" using ok runs_ok_cong [OF runs] by (simp add: core_ok_def)
  moreover have "run_id r2 = run_id r" by (simp add: 1(4) finished_def)
  moreover have "has_run (run_id r) ?d3" using get_run_has [OF get] has_run_cong [OF runs] by simp
  ultimately have "get_run (run_id r) d' = Inr r2" using get_run_saveRun [of ?d3] by (simp add: 1(6))
  with f2 show ?thesis by (auto simp: 1(4,6) finished_def cur same_facts_def)
qed

text \<open>The state of a worker right after its claim.\<close>

definition fresh_claim :: "run \<Rightarrow> db \<Rightarrow> bool" where
  "fresh_claim r d \<longleftrightarrow> get_run (run_id r) d = Inr r \<and> run_status r = ''running'' \<and> run_citation_ids r = []"

lemma diag_inv_start:
  assumes "core_ok d" and "fresh_claim r d"
  shows "diag_inv sv r d start_acc d"
  using assms by (auto simp: diag_inv_def fresh_claim_def working_def same_run_def start_acc_def)

text \<open>The published run, by what the loop found.\<close>

definition outcome_ok :: "run \<Rightarrow> bool" where
  "outcome_ok r \<longleftrightarrow>
     run_status r = ''succeeded'' \<and> run_evidence_status r = ''has_citations'' \<and> run_citation_ids r \<noteq> []
   \<or> run_status r = ''succeeded'' \<and> run_evidence_status r = ''no_evidence'' \<and> run_citation_ids r = []
   \<or> run_status r = ''failed'' \<and> run_evidence_status r = ''source_unavailable''"

lemma finish_inv:
  assumes fin: "finish parse sv r began status ev text score ae now d = Inr d'" and inv: "diag_inv sv r d0 a d"
    and "terminal status"
  shows "core_ok d' \<and> runs_follow d0 d' \<and> same_facts d0 d'
    \<and> (\<forall>x \<in> set (t_citations d'). x \<in> set (t_citations d0) \<or> qualified_citation sv r d0 x)
    \<and> (\<exists>r'. get_run (run_id r) d' = Inr r' \<and> run_status r' = status \<and> run_evidence_status r' = ev
         \<and> (run_citation_ids r' \<noteq> [] \<longleftrightarrow> da_state a = ''has_citations'' \<or> 0 < da_qualified a))"
proof -
  from inv obtain c where c: "get_run (run_id r) d = Inr c" "working r c"
      "run_citation_ids c \<noteq> [] \<longleftrightarrow> da_state a = ''has_citations'' \<or> 0 < da_qualified a" and ok: "core_ok d"
    by (auto simp: diag_inv_def)
  have eff: "core_ok d' \<and> runs_follow d d'"
    using c by (intro finish_effect [OF fin ok assms(3)]) (simp add: working_def)
  from finish_run [OF fin ok c(1)] obtain r' where r': "get_run (run_id r) d' = Inr r'" "run_status r' = status"
      "run_evidence_status r' = ev" "run_citation_ids r' = run_citation_ids c" "same_facts d d'"
      "t_citations d' = t_citations d" by blast
  have "runs_follow d0 d'" using inv eff runs_follow_trans by (auto simp: diag_inv_def)
  moreover have "same_facts d0 d'" using inv r'(5) same_facts_trans by (auto simp: diag_inv_def)
  ultimately show ?thesis using inv eff c(3) r' by (simp add: diag_inv_def)
qed

lemma tx_result_None: "tx_result d m = (None, d') \<longleftrightarrow> m = Inr d'"
  by (auto simp: tx_result_def split: sum.splits)

lemma tx_result_Some: "tx_result d m = (Some e, d') \<longleftrightarrow> m = Inl e \<and> d' = d"
  by (auto simp: tx_result_def split: sum.splits)

definition diag_result :: "service \<Rightarrow> run \<Rightarrow> db \<Rightarrow> ws_error option \<times> db \<Rightarrow> bool" where
  "diag_result sv r d0 res \<longleftrightarrow>
     (case res of (e, d') \<Rightarrow> core_ok d' \<and> runs_follow d0 d' \<and> same_facts d0 d'
        \<and> (\<forall>x \<in> set (t_citations d'). x \<in> set (t_citations d0) \<or> qualified_citation sv r d0 x)
        \<and> (case e of None \<Rightarrow> \<exists>r'. get_run (run_id r) d' = Inr r' \<and> outcome_ok r'
                   | Some _ \<Rightarrow> \<exists>a. diag_inv sv r d0 a d'))"

lemma diag_result_error: "diag_inv sv r d0 a d \<Longrightarrow> diag_result sv r d0 (Some e, d)"
  by (auto simp: diag_result_def diag_inv_def)

lemma diag_result_finish:
  assumes inv: "diag_inv sv r d0 a d" and "terminal status"
    and "\<And>r'. run_status r' = status \<Longrightarrow> run_evidence_status r' = ev \<Longrightarrow>
      run_citation_ids r' \<noteq> [] \<longleftrightarrow> da_state a = ''has_citations'' \<or> 0 < da_qualified a \<Longrightarrow> outcome_ok r'"
  shows "diag_result sv r d0 (tx_result d (finish parse sv r began status ev text score ae now d))"
proof (cases "finish parse sv r began status ev text score ae now d")
  case (Inl e)
  with diag_result_error [OF inv] show ?thesis by (simp add: tx_result_def)
next
  case (Inr d')
  with finish_inv [OF Inr inv assms(2)] assms(3) show ?thesis by (auto simp: tx_result_def diag_result_def)
qed

lemma diagnose_result:
  assumes "core_ok d" and "fresh_claim r d"
  shows "diag_result sv r d (diagnose parse sv env r began d)"
proof -
  note start = diag_inv_start [OF assms, of sv]
  obtain ex a1 d1 where loop: "incident_loop sv env r (run_incident_ids r) start_acc d = ((ex, a1), d1)"
    by (metis prod.exhaust)
  have l: "diag_inv sv r d a1 d1" "(\<forall>e. ex \<noteq> LoopError e) \<longrightarrow> counted a1"
      "da_state a1 = ''has_citations'' \<or> da_state a1 = ''no_evidence''"
    using incident_loop_inv [OF loop start] by (simp_all add: start_acc_def counted_def)
  have fin: "terminal ''failed''" "terminal ''succeeded''" by (simp_all add: terminal_def)
  show ?thesis
  proof (cases ex)
    case (LoopError e)
    with loop diag_result_error [OF l(1)] show ?thesis by (simp add: diagnose_def)
  next
    case LoopTimeout
    with loop show ?thesis
      using diag_result_finish [OF l(1) fin(1)] by (simp add: diagnose_def outcome_ok_def)
  next
    case LoopDone
    with l(2) have cnt: "counted a1" by simp
    obtain score e d2 where j: "judge sv r (de_score env) (de_judge_began env) (de_judge_done env) d1 = ((score, e), d2)"
      by (metis prod.exhaust)
    note inv2 = judge_inv [OF j l(1)]
    show ?thesis
    proof (cases e)
      case None
      then show ?thesis
        using LoopDone loop j cnt l(3) diag_result_finish [OF inv2 fin(1)] diag_result_finish [OF inv2 fin(2)]
        by (auto simp: diagnose_def Let_def outcome_ok_def counted_def)
    next
      case (Some err)
      with LoopDone loop j diag_result_error [OF inv2] show ?thesis by (simp add: diagnose_def Let_def)
    qed
  qed
qed

lemma claim_facts:
  assumes "claim i now d = Inr ((r, ok), d')"
  shows "same_facts d d' \<and> set (t_citations d') \<subseteq> set (t_citations d)"
  using assms
proof (cases rule: claim_cases)
  case (taken r0 d1 d2)
  have "same_facts d d1 \<and> set (t_citations d1) \<subseteq> set (t_citations d)"
    by (auto simp: taken(6) set_lease_def delete_citations_def same_facts_def)
  moreover have "same_facts d1 d' \<and> t_citations d' = t_citations d1"
    using addEvent_facts [OF taken(7)] addEvent_facts [OF taken(8)] same_facts_trans by auto
  ultimately show ?thesis using same_facts_trans by auto
qed simp

lemma fresh_claim_claim:
  assumes "claim i now d = Inr ((r, True), d')" and "runs_ok d"
  shows "fresh_claim r d' \<and> run_id r = i"
  using assms by (rule claim_row) (auto simp: fresh_claim_def get_run_def claimed_def)

lemma publish_failure_result:
  assumes "diag_inv sv r d0 a d"
  shows "\<exists>e. diag_result sv r d0 (e, publish_failure parse sv r began ae now d)"
proof -
  let ?m = "finish parse sv r began ''failed'' ''source_unavailable'' SafeReport None (Some ae) now d"
  have "diag_result sv r d0 (tx_result d ?m)"
    by (rule diag_result_finish [OF assms]) (simp_all add: terminal_def outcome_ok_def)
  then have "diag_result sv r d0 (fst (tx_result d ?m), snd (tx_result d ?m))" by simp
  then show ?thesis unfolding publish_failure_def by blast
qed

text \<open>The whole handler, from the state before its claim.\<close>

definition handled :: "service \<Rightarrow> string \<Rightarrow> db \<Rightarrow> ws_error option \<times> db \<Rightarrow> bool" where
  "handled sv i d res \<longleftrightarrow>
     (case res of (e, d') \<Rightarrow> core_ok d' \<and> runs_follow d d' \<and> same_facts d d'
        \<and> (\<forall>x \<in> set (t_citations d'). x \<in> set (t_citations d)
             \<or> cr_run x = i \<and> (\<exists>r. qualified_citation sv r d x))
        \<and> (e = None \<longrightarrow> (\<exists>r'. get_run i d' = Inr r' \<and> terminal (run_status r')
             \<and> (outcome_ok r' \<or> get_run i d = Inr r'))))"

lemma diag_result_handled:
  assumes cl: "claim i now d = Inr ((r, True), d1)" and ok: "core_ok d" and res: "diag_result sv r d1 (e, d')"
    and "e = None \<Longrightarrow> e' = None" and "e' = None \<Longrightarrow> e = None"
  shows "handled sv i d (e', d')"
proof -
  have runs: "runs_ok d" using ok by (simp add: core_ok_def)
  note c = claim_effect [OF cl ok] and f = claim_facts [OF cl] and fr = fresh_claim_claim [OF cl runs]
  note q = qualified_citation_cong [OF conjunct1 [OF f]]
  have "outcome_ok r' \<Longrightarrow> terminal (run_status r')" for r' by (auto simp: outcome_ok_def terminal_def)
  moreover have "runs_follow d d'" using c res runs_follow_trans by (auto simp: diag_result_def)
  moreover have "same_facts d d'" using f res same_facts_trans by (auto simp: diag_result_def)
  moreover have "x \<in> set (t_citations d) \<or> cr_run x = i \<and> (\<exists>r. qualified_citation sv r d x)"
    if "x \<in> set (t_citations d')" for x
  proof -
    have "x \<in> set (t_citations d1) \<or> qualified_citation sv r d x" using that res q by (simp add: diag_result_def)
    moreover have "qualified_citation sv r d x \<Longrightarrow> cr_run x = i" using fr by (simp add: qualified_citation_def)
    ultimately show ?thesis using f by blast
  qed
  ultimately show ?thesis
    using res fr assms(4,5) by (auto simp: handled_def diag_result_def split: option.splits)
qed

lemma ProcessAlertDiagnosis_handled:
  assumes ok: "core_ok d"
  shows "handled sv i d (ProcessAlertDiagnosis parse sv env i now d)"
proof (cases "claim i now d")
  case (Inl e)
  with ok show ?thesis by (simp add: ProcessAlertDiagnosis_def handled_def)
next
  case (Inr y)
  obtain r got d1 where y: "y = ((r, got), d1)" by (metis surj_pair)
  with Inr have cl: "claim i now d = Inr ((r, got), d1)" by simp
  show ?thesis
  proof (cases got)
    case False
    with cl have "get_run i d = Inr r \<and> terminal (run_status r) \<and> d1 = d" by (cases rule: claim_cases) auto
    with cl False ok show ?thesis by (simp add: ProcessAlertDiagnosis_def handled_def)
  next
    case True
    with cl have cl: "claim i now d = Inr ((r, True), d1)" by simp
    have ok1: "core_ok d1" using claim_effect [OF cl ok] by simp
    have fr: "fresh_claim r d1" using fresh_claim_claim [OF cl] ok by (simp add: core_ok_def)
    have fail: "handled sv i d (Some e, publish_failure parse sv r now ae (de_finished env) d2)"
      if inv: "diag_inv sv r d1 a d2" for a e ae d2
    proof -
      obtain e1 where res: "diag_result sv r d1 (e1, publish_failure parse sv r now ae (de_finished env) d2)"
        using publish_failure_result [OF inv] by blast
      have "handled sv i d (e1, publish_failure parse sv r now ae (de_finished env) d2)"
        by (rule diag_result_handled [OF cl ok res])
      then show ?thesis by (simp add: handled_def)
    qed
    obtain e d2 where dg: "diagnose parse sv env r now d1 = (e, d2)" by fastforce
    have res: "diag_result sv r d1 (e, d2)" using diagnose_result [OF ok1 fr, of sv parse env now] by (simp add: dg)
    show ?thesis
    proof (cases "de_panic env")
      case True
      with cl fail [OF diag_inv_start [OF ok1 fr]] show ?thesis by (simp add: ProcessAlertDiagnosis_def)
    next
      case False
      show ?thesis
      proof (cases e)
        case None
        with False cl dg diag_result_handled [OF cl ok res] show ?thesis by (simp add: ProcessAlertDiagnosis_def)
      next
        case (Some err)
        with res obtain a where "diag_inv sv r d1 a d2" by (auto simp: diag_result_def)
        from fail [OF this] False cl dg Some diag_result_handled [OF cl ok res, of e] show ?thesis
          by (auto simp: ProcessAlertDiagnosis_def)
      qed
    qed
  qed
qed

section \<open>Properties\<close>

text \<open>C16. The queue task of a diagnosis is acknowledged only when its run is final. Whatever the search, the
  scoring service and the clock do, the handler keeps the tables well-formed and the history of every run;
  and when it reports success the run is finished: unless it was finished before, it either succeeded with at
  least one citation, or succeeded with none and says so, or failed because a source was unavailable.\<close>

theorem ProcessAlertDiagnosis_outcome:
  assumes "core_ok d" and "ProcessAlertDiagnosis parse sv env i now d = (e, d')"
  shows "core_ok d' \<and> runs_follow d d'
    \<and> (e = None \<longrightarrow> (\<exists>r'. get_run i d' = Inr r' \<and> terminal (run_status r') \<and> (outcome_ok r' \<or> get_run i d = Inr r')))"
  using ProcessAlertDiagnosis_handled [OF assms(1), of sv i parse env now] assms(2) by (simp add: handled_def)

definition ex_diag_env :: diag_env where
  "ex_diag_env = \<lparr> de_ready = True, de_search = (\<lambda>_. Inr []), de_ctx_err = (\<lambda>_. None), de_time = (\<lambda>_ _. 0),
     de_score = None, de_judge_began = 0, de_judge_done = 0, de_finished = 0, de_panic = False \<rparr>"

definition ex_finished :: db where
  "ex_finished = saveRun ((ex_run ''running'')\<lparr>run_status := ''failed''\<rparr>) ex_running"

lemma core_ok_ex_finished: "core_ok ex_finished"
  by (simp add: ex_finished_def saveRun_def tupd_def ex_running_def core_ok_def empty_db_def runs_ok_def events_ok_def
      incidents_ok_def links_ok_def evidence_ok_def outbox_ok_def queue_ok_def tok_def row_agrees_def ex_run_def
      diagnosis_outbox_def has_run_def tget_def run_links_def terminal_def)

lemma ex_finished_task: "ProcessAlertDiagnosis (\<lambda>_. None) ex_service ex_diag_env ''r'' 5 ex_finished = (None, ex_finished)"
  by (simp add: ProcessAlertDiagnosis_def claim_def get_run_def ex_finished_def saveRun_def tupd_def ex_running_def
      tget_def ex_run_def terminal_def)

theorem ProcessAlertDiagnosis_outcome_witness:
  "\<exists>d' r'. ProcessAlertDiagnosis (\<lambda>_. None) ex_service ex_diag_env ''r'' 5 ex_finished = (None, d')
     \<and> get_run ''r'' d' = Inr r' \<and> terminal (run_status r')"
  using ProcessAlertDiagnosis_outcome [OF core_ok_ex_finished ex_finished_task] ex_finished_task by blast



end
