(* ===== verification/Dispatcher.thy ===== *)
theory Dispatcher
  imports Publication Diagnosis
begin

text \<open>
  The outbox dispatcher and the retrieval probe (\<open>Ready\<close> and \<open>Dispatch\<close> of
  \<open>src/internal/workspace/service.go\<close>, \<open>ProbeRetrieval\<close> of \<open>readiness.go\<close>).

  The task queue is outside the repository: what it answers to an enqueue is the parameter
  \<open>di_enqueue\<close>, and the tasks it accepted are logged in \<open>ds_tasks\<close>. A queue that is not configured
  is \<open>di_queue = False\<close>. \<open>Dispatch\<close> reads the due rows once, at most a hundred in the order of the
  table, and handles them one by one; \<open>dispatchMu\<close> keeps two dispatches apart.
\<close>

record alert =
  al_name :: string
  al_severity :: string
  al_description :: string
  al_labels :: "gomap option"
  al_starts_at :: string

datatype task = TDiagnosis string "alert list" | TNotification string payload

record dispatch_env =
  di_queue :: bool
  di_queue_ready :: "bool option"
  di_enqueue :: "task \<Rightarrow> ws_error option"
  di_cleanup :: "ws_error option option"
  di_ctx_err :: "string \<Rightarrow> ws_error option"

record dstate =
  ds_k :: kstate
  ds_tasks :: "task list"

abbreviation ds_db :: "dstate \<Rightarrow> db" where
  "ds_db s \<equiv> ks_db (ds_k s)"

definition put_db :: "db \<Rightarrow> dstate \<Rightarrow> dstate" where
  "put_db d s = s\<lparr>ds_k := (ds_k s)\<lparr>ks_db := d\<rparr>\<rparr>"

definition Ready :: "dispatch_env \<Rightarrow> bool" where
  "Ready env \<longleftrightarrow> di_queue env \<and> di_queue_ready env = Some True"

section \<open>Dispatch\<close>

text \<open>\<open>SELECT ... WHERE state='pending' AND next_at<=? ORDER BY rowid LIMIT 100\<close>: the timestamps
  are compared as strings.\<close>

definition due_items :: "time \<Rightarrow> db \<Rightarrow> outbox_row list" where
  "due_items now d = take 100 (filter (\<lambda>x. ob_state x = ''pending'' \<and> ob_next_at x \<le> fmt_nano now) (t_outbox d))"

definition firing_alerts :: "observation list \<Rightarrow> alert list" where
  "firing_alerts obs = map (\<lambda>a. \<lparr> al_name = obs_name a, al_severity = obs_severity a,
       al_description = obs_description a, al_labels = obs_labels a, al_starts_at = obs_starts_at a \<rparr>)
     (filter (\<lambda>a. obs_status a = ''firing'') obs)"

text \<open>Decoding a payload as another struct leaves the zero values.\<close>

definition diagnosis_payload :: "payload \<Rightarrow> string \<times> observation list" where
  "diagnosis_payload p = (case p of PDiagnosis i obs \<Rightarrow> (i, obs) | _ \<Rightarrow> ([], []))"

definition notification_payload :: "payload \<Rightarrow> string" where
  "notification_payload p = (case p of PNotification rep \<Rightarrow> lr_id rep | _ \<Rightarrow> [])"

definition task_of :: "outbox_row \<Rightarrow> task option" where
  "task_of x =
     (if ob_kind x = ''diagnosis''
      then (case diagnosis_payload (ob_payload x) of (i, obs) \<Rightarrow> Some (TDiagnosis i (firing_alerts obs)))
      else if ob_kind x = ''notification'' then Some (TNotification (notification_payload (ob_payload x)) (ob_payload x))
      else None)"

definition enqueue_task :: "dispatch_env \<Rightarrow> outbox_row \<Rightarrow> ws_error option" where
  "enqueue_task env x =
     (case task_of x of
        None \<Rightarrow> Some (ErrMsg ''unknown outbox kind'')
      | Some t \<Rightarrow> if di_queue env then di_enqueue env t else Some ErrUnavailable)"

definition backoff :: "nat \<Rightarrow> int" where
  "backoff attempts = seconds (2 ^ min attempts 6)"

definition retry_later :: "outbox_row \<Rightarrow> time \<Rightarrow> db \<Rightarrow> db" where
  "retry_later x now d = d\<lparr>t_outbox := tupd ob_id (ob_id x)
     (\<lambda>y. y\<lparr>ob_attempts := ob_attempts y + 1, ob_next_at := fmt_nano (now + backoff (ob_attempts x)),
            ob_last_error := Some (if ob_kind x = ''cleanup'' then ''cleanup_unavailable'' else ''queue_unavailable'')\<rparr>)
     (t_outbox d)\<rparr>"

definition enqueued :: "run \<Rightarrow> run" where
  "enqueued r = r\<lparr>run_dispatch_state := ''enqueued'', run_revision := run_revision r + 1\<rparr>"

definition sent_tx :: "outbox_row \<Rightarrow> db \<Rightarrow> db ws" where
  "sent_tx x d =
     (let d1 = mark_sent (ob_id x) d in
      if ob_kind x = ''diagnosis''
      then res_bind (get_run (fst (diagnosis_payload (ob_payload x))) d1) (\<lambda>r. Inr (saveRun (enqueued r) d1))
      else Inr d1)"

definition log_task :: "outbox_row \<Rightarrow> ws_error option \<Rightarrow> dstate \<Rightarrow> dstate" where
  "log_task x e s = (case (e, task_of x) of (None, Some t) \<Rightarrow> s\<lparr>ds_tasks := ds_tasks s @ [t]\<rparr> | _ \<Rightarrow> s)"

text \<open>One item: the error that stops the loop, if any, and the new state.\<close>

definition dispatch_item :: "dispatch_env \<Rightarrow> time \<Rightarrow> outbox_row \<Rightarrow> dstate \<Rightarrow> ws_error option \<times> dstate" where
  "dispatch_item env now x s =
     (if ob_kind x = ''cleanup''
      then (case dispatchCleanup (di_cleanup env) (ob_id x) (ob_payload x) (ds_k s) of
              Inr k \<Rightarrow> (None, s\<lparr>ds_k := k\<rparr>)
            | Inl e \<Rightarrow>
                if e = ErrTaskIDConflict
                then (case sent_tx x (ds_db s) of Inl e' \<Rightarrow> (Some e', s) | Inr d \<Rightarrow> (None, put_db d s))
                else (None, put_db (retry_later x now (ds_db s)) s))
      else
        (let e = enqueue_task env x; s1 = log_task x e s in
         if e \<noteq> None \<and> e \<noteq> Some ErrTaskIDConflict then (None, put_db (retry_later x now (ds_db s1)) s1)
         else (case sent_tx x (ds_db s1) of Inl e' \<Rightarrow> (Some e', s1) | Inr d \<Rightarrow> (None, put_db d s1))))"

fun dispatch_loop :: "dispatch_env \<Rightarrow> time \<Rightarrow> outbox_row list \<Rightarrow> dstate \<Rightarrow> ws_error option \<times> dstate" where
  "dispatch_loop env now [] s = (None, s)"
| "dispatch_loop env now (x # xs) s =
     (case di_ctx_err env (ob_id x) of
        Some e \<Rightarrow> (Some e, s)
      | None \<Rightarrow>
          (case dispatch_item env now x s of
             (Some e, s') \<Rightarrow> (Some e, s')
           | (None, s') \<Rightarrow> dispatch_loop env now xs s'))"

definition Dispatch :: "dispatch_env \<Rightarrow> time \<Rightarrow> dstate \<Rightarrow> ws_error option \<times> dstate" where
  "Dispatch env now s = dispatch_loop env now (due_items now (ds_db s)) s"

section \<open>The retrieval probe\<close>

record probe_env =
  pr_locked :: bool
  pr_embed :: "nat ws"
  pr_compatible :: "nat \<Rightarrow> ws_error option"
  pr_space :: "string \<Rightarrow> ws_error option"

definition probe_space :: "string \<Rightarrow> nat \<Rightarrow> string" where
  "probe_space identity dims = hash (''space-v1:'' @ identity @ '':'' @ dec dims)"

text \<open>The service's own space identifier is state here: \<open>ProbeRetrieval\<close> is the one operation that
  sets it.\<close>

definition ProbeRetrieval :: "probe_env \<Rightarrow> string \<Rightarrow> service \<Rightarrow> kstate \<Rightarrow> (ws_error option \<times> service) \<times> kstate" where
  "ProbeRetrieval env identity sv k =
     (if pr_locked env then ((Some (ErrMsg ''retrieval projection publication in progress''), sv), k)
      else case pr_embed env of
        Inl e \<Rightarrow> ((Some e, sv), k)
      | Inr dims \<Rightarrow>
          (let existing = sv_space_id sv; space = probe_space identity dims in
           if existing \<noteq> space \<and> existing \<noteq> [] \<and> existing \<noteq> ''unavailable'' then ((Some ErrConflict, sv), k)
           else case pr_compatible env dims of
             Some e \<Rightarrow> ((Some e, sv), k)
           | None \<Rightarrow>
               (case pr_space env space of
                  Some e \<Rightarrow> ((Some e, sv), k)
                | None \<Rightarrow>
                    if existing = space then ((None, sv), k)
                    else (let sv1 = sv\<lparr>sv_space_id := space\<rparr>;
                              k1 = k\<lparr>ks_rag := SetEmbeddingSpace space dims (ks_rag k)\<rparr>
                          in case RestoreProjection sv1 k1 of
                               (None, k2) \<Rightarrow> ((None, sv1), k2)
                             | (Some e, k2) \<Rightarrow>
                                 ((Some e, sv), k2\<lparr>ks_rag := SetEmbeddingSpace existing 0 (ks_rag k2)\<rparr>)))))"

section \<open>What one item does to the outbox\<close>

definition delivered :: "outbox_row \<Rightarrow> outbox_row" where
  "delivered x = x\<lparr>ob_state := ''sent'', ob_attempts := ob_attempts x + 1, ob_last_error := None\<rparr>"

definition retried :: "time \<Rightarrow> outbox_row \<Rightarrow> outbox_row" where
  "retried now x = x\<lparr>ob_attempts := ob_attempts x + 1, ob_next_at := fmt_nano (now + backoff (ob_attempts x)),
     ob_last_error := Some (if ob_kind x = ''cleanup'' then ''cleanup_unavailable'' else ''queue_unavailable'')\<rparr>"

text \<open>The task of a delivered row is with the queue: accepted now, or known to it before.\<close>

definition handed_over :: "dispatch_env \<Rightarrow> task list \<Rightarrow> outbox_row \<Rightarrow> bool" where
  "handed_over env tasks x \<longleftrightarrow> ob_kind x = ''cleanup''
     \<or> (\<exists>t. task_of x = Some t \<and> di_queue env \<and> (t \<in> set tasks \<or> di_enqueue env t = Some ErrTaskIDConflict))"

definition item_done :: "dispatch_env \<Rightarrow> time \<Rightarrow> task list \<Rightarrow> outbox_row \<Rightarrow> outbox_row \<Rightarrow> bool" where
  "item_done env now tasks x y \<longleftrightarrow> y = delivered x \<and> handed_over env tasks x \<or> y = retried now x"

lemma item_done_id: "item_done env now tasks x y \<Longrightarrow> ob_id y = ob_id x"
  by (auto simp: item_done_def delivered_def retried_def)

lemma item_done_mono: "item_done env now tasks x y \<Longrightarrow> set tasks \<subseteq> set tasks' \<Longrightarrow> item_done env now tasks' x y"
  by (auto simp: item_done_def handed_over_def)

lemma mark_sent_outbox: "t_outbox (mark_sent i d) = tupd ob_id i delivered (t_outbox d)"
  by (simp add: mark_sent_def delivered_def [abs_def])

lemma dispatchCleanup_outbox:
  assumes "dispatchCleanup del oid p k = Inr k'"
  shows "t_outbox (ks_db k') = tupd ob_id oid delivered (t_outbox (ks_db k))"
  using assms
  by (auto simp: dispatchCleanup_def res_bind_eq_Inr mark_sent_outbox save_document_def Let_def
      split: prod.splits if_splits option.splits)

lemma sent_tx_outbox: "sent_tx x d = Inr d' \<Longrightarrow> t_outbox d' = tupd ob_id (ob_id x) delivered (t_outbox d)"
  by (auto simp: sent_tx_def Let_def res_bind_eq_Inr mark_sent_outbox split: if_splits)

lemma put_db_simps [simp]: "ds_db (put_db d s) = d" "ds_tasks (put_db d s) = ds_tasks s"
  by (simp_all add: put_db_def)

lemma log_task_simps [simp]: "ds_k (log_task x e s) = ds_k s" "set (ds_tasks s) \<subseteq> set (ds_tasks (log_task x e s))"
  by (auto simp: log_task_def split: option.splits)

lemma tupd_cong:
  assumes "tok key t" and "x \<in> set t" and "f x = g x"
  shows "tupd key (key x) f t = tupd key (key x) g t"
  unfolding tupd_def
proof (rule map_cong [OF refl])
  fix y assume "y \<in> set t"
  with assms have "key y = key x \<Longrightarrow> y = x" by (auto simp: tok_def distinct_map inj_on_def)
  with assms(3) show "(if key y = key x then f y else y) = (if key y = key x then g y else y)" by auto
qed

lemma retry_later_outbox:
  assumes "tok ob_id (t_outbox d)" and "x \<in> set (t_outbox d)"
  shows "t_outbox (retry_later x now d) = tupd ob_id (ob_id x) (retried now) (t_outbox d)"
  by (auto simp: retry_later_def retried_def intro!: tupd_cong [OF assms])

lemma dispatch_item_outbox:
  assumes "dispatch_item env now x s = (e, s')" and ok: "tok ob_id (t_outbox (ds_db s))" and x: "x \<in> set (t_outbox (ds_db s))"
  shows "set (ds_tasks s) \<subseteq> set (ds_tasks s')
    \<and> (case e of Some _ \<Rightarrow> ds_k s' = ds_k s
       | None \<Rightarrow> \<exists>f. t_outbox (ds_db s') = tupd ob_id (ob_id x) f (t_outbox (ds_db s)) \<and> item_done env now (ds_tasks s') x (f x))"
proof (cases "ob_kind x = ''cleanup''")
  case True
  then have h: "handed_over env ts x" for ts by (simp add: handed_over_def)
  show ?thesis
    using assms(1) True h dispatchCleanup_outbox [of "di_cleanup env" "ob_id x" "ob_payload x" "ds_k s"]
      sent_tx_outbox [of x "ds_db s"] retry_later_outbox [OF ok x, of now]
    by (auto simp: dispatch_item_def item_done_def split: sum.splits if_splits)
next
  case False
  define e1 where "e1 = enqueue_task env x"
  define s1 where "s1 = log_task x e1 s"
  have eqn: "dispatch_item env now x s =
      (if e1 \<noteq> None \<and> e1 \<noteq> Some ErrTaskIDConflict then (None, put_db (retry_later x now (ds_db s1)) s1)
       else (case sent_tx x (ds_db s1) of Inl e' \<Rightarrow> (Some e', s1) | Inr d \<Rightarrow> (None, put_db d s1)))"
    unfolding dispatch_item_def Let_def e1_def s1_def using False by (rule if_not_P)
  have db1: "ds_k s1 = ds_k s" and ts: "set (ds_tasks s) \<subseteq> set (ds_tasks s1)" by (simp_all add: s1_def)
  show ?thesis
  proof (cases "e1 = None \<or> e1 = Some ErrTaskIDConflict")
    case sent: True
    then have h: "handed_over env (ds_tasks s1) x"
      by (auto simp: e1_def s1_def enqueue_task_def log_task_def handed_over_def split: option.splits if_splits)
    show ?thesis
    proof (cases "sent_tx x (ds_db s1)")
      case (Inl err)
      with assms(1) sent have "e = Some err \<and> s' = s1"
        by (auto simp: eqn)
      with db1 ts show ?thesis by simp
    next
      case (Inr d)
      with assms(1) sent have "e = None \<and> s' = put_db d s1"
        by (auto simp: eqn)
      with sent_tx_outbox [OF Inr] db1 ts h show ?thesis by (auto simp: item_done_def)
    qed
  next
    case retry: False
    with assms(1) have "e = None \<and> s' = put_db (retry_later x now (ds_db s1)) s1"
      by (auto simp: eqn)
    with retry_later_outbox [OF ok x, of now] db1 ts show ?thesis by (auto simp: item_done_def)
  qed
qed

section \<open>What a dispatch does to the outbox\<close>

definition row_after :: "dispatch_env \<Rightarrow> time \<Rightarrow> string list \<Rightarrow> bool \<Rightarrow> task list \<Rightarrow> outbox_row \<Rightarrow> outbox_row \<Rightarrow> bool" where
  "row_after env now ids fin tasks x y \<longleftrightarrow>
     (if ob_id x \<in> set ids then item_done env now tasks x y \<or> \<not> fin \<and> y = x else y = x)"

lemma list_all2_tupd: "(\<And>x. x \<in> set t \<Longrightarrow> P x (if key x = k then f x else x)) \<Longrightarrow> list_all2 P t (tupd key k f t)"
  by (simp add: tupd_def list_all2_map2 list.rel_refl_strong)

lemma dispatch_loop_outbox:
  assumes "dispatch_loop env now xs s = (e, s')" and "tok ob_id (t_outbox (ds_db s))"
    and "set xs \<subseteq> set (t_outbox (ds_db s))" and "distinct (map ob_id xs)"
  shows "set (ds_tasks s) \<subseteq> set (ds_tasks s')
    \<and> list_all2 (row_after env now (map ob_id xs) (e = None) (ds_tasks s')) (t_outbox (ds_db s)) (t_outbox (ds_db s'))"
  using assms
proof (induction env now xs s rule: dispatch_loop.induct)
  case (1 env now s)
  then show ?case by (auto simp: row_after_def intro: list.rel_refl)
next
  case (2 env now x xs s)
  let ?t = "t_outbox (ds_db s)"
  obtain e1 s1 where item: "dispatch_item env now x s = (e1, s1)" by fastforce
  have x: "x \<in> set ?t" using 2(4) by simp
  note it = dispatch_item_outbox [OF item 2(3) x]
  show ?case
  proof (cases "di_ctx_err env (ob_id x)")
    case (Some err)
    with 2(2) have "e = Some err \<and> s' = s" by simp
    then show ?thesis by (auto simp: row_after_def intro!: list.rel_refl)
  next
    case ctx: None
    show ?thesis
    proof (cases e1)
      case (Some err)
      with ctx 2(2) item it show ?thesis by (auto simp: row_after_def intro!: list.rel_refl)
    next
      case None
      with it obtain f where t1: "t_outbox (ds_db s1) = tupd ob_id (ob_id x) f ?t"
        and dn: "item_done env now (ds_tasks s1) x (f x)" by auto
      have t1': "t_outbox (ds_db s1) = tupd ob_id (ob_id x) (\<lambda>_. f x) ?t"
        unfolding t1 by (rule tupd_cong [OF 2(3) x refl])
      have id: "ob_id (f x) = ob_id x" using item_done_id [OF dn] .
      have "map ob_id (t_outbox (ds_db s1)) = map ob_id ?t"
        unfolding t1' using id by (auto simp: tupd_def)
      then have tok1: "tok ob_id (t_outbox (ds_db s1))" using 2(3) by (simp add: tok_def)
      have fresh: "ob_id x \<notin> set (map ob_id xs)" using 2(5) by simp
      have sub: "set xs \<subseteq> set (t_outbox (ds_db s1))"
      proof
        fix y assume y: "y \<in> set xs"
        then have "ob_id y \<noteq> ob_id x" using fresh by (metis imageI list.set_map)
        moreover have "y \<in> set ?t" using y 2(4) by auto
        ultimately show "y \<in> set (t_outbox (ds_db s1))" unfolding t1' lt.upd_rows by force
      qed
      have loop: "dispatch_loop env now xs s1 = (e, s')" using 2(2) ctx item None by simp
      have ih: "set (ds_tasks s1) \<subseteq> set (ds_tasks s')
          \<and> list_all2 (row_after env now (map ob_id xs) (e = None) (ds_tasks s')) (t_outbox (ds_db s1)) (t_outbox (ds_db s'))"
        using 2(1) [OF ctx item [symmetric] None loop tok1 sub] 2(5) by simp
      let ?R = "row_after env now (map ob_id (x # xs)) (e = None) (ds_tasks s')"
      have "list_all2 ?R ?t (t_outbox (ds_db s'))"
        unfolding list_all2_conv_all_nth
      proof (intro conjI allI impI)
        have "length ?t = length (t_outbox (ds_db s1))" by (simp add: t1' tupd_def)
        then show len: "length ?t = length (t_outbox (ds_db s'))" using ih by (auto dest: list_all2_lengthD)
        fix n assume n: "n < length ?t"
        have row1: "t_outbox (ds_db s1) ! n = (if ob_id (?t ! n) = ob_id x then f x else ?t ! n)"
          using n by (simp add: t1' tupd_def)
        have at: "row_after env now (map ob_id xs) (e = None) (ds_tasks s') (t_outbox (ds_db s1) ! n) (t_outbox (ds_db s') ! n)"
          using ih n by (simp add: list_all2_conv_all_nth t1' tupd_def)
        show "?R (?t ! n) (t_outbox (ds_db s') ! n)"
        proof (cases "ob_id (?t ! n) = ob_id x")
          case True
          then have eq: "?t ! n = x" using 2(3) x n by (auto simp: tok_def distinct_map inj_on_def)
          have "t_outbox (ds_db s') ! n = f x" using at row1 True id fresh by (simp add: row_after_def)
          then show ?thesis using item_done_mono [OF dn] ih by (simp add: row_after_def eq)
        next
          case False
          with at row1 show ?thesis by (simp add: row_after_def)
        qed
      qed
      with ih it show ?thesis by auto
    qed
  qed
qed

section \<open>What one item does to the workspace\<close>

text \<open>A row that \<open>Dispatch\<close> read: the table still holds its id, kind and payload, whatever its state.\<close>

definition from_outbox :: "outbox_row \<Rightarrow> db \<Rightarrow> bool" where
  "from_outbox x d \<longleftrightarrow> (\<exists>y \<in> set (t_outbox d). ob_id y = ob_id x \<and> ob_kind y = ob_kind x \<and> ob_payload y = ob_payload x)"

definition ws_ok :: "db \<Rightarrow> bool" where
  "ws_ok d \<longleftrightarrow> core_ok d \<and> knowledge_ok d"

text \<open>A row whose kind is not diagnosis shares its id with no diagnosis row.\<close>

lemma from_outbox_not_diagnosis:
  assumes "core_ok d" and "from_outbox x d" and "ob_kind x \<noteq> ''diagnosis''" and "y \<in> set (t_outbox d)"
    and "diagnosis_row j y"
  shows "ob_id y \<noteq> ob_id x"
proof
  assume eq: "ob_id y = ob_id x"
  from assms(2) obtain z where z: "z \<in> set (t_outbox d)" "ob_id z = ob_id x" "ob_kind z = ob_kind x"
    by (auto simp: from_outbox_def)
  have "tok ob_id (t_outbox d)" using assms(1) by (simp add: core_ok_def outbox_ok_def)
  then have "y = z" using assms(4) z eq by (auto simp: tok_def distinct_map inj_on_def)
  with assms(3,5) z show False by (simp add: diagnosis_row_def)
qed

lemma mark_sent_effect:
  assumes "core_ok d" and "from_outbox x d" and "ob_kind x \<noteq> ''diagnosis''"
  shows "core_ok (mark_sent (ob_id x) d) \<and> runs_follow d (mark_sent (ob_id x) d)"
proof
  show "core_ok (mark_sent (ob_id x) d)"
    unfolding mark_sent_def
    by (rule core_ok_outbox_upd [OF assms(1)]) (use from_outbox_not_diagnosis [OF assms] in auto)
  show "runs_follow d (mark_sent (ob_id x) d)" by (rule runs_follow_same) (simp add: mark_sent_def)
qed

lemma from_outbox_diagnosis:
  assumes "core_ok d" and "from_outbox x d" and "ob_kind x = ''diagnosis''"
  obtains i obs where "ob_payload x = PDiagnosis i obs" and "ob_id x = diagnosis_key i" and "has_run i d"
proof -
  from assms(2) obtain z where z: "z \<in> set (t_outbox d)" "ob_id z = ob_id x" "ob_kind z = ob_kind x"
    "ob_payload z = ob_payload x" by (auto simp: from_outbox_def)
  have "ob_kind z = ''diagnosis'' \<longrightarrow>
      (case ob_payload z of PDiagnosis i _ \<Rightarrow> ob_id z = diagnosis_key i \<and> has_run i d | _ \<Rightarrow> False)"
    using assms(1) z(1) by (simp add: core_ok_def outbox_ok_def list_all_iff)
  with z assms(3) show ?thesis using that by (cases "ob_payload x") auto
qed

text \<open>Marking a diagnosis row as sent and its run as enqueued is one step: neither alone keeps the link
  between them.\<close>

lemma enqueued_effect:
  assumes ok: "core_ok d" and get: "get_run i d = Inr r"
  shows "core_ok (saveRun (enqueued r) (mark_sent (diagnosis_key i) d))
    \<and> runs_follow d (saveRun (enqueued r) (mark_sent (diagnosis_key i) d))"
proof -
  let ?d1 = "mark_sent (diagnosis_key i) d"
  let ?d2 = "saveRun (enqueued r) ?d1"
  have runs1: "t_runs ?d1 = t_runs d" by (simp add: mark_sent_def)
  have get1: "get_run i ?d1 = Inr r" using get get_run_cong [OF runs1] by simp
  have id: "run_id r = i" using get_run_id get ok by (auto simp: core_ok_def)
  have base1: "base_ok ?d1"
    unfolding mark_sent_def by (rule base_ok_outbox_upd) (use ok in \<open>simp_all add: core_ok_base\<close>)
  have "run_succeeds r (enqueued r)" by (simp add: run_succeeds_def enqueued_def published_def)
  note sb = saveRun_base [OF base1 get1 this]
  have rows: "set (t_outbox ?d2) = (\<lambda>x. if ob_id x = diagnosis_key i then delivered x else x) ` set (t_outbox d)"
    by (simp add: mark_sent_outbox lt.upd_rows)
  have "queue_ok ?d2"
    unfolding queue_ok_def list_all_iff list_ex_iff
  proof (intro ballI impI)
    fix y' assume y': "y' \<in> set (t_runs ?d2)" and nt: "\<not> terminal (rr_status y')"
    then obtain y where y: "y \<in> set (t_runs d)" "y' = store_run (enqueued r) y"
      unfolding saveRun_rows runs1 by auto
    have idy: "rr_id y' = rr_id y" by (simp add: y store_run_def)
    have "rr_data y = r \<and> row_agrees y" if "rr_id y = i"
      using row_unique [OF _ get y(1) that] ok by (simp add: core_ok_def)
    then have st: "rr_status y' = rr_status y"
      using id by (auto simp: y store_run_def enqueued_def row_agrees_def)
    obtain ob where ob: "ob \<in> set (t_outbox d)" "diagnosis_row (rr_id y) ob"
      "rr_status y = ''queued'' \<longrightarrow> ob_state ob = dispatch_state (rr_data y)"
      using ok y(1) nt st by (auto simp: core_ok_def queue_ok_def list_all_iff list_ex_iff)
    let ?ob = "if ob_id ob = diagnosis_key i then delivered ob else ob"
    have "?ob \<in> set (t_outbox ?d2)" using ob(1) unfolding rows by blast
    moreover have "diagnosis_row (rr_id y') ?ob" using ob(2) idy by (simp add: diagnosis_row_def delivered_def)
    moreover have "rr_status y' = ''queued'' \<longrightarrow> ob_state ?ob = dispatch_state (rr_data y')"
      using ob(2,3) st id by (auto simp: y store_run_def enqueued_def dispatch_state_def delivered_def diagnosis_row_def)
    ultimately show "\<exists>ob \<in> set (t_outbox ?d2). diagnosis_row (rr_id y') ob
        \<and> (rr_status y' = ''queued'' \<longrightarrow> ob_state ob = dispatch_state (rr_data y'))" by blast
  qed
  moreover have "runs_follow d ?d1" by (rule runs_follow_same [OF runs1])
  ultimately show ?thesis using sb runs_follow_trans by (auto simp: core_ok_base)
qed

lemma sent_tx_effect:
  assumes tx: "sent_tx x d = Inr d'" and ok: "core_ok d" and x: "from_outbox x d"
  shows "core_ok d' \<and> runs_follow d d'"
proof (cases "ob_kind x = ''diagnosis''")
  case True
  from ok x True obtain i obs where i: "ob_payload x = PDiagnosis i obs" "ob_id x = diagnosis_key i"
    by (rule from_outbox_diagnosis)
  with tx True obtain r where r: "get_run i (mark_sent (diagnosis_key i) d) = Inr r"
    "d' = saveRun (enqueued r) (mark_sent (diagnosis_key i) d)"
    by (auto simp: sent_tx_def Let_def res_bind_eq_Inr diagnosis_payload_def)
  have "get_run i d = Inr r" using r(1) by (simp add: mark_sent_def get_run_def)
  then show ?thesis using enqueued_effect [OF ok] r(2) by simp
next
  case False
  with tx have "d' = mark_sent (ob_id x) d" by (simp add: sent_tx_def)
  with mark_sent_effect [OF ok x False] show ?thesis by simp
qed

lemma retry_later_effect: "core_ok d \<Longrightarrow> core_ok (retry_later x now d) \<and> runs_follow d (retry_later x now d)"
  unfolding retry_later_def
  by (intro conjI core_ok_outbox_upd runs_follow_same) auto

text \<open>The documents: only a clean-up touches them.\<close>

lemma sent_tx_docs:
  "sent_tx x d = Inr d' \<Longrightarrow> t_documents d' = t_documents d \<and> t_versions d' = t_versions d"
  by (auto simp: sent_tx_def Let_def res_bind_eq_Inr split: if_splits)

lemma retry_later_docs [simp]:
  "t_documents (retry_later x now d) = t_documents d" "t_versions (retry_later x now d) = t_versions d"
  by (simp_all add: retry_later_def)

lemma ws_ok_docs:
  assumes "ws_ok d" and "core_ok d' \<and> runs_follow d d'" and "t_documents d' = t_documents d \<and> t_versions d' = t_versions d"
  shows "ws_ok d' \<and> runs_follow d d'"
  using assms knowledge_ok_cong [of d' d] by (simp add: ws_ok_def)

lemma dispatchCleanup_effect:
  assumes run: "dispatchCleanup del (ob_id x) p k = Inr k'" and ok: "ws_ok (ks_db k)"
    and x: "from_outbox x (ks_db k)" and kind: "ob_kind x = ''cleanup''"
  shows "ws_ok (ks_db k') \<and> runs_follow (ks_db k) (ks_db k')"
proof -
  obtain i vid where pl: "cleanup_payload p = (i, vid)" by fastforce
  with run obtain doc where get: "get_document i (ks_db k) = Inr doc"
    by (auto simp: dispatchCleanup_def res_bind_eq_Inr)
  obtain d1 where db: "ks_db k' = mark_sent (ob_id x) d1"
    and d1: "d1 = ks_db k \<or> d1 = save_document (doc\<lparr>doc_index_status := ''removed''\<rparr>) (ks_db k)"
    using run pl get by (auto simp: dispatchCleanup_def res_bind_def Let_def split: if_splits option.splits)
  have core: "core_ok (ks_db k)" and kn: "knowledge_ok (ks_db k)" using ok by (simp_all add: ws_ok_def)
  have same: "t_runs d1 = t_runs (ks_db k)" "t_events d1 = t_events (ks_db k)" "t_incidents d1 = t_incidents (ks_db k)"
    "t_run_incidents d1 = t_run_incidents (ks_db k)" "t_outbox d1 = t_outbox (ks_db k)" "t_evidence d1 = t_evidence (ks_db k)"
    using d1 by (auto simp: save_document_def)
  have f1: "core_ok d1 \<and> runs_follow (ks_db k) d1" by (rule core_ok_frame [OF core same])
  have k1: "knowledge_ok d1" using d1 kn save_document_effect [OF kn get] by auto
  have "from_outbox x d1" using x same by (simp add: from_outbox_def)
  with f1 kind have "core_ok (ks_db k') \<and> runs_follow d1 (ks_db k')"
    unfolding db by (intro mark_sent_effect) auto
  moreover have "knowledge_ok (ks_db k')" using k1 knowledge_ok_cong [of "ks_db k'" d1] by (simp add: db)
  ultimately show ?thesis using f1 runs_follow_trans by (auto simp: ws_ok_def)
qed

lemma dispatch_item_effect:
  assumes it: "dispatch_item env now x s = (e, s')" and ok: "ws_ok (ds_db s)" and x: "from_outbox x (ds_db s)"
  shows "ws_ok (ds_db s') \<and> runs_follow (ds_db s) (ds_db s')"
proof -
  have core: "core_ok (ds_db s)" using ok by (simp add: ws_ok_def)
  have retry: "ws_ok (retry_later x now (ds_db s)) \<and> runs_follow (ds_db s) (retry_later x now (ds_db s))"
    using retry_later_effect [OF core] by (intro ws_ok_docs [OF ok]) simp_all
  have sent: "ws_ok d \<and> runs_follow (ds_db s) d" if "sent_tx x (ds_db s) = Inr d" for d
    using sent_tx_effect [OF that core x] sent_tx_docs [OF that] by (rule ws_ok_docs [OF ok])
  show ?thesis
  proof (cases "ob_kind x = ''cleanup''")
    case True
    then show ?thesis
      using it ok retry sent dispatchCleanup_effect [OF _ ok x True]
      by (auto simp: dispatch_item_def split: sum.splits if_splits)
  next
    case False
    then show ?thesis
      using it ok retry sent
      by (auto simp: dispatch_item_def Let_def split: sum.splits if_splits)
  qed
qed

text \<open>The snapshot stays valid: no item drops a row or changes its kind or payload.\<close>

lemma item_keeps_snapshot:
  assumes "dispatch_item env now x s = (e, s')" and "from_outbox y (ds_db s)"
  shows "from_outbox y (ds_db s')"
proof -
  have upd: "from_outbox y d'" if "t_outbox d' = tupd ob_id i f (t_outbox (ds_db s))"
    and "\<And>z. ob_id (f z) = ob_id z \<and> ob_kind (f z) = ob_kind z \<and> ob_payload (f z) = ob_payload z" for d' i f
  proof -
    from assms(2) obtain z where z: "z \<in> set (t_outbox (ds_db s))" "ob_id z = ob_id y" "ob_kind z = ob_kind y"
      "ob_payload z = ob_payload y" by (auto simp: from_outbox_def)
    then have "(if ob_id z = i then f z else z) \<in> set (t_outbox d')" unfolding that(1) lt.upd_rows by blast
    then show ?thesis
      unfolding from_outbox_def using z that(2) by (intro bexI [of _ "if ob_id z = i then f z else z"]) auto
  qed
  have sent: "from_outbox y d" if "sent_tx x (ds_db s) = Inr d" for d
    by (rule upd [OF sent_tx_outbox [OF that]]) (simp add: delivered_def)
  have retry: "from_outbox y (retry_later x now (ds_db s))"
    by (rule upd [of _ "ob_id x"]) (simp add: retry_later_def split del: if_split, simp)
  have clean: "from_outbox y (ks_db k)" if "dispatchCleanup del i p (ds_k s) = Inr k" for del i p k
    by (rule upd [OF dispatchCleanup_outbox [OF that]]) (simp add: delivered_def)
  show ?thesis
    using assms sent retry clean
    by (auto simp: dispatch_item_def Let_def split: sum.splits if_splits)
qed

lemma dispatch_loop_effect:
  assumes "dispatch_loop env now xs s = (e, s')" and "ws_ok (ds_db s)" and "\<forall>x \<in> set xs. from_outbox x (ds_db s)"
  shows "ws_ok (ds_db s') \<and> runs_follow (ds_db s) (ds_db s')"
  using assms
proof (induction env now xs s rule: dispatch_loop.induct)
  case (2 env now x xs s)
  obtain e1 s1 where item: "dispatch_item env now x s = (e1, s1)" by fastforce
  have i1: "ws_ok (ds_db s1) \<and> runs_follow (ds_db s) (ds_db s1)"
    using dispatch_item_effect [OF item 2(3)] 2(4) by simp
  show ?case
  proof (cases "di_ctx_err env (ob_id x) = None \<and> e1 = None")
    case True
    with 2(2) item have loop: "dispatch_loop env now xs s1 = (e, s')" by simp
    have "\<forall>y \<in> set xs. from_outbox y (ds_db s1)" using item_keeps_snapshot [OF item] 2(4) by simp
    with 2(1) item True loop i1 have "ws_ok (ds_db s') \<and> runs_follow (ds_db s1) (ds_db s')" by simp
    with i1 show ?thesis using runs_follow_trans by blast
  next
    case False
    with 2(2,3) item i1 show ?thesis by (auto split: option.splits)
  qed
qed simp

section \<open>Properties of the dispatcher\<close>

lemma due_items_rows:
  assumes "tok ob_id (t_outbox d)"
  shows "set (due_items now d) \<subseteq> set (t_outbox d)" and "distinct (map ob_id (due_items now d))"
    and "length (due_items now d) \<le> 100"
proof -
  show "set (due_items now d) \<subseteq> set (t_outbox d)"
    unfolding due_items_def using set_take_subset by fastforce
  show "distinct (map ob_id (due_items now d))"
    using assms unfolding due_items_def tok_def by (simp add: take_map [symmetric] distinct_map_filter)
  show "length (due_items now d) \<le> 100" by (simp add: due_items_def)
qed

text \<open>C6. \<open>Dispatch\<close> accounts for every row of the outbox, and delivers at least once. On a well-formed
  workspace it keeps the workspace well formed and the history of every run. Row by row: a row outside the at
  most a hundred due ones is unchanged; a due row is either marked as sent, and then its task was accepted by
  the queue or was already known to it (a clean-up row needs no task), or it stays pending with one more attempt,
  a recorded failure and a due time of \<open>2^min(attempts, 6)\<close> seconds later. Only a dispatch that stopped
  with an error leaves a due row untouched. No accepted task is forgotten.\<close>

theorem Dispatch_accounts:
  assumes run: "Dispatch env now s = (e, s')" and ok: "ws_ok (ds_db s)"
  shows "ws_ok (ds_db s') \<and> runs_follow (ds_db s) (ds_db s') \<and> set (ds_tasks s) \<subseteq> set (ds_tasks s')
    \<and> list_all2 (row_after env now (map ob_id (due_items now (ds_db s))) (e = None) (ds_tasks s'))
        (t_outbox (ds_db s)) (t_outbox (ds_db s'))"
proof -
  have tok: "tok ob_id (t_outbox (ds_db s))" using ok by (simp add: ws_ok_def core_ok_def outbox_ok_def)
  note due = due_items_rows [OF tok, of now]
  have "\<forall>x \<in> set (due_items now (ds_db s)). from_outbox x (ds_db s)"
    using due(1) by (auto simp: from_outbox_def)
  with run dispatch_loop_effect dispatch_loop_outbox [OF _ tok due(1,2)] ok show ?thesis
    unfolding Dispatch_def by blast
qed

definition ex_note :: outbox_row where
  "ex_note = \<lparr> ob_id = ''n'', ob_kind = ''notification'', ob_dedupe_key = ''n'', ob_payload = PCleanup [] [],
     ob_state = ''pending'', ob_attempts = 3, ob_next_at = [], ob_last_error = None \<rparr>"

definition ex_dstate :: dstate where
  "ex_dstate = \<lparr> ds_k = ex_kstate\<lparr>ks_db := empty_db\<lparr>t_outbox := [ex_note]\<rparr>\<rparr>, ds_tasks = [] \<rparr>"

definition ex_queue :: "ws_error option \<Rightarrow> dispatch_env" where
  "ex_queue answer = \<lparr> di_queue = True, di_queue_ready = Some True, di_enqueue = (\<lambda>_. answer), di_cleanup = None,
     di_ctx_err = (\<lambda>_. None) \<rparr>"

lemma ws_ok_ex: "ws_ok (ds_db ex_dstate)"
  by (simp add: ws_ok_def ex_dstate_def core_ok_def knowledge_ok_def versions_agree_def documents_agree_def pointers_ok_def
      runs_ok_def events_ok_def incidents_ok_def links_ok_def evidence_ok_def outbox_ok_def queue_ok_def tok_def
      empty_db_def ex_note_def)

lemma ex_due: "due_items now (ds_db ex_dstate) = [ex_note]"
  by (simp add: due_items_def ex_dstate_def ex_note_def)

lemma ex_dispatch:
  "Dispatch (ex_queue None) 0 ex_dstate = (None, ex_dstate\<lparr>ds_k := (ds_k ex_dstate)\<lparr>ks_db :=
      empty_db\<lparr>t_outbox := [delivered ex_note]\<rparr>\<rparr>, ds_tasks := [TNotification [] (PCleanup [] [])]\<rparr>)"
  unfolding Dispatch_def ex_due
  by (simp add: ex_queue_def dispatch_item_def Let_def enqueue_task_def task_of_def ex_note_def
      notification_payload_def log_task_def sent_tx_def put_db_def ex_dstate_def mark_sent_outbox mark_sent_def
      delivered_def tupd_def)

theorem Dispatch_accounts_witness:
  "\<exists>s'. Dispatch (ex_queue None) 0 ex_dstate = (None, s') \<and> t_outbox (ds_db s') = [delivered ex_note]
     \<and> ds_tasks s' = [TNotification [] (PCleanup [] [])]
     \<and> row_after (ex_queue None) 0 [''n''] True (ds_tasks s') ex_note (delivered ex_note)"
  using Dispatch_accounts [OF ex_dispatch ws_ok_ex] unfolding ex_dispatch ex_due
  by (simp add: ex_dstate_def ex_note_def)

text \<open>A queue that answers, and no failure of the context, lets a dispatch end without an error, because the
  run of every diagnosis row exists.\<close>

lemma dispatch_item_total:
  assumes "ws_ok (ds_db s)" and "from_outbox x (ds_db s)"
  shows "\<exists>s'. dispatch_item env now x s = (None, s')"
proof -
  have "\<exists>d. sent_tx x (ds_db s) = Inr d"
  proof (cases "ob_kind x = ''diagnosis''")
    case True
    with assms obtain i obs where "ob_payload x = PDiagnosis i obs" "has_run i (ds_db s)"
      using from_outbox_diagnosis unfolding ws_ok_def by metis
    then show ?thesis
      by (auto simp: sent_tx_def Let_def diagnosis_payload_def res_bind_eq_Inr get_run_def has_run_def mark_sent_def res_of_def)
  qed (simp add: sent_tx_def)
  then show ?thesis
    by (auto simp: dispatch_item_def Let_def split: sum.splits)
qed

lemma dispatch_loop_total:
  assumes "ws_ok (ds_db s)" and "\<forall>x \<in> set xs. from_outbox x (ds_db s)" and "\<forall>i. di_ctx_err env i = None"
  shows "\<exists>s'. dispatch_loop env now xs s = (None, s')"
  using assms
proof (induction xs arbitrary: s)
  case (Cons x xs)
  then obtain s1 where item: "dispatch_item env now x s = (None, s1)" using dispatch_item_total by fastforce
  with Cons.prems dispatch_item_effect [OF item] item_keeps_snapshot [OF item]
  have "\<exists>s'. dispatch_loop env now xs s1 = (None, s')" by (intro Cons.IH) auto
  with item Cons.prems(3) show ?case by simp
qed simp



text \<open>The retrieval probe never changes a configured space. It does not write SQL; the service keeps its
  space unless there was none, and then takes the identity of the model that answered, after the projection has
  been rebuilt for it from SQL; with an error the space is the one before.\<close>

theorem ProbeRetrieval_keeps_space:
  assumes run: "ProbeRetrieval env identity sv k = ((e, sv'), k')" and ok: "knowledge_ok (ks_db k)"
  shows "ks_db k' = ks_db k
    \<and> (sv_space_id sv \<noteq> [] \<and> sv_space_id sv \<noteq> ''unavailable'' \<longrightarrow> sv' = sv \<and> k' = k)
    \<and> (sv' = sv \<or> e = None \<and> (\<exists>dims. pr_embed env = Inr dims \<and> pr_compatible env dims = None
         \<and> sv_space_id sv' = probe_space identity dims \<and> pr_space env (sv_space_id sv') = None
         \<and> rag_view k' = sql_active (sv_space_id sv') (ks_db k)))"
proof -
  have res: "\<exists>k2. RestoreProjection sv1 k1 = (None, k2) \<and> ks_db k2 = ks_db k1
      \<and> rag_view k2 = sql_active (sv_space_id sv1) (ks_db k1)" if "ks_db k1 = ks_db k" for sv1 k1
    using rp.restore_ok [of k1 sv1] ok that by simp
  show ?thesis
  proof (cases "sv' = sv \<and> k' = k")
    case True then show ?thesis by simp
  next
    case False
    let ?ex = "sv_space_id sv"
    from run False obtain dims where d: "pr_embed env = Inr dims" "pr_compatible env dims = None"
      "pr_space env (probe_space identity dims) = None" "?ex \<noteq> probe_space identity dims"
      "?ex = [] \<or> ?ex = ''unavailable''"
      by (auto simp: ProbeRetrieval_def Let_def split: if_splits sum.splits option.splits)
    define sv1 where "sv1 = sv\<lparr>sv_space_id := probe_space identity dims\<rparr>"
    define k1 where "k1 = k\<lparr>ks_rag := SetEmbeddingSpace (probe_space identity dims) dims (ks_rag k)\<rparr>"
    from res [of k1 sv1] obtain k2 where k2: "RestoreProjection sv1 k1 = (None, k2)" "ks_db k2 = ks_db k"
      "rag_view k2 = sql_active (probe_space identity dims) (ks_db k)"
      by (auto simp: k1_def sv1_def)
    have "e = None \<and> sv' = sv1 \<and> k' = k2"
      using run False d k2(1) by (auto simp: ProbeRetrieval_def Let_def sv1_def k1_def split: if_splits)
    with d k2 show ?thesis by (auto simp: sv1_def)
  qed
qed

definition ex_probe :: probe_env where
  "ex_probe = \<lparr> pr_locked = False, pr_embed = Inr 3, pr_compatible = (\<lambda>_. None), pr_space = (\<lambda>_. None) \<rparr>"

theorem ProbeRetrieval_keeps_space_witness:
  "\<exists>e sv' k'. ProbeRetrieval ex_probe ''m'' ex_sv ex_published = ((e, sv'), k') \<and> sv' = ex_sv \<and> k' = ex_published"
proof -
  obtain e sv' k' where run: "ProbeRetrieval ex_probe ''m'' ex_sv ex_published = ((e, sv'), k')"
    by (metis prod.exhaust)
  with ProbeRetrieval_keeps_space [OF run knowledge_ok_ex_published] show ?thesis by (auto simp: ex_sv_def)
qed

end
