(* ===== verification/Topology.thy ===== *)
theory Topology
  imports Admission GoUrl "HOL-Library.Multiset"
begin

text \<open>
  The declared service topology (\<open>src/internal/workspace/topology.go\<close>): the identity of a service, the
  validation of a configuration file, and the traversal that finds the services around an incident's service
  and those a failure may reach.

  The file is its content, or \<open>None\<close> when it cannot be opened. \<open>decode_stream\<close> is the JSON reader of the
  standard library: the first value of the text, and whether the text ends after it. A member that occurs twice
  in an object keeps the last value. \<open>ctx\<close> answers the checks of the context: \<open>ctx 0\<close> on entry,
  \<open>ctx 1\<close> and \<open>ctx 2\<close> in the two loops at the service that is taken from the queue.
\<close>

section \<open>Service identities\<close>

definition ServiceTopologyID :: "string \<Rightarrow> string \<Rightarrow> string \<Rightarrow> string" where
  "ServiceTopologyID environment namespace service =
     PathEscape environment @ ''/'' @ PathEscape namespace @ ''/'' @ PathEscape service"

section \<open>The configuration\<close>

record topology_node =
  tn_id :: string
  tn_environment :: string
  tn_namespace :: string
  tn_service :: string
  tn_source_ref :: string

record topology_edge =
  te_id :: string
  te_source :: string
  te_target :: string
  te_kind :: string
  te_source_ref :: string
  te_valid_from :: string
  te_valid_to :: "string option"

record potential_impact =
  pi_service_id :: string
  pi_label :: string
  pi_basis :: string
  pi_source_refs :: "string list"

record topology_snapshot =
  ts_capability :: string
  ts_version :: string
  ts_content_sha256 :: string
  ts_source_ref :: string
  ts_valid_from :: string
  ts_valid_to :: "string option"
  ts_as_of :: string
  ts_focus_id :: string
  ts_nodes :: "topology_node list"
  ts_edges :: "topology_edge list"
  ts_potential_impact :: "potential_impact list"
  ts_historical_evidence :: bool
  ts_validity_state :: string

record topology =
  tp_snapshot :: topology_snapshot
  tp_raw :: string
  tp_persisted :: bool

record topology_config =
  cf_version :: string
  cf_source_ref :: string
  cf_valid_from :: string
  cf_valid_to :: "string option"
  cf_nodes :: "topology_node list"
  cf_edges :: "topology_edge list"

definition known_fields :: "string list \<Rightarrow> (string \<times> json) list \<Rightarrow> bool" where
  "known_fields fs kvs \<longleftrightarrow> list_all (\<lambda>(k, v). to_lower k \<in> set fs) kvs"

definition set_opt_string :: "json \<Rightarrow> string option \<Rightarrow> string option ws" where
  "set_opt_string v old = (case v of JNull \<Rightarrow> Inr None | JStr s \<Rightarrow> Inr (Some s) | _ \<Rightarrow> Inl ErrJSON)"

definition opt_field :: "string \<Rightarrow> (string \<times> json) list \<Rightarrow> string option ws" where
  "opt_field f kvs = fold_res set_opt_string (jvalues f kvs) None"

definition zero_node :: topology_node where
  "zero_node = \<lparr> tn_id = [], tn_environment = [], tn_namespace = [], tn_service = [], tn_source_ref = [] \<rparr>"

definition zero_edge :: topology_edge where
  "zero_edge = \<lparr> te_id = [], te_source = [], te_target = [], te_kind = [], te_source_ref = [], te_valid_from = [],
     te_valid_to = None \<rparr>"

definition decode_node :: "json \<Rightarrow> topology_node ws" where
  "decode_node j =
     (case j of
        JNull \<Rightarrow> Inr zero_node
      | JObj kvs \<Rightarrow>
          ensure (known_fields [''id'', ''environment'', ''namespace'', ''service'', ''source_ref''] kvs) ErrJSON
          (res_bind (str_field ''id'' kvs) (\<lambda>i.
           res_bind (str_field ''environment'' kvs) (\<lambda>env.
           res_bind (str_field ''namespace'' kvs) (\<lambda>ns.
           res_bind (str_field ''service'' kvs) (\<lambda>sv.
           res_bind (str_field ''source_ref'' kvs) (\<lambda>ref.
             Inr \<lparr> tn_id = i, tn_environment = env, tn_namespace = ns, tn_service = sv, tn_source_ref = ref \<rparr>))))))
      | _ \<Rightarrow> Inl ErrJSON)"

definition decode_edge :: "json \<Rightarrow> topology_edge ws" where
  "decode_edge j =
     (case j of
        JNull \<Rightarrow> Inr zero_edge
      | JObj kvs \<Rightarrow>
          ensure (known_fields [''id'', ''source'', ''target'', ''kind'', ''source_ref'', ''valid_from'', ''valid_to''] kvs) ErrJSON
          (res_bind (str_field ''id'' kvs) (\<lambda>i.
           res_bind (str_field ''source'' kvs) (\<lambda>src.
           res_bind (str_field ''target'' kvs) (\<lambda>tgt.
           res_bind (str_field ''kind'' kvs) (\<lambda>kd.
           res_bind (str_field ''source_ref'' kvs) (\<lambda>ref.
           res_bind (str_field ''valid_from'' kvs) (\<lambda>vf.
           res_bind (opt_field ''valid_to'' kvs) (\<lambda>vt.
             Inr \<lparr> te_id = i, te_source = src, te_target = tgt, te_kind = kd, te_source_ref = ref,
                   te_valid_from = vf, te_valid_to = vt \<rparr>))))))))
      | _ \<Rightarrow> Inl ErrJSON)"

definition set_array :: "(json \<Rightarrow> 'a ws) \<Rightarrow> json \<Rightarrow> 'a list \<Rightarrow> 'a list ws" where
  "set_array dec_one v old =
     (case v of JNull \<Rightarrow> Inr [] | JArr js \<Rightarrow> map_res dec_one js | _ \<Rightarrow> Inl ErrJSON)"

definition decode_config :: "json \<Rightarrow> topology_config ws" where
  "decode_config j =
     (case j of
        JNull \<Rightarrow> Inr \<lparr> cf_version = [], cf_source_ref = [], cf_valid_from = [], cf_valid_to = None, cf_nodes = [], cf_edges = [] \<rparr>
      | JObj kvs \<Rightarrow>
          ensure (known_fields [''version'', ''source_ref'', ''valid_from'', ''valid_to'', ''nodes'', ''edges''] kvs) ErrJSON
          (res_bind (str_field ''version'' kvs) (\<lambda>ver.
           res_bind (str_field ''source_ref'' kvs) (\<lambda>ref.
           res_bind (str_field ''valid_from'' kvs) (\<lambda>vf.
           res_bind (opt_field ''valid_to'' kvs) (\<lambda>vt.
           res_bind (fold_res (set_array decode_node) (jvalues ''nodes'' kvs) []) (\<lambda>ns.
           res_bind (fold_res (set_array decode_edge) (jvalues ''edges'' kvs) []) (\<lambda>es.
             Inr \<lparr> cf_version = ver, cf_source_ref = ref, cf_valid_from = vf, cf_valid_to = vt, cf_nodes = ns, cf_edges = es \<rparr>)))))))
      | _ \<Rightarrow> Inl ErrJSON)"

definition blank :: "string \<Rightarrow> bool" where
  "blank s \<longleftrightarrow> trim_space s = []"

definition check_node :: "topology_node \<Rightarrow> topology_node list \<Rightarrow> topology_node list ws" where
  "check_node n seen =
     (let i = ServiceTopologyID (tn_environment n) (tn_namespace n) (tn_service n) in
      ensure (\<not> (blank (tn_environment n) \<or> blank (tn_namespace n) \<or> blank (tn_service n) \<or> blank (tn_source_ref n)
                 \<or> 128 < length (tn_environment n) \<or> 128 < length (tn_namespace n) \<or> 256 < length (tn_service n)))
        (ErrMsg ''topology node identity/source invalid'')
      (ensure (tn_id n = [] \<or> tn_id n = i) (ErrMsg ''topology node ID does not match namespace'')
      (ensure (i \<notin> set (map tn_id seen)) (ErrMsg ''duplicate topology service'')
        (Inr (seen @ [n\<lparr>tn_id := i\<rparr>])))))"

definition edge_ends :: "topology_node list \<Rightarrow> topology_edge \<Rightarrow> bool" where
  "edge_ends nodes e =
     (case (find (\<lambda>n. tn_id n = te_source e) nodes, find (\<lambda>n. tn_id n = te_target e) nodes) of
        (Some a, Some b) \<Rightarrow> tn_environment a = tn_environment b
      | _ \<Rightarrow> False)"

definition check_edge :: "topology_node list \<Rightarrow> string \<Rightarrow> string option \<Rightarrow> time \<Rightarrow> topology_edge \<Rightarrow> topology_edge list \<Rightarrow>
    topology_edge list ws" where
  "check_edge nodes cfg_from cfg_to start e seen =
     ensure (edge_ends nodes e) (ErrMsg ''topology edge unknown service or cross environment'')
     (let kind = or_else (te_kind e) ''declared'' in
      ensure ((kind = ''declared'' \<or> kind = ''observed'') \<and> \<not> blank (te_source_ref e))
        (ErrMsg ''topology edge kind/source invalid'')
      (case parse_nano (or_else (te_valid_from e) cfg_from) of
         None \<Rightarrow> Inl (ErrMsg ''topology edge valid_from invalid'')
       | Some vf \<Rightarrow>
           ensure (start \<le> vf) (ErrMsg ''topology edge valid_from invalid'')
           (let bound = (case te_valid_to e of None \<Rightarrow> cfg_to | Some t \<Rightarrow> Some t) in
            res_bind
              (case bound of
                 None \<Rightarrow> Inr None
               | Some s \<Rightarrow>
                   (case parse_nano s of
                      None \<Rightarrow> Inl (ErrMsg ''topology edge valid_to invalid'')
                    | Some vt \<Rightarrow>
                        ensure (vf \<le> vt) (ErrMsg ''topology edge valid_to invalid'')
                        (ensure (case cfg_to of None \<Rightarrow> True | Some c \<Rightarrow> vt \<le> parse_or_zero c)
                           (ErrMsg ''topology edge exceeds configuration validity'')
                           (Inr (Some (fmt_nano vt))))))
              (\<lambda>vt.
                 let i = stableID ''dep_'' (te_source e @ '':'' @ te_target e @ '':'' @ kind @ '':'' @ te_source_ref e) in
                 ensure (i \<notin> set (map te_id seen)) (ErrMsg ''duplicate topology edge'')
                   (Inr (seen @ [e\<lparr>te_id := i, te_kind := kind, te_valid_from := fmt_nano vf, te_valid_to := vt\<rparr>]))))))"

definition check_validity :: "topology_config \<Rightarrow> (time \<times> string option) ws" where
  "check_validity cfg =
     (case parse_nano (cf_valid_from cfg) of
        None \<Rightarrow> Inl (ErrMsg ''topology valid_from invalid'')
      | Some start \<Rightarrow>
          (case cf_valid_to cfg of
             None \<Rightarrow> Inr (start, None)
           | Some s \<Rightarrow>
               (case parse_nano s of
                  None \<Rightarrow> Inl (ErrMsg ''topology valid_to invalid'')
                | Some end_t \<Rightarrow> ensure (start \<le> end_t) (ErrMsg ''topology valid_to invalid'') (Inr (start, Some (fmt_nano end_t))))))"

definition check_config :: "topology_config \<Rightarrow> topology_config ws" where
  "check_config cfg =
     ensure (\<not> (blank (cf_version cfg) \<or> blank (cf_source_ref cfg) \<or> 300 < length (cf_nodes cfg) \<or> 600 < length (cf_edges cfg)))
       (ErrMsg ''topology version/source/size invalid'')
     (res_bind (check_validity cfg) (\<lambda>(start, valid_to).
        let valid_from = fmt_nano start in
        res_bind (fold_res check_node (cf_nodes cfg) []) (\<lambda>nodes.
        res_bind (fold_res (check_edge nodes valid_from valid_to start) (cf_edges cfg) []) (\<lambda>edges.
          Inr (cfg\<lparr>cf_valid_from := valid_from, cf_valid_to := valid_to, cf_nodes := nodes, cf_edges := edges\<rparr>)))))"

definition LoadTopology :: "(string \<Rightarrow> (json \<times> bool) option) \<Rightarrow> string option \<Rightarrow> time \<Rightarrow> topology ws" where
  "LoadTopology decode_stream file now =
     (case file of
        None \<Rightarrow> Inl (ErrMsg ''topology configuration unavailable'')
      | Some raw \<Rightarrow>
          ensure (length raw \<le> 1048576) (ErrMsg ''topology configuration exceeds 1MiB'')
          (case decode_stream raw of
             None \<Rightarrow> Inl (ErrMsg ''invalid topology JSON'')
           | Some (j, at_end) \<Rightarrow>
               (case decode_config j of
                  Inl _ \<Rightarrow> Inl (ErrMsg ''invalid topology JSON'')
                | Inr cfg \<Rightarrow>
                    ensure at_end (ErrMsg ''invalid topology trailing data'')
                    (res_bind (check_config cfg) (\<lambda>cfg.
                       Inr \<lparr> tp_snapshot = \<lparr> ts_capability = ''available'', ts_version = cf_version cfg,
                                ts_content_sha256 = hash raw, ts_source_ref = cf_source_ref cfg,
                                ts_valid_from = cf_valid_from cfg, ts_valid_to = cf_valid_to cfg, ts_as_of = fmt_nano now,
                                ts_focus_id = [], ts_nodes = cf_nodes cfg, ts_edges = cf_edges cfg,
                                ts_potential_impact = [], ts_historical_evidence = False, ts_validity_state = [] \<rparr>,
                             tp_raw = raw, tp_persisted = False \<rparr>)))))"

section \<open>Traversal\<close>

definition edge_active :: "bool \<Rightarrow> time \<Rightarrow> topology_edge \<Rightarrow> bool" where
  "edge_active valid now e \<longleftrightarrow> valid \<and> parse_or_zero (te_valid_from e) \<le> now
     \<and> (case te_valid_to e of None \<Rightarrow> True | Some s \<Rightarrow> now < parse_or_zero s)"

definition snapshot_active :: "time \<Rightarrow> topology_snapshot \<Rightarrow> bool" where
  "snapshot_active now g \<longleftrightarrow> \<not> now < parse_or_zero (ts_valid_from g)
     \<and> (case ts_valid_to g of None \<Rightarrow> True | Some s \<Rightarrow> now < parse_or_zero s)"

definition names_service :: "string \<Rightarrow> string \<Rightarrow> topology_node \<Rightarrow> bool" where
  "names_service environment service n \<longleftrightarrow> tn_environment n = environment
     \<and> (tn_service n = service \<or> tn_namespace n @ ''/'' @ tn_service n = service \<or> tn_id n = service)"

definition find_focus :: "topology_node list \<Rightarrow> string \<Rightarrow> string \<Rightarrow> string ws" where
  "find_focus nodes environment service =
     (case filter (names_service environment service) nodes of
        [] \<Rightarrow> Inl (ErrMsg ''service not declared in selected environment'')
      | [n] \<Rightarrow> Inr (tn_id n)
      | _ \<Rightarrow> Inl (ErrMsg ''ambiguous service namespace''))"

text \<open>The first loop: links in both directions.\<close>

definition visit :: "string \<Rightarrow> string list \<times> string list \<Rightarrow> string list \<times> string list" where
  "visit i = (\<lambda>(visible, queue). if i \<in> set visible then (visible, queue) else (visible @ [i], queue @ [i]))"

definition scan_links :: "string \<Rightarrow> topology_edge \<Rightarrow> string list \<times> string list \<Rightarrow> string list \<times> string list" where
  "scan_links i e s =
     (let s1 = (if te_source e = i then visit (te_target e) s else s)
      in if te_target e = i then visit (te_source e) s1 else s1)"

definition ends_of :: "topology_edge list \<Rightarrow> string set" where
  "ends_of es = te_source ` set es \<union> te_target ` set es"

definition near :: "topology_edge \<Rightarrow> string \<Rightarrow> string set" where
  "near e i = (if te_source e = i then {te_target e} else {}) \<union> (if te_target e = i then {te_source e} else {})"

lemma visit_set:
  assumes "visit i (vs, q) = (vs', q')"
  shows "set vs' = insert i (set vs) \<and> set q' = set q \<union> ({i} - set vs) \<and> (i \<in> set vs \<longrightarrow> q' = q)"
  using assms by (cases "i \<in> set vs") (auto simp: visit_def)

lemma scan_links_set:
  assumes "scan_links i e (vs, q) = (vs', q')"
  shows "set vs' = set vs \<union> near e i \<and> set q' = set q \<union> (near e i - set vs) \<and> (near e i \<subseteq> set vs \<longrightarrow> q' = q)"
proof -
  obtain vs1 q1 where 1: "(if te_source e = i then visit (te_target e) (vs, q) else (vs, q)) = (vs1, q1)" by fastforce
  have a: "set vs1 = set vs \<union> (if te_source e = i then {te_target e} else {})
      \<and> set q1 = set q \<union> ((if te_source e = i then {te_target e} else {}) - set vs)
      \<and> ((if te_source e = i then {te_target e} else {}) \<subseteq> set vs \<longrightarrow> q1 = q)"
    using 1 visit_set [of "te_target e" vs q vs1 q1] by (auto split: if_splits)
  have 2: "(if te_target e = i then visit (te_source e) (vs1, q1) else (vs1, q1)) = (vs', q')"
    using assms 1 by (simp add: scan_links_def Let_def)
  have b: "set vs' = set vs1 \<union> (if te_target e = i then {te_source e} else {})
      \<and> set q' = set q1 \<union> ((if te_target e = i then {te_source e} else {}) - set vs1)
      \<and> ((if te_target e = i then {te_source e} else {}) \<subseteq> set vs1 \<longrightarrow> q' = q1)"
    using 2 visit_set [of "te_source e" vs1 q1 vs' q'] by (auto split: if_splits)
  show ?thesis unfolding near_def using a b by auto
qed

lemma fold_scan_set:
  assumes "fold (scan_links i) es (vs, q) = (vs', q')"
  shows "set vs' = set vs \<union> (\<Union>e \<in> set es. near e i) \<and> set q' = set q \<union> ((\<Union>e \<in> set es. near e i) - set vs)
    \<and> (set vs' = set vs \<longrightarrow> q' = q)"
  using assms
proof (induction es arbitrary: vs q)
  case (Cons e es)
  obtain vs1 q1 where 1: "scan_links i e (vs, q) = (vs1, q1)" by fastforce
  with Cons.prems have 2: "fold (scan_links i) es (vs1, q1) = (vs', q')" by simp
  note s = scan_links_set [OF 1] and f = Cons.IH [OF 2]
  have "set vs' = set vs \<longrightarrow> near e i \<subseteq> set vs \<and> set vs' = set vs1" using s f by auto
  then have "set vs' = set vs \<longrightarrow> q' = q" using s f by simp
  moreover have "set q' = set q \<union> ((near e i \<union> (\<Union>e \<in> set es. near e i)) - set vs)" using s f by auto
  ultimately show ?case using s f by auto
qed simp

lemma fold_scan_grows:
  assumes "fold (scan_links i) es (vs, q) = (vs', q')"
  shows "set vs \<subseteq> set vs' \<and> set vs' \<subseteq> set vs \<union> ends_of es \<and> (set vs' = set vs \<longrightarrow> q' = q)"
  using fold_scan_set [OF assms] by (auto simp: near_def ends_of_def split: if_splits)

function walk :: "(string \<Rightarrow> ws_error option) \<Rightarrow> topology_edge list \<Rightarrow> string list \<Rightarrow> string list \<Rightarrow> string list ws" where
  "walk ctx es visible [] = Inr visible"
| "walk ctx es visible (i # queue) =
     (case ctx i of
        Some e \<Rightarrow> Inl e
      | None \<Rightarrow> (case fold (scan_links i) es (visible, queue) of (visible', queue') \<Rightarrow> walk ctx es visible' queue'))"
  by pat_completeness auto
termination
proof (relation "measures [\<lambda>(ctx, es, vs, q). card (ends_of es - set vs), \<lambda>(ctx, es, vs, q). length q]")
  fix ctx :: "string \<Rightarrow> ws_error option" and es vs q and i :: string and vs' q'
  assume x: "(vs', q') = fold (scan_links i) es (vs, q)"
  then have g: "set vs \<subseteq> set vs'" "set vs' \<subseteq> set vs \<union> ends_of es" "set vs' = set vs \<longrightarrow> q' = q"
    using fold_scan_grows [of i es vs q vs' q'] by simp_all
  have fin: "finite (ends_of es)" by (simp add: ends_of_def)
  have "card (ends_of es - set vs') < card (ends_of es - set vs)" if "set vs' \<noteq> set vs"
    by (rule psubset_card_mono) (use g that fin in auto)
  with g show "((ctx, es, vs', q'), (ctx, es, vs, i # q))
      \<in> measures [\<lambda>(ctx, es, vs, q). card (ends_of es - set vs), \<lambda>(ctx, es, vs, q). length q]"
    by (cases "set vs' = set vs") auto
qed simp

text \<open>The second loop: against the direction of the links, with the references along the way.\<close>

type_synonym impact_state = "string list \<times> (string \<times> string list) list \<times> string list"

definition refs_of :: "(string \<times> string list) list \<Rightarrow> string \<Rightarrow> string list" where
  "refs_of pot i = (case map_of pot i of None \<Rightarrow> [] | Some rs \<Rightarrow> rs)"

definition scan_impact :: "string \<Rightarrow> topology_edge \<Rightarrow> impact_state \<Rightarrow> impact_state" where
  "scan_impact i e = (\<lambda>(visited, pot, queue).
     if te_target e = i \<and> te_source e \<notin> set visited
     then (visited @ [te_source e], pot @ [(te_source e, refs_of pot i @ [te_source_ref e])], queue @ [te_source e])
     else (visited, pot, queue))"

lemma fold_impact_grows:
  assumes "fold (scan_impact i) es (vs, pot, q) = (vs', pot', q')"
  shows "set vs \<subseteq> set vs' \<and> set vs' \<subseteq> set vs \<union> ends_of es \<and> (set vs' = set vs \<longrightarrow> q' = q)"
  using assms
proof (induction es arbitrary: vs pot q)
  case (Cons e es)
  obtain vs1 pot1 q1 where 1: "scan_impact i e (vs, pot, q) = (vs1, pot1, q1)" by (metis surj_pair)
  with Cons.prems have 2: "fold (scan_impact i) es (vs1, pot1, q1) = (vs', pot', q')" by simp
  have "set vs \<subseteq> set vs1 \<and> set vs1 \<subseteq> set vs \<union> {te_source e} \<and> (set vs1 = set vs \<longrightarrow> q1 = q)"
    using 1 by (auto simp: scan_impact_def split: if_splits)
  with Cons.IH [OF 2] show ?case by (auto simp: ends_of_def)
qed simp

function impact_walk :: "(string \<Rightarrow> ws_error option) \<Rightarrow> topology_edge list \<Rightarrow> string list \<Rightarrow> (string \<times> string list) list \<Rightarrow>
    string list \<Rightarrow> (string \<times> string list) list ws" where
  "impact_walk ctx es visited pot [] = Inr pot"
| "impact_walk ctx es visited pot (i # queue) =
     (case ctx i of
        Some e \<Rightarrow> Inl e
      | None \<Rightarrow>
          (case fold (scan_impact i) es (visited, pot, queue) of (visited', pot', queue') \<Rightarrow>
             impact_walk ctx es visited' pot' queue'))"
  by pat_completeness auto
termination
proof (relation "measures [\<lambda>(ctx, es, vs, pot, q). card (ends_of es - set vs), \<lambda>(ctx, es, vs, pot, q). length q]")
  fix ctx :: "string \<Rightarrow> ws_error option" and es vs pot q and i :: string and vs' y pot' q'
  assume x: "(vs', y) = fold (scan_impact i) es (vs, pot, q)" "(pot', q') = y"
  then have g: "set vs \<subseteq> set vs'" "set vs' \<subseteq> set vs \<union> ends_of es" "set vs' = set vs \<longrightarrow> q' = q"
    using fold_impact_grows [of i es vs pot q vs' pot' q'] by simp_all
  have fin: "finite (ends_of es)" by (simp add: ends_of_def)
  have "card (ends_of es - set vs') < card (ends_of es - set vs)" if "set vs' \<noteq> set vs"
    by (rule psubset_card_mono) (use g that fin in auto)
  with g show "((ctx, es, vs', pot', q'), (ctx, es, vs, pot, i # q))
      \<in> measures [\<lambda>(ctx, es, vs, pot, q). card (ends_of es - set vs), \<lambda>(ctx, es, vs, pot, q). length q]"
    by (cases "set vs' = set vs") auto
qed simp

definition impact_of :: "string \<times> string list \<Rightarrow> potential_impact" where
  "impact_of = (\<lambda>(i, refs). \<lparr> pi_service_id = i,
     pi_label = bytes [0xE6, 0xBD, 0x9C, 0xE5, 0x9C, 0xA8, 0xE5, 0xBD, 0xB1, 0xE5, 0x93, 0x8D],
     pi_basis = ''inferred'', pi_source_refs = refs \<rparr>)"

definition active_edges :: "time \<Rightarrow> topology_snapshot \<Rightarrow> topology_edge list" where
  "active_edges now g = filter (edge_active (snapshot_active now g) now) (ts_edges g)"

definition ForService :: "(nat \<Rightarrow> string \<Rightarrow> ws_error option) \<Rightarrow> time \<Rightarrow> string \<Rightarrow> string \<Rightarrow> topology \<Rightarrow> topology_snapshot ws" where
  "ForService ctx now environment service t =
     (let g = tp_snapshot t; es = active_edges now g in
      case ctx 0 [] of
        Some e \<Rightarrow> Inl e
      | None \<Rightarrow>
          res_bind (find_focus (ts_nodes g) environment service) (\<lambda>focus.
          res_bind (walk (ctx 1) es [focus] [focus]) (\<lambda>visible.
          res_bind (impact_walk (ctx 2) es [focus] [] [focus]) (\<lambda>potential.
            Inr (g\<lparr>ts_as_of := fmt_nano now,
                   ts_validity_state := (if snapshot_active now g then ''active'' else ''inactive''),
                   ts_focus_id := focus,
                   ts_nodes := filter (\<lambda>n. tn_id n \<in> set visible) (ts_nodes g),
                   ts_edges := filter (\<lambda>e. te_source e \<in> set visible \<and> te_target e \<in> set visible) es,
                   ts_potential_impact := sort_key pi_service_id (map impact_of potential)\<rparr>)))))"

section \<open>Searching a graph\<close>

text \<open>The invariant both loops share: what is queued is marked, what is marked is reachable, and the successors of
  everything marked that is no longer queued are marked.\<close>

definition search_inv :: "('v \<times> 'v) set \<Rightarrow> 'v \<Rightarrow> 'v list \<Rightarrow> 'v list \<Rightarrow> bool" where
  "search_inv R f vs q \<longleftrightarrow> set q \<subseteq> set vs \<and> f \<in> set vs \<and> set vs \<subseteq> R\<^sup>* `` {f} \<and> (\<forall>v \<in> set vs - set q. R `` {v} \<subseteq> set vs)"

lemma search_start: "search_inv R f [f] [f]"
  by (simp add: search_inv_def)

lemma search_step:
  assumes "search_inv R f vs (i # q)" and "set vs' = set vs \<union> R `` {i}" and "set q' = set q \<union> (R `` {i} - set vs)"
  shows "search_inv R f vs' q'"
proof -
  have i: "(f, i) \<in> R\<^sup>*" using assms(1) by (auto simp: search_inv_def)
  then have "R `` {i} \<subseteq> R\<^sup>* `` {f}" by (auto intro: rtrancl_into_rtrancl)
  moreover have "R `` {v} \<subseteq> set vs'" if "v \<in> set vs' - set q'" for v
  proof (cases "v = i")
    case False
    with that assms have "v \<in> set vs - set (i # q)" by auto
    with assms show ?thesis by (auto simp: search_inv_def)
  qed (use assms(2) in auto)
  ultimately show ?thesis using assms by (auto simp: search_inv_def)
qed

lemma search_done:
  assumes "search_inv R f vs []"
  shows "set vs = R\<^sup>* `` {f}"
proof
  show "R\<^sup>* `` {f} \<subseteq> set vs"
  proof
    fix v assume "v \<in> R\<^sup>* `` {f}"
    then have "(f, v) \<in> R\<^sup>*" by simp
    then show "v \<in> set vs" using assms by induction (auto simp: search_inv_def)
  qed
qed (use assms in \<open>simp add: search_inv_def\<close>)

definition links :: "topology_edge list \<Rightarrow> (string \<times> string) set" where
  "links es = {(a, b). \<exists>e \<in> set es. b \<in> near e a}"

definition dependents :: "topology_edge list \<Rightarrow> (string \<times> string) set" where
  "dependents es = {(te_target e, te_source e) | e. e \<in> set es}"

lemma walk_reaches:
  assumes "walk ctx es vs q = Inr visible" and "search_inv (links es) f vs q"
  shows "set visible = (links es)\<^sup>* `` {f}"
  using assms
proof (induction ctx es vs q rule: walk.induct)
  case (2 ctx es vs i q)
  obtain vs' q' where s: "fold (scan_links i) es (vs, q) = (vs', q')" by fastforce
  have "links es `` {i} = (\<Union>e \<in> set es. near e i)" by (auto simp: links_def)
  then have "search_inv (links es) f vs' q'" using search_step [OF 2(3)] fold_scan_set [OF s] by simp
  with 2 s show ?case by (auto split: option.splits)
qed (simp add: search_done)

lemma walk_total: "(\<forall>i. ctx i = None) \<Longrightarrow> \<exists>visible. walk ctx es vs q = Inr visible"
  by (induction ctx es vs q rule: walk.induct) (auto split: prod.splits)

text \<open>The references of an impact are those of the links of a path from the service back to the focus.\<close>

inductive impact_path :: "topology_edge list \<Rightarrow> string \<Rightarrow> string \<Rightarrow> string list \<Rightarrow> bool" for es focus where
  impact_focus: "impact_path es focus focus []"
| impact_step: "impact_path es focus u refs \<Longrightarrow> e \<in> set es \<Longrightarrow> te_target e = u \<Longrightarrow>
    impact_path es focus (te_source e) (refs @ [te_source_ref e])"

definition impact_inv :: "topology_edge list \<Rightarrow> string \<Rightarrow> string list \<Rightarrow> (string \<times> string list) list \<Rightarrow> bool" where
  "impact_inv es f vs pot \<longleftrightarrow> distinct (map fst pot) \<and> f \<in> set vs \<and> fst ` set pot = set vs - {f}
     \<and> (\<forall>(v, refs) \<in> set pot. impact_path es f v refs)"

lemma impact_inv_refs:
  assumes "impact_inv es f vs pot" and "i \<in> set vs"
  shows "impact_path es f i (refs_of pot i)"
proof (cases "i = f")
  case True
  with assms(1) have "map_of pot i = None" by (auto simp: impact_inv_def map_of_eq_None_iff)
  with True show ?thesis by (simp add: refs_of_def impact_focus)
next
  case False
  with assms have "i \<in> fst ` set pot" by (auto simp: impact_inv_def)
  then obtain refs where "map_of pot i = Some refs" by (metis map_of_eq_None_iff not_None_eq)
  with assms(1) show ?thesis by (auto simp: refs_of_def impact_inv_def dest: map_of_SomeD)
qed

lemma scan_impact_set:
  assumes "scan_impact i e (vs, pot, q) = (vs', pot', q')" and "impact_inv es f vs pot" and "i \<in> set vs" and "e \<in> set es"
  shows "set vs' = set vs \<union> (if te_target e = i then {te_source e} else {})
    \<and> set q' = set q \<union> ((if te_target e = i then {te_source e} else {}) - set vs) \<and> impact_inv es f vs' pot'"
proof (cases "te_target e = i \<and> te_source e \<notin> set vs")
  case True
  then have v: "vs' = vs @ [te_source e]" "q' = q @ [te_source e]" "pot' = pot @ [(te_source e, refs_of pot i @ [te_source_ref e])]"
    using assms(1) by (simp_all add: scan_impact_def)
  have "impact_path es f (te_source e) (refs_of pot i @ [te_source_ref e])"
    using impact_step [OF impact_inv_refs [OF assms(2,3)] assms(4)] True by simp
  moreover have "te_source e \<noteq> f" "te_source e \<notin> fst ` set pot" using True assms(2) by (auto simp: impact_inv_def)
  ultimately have "impact_inv es f vs' pot'" using assms(2) by (auto simp: impact_inv_def v)
  with True show ?thesis by (auto simp: v)
next
  case False
  then have "(vs', pot', q') = (vs, pot, q)" using assms(1) by (auto simp: scan_impact_def split: if_splits)
  with False assms(2) show ?thesis by auto
qed

lemma fold_impact_set:
  assumes "fold (scan_impact i) xs (vs, pot, q) = (vs', pot', q')" and "impact_inv es f vs pot" and "i \<in> set vs"
    and "set xs \<subseteq> set es"
  shows "set vs' = set vs \<union> dependents xs `` {i} \<and> set q' = set q \<union> (dependents xs `` {i} - set vs) \<and> impact_inv es f vs' pot'"
  using assms
proof (induction xs arbitrary: vs pot q)
  case (Cons e xs)
  obtain vs1 pot1 q1 where 1: "scan_impact i e (vs, pot, q) = (vs1, pot1, q1)" by (metis surj_pair)
  with Cons.prems have 2: "fold (scan_impact i) xs (vs1, pot1, q1) = (vs', pot', q')" by simp
  have e: "e \<in> set es" and xs: "set xs \<subseteq> set es" using Cons.prems(4) by simp_all
  note s = scan_impact_set [OF 1 Cons.prems(2,3) e]
  have d: "dependents (e # xs) `` {i} = (if te_target e = i then {te_source e} else {}) \<union> dependents xs `` {i}"
    by (auto simp: dependents_def)
  from s Cons.prems(3) have "i \<in> set vs1" by simp
  with Cons.IH [OF 2 _ _ xs] s have f: "set vs' = set vs1 \<union> dependents xs `` {i}"
    "set q' = set q1 \<union> (dependents xs `` {i} - set vs1)" "impact_inv es f vs' pot'" by simp_all
  have "set q' = set q \<union> (dependents (e # xs) `` {i} - set vs)" unfolding d using s f(2) by auto
  moreover have "set vs' = set vs \<union> dependents (e # xs) `` {i}" unfolding d using s f(1) by auto
  ultimately show ?case using f(3) by simp
qed (simp add: dependents_def)

lemma impact_walk_reaches:
  assumes "impact_walk ctx es vs pot q = Inr potential" and "search_inv (dependents es) f vs q" and "impact_inv es f vs pot"
  shows "\<exists>vs'. set vs' = (dependents es)\<^sup>* `` {f} \<and> impact_inv es f vs' potential"
  using assms
proof (induction ctx es vs pot q rule: impact_walk.induct)
  case (1 ctx es vs pot)
  then show ?case using search_done [of "dependents es" f vs] by (intro exI [of _ vs]) simp
next
  case (2 ctx es vs pot i q)
  obtain vs' pot' q' where s: "fold (scan_impact i) es (vs, pot, q) = (vs', pot', q')" by (metis surj_pair)
  have "i \<in> set vs" using 2(3) by (simp add: search_inv_def)
  note f = fold_impact_set [OF s 2(4) this subset_refl]
  then have "search_inv (dependents es) f vs' q'" using search_step [OF 2(3)] by simp
  with 2 s f show ?case by (auto split: option.splits)
qed

lemma impact_walk_total: "(\<forall>i. ctx i = None) \<Longrightarrow> \<exists>potential. impact_walk ctx es vs pot q = Inr potential"
  by (induction ctx es vs pot q rule: impact_walk.induct) (auto split: prod.splits)

section \<open>Identities round-trip\<close>

definition nibble_of :: "char \<Rightarrow> nat" where
  "nibble_of c = (if c \<le> CHR ''9'' then of_char c - 48 else of_char c - 55)"

fun PathUnescape :: "string \<Rightarrow> string" where
  "PathUnescape [] = []"
| "PathUnescape (c # s) =
     (if c = CHR ''%'' then
        (case s of a # b # r \<Rightarrow> char_of (16 * nibble_of a + nibble_of b) # PathUnescape r | _ \<Rightarrow> [])
      else c # PathUnescape s)"

lemma nibble_upper: "n < 16 \<Longrightarrow> nibble_of (upper_nibble n) = n"
proof -
  have "list_all (\<lambda>n. nibble_of (upper_nibble n) = n) [0..<16]" by code_simp
  then show "n < 16 \<Longrightarrow> nibble_of (upper_nibble n) = n" by (simp add: list_all_iff)
qed

lemma upper_nibble_mod: "upper_nibble n = upper_nibble (n mod 16)"
  by (simp add: upper_nibble_def)

lemma unescape_char: "PathUnescape (path_escape_char c @ s) = c # PathUnescape s"
proof (cases "path_plain c")
  case True
  then have "c \<noteq> CHR ''%''" by (auto simp: path_plain_def unreserved_def)
  with True show ?thesis by (simp add: path_escape_char_def percent_def)
next
  case False
  let ?n = "of_char c :: nat"
  have "?n < 256" by (rule of_char_lt_256)
  then have "?n div 16 < 16" by (simp add: div_less_iff_less_mult)
  then have hi: "nibble_of (upper_nibble (?n div 16)) = ?n div 16" by (rule nibble_upper)
  have lo: "nibble_of (upper_nibble ?n) = ?n mod 16"
    using nibble_upper [of "?n mod 16"] upper_nibble_mod [of ?n] by simp
  have "char_of (16 * (?n div 16) + ?n mod 16) = c" by simp
  with False hi lo show ?thesis by (simp add: path_escape_char_def percent_def)
qed

lemma PathUnescape_escape: "PathUnescape (PathEscape s) = s"
  by (induction s) (simp_all add: PathEscape_def unescape_char)

lemma upper_nibble_slash: "upper_nibble n \<noteq> CHR ''/''"
proof -
  have "list_all (\<lambda>n. upper_nibble n \<noteq> CHR ''/'') [0..<16]" by code_simp
  then have "upper_nibble (n mod 16) \<noteq> CHR ''/''" by (simp add: list_all_iff)
  then show ?thesis using upper_nibble_mod [of n] by simp
qed

lemma PathEscape_slash: "CHR ''/'' \<notin> set (PathEscape s)"
proof -
  have "CHR ''/'' \<notin> set (path_escape_char c)" for c
    using upper_nibble_slash [of "of_char c div 16"] upper_nibble_slash [of "of_char c"]
    by (auto simp: path_escape_char_def percent_def path_plain_def unreserved_def)
  then show ?thesis by (simp add: PathEscape_def)
qed

lemma split_first:
  assumes "c \<notin> set a" and "c \<notin> set a'" and "a @ c # r = a' @ c # r'"
  shows "a = a' \<and> r = r'"
proof -
  have "takeWhile (\<lambda>x. x \<noteq> c) (a @ c # r) = a" "takeWhile (\<lambda>x. x \<noteq> c) (a' @ c # r') = a'"
    using assms(1,2) by (auto simp: takeWhile_append2 takeWhile_tail)
  with assms(3) show ?thesis by simp
qed

text \<open>The identity of a service is unambiguous: distinct triples of environment, namespace and service name
  have distinct identities, whatever bytes the names contain, separators and escapes included.\<close>

theorem ServiceTopologyID_injective:
  "ServiceTopologyID e1 n1 s1 = ServiceTopologyID e2 n2 s2 \<longleftrightarrow> e1 = e2 \<and> n1 = n2 \<and> s1 = s2"
proof -
  have inj: "PathEscape a = PathEscape b \<longleftrightarrow> a = b" for a b by (metis PathUnescape_escape)
  show ?thesis
  proof
    assume "ServiceTopologyID e1 n1 s1 = ServiceTopologyID e2 n2 s2"
    then have "PathEscape e1 @ CHR ''/'' # (PathEscape n1 @ CHR ''/'' # PathEscape s1)
        = PathEscape e2 @ CHR ''/'' # (PathEscape n2 @ CHR ''/'' # PathEscape s2)"
      by (simp add: ServiceTopologyID_def)
    note 1 = split_first [OF PathEscape_slash PathEscape_slash this]
    note 2 = split_first [OF PathEscape_slash PathEscape_slash 1 [THEN conjunct2]]
    from 1 2 inj show "e1 = e2 \<and> n1 = n2 \<and> s1 = s2" by simp
  qed simp
qed

section \<open>A loaded configuration is valid\<close>

definition node_valid :: "topology_node \<Rightarrow> bool" where
  "node_valid n \<longleftrightarrow> tn_id n = ServiceTopologyID (tn_environment n) (tn_namespace n) (tn_service n)
     \<and> \<not> blank (tn_environment n) \<and> \<not> blank (tn_namespace n) \<and> \<not> blank (tn_service n) \<and> \<not> blank (tn_source_ref n)"

definition edge_valid :: "topology_node list \<Rightarrow> topology_edge \<Rightarrow> bool" where
  "edge_valid nodes e \<longleftrightarrow> (\<exists>a \<in> set nodes. \<exists>b \<in> set nodes. tn_id a = te_source e \<and> tn_id b = te_target e
       \<and> tn_environment a = tn_environment b)
     \<and> te_kind e \<in> {''declared'', ''observed''} \<and> \<not> blank (te_source_ref e)
     \<and> te_id e = stableID ''dep_'' (te_source e @ '':'' @ te_target e @ '':'' @ te_kind e @ '':'' @ te_source_ref e)"

lemma fold_res_length:
  assumes "\<And>x s s'. f x s = Inr s' \<Longrightarrow> length s' = Suc (length s)" and "fold_res f xs s = Inr s'"
  shows "length s' = length xs + length s"
  using assms(2) by (induction xs arbitrary: s) (auto simp: res_bind_eq_Inr dest: assms(1))

lemma check_nodes_ok:
  assumes "fold_res check_node ns [] = Inr nodes"
  shows "distinct (map tn_id nodes) \<and> (\<forall>n \<in> set nodes. node_valid n)"
proof (rule fold_res_invariant [OF assms])
  fix n :: topology_node and seen seen'
  assume "distinct (map tn_id seen) \<and> (\<forall>n \<in> set seen. node_valid n)" and "check_node n seen = Inr seen'"
  then show "distinct (map tn_id seen') \<and> (\<forall>n \<in> set seen'. node_valid n)"
    by (auto simp: check_node_def Let_def node_valid_def)
qed simp

lemma find_member: "find P xs = Some x \<Longrightarrow> x \<in> set xs \<and> P x"
  by (auto simp: find_Some_iff)

lemma check_edge_Inr:
  assumes "check_edge nodes vf vt start e seen = Inr seen'"
  obtains x where "seen' = seen @ [x]" and "te_id x \<notin> set (map te_id seen)" and "edge_valid nodes x"
proof -
  let ?k = "or_else (te_kind e) ''declared''"
  let ?id = "stableID ''dep_'' (te_source e @ '':'' @ te_target e @ '':'' @ ?k @ '':'' @ te_source_ref e)"
  from assms obtain t vt' where
    x: "seen' = seen @ [e\<lparr>te_id := ?id, te_kind := ?k, te_valid_from := fmt_nano t, te_valid_to := vt'\<rparr>]"
    and fresh: "?id \<notin> set (map te_id seen)"
    and ok: "edge_ends nodes e" "?k = ''declared'' \<or> ?k = ''observed''" "\<not> blank (te_source_ref e)"
    by (auto simp: check_edge_def Let_def res_bind_eq_Inr split: option.splits)
  from ok(1) obtain a b where "a \<in> set nodes" "tn_id a = te_source e" "b \<in> set nodes" "tn_id b = te_target e"
    "tn_environment a = tn_environment b"
    by (auto simp: edge_ends_def split: option.splits dest!: find_member)
  with ok(2,3) have "edge_valid nodes (e\<lparr>te_id := ?id, te_kind := ?k, te_valid_from := fmt_nano t, te_valid_to := vt'\<rparr>)"
    by (auto simp: edge_valid_def)
  with x fresh show ?thesis using that by simp
qed

lemma check_edges_ok:
  assumes "fold_res (check_edge nodes vf vt start) es [] = Inr edges"
  shows "distinct (map te_id edges) \<and> (\<forall>e \<in> set edges. edge_valid nodes e)"
proof (rule fold_res_invariant [OF assms])
  fix e :: topology_edge and seen seen'
  assume inv: "distinct (map te_id seen) \<and> (\<forall>e \<in> set seen. edge_valid nodes e)"
    and step: "check_edge nodes vf vt start e seen = Inr seen'"
  from step obtain x where "seen' = seen @ [x]" "te_id x \<notin> set (map te_id seen)" "edge_valid nodes x"
    by (rule check_edge_Inr)
  with inv show "distinct (map te_id seen') \<and> (\<forall>e \<in> set seen'. edge_valid nodes e)" by auto
qed simp

text \<open>C36. A configuration that loads is valid, whatever the file contained: at most 300 services and 600 links; every
  service has the identity of its environment, namespace and name, and no two services share it; every link joins
  two services of the configuration in the same environment, is declared or observed, names its source, and has
  the identity of its ends, kind and source, which no other link has.\<close>

theorem LoadTopology_valid:
  assumes "LoadTopology decode_stream file now = Inr t"
  shows "length (ts_nodes (tp_snapshot t)) \<le> 300 \<and> length (ts_edges (tp_snapshot t)) \<le> 600
    \<and> distinct (map tn_id (ts_nodes (tp_snapshot t))) \<and> (\<forall>n \<in> set (ts_nodes (tp_snapshot t)). node_valid n)
    \<and> distinct (map te_id (ts_edges (tp_snapshot t)))
    \<and> (\<forall>e \<in> set (ts_edges (tp_snapshot t)). edge_valid (ts_nodes (tp_snapshot t)) e)
    \<and> (\<exists>raw. file = Some raw \<and> length raw \<le> 1048576 \<and> tp_raw t = raw \<and> ts_content_sha256 (tp_snapshot t) = hash raw)"
proof -
  from assms obtain raw j cfg cfg' where raw: "file = Some raw" "length raw \<le> 1048576"
    and chk: "check_config cfg = Inr cfg'"
    and t: "ts_nodes (tp_snapshot t) = cf_nodes cfg'" "ts_edges (tp_snapshot t) = cf_edges cfg'" "tp_raw t = raw"
      "ts_content_sha256 (tp_snapshot t) = hash raw"
    by (auto simp: LoadTopology_def res_bind_eq_Inr split: option.splits sum.splits)
  from chk obtain start vt nodes edges where size: "length (cf_nodes cfg) \<le> 300" "length (cf_edges cfg) \<le> 600"
    and n: "fold_res check_node (cf_nodes cfg) [] = Inr nodes"
    and e: "fold_res (check_edge nodes (fmt_nano start) vt start) (cf_edges cfg) [] = Inr edges"
    and cfg': "cf_nodes cfg' = nodes" "cf_edges cfg' = edges"
    by (auto simp: check_config_def res_bind_eq_Inr Let_def)
  have "length nodes = length (cf_nodes cfg)"
    using fold_res_length [OF _ n] by (auto simp: check_node_def Let_def)
  moreover have "length s' = Suc (length s)" if "check_edge nodes (fmt_nano start) vt start x s = Inr s'" for x s s'
    using that by (rule check_edge_Inr) simp
  then have "length edges = length (cf_edges cfg)" using fold_res_length [OF _ e] by simp
  ultimately show ?thesis
    using check_nodes_ok [OF n] check_edges_ok [OF e] raw size t cfg' by simp
qed

definition ex_json :: json where
  "ex_json = JObj [(''version'', JStr ''1''), (''source_ref'', JStr ''git''), (''valid_from'', JStr ''1970-01-01T00:00:00Z''),
     (''nodes'', JArr [JObj [(''environment'', JStr ''p''), (''namespace'', JStr ''n''), (''service'', JStr ''a''), (''source_ref'', JStr ''git'')],
                      JObj [(''environment'', JStr ''p''), (''namespace'', JStr ''n''), (''service'', JStr ''b''), (''source_ref'', JStr ''git'')]]),
     (''edges'', JArr [JObj [(''source'', JStr ''p/n/b''), (''target'', JStr ''p/n/a''), (''source_ref'', JStr ''trace'')]])]"

definition ex_node :: "string \<Rightarrow> topology_node" where
  "ex_node s = \<lparr> tn_id = ''p/n/'' @ s, tn_environment = ''p'', tn_namespace = ''n'', tn_service = s, tn_source_ref = ''git'' \<rparr>"

definition ex_link :: topology_edge where
  "ex_link = \<lparr> te_id = stableID ''dep_'' ''p/n/b:p/n/a:declared:trace'', te_source = ''p/n/b'', te_target = ''p/n/a'',
     te_kind = ''declared'', te_source_ref = ''trace'', te_valid_from = ''1970-01-01T00:00:00Z'', te_valid_to = None \<rparr>"

definition ex_stream :: "string \<Rightarrow> (json \<times> bool) option" where
  "ex_stream raw = Some (ex_json, True)"

lemma ex_blank: "\<not> blank ''1''" "\<not> blank ''git''" "\<not> blank ''p''" "\<not> blank ''n''" "\<not> blank ''a''" "\<not> blank ''b''" "\<not> blank ''trace''"
  by (unfold blank_def, code_simp+)

lemma ex_ids: "ServiceTopologyID ''p'' ''n'' ''a'' = ''p/n/a''" "ServiceTopologyID ''p'' ''n'' ''b'' = ''p/n/b''"
  by (code_simp, code_simp)

lemma ex_load:
  "\<exists>t. LoadTopology ex_stream (Some ''x'') 0 = Inr t \<and> ts_nodes (tp_snapshot t) = [ex_node ''a'', ex_node ''b'']
     \<and> ts_edges (tp_snapshot t) = [ex_link] \<and> ts_valid_from (tp_snapshot t) = ''1970-01-01T00:00:00Z'' \<and> ts_valid_to (tp_snapshot t) = None"
  by (simp add: LoadTopology_def ensure_def ex_stream_def ex_json_def decode_config_def known_fields_def str_field_def
      jvalues_def opt_field_def set_string_def set_array_def decode_node_def decode_edge_def to_lower_def lower_char_def
      check_config_def check_validity_def parse_epoch fmt_epoch ex_blank check_node_def ex_ids check_edge_def edge_ends_def
      or_else_def ex_node_def ex_link_def Let_def)

theorem LoadTopology_valid_witness:
  "\<exists>t. LoadTopology ex_stream (Some ''x'') 0 = Inr t \<and> map tn_id (ts_nodes (tp_snapshot t)) = [''p/n/a'', ''p/n/b'']
     \<and> edge_valid [ex_node ''a'', ex_node ''b''] ex_link"
proof -
  obtain t where t: "LoadTopology ex_stream (Some ''x'') 0 = Inr t" "ts_nodes (tp_snapshot t) = [ex_node ''a'', ex_node ''b'']"
    "ts_edges (tp_snapshot t) = [ex_link]" using ex_load by blast
  from LoadTopology_valid [OF t(1)] t show ?thesis by (auto simp: ex_node_def)
qed

text \<open>C37. The traversal is exact and always ends, cycles included. When the context is not cancelled and exactly one
  declared service of the environment has the name, \<open>ForService\<close> succeeds: its services are exactly the declared ones
  that active links connect with the focus in either direction, its links the active links between them; and its
  potential impact lists, once each and in order, exactly the other services from which the focus can be reached
  along active links, each with the references of the links of such a path.\<close>

theorem ForService_exact:
  assumes ctx: "\<forall>k i. ctx k i = None" and focus: "find_focus (ts_nodes (tp_snapshot t)) environment service = Inr focus"
    and es: "es = active_edges now (tp_snapshot t)"
  shows "\<exists>g. ForService ctx now environment service t = Inr g \<and> ts_focus_id g = focus
    \<and> ts_nodes g = filter (\<lambda>n. (focus, tn_id n) \<in> (links es)\<^sup>*) (ts_nodes (tp_snapshot t))
    \<and> ts_edges g = filter (\<lambda>e. (focus, te_source e) \<in> (links es)\<^sup>* \<and> (focus, te_target e) \<in> (links es)\<^sup>*) es
    \<and> sorted_wrt (<) (map pi_service_id (ts_potential_impact g))
    \<and> set (map pi_service_id (ts_potential_impact g)) = (dependents es)\<^sup>* `` {focus} - {focus}
    \<and> (\<forall>p \<in> set (ts_potential_impact g). impact_path es focus (pi_service_id p) (pi_source_refs p))"
proof -
  obtain visible where w: "walk (ctx 1) es [focus] [focus] = Inr visible" using walk_total ctx by blast
  obtain pot where p: "impact_walk (ctx 2) es [focus] [] [focus] = Inr pot" using impact_walk_total ctx by blast
  have vis: "set visible = (links es)\<^sup>* `` {focus}" using walk_reaches [OF w search_start] .
  have "impact_inv es focus [focus] []" by (simp add: impact_inv_def)
  with impact_walk_reaches [OF p search_start] obtain vs where
    vs: "set vs = (dependents es)\<^sup>* `` {focus}" "impact_inv es focus vs pot" by blast
  let ?imp = "sort_key pi_service_id (map impact_of pot)"
  have ids: "map pi_service_id (map impact_of pot) = map fst pot" by (auto simp: impact_of_def)
  have "set (map pi_service_id ?imp) = fst ` set pot" using ids by (metis list.set_map set_sort)
  then have "set (map pi_service_id ?imp) = (dependents es)\<^sup>* `` {focus} - {focus}"
    using vs by (simp add: impact_inv_def)
  moreover have "sorted_wrt (<) (map pi_service_id ?imp)"
    unfolding strict_sorted_iff
  proof
    show "sorted (map pi_service_id ?imp)" by simp
    have "mset (map pi_service_id ?imp) = mset (map fst pot)" by (metis ids mset_map mset_sort)
    then show "distinct (map pi_service_id ?imp)"
      using vs(2) mset_eq_imp_distinct_iff unfolding impact_inv_def by blast
  qed
  moreover have "\<forall>p \<in> set ?imp. impact_path es focus (pi_service_id p) (pi_source_refs p)"
    using vs(2) by (auto simp: impact_inv_def impact_of_def)
  ultimately show ?thesis
    using ctx focus w p by (simp add: ForService_def Let_def flip: es) (simp add: vis)
qed

theorem ForService_exact_witness:
  "\<exists>t g. LoadTopology ex_stream (Some ''x'') 0 = Inr t \<and> ForService (\<lambda>_ _. None) 5 ''p'' ''a'' t = Inr g
     \<and> ts_focus_id g = ''p/n/a'' \<and> map pi_service_id (ts_potential_impact g) = [''p/n/b'']"
proof -
  obtain t where t: "LoadTopology ex_stream (Some ''x'') 0 = Inr t" "ts_nodes (tp_snapshot t) = [ex_node ''a'', ex_node ''b'']"
    "ts_edges (tp_snapshot t) = [ex_link]" "ts_valid_from (tp_snapshot t) = ''1970-01-01T00:00:00Z''" "ts_valid_to (tp_snapshot t) = None"
    using ex_load by blast
  have f: "find_focus (ts_nodes (tp_snapshot t)) ''p'' ''a'' = Inr ''p/n/a''"
    by (simp add: find_focus_def t names_service_def ex_node_def)
  have es: "active_edges 5 (tp_snapshot t) = [ex_link]"
    by (simp add: active_edges_def t edge_active_def snapshot_active_def parse_or_zero_def parse_epoch ex_link_def)
  have d: "dependents [ex_link] = {(''p/n/a'', ''p/n/b'')}" by (simp add: dependents_def ex_link_def)
  have closure: "(dependents [ex_link])\<^sup>* `` {''p/n/a''} - {''p/n/a''} = {''p/n/b''}"
  proof -
    have "v \<in> {''p/n/a'', ''p/n/b''}" if "(''p/n/a'', v) \<in> (dependents [ex_link])\<^sup>*" for v
      using that by induction (auto simp: d)
    moreover have "(''p/n/a'', ''p/n/b'') \<in> (dependents [ex_link])\<^sup>*" by (rule r_into_rtrancl) (simp add: d)
    ultimately show ?thesis by auto
  qed
  from ForService_exact [OF _ f es [symmetric], of "\<lambda>_ _. None"] obtain g where
    g: "ForService (\<lambda>_ _. None) 5 ''p'' ''a'' t = Inr g" "ts_focus_id g = ''p/n/a''"
      "sorted_wrt (<) (map pi_service_id (ts_potential_impact g))"
      "set (map pi_service_id (ts_potential_impact g)) = {''p/n/b''}"
    unfolding closure by auto
  have "map pi_service_id (ts_potential_impact g) = [''p/n/b'']"
    using g(3,4) by (metis list.set(1,2) sorted_wrt1 strict_sorted_equal)
  with t(1) g(1,2) show ?thesis by (intro exI [of _ t] exI [of _ g]) simp
qed

end
