(* ===== verification/TopologyStore.thy ===== *)
theory TopologyStore
  imports Topology Diagnosis
begin

text \<open>
  Storing a declared topology (\<open>PersistTopology\<close> of \<open>src/internal/workspace/topology.go\<close>): the fragments of the file by
  the source they name become evidence of the workspace, and the references of the snapshot become the identifiers of
  that evidence.

  \<open>raw_nodes\<close> and \<open>raw_edges\<close> give the raw texts of the elements of the two arrays of the file (\<open>json.RawMessage\<close>). Go
  ranges over the fragments in any order; the model takes the order in which the sources first occur.
\<close>

record topology_row =
  tv_content_sha256 :: string
  tv_version :: string
  tv_data :: topology_snapshot

record raw_reader =
  rd_parse :: "string \<Rightarrow> json option"
  rd_nodes :: "string \<Rightarrow> string list"
  rd_edges :: "string \<Rightarrow> string list"

definition decode_source_ref :: "json option \<Rightarrow> string ws" where
  "decode_source_ref j = (case j of Some (JObj kvs) \<Rightarrow> str_field ''source_ref'' kvs | Some JNull \<Rightarrow> Inr [] | _ \<Rightarrow> Inl ErrJSON)"

definition fragment_of :: "(string \<times> string list) list \<Rightarrow> string \<Rightarrow> string list" where
  "fragment_of fs ref = (case map_of fs ref of None \<Rightarrow> [] | Some parts \<Rightarrow> parts)"

definition add_fragment :: "(string \<Rightarrow> json option) \<Rightarrow> string \<Rightarrow> string \<Rightarrow> (string \<times> string list) list \<Rightarrow> (string \<times> string list) list ws" where
  "add_fragment parse whole entry fs =
     res_bind (decode_source_ref (parse entry)) (\<lambda>ref.
       Inr (if ref \<noteq> whole then AList.update ref (fragment_of fs ref @ [entry]) fs else fs))"

definition topology_fragments :: "raw_reader \<Rightarrow> string \<Rightarrow> (string \<times> string list) list ws" where
  "topology_fragments rd raw =
     (case decode_source_ref (rd_parse rd raw) of
        Inl _ \<Rightarrow> Inl (ErrMsg ''invalid topology source snapshot'')
      | Inr whole \<Rightarrow> fold_res (add_fragment (rd_parse rd) whole) (rd_nodes rd raw @ rd_edges rd raw) [(whole, [raw])])"

definition source_id :: "string \<Rightarrow> string \<Rightarrow> string" where
  "source_id sha ref = stableID ''topology_src_'' (sha @ '':'' @ ref)"

definition source_of :: "(string \<times> string) list \<Rightarrow> string \<Rightarrow> string" where
  "source_of sources ref = (case map_of sources ref of None \<Rightarrow> [] | Some i \<Rightarrow> i)"

definition referenced :: "(string \<times> string) list \<Rightarrow> topology_snapshot \<Rightarrow> topology_snapshot" where
  "referenced sources s =
     s\<lparr>ts_source_ref := source_of sources (ts_source_ref s),
       ts_nodes := map (\<lambda>n. n\<lparr>tn_source_ref := source_of sources (tn_source_ref n)\<rparr>) (ts_nodes s),
       ts_edges := map (\<lambda>e. e\<lparr>te_source_ref := source_of sources (te_source_ref e)\<rparr>) (ts_edges s)\<rparr>"

definition topology_evidence :: "topology_snapshot \<Rightarrow> string \<Rightarrow> string \<Rightarrow> time \<Rightarrow> evidence" where
  "topology_evidence s ref snippet now =
     \<lparr> evi_id = source_id (ts_content_sha256 s) ref, evi_kind = ''topology_definition'', evi_source_kind = ''manual'',
       evi_source_ref = ref, evi_recorded_at = fmt_nano now, evi_observed_at = None, evi_document_id = None,
       evi_version_id = None, evi_chunk_id = None, evi_snippet = Some snippet,
       evi_metadata = [(''version'', MStr (ts_version s)), (''content_sha256'', MStr (ts_content_sha256 s)),
         (''valid_from'', MStr (ts_valid_from s)),
         (''valid_to'', case ts_valid_to s of None \<Rightarrow> MNull | Some t \<Rightarrow> MStr t),
         (''verification'', MStr ''declared''), (''historical_evidence'', MBool False)] \<rparr>"

definition persist_fragment :: "topology_snapshot \<Rightarrow> time \<Rightarrow> string \<times> string list \<Rightarrow> db \<Rightarrow> db ws" where
  "persist_fragment s now f d =
     (case f of (ref, parts) \<Rightarrow>
        let snippet = join_with newline parts; e = topology_evidence s ref snippet now in
        ensure (length snippet \<le> 1048576) (ErrMsg ''topology source snapshot exceeds 1MiB'')
          (Inr (d\<lparr>t_evidence := tign vi_id \<lparr> vi_id = evi_id e, vi_run = None, vi_incident = None, vi_data = e \<rparr> (t_evidence d)\<rparr>)))"

definition PersistTopology :: "raw_reader \<Rightarrow> time \<Rightarrow> topology \<Rightarrow> db \<Rightarrow> topology_row list \<Rightarrow> (topology \<times> db \<times> topology_row list) ws" where
  "PersistTopology rd now t d vs =
     (if tp_persisted t then Inr (t, d, vs)
      else res_bind (topology_fragments rd (tp_raw t)) (\<lambda>fs.
        let s = tp_snapshot t;
            sources = map (\<lambda>(ref, _). (ref, source_id (ts_content_sha256 s) ref)) fs;
            nxt = referenced sources s in
        res_bind (fold_res (persist_fragment nxt now) fs d) (\<lambda>d'.
          Inr (t\<lparr>tp_snapshot := nxt, tp_persisted := True\<rparr>, d',
               tign tv_content_sha256 \<lparr> tv_content_sha256 = ts_content_sha256 nxt, tv_version = ts_version nxt, tv_data = nxt \<rparr> vs))))"

section \<open>The transaction\<close>

lemma referenced_same [simp]:
  "ts_content_sha256 (referenced m s) = ts_content_sha256 s" "ts_version (referenced m s) = ts_version s"
  by (simp_all add: referenced_def)

lemma core_ok_persist_fragment:
  assumes "persist_fragment s now f d = Inr d'" and "core_ok d"
  shows "core_ok d' \<and> runs_follow d d'"
proof (rule core_ok_evidence [OF assms(2)])
  obtain ref parts where f: "f = (ref, parts)" by fastforce
  have ev: "evidence_ok d" using assms(2) by (simp add: core_ok_def)
  show "d' = d\<lparr>t_evidence := t_evidence d'\<rparr>" using assms(1) by (auto simp: f persist_fragment_def Let_def)
  show "evidence_ok d'"
    using assms(1) ev by (auto simp: f persist_fragment_def Let_def evidence_ok_def tign_def tok_def has_run_def)
qed

text \<open>What a persisted fragment adds to the evidence: nothing, or one row of no run.\<close>

definition source_row :: "topology_snapshot \<Rightarrow> time \<Rightarrow> string \<times> string list \<Rightarrow> evidence_row" where
  "source_row s now f =
     (let e = topology_evidence s (fst f) (join_with newline (snd f)) now in
      \<lparr> vi_id = evi_id e, vi_run = None, vi_incident = None, vi_data = e \<rparr>)"

lemma vi_id_source_row [simp]: "vi_id (source_row s now f) = source_id (ts_content_sha256 s) (fst f)"
  by (simp add: source_row_def topology_evidence_def Let_def)

lemma persist_fragment_Inr:
  "persist_fragment s now f d = Inr d' \<longleftrightarrow>
     length (join_with newline (snd f)) \<le> 1048576 \<and> d' = d\<lparr>t_evidence := tign vi_id (source_row s now f) (t_evidence d)\<rparr>"
  by (auto simp: persist_fragment_def source_row_def Let_def split: prod.splits)

lemma persist_fragments:
  assumes "fold_res (persist_fragment s now) fs d = Inr d'"
  shows "\<exists>new. d' = d\<lparr>t_evidence := t_evidence d @ new\<rparr> \<and> set new \<subseteq> source_row s now ` set fs
    \<and> (\<forall>f \<in> set fs. vi_id (source_row s now f) \<in> vi_id ` set (t_evidence d'))
    \<and> (core_ok d \<longrightarrow> core_ok d' \<and> runs_follow d d')"
  using assms
proof (induction fs arbitrary: d)
  case (Cons f fs)
  obtain d1 where d1: "persist_fragment s now f d = Inr d1" and rest: "fold_res (persist_fragment s now) fs d1 = Inr d'"
    using Cons.prems by (auto simp: res_bind_eq_Inr)
  obtain n1 where n1: "t_evidence d1 = t_evidence d @ n1" "set n1 \<subseteq> {source_row s now f}" "d1 = d\<lparr>t_evidence := t_evidence d @ n1\<rparr>"
      "vi_id (source_row s now f) \<in> vi_id ` set (t_evidence d1)"
  proof (cases "vi_id (source_row s now f) \<in> set (map vi_id (t_evidence d))")
    case True
    with d1 that [of "[]"] show ?thesis by (auto simp: persist_fragment_Inr tign_def)
  next
    case False
    with d1 that [of "[source_row s now f]"] show ?thesis by (auto simp: persist_fragment_Inr tign_def)
  qed
  from Cons.IH [OF rest] obtain n2 where n2: "d' = d1\<lparr>t_evidence := t_evidence d1 @ n2\<rparr>" "set n2 \<subseteq> source_row s now ` set fs"
      "\<forall>f \<in> set fs. vi_id (source_row s now f) \<in> vi_id ` set (t_evidence d')" "core_ok d1 \<longrightarrow> core_ok d' \<and> runs_follow d1 d'" by blast
  show ?case
  proof (intro exI [of _ "n1 @ n2"] conjI)
    show "d' = d\<lparr>t_evidence := t_evidence d @ n1 @ n2\<rparr>" using n1(3) n2(1) by simp
    show "set (n1 @ n2) \<subseteq> source_row s now ` set (f # fs)" using n1(2) n2(2) by auto
    have "set (t_evidence d1) \<subseteq> set (t_evidence d')" using n2(1) by simp
    then show "\<forall>g \<in> set (f # fs). vi_id (source_row s now g) \<in> vi_id ` set (t_evidence d')" using n1(4) n2(3) by auto
    show "core_ok d \<longrightarrow> core_ok d' \<and> runs_follow d d'"
      using core_ok_persist_fragment [OF d1] n2(4) runs_follow_trans by blast
  qed
qed (auto intro: exI [of _ "[]"])

lemma PersistTopology_effect:
  assumes "PersistTopology rd now t d vs = Inr (t', d', vs')"
  shows "\<exists>new. d' = d\<lparr>t_evidence := t_evidence d @ new\<rparr> \<and> list_all (\<lambda>x. vi_run x = None) new
    \<and> (core_ok d \<longrightarrow> core_ok d' \<and> runs_follow d d')"
proof (cases "tp_persisted t")
  case True
  with assms show ?thesis by (auto simp: PersistTopology_def intro: exI [of _ "[]"])
next
  case False
  then obtain s fs where "fold_res (persist_fragment s now) fs d = Inr d'"
    using assms by (auto simp: PersistTopology_def Let_def res_bind_eq_Inr)
  from persist_fragments [OF this] obtain new where "d' = d\<lparr>t_evidence := t_evidence d @ new\<rparr>"
    "set new \<subseteq> source_row s now ` set fs" "core_ok d \<longrightarrow> core_ok d' \<and> runs_follow d d'" by blast
  moreover from this(2) have "list_all (\<lambda>x. vi_run x = None) new" by (auto simp: list_all_iff source_row_def Let_def)
  ultimately show ?thesis by blast
qed

section \<open>References resolve\<close>

text \<open>Reading the elements of an array as raw texts and parsing them gives the elements: what \<open>json.RawMessage\<close> promises.\<close>

definition same_elements :: "raw_reader \<Rightarrow> string list \<Rightarrow> json list \<Rightarrow> bool" where
  "same_elements rd raws vs \<longleftrightarrow> fold_res (set_array Inr) vs [] = Inr (map (the \<circ> rd_parse rd) raws) \<and> list_all (\<lambda>x. rd_parse rd x \<noteq> None) raws"

definition reads_raw :: "raw_reader \<Rightarrow> (string \<Rightarrow> (json \<times> bool) option) \<Rightarrow> string \<Rightarrow> bool" where
  "reads_raw rd decode_stream raw \<longleftrightarrow>
     (case decode_stream raw of
        Some (JObj kvs, True) \<Rightarrow> rd_parse rd raw = Some (JObj kvs)
          \<and> same_elements rd (rd_nodes rd raw) (jvalues ''nodes'' kvs) \<and> same_elements rd (rd_edges rd raw) (jvalues ''edges'' kvs)
      | _ \<Rightarrow> True)"

lemma map_res_Inr_id [simp]: "map_res Inr xs = Inr xs"
  by (induction xs) simp_all

lemma set_array_last:
  assumes "fold_res (set_array f) vs old = Inr xs" and "fold_res (set_array Inr) vs old' = Inr js" and "map_res f old' = Inr old"
  shows "map_res f js = Inr xs"
  using assms
proof (induction vs arbitrary: old old')
  case (Cons v vs)
  obtain old1 old2 where "set_array f v old = Inr old1" "fold_res (set_array f) vs old1 = Inr xs"
    and "set_array Inr v old' = Inr old2" "fold_res (set_array Inr) vs old2 = Inr js"
    using Cons.prems(1,2) by (auto simp: res_bind_eq_Inr)
  moreover from this have "map_res f old2 = Inr old1" by (cases v) (auto simp: set_array_def)
  ultimately show ?case using Cons.IH by blast
qed simp

lemma check_node_refs: "fold_res check_node ns seen = Inr out \<Longrightarrow> map tn_source_ref out = map tn_source_ref seen @ map tn_source_ref ns"
  by (induction ns arbitrary: seen) (fastforce simp: check_node_def Let_def res_bind_eq_Inr)+

lemma check_edge_ref: "check_edge nodes f t st e seen = Inr out \<Longrightarrow> map te_source_ref out = map te_source_ref seen @ [te_source_ref e]"
  by (auto simp: check_edge_def Let_def res_bind_eq_Inr split: option.splits)

lemma check_edge_refs:
  "fold_res (check_edge nodes f t st) es seen = Inr out \<Longrightarrow> map te_source_ref out = map te_source_ref seen @ map te_source_ref es"
  by (induction es arbitrary: seen) (auto simp: res_bind_eq_Inr dest!: check_edge_ref)

lemma check_config_refs:
  assumes "check_config cfg = Inr cfg'"
  shows "cf_source_ref cfg' = cf_source_ref cfg" "map tn_source_ref (cf_nodes cfg') = map tn_source_ref (cf_nodes cfg)"
    "map te_source_ref (cf_edges cfg') = map te_source_ref (cf_edges cfg)"
  using assms by (auto simp: check_config_def Let_def res_bind_eq_Inr dest!: check_node_refs check_edge_refs)

lemma decode_node_ref: "decode_node j = Inr n \<Longrightarrow> decode_source_ref (Some j) = Inr (tn_source_ref n)"
  by (cases j) (auto simp: decode_node_def decode_source_ref_def zero_node_def res_bind_eq_Inr)

lemma decode_edge_ref: "decode_edge j = Inr e \<Longrightarrow> decode_source_ref (Some j) = Inr (te_source_ref e)"
  by (cases j) (auto simp: decode_edge_def decode_source_ref_def zero_edge_def res_bind_eq_Inr)

lemma list_all2_source: "list_all2 P xs ys \<Longrightarrow> y \<in> set ys \<Longrightarrow> \<exists>x \<in> set xs. P x y"
  by (induction rule: list_all2_induct) auto

lemma same_elements_refs:
  assumes "same_elements rd raws vs" and "fold_res (set_array f) vs [] = Inr xs"
    and "\<And>j x. f j = Inr x \<Longrightarrow> decode_source_ref (Some j) = Inr (g x)"
  shows "\<forall>x \<in> set xs. \<exists>raw \<in> set raws. decode_source_ref (rd_parse rd raw) = Inr (g x)"
proof
  fix x assume "x \<in> set xs"
  have "map_res f (map (the \<circ> rd_parse rd) raws) = Inr xs"
    using assms(1,2) set_array_last [of f vs "[]" xs "[]"] by (auto simp: same_elements_def)
  then have "list_all2 (\<lambda>raw x. f (the (rd_parse rd raw)) = Inr x) raws xs" unfolding map_res_Inr list_all2_map1 by simp
  from list_all2_source [OF this \<open>x \<in> set xs\<close>] obtain raw where "raw \<in> set raws" "f (the (rd_parse rd raw)) = Inr x"
    by blast
  with assms show "\<exists>raw \<in> set raws. decode_source_ref (rd_parse rd raw) = Inr (g x)"
    by (metis (mono_tags, lifting) list_all_iff option.collapse same_elements_def)
qed

lemma add_fragment_keys:
  assumes "fold_res (add_fragment parse whole) entries fs = Inr fs'" and "whole \<in> fst ` set fs"
  shows "fst ` set fs \<subseteq> fst ` set fs' \<and> (\<forall>e \<in> set entries. \<exists>ref. decode_source_ref (parse e) = Inr ref \<and> ref \<in> fst ` set fs')"
  using assms
proof (induction entries arbitrary: fs)
  case (Cons e entries)
  obtain ref where ref: "decode_source_ref (parse e) = Inr ref"
    and rest: "fold_res (add_fragment parse whole) entries
      (if ref \<noteq> whole then AList.update ref (fragment_of fs ref @ [e]) fs else fs) = Inr fs'"
    using Cons.prems(1) unfolding add_fragment_def fold_res.simps res_bind_eq_Inr by blast
  define fs1 where "fs1 = (if ref \<noteq> whole then AList.update ref (fragment_of fs ref @ [e]) fs else fs)"
  have k: "insert ref (fst ` set fs) \<subseteq> fst ` set fs1"
    using Cons.prems(2) by (auto simp: fs1_def dom_update)
  with Cons.prems(2) have "whole \<in> fst ` set fs1" by blast
  note IH = Cons.IH [OF rest [folded fs1_def] this]
  have "insert ref (fst ` set fs) \<subseteq> fst ` set fs'" by (rule subset_trans [OF k conjunct1 [OF IH]])
  with IH ref show ?case by simp
qed simp

lemma fragments_keys:
  assumes "topology_fragments rd raw = Inr fs" and "decode_source_ref (rd_parse rd raw) = Inr whole"
  shows "whole \<in> fst ` set fs" and "e \<in> set (rd_nodes rd raw @ rd_edges rd raw) \<Longrightarrow> decode_source_ref (rd_parse rd e) = Inr ref \<Longrightarrow> ref \<in> fst ` set fs"
  using add_fragment_keys [of "rd_parse rd" whole "rd_nodes rd raw @ rd_edges rd raw" "[(whole, [raw])]" fs] assms
  by (force simp: topology_fragments_def)+

lemma source_of_keys:
  "ref \<in> fst ` set fs \<Longrightarrow> source_of (map (\<lambda>(ref, _). (ref, source_id sha ref)) fs) ref = source_id sha ref"
  by (induction fs) (auto simp: source_of_def)

lemma persist_sizes:
  "fold_res (persist_fragment s now) fs d = Inr d' \<Longrightarrow> f \<in> set fs \<Longrightarrow> length (join_with newline (snd f)) \<le> 1048576"
  by (induction fs arbitrary: d) (auto simp: res_bind_eq_Inr persist_fragment_Inr)

lemma persist_again:
  assumes "\<forall>f \<in> set fs. length (join_with newline (snd f)) \<le> 1048576 \<and> vi_id (source_row s now f) \<in> vi_id ` set (t_evidence d)"
  shows "fold_res (persist_fragment s now) fs d = Inr d"
  using assms
proof (induction fs)
  case (Cons f fs)
  have "persist_fragment s now f d = Inr d" using Cons.prems by (simp add: persist_fragment_Inr tign_def)
  with Cons show ?case by simp
qed simp

lemma tign_twice [simp]: "tign key x (tign key x t) = tign key x t"
  by (auto simp: tign_def)

lemma loaded_topology:
  assumes "LoadTopology decode_stream (Some raw) now = Inr t" and "reads_raw rd decode_stream raw"
  obtains "tp_raw t = raw" and "decode_source_ref (rd_parse rd raw) = Inr (ts_source_ref (tp_snapshot t))" and "\<not> tp_persisted t"
    and "\<forall>ref \<in> tn_source_ref ` set (ts_nodes (tp_snapshot t)) \<union> te_source_ref ` set (ts_edges (tp_snapshot t)).
      \<exists>e \<in> set (rd_nodes rd raw @ rd_edges rd raw). decode_source_ref (rd_parse rd e) = Inr ref"
proof -
  obtain j cfg cfg' where j: "decode_stream raw = Some (j, True)" "decode_config j = Inr cfg" "check_config cfg = Inr cfg'"
    and t: "tp_raw t = raw" "\<not> tp_persisted t" "ts_source_ref (tp_snapshot t) = cf_source_ref cfg'"
      "ts_nodes (tp_snapshot t) = cf_nodes cfg'" "ts_edges (tp_snapshot t) = cf_edges cfg'"
    using assms(1) by (auto simp: LoadTopology_def res_bind_eq_Inr split: option.splits sum.splits)
  have "j \<noteq> JNull"
  proof
    assume "j = JNull"
    with j(2) have "blank (cf_version cfg)" by (auto simp: decode_config_def blank_def)
    with j(3) show False by (auto simp: check_config_def)
  qed
  then obtain kvs where kvs: "j = JObj kvs" using j(2) by (cases j) (auto simp: decode_config_def)
  have r: "rd_parse rd raw = Some (JObj kvs)" "same_elements rd (rd_nodes rd raw) (jvalues ''nodes'' kvs)"
      "same_elements rd (rd_edges rd raw) (jvalues ''edges'' kvs)"
    using assms(2) j(1) kvs by (auto simp: reads_raw_def)
  have d: "str_field ''source_ref'' kvs = Inr (cf_source_ref cfg)" "fold_res (set_array decode_node) (jvalues ''nodes'' kvs) [] = Inr (cf_nodes cfg)"
      "fold_res (set_array decode_edge) (jvalues ''edges'' kvs) [] = Inr (cf_edges cfg)"
    using j(2) kvs by (auto simp: decode_config_def res_bind_eq_Inr)
  note c = check_config_refs [OF j(3)]
  have n: "\<forall>x \<in> set (cf_nodes cfg). \<exists>y \<in> set (rd_nodes rd raw). decode_source_ref (rd_parse rd y) = Inr (tn_source_ref x)"
    by (rule same_elements_refs [OF r(2) d(2)]) (rule decode_node_ref)
  have e: "\<forall>x \<in> set (cf_edges cfg). \<exists>y \<in> set (rd_edges rd raw). decode_source_ref (rd_parse rd y) = Inr (te_source_ref x)"
    by (rule same_elements_refs [OF r(3) d(3)]) (rule decode_edge_ref)
  have refs: "tn_source_ref ` set (cf_nodes cfg') = tn_source_ref ` set (cf_nodes cfg)"
      "te_source_ref ` set (cf_edges cfg') = te_source_ref ` set (cf_edges cfg)"
    using c(2,3) by (metis set_map)+
  show ?thesis
  proof (rule that [OF t(1) _ t(2)])
    show "decode_source_ref (rd_parse rd raw) = Inr (ts_source_ref (tp_snapshot t))" using r(1) d(1) c(1) t(3) by (simp add: decode_source_ref_def)
    show "\<forall>ref \<in> tn_source_ref ` set (ts_nodes (tp_snapshot t)) \<union> te_source_ref ` set (ts_edges (tp_snapshot t)).
      \<exists>e \<in> set (rd_nodes rd raw @ rd_edges rd raw). decode_source_ref (rd_parse rd e) = Inr ref"
      unfolding t(4,5) refs using n e by auto
  qed
qed

definition snapshot_refs :: "topology_snapshot \<Rightarrow> string list" where
  "snapshot_refs s = ts_source_ref s # map tn_source_ref (ts_nodes s) @ map te_source_ref (ts_edges s)"

lemma snapshot_refs_referenced: "snapshot_refs (referenced m s) = map (source_of m) (snapshot_refs s)"
  by (simp add: snapshot_refs_def referenced_def comp_def)

text \<open>C38. A stored topology resolves. Storing a loaded topology only adds evidence that belongs to no run, keeps the
  workspace well formed, and afterwards every reference of the snapshot, its services and its edges is the identifier of
  stored evidence; storing the same file again, as after a restart, changes nothing.\<close>

theorem PersistTopology_resolves:
  assumes load: "LoadTopology decode_stream (Some raw) t0 = Inr t" and reader: "reads_raw rd decode_stream raw"
    and ok: "core_ok d" and run: "PersistTopology rd now t d vs = Inr (t', d', vs')"
  shows "core_ok d' \<and> (\<exists>new. d' = d\<lparr>t_evidence := t_evidence d @ new\<rparr> \<and> list_all (\<lambda>x. vi_run x = None) new)
    \<and> set (snapshot_refs (tp_snapshot t')) \<subseteq> vi_id ` set (t_evidence d')
    \<and> PersistTopology rd now' t d' vs' = Inr (t', d', vs')"
proof -
  obtain raw_t: "tp_raw t = raw" and whole: "decode_source_ref (rd_parse rd raw) = Inr (ts_source_ref (tp_snapshot t))"
    and np: "\<not> tp_persisted t" and entries: "\<forall>ref \<in> tn_source_ref ` set (ts_nodes (tp_snapshot t)) \<union> te_source_ref ` set (ts_edges (tp_snapshot t)).
      \<exists>e \<in> set (rd_nodes rd raw @ rd_edges rd raw). decode_source_ref (rd_parse rd e) = Inr ref"
    using load reader by (rule loaded_topology)
  define s where "s = tp_snapshot t"
  obtain fs where fs: "topology_fragments rd raw = Inr fs" using run np raw_t by (auto simp: PersistTopology_def res_bind_eq_Inr)
  define nxt where "nxt = referenced (map (\<lambda>(ref, _). (ref, source_id (ts_content_sha256 s) ref)) fs) s"
  have f: "fold_res (persist_fragment nxt now) fs d = Inr d'" and t': "t' = t\<lparr>tp_snapshot := nxt, tp_persisted := True\<rparr>"
    and vs': "vs' = tign tv_content_sha256 \<lparr> tv_content_sha256 = ts_content_sha256 nxt, tv_version = ts_version nxt, tv_data = nxt \<rparr> vs"
    using run np raw_t fs by (auto simp: PersistTopology_def res_bind_eq_Inr Let_def nxt_def s_def)
  from persist_fragments [OF f] have ids: "\<forall>x \<in> set fs. vi_id (source_row nxt now x) \<in> vi_id ` set (t_evidence d')" by blast
  have keys: "set (snapshot_refs s) \<subseteq> fst ` set fs"
  proof
    fix ref assume "ref \<in> set (snapshot_refs s)"
    then consider "ref = ts_source_ref (tp_snapshot t)"
      | "ref \<in> tn_source_ref ` set (ts_nodes (tp_snapshot t)) \<union> te_source_ref ` set (ts_edges (tp_snapshot t))"
      by (auto simp: snapshot_refs_def s_def)
    then show "ref \<in> fst ` set fs" using fragments_keys [OF fs whole] entries by cases blast+
  qed
  have "set (snapshot_refs nxt) \<subseteq> vi_id ` set (t_evidence d')"
  proof
    fix i assume "i \<in> set (snapshot_refs nxt)"
    then obtain ref where ref: "ref \<in> set (snapshot_refs s)"
      and i: "i = source_of (map (\<lambda>(ref, _). (ref, source_id (ts_content_sha256 s) ref)) fs) ref"
      unfolding nxt_def snapshot_refs_referenced by auto
    from ref keys have k: "ref \<in> fst ` set fs" by blast
    have "i = source_id (ts_content_sha256 s) ref" unfolding i by (rule source_of_keys [OF k])
    with k obtain x where "x \<in> set fs" "i = source_id (ts_content_sha256 s) (fst x)" by blast
    with ids show "i \<in> vi_id ` set (t_evidence d')" by (simp add: nxt_def)
  qed
  note refs = this
  have "fold_res (persist_fragment nxt now') fs d' = Inr d'"
    using ids persist_sizes [OF f] by (intro persist_again) simp
  moreover have "ts_content_sha256 nxt = ts_content_sha256 s" "ts_version nxt = ts_version s" by (simp_all add: nxt_def)
  ultimately have "PersistTopology rd now' t d' vs' = Inr (t', d', vs')"
    using np raw_t fs by (simp add: PersistTopology_def Let_def nxt_def [symmetric] s_def [symmetric] t' vs')
  moreover from PersistTopology_effect [OF run] ok have "core_ok d'"
    "\<exists>new. d' = d\<lparr>t_evidence := t_evidence d @ new\<rparr> \<and> list_all (\<lambda>x. vi_run x = None) new" by blast+
  ultimately show ?thesis using refs by (simp add: t')
qed

definition ex_element :: "string \<Rightarrow> string \<Rightarrow> json" where
  "ex_element sv ref = JObj [(''environment'', JStr ''p''), (''namespace'', JStr ''n''), (''service'', JStr sv), (''source_ref'', JStr ref)]"

definition ex_reader :: raw_reader where
  "ex_reader = \<lparr> rd_parse = (\<lambda>x. if x = ''x'' then Some ex_json else if x = ''3''
       then Some (JObj [(''source'', JStr ''p/n/b''), (''target'', JStr ''p/n/a''), (''source_ref'', JStr ''trace'')])
       else Some (ex_element (if x = ''1'' then ''a'' else ''b'') ''git'')),
     rd_nodes = (\<lambda>_. [''1'', ''2'']), rd_edges = (\<lambda>_. [''3'']) \<rparr>"

lemma ex_reads_raw: "reads_raw ex_reader ex_stream ''x''"
  by (simp add: reads_raw_def ex_stream_def ex_json_def ex_reader_def same_elements_def jvalues_def to_lower_def lower_char_def
      set_array_def ex_element_def)

lemma ex_fragments: "topology_fragments ex_reader ''x'' = Inr [(''git'', [''x'']), (''trace'', [''3''])]"
  by (simp add: topology_fragments_def decode_source_ref_def ex_reader_def ex_json_def ex_element_def str_field_def jvalues_def
      to_lower_def lower_char_def set_string_def add_fragment_def fragment_of_def)

theorem PersistTopology_resolves_witness:
  "\<exists>t t' d' vs'. LoadTopology ex_stream (Some ''x'') 0 = Inr t \<and> PersistTopology ex_reader 5 t empty_db [] = Inr (t', d', vs')
     \<and> set (snapshot_refs (tp_snapshot t')) \<subseteq> vi_id ` set (t_evidence d')
     \<and> PersistTopology ex_reader 9 t d' vs' = Inr (t', d', vs')"
proof -
  obtain t where t: "LoadTopology ex_stream (Some ''x'') 0 = Inr t" using ex_load by blast
  then have "tp_raw t = ''x''" "\<not> tp_persisted t" using ex_reads_raw by (auto elim: loaded_topology)
  then obtain t' d' vs' where "PersistTopology ex_reader 5 t empty_db [] = Inr (t', d', vs')"
    by (simp add: PersistTopology_def ex_fragments persist_fragment_def ensure_def Let_def)
  with PersistTopology_resolves [OF t ex_reads_raw core_ok_empty this, of 9] t show ?thesis by blast
qed

end
