(* ===== verification/Transition.thy ===== *)
theory Transition
  imports Main
begin

text \<open>
  The contract of a transition system, shared by the workspace (theory \<open>System\<close>) and the session table of the
  assistant (theory \<open>Agent\<close>): a step relation, its start states, an invariant and a relation between the ends of a
  path.
\<close>

section \<open>Transition systems\<close>

text \<open>What holds at the start and survives every step holds in every reachable state; a relation that
  every step from a good state satisfies, and that is reflexive and transitive, relates the two ends of
  every path.\<close>

locale transition_system =
  fixes stp :: "'s \<Rightarrow> 's \<Rightarrow> bool"
    and start :: "'s \<Rightarrow> bool"
    and inv :: "'s \<Rightarrow> bool"
    and follows :: "'s \<Rightarrow> 's \<Rightarrow> bool"
  assumes start_inv: "start s \<Longrightarrow> inv s"
    and step_inv: "inv s \<Longrightarrow> stp s s' \<Longrightarrow> inv s'"
    and follows_refl: "follows s s"
    and follows_trans: "follows s t \<Longrightarrow> follows t u \<Longrightarrow> follows s u"
    and step_follows: "inv s \<Longrightarrow> stp s s' \<Longrightarrow> follows s s'"
begin

lemma path_inv: "stp\<^sup>*\<^sup>* s s' \<Longrightarrow> inv s \<Longrightarrow> inv s' \<and> follows s s'"
proof (induction rule: rtranclp_induct)
  case base
  then show ?case using follows_refl by simp
next
  case (step t u)
  then show ?case using step_inv [of t u] step_follows [of t u] follows_trans by blast
qed

lemma reachable_inv: "start s0 \<Longrightarrow> stp\<^sup>*\<^sup>* s0 s \<Longrightarrow> inv s"
  using path_inv start_inv by blast

lemma reachable_follows: "start s0 \<Longrightarrow> stp\<^sup>*\<^sup>* s0 s \<Longrightarrow> stp\<^sup>*\<^sup>* s s' \<Longrightarrow> follows s s'"
  using path_inv reachable_inv by blast

end

end
