(* ===== verification/System.thy ===== *)
theory System
  imports Dispatcher TopologyStore Transition
begin

text \<open>
  The workspace as a transition system: every transaction of the program is a step, and steps of the
  web handlers, the workers, the dispatcher and the recovery interleave in any order.

  A state holds the database with the retrieval projection, the tasks the queue accepted, and the run
  copies that workers hold since their claim. A worker may stop between any two of its transactions and
  never come back (\<open>leave\<close>), and may go on after it has lost its run. \<open>PutDocument\<close>,
  \<open>DeleteDocument\<close> and \<open>ProbeRetrieval\<close> hold \<open>knowledgeMu\<close> for the whole operation and are single
  steps; their transactions write tables that no other step but a clean-up writes.

  The one assumption about the queue is the documented meaning of \<open>ErrTaskIDConflict\<close>: it is answered
  only for a run whose task the queue has accepted before.
\<close>

record sys =
  sy_d :: dstate
  sy_workers :: "run list"

abbreviation sy_db :: "sys \<Rightarrow> db" where
  "sy_db s \<equiv> ds_db (sy_d s)"

abbreviation sy_k :: "sys \<Rightarrow> kstate" where
  "sy_k s \<equiv> ds_k (sy_d s)"

definition with_db :: "db \<Rightarrow> sys \<Rightarrow> sys" where
  "with_db d s = s\<lparr>sy_d := put_db d (sy_d s)\<rparr>"

definition with_k :: "kstate \<Rightarrow> sys \<Rightarrow> sys" where
  "with_k k s = s\<lparr>sy_d := (sy_d s)\<lparr>ds_k := k\<rparr>\<rparr>"

definition knows_run :: "task list \<Rightarrow> string \<Rightarrow> bool" where
  "knows_run tasks i \<longleftrightarrow> (\<exists>al. TDiagnosis i al \<in> set tasks)"

definition honest_queue :: "dispatch_env \<Rightarrow> task list \<Rightarrow> bool" where
  "honest_queue env tasks \<longleftrightarrow>
     (\<forall>i al. di_enqueue env (TDiagnosis i al) = Some ErrTaskIDConflict \<longrightarrow> knows_run tasks i)"

inductive step :: "sys \<Rightarrow> sys \<Rightarrow> bool" where
  admit: "Admit obs ready now (sy_db s) = Inr (x, d') \<Longrightarrow> step s (with_db d' s)"
| rediagnose: "ReDiagnose incident key body ready now (sy_db s) = Inr (r, d') \<Longrightarrow> step s (with_db d' s)"
| claim: "claim i now (sy_db s) = Inr ((r, True), d') \<Longrightarrow> step s ((with_db d' s)\<lparr>sy_workers := r # sy_workers s\<rparr>)"
| event: "w \<in> set (sy_workers s) \<Longrightarrow> run_event w stage kind ms ref ae now (sy_db s) = Inr d' \<Longrightarrow> step s (with_db d' s)"
| retrieval: "w \<in> set (sy_workers s) \<Longrightarrow> retrieval_tx sv w i query failed ms now (sy_db s) = Inr d' \<Longrightarrow> step s (with_db d' s)"
| hit: "w \<in> set (sy_workers s) \<Longrightarrow> hit_tx w i h rank c ok now (sy_db s) = Inr d' \<Longrightarrow> step s (with_db d' s)"
| finish: "w \<in> set (sy_workers s) \<Longrightarrow> terminal status \<Longrightarrow>
    finish parse sv w began status ev text score ae now (sy_db s) = Inr d' \<Longrightarrow> step s (with_db d' s)"
| leave: "step s (s\<lparr>sy_workers := remove1 w (sy_workers s)\<rparr>)"
| recover: "Recover now (sy_db s) = Inr d' \<Longrightarrow> step s (with_db d' s)"
| notify_start: "notify_start sv i now (sy_db s) = Inr (Some d') \<Longrightarrow> step s (with_db d' s)"
| notify_finish: "notify_finish i sent retries began now (sy_db s) = Inr d' \<Longrightarrow> step s (with_db d' s)"
| dispatch: "from_outbox x (sy_db s) \<Longrightarrow> honest_queue env (ds_tasks (sy_d s)) \<Longrightarrow>
    dispatch_item env now x (sy_d s) = (e, ds') \<Longrightarrow> step s (s\<lparr>sy_d := ds'\<rparr>)"
| put: "PutDocument sv env i title content source environment expected key now (sy_k s) = ((e, doc, v), k') \<Longrightarrow>
    step s (with_k k' s)"
| delete: "DeleteDocument sv i expected now (sy_k s) = ((e, doc), k') \<Longrightarrow> step s (with_k k' s)"
| probe: "ProbeRetrieval env identity sv (sy_k s) = ((e, sv'), k') \<Longrightarrow> step s (with_k k' s)"
| topology: "PersistTopology rd now t (sy_db s) vs = Inr (t', d', vs') \<Longrightarrow> step s (with_db d' s)"

definition initial :: "rag \<Rightarrow> sys" where
  "initial r = \<lparr> sy_d = \<lparr> ds_k = \<lparr> ks_db = empty_db, ks_rag = r \<rparr>, ds_tasks = [] \<rparr>, sy_workers = [] \<rparr>"

lemma with_simps [simp]:
  "sy_db (with_db d s) = d" "sy_workers (with_db d s) = sy_workers s" "ds_tasks (sy_d (with_db d s)) = ds_tasks (sy_d s)"
  "sy_k (with_k k s) = k" "sy_workers (with_k k s) = sy_workers s" "ds_tasks (sy_d (with_k k s)) = ds_tasks (sy_d s)"
  by (simp_all add: with_db_def with_k_def put_db_def)

section \<open>What a transaction of the run side does\<close>

text \<open>The diagnosis payloads that the outbox says are delivered.\<close>

definition diag_sent :: "db \<Rightarrow> payload set" where
  "diag_sent d = ob_payload ` {x \<in> set (t_outbox d). ob_kind x = ''diagnosis'' \<and> ob_state x = ''sent''}"

lemma diag_sent_same: "t_outbox d' = t_outbox d \<Longrightarrow> diag_sent d' = diag_sent d"
  by (simp add: diag_sent_def)

lemma diag_sent_append:
  "t_outbox d' = t_outbox d @ xs \<Longrightarrow> \<forall>x \<in> set xs. ob_state x = ''pending'' \<or> ob_kind x \<noteq> ''diagnosis'' \<Longrightarrow> diag_sent d' = diag_sent d"
  by (auto simp: diag_sent_def)

lemma diag_sent_upd:
  assumes "t_outbox d' = tupd key k f (t_outbox d)" and "\<And>x. ob_state (f x) \<noteq> ''sent''"
  shows "diag_sent d' \<subseteq> diag_sent d"
  using assms unfolding diag_sent_def assms(1) lt.upd_rows by auto

text \<open>The contract of a transaction of the run side: the core tables stay well formed, every run's history
  goes on, the documents are untouched and nothing is marked as delivered.\<close>

definition tx_ok :: "db \<Rightarrow> db \<Rightarrow> bool" where
  "tx_ok d d' \<longleftrightarrow> core_ok d' \<and> runs_follow d d' \<and> t_documents d' = t_documents d \<and> t_versions d' = t_versions d
     \<and> diag_sent d' \<subseteq> diag_sent d"

lemma tx_okI:
  assumes "core_ok d' \<and> runs_follow d d'" and "same_facts d d' \<or> t_documents d' = t_documents d \<and> t_versions d' = t_versions d"
    and "diag_sent d' \<subseteq> diag_sent d"
  shows "tx_ok d d'"
  using assms by (auto simp: tx_ok_def same_facts_def)

lemma tx_ok_addEvent:
  "addEvent r stage kind ms ref ae now d = Inr d' \<Longrightarrow> core_ok d \<Longrightarrow> tx_ok d d'"
  using addEvent_same(5,6,12) [of r stage kind ms ref ae now d d'] diag_sent_same [of d' d]
  by (intro tx_okI addEvent_effect) auto

lemma tx_ok_event: "run_event r stage kind ms ref ae now d = Inr d' \<Longrightarrow> core_ok d \<Longrightarrow> tx_ok d d'"
  by (auto simp: run_event_def res_bind_eq_Inr intro: tx_ok_addEvent)

lemma tx_ok_topology:
  assumes "PersistTopology rd now t d vs = Inr (t', d', vs')" and "core_ok d"
  shows "tx_ok d d'"
  using PersistTopology_effect [OF assms(1)] assms(2) diag_sent_same [of d' d] by (auto simp: tx_ok_def)

lemma tx_ok_insertRun:
  assumes "insertRun r b obs now d = Inr d1"
  shows "t_documents d1 = t_documents d \<and> t_versions d1 = t_versions d \<and> diag_sent d1 = diag_sent d
    \<and> runs_follow d d1"
  using assms
  by (elim insertRun_Inr) (intro conjI runs_follow_append diag_sent_append, auto simp: diagnosis_outbox_def)

lemma alert_only_sent: "alert_only d d' \<Longrightarrow> diag_sent d' = diag_sent d \<and> t_runs d' = t_runs d
    \<and> t_documents d' = t_documents d \<and> t_versions d' = t_versions d"
  by (cases d; cases d') (simp add: alert_only_def diag_sent_def)

lemma tx_ok_Admit:
  assumes "Admit obs ready now d = Inr (x, d')" and "core_ok d"
  shows "tx_ok d d'"
proof -
  obtain ro dup where x: "x = (ro, dup)" by fastforce
  have inc: "incidents_ok d" using assms(2) by (simp add: core_ok_def)
  have core: "core_ok d'" using core_ok_Admit assms x by blast
  from assms(1) [unfolded x] inc show ?thesis
  proof (cases rule: Admit_cases)
    case (created r d1)
    with tx_ok_insertRun [OF created(9)] alert_only_sent [OF created(6)] core runs_follow_same [of d1 d] runs_follow_trans
    show ?thesis by (auto simp: tx_ok_def)
  qed (use core alert_only_sent runs_follow_same in \<open>auto simp: tx_ok_def\<close>)
qed

lemma tx_ok_ReDiagnose:
  assumes "ReDiagnose incident key body ready now d = Inr (r, d')" and "core_ok d"
  shows "tx_ok d d'"
proof -
  have core: "core_ok d'" using core_ok_ReDiagnose assms by blast
  from assms(1) show ?thesis
  proof (cases rule: ReDiagnose_cases)
    case repeated
    with core show ?thesis by (simp add: tx_ok_def)
  next
    case (created inc o1 d1)
    have i: "t_documents d' = t_documents d1" "t_versions d' = t_versions d1" "t_outbox d' = t_outbox d1" "t_runs d' = t_runs d1"
      using created(7) by (auto simp: insert_idempotency_Inr)
    with tx_ok_insertRun [OF created(6)] core diag_sent_same [OF i(3)] runs_follow_same [OF i(4)] runs_follow_trans
    show ?thesis by (auto simp: tx_ok_def)
  qed
qed

lemma tx_ok_claim:
  assumes "claim i now d = Inr ((r, ok), d')" and "core_ok d"
  shows "tx_ok d d'"
proof (rule tx_okI [OF claim_effect [OF assms]])
  show "same_facts d d' \<or> t_documents d' = t_documents d \<and> t_versions d' = t_versions d"
    using claim_facts [OF assms(1)] by simp
  from assms(1) have "t_outbox d' = t_outbox d"
  proof (cases rule: claim_cases)
    case (taken r0 d1 d2)
    then show ?thesis using addEvent_same(12) [OF taken(7)] addEvent_same(12) [OF taken(8)] by (simp add: set_lease_def)
  qed simp
  then show "diag_sent d' \<subseteq> diag_sent d" using diag_sent_same [of d' d] by simp
qed

lemma tx_ok_retrieval:
  assumes "retrieval_tx sv r i query failed ms now d = Inr d'" and "core_ok d"
  shows "tx_ok d d'"
proof (rule tx_okI [OF retrieval_tx_effect [OF assms]])
  show "same_facts d d' \<or> t_documents d' = t_documents d \<and> t_versions d' = t_versions d"
    using retrieval_tx_facts [OF assms(1)] by simp
  from assms(1) have "t_outbox d' = t_outbox d"
  proof (cases rule: retrieval_tx_cases)
    case (1 d1 d2)
    then show ?thesis using addEvent_same(12) [OF 1(4)] by (auto simp: insert_retrieval_Inr insert_evidence_Inr)
  qed
  then show "diag_sent d' \<subseteq> diag_sent d" using diag_sent_same [of d' d] by simp
qed

lemma cite_tx_frame:
  "cite_tx r i c rank now d = Inr d' \<Longrightarrow>
     t_outbox d' = t_outbox d \<and> t_documents d' = t_documents d \<and> t_versions d' = t_versions d"
  by (auto simp: cite_tx_def Let_def res_bind_eq_Inr ignore_evidence_def ignore_citation_def split: if_splits)

lemma tx_ok_hit:
  assumes "hit_tx r i h rank c ok now d = Inr d'" and "core_ok d"
  shows "tx_ok d d'"
proof (rule tx_okI [OF hit_tx_effect [OF assms]])
  have t: "t_outbox d' = t_outbox d \<and> t_documents d' = t_documents d \<and> t_versions d' = t_versions d"
    using assms(1) by (auto simp: hit_tx_def res_bind_eq_Inr ignore_hit_Inr split: if_splits dest: cite_tx_frame)
  then show "same_facts d d' \<or> t_documents d' = t_documents d \<and> t_versions d' = t_versions d" by simp
  from t show "diag_sent d' \<subseteq> diag_sent d" using diag_sent_same [of d' d] by simp
qed

lemma diag_sent_ignore: "ob_kind r \<noteq> ''diagnosis'' \<Longrightarrow> diag_sent (ignore_outbox r d) = diag_sent d"
  by (auto simp: diag_sent_def ignore_outbox_def tign_def)

lemma tx_ok_finish:
  assumes "finish parse sv r began status ev text score ae now d = Inr d'" and "core_ok d"
    and "terminal status" and "\<And>current. get_run (run_id r) d = Inr current \<Longrightarrow> same_run current r"
  shows "tx_ok d d'"
proof -
  note eff = finish_effect [OF assms]
  from assms(1) show ?thesis
  proof (cases rule: finish_cases)
    case (1 current r2 d1 d2)
    have d1: "t_documents d1 = t_documents d" "t_versions d1 = t_versions d" "diag_sent d1 = diag_sent d"
      using addEvent_same(5,6,12) [OF 1(3)] diag_sent_same [of d1 d] by simp_all
    have "t_documents d2 = t_documents d1 \<and> t_versions d2 = t_versions d1 \<and> diag_sent d2 = diag_sent d1"
    proof (cases "notifies sv status score")
      case True
      with 1(5) diag_sent_ignore show ?thesis by (auto simp: notification_outbox_def)
    next
      case False
      with 1(5) have a: "addEvent r2 ''notification'' ''skipped'' None None None now d1 = Inr d2" by simp
      show ?thesis using addEvent_same(5,6,12) [OF a] diag_sent_same [of d2 d1] by simp
    qed
    with d1 eff diag_sent_same [of d' d2] show ?thesis by (auto simp: tx_ok_def 1(6))
  qed
qed

lemma tx_ok_notify_start: "notify_start sv i now d = Inr (Some d') \<Longrightarrow> core_ok d \<Longrightarrow> tx_ok d d'"
  by (auto simp: notify_start_def res_bind_eq_Inr split: if_splits intro: tx_ok_addEvent)

lemma notify_finish_shape:
  assumes "notify_finish i sent retries began now d = Inr d'"
  obtains r r' kind ae d2 where
    "addEvent r' ''notification'' kind (Some (ms_between began now)) None ae now
       (if \<not> sent \<and> last_retry retries then kill_outbox i d else d) = Inr d2" and "d' = saveRun r d2"
  using assms
  by (cases sent; cases "last_retry retries") (auto simp: notify_finish_def res_bind_eq_Inr Let_def)

lemma tx_ok_notify_finish:
  assumes "notify_finish i sent retries began now d = Inr d'" and "core_ok d"
  shows "tx_ok d d'"
proof -
  define d1 where "d1 = (if \<not> sent \<and> last_retry retries then kill_outbox i d else d)"
  from assms(1) obtain r r' kind ae d2 where
    2: "addEvent r' ''notification'' kind (Some (ms_between began now)) None ae now d1 = Inr d2"
    and 3: "d' = saveRun r d2" unfolding d1_def by (rule notify_finish_shape)
  have "diag_sent (kill_outbox i d) \<subseteq> diag_sent d"
    by (rule diag_sent_upd [of _ ob_dedupe_key "notification_key i"]) (simp add: kill_outbox_def, simp)
  then have "diag_sent d1 \<subseteq> diag_sent d" by (auto simp: d1_def)
  moreover have "diag_sent d' = diag_sent d1" using addEvent_same(12) [OF 2] by (simp add: 3 diag_sent_def)
  ultimately show ?thesis
    using notify_finish_effect [OF assms] addEvent_same(5,6) [OF 2] by (intro tx_okI) (auto simp: 3 d1_def)
qed

lemma recover_fold_sent:
  assumes "fold_res (recover_one now) rs d = Inr d'"
  shows "t_documents d' = t_documents d \<and> t_versions d' = t_versions d \<and> diag_sent d' \<subseteq> diag_sent d"
  using assms
proof (induction rs arbitrary: d)
  case (Cons r rs)
  then obtain d1 where 1: "recover_one now r d = Inr d1" and 2: "fold_res (recover_one now) rs d1 = Inr d'"
    by (auto simp: res_bind_eq_Inr)
  from 1 obtain d0 where a: "addEvent r ''queue'' ''failed'' None None (Some interrupted) now d = Inr d0"
    and d1: "d1 = requeue_outbox (run_id r) now (saveRun (requeued r) d0)"
    by (auto simp: recover_one_def res_bind_eq_Inr)
  have "diag_sent d1 \<subseteq> diag_sent (saveRun (requeued r) d0)"
    unfolding d1 by (rule diag_sent_upd [of _ ob_dedupe_key "diagnosis_key (run_id r)"]) (simp add: requeue_outbox_def, simp)
  moreover have "diag_sent (saveRun (requeued r) d0) = diag_sent d"
    using addEvent_same(12) [OF a] by (simp add: diag_sent_def)
  moreover have "t_documents d1 = t_documents d \<and> t_versions d1 = t_versions d"
    using addEvent_same(5,6) [OF a] by (simp add: d1 requeue_outbox_def)
  ultimately show ?case using Cons.IH [OF 2] by auto
qed simp

lemma tx_ok_Recover:
  assumes "Recover now d = Inr d'" and "core_ok d"
  shows "tx_ok d d'"
  using Recover_effect [OF assms] recover_fold_sent [OF assms(1) [unfolded Recover_def]] by (auto simp: tx_ok_def)

section \<open>The invariant\<close>

text \<open>A worker's copy is of a run that exists, with an attempt number the row has reached.\<close>

definition worker_ok :: "db \<Rightarrow> run \<Rightarrow> bool" where
  "worker_ok d w \<longleftrightarrow> (\<exists>x \<in> set (t_runs d). rr_id x = run_id w \<and> run_incident_ids (rr_data x) = run_incident_ids w
     \<and> run_received_at (rr_data x) = run_received_at w \<and> run_current_attempt w \<le> rr_attempt x)"

definition fence :: "run \<Rightarrow> string \<times> nat" where
  "fence w = (run_id w, run_current_attempt w)"

definition delivered_ok :: "db \<Rightarrow> task list \<Rightarrow> bool" where
  "delivered_ok d tasks \<longleftrightarrow> (\<forall>i obs. PDiagnosis i obs \<in> diag_sent d \<longrightarrow> knows_run tasks i)"

definition sys_ok :: "sys \<Rightarrow> bool" where
  "sys_ok s \<longleftrightarrow> ws_ok (sy_db s) \<and> (\<forall>w \<in> set (sy_workers s). worker_ok (sy_db s) w)
     \<and> distinct (map fence (sy_workers s)) \<and> delivered_ok (sy_db s) (ds_tasks (sy_d s))"

definition sys_follows :: "sys \<Rightarrow> sys \<Rightarrow> bool" where
  "sys_follows s s' \<longleftrightarrow> runs_follow (sy_db s) (sy_db s') \<and> set (ds_tasks (sy_d s)) \<subseteq> set (ds_tasks (sy_d s'))"

lemma worker_ok_follow: "worker_ok d w \<Longrightarrow> runs_follow d d' \<Longrightarrow> worker_ok d' w"
  unfolding worker_ok_def runs_follow_def by (force simp: run_follows_def)

lemma worker_same_run:
  assumes "worker_ok d w" and "runs_ok d" and "get_run (run_id w) d = Inr current"
  shows "same_run current w"
proof -
  from assms(1) obtain x where x: "x \<in> set (t_runs d)" "rr_id x = run_id w"
    "run_incident_ids (rr_data x) = run_incident_ids w" "run_received_at (rr_data x) = run_received_at w"
    by (auto simp: worker_ok_def)
  with row_unique [OF assms(2,3) x(1,2)] show ?thesis by (auto simp: same_run_def row_agrees_def)
qed

lemma knows_run_mono: "set ts \<subseteq> set ts' \<Longrightarrow> knows_run ts i \<Longrightarrow> knows_run ts' i"
  by (auto simp: knows_run_def)

text \<open>A step that keeps the workers is good when its database is.\<close>

lemma sys_ok_step:
  assumes "sys_ok s" and "ws_ok (sy_db s') \<and> runs_follow (sy_db s) (sy_db s')"
    and "set (ds_tasks (sy_d s)) \<subseteq> set (ds_tasks (sy_d s'))" and "delivered_ok (sy_db s') (ds_tasks (sy_d s'))"
    and "sy_workers s' = sy_workers s"
  shows "sys_ok s' \<and> sys_follows s s'"
  using assms worker_ok_follow by (auto simp: sys_ok_def sys_follows_def)

lemma sys_ok_tx:
  assumes "sys_ok s" and "tx_ok (sy_db s) d'"
  shows "sys_ok (with_db d' s) \<and> sys_follows s (with_db d' s)"
proof (rule sys_ok_step [OF assms(1)])
  have "knowledge_ok d' = knowledge_ok (sy_db s)" using assms(2) by (intro knowledge_ok_cong) (simp_all add: tx_ok_def)
  with assms show "ws_ok (sy_db (with_db d' s)) \<and> runs_follow (sy_db s) (sy_db (with_db d' s))"
    by (simp add: sys_ok_def ws_ok_def tx_ok_def)
  from assms show "delivered_ok (sy_db (with_db d' s)) (ds_tasks (sy_d (with_db d' s)))"
    by (auto simp: sys_ok_def delivered_ok_def tx_ok_def)
qed simp_all

text \<open>A claim adds a worker whose fence is above every fence of that run.\<close>

lemma sys_ok_claim:
  assumes ok: "sys_ok s" and cl: "claim i now (sy_db s) = Inr ((r, True), d')"
  shows "sys_ok ((with_db d' s)\<lparr>sy_workers := r # sy_workers s\<rparr>)
    \<and> sys_follows s ((with_db d' s)\<lparr>sy_workers := r # sy_workers s\<rparr>)"
proof -
  have core: "core_ok (sy_db s)" and runs: "runs_ok (sy_db s)" using ok by (auto simp: sys_ok_def ws_ok_def core_ok_def)
  have base: "sys_ok (with_db d' s) \<and> sys_follows s (with_db d' s)"
    using sys_ok_tx [OF ok] tx_ok_claim [OF cl core] by blast
  from cl runs obtain x r0 where x: "tget rr_id i (t_runs d') = Some x" "rr_data x = r"
    "rr_attempt x = run_current_attempt r" and r0: "get_run i (sy_db s) = Inr r0" "r = claimed r0 now" "run_id r = i"
    by (rule claim_row)
  have w: "worker_ok d' r" using x r0(3) tget_SomeD [OF x(1)] by (auto simp: worker_ok_def)
  have "fence r \<notin> fence ` set (sy_workers s)"
  proof
    assume "fence r \<in> fence ` set (sy_workers s)"
    then obtain v where v: "v \<in> set (sy_workers s)" "run_id v = i" "run_current_attempt v = run_current_attempt r0 + 1"
      using r0 by (auto simp: fence_def claimed_def)
    then obtain y where y: "y \<in> set (t_runs (sy_db s))" "rr_id y = i" "run_current_attempt v \<le> rr_attempt y"
      using ok by (auto simp: sys_ok_def worker_ok_def)
    with row_unique [OF runs r0(1) y(1,2)] v(3) show False by (auto simp: row_agrees_def)
  qed
  with base w show ?thesis by (simp add: sys_ok_def sys_follows_def)
qed

section \<open>Dispatching\<close>

lemma diag_sent_mark:
  assumes "t_outbox d' = tupd ob_id (ob_id x) delivered (t_outbox d)"
  shows "diag_sent d' \<subseteq> diag_sent d \<union> {ob_payload y | y. y \<in> set (t_outbox d) \<and> ob_id y = ob_id x \<and> ob_kind y = ''diagnosis''}"
  unfolding diag_sent_def assms lt.upd_rows by (auto simp: delivered_def)

lemma dispatch_item_sent:
  assumes it: "dispatch_item env now x s = (e, s')" and ok: "ws_ok (ds_db s)" and x: "from_outbox x (ds_db s)"
    and q: "honest_queue env (ds_tasks s)" and del: "delivered_ok (ds_db s) (ds_tasks s)"
  shows "set (ds_tasks s) \<subseteq> set (ds_tasks s') \<and> delivered_ok (ds_db s') (ds_tasks s')"
proof -
  have core: "core_ok (ds_db s)" and tok: "tok ob_id (t_outbox (ds_db s))"
    using ok by (auto simp: ws_ok_def core_ok_def outbox_ok_def)
  have grow: "set (ds_tasks s) \<subseteq> set (ds_tasks s')"
    using it by (auto simp: dispatch_item_def Let_def intro: subsetD [OF log_task_simps(2)] split: sum.splits if_splits)
  have keep: "delivered_ok d (ds_tasks s')" if "diag_sent d \<subseteq> diag_sent (ds_db s)" for d
    using that del knows_run_mono [OF grow] unfolding delivered_ok_def by blast
  have retry: "diag_sent (retry_later x now (ds_db s)) \<subseteq> diag_sent (ds_db s)"
    unfolding diag_sent_def retry_later_def by (auto simp: lt.upd_rows)
  have payload: "ob_payload y = ob_payload x \<and> ob_kind y = ob_kind x"
    if "y \<in> set (t_outbox (ds_db s))" "ob_id y = ob_id x" for y
    using x that tok by (auto simp: from_outbox_def tok_def distinct_map inj_on_def)
  have mark: "delivered_ok d (ds_tasks s')"
    if t: "t_outbox d = tupd ob_id (ob_id x) delivered (t_outbox (ds_db s))"
      and k: "\<And>i obs. ob_kind x = ''diagnosis'' \<Longrightarrow> ob_payload x = PDiagnosis i obs \<Longrightarrow> knows_run (ds_tasks s') i" for d
  proof -
    have "p \<in> diag_sent (ds_db s) \<or> ob_kind x = ''diagnosis'' \<and> p = ob_payload x" if "p \<in> diag_sent d" for p
      using diag_sent_mark [OF t] that payload by auto
    then show ?thesis
      using k del knows_run_mono [OF grow] unfolding delivered_ok_def by metis
  qed
  have known: "knows_run (ds_tasks (log_task x (enqueue_task env x) s)) i"
    if e: "enqueue_task env x = None \<or> enqueue_task env x = Some ErrTaskIDConflict" and "ob_kind x = ''diagnosis''"
      and "ob_payload x = PDiagnosis i obs" for i obs
  proof -
    from that(2,3) have t: "task_of x = Some (TDiagnosis i (firing_alerts obs))"
      by (simp add: task_of_def diagnosis_payload_def)
    show ?thesis
    proof (cases "enqueue_task env x")
      case None
      with t show ?thesis by (auto simp: log_task_def knows_run_def)
    next
      case (Some err)
      with e t have "di_enqueue env (TDiagnosis i (firing_alerts obs)) = Some ErrTaskIDConflict"
        by (auto simp: enqueue_task_def split: if_splits)
      with q have "knows_run (ds_tasks s) i" by (auto simp: honest_queue_def)
      with Some show ?thesis by (simp add: log_task_def)
    qed
  qed
  have "delivered_ok (ds_db s') (ds_tasks s')"
  proof (cases "ob_kind x = ''cleanup''")
    case True
    then show ?thesis
      using it keep [OF subset_refl] keep [OF retry] mark dispatchCleanup_outbox [of "di_cleanup env" "ob_id x" "ob_payload x" "ds_k s"]
        sent_tx_outbox [of x "ds_db s"]
      by (auto simp: dispatch_item_def split: sum.splits if_splits)
  next
    case False
    let ?e = "enqueue_task env x"
    show ?thesis
    proof (cases "?e \<noteq> None \<and> ?e \<noteq> Some ErrTaskIDConflict")
      case True
      with False it keep [OF retry] show ?thesis by (auto simp: dispatch_item_def Let_def)
    next
      case sent: False
      show ?thesis
      proof (cases "sent_tx x (ds_db s)")
        case (Inl err)
        with it False sent have "s' = log_task x ?e s" by (auto simp: dispatch_item_def Let_def)
        then show ?thesis using keep [OF subset_refl] by simp
      next
        case (Inr d)
        with it False sent have s': "s' = put_db d (log_task x ?e s)" by (auto simp: dispatch_item_def Let_def)
        show ?thesis using mark [OF sent_tx_outbox [OF Inr]] known sent by (auto simp: s')
      qed
    qed
  qed
  with grow show ?thesis ..
qed

section \<open>The document side\<close>

lemma knowledge_only_tx:
  assumes "core_ok d" and "knowledge_only d d'"
  shows "core_ok d' \<and> runs_follow d d' \<and> diag_sent d' = diag_sent d"
  using core_ok_frame [OF assms(1), of d'] knowledge_only_same [OF assms(2)] diag_sent_same [of d' d] by simp

lemma delete_tx_core:
  assumes "delete_tx i expected now d = Inr (doc, d')" and "core_ok d"
  shows "core_ok d' \<and> runs_follow d d' \<and> diag_sent d' = diag_sent d"
proof -
  define d0 where "d0 = d\<lparr>t_documents := tupd dr_id i (\<lambda>x. x\<lparr>dr_data := doc\<rparr>) (t_documents d)\<rparr>"
  let ?ob = "cleanup_outbox i expected now"
  from assms(1) have ins: "insert_outbox ?ob d0 = Inr d'"
    by (auto simp: d0_def delete_tx_def Let_def res_bind_eq_Inr)
  have 0: "core_ok d0 \<and> runs_follow d d0" by (rule core_ok_frame [OF assms(2)]) (simp_all add: d0_def)
  have new: "ob_dedupe_key ?ob \<notin> set (map ob_dedupe_key (t_outbox d0))" "ob_id ?ob \<notin> set (map ob_id (t_outbox d0))"
    "d' = d0\<lparr>t_outbox := t_outbox d0 @ [?ob]\<rparr>" using ins by (simp_all add: insert_outbox_Inr)
  have "ignore_outbox ?ob d0 = d'" using new by (simp add: ignore_outbox_def tign_def)
  then have "core_ok d'" using core_ok_ignore_outbox [of d0 ?ob] 0 by (simp add: cleanup_outbox_def)
  moreover have "runs_follow d d'" using new(3) by (intro runs_follow_same) (simp add: d0_def)
  moreover have "diag_sent d' = diag_sent d"
    by (rule diag_sent_append [of _ _ "[?ob]"]) (simp_all add: new(3) d0_def cleanup_outbox_def)
  ultimately show ?thesis by simp
qed

lemma sys_ok_k:
  assumes "sys_ok s" and "ws_ok (ks_db k') \<and> runs_follow (sy_db s) (ks_db k')" and "diag_sent (ks_db k') = diag_sent (sy_db s)"
  shows "sys_ok (with_k k' s) \<and> sys_follows s (with_k k' s)"
  by (rule sys_ok_step [OF assms(1)]) (use assms in \<open>simp_all add: sys_ok_def delivered_ok_def\<close>)

lemma put_step:
  assumes ok: "ws_ok (ks_db k)"
    and put: "PutDocument sv env i title content source environment expected key now k = ((e, doc, v), k')"
  shows "ws_ok (ks_db k') \<and> runs_follow (ks_db k) (ks_db k') \<and> diag_sent (ks_db k') = diag_sent (ks_db k)"
  using put_ok_PutDocument [of k sv env i title content source environment expected key now] ok put
    knowledge_only_tx [of "ks_db k" "ks_db k'"] by (simp add: put_ok_def ws_ok_def)

lemma delete_step:
  assumes ok: "ws_ok (ks_db k)" and del: "DeleteDocument sv i expected now k = ((e, doc), k')"
  shows "ws_ok (ks_db k') \<and> runs_follow (ks_db k) (ks_db k') \<and> diag_sent (ks_db k') = diag_sent (ks_db k)"
proof (cases "delete_tx i expected now (ks_db k)")
  case (Inl err)
  with del ok show ?thesis by (simp add: DeleteDocument_def)
next
  case (Inr y)
  obtain doc1 d where y: "y = (doc1, d)" by fastforce
  with del Inr have k': "k' = snd (RestoreProjection sv (k\<lparr>ks_db := d\<rparr>))"
    by (auto simp: DeleteDocument_def split: prod.splits)
  have "ks_db k' = d" using rp.restore_facts [of sv "k\<lparr>ks_db := d\<rparr>"] by (simp add: k')
  with delete_tx_core delete_tx_effect Inr y ok show ?thesis by (auto simp: ws_ok_def)
qed

lemma restore_db: "RestoreProjection sv k = (e, k') \<Longrightarrow> ks_db k' = ks_db k"
  using rp.restore_facts [of sv k] by simp

lemma probe_facts: "ProbeRetrieval env identity sv k = ((e, sv'), k') \<Longrightarrow> ks_db k' = ks_db k"
  by (auto simp: ProbeRetrieval_def Let_def split: if_splits sum.splits option.splits prod.splits dest!: restore_db)

section \<open>The workspace is a transition system with this invariant\<close>

lemma step_ok:
  assumes "sys_ok s" and "step s s'"
  shows "sys_ok s' \<and> sys_follows s s'"
proof -
  have core: "core_ok (sy_db s)" and ws: "ws_ok (sy_db s)" using assms(1) by (simp_all add: sys_ok_def ws_ok_def)
  have tx: "sys_ok (with_db d s) \<and> sys_follows s (with_db d s)" if "tx_ok (sy_db s) d" for d
    using sys_ok_tx [OF assms(1) that] .
  have k: "sys_ok (with_k k' s) \<and> sys_follows s (with_k k' s)"
    if "ws_ok (ks_db k') \<and> runs_follow (sy_db s) (ks_db k') \<and> diag_sent (ks_db k') = diag_sent (sy_db s)" for k'
    using sys_ok_k [OF assms(1), of k'] that by blast
  from assms(2) show ?thesis
  proof (cases rule: step.cases)
    case (claim i now r d') then show ?thesis using sys_ok_claim [OF assms(1)] by simp
  next
    case (finish w st parse sv b ev t score ae now d')
    have "worker_ok (sy_db s) w" "runs_ok (sy_db s)" using finish(2) assms(1) core by (auto simp: sys_ok_def core_ok_def)
    with finish show ?thesis using tx tx_ok_finish [OF finish(4) core] worker_same_run by blast
  next
    case (leave w)
    then show ?thesis using assms(1)
      by (auto simp: sys_ok_def sys_follows_def distinct_map distinct_remove1 inj_on_def dest: notin_set_remove1 in_set_remove1)
  next
    case (dispatch x env now e ds')
    have "delivered_ok (sy_db s) (ds_tasks (sy_d s))" using assms(1) by (simp add: sys_ok_def)
    with dispatch show ?thesis
      using sys_ok_step [OF assms(1), of s'] dispatch_item_effect [OF dispatch(4) ws dispatch(2)]
        dispatch_item_sent [OF dispatch(4) ws dispatch(2,3)] by simp
  next
    case put then show ?thesis using k put_step [OF ws] by blast
  next
    case delete then show ?thesis using k delete_step [OF ws] by blast
  next
    case probe then show ?thesis using k probe_facts ws by simp
  next
    case topology then show ?thesis using tx tx_ok_topology [OF _ core] by blast
  next
    case admit then show ?thesis using tx tx_ok_Admit [OF _ core] by blast
  next
    case rediagnose then show ?thesis using tx tx_ok_ReDiagnose [OF _ core] by blast
  next
    case event then show ?thesis using tx tx_ok_event [OF _ core] by blast
  next
    case retrieval then show ?thesis using tx tx_ok_retrieval [OF _ core] by blast
  next
    case hit then show ?thesis using tx tx_ok_hit [OF _ core] by blast
  next
    case recover then show ?thesis using tx tx_ok_Recover [OF _ core] by blast
  next
    case notify_start then show ?thesis using tx tx_ok_notify_start [OF _ core] by blast
  next
    case notify_finish then show ?thesis using tx tx_ok_notify_finish [OF _ core] by blast
  qed
qed

lemma sys_ok_initial: "sys_ok (initial r)"
  by (simp add: sys_ok_def initial_def ws_ok_def core_ok_empty knowledge_ok_empty delivered_ok_def diag_sent_def)
    (simp add: empty_db_def)

text \<open>The process starts on a well-formed database, new or left by an earlier process, with no worker; the
  queue knows the runs whose rows are marked as sent.\<close>

definition boots :: "sys \<Rightarrow> bool" where
  "boots s \<longleftrightarrow> ws_ok (sy_db s) \<and> delivered_ok (sy_db s) (ds_tasks (sy_d s)) \<and> sy_workers s = []"

lemma boots_initial: "boots (initial r)"
  using sys_ok_initial [of r] by (simp add: boots_def sys_ok_def initial_def)

lemma boots_ok: "boots s \<Longrightarrow> sys_ok s"
  by (simp add: boots_def sys_ok_def)

interpretation ws: transition_system step boots sys_ok sys_follows
proof
  show "sys_ok s" if "boots s" for s using that by (rule boots_ok)
  show "sys_follows s s" for s by (simp add: sys_follows_def)
  show "sys_follows s u" if "sys_follows s t" "sys_follows t u" for s t u
    using that runs_follow_trans by (auto simp: sys_follows_def)
qed (use step_ok in auto)

section \<open>Handlers are paths of the system\<close>

text \<open>A worker's code from \<open>d\<close> to \<open>d'\<close>: whatever the rest of the state, the system can take the worker's
  transactions one after the other.\<close>

definition worker_path :: "run \<Rightarrow> db \<Rightarrow> db \<Rightarrow> bool" where
  "worker_path w d d' \<longleftrightarrow> (\<forall>s. w \<in> set (sy_workers s) \<and> sy_db s = d \<longrightarrow> step\<^sup>*\<^sup>* s (with_db d' s))"

lemma with_db_same [simp]: "with_db (sy_db s) s = s" "with_db d' (with_db d s) = with_db d' s"
  by (simp_all add: with_db_def put_db_def)

lemma worker_path_refl [simp, intro]: "worker_path w d d"
  by (auto simp: worker_path_def)

lemma worker_path_trans:
  assumes "worker_path w d d1" and "worker_path w d1 d2"
  shows "worker_path w d d2"
  unfolding worker_path_def
proof (intro allI impI)
  fix s assume s: "w \<in> set (sy_workers s) \<and> sy_db s = d"
  then have "step\<^sup>*\<^sup>* s (with_db d1 s)" using assms(1) by (simp add: worker_path_def)
  moreover have "step\<^sup>*\<^sup>* (with_db d1 s) (with_db d2 (with_db d1 s))" 
    using assms(2) [unfolded worker_path_def, rule_format, of "with_db d1 s"] s by simp
  ultimately show "step\<^sup>*\<^sup>* s (with_db d2 s)" by simp
qed

lemma worker_path_event: "run_event w stage kind ms ref ae now d = Inr d' \<Longrightarrow> worker_path w d d'"
  unfolding worker_path_def by (blast intro: step.event)

lemma worker_path_retrieval: "retrieval_tx sv w i query failed ms now d = Inr d' \<Longrightarrow> worker_path w d d'"
  unfolding worker_path_def by (blast intro: step.retrieval)

lemma worker_path_hit: "hit_tx w i h rank c ok now d = Inr d' \<Longrightarrow> worker_path w d d'"
  unfolding worker_path_def by (blast intro: step.hit)

lemma worker_path_finish:
  "finish parse sv w began status ev txt score ae now d = Inr d' \<Longrightarrow> terminal status \<Longrightarrow> worker_path w d d'"
  unfolding worker_path_def by (blast intro: step.finish)

lemma worker_path_finish_result:
  "terminal status \<Longrightarrow> worker_path w d (snd (tx_result d (finish parse sv w began status ev txt score ae now d)))"
  by (cases "finish parse sv w began status ev txt score ae now d")
     (auto simp: tx_result_def intro: worker_path_finish)

lemma worker_path_hits: "worker_path w d (snd (hit_loop sv env w inc i rank hits a d))"
proof (induction sv env w inc i rank hits a d rule: hit_loop.induct)
  case (2 sv env r inc i rank h hits a d)
  then show ?case
    by (auto split: sum.splits prod.splits if_splits intro: worker_path_trans worker_path_hit)
qed simp

lemma worker_path_incident: "worker_path w d (snd (diagnose_incident sv env w i a d))"
proof -
  have hits: "worker_path w d2 d3" if "hit_loop sv env w inc i 0 hits a2 d2 = (x, d3)" for inc hits a2 d2 d3 x
    using worker_path_hits [of w d2 sv env inc i 0 hits a2] that by simp
  show ?thesis
    by (auto simp: diagnose_incident_def Let_def split: sum.splits prod.splits option.splits
        dest!: worker_path_event worker_path_retrieval hits intro: worker_path_trans)
qed

lemma worker_path_loop: "worker_path w d (snd (incident_loop sv env w is a d))"
proof (induction sv env w "is" a d rule: incident_loop.induct)
  case (2 sv env r i "is" a d)
  obtain e a' d' where di: "diagnose_incident sv env r i a d = ((e, a'), d')" by (metis surj_pair)
  have "worker_path r d d'" using worker_path_incident [of r d sv env i a] by (simp add: di)
  with 2 di show ?case by (cases e) (auto intro: worker_path_trans)
qed simp

lemma worker_path_judge: "worker_path w d (snd (judge sv w score t1 t2 d))"
  by (auto simp: judge_def Let_def split: sum.splits option.splits
      dest!: worker_path_event intro: worker_path_trans)

lemma worker_path_diagnose: "worker_path w d (snd (diagnose parse sv env w began d))"
proof -
  obtain e a d1 where loop: "incident_loop sv env w (run_incident_ids w) start_acc d = ((e, a), d1)" by (metis surj_pair)
  have 1: "worker_path w d d1" using worker_path_loop [of w d sv env "run_incident_ids w" start_acc] by (simp add: loop)
  show ?thesis
  proof (cases e)
    case LoopDone
    obtain score err d2 where j: "judge sv w (de_score env) (de_judge_began env) (de_judge_done env) d1 = ((score, err), d2)"
      by (metis surj_pair)
    have 2: "worker_path w d1 d2"
      using worker_path_judge [of w d1 sv "de_score env" "de_judge_began env" "de_judge_done env"] by (simp add: j)
    show ?thesis
      using LoopDone 1 2 by (cases err) (auto simp: diagnose_def loop j Let_def terminal_def
          intro!: worker_path_trans [OF _ worker_path_finish_result] intro: worker_path_trans)
  qed (use 1 in \<open>auto simp: diagnose_def loop terminal_def intro!: worker_path_trans [OF _ worker_path_finish_result]\<close>)
qed

lemma worker_path_publish: "worker_path w d (publish_failure parse sv w began ae now d)"
  unfolding publish_failure_def by (rule worker_path_finish_result) (simp add: terminal_def)

lemma dispatch_loop_path:
  assumes "dispatch_loop env now xs (sy_d s) = (e, ds')" and "\<forall>x \<in> set xs. from_outbox x (sy_db s)"
    and "honest_queue env (ds_tasks (sy_d s))"
  shows "step\<^sup>*\<^sup>* s (s\<lparr>sy_d := ds'\<rparr>)"
  using assms
proof (induction xs arbitrary: s)
  case (Cons x xs)
  obtain e1 s1 where item: "dispatch_item env now x (sy_d s) = (e1, s1)" by fastforce
  have "step s (s\<lparr>sy_d := s1\<rparr>)" using Cons.prems(2,3) item by (intro step.dispatch) auto
  then have 1: "step\<^sup>*\<^sup>* s (s\<lparr>sy_d := s1\<rparr>)" by simp
  show ?case
  proof (cases "di_ctx_err env (ob_id x) = None \<and> e1 = None")
    case True
    have "set (ds_tasks (sy_d s)) \<subseteq> set (ds_tasks s1)"
      using item by (auto simp: dispatch_item_def Let_def intro: subsetD [OF log_task_simps(2)] split: sum.splits if_splits)
    then have "honest_queue env (ds_tasks s1)"
      using Cons.prems(3) knows_run_mono unfolding honest_queue_def by blast
    moreover have "\<forall>y \<in> set xs. from_outbox y (ds_db s1)" using item_keeps_snapshot [OF item] Cons.prems(2) by simp
    ultimately have "step\<^sup>*\<^sup>* (s\<lparr>sy_d := s1\<rparr>) (s\<lparr>sy_d := s1\<rparr>\<lparr>sy_d := ds'\<rparr>)"
      using Cons.prems(1) True item by (intro Cons.IH) auto
    with 1 show ?thesis by simp
  next
    case False
    with Cons.prems(1) item 1 show ?thesis by (cases s) (auto split: option.splits)
  qed
next
  case Nil
  then have "s\<lparr>sy_d := ds'\<rparr> = s" by (cases s) simp
  then show ?case by simp
qed

section \<open>Properties of the system\<close>

definition ex_sys :: "db \<Rightarrow> task list \<Rightarrow> run list \<Rightarrow> sys" where
  "ex_sys d ts ws = \<lparr> sy_d = \<lparr> ds_k = \<lparr> ks_db = d, ks_rag = new_rag \<rparr>, ds_tasks = ts \<rparr>, sy_workers = ws \<rparr>"

definition ex_queued :: db where
  "ex_queued = empty_db\<lparr>
     t_runs := [\<lparr> rr_id = ''r'', rr_business_key = ''b'', rr_status = ''queued'',
       rr_received_at = run_received_at (ex_run ''queued''), rr_attempt = 0, rr_lease_until = None,
       rr_revision = 1, rr_data = ex_run ''queued'' \<rparr>],
     t_outbox := [(diagnosis_outbox ''r'' [] 0)\<lparr>ob_next_at := []\<rparr>]\<rparr>"

lemma ws_ok_ex_queued: "ws_ok ex_queued"
  by (simp add: ex_queued_def ws_ok_def knowledge_ok_def versions_agree_def documents_agree_def pointers_ok_def
      core_ok_def empty_db_def runs_ok_def events_ok_def incidents_ok_def
      links_ok_def evidence_ok_def outbox_ok_def queue_ok_def tok_def row_agrees_def ex_run_def dispatch_state_def
      diagnosis_outbox_def diagnosis_row_def has_run_def tget_def run_links_def)

lemma ex_queued_rows: "t_outbox ex_queued = [(diagnosis_outbox ''r'' [] 0)\<lparr>ob_next_at := []\<rparr>]"
  by (simp add: ex_queued_def)

lemma boots_ex_queued: "boots (ex_sys ex_queued [] [])"
proof -
  have "diag_sent ex_queued = {}" by (auto simp: diag_sent_def ex_queued_rows diagnosis_outbox_def)
  then show ?thesis by (simp add: boots_def ex_sys_def ws_ok_ex_queued delivered_ok_def)
qed

lemma ex_queued_dispatch:
  "\<exists>s. step (ex_sys ex_queued [] []) s \<and> ds_tasks (sy_d s) = [TDiagnosis ''r'' []]
     \<and> (\<exists>x \<in> set (t_runs (sy_db s)). rr_id x = ''r'' \<and> rr_status x = ''queued'')"
proof -
  let ?x = "(diagnosis_outbox ''r'' [] 0)\<lparr>ob_next_at := []\<rparr>"
  let ?s = "ex_sys ex_queued [] []"
  obtain e ds' where it: "dispatch_item (ex_queue None) 0 ?x (sy_d ?s) = (e, ds')" by fastforce
  have "step ?s (?s\<lparr>sy_d := ds'\<rparr>)"
    by (rule step.dispatch [OF _ _ it])
       (simp_all add: from_outbox_def ex_sys_def ex_queued_rows honest_queue_def ex_queue_def)
  moreover have "ds_tasks ds' = [TDiagnosis ''r'' []] \<and> (\<exists>x \<in> set (t_runs (ds_db ds')). rr_id x = ''r'' \<and> rr_status x = ''queued'')"
    using it
    by (auto simp: dispatch_item_def diagnosis_outbox_def enqueue_task_def task_of_def diagnosis_payload_def
        firing_alerts_def ex_queue_def log_task_def sent_tx_def mark_sent_def ex_sys_def ex_queued_def get_run_def
        tget_def enqueued_def saveRun_def tupd_def ex_run_def put_db_def split: sum.splits)
  ultimately show ?thesis by fastforce
qed

text \<open>C1. In every state the process can reach, whatever the interleaving of handlers, workers, dispatcher and
  recovery and wherever a worker stopped, the workspace is well formed: run rows agree with their data, events
  of a run are numbered without a gap, links, evidence and outbox are consistent, documents and versions agree,
  every worker holds a copy of an existing run, no two workers hold the same attempt of a run, and every
  diagnosis row that is marked as sent is known to the queue.\<close>

theorem reachable_ws_ok:
  assumes "boots s0" and "step\<^sup>*\<^sup>* s0 s"
  shows "sys_ok s \<and> (\<forall>i. dense (run_seqs i (t_events (sy_db s))))"
  using ws.reachable_inv [OF assms] events_ok_dense by (auto simp: sys_ok_def ws_ok_def core_ok_def)

theorem reachable_ws_ok_witness:
  "boots (initial new_rag) \<and> (\<exists>s. step (ex_sys ex_queued [] []) s \<and> ds_tasks (sy_d s) = [TDiagnosis ''r'' []] \<and> sys_ok s)"
  using reachable_ws_ok [OF boots_ex_queued] ex_queued_dispatch boots_initial by blast

text \<open>C2. At most one worker can write to a run. From a state with the invariant on, which every reachable
  state has, of all the workers that claimed a run and are still alive, two that both pass the ownership check
  are the same.\<close>

theorem single_owner:
  assumes "sys_ok s0" and "step\<^sup>*\<^sup>* s0 s" and "v \<in> set (sy_workers s)" and "w \<in> set (sy_workers s)"
    and "run_id v = run_id w" and "owned v (sy_db s) = Inr ()" and "owned w (sy_db s) = Inr ()"
  shows "v = w"
proof -
  have "sys_ok s" using ws.path_inv [OF assms(2,1)] by simp
  then have "inj_on fence (set (sy_workers s))" by (simp add: sys_ok_def distinct_map)
  moreover have "fence v = fence w" using assms(5-7) by (auto simp: fence_def owned_Inr)
  ultimately show ?thesis using assms(3,4) by (simp add: inj_on_def)
qed

definition ex_current :: run where
  "ex_current = (ex_run ''running'')\<lparr>run_current_attempt := 1\<rparr>"

definition ex_retried :: db where
  "ex_retried = saveRun ex_current ex_running"

lemma ws_ok_ex_retried: "ws_ok ex_retried"
  by (simp add: ex_retried_def ex_current_def saveRun_def tupd_def ex_running_def ws_ok_def knowledge_ok_def
      versions_agree_def documents_agree_def pointers_ok_def core_ok_def empty_db_def runs_ok_def events_ok_def
      incidents_ok_def links_ok_def evidence_ok_def outbox_ok_def queue_ok_def tok_def row_agrees_def ex_run_def
      diagnosis_outbox_def diagnosis_row_def has_run_def tget_def run_links_def)

lemma sys_ok_ex_retried: "sys_ok (ex_sys ex_retried [TDiagnosis ''r'' []] [ex_current, ex_run ''running''])"
proof -
  have "knows_run [TDiagnosis ''r'' []] i" if "PDiagnosis i obs \<in> diag_sent ex_retried" for i obs
    using that by (auto simp: diag_sent_def ex_retried_def ex_running_def diagnosis_outbox_def knows_run_def)
  moreover have "fence ex_current \<noteq> fence (ex_run ''running'')"
    by (simp add: fence_def ex_current_def ex_run_def)
  moreover have "worker_ok ex_retried ex_current" "worker_ok ex_retried (ex_run ''running'')"
    by (simp_all add: worker_ok_def ex_retried_def ex_current_def saveRun_def tupd_def ex_running_def ex_run_def)
  ultimately show ?thesis by (simp add: sys_ok_def ex_sys_def ws_ok_ex_retried delivered_ok_def)
qed

theorem single_owner_witness:
  "owned ex_current ex_retried = Inr () \<and> owned (ex_run ''running'') ex_retried \<noteq> Inr ()"
proof -
  let ?s = "ex_sys ex_retried [TDiagnosis ''r'' []] [ex_current, ex_run ''running'']"
  have ids: "run_id ex_current = ''r''" "run_id (ex_run ''running'') = ''r''" "ex_current \<noteq> ex_run ''running''"
    by (simp_all add: ex_current_def ex_run_def queued_run_def)
  have o1: "owned ex_current ex_retried = Inr ()"
    by (simp add: owned_def ex_retried_def ex_current_def saveRun_def tupd_def ex_running_def ex_run_def tget_def)
  have "sy_db ?s = ex_retried" "set (sy_workers ?s) = {ex_current, ex_run ''running''}" by (simp_all add: ex_sys_def)
  then show ?thesis
    using single_owner [OF sys_ok_ex_retried rtranclp.rtrancl_refl, of "ex_run ''running''" ex_current] ids o1 by auto
qed



lemma queued_delivery:
  assumes "sys_ok s" and "x \<in> set (t_runs (sy_db s))" and "rr_status x = ''queued''"
  shows "\<exists>ob \<in> set (t_outbox (sy_db s)). diagnosis_row (rr_id x) ob
    \<and> (ob_state ob = ''pending'' \<or> ob_state ob = ''sent'' \<and> knows_run (ds_tasks (sy_d s)) (rr_id x))"
proof -
  have ok: "ws_ok (sy_db s)" "delivered_ok (sy_db s) (ds_tasks (sy_d s))"
    using assms(1) by (simp_all add: sys_ok_def)
  then have "queue_ok (sy_db s)" by (simp add: ws_ok_def core_ok_def)
  with assms(2,3) obtain ob where ob: "ob \<in> set (t_outbox (sy_db s))" "diagnosis_row (rr_id x) ob"
    "ob_state ob = dispatch_state (rr_data x)"
    by (auto simp: queue_ok_def list_all_iff list_ex_iff terminal_def)
  obtain obs where p: "ob_payload ob = PDiagnosis (rr_id x) obs" and k: "ob_kind ob = ''diagnosis''"
    using ob(2) by (auto simp: diagnosis_row_def split: payload.splits)
  have "knows_run (ds_tasks (sy_d s)) (rr_id x)" if "ob_state ob = ''sent''"
  proof -
    have "PDiagnosis (rr_id x) obs \<in> diag_sent (sy_db s)"
      unfolding diag_sent_def by (rule image_eqI [of _ _ ob]) (use that ob(1) p k in auto)
    with ok(2) show ?thesis by (auto simp: delivered_ok_def)
  qed
  with ob show ?thesis by (intro bexI [of _ ob]) (auto simp: dispatch_state_def split: if_splits)
qed

text \<open>C4. No diagnosis is lost. From a state with the invariant on, a queued run always has its outbox row, and
  that row is still pending or the queue has accepted a task for the run.\<close>

theorem queued_not_lost:
  assumes "sys_ok s0" and "step\<^sup>*\<^sup>* s0 s" and "x \<in> set (t_runs (sy_db s))" and "rr_status x = ''queued''"
  shows "\<exists>ob \<in> set (t_outbox (sy_db s)). diagnosis_row (rr_id x) ob
    \<and> (ob_state ob = ''pending'' \<or> ob_state ob = ''sent'' \<and> knows_run (ds_tasks (sy_d s)) (rr_id x))"
  using ws.path_inv [OF assms(2,1)] queued_delivery [OF _ assms(3,4)] by blast

theorem queued_not_lost_witness:
  "\<exists>s. step (ex_sys ex_queued [] []) s \<and> ds_tasks (sy_d s) = [TDiagnosis ''r'' []]
     \<and> (\<exists>ob \<in> set (t_outbox (sy_db s)). diagnosis_row ''r'' ob \<and> (ob_state ob = ''pending'' \<or> ob_state ob = ''sent''))"
proof -
  obtain s x where s: "step (ex_sys ex_queued [] []) s" "ds_tasks (sy_d s) = [TDiagnosis ''r'' []]"
    and x: "x \<in> set (t_runs (sy_db s))" "rr_id x = ''r''" "rr_status x = ''queued''"
    using ex_queued_dispatch by blast
  from queued_not_lost [OF boots_ok [OF boots_ex_queued] r_into_rtranclp [of step, OF s(1)] x(1,3), unfolded x(2)] s
  show ?thesis by blast
qed

text \<open>The diagnosis handler is a path of the system: whatever the search, the scoring service and the context
  do, its effect is that of a claim, a sequence of fenced transactions of the claimed worker, and the worker's
  leaving, so everything proved of paths holds of it.\<close>

theorem ProcessAlertDiagnosis_path:
  "step\<^sup>*\<^sup>* s (with_db (snd (ProcessAlertDiagnosis parse sv env i now (sy_db s))) s)"
proof (cases "claim i now (sy_db s)")
  case (Inl e)
  then show ?thesis by (simp add: ProcessAlertDiagnosis_def)
next
  case (Inr y)
  obtain w ok d1 where y: "y = ((w, ok), d1)" by (metis surj_pair)
  show ?thesis
  proof (cases ok)
    case False
    with Inr y have "d1 = sy_db s" by (auto elim: claim_cases)
    with Inr y False show ?thesis by (simp add: ProcessAlertDiagnosis_def)
  next
    case True
    let ?s1 = "(with_db d1 s)\<lparr>sy_workers := w # sy_workers s\<rparr>"
    define d' where "d' = snd (ProcessAlertDiagnosis parse sv env i now (sy_db s))"
    have 1: "step s ?s1" using Inr y True by (intro step.claim) simp
    have "worker_path w d1 d'"
      using worker_path_diagnose [of w d1 parse sv env now] worker_path_publish [of w d1 parse sv now]
        worker_path_trans [OF _ worker_path_publish]
      by (auto simp: d'_def ProcessAlertDiagnosis_def Inr y True split: prod.splits option.splits)
    then have 2: "step\<^sup>*\<^sup>* ?s1 (with_db d' ?s1)" by (simp add: worker_path_def)
    have "step (with_db d' ?s1) ((with_db d' ?s1)\<lparr>sy_workers := remove1 w (sy_workers (with_db d' ?s1))\<rparr>)"
      by (rule step.leave)
    moreover have "(with_db d' ?s1)\<lparr>sy_workers := remove1 w (sy_workers (with_db d' ?s1))\<rparr> = with_db d' s"
      by (simp add: with_db_def put_db_def)
    ultimately show ?thesis
      using 1 2 unfolding d'_def [symmetric] by (metis converse_rtranclp_into_rtranclp rtranclp.rtrancl_into_rtrancl)
  qed
qed

text \<open>A dispatch is a path of the system, under the one assumption about the queue.\<close>

theorem Dispatch_path:
  assumes "honest_queue env (ds_tasks (sy_d s))" and "Dispatch env now (sy_d s) = (e, ds')"
  shows "step\<^sup>*\<^sup>* s (s\<lparr>sy_d := ds'\<rparr>)"
proof (rule dispatch_loop_path [OF _ _ assms(1)])
  show "dispatch_loop env now (due_items now (sy_db s)) (sy_d s) = (e, ds')"
    using assms(2) by (simp add: Dispatch_def)
  show "\<forall>x \<in> set (due_items now (sy_db s)). from_outbox x (sy_db s)"
    by (fastforce simp: due_items_def from_outbox_def dest: in_set_takeD)
qed

theorem Dispatch_path_witness:
  "\<exists>e ds'. Dispatch (ex_queue None) 5 (sy_d (ex_sys ex_queued [] [])) = (e, ds')
     \<and> step\<^sup>*\<^sup>* (ex_sys ex_queued [] []) ((ex_sys ex_queued [] [])\<lparr>sy_d := ds'\<rparr>)"
proof -
  obtain e ds' where d: "Dispatch (ex_queue None) 5 (sy_d (ex_sys ex_queued [] [])) = (e, ds')" by fastforce
  have "honest_queue (ex_queue None) (ds_tasks (sy_d (ex_sys ex_queued [] [])))"
    by (simp add: honest_queue_def ex_queue_def)
  from Dispatch_path [OF this d] d show ?thesis by blast
qed

end
