(* ===== verification/ReadModel.thy ===== *)
theory ReadModel
  imports Diagnosis "HOL-Library.AList" "HOL-Library.Multiset"
begin

text \<open>
  The read model (\<open>src/internal/workspace/readmodel.go\<close>, the graph types of \<open>model.go\<close>): the evidence
  graph of a run and the summary of a window of incidents. Both are read-only transactions, functions of the
  database.

  \<open>fmt.Sprint\<close> of a metadata value is the value for a string and the decimal for a number; its rendering of
  a nested observation is the parameter \<open>show_obs\<close>. The floats of the summary are real numbers.
\<close>

section \<open>The evidence graph\<close>

record node =
  nd_id :: string
  nd_type :: string
  nd_label :: string
  nd_subtitle :: string
  nd_entity_ref :: string
  nd_source_refs :: "string list"
  nd_verification :: string

record edge =
  eg_id :: string
  eg_source :: string
  eg_target :: string
  eg_relation :: string
  eg_basis :: string
  eg_source_refs :: "string list"
  eg_recorded_at :: string
  eg_verification :: string

record graph =
  gr_revision :: nat
  gr_as_of :: string
  gr_id :: string
  gr_incident_id :: string
  gr_run_id :: string
  gr_nodes :: "node list"
  gr_edges :: "edge list"
  gr_truncated :: bool
  gr_omitted_nodes :: nat
  gr_omitted_edges :: nat

definition deref :: "string option \<Rightarrow> string" where
  "deref p = (case p of None \<Rightarrow> [] | Some s \<Rightarrow> s)"

definition sprint :: "(observation \<Rightarrow> string) \<Rightarrow> meta option \<Rightarrow> string" where
  "sprint show_obs v =
     (case v of
        None \<Rightarrow> ''<nil>''
      | Some MNull \<Rightarrow> ''<nil>''
      | Some (MStr s) \<Rightarrow> s
      | Some (MInt n) \<Rightarrow> (if n < 0 then ''-'' @ dec (nat (- n)) else dec (nat n))
      | Some (MBool b) \<Rightarrow> (if b then ''true'' else ''false'')
      | Some (MObs o1) \<Rightarrow> show_obs o1)"

definition mk_edge :: "run \<Rightarrow> string \<Rightarrow> string \<Rightarrow> string \<Rightarrow> string \<Rightarrow> edge" where
  "mk_edge r src tgt relation ref =
     \<lparr> eg_id = stableID ''edge_'' (src @ tgt @ relation), eg_source = src, eg_target = tgt, eg_relation = relation,
       eg_basis = ''recorded'', eg_source_refs = [ref], eg_recorded_at = run_received_at r,
       eg_verification = ''not_applicable'' \<rparr>"

definition incident_node :: "incident \<Rightarrow> string \<Rightarrow> node" where
  "incident_node inc alert =
     \<lparr> nd_id = inc_id inc, nd_type = ''incident'', nd_label = inc_name inc, nd_subtitle = inc_lifecycle_status inc,
       nd_entity_ref = inc_id inc, nd_source_refs = [alert], nd_verification = ''not_applicable'' \<rparr>"

definition alert_node :: "incident \<Rightarrow> string \<Rightarrow> node" where
  "alert_node inc alert =
     \<lparr> nd_id = alert, nd_type = ''alert'',
       nd_label = bytes [0xE5, 0x8E, 0x9F, 0xE5, 0xA7, 0x8B, 0xE5, 0x91, 0x8A, 0xE8, 0xAD, 0xA6],
       nd_subtitle = inc_service inc, nd_entity_ref = alert, nd_source_refs = [alert],
       nd_verification = ''not_applicable'' \<rparr>"

definition report_node :: "run \<Rightarrow> node" where
  "report_node r =
     \<lparr> nd_id = report_id (run_id r), nd_type = ''report'',
       nd_label = bytes [0xE8, 0xAF, 0x8A, 0xE6, 0x96, 0xAD, 0xE6, 0x8A, 0xA5, 0xE5, 0x91, 0x8A],
       nd_subtitle = run_evidence_status r, nd_entity_ref = report_id (run_id r),
       nd_source_refs = [report_id (run_id r)], nd_verification = ''unverified'' \<rparr>"

definition retrieval_node :: "(observation \<Rightarrow> string) \<Rightarrow> evidence \<Rightarrow> node" where
  "retrieval_node show_obs ev =
     \<lparr> nd_id = evi_id ev, nd_type = ''retrieval'',
       nd_label = bytes [0xE6, 0xA3, 0x80, 0xE7, 0xB4, 0xA2, 0xE8, 0xAE, 0xB0, 0xE5, 0xBD, 0x95],
       nd_subtitle = sprint show_obs (map_of (evi_metadata ev) ''status''), nd_entity_ref = evi_id ev,
       nd_source_refs = [evi_id ev], nd_verification = ''not_applicable'' \<rparr>"

definition chunk_node :: "evidence \<Rightarrow> node" where
  "chunk_node ev =
     \<lparr> nd_id = evi_id ev, nd_type = ''document_chunk'',
       nd_label = bytes [0xE6, 0x96, 0x87, 0xE6, 0xA1, 0xA3, 0xE7, 0x89, 0x87, 0xE6, 0xAE, 0xB5],
       nd_subtitle = deref (evi_version_id ev), nd_entity_ref = evi_id ev, nd_source_refs = [evi_id ev],
       nd_verification = ''unverified'' \<rparr>"

text \<open>Evidence that names an attempt counts for that attempt only.\<close>

definition other_attempt :: "run \<Rightarrow> evidence \<Rightarrow> bool" where
  "other_attempt r ev =
     (case map_of (evi_metadata ev) ''attempt'' of Some (MInt a) \<Rightarrow> a \<noteq> int (run_current_attempt r) | _ \<Rightarrow> False)"

definition graph_evidence :: "(observation \<Rightarrow> string) \<Rightarrow> run \<Rightarrow> string \<Rightarrow> evidence \<Rightarrow> node list \<times> edge list \<Rightarrow>
    node list \<times> edge list" where
  "graph_evidence show_obs r alert ev = (\<lambda>(ns, es).
     if other_attempt r ev then (ns, es)
     else if evi_kind ev = ''retrieval'' then
       (ns @ [retrieval_node show_obs ev],
        es @ [mk_edge r alert (evi_id ev) ''triggered'' (evi_id ev)]
           @ (if run_report_text r \<noteq> None then [mk_edge r (evi_id ev) (report_id (run_id r)) ''produced'' (evi_id ev)] else []))
     else if evi_kind ev = ''document_chunk'' then
       (ns @ [chunk_node ev],
        es @ [mk_edge r (sprint show_obs (map_of (evi_metadata ev) ''retrieval_id'')) (evi_id ev) ''retrieved'' (evi_id ev)]
           @ (if run_report_text r \<noteq> None then [mk_edge r (report_id (run_id r)) (evi_id ev) ''cites'' (evi_id ev)] else []))
     else (ns, es))"

definition run_evidence :: "string \<Rightarrow> string \<Rightarrow> db \<Rightarrow> evidence list" where
  "run_evidence rid i d = map vi_data (filter (\<lambda>x. vi_run x = Some rid \<and> vi_incident x = Some i) (t_evidence d))"

definition whole_graph :: "(observation \<Rightarrow> string) \<Rightarrow> incident \<Rightarrow> run \<Rightarrow> string \<Rightarrow> evidence list \<Rightarrow> node list \<times> edge list" where
  "whole_graph show_obs inc r alert evs =
     fold (graph_evidence show_obs r alert) evs
       ([incident_node inc alert, alert_node inc alert] @ (if run_report_text r \<noteq> None then [report_node r] else []),
        [mk_edge r (inc_id inc) alert ''contains'' alert])"

definition node_bound :: "int \<Rightarrow> nat" where
  "node_bound n = nat (if n < 1 then 60 else n)"

definition edge_bound :: "int \<Rightarrow> nat" where
  "edge_bound n = nat (if n < 1 then 120 else n)"

fun keep_edges :: "string set \<Rightarrow> nat \<Rightarrow> edge list \<Rightarrow> edge list \<Rightarrow> edge list" where
  "keep_edges visible cap filtered [] = filtered"
| "keep_edges visible cap filtered (e # es) =
     (if eg_source e \<in> visible \<and> eg_target e \<in> visible \<and> length filtered < cap
      then keep_edges visible cap (filtered @ [e]) es else keep_edges visible cap filtered es)"

definition empty_graph :: "incident \<Rightarrow> graph" where
  "empty_graph inc =
     \<lparr> gr_revision = 0, gr_as_of = [], gr_id = ''graph_'' @ inc_id inc, gr_incident_id = inc_id inc,
       gr_run_id = [], gr_nodes = [], gr_edges = [], gr_truncated = False, gr_omitted_nodes = 0, gr_omitted_edges = 0 \<rparr>"

definition bounded_graph :: "run \<Rightarrow> string \<Rightarrow> string \<Rightarrow> int \<Rightarrow> int \<Rightarrow> time \<Rightarrow> node list \<times> edge list \<Rightarrow> graph" where
  "bounded_graph r i rid node_limit edge_limit now = (\<lambda>(ns, es).
     let shown = take (node_bound node_limit) ns;
         kept = keep_edges (nd_id ` set shown) (edge_bound edge_limit) [] es
     in \<lparr> gr_revision = run_revision r, gr_as_of = fmt_nano now,
          gr_id = stableID ''graph_'' (i @ rid @ dec (run_revision r)), gr_incident_id = i,
          gr_run_id = rid, gr_nodes = shown, gr_edges = kept,
          gr_truncated = (length shown < length ns \<or> length kept < length es),
          gr_omitted_nodes = length ns - length shown, gr_omitted_edges = length es - length kept \<rparr>)"

definition Graph :: "(observation \<Rightarrow> string) \<Rightarrow> string \<Rightarrow> string \<Rightarrow> int \<Rightarrow> int \<Rightarrow> time \<Rightarrow> db \<Rightarrow> graph ws" where
  "Graph show_obs i run node_limit edge_limit now d =
     res_bind (get_incident i d) (\<lambda>inc.
       if run = [] \<and> inc_latest_run_id inc = None then Inr (empty_graph inc)
       else
         (let rid = (if run = [] then deref (inc_latest_run_id inc) else run) in
          ensure ((rid, i) \<in> set (t_run_incidents d)) ErrNoRows
          (res_bind (get_run rid d) (\<lambda>r.
             Inr (bounded_graph r i rid node_limit edge_limit now
               (whole_graph show_obs inc r (stableID ''alert_'' (rid @ i)) (run_evidence rid i d)))))))"

section \<open>The summary\<close>

record bucket =
  bk_received :: nat
  bk_succeeded :: nat
  bk_no :: nat
  bk_cited :: nat
  bk_samples :: nat
  bk_duration :: int

definition zero_bucket :: bucket where
  "zero_bucket = \<lparr> bk_received = 0, bk_succeeded = 0, bk_no = 0, bk_cited = 0, bk_samples = 0, bk_duration = 0 \<rparr>"

type_synonym buckets = "(string \<times> bucket) list"

definition get_bucket :: "string \<Rightarrow> buckets \<Rightarrow> bucket" where
  "get_bucket day bs = (case map_of bs day of None \<Rightarrow> zero_bucket | Some b \<Rightarrow> b)"

definition set_bucket :: "string \<Rightarrow> (bucket \<Rightarrow> bucket) \<Rightarrow> buckets \<Rightarrow> buckets" where
  "set_bucket day f bs = AList.update day (f (get_bucket day bs)) bs"

definition dayOf :: "string \<Rightarrow> string" where
  "dayOf at_s = (case parse_nano at_s of None \<Rightarrow> [] | Some t \<Rightarrow> fmt_day t)"

text \<open>A bound that is the zero time is no bound.\<close>

definition window_bound :: "string \<Rightarrow> time ws" where
  "window_bound s = (if s = [] then Inr zero_time else res_of (ErrMsg ''parsing time'') (parse_nano s))"

definition in_window :: "time \<Rightarrow> time \<Rightarrow> time \<Rightarrow> bool" where
  "in_window begin_t end_t t \<longleftrightarrow> \<not> (begin_t \<noteq> zero_time \<and> t < begin_t \<or> end_t \<noteq> zero_time \<and> end_t < t)"

record incident_counts =
  ic_active :: nat
  ic_no :: nat
  ic_unavailable :: nat

definition count_incident :: "db \<Rightarrow> incident \<Rightarrow> incident_counts \<Rightarrow> incident_counts ws" where
  "count_incident d i c =
     (let c1 = (if inc_lifecycle_status i = ''active'' then c\<lparr>ic_active := ic_active c + 1\<rparr> else c) in
      case inc_latest_run_id i of
        None \<Rightarrow> Inr c1
      | Some rid \<Rightarrow>
          res_bind (get_run rid d) (\<lambda>r.
            Inr (if run_evidence_status r = ''no_evidence'' then c1\<lparr>ic_no := ic_no c1 + 1\<rparr>
                 else if run_evidence_status r = ''source_unavailable'' then c1\<lparr>ic_unavailable := ic_unavailable c1 + 1\<rparr>
                 else c1)))"

definition receive_incident :: "incident \<Rightarrow> buckets \<Rightarrow> buckets" where
  "receive_incident i bs =
     (let day = dayOf (inc_first_received_at i) in
      if day = [] then bs else set_bucket day (\<lambda>b. b\<lparr>bk_received := bk_received b + 1\<rparr>) bs)"

record run_counts =
  rc_success :: nat
  rc_cited :: nat
  rc_samples :: nat
  rc_total :: int
  rc_buckets :: buckets

definition timed :: "run \<Rightarrow> int option" where
  "timed r = (if run_status r = ''succeeded'' \<or> run_status r = ''failed'' then run_duration_ms r else None)"

definition bucket_run :: "run \<Rightarrow> bucket \<Rightarrow> bucket" where
  "bucket_run r b =
     (let b1 = (if run_evidence_status r = ''no_evidence'' then b\<lparr>bk_no := bk_no b + 1\<rparr> else b);
          b2 = (if run_status r = ''succeeded''
                then b1\<lparr>bk_succeeded := bk_succeeded b1 + 1,
                        bk_cited := bk_cited b1 + (if run_citation_ids r \<noteq> [] then 1 else 0)\<rparr> else b1)
      in case timed r of
           None \<Rightarrow> b2
         | Some ms \<Rightarrow> b2\<lparr>bk_samples := bk_samples b2 + 1, bk_duration := bk_duration b2 + ms\<rparr>)"

definition count_run :: "string set \<Rightarrow> time \<Rightarrow> time \<Rightarrow> run \<Rightarrow> run_counts \<Rightarrow> run_counts ws" where
  "count_run scope begin_t end_t r c =
     (if \<not> list_ex (\<lambda>i. i \<in> scope) (run_incident_ids r) then Inr c
      else res_bind (res_of (ErrMsg ''parsing time'') (parse_nano (run_received_at r))) (\<lambda>t.
        Inr (if \<not> in_window begin_t end_t t then c
             else (let ok = run_status r = ''succeeded'' in
               c\<lparr>rc_success := rc_success c + (if ok then 1 else 0),
                 rc_cited := rc_cited c + (if ok \<and> run_citation_ids r \<noteq> [] then 1 else 0),
                 rc_samples := rc_samples c + (if timed r \<noteq> None then 1 else 0),
                 rc_total := rc_total c + (case timed r of None \<Rightarrow> 0 | Some ms \<Rightarrow> ms),
                 rc_buckets := set_bucket (dayOf (run_received_at r)) (bucket_run r) (rc_buckets c)\<rparr>))))"

definition ratio :: "int \<Rightarrow> nat \<Rightarrow> real option" where
  "ratio a n = (if 0 < n then Some (real_of_int a / real n) else None)"

record history_row =
  hy_timestamp :: string
  hy_received_incidents :: nat
  hy_succeeded_runs :: nat
  hy_no_evidence_runs :: nat
  hy_cited_succeeded_runs :: nat
  hy_mean_diagnosis_ms :: "real option"
  hy_citation_coverage :: "real option"
  hy_latency_samples :: nat

definition history_of :: "buckets \<Rightarrow> string \<Rightarrow> history_row" where
  "history_of bs day =
     (let b = get_bucket day bs in
      \<lparr> hy_timestamp = day @ ''T00:00:00Z'', hy_received_incidents = bk_received b, hy_succeeded_runs = bk_succeeded b,
        hy_no_evidence_runs = bk_no b, hy_cited_succeeded_runs = bk_cited b,
        hy_mean_diagnosis_ms = ratio (bk_duration b) (bk_samples b),
        hy_citation_coverage = ratio (int (bk_cited b)) (bk_succeeded b), hy_latency_samples = bk_samples b \<rparr>)"

definition history_days :: "buckets \<Rightarrow> string list" where
  "history_days bs = sort (filter (\<lambda>day. day \<noteq> []) (map fst bs))"

record summary =
  su_active_incidents :: nat
  su_no_evidence_incidents :: nat
  su_source_unavailable_incidents :: nat
  su_succeeded_runs :: nat
  su_cited_succeeded_runs :: nat
  su_mean_diagnosis_ms :: "real option"
  su_latency_samples :: nat
  su_citation_coverage :: "real option"
  su_history :: "history_row list"

definition SummaryWindow :: "incident list \<Rightarrow> string \<Rightarrow> string \<Rightarrow> db \<Rightarrow> summary ws" where
  "SummaryWindow incidents from to d =
     res_bind (window_bound from) (\<lambda>begin_t.
     res_bind (window_bound to) (\<lambda>end_t.
     res_bind (fold_res (count_incident d) incidents \<lparr> ic_active = 0, ic_no = 0, ic_unavailable = 0 \<rparr>) (\<lambda>c.
     res_bind (fold_res (count_run (inc_id ` set incidents) begin_t end_t) (list_runs d)
        \<lparr> rc_success = 0, rc_cited = 0, rc_samples = 0, rc_total = 0,
          rc_buckets = fold receive_incident incidents [] \<rparr>) (\<lambda>rc.
       Inr \<lparr> su_active_incidents = ic_active c, su_no_evidence_incidents = ic_no c,
             su_source_unavailable_incidents = ic_unavailable c, su_succeeded_runs = rc_success rc,
             su_cited_succeeded_runs = rc_cited rc, su_mean_diagnosis_ms = ratio (rc_total rc) (rc_samples rc),
             su_latency_samples = rc_samples rc, su_citation_coverage = ratio (int (rc_cited rc)) (rc_success rc),
             su_history = map (history_of (rc_buckets rc)) (history_days (rc_buckets rc)) \<rparr>))))"

definition Summary :: "incident list \<Rightarrow> db \<Rightarrow> summary ws" where
  "Summary incidents d = SummaryWindow incidents [] [] d"

section \<open>The graph is closed\<close>

lemma keep_edges_take:
  "keep_edges visible cap filtered es =
     filtered @ take (cap - length filtered) (filter (\<lambda>e. eg_source e \<in> visible \<and> eg_target e \<in> visible) es)"
proof (induction es arbitrary: filtered)
  case (Cons e es)
  show ?case
  proof (cases "cap - length filtered")
    case (Suc k)
    then have "cap - Suc (length filtered) = k" "length filtered < cap" by simp_all
    with Suc show ?thesis by (simp add: Cons.IH)
  next
    case 0
    then have "\<not> length filtered < cap" by simp
    with 0 show ?thesis by (simp add: Cons.IH)
  qed
qed simp

text \<open>A node of the graph: the incident, its alert, the report, or evidence of the run and the incident that
  belongs to the current attempt.\<close>

definition graph_node :: "(observation \<Rightarrow> string) \<Rightarrow> incident \<Rightarrow> run \<Rightarrow> string \<Rightarrow> evidence list \<Rightarrow> node \<Rightarrow> bool" where
  "graph_node show_obs inc r alert evs n \<longleftrightarrow>
     n = incident_node inc alert \<or> n = alert_node inc alert \<or> n = report_node r \<and> run_report_text r \<noteq> None
     \<or> (\<exists>ev \<in> set evs. \<not> other_attempt r ev \<and> (n = retrieval_node show_obs ev \<and> evi_kind ev = ''retrieval''
          \<or> n = chunk_node ev \<and> evi_kind ev = ''document_chunk''))"

lemma graph_node_mono:
  "graph_node show_obs inc r alert evs n \<Longrightarrow> set evs \<subseteq> set evs' \<Longrightarrow> graph_node show_obs inc r alert evs' n"
  unfolding graph_node_def by blast

lemma fold_graph_nodes:
  assumes "\<forall>n \<in> set ns. graph_node show_obs inc r alert all n" and "set evs \<subseteq> set all"
  shows "\<forall>n \<in> set (fst (fold (graph_evidence show_obs r alert) evs (ns, es))). graph_node show_obs inc r alert all n"
  using assms
proof (induction evs arbitrary: ns es)
  case (Cons ev evs)
  obtain ns' es' where step: "graph_evidence show_obs r alert ev (ns, es) = (ns', es')" by fastforce
  then have "\<forall>n \<in> set ns'. graph_node show_obs inc r alert all n"
    using Cons.prems by (auto simp: graph_evidence_def split: if_splits) (auto simp: graph_node_def)
  with step Cons show ?case by simp
qed simp

lemma whole_graph_nodes:
  "\<forall>n \<in> set (fst (whole_graph show_obs inc r alert evs)). graph_node show_obs inc r alert evs n"
  unfolding whole_graph_def by (rule fold_graph_nodes) (auto simp: graph_node_def)

lemma Graph_run:
  assumes "Graph show_obs i run nl el now d = Inr g" and "gr_nodes g \<noteq> []"
  obtains inc r ns es where "get_incident i d = Inr inc" and "get_run (gr_run_id g) d = Inr r"
    and "(gr_run_id g, i) \<in> set (t_run_incidents d)"
    and "whole_graph show_obs inc r (stableID ''alert_'' (gr_run_id g @ i)) (run_evidence (gr_run_id g) i d) = (ns, es)"
    and "gr_nodes g = take (node_bound nl) ns"
    and "gr_edges g = keep_edges (nd_id ` set (gr_nodes g)) (edge_bound el) [] es"
    and "gr_omitted_nodes g = length ns - length (gr_nodes g)" and "gr_omitted_edges g = length es - length (gr_edges g)"
    and "gr_truncated g \<longleftrightarrow> length (gr_nodes g) < length ns \<or> length (gr_edges g) < length es"
proof -
  from assms obtain inc where inc: "get_incident i d = Inr inc" by (auto simp: Graph_def res_bind_eq_Inr)
  define rid where "rid = (if run = [] then deref (inc_latest_run_id inc) else run)"
  have some: "\<not> (run = [] \<and> inc_latest_run_id inc = None)"
  proof
    assume "run = [] \<and> inc_latest_run_id inc = None"
    with assms(1) inc have "g = empty_graph inc" by (simp add: Graph_def)
    with assms(2) show False by (simp add: empty_graph_def)
  qed
  then obtain r where link: "(rid, i) \<in> set (t_run_incidents d)" and r: "get_run rid d = Inr r"
    and g0: "g = bounded_graph r i rid nl el now
      (whole_graph show_obs inc r (stableID ''alert_'' (rid @ i)) (run_evidence rid i d))"
    using assms(1) inc by (auto simp: Graph_def Let_def res_bind_eq_Inr rid_def split: if_splits)
  obtain ns es where w: "whole_graph show_obs inc r (stableID ''alert_'' (rid @ i)) (run_evidence rid i d) = (ns, es)"
    by fastforce
  note g = g0 [unfolded w bounded_graph_def prod.case Let_def]
  show ?thesis by (rule that [of inc r ns es]) (use inc r link w in \<open>simp_all add: g\<close>)
qed

text \<open>The evidence graph is closed and accounts for what it leaves out. It has at most the requested number of
  nodes and edges (60 and 120 by default); both ends of every edge are nodes of the graph; every node is the
  incident, its alert, the published report, or recorded evidence of that run and incident whose attempt, if it
  names one, is the current one; and the omitted counts are exact, with the truncation flag set exactly when
  something is left out.\<close>

theorem Graph_closed:
  assumes run: "Graph show_obs i run nl el now d = Inr g" and ne: "gr_nodes g \<noteq> []"
  shows "length (gr_nodes g) \<le> node_bound nl \<and> length (gr_edges g) \<le> edge_bound el
    \<and> (\<forall>e \<in> set (gr_edges g). eg_source e \<in> nd_id ` set (gr_nodes g) \<and> eg_target e \<in> nd_id ` set (gr_nodes g))
    \<and> (\<exists>inc r ns es. get_incident i d = Inr inc \<and> get_run (gr_run_id g) d = Inr r
         \<and> (\<forall>n \<in> set (gr_nodes g). graph_node show_obs inc r (stableID ''alert_'' (gr_run_id g @ i)) (run_evidence (gr_run_id g) i d) n)
         \<and> whole_graph show_obs inc r (stableID ''alert_'' (gr_run_id g @ i)) (run_evidence (gr_run_id g) i d) = (ns, es)
         \<and> length (gr_nodes g) + gr_omitted_nodes g = length ns \<and> length (gr_edges g) + gr_omitted_edges g = length es)
    \<and> (gr_truncated g \<longleftrightarrow> gr_omitted_nodes g + gr_omitted_edges g \<noteq> 0)"
  using run ne
proof (cases rule: Graph_run)
  case (1 inc r ns es)
  have k: "gr_edges g = take (edge_bound el)
      (filter (\<lambda>e. eg_source e \<in> nd_id ` set (gr_nodes g) \<and> eg_target e \<in> nd_id ` set (gr_nodes g)) es)"
    using 1(6) by (simp add: keep_edges_take)
  have "length (filter P es) \<le> length es" for P by simp
  then have le: "length (gr_edges g) \<le> length es" "length (gr_nodes g) \<le> length ns"
    unfolding k 1(5) by (simp_all add: min_le_iff_disj)
  have nodes: "\<forall>n \<in> set (gr_nodes g). graph_node show_obs inc r (stableID ''alert_'' (gr_run_id g @ i)) (run_evidence (gr_run_id g) i d) n"
    using whole_graph_nodes [of show_obs inc r "stableID ''alert_'' (gr_run_id g @ i)" "run_evidence (gr_run_id g) i d"] 1(4,5)
    by (auto dest: in_set_takeD)
  have ends: "\<forall>e \<in> set (gr_edges g). eg_source e \<in> nd_id ` set (gr_nodes g) \<and> eg_target e \<in> nd_id ` set (gr_nodes g)"
    using k by (metis (no_types, lifting) in_set_takeD mem_Collect_eq set_filter)
  have size: "length (gr_nodes g) \<le> node_bound nl" "length (gr_edges g) \<le> edge_bound el"
    using 1(5) by (simp_all add: k)
  have counts: "length (gr_nodes g) + gr_omitted_nodes g = length ns" "length (gr_edges g) + gr_omitted_edges g = length es"
    using 1(7,8) le by simp_all
  with 1(9) have "gr_truncated g \<longleftrightarrow> gr_omitted_nodes g + gr_omitted_edges g \<noteq> 0" by linarith
  with size ends nodes counts 1(1,2,4) show ?thesis by blast
qed

definition ex_graph_db :: db where
  "ex_graph_db = ex_running\<lparr>t_incidents := [ex_incident\<lparr>ir_id := ''i'',
       ir_data := (ir_data ex_incident)\<lparr>inc_latest_run_id := Some ''r''\<rparr>\<rparr>],
     t_run_incidents := [(''r'', ''i'')]\<rparr>"

lemma ex_graph:
  "\<exists>g. Graph (\<lambda>_. []) ''i'' [] 1 0 5 ex_graph_db = Inr g \<and> length (gr_nodes g) = 1 \<and> gr_omitted_nodes g = 1"
  by (simp add: Graph_def ex_graph_db_def ex_running_def get_incident_def get_run_def tget_def ensure_def deref_def
      bounded_graph_def whole_graph_def run_evidence_def empty_db_def ex_run_def queued_run_def node_bound_def Let_def)

theorem Graph_closed_witness:
  "\<exists>g. Graph (\<lambda>_. []) ''i'' [] 1 0 5 ex_graph_db = Inr g \<and> length (gr_nodes g) = 1 \<and> gr_truncated g
     \<and> length (gr_edges g) \<le> 120"
proof -
  obtain g where g: "Graph (\<lambda>_. []) ''i'' [] 1 0 5 ex_graph_db = Inr g" "length (gr_nodes g) = 1" "gr_omitted_nodes g = 1"
    using ex_graph by blast
  then have "gr_nodes g \<noteq> []" by auto
  from Graph_closed [OF g(1) this] g show ?thesis by (auto simp: edge_bound_def)
qed

section \<open>The summary adds up\<close>

lemma fmt_day_nonempty: "fmt_day t \<noteq> []"
proof -
  have pad: "n \<le> length (pad_int n v)" for n v unfolding pad_int_def pad_def by simp linarith
  obtain y m d where c: "civil_of_days (t div 1000000000 div 86400) = (y, m, d)" by (metis surj_pair)
  have "10 \<le> length (fmt_date_time t)"
    unfolding fmt_date_time_def Let_def c prod.case
    using pad [of 4 y] pad [of 2 m] pad [of 2 d] by simp
  then show ?thesis by (auto simp: fmt_day_def)
qed

definition bucket_sum :: "(bucket \<Rightarrow> nat) \<Rightarrow> buckets \<Rightarrow> nat" where
  "bucket_sum f bs = sum_list (map (f \<circ> snd) bs)"

lemma bucket_sum_update:
  assumes "f zero_bucket = 0"
  shows "bucket_sum f (AList.update day b bs) + f (get_bucket day bs) = bucket_sum f bs + f b"
  using assms by (induction bs) (auto simp: bucket_sum_def get_bucket_def)

lemma bucket_sum_set:
  assumes "f zero_bucket = 0" and "\<And>b. f (g b) = f b + n"
  shows "bucket_sum f (set_bucket day g bs) = bucket_sum f bs + n"
  using bucket_sum_update [of f, OF assms(1), of day "g (get_bucket day bs)" bs] assms(2)
  by (simp add: set_bucket_def)

definition buckets_ok :: "buckets \<Rightarrow> bool" where
  "buckets_ok bs \<longleftrightarrow> distinct (map fst bs) \<and> [] \<notin> set (map fst bs) \<and> (\<forall>b \<in> snd ` set bs. bk_cited b \<le> bk_succeeded b)"

lemma get_bucket_cases: "get_bucket day bs = zero_bucket \<or> get_bucket day bs \<in> snd ` set bs"
  by (auto simp: get_bucket_def split: option.splits dest!: map_of_SomeD intro: rev_image_eqI)

lemma buckets_ok_set:
  assumes "buckets_ok bs" and "day \<noteq> []" and "\<And>b. bk_cited b \<le> bk_succeeded b \<Longrightarrow> bk_cited (f b) \<le> bk_succeeded (f b)"
  shows "buckets_ok (set_bucket day f bs)"
proof -
  have "bk_cited (get_bucket day bs) \<le> bk_succeeded (get_bucket day bs)"
    using get_bucket_cases [of day bs] assms(1) by (auto simp: buckets_ok_def zero_bucket_def)
  then have new: "bk_cited (f (get_bucket day bs)) \<le> bk_succeeded (f (get_bucket day bs))" by (rule assms(3))
  have vals: "b \<in> snd ` set (AList.update day v bs) \<Longrightarrow> b = v \<or> b \<in> snd ` set bs" for b v
    by (induction bs) (auto split: if_splits)
  have "\<forall>b \<in> snd ` set (set_bucket day f bs). bk_cited b \<le> bk_succeeded b"
    unfolding set_bucket_def using vals new assms(1) by (metis buckets_ok_def)
  moreover have "[] \<notin> fst ` set (set_bucket day f bs)"
    using assms(1,2) by (simp add: set_bucket_def dom_update buckets_ok_def)
  moreover have "distinct (map fst (set_bucket day f bs))"
    using assms(1) by (simp add: buckets_ok_def set_bucket_def distinct_update)
  ultimately show ?thesis by (simp add: buckets_ok_def)
qed

lemma bucket_run_fields:
  "bk_succeeded (bucket_run r b) = bk_succeeded b + (if run_status r = ''succeeded'' then 1 else 0)"
  "bk_cited (bucket_run r b) = bk_cited b + (if run_status r = ''succeeded'' \<and> run_citation_ids r \<noteq> [] then 1 else 0)"
  "bk_samples (bucket_run r b) = bk_samples b + (if timed r \<noteq> None then 1 else 0)"
  "bk_received (bucket_run r b) = bk_received b"
  by (auto simp: bucket_run_def Let_def split: option.splits)

definition counts_ok :: "run_counts \<Rightarrow> bool" where
  "counts_ok c \<longleftrightarrow> buckets_ok (rc_buckets c) \<and> rc_cited c \<le> rc_success c
     \<and> bucket_sum bk_succeeded (rc_buckets c) = rc_success c \<and> bucket_sum bk_cited (rc_buckets c) = rc_cited c
     \<and> bucket_sum bk_samples (rc_buckets c) = rc_samples c"

lemma counts_ok_run:
  assumes "count_run scope begin_t end_t r c = Inr c'" and "counts_ok c"
  shows "counts_ok c' \<and> bucket_sum bk_received (rc_buckets c') = bucket_sum bk_received (rc_buckets c)"
proof (cases "c' = c")
  case False
  let ?day = "dayOf (run_received_at r)"
  from assms(1) False obtain t where "parse_nano (run_received_at r) = Some t"
    by (auto simp: count_run_def res_bind_eq_Inr res_of_def split: if_splits option.splits)
  then have day: "?day \<noteq> []" using fmt_day_nonempty by (simp add: dayOf_def)
  from assms(1) False have b: "rc_buckets c' = set_bucket ?day (bucket_run r) (rc_buckets c)"
    and "rc_success c' = rc_success c + (if run_status r = ''succeeded'' then 1 else 0)"
    and "rc_cited c' = rc_cited c + (if run_status r = ''succeeded'' \<and> run_citation_ids r \<noteq> [] then 1 else 0)"
    and "rc_samples c' = rc_samples c + (if timed r \<noteq> None then 1 else 0)"
    by (auto simp: count_run_def res_bind_eq_Inr Let_def split: if_splits)
  moreover have "buckets_ok (set_bucket ?day (bucket_run r) (rc_buckets c))"
    by (rule buckets_ok_set) (use assms(2) day in \<open>auto simp: counts_ok_def bucket_run_fields\<close>)
  moreover have "bucket_sum bk_succeeded (rc_buckets c') = bucket_sum bk_succeeded (rc_buckets c) + (if run_status r = ''succeeded'' then 1 else 0)"
    "bucket_sum bk_cited (rc_buckets c') = bucket_sum bk_cited (rc_buckets c) + (if run_status r = ''succeeded'' \<and> run_citation_ids r \<noteq> [] then 1 else 0)"
    "bucket_sum bk_samples (rc_buckets c') = bucket_sum bk_samples (rc_buckets c) + (if timed r \<noteq> None then 1 else 0)"
    "bucket_sum bk_received (rc_buckets c') = bucket_sum bk_received (rc_buckets c) + 0"
    unfolding b by (rule bucket_sum_set, simp add: zero_bucket_def, simp only: bucket_run_fields)+
  ultimately show ?thesis using assms(2) by (simp add: counts_ok_def)
qed (use assms(2) in simp)

lemma receive_incident_ok:
  assumes "buckets_ok bs"
  shows "buckets_ok (receive_incident i bs)
    \<and> bucket_sum bk_succeeded (receive_incident i bs) = bucket_sum bk_succeeded bs
    \<and> bucket_sum bk_cited (receive_incident i bs) = bucket_sum bk_cited bs
    \<and> bucket_sum bk_samples (receive_incident i bs) = bucket_sum bk_samples bs
    \<and> bucket_sum bk_received (receive_incident i bs)
        = bucket_sum bk_received bs + (if dayOf (inc_first_received_at i) = [] then 0 else 1)"
proof (cases "dayOf (inc_first_received_at i) = []")
  case False
  let ?f = "\<lambda>b :: bucket. b\<lparr>bk_received := bk_received b + 1\<rparr>"
  have eq: "receive_incident i bs = set_bucket (dayOf (inc_first_received_at i)) ?f bs"
    using False by (simp add: receive_incident_def)
  have "buckets_ok (receive_incident i bs)"
    unfolding eq by (rule buckets_ok_set [OF assms False]) simp
  with False bucket_sum_set [of bk_succeeded ?f 0] bucket_sum_set [of bk_cited ?f 0] bucket_sum_set [of bk_samples ?f 0]
    bucket_sum_set [of bk_received ?f 1]
  show ?thesis unfolding eq by (simp add: zero_bucket_def)
qed (use assms in \<open>simp add: receive_incident_def\<close>)

lemma receive_all_ok:
  assumes "buckets_ok bs"
  shows "buckets_ok (fold receive_incident is bs)
    \<and> bucket_sum bk_succeeded (fold receive_incident is bs) = bucket_sum bk_succeeded bs
    \<and> bucket_sum bk_cited (fold receive_incident is bs) = bucket_sum bk_cited bs
    \<and> bucket_sum bk_samples (fold receive_incident is bs) = bucket_sum bk_samples bs
    \<and> bucket_sum bk_received (fold receive_incident is bs)
        = bucket_sum bk_received bs + length (filter (\<lambda>i. dayOf (inc_first_received_at i) \<noteq> []) is)"
  using assms
proof (induction "is" arbitrary: bs)
  case (Cons i "is")
  with receive_incident_ok [OF Cons.prems, of i] show ?case by simp
qed simp

lemma history_sum:
  assumes "buckets_ok bs"
  shows "sum_list (map (\<lambda>day. f (get_bucket day bs)) (history_days bs)) = bucket_sum f bs"
proof -
  have dist: "distinct (map fst bs)" using assms by (simp add: buckets_ok_def)
  have days: "filter (\<lambda>day. day \<noteq> []) (map fst bs) = map fst bs"
    using assms unfolding buckets_ok_def filter_id_conv by metis
  have "map (\<lambda>day. f (get_bucket day bs)) (map fst bs) = map (f \<circ> snd) bs"
    using dist by (auto simp: get_bucket_def)
  then have "sum_list (map (\<lambda>day. f (get_bucket day bs)) (map fst bs)) = bucket_sum f bs"
    unfolding bucket_sum_def by (rule arg_cong)
  moreover have "mset (map (\<lambda>day. f (get_bucket day bs)) (history_days bs)) = mset (map (\<lambda>day. f (get_bucket day bs)) (map fst bs))"
    unfolding history_days_def days by (simp only: mset_map mset_sort)
  ultimately show ?thesis by (metis sum_mset_sum_list)
qed

text \<open>The summary adds up. The rows of the history are in strictly ascending order of their days; the succeeded
  runs, the cited ones and the latency samples of the rows sum to the totals; every incident whose arrival time
  parses is counted in exactly one row; and no row and no total counts more cited runs than succeeded ones, so a
  coverage is never above one.\<close>

theorem SummaryWindow_adds_up:
  assumes "SummaryWindow incidents from to d = Inr su"
  shows "(\<exists>days. map hy_timestamp (su_history su) = map (\<lambda>day. day @ ''T00:00:00Z'') days \<and> sorted_wrt (<) days)
    \<and> sum_list (map hy_succeeded_runs (su_history su)) = su_succeeded_runs su
    \<and> sum_list (map hy_cited_succeeded_runs (su_history su)) = su_cited_succeeded_runs su
    \<and> sum_list (map hy_latency_samples (su_history su)) = su_latency_samples su
    \<and> sum_list (map hy_received_incidents (su_history su)) = length (filter (\<lambda>i. dayOf (inc_first_received_at i) \<noteq> []) incidents)
    \<and> su_cited_succeeded_runs su \<le> su_succeeded_runs su
    \<and> (\<forall>h \<in> set (su_history su). hy_cited_succeeded_runs h \<le> hy_succeeded_runs h)"
proof -
  let ?bs0 = "fold receive_incident incidents []"
  let ?c0 = "\<lparr> rc_success = 0, rc_cited = 0, rc_samples = 0, rc_total = 0, rc_buckets = ?bs0 \<rparr>"
  from assms obtain b e c rc where
    rc: "fold_res (count_run (inc_id ` set incidents) b e) (list_runs d) ?c0 = Inr rc"
    and su: "su_succeeded_runs su = rc_success rc" "su_cited_succeeded_runs su = rc_cited rc"
      "su_latency_samples su = rc_samples rc"
      "su_history su = map (history_of (rc_buckets rc)) (history_days (rc_buckets rc))"
    by (auto simp: SummaryWindow_def res_bind_eq_Inr)
  have "buckets_ok ([] :: buckets)" by (simp add: buckets_ok_def)
  note r = receive_all_ok [OF this, of incidents]
  have zero: "bucket_sum f [] = 0" for f by (simp add: bucket_sum_def)
  have "counts_ok rc \<and> bucket_sum bk_received (rc_buckets rc) = bucket_sum bk_received ?bs0"
    by (rule fold_res_invariant [OF rc]) (use r zero counts_ok_run in \<open>auto simp: counts_ok_def\<close>)
  then have ok: "buckets_ok (rc_buckets rc)" and counts: "counts_ok rc"
    and rcv: "bucket_sum bk_received (rc_buckets rc) = length (filter (\<lambda>i. dayOf (inc_first_received_at i) \<noteq> []) incidents)"
    using r zero by (simp_all add: counts_ok_def)
  note hs = history_sum [OF ok]
  have sums: "sum_list (map hy_succeeded_runs (su_history su)) = bucket_sum bk_succeeded (rc_buckets rc)"
    "sum_list (map hy_cited_succeeded_runs (su_history su)) = bucket_sum bk_cited (rc_buckets rc)"
    "sum_list (map hy_latency_samples (su_history su)) = bucket_sum bk_samples (rc_buckets rc)"
    "sum_list (map hy_received_incidents (su_history su)) = bucket_sum bk_received (rc_buckets rc)"
    unfolding su(4) using hs [of bk_succeeded] hs [of bk_cited] hs [of bk_samples] hs [of bk_received]
    by (simp_all add: history_of_def comp_def Let_def)
  have sorted: "sorted_wrt (<) (history_days (rc_buckets rc))"
    using ok unfolding history_days_def by (simp add: buckets_ok_def strict_sorted_iff distinct_filter)
  have stamps: "map hy_timestamp (su_history su) = map (\<lambda>day. day @ ''T00:00:00Z'') (history_days (rc_buckets rc))"
    by (simp add: su(4) history_of_def Let_def comp_def)
  have "bk_cited (get_bucket day (rc_buckets rc)) \<le> bk_succeeded (get_bucket day (rc_buckets rc))" for day
    using get_bucket_cases [of day "rc_buckets rc"] ok by (auto simp: buckets_ok_def zero_bucket_def)
  then have rows: "\<forall>h \<in> set (su_history su). hy_cited_succeeded_runs h \<le> hy_succeeded_runs h"
    by (auto simp: su(4) history_of_def Let_def)
  from counts have totals: "rc_cited rc \<le> rc_success rc" "bucket_sum bk_succeeded (rc_buckets rc) = rc_success rc"
    "bucket_sum bk_cited (rc_buckets rc) = rc_cited rc" "bucket_sum bk_samples (rc_buckets rc) = rc_samples rc"
    by (simp_all add: counts_ok_def)
  show ?thesis using stamps sorted sums totals rcv rows by (auto simp: su(1-3))
qed

lemma ex_summary: "\<exists>su. SummaryWindow [ir_data ex_incident] [] [] ex_running = Inr su \<and> su_active_incidents su = 1"
  by (simp add: SummaryWindow_def window_bound_def count_incident_def ex_incident_def new_incident_def
      count_run_def list_runs_def desc_def ex_running_def ex_run_def queued_run_def res_bind_def fold_res.simps)

theorem SummaryWindow_adds_up_witness:
  "\<exists>su. SummaryWindow [ir_data ex_incident] [] [] ex_running = Inr su \<and> su_active_incidents su = 1
     \<and> sum_list (map hy_received_incidents (su_history su))
         = length (filter (\<lambda>i. dayOf (inc_first_received_at i) \<noteq> []) [ir_data ex_incident])"
proof -
  obtain su where su: "SummaryWindow [ir_data ex_incident] [] [] ex_running = Inr su" "su_active_incidents su = 1"
    using ex_summary by blast
  from SummaryWindow_adds_up [OF su(1)] su show ?thesis by simp
qed

end
