(* ===== verification/Api.thy ===== *)
theory Api
  imports Web System ReadModel
begin

text \<open>
  The handlers of the HTTP surface (\<open>src/internal/handler/workspace.go\<close>).

  A handler is a function of its environment, the request and the state of the dispatcher (the database, the retrieval
  projection and the queue); handlers that only read get the database. The environment holds what is outside the process:
  the JSON reader and printer, the clock at the two moments it is read, the configured service, the answers of the queue,
  the embedding service and the vector store, and the demo directory. \<open>ap_source_ready = None\<close> is a service without a
  readiness probe.

  A response keeps the status, the data and the revision of its metadata; \<open>wsOK\<close>'s time stamp, its request identifier
  and its constant fields are not modelled. Handlers have the suffix \<open>_http\<close>, since several share their name with the
  operation they call. List queries do not fail in the model: an I/O failure of SQLite is not modelled.
\<close>

record api_env =
  ap_ctx :: "ws_error option"
  ap_parse :: "string \<Rightarrow> json option"
  ap_marshal :: "json \<Rightarrow> string"
  ap_now :: time
  ap_dispatch_now :: time
  ap_service :: service
  ap_queue :: dispatch_env
  ap_put :: put_env
  ap_source_ready :: "bool option"
  ap_show_obs :: "observation \<Rightarrow> string"
  ap_demo :: "dir_entry list ws"
  ap_demo_ctx :: "string \<Rightarrow> ws_error option"

record 'a reply =
  rp_status :: nat
  rp_data :: 'a
  rp_revision :: nat

definition wsOK :: "nat \<Rightarrow> 'a \<Rightarrow> nat \<Rightarrow> 'a reply" where
  "wsOK status data revision = \<lparr> rp_status = status, rp_data = data, rp_revision = revision \<rparr>"

definition wsJSON :: "api_env \<Rightarrow> (json option \<Rightarrow> 'a ws) \<Rightarrow> nat \<Rightarrow> web_request \<Rightarrow> 'a web" where
  "wsJSON env decode mx rq =
     res_bind (wsBody mx rq) (\<lambda>b.
       case decode (ap_parse env b) of Inl _ \<Rightarrow> Inl invalid_request | Inr x \<Rightarrow> Inr x)"

section \<open>Status\<close>

record api_config =
  cf_embedder_model :: string
  cf_embedder_host :: string
  cf_embedder_port :: int
  cf_collection :: string
  cf_ui_mode :: string

text \<open>The handler's own state, under \<open>statusMu\<close>.\<close>

record status_state =
  st_topology :: bool
  st_metrics :: bool
  st_last_success :: "(string \<times> string) list"

definition setM2Capabilities :: "bool \<Rightarrow> bool \<Rightarrow> status_state \<Rightarrow> status_state" where
  "setM2Capabilities topology metrics st = st\<lparr>st_topology := topology, st_metrics := metrics\<rparr>"

record dependency_view =
  dv_data_state :: string
  dv_last_success_at :: "string option"
  dv_last_checked_at :: "string option"

definition dependency :: "string \<Rightarrow> string \<Rightarrow> time \<Rightarrow> status_state \<Rightarrow> dependency_view \<times> status_state" where
  "dependency name state now st =
     (let st' = (if state = ''fresh''
                 then st\<lparr>st_last_success := (name, fmt_nano now) # filter (\<lambda>(n, _). n \<noteq> name) (st_last_success st)\<rparr> else st);
          v = (case map_of (st_last_success st') name of None \<Rightarrow> [] | Some v \<Rightarrow> v)
      in (\<lparr> dv_data_state = state, dv_last_success_at = (if v = [] then None else Some v), dv_last_checked_at = None \<rparr>, st'))"

definition fingerprint :: "api_config \<Rightarrow> string" where
  "fingerprint c = hash (json_strings [cf_embedder_model c, cf_embedder_host c, itoa (cf_embedder_port c), cf_collection c, cf_ui_mode c])"

record status_view =
  sw_topology :: string
  sw_metrics :: string
  sw_sqlite :: dependency_view
  sw_queue :: dependency_view
  sw_retrieval :: dependency_view
  sw_prometheus :: dependency_view
  sw_fingerprint :: string

definition available :: "bool \<Rightarrow> string" where
  "available b = (if b then ''available'' else ''not_configured'')"

definition fresh :: "bool \<Rightarrow> string" where
  "fresh b = (if b then ''fresh'' else ''unavailable'')"

text \<open>\<open>firing\<close> is whether there is a Prometheus client and its query answers, \<open>probed\<close> the times of the retrieval
  probe, if there is one.\<close>

definition Status_http :: "api_env \<Rightarrow> api_config \<Rightarrow> bool \<Rightarrow> (string option \<times> string option) option \<Rightarrow> status_state \<Rightarrow>
    status_view reply web \<times> status_state" where
  "Status_http env cfg firing probed st =
     (let now = ap_now env;
          (retrieval, st1) = dependency ''retrieval'' (fresh (ap_source_ready env = Some True)) now st;
          retrieval' = (case probed of
              None \<Rightarrow> retrieval
            | Some (checked, succeeded) \<Rightarrow> retrieval\<lparr>dv_last_checked_at := checked, dv_last_success_at := succeeded\<rparr>);
          (sqlite, st2) = dependency ''sqlite'' ''fresh'' now st1;
          (queue, st3) = dependency ''queue'' (fresh (Ready (ap_queue env))) now st2;
          (prometheus, st4) = dependency ''prometheus'' (fresh firing) now st3
      in (Inr (wsOK 200 \<lparr> sw_topology = available (st_topology st), sw_metrics = available (st_metrics st),
                sw_sqlite = sqlite, sw_queue = queue, sw_retrieval = retrieval', sw_prometheus = prometheus,
                sw_fingerprint = fingerprint cfg \<rparr> 1), st4))"

section \<open>Incidents\<close>

definition time_param :: "web_request \<Rightarrow> string \<Rightarrow> string web" where
  "time_param rq field =
     (let v = query_of rq field in
      if v = [] then Inr []
      else case parse_nano v of None \<Rightarrow> Inl invalid_request | Some t \<Rightarrow> Inr (fmt_nano t))"

definition incident_selected :: "web_request \<Rightarrow> string \<Rightarrow> string \<Rightarrow> incident \<Rightarrow> bool" where
  "incident_selected rq from_t to_t i \<longleftrightarrow>
     (let q = to_lower (trim_space (query_of rq ''query'')); e = query_of rq ''environment'';
          v = query_of rq ''service''; status = query_of rq ''status''
      in \<not> (q \<noteq> [] \<and> \<not> contains (to_lower (inc_name i @ '' '' @ inc_service i @ '' '' @ inc_environment i)) q)
         \<and> \<not> (e \<noteq> [] \<and> e \<noteq> inc_environment i)
         \<and> \<not> (v \<noteq> [] \<and> v \<noteq> inc_service i)
         \<and> \<not> (status \<noteq> [] \<and> status \<noteq> inc_lifecycle_status i)
         \<and> \<not> (from_t \<noteq> [] \<and> compareStamp (inc_first_received_at i) from_t < 0)
         \<and> \<not> (to_t \<noteq> [] \<and> compareStamp (inc_first_received_at i) to_t > 0))"

definition incidentFilter :: "web_request \<Rightarrow> incident list \<Rightarrow> incident list web" where
  "incidentFilter rq items =
     res_bind (time_param rq ''from'') (\<lambda>from_t.
     res_bind (time_param rq ''to'') (\<lambda>to_t.
       guard (\<not> (from_t \<noteq> [] \<and> to_t \<noteq> [] \<and> compareStamp from_t to_t > 0)) invalid_request
       (guard (query_of rq ''status'' \<in> {[], ''active'', ''resolved'', ''unknown''}) invalid_request
         (Inr (filter (incident_selected rq from_t to_t) items)))))"

definition incident_key :: "incident \<Rightarrow> string \<times> string" where
  "incident_key i = (inc_first_received_at i, inc_id i)"

definition Incidents_http :: "api_env \<Rightarrow> web_request \<Rightarrow> db \<Rightarrow> (incident list \<times> bool \<times> string option) reply web" where
  "Incidents_http env rq d =
     res_bind (incidentFilter rq (list_incidents d)) (\<lambda>items.
     res_bind (pageItems (ap_parse env) rq items incident_key) (\<lambda>p. Inr (wsOK 200 p 1)))"

record summary_view =
  sm_summary :: summary
  sm_environments :: "string list"
  sm_services :: "string list"
  sm_severities :: "(string \<times> nat) list"

text \<open>A Go map is iterated in any order, so the facets are sorted and the severities form a map.\<close>

definition Summary_http :: "api_env \<Rightarrow> web_request \<Rightarrow> db \<Rightarrow> summary_view reply web" where
  "Summary_http env rq d =
     (let items = list_incidents d; e = query_of rq ''environment'';
          envs = sort (remdups (map inc_environment items));
          services = sort (remdups (map inc_service (filter (\<lambda>i. e = [] \<or> e = inc_environment i) items)))
      in res_bind (incidentFilter rq items) (\<lambda>items.
         res_bind (web_of (ap_ctx env) (SummaryWindow items (query_of rq ''from'') (query_of rq ''to'') d)) (\<lambda>s.
           Inr (wsOK 200 \<lparr> sm_summary = s, sm_environments = envs, sm_services = services,
                  sm_severities = map (\<lambda>v. (v, length (filter (\<lambda>i. inc_severity i = v) items))) (remdups (map inc_severity items)) \<rparr> 1))))"

definition Incident_http :: "api_env \<Rightarrow> web_request \<Rightarrow> db \<Rightarrow> (incident \<times> run list) reply web" where
  "Incident_http env rq d =
     res_bind (web_of (ap_ctx env) (get_incident (wr_param rq ''id'') d)) (\<lambda>i.
       let runs = filter (\<lambda>r. inc_id i \<in> set (run_incident_ids r)) (list_runs d); rid = query_of rq ''run_id'' in
       guard (rid = [] \<or> (\<exists>r \<in> set runs. run_id r = rid)) (wsError 404 ''not_found'' False)
         (Inr (wsOK 200 (i, runs) 1)))"

section \<open>Runs, events and evidence\<close>

definition quoted :: "string \<Rightarrow> string" where
  "quoted s = CHR 0x22 # s @ [CHR 0x22]"

text \<open>The run with its \<open>ETag\<close>.\<close>

definition Run_http :: "api_env \<Rightarrow> web_request \<Rightarrow> db \<Rightarrow> (run \<times> string) reply web" where
  "Run_http env rq d =
     res_bind (web_of (ap_ctx env) (get_run (wr_param rq ''id'') d)) (\<lambda>r.
       Inr (wsOK 200 (r, quoted (dec (run_revision r))) (run_revision r)))"

record events_view =
  es_items :: "event list"
  es_more :: bool
  es_next :: int

definition Events_http :: "api_env \<Rightarrow> web_request \<Rightarrow> db \<Rightarrow> events_view reply web" where
  "Events_http env rq d =
     res_bind (web_of (ap_ctx env) (get_run (wr_param rq ''id'') d)) (\<lambda>r.
     res_bind (wsInt ''after_sequence'' 0 0 (2 ^ 30) rq) (\<lambda>after.
     res_bind (wsInt ''limit'' 100 1 200 rq) (\<lambda>limit.
       let items = list_events (run_id r) after (limit + 1) d;
           more_items = limit < int (length items);
           items' = (if more_items then take (nat limit) items else items);
           nxt = (if items' = [] then after else int (ev_sequence (last items')))
       in Inr (wsOK 200 \<lparr> es_items = items', es_more = more_items, es_next = nxt \<rparr> (run_revision r)))))"

definition Evidence_http :: "api_env \<Rightarrow> web_request \<Rightarrow> db \<Rightarrow> evidence reply web" where
  "Evidence_http env rq d =
     res_bind (web_of (ap_ctx env) (get_evidence (wr_param rq ''id'') d)) (\<lambda>ev. Inr (wsOK 200 ev 1))"

section \<open>The graph around a focus\<close>

definition spread :: "edge list \<Rightarrow> string set \<Rightarrow> string set" where
  "spread es visible = visible \<union> eg_target ` set (filter (\<lambda>e. eg_source e \<in> visible) es)
     \<union> eg_source ` set (filter (\<lambda>e. eg_target e \<in> visible) es)"

definition focus_of :: "web_request \<Rightarrow> string" where
  "focus_of rq = (if query_of rq ''focus_id'' = [] then wr_param rq ''id'' else query_of rq ''focus_id'')"

definition visible_nodes :: "web_request \<Rightarrow> nat \<Rightarrow> graph \<Rightarrow> string set" where
  "visible_nodes rq depth g =
     (spread (gr_edges g) ^^ depth)
       (insert (focus_of rq)
         (if query_of rq ''focus_id'' = [] \<and> query_of rq ''depth'' = [] then nd_id ` set (gr_nodes g) else {}))"

definition cut_graph :: "string set \<Rightarrow> nat \<Rightarrow> nat \<Rightarrow> graph \<Rightarrow> graph" where
  "cut_graph visible nodes edges g =
     (let kn = take nodes (filter (\<lambda>n. nd_id n \<in> visible) (gr_nodes g));
          ke = keep_edges (nd_id ` set kn) edges [] (gr_edges g);
          on = gr_omitted_nodes g + (length (gr_nodes g) - length kn);
          oe = gr_omitted_edges g + (length (gr_edges g) - length ke)
      in g\<lparr>gr_nodes := kn, gr_edges := ke, gr_omitted_nodes := on, gr_omitted_edges := oe,
           gr_truncated := (gr_truncated g \<or> on > 0 \<or> oe > 0)\<rparr>)"

definition Graph_http :: "api_env \<Rightarrow> web_request \<Rightarrow> db \<Rightarrow> graph reply web" where
  "Graph_http env rq d =
     res_bind (wsInt ''depth'' 1 1 2 rq) (\<lambda>depth.
     res_bind (wsInt ''node_limit'' 60 1 300 rq) (\<lambda>nodes.
     res_bind (wsInt ''edge_limit'' 120 1 600 rq) (\<lambda>edges.
     res_bind (web_of (ap_ctx env) (Graph (ap_show_obs env) (wr_param rq ''id'') (query_of rq ''run_id'') 300 600 (ap_now env) d)) (\<lambda>g.
       guard (focus_of rq \<in> nd_id ` set (gr_nodes g) \<or> (gr_nodes g = [] \<and> query_of rq ''focus_id'' = []))
         (wsError 400 ''invalid_focus'' False)
         (Inr (wsOK 200 (cut_graph (visible_nodes rq (nat depth) g) (nat nodes) (nat edges) g) (gr_revision g)))))))"

section \<open>Re-diagnosis\<close>

definition reread :: "run \<Rightarrow> db \<Rightarrow> run" where
  "reread r d = (case get_run (run_id r) d of Inl _ \<Rightarrow> r | Inr latest \<Rightarrow> latest)"

definition ReDiagnose_http :: "api_env \<Rightarrow> web_request \<Rightarrow> dstate \<Rightarrow> run reply web \<times> dstate" where
  "ReDiagnose_http env rq s =
     (let key = trim_space (wr_header rq ''Idempotency-Key'') in
      if key = [] \<or> length key > 200 then (Inl invalid_request, s)
      else case wsBody (32 * 1024) rq of
        Inl e \<Rightarrow> (Inl e, s)
      | Inr b \<Rightarrow>
          (case ap_parse env (if trim_space b = [] then ''{}'' else b) of
             None \<Rightarrow> (Inl invalid_request, s)
           | Some body \<Rightarrow>
               (case ReDiagnose (wr_param rq ''id'') key (ap_marshal env body) (Ready (ap_queue env)) (ap_now env) (ds_db s) of
                  Inl e \<Rightarrow> (Inl (wsFail (ap_ctx env) e), s)
                | Inr (r, d) \<Rightarrow>
                    (let s' = snd (Dispatch (ap_queue env) (ap_dispatch_now env) (put_db d s)); r' = reread r (ds_db s')
                     in (Inr (wsOK 202 r' (run_revision r')), s')))))"

section \<open>Documents\<close>

definition Documents_http :: "api_env \<Rightarrow> web_request \<Rightarrow> db \<Rightarrow> (document list \<times> bool \<times> string option) reply web" where
  "Documents_http env rq d =
     (let source = query_of rq ''source_kind''; q = to_lower (query_of rq ''query'') in
      guard (source \<in> {[], ''demo'', ''upload'', ''incident''}) invalid_request
        (res_bind (pageItems (ap_parse env) rq
            (filter (\<lambda>x. \<not> (source \<noteq> [] \<and> source \<noteq> doc_source_kind x) \<and> \<not> (q \<noteq> [] \<and> \<not> contains (to_lower (doc_title x)) q))
              (list_documents d))
            (\<lambda>x. ([], doc_id x))) (\<lambda>p. Inr (wsOK 200 p 1))))"

definition Versions_http :: "api_env \<Rightarrow> web_request \<Rightarrow> db \<Rightarrow> (version list \<times> bool \<times> string option) reply web" where
  "Versions_http env rq d =
     res_bind (web_of (ap_ctx env) (get_document (wr_param rq ''id'') d)) (\<lambda>_.
     res_bind (pageItems (ap_parse env) rq (list_versions (wr_param rq ''id'') d) (\<lambda>v. (ver_created_at v, ver_id v)))
       (\<lambda>p. Inr (wsOK 200 p 1)))"

definition Version_http :: "api_env \<Rightarrow> web_request \<Rightarrow> db \<Rightarrow> version reply web" where
  "Version_http env rq d =
     res_bind (web_of (ap_ctx env) (get_version (wr_param rq ''version'') d)) (\<lambda>v.
       guard (ver_document_id v = wr_param rq ''id'') (wsError 404 ''not_found'' False) (Inr (wsOK 200 v 1)))"

record document_req =
  dq_title :: string
  dq_content :: string
  dq_source :: string
  dq_environment :: string

definition decode_document_req :: "json option \<Rightarrow> document_req ws" where
  "decode_document_req j =
     (case j of
        Some JNull \<Rightarrow> Inr \<lparr> dq_title = [], dq_content = [], dq_source = [], dq_environment = [] \<rparr>
      | Some (JObj kvs) \<Rightarrow>
          res_bind (str_field ''title'' kvs) (\<lambda>t.
          res_bind (str_field ''content'' kvs) (\<lambda>c.
          res_bind (str_field ''source_kind'' kvs) (\<lambda>k.
          res_bind (str_field ''environment'' kvs) (\<lambda>e.
            Inr \<lparr> dq_title = t, dq_content = c, dq_source = k, dq_environment = e \<rparr>))))
      | _ \<Rightarrow> Inl ErrJSON)"

definition trim_quotes :: "string \<Rightarrow> string" where
  "trim_quotes s = rev (dropWhile (\<lambda>c. c = CHR 0x22) (rev (dropWhile (\<lambda>c. c = CHR 0x22) s)))"

definition ifMatch :: "web_request \<Rightarrow> string web" where
  "ifMatch rq = (let v = trim_quotes (wr_header rq ''If-Match'') in guard (v \<noteq> [] \<and> v \<noteq> ''*'') invalid_request (Inr v))"

text \<open>What the checks of \<open>writeDocument\<close> let through: the request, the expected version and the key.\<close>

definition check_write :: "api_env \<Rightarrow> bool \<Rightarrow> web_request \<Rightarrow> (document_req \<times> string \<times> string) web" where
  "check_write env update rq =
     res_bind (wsJSON env decode_document_req (600 * 1024) rq) (\<lambda>q.
       guard (length (dq_content q) \<le> 512 * 1024) (wsError 413 ''body_too_large'' False)
       (guard (trim_space (dq_title q) \<noteq> [] \<and> trim_space (dq_content q) \<noteq> [] \<and> length (dq_title q) \<le> 512) invalid_request
       (guard (dq_source q = [] \<or> dq_source q = ''upload'') invalid_request
         (let key = trim_space (wr_header rq ''Idempotency-Key'') in
          res_bind (if update then ifMatch rq
                    else guard (key \<noteq> [] \<and> length key \<le> 200) invalid_request (Inr [])) (\<lambda>expected.
            guard (ap_source_ready env \<noteq> Some False) (wsFail (ap_ctx env) ErrUnavailable)
              (Inr (q, expected, key)))))))"

definition writeDocument :: "api_env \<Rightarrow> bool \<Rightarrow> web_request \<Rightarrow> dstate \<Rightarrow> (document \<times> version \<times> string) reply web \<times> dstate" where
  "writeDocument env update rq s =
     (case check_write env update rq of
        Inl e \<Rightarrow> (Inl e, s)
      | Inr (q, expected, key) \<Rightarrow>
          (case PutDocument (ap_service env) (ap_put env) (if update then wr_param rq ''id'' else []) (dq_title q) (dq_content q)
                  ''upload'' (dq_environment q) expected key (ap_now env) (ds_k s) of
             ((Some e, _, _), k) \<Rightarrow> (Inl (wsFail (ap_ctx env) e), s\<lparr>ds_k := k\<rparr>)
           | ((None, doc, v), k) \<Rightarrow>
               (Inr (wsOK (if update then 200 else 201) (doc, v, quoted (ver_id v)) 1), s\<lparr>ds_k := k\<rparr>)))"

definition CreateDocument_http :: "api_env \<Rightarrow> web_request \<Rightarrow> dstate \<Rightarrow> (document \<times> version \<times> string) reply web \<times> dstate" where
  "CreateDocument_http env rq s = writeDocument env False rq s"

definition UpdateDocument_http :: "api_env \<Rightarrow> web_request \<Rightarrow> dstate \<Rightarrow> (document \<times> version \<times> string) reply web \<times> dstate" where
  "UpdateDocument_http env rq s = writeDocument env True rq s"

definition deleted_status :: "document \<Rightarrow> nat" where
  "deleted_status doc = (if doc_index_status doc = ''cleanup_pending'' then 202 else 200)"

definition DeleteDocument_http :: "api_env \<Rightarrow> web_request \<Rightarrow> dstate \<Rightarrow> document reply web \<times> dstate" where
  "DeleteDocument_http env rq s =
     (case ifMatch rq of
        Inl e \<Rightarrow> (Inl e, s)
      | Inr expected \<Rightarrow>
          (case DeleteDocument (ap_service env) (wr_param rq ''id'') expected (ap_now env) (ds_k s) of
             ((Some e, _), k) \<Rightarrow> (Inl (wsFail (ap_ctx env) e), s\<lparr>ds_k := k\<rparr>)
           | ((None, doc), k) \<Rightarrow> (Inr (wsOK (deleted_status doc) doc 1), s\<lparr>ds_k := k\<rparr>)))"

section \<open>The alert webhook\<close>

text \<open>A start time, when there is one, is an instant; a recovery has both times, in order.\<close>

definition alert_times :: "observation \<Rightarrow> bool" where
  "alert_times o1 \<longleftrightarrow>
     (obs_starts_at o1 = [] \<or> parse_nano (obs_starts_at o1) \<noteq> None)
     \<and> (obs_status o1 = ''resolved'' \<longrightarrow> obs_starts_at o1 \<noteq> []
        \<and> (case (parse_nano (obs_starts_at o1), parse_nano (obs_ends_at o1)) of
             (Some b, Some e) \<Rightarrow> \<not> e < b | _ \<Rightarrow> False))"

datatype alert_reply =
    Accepted nat
  | Enqueued string string nat bool string

definition alert_status :: "string \<Rightarrow> string" where
  "alert_status status = (if status = ''succeeded'' then ''done'' else status)"

definition Alert_http :: "api_env \<Rightarrow> web_request \<Rightarrow> dstate \<Rightarrow> (nat \<times> alert_reply) web \<times> dstate" where
  "Alert_http env rq s =
     (case wsBody (2 ^ 20) rq of
        Inl e \<Rightarrow> (Inl e, s)
      | Inr b \<Rightarrow>
          (case ParseObservations (ap_parse env b) of
             Inl _ \<Rightarrow> (Inl invalid_request, s)
           | Inr obs \<Rightarrow>
               if \<not> list_all alert_times obs then (Inl invalid_request, s)
               else (case Admit obs (Ready (ap_queue env)) (ap_now env) (ds_db s) of
                  Inl e \<Rightarrow> (Inl (wsFail (ap_ctx env) e), s)
                | Inr ((None, _), d) \<Rightarrow> (Inr (200, Accepted (length obs)), put_db d s)
                | Inr ((Some r, dup), d) \<Rightarrow>
                    (let s' = snd (Dispatch (ap_queue env) (ap_dispatch_now env) (put_db d s)); r' = reread r (ds_db s')
                     in (Inr (202, Enqueued (run_id r') (alert_status (run_status r')) (length obs) dup (run_dispatch_state r')), s')))))"

section \<open>The legacy routes\<close>

definition Reports_http :: "api_env \<Rightarrow> db \<Rightarrow> (legacy_report list \<times> nat) web" where
  "Reports_http env d = web_of (ap_ctx env) (res_bind (LegacyReports (ap_parse env) (ap_service env) d) (\<lambda>rs. Inr (rs, length rs)))"

record upload_req =
  uq_title :: string
  uq_content :: string

definition decode_upload_req :: "json option \<Rightarrow> upload_req ws" where
  "decode_upload_req j =
     (case j of
        Some JNull \<Rightarrow> Inr \<lparr> uq_title = [], uq_content = [] \<rparr>
      | Some (JObj kvs) \<Rightarrow>
          res_bind (str_field ''title'' kvs) (\<lambda>t. res_bind (str_field ''content'' kvs) (\<lambda>c. Inr \<lparr> uq_title = t, uq_content = c \<rparr>))
      | _ \<Rightarrow> Inl ErrJSON)"

definition check_upload :: "api_env \<Rightarrow> web_request \<Rightarrow> upload_req web" where
  "check_upload env rq =
     res_bind (wsJSON env decode_upload_req (600 * 1024) rq) (\<lambda>q.
       guard (length (uq_content q) \<le> 512 * 1024) (wsError 413 ''body_too_large'' False)
       (guard (trim_space (uq_title q) \<noteq> [] \<and> trim_space (uq_content q) \<noteq> []) invalid_request
       (guard (ap_source_ready env \<noteq> Some False) (wsFail (ap_ctx env) ErrUnavailable) (Inr q))))"

text \<open>The uploaded document of that title, up to case, and the version it shows.\<close>

definition upload_target :: "string \<Rightarrow> db \<Rightarrow> string \<times> string" where
  "upload_target title d =
     (case find (\<lambda>x. doc_source_kind x = ''upload'' \<and> to_lower (doc_title x) = to_lower (trim_space title) \<and> doc_deleted_at x = None)
             (list_documents d) of
        None \<Rightarrow> ([], [])
      | Some x \<Rightarrow> (doc_id x, deref (doc_active_version_id x)))"

definition upload_key :: "web_request \<Rightarrow> upload_req \<Rightarrow> string" where
  "upload_key rq q =
     (let key = wr_header rq ''Idempotency-Key'' in
      if key = [] then ''legacy:'' @ hash (uq_title q @ [CHR 0x00] @ uq_content q) else key)"

definition Upload_http :: "api_env \<Rightarrow> web_request \<Rightarrow> dstate \<Rightarrow> (document \<times> nat) web \<times> dstate" where
  "Upload_http env rq s =
     (case check_upload env rq of
        Inl e \<Rightarrow> (Inl e, s)
      | Inr q \<Rightarrow>
          (case upload_target (uq_title q) (ds_db s) of (i, expected) \<Rightarrow>
             (case PutDocument (ap_service env) (ap_put env) i (uq_title q) (uq_content q) ''upload'' ''unknown'' expected
                     (upload_key rq q) (ap_now env) (ds_k s) of
                ((Some e, _, _), k) \<Rightarrow> (Inl (wsFail (ap_ctx env) e), s\<lparr>ds_k := k\<rparr>)
              | ((None, doc, _), k) \<Rightarrow> (Inr (doc, length (list_documents (ks_db k))), s\<lparr>ds_k := k\<rparr>))))"

definition List_http :: "db \<Rightarrow> string list \<times> nat" where
  "List_http d =
     (let titles = map doc_title (filter (\<lambda>x. doc_deleted_at x = None) (list_documents d)) in (sort titles, length titles))"

definition decode_delete_req :: "json option \<Rightarrow> string ws" where
  "decode_delete_req j =
     (case j of Some JNull \<Rightarrow> Inr [] | Some (JObj kvs) \<Rightarrow> str_field ''title'' kvs | _ \<Rightarrow> Inl ErrJSON)"

definition delete_title :: "api_env \<Rightarrow> web_request \<Rightarrow> string web" where
  "delete_title env rq =
     (let t = trim_space (query_of rq ''title'') in
      res_bind (if t \<noteq> [] then Inr t else res_bind (wsJSON env decode_delete_req (32 * 1024) rq) (\<lambda>b. Inr (trim_space b)))
        (\<lambda>t. guard (t \<noteq> []) invalid_request (Inr t)))"

text \<open>The one uploaded document of that title and its active version.\<close>

definition delete_target :: "string \<Rightarrow> db \<Rightarrow> (string \<times> string) ws" where
  "delete_target title d =
     (case filter (\<lambda>x. doc_source_kind x = ''upload'' \<and> doc_deleted_at x = None \<and> doc_title x = title) (list_documents d) of
        [] \<Rightarrow> Inl ErrNoRows
      | [x] \<Rightarrow> (case doc_active_version_id x of None \<Rightarrow> Inl ErrConflict | Some v \<Rightarrow> Inr (doc_id x, v))
      | _ \<Rightarrow> Inl ErrConflict)"

definition Delete_http :: "api_env \<Rightarrow> web_request \<Rightarrow> dstate \<Rightarrow> (nat \<times> document \<times> nat) web \<times> dstate" where
  "Delete_http env rq s =
     (case res_bind (delete_title env rq) (\<lambda>t. web_of (ap_ctx env) (delete_target t (ds_db s))) of
        Inl e \<Rightarrow> (Inl e, s)
      | Inr (i, v) \<Rightarrow>
          (case DeleteDocument (ap_service env) i v (ap_now env) (ds_k s) of
             ((Some e, _), k) \<Rightarrow> (Inl (wsFail (ap_ctx env) e), s\<lparr>ds_k := k\<rparr>)
           | ((None, doc), k) \<Rightarrow>
               (Inr (deleted_status doc, doc,
                  length (filter (\<lambda>x. doc_deleted_at x = None \<and> doc_id x \<noteq> doc_id doc) (list_documents (ds_db s)))),
                s\<lparr>ds_k := k\<rparr>)))"

definition decode_confirm :: "json option \<Rightarrow> bool ws" where
  "decode_confirm j =
     (case j of
        Some JNull \<Rightarrow> Inr False
      | Some (JObj kvs) \<Rightarrow> fold_res set_bool (jvalues ''confirm'' kvs) False
      | _ \<Rightarrow> Inl ErrJSON)"

definition Reindex_http :: "api_env \<Rightarrow> web_request \<Rightarrow> dstate \<Rightarrow> nat web \<times> dstate" where
  "Reindex_http env rq s =
     (case res_bind (wsJSON env decode_confirm 1024 rq) (\<lambda>b. guard b (wsError 400 ''confirmation_required'' False) (Inr ())) of
        Inl e \<Rightarrow> (Inl e, s)
      | Inr _ \<Rightarrow>
          (case ReindexDemo (ap_service env) (ap_put env) (ap_demo_ctx env) (ap_now env) (ap_demo env) (ds_k s) of
             ((_, Some e), k) \<Rightarrow> (Inl (wsFail (ap_ctx env) e), s\<lparr>ds_k := k\<rparr>)
           | ((n, None), k) \<Rightarrow> (Inr n, s\<lparr>ds_k := k\<rparr>)))"

end
