(* ===== verification/Http.thy ===== *)
theory Http
  imports Api
begin

text \<open>
  The routes of the HTTP surface and what a client can rely on.

  \<open>RegisterWorkspace\<close> and \<open>mounted\<close> are the route tables of \<open>workspace.go\<close> and \<open>src/cmd/server/main.go\<close>; \<open>serve\<close>
  runs the handler of an endpoint and keeps the status of its answer and the new state. Every request is a path of the
  transition system of \<open>System\<close>, so that whatever clients send, everything proved of paths holds.
\<close>

datatype endpoint = EStatus | ESummary | EIncidents | EIncident | EGraph | EReDiagnose | ERun | EEvents | EEvidence
  | EDocuments | ECreateDocument | EUpdateDocument | EDeleteDocument | EVersions | EVersion | EReindex
  | EAlert | EReports | EUpload | EList | EDelete

definition RegisterWorkspace :: "((string \<times> string) \<times> endpoint) list" where
  "RegisterWorkspace =
     [((''GET'', ''/api/v1/system/status''), EStatus),
      ((''GET'', ''/api/v1/workspace/summary''), ESummary),
      ((''GET'', ''/api/v1/incidents''), EIncidents),
      ((''GET'', ''/api/v1/incidents/:id''), EIncident),
      ((''GET'', ''/api/v1/incidents/:id/graph''), EGraph),
      ((''POST'', ''/api/v1/incidents/:id/runs''), EReDiagnose),
      ((''GET'', ''/api/v1/runs/:id''), ERun),
      ((''GET'', ''/api/v1/runs/:id/events''), EEvents),
      ((''GET'', ''/api/v1/evidence/:id''), EEvidence),
      ((''GET'', ''/api/v1/documents''), EDocuments),
      ((''POST'', ''/api/v1/documents''), ECreateDocument),
      ((''PUT'', ''/api/v1/documents/:id''), EUpdateDocument),
      ((''DELETE'', ''/api/v1/documents/:id''), EDeleteDocument),
      ((''GET'', ''/api/v1/documents/:id/versions''), EVersions),
      ((''GET'', ''/api/v1/documents/:id/versions/:version''), EVersion),
      ((''POST'', ''/api/v1/knowledge/reindex-demo''), EReindex)]"

definition mounted :: "((string \<times> string) \<times> endpoint) list" where
  "mounted =
     [((''POST'', ''/alert''), EAlert), ((''GET'', ''/reports''), EReports), ((''POST'', ''/upload''), EUpload),
      ((''GET'', ''/list''), EList), ((''DELETE'', ''/delete''), EDelete), ((''POST'', ''/reindex''), EReindex)]"

definition status_of :: "('a \<Rightarrow> nat) \<Rightarrow> 'a web \<Rightarrow> nat" where
  "status_of f r = (case r of Inl e \<Rightarrow> we_status e | Inr x \<Rightarrow> f x)"

definition reads :: "('a \<Rightarrow> nat) \<Rightarrow> 'a web \<Rightarrow> dstate \<Rightarrow> nat \<times> dstate" where
  "reads f r s = (status_of f r, s)"

definition writes :: "('a \<Rightarrow> nat) \<Rightarrow> 'a web \<times> dstate \<Rightarrow> nat \<times> dstate" where
  "writes f x = (status_of f (fst x), snd x)"

definition serve :: "api_env \<Rightarrow> endpoint \<Rightarrow> web_request \<Rightarrow> dstate \<Rightarrow> nat \<times> dstate" where
  "serve env h rq s =
     (case h of
        EStatus \<Rightarrow> (200, s)
      | ESummary \<Rightarrow> reads rp_status (Summary_http env rq (ds_db s)) s
      | EIncidents \<Rightarrow> reads rp_status (Incidents_http env rq (ds_db s)) s
      | EIncident \<Rightarrow> reads rp_status (Incident_http env rq (ds_db s)) s
      | EGraph \<Rightarrow> reads rp_status (Graph_http env rq (ds_db s)) s
      | EReDiagnose \<Rightarrow> writes rp_status (ReDiagnose_http env rq s)
      | ERun \<Rightarrow> reads rp_status (Run_http env rq (ds_db s)) s
      | EEvents \<Rightarrow> reads rp_status (Events_http env rq (ds_db s)) s
      | EEvidence \<Rightarrow> reads rp_status (Evidence_http env rq (ds_db s)) s
      | EDocuments \<Rightarrow> reads rp_status (Documents_http env rq (ds_db s)) s
      | ECreateDocument \<Rightarrow> writes rp_status (CreateDocument_http env rq s)
      | EUpdateDocument \<Rightarrow> writes rp_status (UpdateDocument_http env rq s)
      | EDeleteDocument \<Rightarrow> writes rp_status (DeleteDocument_http env rq s)
      | EVersions \<Rightarrow> reads rp_status (Versions_http env rq (ds_db s)) s
      | EVersion \<Rightarrow> reads rp_status (Version_http env rq (ds_db s)) s
      | EReindex \<Rightarrow> writes (\<lambda>_. 200) (Reindex_http env rq s)
      | EAlert \<Rightarrow> writes fst (Alert_http env rq s)
      | EReports \<Rightarrow> reads (\<lambda>_. 200) (Reports_http env (ds_db s)) s
      | EUpload \<Rightarrow> writes (\<lambda>_. 200) (Upload_http env rq s)
      | EList \<Rightarrow> (200, s)
      | EDelete \<Rightarrow> writes fst (Delete_http env rq s))"

section \<open>Every request is a path of the system\<close>

definition at_d :: "dstate \<Rightarrow> sys \<Rightarrow> sys" where
  "at_d ds s = s\<lparr>sy_d := ds\<rparr>"

lemma at_d_simps [simp]: "sy_d (at_d ds s) = ds" "at_d (sy_d s) s = s" "at_d ds (at_d ds' s) = at_d ds s"
  by (simp_all add: at_d_def)

lemma at_d_db: "at_d (put_db d (sy_d s)) s = with_db d s"
  by (simp add: at_d_def with_db_def)

lemma at_d_k: "at_d ((sy_d s)\<lparr>ds_k := k\<rparr>) s = with_k k s"
  by (simp add: at_d_def with_k_def)

text \<open>A handler from a state to the next: whatever the workers do, the system can take its transactions.\<close>

definition request_path :: "dispatch_env \<Rightarrow> dstate \<Rightarrow> dstate \<Rightarrow> bool" where
  "request_path q ds ds' \<longleftrightarrow> (\<forall>s. sy_d s = ds \<and> honest_queue q (ds_tasks ds) \<longrightarrow> step\<^sup>*\<^sup>* s (at_d ds' s))"

lemma request_path_refl [simp, intro]: "request_path q ds ds"
  by (auto simp: request_path_def)

lemma request_path_put:
  assumes "PutDocument sv env i title content source environment expected key now (ds_k ds) = ((e, doc, v), k)"
  shows "request_path q ds (ds\<lparr>ds_k := k\<rparr>)"
  unfolding request_path_def
proof (intro allI impI)
  fix s :: sys assume "sy_d s = ds \<and> honest_queue q (ds_tasks ds)"
  with assms have "step s (with_k k s)" by (intro step.put) auto
  with \<open>sy_d s = ds \<and> _\<close> show "step\<^sup>*\<^sup>* s (at_d (ds\<lparr>ds_k := k\<rparr>) s)" using at_d_k [of k s] by auto
qed

lemma request_path_delete:
  assumes "DeleteDocument sv i expected now (ds_k ds) = ((e, doc), k)"
  shows "request_path q ds (ds\<lparr>ds_k := k\<rparr>)"
  unfolding request_path_def
proof (intro allI impI)
  fix s :: sys assume "sy_d s = ds \<and> honest_queue q (ds_tasks ds)"
  with assms have "step s (with_k k s)" by (intro step.delete) auto
  with \<open>sy_d s = ds \<and> _\<close> show "step\<^sup>*\<^sup>* s (at_d (ds\<lparr>ds_k := k\<rparr>) s)" using at_d_k [of k s] by auto
qed

text \<open>A knowledge operation keeps the queue's tasks, so paths of them compose.\<close>

lemma request_path_k_trans:
  assumes "request_path q ds (ds\<lparr>ds_k := k\<rparr>)" and "request_path q (ds\<lparr>ds_k := k\<rparr>) (ds\<lparr>ds_k := k'\<rparr>)"
  shows "request_path q ds (ds\<lparr>ds_k := k'\<rparr>)"
  unfolding request_path_def
proof (intro allI impI)
  fix s :: sys assume s: "sy_d s = ds \<and> honest_queue q (ds_tasks ds)"
  have "step\<^sup>*\<^sup>* s (at_d (ds\<lparr>ds_k := k\<rparr>) s)" using assms(1) s unfolding request_path_def by blast
  moreover have "step\<^sup>*\<^sup>* (at_d (ds\<lparr>ds_k := k\<rparr>) s) (at_d (ds\<lparr>ds_k := k'\<rparr>) (at_d (ds\<lparr>ds_k := k\<rparr>) s))"
    using assms(2) [unfolded request_path_def, rule_format, of "at_d (ds\<lparr>ds_k := k\<rparr>) s"] s by simp
  ultimately show "step\<^sup>*\<^sup>* s (at_d (ds\<lparr>ds_k := k'\<rparr>) s)" by simp
qed

lemma request_path_files:
  "reindex_files sv env ctx now es n seen (ds_k ds) = (x, k') \<Longrightarrow> request_path q ds (ds\<lparr>ds_k := k'\<rparr>)"
proof (induction es arbitrary: n seen ds)
  case (Cons entry es)
  obtain name is_dir content where entry: "entry = (name, is_dir, content)" by (metis surj_pair)
  consider "ctx name \<noteq> None" | "ctx name = None" "is_dir \<or> \<not> has_suffix name ''.md''"
    | e where "ctx name = None" "\<not> (is_dir \<or> \<not> has_suffix name ''.md'')" "content = Inl e"
    | b where "ctx name = None" "\<not> (is_dir \<or> \<not> has_suffix name ''.md'')" "content = Inr b" by (cases content) auto
  then show ?case
  proof cases
    case (4 b)
    obtain e doc v k1 where f: "reindex_file sv env now name b (ds_k ds) = ((e, doc, v), k1)" by (metis surj_pair)
    have 1: "request_path q ds (ds\<lparr>ds_k := k1\<rparr>)"
      using f unfolding reindex_file_def Let_def by (rule request_path_put)
    show ?thesis
    proof (cases e)
      case None
      have "reindex_files sv env ctx now es (n + 1) (doc_id doc # seen) (ds_k (ds\<lparr>ds_k := k1\<rparr>)) = (x, k')"
        using Cons.prems entry 4 f None by simp
      from Cons.IH [OF this] 1 show ?thesis by (auto intro: request_path_k_trans)
    next
      case (Some e')
      with Cons.prems entry 4 f 1 show ?thesis by auto
    qed
  qed (use Cons entry in \<open>auto split: if_splits\<close>)
qed auto

lemma request_path_unseen:
  "drop_unseen sv now seen docs (ds_k ds) = (x, k') \<Longrightarrow> request_path q ds (ds\<lparr>ds_k := k'\<rparr>)"
proof (induction docs arbitrary: ds)
  case (Cons doc docs)
  show ?case
  proof (cases "doc_source_kind doc = ''demo'' \<and> doc_deleted_at doc = None \<and> doc_id doc \<notin> set seen \<and> doc_active_version_id doc \<noteq> None")
    case True
    then obtain vid where vid: "doc_active_version_id doc = Some vid" by blast
    obtain e doc' k1 where f: "DeleteDocument sv (doc_id doc) vid now (ds_k ds) = ((e, doc'), k1)" by (metis surj_pair)
    note 1 = request_path_delete [OF f, of q]
    show ?thesis
    proof (cases e)
      case None
      have "drop_unseen sv now seen docs (ds_k (ds\<lparr>ds_k := k1\<rparr>)) = (x, k')" using Cons.prems True vid f None by simp
      from Cons.IH [OF this] 1 show ?thesis by (auto intro: request_path_k_trans)
    next
      case (Some e')
      with Cons.prems True vid f 1 show ?thesis by simp
    qed
  next
    case False
    with Cons.prems have "drop_unseen sv now seen docs (ds_k ds) = (x, k')" by (auto split: option.splits bool.splits)
    then show ?thesis by (rule Cons.IH)
  qed
qed auto

lemma request_path_reindex:
  assumes "ReindexDemo sv env ctx now dir (ds_k ds) = (x, k')"
  shows "request_path q ds (ds\<lparr>ds_k := k'\<rparr>)"
proof (cases dir)
  case (Inl e)
  with assms show ?thesis by (auto simp: ReindexDemo_def)
next
  case (Inr entries)
  obtain e n seen k1 where f: "reindex_files sv env ctx now entries 0 [] (ds_k ds) = ((e, n, seen), k1)" by (metis surj_pair)
  note 1 = request_path_files [OF f, of q]
  show ?thesis
  proof (cases e)
    case None
    obtain e' k2 where u: "drop_unseen sv now seen (list_documents (ks_db k1)) (ds_k (ds\<lparr>ds_k := k1\<rparr>)) = (e', k2)" by fastforce
    have "k' = k2" using assms Inr f None u by (simp add: ReindexDemo_def)
    with request_path_unseen [OF u, of q] 1 show ?thesis by (auto intro: request_path_k_trans)
  next
    case (Some e')
    with assms Inr f 1 show ?thesis by (auto simp: ReindexDemo_def)
  qed
qed

text \<open>A transaction of the web side followed by a dispatch.\<close>

lemma request_path_dispatch:
  assumes "\<And>s. sy_d s = ds \<Longrightarrow> step s (with_db d s)"
  shows "request_path q ds (snd (Dispatch q now (put_db d ds)))"
  unfolding request_path_def
proof (intro allI impI)
  fix s :: sys assume s: "sy_d s = ds \<and> honest_queue q (ds_tasks ds)"
  obtain e ds' where D: "Dispatch q now (sy_d (with_db d s)) = (e, ds')" by fastforce
  have sd: "sy_d (with_db d s) = put_db d ds" using s by (simp add: with_db_def)
  have h: "honest_queue q (ds_tasks (sy_d (with_db d s)))" using s by simp
  have "step\<^sup>*\<^sup>* (with_db d s) ((with_db d s)\<lparr>sy_d := ds'\<rparr>)" by (rule Dispatch_path [OF h D])
  moreover have "(with_db d s)\<lparr>sy_d := ds'\<rparr> = at_d (snd (Dispatch q now (put_db d ds))) s"
    using D sd by (simp add: at_d_def with_db_def)
  moreover have "step s (with_db d s)" using assms s by simp
  ultimately show "step\<^sup>*\<^sup>* s (at_d (snd (Dispatch q now (put_db d ds))) s)"
    by (metis converse_rtranclp_into_rtranclp)
qed

lemma request_path_Alert: "request_path (ap_queue env) ds (snd (Alert_http env rq ds))"
proof -
  have 1: "request_path (ap_queue env) ds (put_db d ds)"
    if "Admit obs ready now (ds_db ds) = Inr ((None, dup), d)" for obs ready now dup d
    unfolding request_path_def
  proof (intro allI impI)
    fix s :: sys assume s: "sy_d s = ds \<and> honest_queue (ap_queue env) (ds_tasks ds)"
    with that have "step s (with_db d s)" by (intro step.admit) auto
    with s show "step\<^sup>*\<^sup>* s (at_d (put_db d ds) s)" using at_d_db [of d s] by auto
  qed
  have 2: "request_path (ap_queue env) ds (snd (Dispatch (ap_queue env) t (put_db d ds)))"
    if "Admit obs ready now (ds_db ds) = Inr ((Some r, dup), d)" for obs ready now r dup d t
    by (rule request_path_dispatch) (use that in \<open>auto intro: step.admit\<close>)
  show ?thesis using 1 2 by (auto simp: Alert_http_def Let_def split: sum.splits option.splits)
qed

lemma request_path_ReDiagnose: "request_path (ap_queue env) ds (snd (ReDiagnose_http env rq ds))"
proof -
  have "request_path (ap_queue env) ds (snd (Dispatch (ap_queue env) t (put_db d ds)))"
    if "ReDiagnose i key body ready now (ds_db ds) = Inr (r, d)" for i key body ready now r d t
    by (rule request_path_dispatch) (use that in \<open>auto intro: step.rediagnose\<close>)
  then show ?thesis by (auto simp: ReDiagnose_http_def Let_def split: sum.splits option.splits)
qed

lemma request_path_write: "request_path q ds (snd (writeDocument env update rq ds))"
  by (auto simp: writeDocument_def split: sum.splits prod.splits option.splits intro: request_path_put)

lemma request_path_DeleteDocument: "request_path q ds (snd (DeleteDocument_http env rq ds))"
  by (auto simp: DeleteDocument_http_def split: sum.splits prod.splits option.splits intro: request_path_delete)

lemma request_path_Upload: "request_path q ds (snd (Upload_http env rq ds))"
  by (auto simp: Upload_http_def split: sum.splits prod.splits option.splits intro: request_path_put)

lemma request_path_Delete: "request_path q ds (snd (Delete_http env rq ds))"
  by (auto simp: Delete_http_def split: sum.splits prod.splits option.splits intro: request_path_delete)

lemma request_path_Reindex: "request_path q ds (snd (Reindex_http env rq ds))"
  by (auto simp: Reindex_http_def split: sum.splits prod.splits option.splits intro: request_path_reindex)

lemma request_path_serve: "request_path (ap_queue env) ds (snd (serve env h rq ds))"
  by (cases h) (simp_all add: serve_def reads_def writes_def request_path_Alert request_path_ReDiagnose request_path_write
      CreateDocument_http_def UpdateDocument_http_def request_path_DeleteDocument request_path_Upload request_path_Delete
      request_path_Reindex)


definition ex_alert_json :: json where
  "ex_alert_json = JObj [(''name'', JStr ''Down''), (''status'', JStr ''firing''),
     (''startsAt'', JStr ''1970-01-01T00:00:00Z''), (''labels'', JObj [(''alertname'', JStr ''Down'')])]"

definition ex_api :: api_env where
  "ex_api = \<lparr> ap_ctx = None,
     ap_parse = (\<lambda>s. if s = ''alert'' then Some ex_alert_json else None),
     ap_marshal = (\<lambda>_. []), ap_now = 7, ap_dispatch_now = 8, ap_service = ex_sv, ap_queue = ex_queue None, ap_put = ex_env,
     ap_source_ready = None, ap_show_obs = (\<lambda>_. []), ap_demo = Inr [], ap_demo_ctx = (\<lambda>_. None) \<rparr>"

definition ex_alert :: web_request where
  "ex_alert = \<lparr> wr_path = ''/alert'', wr_query = [], wr_param = (\<lambda>_. []), wr_header = (\<lambda>_. []), wr_body = ''alert'' \<rparr>"

text \<open>The batch's run is queued and its row was sent.\<close>

definition ex_sent :: db where
  "ex_sent = (let x = ex_row (business_key (batch_ids 0 [ex_down])) ''queued'' in
     empty_db\<lparr>t_runs := [x\<lparr>rr_data := (rr_data x)\<lparr>run_dispatch_state := ''enqueued''\<rparr>\<rparr>],
       t_outbox := [(diagnosis_outbox (rr_id x) [] 0)\<lparr>ob_state := ''sent''\<rparr>]\<rparr>)"

definition ex_sent_run :: run where
  "ex_sent_run = (queued_run (business_key (batch_ids 0 [ex_down])) [] 0)\<lparr>run_dispatch_state := ''enqueued''\<rparr>"

lemma ex_sent_rows: "t_outbox ex_sent = [(diagnosis_outbox (run_id ex_sent_run) [] 0)\<lparr>ob_state := ''sent''\<rparr>]"
  by (simp add: ex_sent_def ex_sent_run_def ex_row_def queued_run_def Let_def)

lemma sys_ok_ex_sent: "sys_ok (ex_sys ex_sent [TDiagnosis (run_id ex_sent_run) []] [])"
proof -
  have "ws_ok ex_sent"
    by (simp add: ex_sent_def ws_ok_def knowledge_ok_def versions_agree_def documents_agree_def pointers_ok_def
      core_ok_def empty_db_def runs_ok_def events_ok_def incidents_ok_def ex_row_def queued_run_def Let_def
      links_ok_def evidence_ok_def outbox_ok_def queue_ok_def tok_def row_agrees_def ex_run_def dispatch_state_def
      diagnosis_outbox_def diagnosis_row_def has_run_def tget_def run_links_def)
  moreover have "diag_sent ex_sent \<subseteq> {PDiagnosis (run_id ex_sent_run) []}"
    unfolding diag_sent_def ex_sent_rows by (auto simp: diagnosis_outbox_def)
  ultimately show ?thesis by (auto simp: sys_ok_def ex_sys_def delivered_ok_def knows_run_def)
qed

lemma ex_alert_parsed: "ParseObservations (ap_parse ex_api (wr_body ex_alert)) = Inr [ex_down]"
proof -
  have "ParseObservations (Some ex_alert_json) = Inr [ex_down]" by code_simp
  then show ?thesis by (simp add: ex_api_def ex_alert_def)
qed

lemma ex_alert_served:
  "\<exists>ds'. Alert_http ex_api ex_alert (sy_d (ex_sys ex_sent ts [])) = (Inr (202, Enqueued (run_id ex_sent_run) ''queued'' 1 True ''enqueued''), ds')"
proof -
  have b: "unique (sort [stableID ''inc_'' k]) = batch_ids 0 [ex_down]"
    if "canonical ex_down 0 = Inr (k, q, s)" for k q s
    using that by (simp add: batch_ids_def firing_ids_def incident_of_def ex_down_def ex_obs_def)
  have st: "obs_status ex_down = ''firing''" and "firing_ids 0 [ex_down] \<noteq> []"
    by (simp_all add: ex_down_def ex_obs_def firing_ids_def)
  then obtain d where a: "Admit [ex_down] True 7 ex_sent = Inr ((Some ex_sent_run, True), d)"
    and d: "t_runs d = t_runs ex_sent" "t_outbox d = t_outbox ex_sent"
    using b [OF canonical_ex_down]
    by (simp add: Admit_def ensure_def ex_sent_def empty_db_def admit_one_def canonical_ex_down ex_sent_run_def
        tget_def insert_incident_def tins_def observe_incident_def Let_def add_observation_def
        ex_row_def queued_run_def del: unique.simps sort_key_simps)
  have due: "due_items now d = []" for now by (simp add: due_items_def d ex_sent_def Let_def)
  have run: "get_run (run_id ex_sent_run) d = Inr ex_sent_run"
    by (simp add: get_run_def d ex_sent_def ex_sent_run_def tget_def ex_row_def queued_run_def Let_def)
  have t: "alert_times ex_down" using st by (simp add: alert_times_def ex_down_def ex_obs_def parse_epoch)
  have r: "Ready (ap_queue ex_api)" and body: "wsBody (2 ^ 20) ex_alert = Inr (wr_body ex_alert)" "ap_now ex_api = 7"
    by (simp_all add: Ready_def ex_api_def ex_queue_def wsBody_def guard_def ex_alert_def)
  have s: "run_status ex_sent_run = ''queued''" "run_dispatch_state ex_sent_run = ''enqueued''"
    by (simp_all add: ex_sent_run_def queued_run_def)
  show ?thesis
    using a t r body run s by (simp add: Alert_http_def ex_alert_parsed ex_sys_def Dispatch_def due put_db_def reread_def alert_status_def)
qed


section \<open>Rejected requests\<close>

lemma wsFail_status: "we_status (wsFail ctx e) \<noteq> 400" "we_status (wsFail ctx e) \<noteq> 413"
  by (simp_all add: wsFail_def wsError_def)

definition untouched :: "('a \<Rightarrow> nat) \<Rightarrow> 'a web \<times> dstate \<Rightarrow> dstate \<Rightarrow> bool" where
  "untouched f x s \<longleftrightarrow> status_of f (fst x) \<noteq> 400 \<and> status_of f (fst x) \<noteq> 413 \<or> snd x = s"

lemma untouchedI [intro]:
  "untouched f (r, s) s"
  "untouched f (Inl (wsFail ctx e), s') s"
  "f x = 200 \<or> f x = 201 \<or> f x = 202 \<Longrightarrow> untouched f (Inr x, s') s"
  by (auto simp: untouched_def status_of_def wsFail_status)

lemma untouchedD: "untouched f x s \<Longrightarrow> status_of f (fst x) = 400 \<or> status_of f (fst x) = 413 \<Longrightarrow> snd x = s"
  by (auto simp: untouched_def)

lemma untouched_handlers:
  "untouched rp_status (ReDiagnose_http env rq s) s"
  "untouched rp_status (writeDocument env update rq s) s"
  "untouched rp_status (DeleteDocument_http env rq s) s"
  "untouched (\<lambda>_. 200) (Reindex_http env rq s) s"
  "untouched fst (Alert_http env rq s) s"
  "untouched (\<lambda>_. 200) (Upload_http env rq s) s"
  "untouched fst (Delete_http env rq s) s"
  by (auto simp: ReDiagnose_http_def writeDocument_def DeleteDocument_http_def Reindex_http_def Alert_http_def Upload_http_def
      Delete_http_def wsOK_def Let_def deleted_status_def split: sum.split prod.split option.split intro!: untouchedI)

text \<open>C31. A request that is rejected as malformed or too large changes nothing: whenever an endpoint answers 400 or 413,
  the database, the retrieval projection and the queue are as before.\<close>

theorem serve_rejects:
  assumes "fst (serve env h rq s) = 400 \<or> fst (serve env h rq s) = 413"
  shows "snd (serve env h rq s) = s"
  using assms
  by (cases h) (auto simp: serve_def reads_def writes_def CreateDocument_http_def UpdateDocument_http_def
      intro: untouched_handlers [THEN untouchedD])

theorem serve_rejects_witness:
  "serve ex_api EReDiagnose ex_alert (sy_d (ex_sys ex_sent [] [])) = (400, sy_d (ex_sys ex_sent [] []))"
proof -
  have t: "trim_space [] = []" by code_simp
  have "fst (serve ex_api EReDiagnose ex_alert (sy_d (ex_sys ex_sent [] []))) = 400"
    by (simp add: serve_def writes_def status_of_def ReDiagnose_http_def ex_alert_def t invalid_request_def wsError_def)
  with serve_rejects [of ex_api EReDiagnose ex_alert] show ?thesis by (metis prod.collapse)
qed

section \<open>An accepted alert is not lost\<close>

lemma Admit_run:
  assumes "Admit obs ready now d = Inr ((Some r, dup), d')" and "core_ok d"
  shows "\<exists>x \<in> set (t_runs d'). rr_id x = run_id r"
proof -
  have inc: "incidents_ok d" and ok: "runs_ok d" using assms(2) by (simp_all add: core_ok_def)
  from assms(1) inc show ?thesis
  proof (cases rule: Admit_cases)
    case (duplicate row)
    then have row: "row \<in> set (t_runs d)" "r = rr_data row" by (auto dest: tget_SomeD)
    have "t_runs d' = t_runs d" using alert_only_same(1) duplicate(5) by blast
    moreover have "rr_id row = run_id r" using runs_okD(2) [OF ok] row by (auto simp: row_agrees_def)
    ultimately show ?thesis using row(1) by auto
  next
    case (created r' d1)
    from created(9) obtain x where "t_runs d' = t_runs d1 @ [x]" "rr_id x = run_id r'" by (elim insertRun_Inr) simp
    with created(5) show ?thesis by auto
  qed simp
qed

text \<open>C9. An accepted alert is not lost. In a state with the invariant, when the webhook answers 202 with a run, the database
  holds that run with the status the answer gives, and if it is still queued its outbox row is pending, so that a later
  dispatch delivers it, or was sent and the queue has a task for it: a queue that fails during the request loses nothing.\<close>

theorem Alert_durable:
  assumes ok: "sys_ok s" and honest: "honest_queue (ap_queue env) (ds_tasks (sy_d s))"
    and run: "Alert_http env rq (sy_d s) = (Inr (st, Enqueued i status n dup disp), ds')"
  shows "st = 202 \<and> (\<exists>x \<in> set (t_runs (ds_db ds')). rr_id x = i \<and> status = alert_status (rr_status x)
    \<and> (rr_status x = ''queued'' \<longrightarrow> (\<exists>ob \<in> set (t_outbox (ds_db ds')). diagnosis_row i ob
         \<and> (ob_state ob = ''pending'' \<or> ob_state ob = ''sent'' \<and> knows_run (ds_tasks ds') i))))"
proof -
  have "step\<^sup>*\<^sup>* s (at_d ds' s)"
    using request_path_Alert [of env "sy_d s" rq] honest run unfolding request_path_def by auto
  from ws.path_inv [OF this ok] have ok': "sys_ok (at_d ds' s)" by simp
  from run obtain obs r d where a: "Admit obs (Ready (ap_queue env)) (ap_now env) (sy_db s) = Inr ((Some r, dup), d)"
    and D: "ds' = snd (Dispatch (ap_queue env) (ap_dispatch_now env) (put_db d (sy_d s)))"
    and i: "st = 202" "i = run_id (reread r (ds_db ds'))" "status = alert_status (run_status (reread r (ds_db ds')))"
    by (auto simp: Alert_http_def Let_def split: sum.splits option.splits if_splits)
  have core: "core_ok (sy_db s)" using ok by (simp add: sys_ok_def ws_ok_def)
  obtain x where x: "x \<in> set (t_runs d)" "rr_id x = run_id r" using Admit_run [OF a core] by blast
  have s1: "step s (with_db d s)" using a by (rule step.admit)
  have ok1: "sys_ok (with_db d s)" using ws.path_inv [OF r_into_rtranclp [of step, OF s1] ok] by simp
  obtain e where D': "Dispatch (ap_queue env) (ap_dispatch_now env) (sy_d (with_db d s)) = (e, ds')"
    using D by (simp add: with_db_def prod_eq_iff)
  have "step\<^sup>*\<^sup>* (with_db d s) ((with_db d s)\<lparr>sy_d := ds'\<rparr>)" by (rule Dispatch_path [OF _ D']) (simp add: honest)
  from ws.path_inv [OF this ok1] have "runs_follow d (ds_db ds')" by (simp add: sys_follows_def)
  then obtain y where y: "y \<in> set (t_runs (ds_db ds'))" "rr_id y = run_id r" using x unfolding runs_follow_def run_follows_def by metis
  have rok: "runs_ok (ds_db ds')" using ok' by (simp add: sys_ok_def ws_ok_def core_ok_def)
  have g: "get_run (run_id r) (ds_db ds') = Inr (rr_data y)"
    using y rok by (metis get_run_Inr lt.get_unique runs_okD(1))
  have ag: "run_id (rr_data y) = rr_id y" "run_status (rr_data y) = rr_status y"
    using runs_okD(2) [OF rok y(1)] by (simp_all add: row_agrees_def)
  have i': "i = rr_id y" "status = alert_status (rr_status y)" using i(2,3) g ag by (simp_all add: reread_def)
  have "rr_status y = ''queued'' \<Longrightarrow> \<exists>ob \<in> set (t_outbox (ds_db ds')). diagnosis_row i ob
         \<and> (ob_state ob = ''pending'' \<or> ob_state ob = ''sent'' \<and> knows_run (ds_tasks ds') i)"
    using queued_delivery [OF ok', of y] y(1) by (simp add: i')
  with i(1) i' y(1) show ?thesis by blast
qed

theorem Alert_durable_witness:
  "\<exists>ds' ob. Alert_http ex_api ex_alert (sy_d (ex_sys ex_sent [TDiagnosis (run_id ex_sent_run) []] []))
       = (Inr (202, Enqueued (run_id ex_sent_run) ''queued'' 1 True ''enqueued''), ds')
     \<and> ob \<in> set (t_outbox (ds_db ds')) \<and> diagnosis_row (run_id ex_sent_run) ob
     \<and> (ob_state ob = ''pending'' \<or> ob_state ob = ''sent'' \<and> knows_run (ds_tasks ds') (run_id ex_sent_run))"
proof -
  let ?s = "ex_sys ex_sent [TDiagnosis (run_id ex_sent_run) []] []"
  obtain ds' where ds': "Alert_http ex_api ex_alert (sy_d ?s) = (Inr (202, Enqueued (run_id ex_sent_run) ''queued'' 1 True ''enqueued''), ds')"
    using ex_alert_served by blast
  have "honest_queue (ap_queue ex_api) (ds_tasks (sy_d ?s))" by (simp add: honest_queue_def ex_api_def ex_queue_def)
  note d = Alert_durable [OF sys_ok_ex_sent this ds']
  from conjunct2 [OF d] show ?thesis
  proof (elim bexE conjE)
    fix x assume q: "rr_status x = ''queued'' \<longrightarrow> (\<exists>ob \<in> set (t_outbox (ds_db ds')). diagnosis_row (run_id ex_sent_run) ob
         \<and> (ob_state ob = ''pending'' \<or> ob_state ob = ''sent'' \<and> knows_run (ds_tasks ds') (run_id ex_sent_run)))"
      and "''queued'' = alert_status (rr_status x)"
    then have "rr_status x = ''queued''" by (simp add: alert_status_def split: if_splits)
    with q obtain ob where "ob \<in> set (t_outbox (ds_db ds'))" "diagnosis_row (run_id ex_sent_run) ob"
      "ob_state ob = ''pending'' \<or> ob_state ob = ''sent'' \<and> knows_run (ds_tasks ds') (run_id ex_sent_run)" by blast
    with ds' show ?thesis by blast
  qed
qed

end
