(* ===== verification/Clients.thy ===== *)
theory Clients
  imports Http
begin

text \<open>
  What clients of the HTTP surface see over several requests: the event feed of a run, the graph around a focus, and
  concurrent edits of a document.
\<close>

section \<open>The event feed\<close>

definition set_after :: "int \<Rightarrow> web_request \<Rightarrow> web_request" where
  "set_after n rq = rq\<lparr>wr_query := (''after_sequence'', itoa n) # filter (\<lambda>(k, v). k \<noteq> ''after_sequence'') (wr_query rq)\<rparr>"

text \<open>What a client does that reads the feed until there is nothing more.\<close>

fun poll_events :: "nat \<Rightarrow> api_env \<Rightarrow> web_request \<Rightarrow> db \<Rightarrow> event list list option" where
  "poll_events 0 env rq d = None"
| "poll_events (Suc n) env rq d =
     (case Events_http env rq d of
        Inl _ \<Rightarrow> None
      | Inr p \<Rightarrow>
          if es_more (rp_data p)
          then map_option ((#) (es_items (rp_data p))) (poll_events n env (set_after (es_next (rp_data p)) rq) d)
          else Some [es_items (rp_data p)])"

lemma dec_is_digit: "list_all is_digit (dec n)"
proof (induction n rule: dec.induct)
  case (1 n)
  have d: "is_digit (char_of (48 + k :: nat))" if "k < 10" for k :: nat
    using that by (auto simp: is_digit_def less_eq_char_def of_char_of)
  show ?case
  proof (cases "n < 10")
    case True
    then show ?thesis using d by (subst dec.simps) simp
  next
    case False
    then show ?thesis using 1 d [of "n mod 10"] by (subst dec.simps) simp
  qed
qed

lemma atoi_dec:
  assumes "n \<le> 2 ^ 30"
  shows "atoi (dec n) = Some (int n)"
proof -
  obtain c s where cs: "dec n = c # s" by (meson dec_nonempty neq_Nil_conv)
  with dec_is_digit [of n] have "is_digit c" by simp
  then have "c \<noteq> CHR ''-''" "c \<noteq> CHR ''+''" by (auto simp: is_digit_def less_eq_char_def)
  then have "\<not> has_prefix (dec n) ''-''" "\<not> has_prefix (dec n) ''+''" by (simp_all add: has_prefix_def cs)
  moreover have "int n < 2 ^ 63" using assms by simp
  ultimately show ?thesis using dec_is_digit [of n] by (simp add: atoi_def dec_val_dec)
qed

lemma after_read:
  assumes "n \<le> 2 ^ 30"
  shows "wsInt ''after_sequence'' 0 0 (2 ^ 30) (set_after (int n) rq) = Inr (int n)"
  using atoi_dec [OF assms] assms by (simp add: wsInt_def query_of_def set_after_def itoa_def Let_def)

lemma set_after_limit [simp]: "wsInt ''limit'' a b l (set_after n rq) = wsInt ''limit'' a b l rq"
  using map_of_other_key [of "''after_sequence''" "''limit''" "wr_query rq"] by (simp add: wsInt_def query_of_def set_after_def)

lemma set_after_simps [simp]: "wr_param (set_after n rq) = wr_param rq" "set_after m (set_after n rq) = set_after m rq"
  by (simp_all add: set_after_def)

text \<open>The rows of a run, in order.\<close>

definition run_rows :: "string \<Rightarrow> db \<Rightarrow> event_row list" where
  "run_rows i d = filter (\<lambda>r. er_run r = i) (t_events d)"

lemma run_rows_seq: "events_ok d \<Longrightarrow> k < length (run_rows i d) \<Longrightarrow> er_seq (run_rows i d ! k) = Suc k"
proof -
  assume ok: "events_ok d" and k: "k < length (run_rows i d)"
  have "map er_seq (run_rows i d) = [1..<Suc (length (run_rows i d))]"
    using events_ok_dense [OF ok, of i] by (simp add: dense_def run_seqs_def run_rows_def)
  then have "map er_seq (run_rows i d) ! k = [1..<Suc (length (run_rows i d))] ! k" by simp
  then show ?thesis using k by (simp del: upt_Suc)
qed

lemma list_events_eq:
  assumes "events_ok d" and "0 \<le> m"
  shows "list_events i (int a) m d = map er_data (take (nat m) (drop a (run_rows i d)))"
proof -
  let ?rows = "run_rows i d"
  have seqs: "map er_seq ?rows = [1..<Suc (length ?rows)]"
    using events_ok_dense [OF assms(1), of i] by (simp add: dense_def run_seqs_def run_rows_def)
  have "filter (\<lambda>r. er_run r = i \<and> int a < int (er_seq r)) (t_events d) = filter (\<lambda>r. a < er_seq r) ?rows"
    by (simp add: run_rows_def conj_commute)
  also have "\<dots> = drop a ?rows"
  proof -
    have "filter (\<lambda>r. a < er_seq r) (take a ?rows) = []"
      using run_rows_seq [OF assms(1), of _ i] by (fastforce simp: filter_empty_conv in_set_conv_nth)
    moreover have "filter (\<lambda>r. a < er_seq r) (drop a ?rows) = drop a ?rows"
      using run_rows_seq [OF assms(1), of _ i] by (fastforce simp: filter_id_conv in_set_conv_nth)
    ultimately show ?thesis by (metis append_Nil append_take_drop_id filter_append)
  qed
  finally have f: "filter (\<lambda>r. er_run r = i \<and> int a < int (er_seq r)) (t_events d) = drop a ?rows" .
  have "sorted (map er_seq (drop a ?rows))" unfolding drop_map [symmetric] seqs by (rule sorted_wrt_drop) (rule sorted_upt)
  then have "sort_key er_seq (drop a ?rows) = drop a ?rows" by (rule sort_key_id_if_sorted)
  with f assms(2) show ?thesis by (simp add: list_events_def limit_rows_def)
qed

lemma Events_page:
  assumes ok: "events_ok d" and r: "get_run (wr_param rq ''id'') d = Inr r" and i: "run_id r = wr_param rq ''id''"
    and after: "wsInt ''after_sequence'' 0 0 (2 ^ 30) rq = Inr (int a)" and lim: "wsInt ''limit'' 100 1 200 rq = Inr limit"
    and rows: "rows = run_rows (run_id r) d" and le: "a \<le> length rows"
  shows "\<exists>rev. Events_http env rq d = Inr (wsOK 200 \<lparr> es_items = map er_data (take (nat limit) (drop a rows)),
    es_more = (nat limit < length rows - a), es_next = int (a + min (nat limit) (length rows - a)) \<rparr> rev)"
proof -
  have pos: "1 \<le> limit" using lim by (auto simp: wsInt_def Let_def split: if_splits option.splits)
  have items: "list_events (run_id r) (int a) (limit + 1) d = map er_data (take (Suc (nat limit)) (drop a rows))"
    using list_events_eq [OF ok, of "limit + 1" "run_id r" a] pos rows by (simp add: nat_add_distrib)
  have cut: "(if nat limit < length rows - a
      then take (nat limit) (map er_data (take (Suc (nat limit)) (drop a rows))) else map er_data (take (Suc (nat limit)) (drop a rows)))
    = map er_data (take (nat limit) (drop a rows))" by (auto simp: take_map min_def)
  have nxt: "(if map er_data (take (nat limit) (drop a rows)) = [] then int a
      else int (ev_sequence (last (map er_data (take (nat limit) (drop a rows)))))) = int (a + min (nat limit) (length rows - a))"
  proof (cases "take (nat limit) (drop a rows) = []")
    case True
    then show ?thesis using pos by auto
  next
    case False
    let ?m = "min (nat limit) (length rows - a)"
    have m: "0 < ?m" "a + ?m \<le> length rows" using False pos le by auto
    have len: "length (take (nat limit) (drop a rows)) = ?m" by (simp add: min.commute)
    have "last (take (nat limit) (drop a rows)) = take (nat limit) (drop a rows) ! (?m - 1)" by (metis False last_conv_nth len)
    also have "\<dots> = rows ! (a + (?m - 1))" using m by (subst nth_take) auto
    finally have "last (take (nat limit) (drop a rows)) = rows ! (a + (?m - 1))" .
    moreover have "er_seq (rows ! (a + (?m - 1))) = a + ?m"
    proof -
      have "a + (?m - 1) < length rows" "Suc (a + (?m - 1)) = a + ?m" using m by linarith+
      with run_rows_seq [OF ok, of "a + (?m - 1)" "run_id r"] rows show ?thesis by metis
    qed
    moreover have "event_agrees (rows ! (a + (?m - 1)))"
    proof -
      have "rows ! (a + (?m - 1)) \<in> set (t_events d)"
        using nth_mem [of "a + (?m - 1)" rows] m unfolding rows run_rows_def by auto
      with ok show ?thesis by (auto simp: events_ok_def list_all_iff)
    qed
    ultimately show ?thesis using False by (simp add: last_map event_agrees_def)
  qed
  have more: "limit < int (length (map er_data (take (Suc (nat limit)) (drop a rows)))) \<longleftrightarrow> nat limit < length rows - a"
    using pos by auto
  show ?thesis
    unfolding Events_http_def r web_of_def sum.case res_bind_simps after lim Let_def items cut nxt more by blast
qed

lemma poll_from:
  assumes ok: "events_ok d" and r: "get_run (wr_param rq ''id'') d = Inr r" and i: "run_id r = wr_param rq ''id''"
    and lim: "wsInt ''limit'' 100 1 200 rq = Inr limit" and rows: "rows = run_rows (run_id r) d" and small: "length rows \<le> 2 ^ 30"
  shows "wsInt ''after_sequence'' 0 0 (2 ^ 30) rq' = Inr (int a) \<Longrightarrow> rq' = rq \<or> (\<exists>n. rq' = set_after n rq) \<Longrightarrow> a \<le> length rows \<Longrightarrow>
    length rows - a < n \<Longrightarrow> \<exists>ps. poll_events n env rq' d = Some ps \<and> concat ps = map er_data (drop a rows)
      \<and> (\<forall>p \<in> set ps. length p \<le> nat limit)"
proof (induction n arbitrary: a rq')
  case (Suc n)
  have pos: "1 \<le> limit" using lim by (auto simp: wsInt_def Let_def split: if_splits option.splits)
  have q: "wr_param rq' = wr_param rq" "wsInt ''limit'' 100 1 200 rq' = Inr limit" using Suc.prems(2) lim by auto
  obtain rv where page: "Events_http env rq' d = Inr (wsOK 200 \<lparr> es_items = map er_data (take (nat limit) (drop a rows)),
    es_more = (nat limit < length rows - a), es_next = int (a + min (nat limit) (length rows - a)) \<rparr> rv)"
    using Events_page [OF ok _ _ Suc.prems(1) q(2) rows Suc.prems(3)] r i q(1) by metis
  show ?case
  proof (cases "nat limit < length rows - a")
    case True
    let ?a = "a + nat limit"
    have le: "?a \<le> length rows" "length rows - ?a < n" using True pos Suc.prems(4) by auto
    have w: "wsInt ''after_sequence'' 0 0 (2 ^ 30) (set_after (int ?a) rq') = Inr (int ?a)"
      by (rule after_read) (use le(1) small in linarith)
    have "set_after (int ?a) rq' = rq \<or> (\<exists>n. set_after (int ?a) rq' = set_after n rq)" using Suc.prems(2) by auto
    from Suc.IH [OF w this le] obtain ps where ps: "poll_events n env (set_after (int ?a) rq') d = Some ps"
      "concat ps = map er_data (drop ?a rows)" "\<forall>p \<in> set ps. length p \<le> nat limit" by blast
    have "poll_events (Suc n) env rq' d = Some (map er_data (take (nat limit) (drop a rows)) # ps)"
      using True ps(1) by (simp add: page wsOK_def min_def)
    moreover have "concat (map er_data (take (nat limit) (drop a rows)) # ps) = map er_data (drop a rows)"
      using ps(2) by (simp, metis add.commute append_take_drop_id drop_drop map_append)
    ultimately show ?thesis using ps(3) by auto
  next
    case False
    then have "poll_events (Suc n) env rq' d = Some [map er_data (take (nat limit) (drop a rows))]" by (simp add: page wsOK_def)
    with False show ?thesis by simp
  qed
qed simp

text \<open>C29. The event feed is complete. A client that reads the events of a run from the start and asks again after the last
  sequence number it got, until there is nothing more, gets every event of the run exactly once, in order, numbered
  without a gap from 1, in pages of at most the requested size.\<close>

theorem events_complete:
  assumes "core_ok d" and "get_run (wr_param rq ''id'') d = Inr r"
    and "query_of rq ''after_sequence'' = []" and "wsInt ''limit'' 100 1 200 rq = Inr limit"
    and "length (run_rows (run_id r) d) \<le> 2 ^ 30"
  shows "\<exists>ps. poll_events (Suc (length (run_rows (run_id r) d))) env rq d = Some ps
    \<and> concat ps = map er_data (run_rows (run_id r) d) \<and> (\<forall>p \<in> set ps. length p \<le> nat limit)
    \<and> map ev_sequence (concat ps) = [1..<Suc (length (run_rows (run_id r) d))]"
proof -
  have ok: "events_ok d" and rok: "runs_ok d" using assms(1) by (simp_all add: core_ok_def)
  have i: "run_id r = wr_param rq ''id''" by (rule get_run_id [OF rok assms(2)])
  have a: "wsInt ''after_sequence'' 0 0 (2 ^ 30) rq = Inr (int 0)" using assms(3) by (simp add: wsInt_def)
  obtain ps where ps: "poll_events (Suc (length (run_rows (run_id r) d))) env rq d = Some ps"
    "concat ps = map er_data (drop 0 (run_rows (run_id r) d))" "\<forall>p \<in> set ps. length p \<le> nat limit"
    using poll_from [OF ok assms(2) i assms(4) refl assms(5) a, where n = "Suc (length (run_rows (run_id r) d))" and env = env] by auto
  have "map (ev_sequence \<circ> er_data) (run_rows (run_id r) d) = map er_seq (run_rows (run_id r) d)"
    using ok by (auto simp: run_rows_def events_ok_def list_all_iff event_agrees_def)
  also have "\<dots> = [1..<Suc (length (run_rows (run_id r) d))]"
    using events_ok_dense [OF ok, of "run_id r"] by (simp add: dense_def run_seqs_def run_rows_def)
  finally show ?thesis using ps by auto
qed

definition ex_events_request :: web_request where
  "ex_events_request = \<lparr> wr_path = ''/api/v1/runs/:id/events'', wr_query = [(''limit'', ''1'')], wr_param = (\<lambda>_. ''r''),
     wr_header = (\<lambda>_. []), wr_body = [] \<rparr>"

text \<open>A queued run with two events.\<close>

definition ex_event :: "nat \<Rightarrow> event_row" where
  "ex_event n = \<lparr> er_id = event_id ''r'' n, er_run = ''r'', er_seq = n, er_data = \<lparr> ev_event_id = event_id ''r'' n, ev_run_id = ''r'',
     ev_attempt = 0, ev_sequence = n, ev_stage = ''queue'', ev_stage_attempt = 1, ev_kind = ''succeeded'', ev_occurred_at = [],
     ev_duration_ms = None, ev_result_ref = None, ev_error = None \<rparr> \<rparr>"

definition ex_events_db :: db where
  "ex_events_db = ex_queued\<lparr>t_events := [ex_event 1]\<rparr>"

theorem events_complete_witness:
  "\<exists>ps. poll_events 2 ex_api ex_events_request ex_events_db = Some ps \<and> map ev_sequence (concat ps) = [1]"
proof -
  have "core_ok ex_queued" using ws_ok_ex_queued by (simp add: ws_ok_def)
  then have c: "core_ok ex_events_db"
    by (auto simp: core_ok_def ex_events_db_def ex_queued_def empty_db_def runs_ok_def events_ok_def incidents_ok_def links_ok_def
        evidence_ok_def outbox_ok_def queue_ok_def tok_def row_agrees_def ex_run_def dispatch_state_def ex_event_def event_agrees_def
        diagnosis_outbox_def diagnosis_row_def has_run_def tget_def run_links_def dense_def run_seqs_def)
  have r: "get_run (wr_param ex_events_request ''id'') ex_events_db = Inr (ex_run ''queued'')"
    by (simp add: get_run_def ex_events_request_def ex_events_db_def ex_queued_def tget_def)
  have rows: "run_rows (run_id (ex_run ''queued'')) ex_events_db = [ex_event 1]"
    by (simp add: run_rows_def ex_events_db_def ex_event_def ex_run_def)
  have q: "query_of ex_events_request ''after_sequence'' = []" "wsInt ''limit'' 100 1 200 ex_events_request = Inr 1"
    by (simp_all add: wsInt_def query_of_def ex_events_request_def atoi_def has_prefix_def is_digit_def less_eq_char_def Let_def)
  from events_complete [OF c r q, of ex_api] rows show ?thesis by (auto simp: numeral_2_eq_2)
qed

section \<open>The graph around a focus\<close>

text \<open>Two nodes are linked when an edge joins them, in either direction.\<close>

definition linked :: "edge list \<Rightarrow> string \<Rightarrow> string \<Rightarrow> bool" where
  "linked es x y \<longleftrightarrow> (\<exists>e \<in> set es. eg_source e = x \<and> eg_target e = y \<or> eg_source e = y \<and> eg_target e = x)"

lemma spread_iff: "x \<in> spread es V \<longleftrightarrow> x \<in> V \<or> (\<exists>y \<in> V. linked es y x)"
  by (auto simp: spread_def linked_def)

text \<open>Spreading is breadth-first search: after \<open>k\<close> rounds exactly the nodes at most \<open>k\<close> links away are visible.\<close>

lemma spread_ball: "x \<in> (spread es ^^ k) V \<longleftrightarrow> (\<exists>y \<in> V. \<exists>m \<le> k. (linked es ^^ m) y x)"
proof (induction k arbitrary: x)
  case 0
  then show ?case by auto
next
  case (Suc k)
  show ?case
  proof
    assume "x \<in> (spread es ^^ Suc k) V"
    then consider "x \<in> (spread es ^^ k) V" | z where "z \<in> (spread es ^^ k) V" "linked es z x" by (auto simp: spread_iff)
    then show "\<exists>y \<in> V. \<exists>m \<le> Suc k. (linked es ^^ m) y x"
    proof cases
      case 1
      then show ?thesis using Suc by (meson le_SucI)
    next
      case 2
      then obtain y m where "y \<in> V" "m \<le> k" "(linked es ^^ m) y z" using Suc by blast
      with 2(2) have "(linked es ^^ Suc m) y x" "Suc m \<le> Suc k" by auto
      with \<open>y \<in> V\<close> show ?thesis by blast
    qed
  next
    assume "\<exists>y \<in> V. \<exists>m \<le> Suc k. (linked es ^^ m) y x"
    then obtain y m where ym: "y \<in> V" "m \<le> Suc k" "(linked es ^^ m) y x" by blast
    show "x \<in> (spread es ^^ Suc k) V"
    proof (cases "m \<le> k")
      case True
      then show ?thesis using Suc ym by (auto simp: spread_iff)
    next
      case False
      with ym(2) have "m = Suc k" by simp
      with ym(3) obtain z where "(linked es ^^ k) y z" "linked es z x" by auto
      then have "z \<in> (spread es ^^ k) V" using Suc ym(1) by blast
      with \<open>linked es z x\<close> show ?thesis by (auto simp: spread_iff)
    qed
  qed
qed

text \<open>The nodes the search starts from: the focus, and the whole graph when the request names neither a focus nor a depth.\<close>

definition start_nodes :: "web_request \<Rightarrow> graph \<Rightarrow> string set" where
  "start_nodes rq g = insert (focus_of rq)
     (if query_of rq ''focus_id'' = [] \<and> query_of rq ''depth'' = [] then nd_id ` set (gr_nodes g) else {})"

lemma Graph_truncated:
  assumes "Graph show_obs i run nl el now d = Inr g"
  shows "gr_truncated g \<longleftrightarrow> gr_omitted_nodes g + gr_omitted_edges g \<noteq> 0"
proof -
  have "length (filter P es) \<le> length es" for P and es :: "edge list" by simp
  then have b: "gr_truncated (bounded_graph r i rid nl el now w) \<longleftrightarrow>
      gr_omitted_nodes (bounded_graph r i rid nl el now w) + gr_omitted_edges (bounded_graph r i rid nl el now w) \<noteq> 0" for r rid w
    by (cases w) (auto simp: bounded_graph_def Let_def)
  from assms obtain inc where "get_incident i d = Inr inc" by (auto simp: Graph_def res_bind_eq_Inr)
  note inc = this
  show ?thesis
  proof (cases "run = [] \<and> inc_latest_run_id inc = None")
    case True
    with assms inc have "g = empty_graph inc" by (simp add: Graph_def)
    then show ?thesis by (simp add: empty_graph_def)
  next
    case False
    with assms inc obtain r rid w where "g = bounded_graph r i rid nl el now w"
      by (simp only: Graph_def Let_def res_bind_simps if_False ensure_eq_Inr res_bind_eq_Inr) blast
    then show ?thesis by (simp only: b)
  qed
qed

text \<open>C30. The graph endpoint returns a bounded, closed part of the evidence graph around the focus. It has at most the
  requested numbers of nodes and edges; its nodes and edges are those of the graph of the run; both ends of every edge are
  shown; every node is at most \<open>depth\<close> links away from the nodes the search starts from; what is not shown is counted
  exactly, and the answer is marked as truncated exactly when something is left out.\<close>

theorem Graph_http_closed:
  assumes "Graph_http env rq d = Inr p"
  shows "\<exists>g0 depth nodes edges. Graph (ap_show_obs env) (wr_param rq ''id'') (query_of rq ''run_id'') 300 600 (ap_now env) d = Inr g0
    \<and> wsInt ''depth'' 1 1 2 rq = Inr depth \<and> wsInt ''node_limit'' 60 1 300 rq = Inr nodes \<and> wsInt ''edge_limit'' 120 1 600 rq = Inr edges
    \<and> length (gr_nodes (rp_data p)) \<le> nat nodes \<and> length (gr_edges (rp_data p)) \<le> nat edges
    \<and> set (gr_nodes (rp_data p)) \<subseteq> set (gr_nodes g0) \<and> set (gr_edges (rp_data p)) \<subseteq> set (gr_edges g0)
    \<and> (\<forall>e \<in> set (gr_edges (rp_data p)). {eg_source e, eg_target e} \<subseteq> nd_id ` set (gr_nodes (rp_data p)))
    \<and> (\<forall>n \<in> set (gr_nodes (rp_data p)). \<exists>y \<in> start_nodes rq g0. \<exists>m \<le> nat depth. (linked (gr_edges g0) ^^ m) y (nd_id n))
    \<and> length (gr_nodes (rp_data p)) + gr_omitted_nodes (rp_data p) = length (gr_nodes g0) + gr_omitted_nodes g0
    \<and> length (gr_edges (rp_data p)) + gr_omitted_edges (rp_data p) = length (gr_edges g0) + gr_omitted_edges g0
    \<and> (gr_truncated (rp_data p) \<longleftrightarrow> gr_omitted_nodes (rp_data p) + gr_omitted_edges (rp_data p) \<noteq> 0)"
proof -
  from assms obtain depth nodes edges g0 where
    w: "wsInt ''depth'' 1 1 2 rq = Inr depth" "wsInt ''node_limit'' 60 1 300 rq = Inr nodes" "wsInt ''edge_limit'' 120 1 600 rq = Inr edges"
    and g0: "Graph (ap_show_obs env) (wr_param rq ''id'') (query_of rq ''run_id'') 300 600 (ap_now env) d = Inr g0"
    and p: "rp_data p = cut_graph (visible_nodes rq (nat depth) g0) (nat nodes) (nat edges) g0"
    by (auto simp: Graph_http_def res_bind_eq_Inr wsOK_def)
  define V where "V = visible_nodes rq (nat depth) g0"
  define kn where "kn = take (nat nodes) (filter (\<lambda>n. nd_id n \<in> V) (gr_nodes g0))"
  define ke where "ke = take (nat edges) (filter (\<lambda>e. eg_source e \<in> nd_id ` set kn \<and> eg_target e \<in> nd_id ` set kn) (gr_edges g0))"
  have g: "gr_nodes (rp_data p) = kn" "gr_edges (rp_data p) = ke"
    "gr_omitted_nodes (rp_data p) = gr_omitted_nodes g0 + (length (gr_nodes g0) - length kn)"
    "gr_omitted_edges (rp_data p) = gr_omitted_edges g0 + (length (gr_edges g0) - length ke)"
    by (simp_all add: p cut_graph_def keep_edges_take Let_def kn_def ke_def V_def)
  have tr: "gr_truncated (rp_data p) \<longleftrightarrow> gr_truncated g0 \<or> gr_omitted_nodes (rp_data p) > 0 \<or> gr_omitted_edges (rp_data p) > 0"
    by (simp add: p cut_graph_def Let_def)
  have len: "length kn \<le> length (gr_nodes g0)" "length ke \<le> length (gr_edges g0)"
    unfolding kn_def ke_def using length_filter_le order_trans by (auto simp: min_le_iff_disj)
  have kn: "n \<in> set kn \<Longrightarrow> n \<in> set (gr_nodes g0) \<and> nd_id n \<in> V" for n by (auto simp: kn_def dest: in_set_takeD)
  have ke: "e \<in> set ke \<Longrightarrow> e \<in> set (gr_edges g0) \<and> eg_source e \<in> nd_id ` set kn \<and> eg_target e \<in> nd_id ` set kn" for e
    unfolding ke_def by (auto dest: in_set_takeD)
  have ball: "\<exists>y \<in> start_nodes rq g0. \<exists>m \<le> nat depth. (linked (gr_edges g0) ^^ m) y (nd_id n)" if "n \<in> set kn" for n
    using kn [OF that] spread_ball [where x = "nd_id n" and es = "gr_edges g0" and k = "nat depth" and V = "start_nodes rq g0"]
    by (simp add: V_def visible_nodes_def start_nodes_def)
  have trunc: "gr_truncated (rp_data p) \<longleftrightarrow> gr_omitted_nodes (rp_data p) + gr_omitted_edges (rp_data p) \<noteq> 0"
    using tr Graph_truncated [OF g0] g(3,4) by auto
  have size: "length kn \<le> nat nodes" "length ke \<le> nat edges" by (simp_all add: kn_def ke_def)
  have subs: "set kn \<subseteq> set (gr_nodes g0)" "set ke \<subseteq> set (gr_edges g0)" using kn ke by auto
  have ends: "\<forall>e \<in> set ke. {eg_source e, eg_target e} \<subseteq> nd_id ` set kn" using ke by simp
  have counts: "length kn + gr_omitted_nodes (rp_data p) = length (gr_nodes g0) + gr_omitted_nodes g0"
    "length ke + gr_omitted_edges (rp_data p) = length (gr_edges g0) + gr_omitted_edges g0" using len g(3,4) by simp_all
  have balls: "\<forall>n \<in> set kn. \<exists>y \<in> start_nodes rq g0. \<exists>m \<le> nat depth. (linked (gr_edges g0) ^^ m) y (nd_id n)" using ball by blast
  show ?thesis
    unfolding g(1,2)
    by (rule exI [of _ g0], rule exI [of _ depth], rule exI [of _ nodes], rule exI [of _ edges])
       (intro conjI; fact w g0 trunc size subs ends balls counts)
qed

definition ex_graph_request :: web_request where
  "ex_graph_request = \<lparr> wr_path = ''/api/v1/incidents/:id/graph'',
     wr_query = [(''node_limit'', ''1''), (''focus_id'', inc_id (ir_data ex_incident))], wr_param = (\<lambda>_. ''i''),
     wr_header = (\<lambda>_. []), wr_body = [] \<rparr>"

lemma ex_graph_served: "\<exists>p. Graph_http ex_api ex_graph_request ex_graph_db = Inr p"
proof -
  have q: "query_of ex_graph_request ''run_id'' = []" "query_of ex_graph_request ''focus_id'' = inc_id (ir_data ex_incident)"
    "inc_id (ir_data ex_incident) \<noteq> []" "wr_param ex_graph_request ''id'' = ''i''"
    by (simp_all add: query_of_def ex_graph_request_def ex_incident_def new_incident_def stableID_def)
  have w: "wsInt ''depth'' 1 1 2 ex_graph_request = Inr 1" "wsInt ''node_limit'' 60 1 300 ex_graph_request = Inr 1"
    "wsInt ''edge_limit'' 120 1 600 ex_graph_request = Inr 120"
    by (simp_all add: wsInt_def query_of_def ex_graph_request_def atoi_def has_prefix_def is_digit_def less_eq_char_def Let_def)
  obtain g where g: "Graph (ap_show_obs ex_api) ''i'' [] 300 600 (ap_now ex_api) ex_graph_db = Inr g"
    "inc_id (ir_data ex_incident) \<in> nd_id ` set (gr_nodes g)"
    by (simp add: Graph_def ex_graph_db_def ex_running_def get_incident_def get_run_def tget_def ensure_def deref_def
      bounded_graph_def whole_graph_def run_evidence_def empty_db_def ex_run_def queued_run_def node_bound_def incident_node_def Let_def)
  with q w show ?thesis by (simp add: Graph_http_def web_of_def guard_def focus_of_def)
qed

theorem Graph_http_closed_witness:
  "\<exists>p. Graph_http ex_api ex_graph_request ex_graph_db = Inr p \<and> length (gr_nodes (rp_data p)) \<le> 1 \<and> length (gr_edges (rp_data p)) \<le> 120"
proof -
  obtain p where p: "Graph_http ex_api ex_graph_request ex_graph_db = Inr p" using ex_graph_served by blast
  have "wsInt ''node_limit'' 60 1 300 ex_graph_request = Inr 1" "wsInt ''edge_limit'' 120 1 600 ex_graph_request = Inr 120"
    by (simp_all add: wsInt_def query_of_def ex_graph_request_def atoi_def has_prefix_def is_digit_def less_eq_char_def Let_def)
  with Graph_http_closed [OF p] have "length (gr_nodes (rp_data p)) \<le> nat 1" "length (gr_edges (rp_data p)) \<le> nat 120" by auto
  with p show ?thesis by auto
qed

section \<open>Concurrent edits\<close>

lemma restored_doc: "restored sv doc v k = ((e, doc', v'), k') \<Longrightarrow> doc' = doc"
  by (auto simp: restored_def split: prod.splits)

lemma put_doc_id:
  assumes ok: "knowledge_ok (ks_db k)" and i: "i \<noteq> []"
    and put: "PutDocument sv env i title content source environment expected key now k = ((None, doc, v), k')"
  shows "doc_id doc = i"
proof -
  have id: "doc_id x = i" if "get_document i d = Inr x" "knowledge_ok d" for x d
    using get_document_ok that by (auto simp: knowledge_ok_def)
  let ?t = "trim_space title" and ?e = "or_else environment ''unknown''"
  let ?body = "hash (json_strings [i, ?t, content, source, ?e])"
  consider (rep) doc0 v0 where "repeated_put (''document:'' @ i) key ?body i (ks_db k) = Some (Inr (doc0, v0))"
      "restored sv doc0 v0 k = ((None, doc, v), k')"
    | (same) doc0 d old where "target_document i ?t content source ?e expected (''local:'' @ source) (ks_db k) = Inr (doc0, d)"
      "restored sv doc0 old (k\<lparr>ks_db := ignore_idempotency (''document:'' @ i) key ?body (ver_id old) d\<rparr>) = ((None, doc, v), k')"
    | (stage) doc0 d where "target_document i ?t content source ?e expected (''local:'' @ source) (ks_db k) = Inr (doc0, d)"
      "stage_and_publish sv env doc0 i ?t content source ?e (''document:'' @ i) key ?body now (k\<lparr>ks_db := d\<rparr>) = ((None, doc, v), k')"
    using put i by (auto simp: PutDocument_def Let_def split: if_splits option.splits sum.splits prod.splits)
  then show ?thesis
  proof cases
    case rep
    then show ?thesis using repeated_put_Inr [OF rep(1)] restored_doc [OF rep(2)] id ok by blast
  next
    case same
    then show ?thesis using target_document_effect [OF same(1) ok] restored_doc [OF same(2)] id by blast
  next
    case stage
    have "doc_id doc0 = i" using target_document_effect [OF stage(1) ok] id by blast
    moreover from stage(2) refl refl have "doc_id doc = doc_id doc0"
      by (cases rule: stage_and_publish_cases) (auto dest!: restored_doc [OF sym] simp: pointed_def)
    ultimately show ?thesis by simp
  qed
qed

lemma length_trim_left: "length (trim_left s) \<le> length s"
  by (induction s rule: trim_left.induct) (subst trim_left.simps, auto split: option.split intro: le_trans)

lemma length_trim_right: "length (trim_right s) \<le> length s"
  by (induction s rule: trim_right.induct) (subst trim_right.simps, auto split: option.split intro: le_trans)

lemma length_trim_space: "length (trim_space s) \<le> length s"
  unfolding trim_space_def using length_trim_left length_trim_right le_trans by blast

text \<open>C15. No update is lost. When two clients edit the same version of a document and the first one's update succeeds with
  a new version, the second one, which still names the old version in \<open>If-Match\<close>, is refused with 409 and changes nothing.\<close>

theorem no_lost_update:
  assumes ok: "knowledge_ok (ds_db s)" and first: "UpdateDocument_http env rq s = (Inr p, s')"
    and new: "ifMatch rq = Inr expected" "doc_active_version_id (fst (rp_data p)) \<noteq> Some expected"
    and same: "wr_param rq' ''id'' = wr_param rq ''id''" "wr_param rq ''id'' \<noteq> []" "ifMatch rq' = ifMatch rq"
    and second: "check_write env' True rq' = Inr x" "trim_space (wr_header rq' ''Idempotency-Key'') = []"
  shows "UpdateDocument_http env' rq' s' = (Inl (wsError 409 ''conflict'' False), s')"
proof -
  let ?i = "wr_param rq ''id''"
  obtain q0 e0 key0 where c: "check_write env True rq = Inr (q0, e0, key0)"
    using first by (cases "check_write env True rq") (auto simp: UpdateDocument_http_def writeDocument_def)
  obtain e doc v k where put0: "PutDocument (ap_service env) (ap_put env) ?i (dq_title q0) (dq_content q0) ''upload''
      (dq_environment q0) e0 key0 (ap_now env) (ds_k s) = ((e, doc, v), k)" by (metis surj_pair)
  then have e: "e = None" and p: "fst (rp_data p) = doc" and s': "s' = s\<lparr>ds_k := k\<rparr>"
    using first c by (auto simp: UpdateDocument_http_def writeDocument_def wsOK_def split: option.splits)
  note put = put0 [unfolded e]
  have "put_ok (ap_service env) (ds_k s) ((None, doc, v), k)" using put_ok_PutDocument [OF ok] put by metis
  then have d: "get_document (doc_id doc) (ks_db k) = Inr doc" by (simp add: put_ok_def)
  have i: "doc_id doc = ?i" by (rule put_doc_id [OF ok same(2) put])
  obtain q where x: "x = (q, expected, [])" and q: "trim_space (dq_title q) \<noteq> []" "length (dq_title q) \<le> 512"
    "trim_space (dq_content q) \<noteq> []" "length (dq_content q) \<le> 512 * 1024"
    using second same(3) new(1) by (auto simp: check_write_def Let_def res_bind_eq_Inr)
  have ne: "expected \<noteq> []" using new(1) by (auto simp: ifMatch_def Let_def)
  have "length (trim_space (dq_title q)) \<le> 512" using q(2) length_trim_space [of "dq_title q"] by simp
  note len = this
  have "\<exists>doc'. PutDocument (ap_service env') (ap_put env') ?i (dq_title q) (dq_content q) ''upload'' (dq_environment q) expected [] (ap_now env') k
      = ((Some ErrConflict, doc', zero_version), k)"
    by (rule PutDocument_conflict [OF q(1) len q(3,4) _ same(2) ne]) (use d i new(2) p in auto)
  then show ?thesis
    using second x same(1) by (auto simp add: UpdateDocument_http_def writeDocument_def s' wsFail_def)
qed

definition ex_edit :: web_request where
  "ex_edit = \<lparr> wr_path = ''/api/v1/documents/:id'', wr_query = [], wr_param = (\<lambda>_. ''d''),
     wr_header = (\<lambda>h. if h = ''If-Match'' then ''v'' else []), wr_body = ''edit'' \<rparr>"

definition ex_edit_api :: api_env where
  "ex_edit_api = ex_api\<lparr>ap_parse := (\<lambda>_. Some (JObj [(''title'', JStr ''x''), (''content'', JStr ''x'')]))\<rparr>"

definition ex_edit_state :: dstate where
  "ex_edit_state = \<lparr> ds_k = ex_published\<lparr>ks_rag := new_rag\<rparr>, ds_tasks = [] \<rparr>"

lemma ex_edit_checked: "check_write ex_edit_api True ex_edit = Inr (\<lparr> dq_title = ''x'', dq_content = ''x'', dq_source = [], dq_environment = [] \<rparr>, ''v'', [])"
proof -
  have t: "trim_space ''x'' = ''x''" "trim_space [] = []" by code_simp+
  show ?thesis
    by (simp add: check_write_def wsJSON_def wsBody_def guard_def ex_edit_def ex_edit_api_def ex_api_def decode_document_req_def str_field_def
        jvalues_def to_lower_def lower_char_def set_string_def t ifMatch_def trim_quotes_def Let_def)
qed

lemma ex_edit_chunks: "ChunkMarkdown ''x'' ''x'' = [\<lparr> mc_doc = ''x'', mc_title = ''x'', mc_snippet = ''x'' \<rparr>]"
  by (simp add: ChunkMarkdown_def heading_level_def ex_trim has_prefix_def doc_title_of_def parseHeading_def
      flush_chunk_def Let_def)

lemma ex_edit_put:
  "\<exists>doc v k'. PutDocument ex_sv ex_env ''d'' ''x'' ''x'' ''upload'' [] ''v'' [] 7 (ex_published\<lparr>ks_rag := new_rag\<rparr>) = ((None, doc, v), k')
     \<and> doc_active_version_id doc \<noteq> Some ''v''"
proof -
  have nz: "version_key a b c e f \<noteq> []" "version_key a b c e f \<noteq> ''v''" "''v'' \<noteq> version_key a b c e f" for a b c e f
    by (simp_all add: version_key_def stableID_def)
  let ?p = "PutDocument ex_sv ex_env ''d'' ''x'' ''x'' ''upload'' [] ''v'' [] 7 (ex_published\<lparr>ks_rag := new_rag\<rparr>)"
  have "fst (fst ?p) = None \<and> doc_active_version_id (fst (snd (fst ?p))) \<noteq> Some ''v''"
    by (simp add: PutDocument_def ex_trim ex_published_def ex_env_def ex_sv_def repeated_put_def target_document_def
       tget_def empty_db_def insert_document_def tins_def unchanged_version_def create_document_def Let_def with_doc_def
       ensure_def res_bind_def stage_and_publish_def or_else_def IndexVersion_def nz ex_edit_chunks index_chunk_def
       validateSpace_def new_rag_def publish_def supersede_def update_document_def staged_def upsert_version_def
       ignore_idempotency_def update_version_def pointed_def tupd_def tok_def activated_def add_chunk_def tign_def
       replace_idempotency_def restored_def RestoreProjection_def list_documents_def get_version_def ex_document_def ex_version_def
       split: prod.splits)
  then show ?thesis by (cases ?p rule: prod.exhaust) (auto simp: prod_eq_iff)
qed

theorem no_lost_update_witness:
  "\<exists>p s'. UpdateDocument_http ex_edit_api ex_edit ex_edit_state = (Inr p, s')
     \<and> UpdateDocument_http ex_edit_api ex_edit s' = (Inl (wsError 409 ''conflict'' False), s')"
proof -
  obtain doc v k where put: "PutDocument ex_sv ex_env ''d'' ''x'' ''x'' ''upload'' [] ''v'' [] 7 (ex_published\<lparr>ks_rag := new_rag\<rparr>) = ((None, doc, v), k)"
    and new: "doc_active_version_id doc \<noteq> Some ''v''" using ex_edit_put by blast
  have env: "ap_service ex_edit_api = ex_sv" "ap_put ex_edit_api = ex_env" "ap_now ex_edit_api = 7" by (simp_all add: ex_edit_api_def ex_api_def)
  have rq: "wr_param ex_edit ''id'' = ''d''" "ifMatch ex_edit = Inr ''v''" "trim_space (wr_header ex_edit ''Idempotency-Key'') = []"
    using trim_left_Nil trim_right_Nil by (simp_all add: ex_edit_def ifMatch_def trim_quotes_def trim_space_def)
  have u: "UpdateDocument_http ex_edit_api ex_edit ex_edit_state = (Inr (wsOK 200 (doc, v, quoted (ver_id v)) 1), ex_edit_state\<lparr>ds_k := k\<rparr>)"
    using put by (simp add: UpdateDocument_http_def writeDocument_def ex_edit_checked env rq ex_edit_state_def)
  have "knowledge_ok (ds_db ex_edit_state)" using knowledge_ok_ex_published by (simp add: ex_edit_state_def)
  from no_lost_update [OF this u rq(2) _ refl _ refl ex_edit_checked rq(3)] new u show ?thesis by (auto simp: wsOK_def rq)
qed

end
