(* ===== verification/Tools.thy ===== *)
theory Tools
  imports Rag Admission GoUrl "HOL-Library.Multiset"
begin

text \<open>
  The read-only tools of the assistant (\<open>src/internal/tool\<close>): the allow list and the definitions offered to
  the language model (\<open>tool.go\<close>), the dispatcher (\<open>exec.go\<close>), the knowledge search (\<open>rag_tool.go\<close>), the
  Prometheus query (\<open>prom_query.go\<close>), the deployment time line (\<open>deploy_events.go\<close>) and the clock
  (\<open>time.go\<close>).

  What the tools reach outside the program is a field of \<open>tool_env\<close>: the JSON reader of the standard library,
  the clock and the offset of the local zone, HTTP GET requests with a bearer token (empty for none), and the
  embedding and vector search behind the knowledge search. Spans and counters are not modelled. A time that was
  parsed with an offset prints with that offset, so a bound of the window is an instant with its offset in seconds.
\<close>

section \<open>The allow list\<close>

definition baseTools :: "string list" where
  "baseTools = [''time_now'', ''rag_search'', ''prometheus_query'']"

definition AllowedFor :: "string \<Rightarrow> string list" where
  "AllowedFor repo = (if trim_space repo = [] then baseTools else baseTools @ [''deploy_events''])"

definition IsAllowed :: "string \<Rightarrow> string \<Rightarrow> bool" where
  "IsAllowed repo name \<longleftrightarrow> list_ex (\<lambda>a. a = name) (AllowedFor repo)"

record function_schema =
  fs_name :: string
  fs_description :: string
  fs_parameters :: json

record tool_definition =
  td_type :: string
  td_function :: function_schema

definition object_schema :: "(string \<times> json) list \<Rightarrow> (string \<times> json) list \<Rightarrow> json" where
  "object_schema props extra = JObj ([(''type'', JStr ''object''), (''properties'', JObj props)] @ extra)"

definition field_schema :: "string \<Rightarrow> string \<Rightarrow> json" where
  "field_schema ty descr = JObj [(''type'', JStr ty), (''description'', JStr descr)]"

definition DefinitionsFor :: "string \<Rightarrow> tool_definition list" where
  "DefinitionsFor repo =
     (let defs =
        [\<lparr> td_type = ''function'', td_function = \<lparr> fs_name = ''time_now'', fs_description =
             bytes [0xE8, 0xBF, 0x94, 0xE5, 0x9B, 0x9E, 0xE5, 0xBD, 0x93, 0xE5, 0x89, 0x8D, 0xE6, 0x9C, 0x8D, 0xE5,
             0x8A, 0xA1, 0xE5, 0x99, 0xA8, 0xE6, 0x97, 0xB6, 0xE9, 0x97, 0xB4, 0xEF, 0xBC, 0x88, 0xE5, 0x8F, 0xAA,
             0xE8, 0xAF, 0xBB, 0xEF, 0xBC, 0x89, 0xE3, 0x80, 0x82, 0xE6, 0x97, 0xA0, 0xE5, 0x8F, 0x82, 0xE6, 0x95,
             0xB0, 0xE3, 0x80, 0x82],
           fs_parameters = object_schema [] [] \<rparr> \<rparr>,
         \<lparr> td_type = ''function'', td_function = \<lparr> fs_name = ''rag_search'', fs_description =
             bytes [0xE6, 0xA3, 0x80, 0xE7, 0xB4, 0xA2, 0xE8, 0xBF, 0x90, 0xE7, 0xBB, 0xB4, 0xE7, 0x9F, 0xA5, 0xE8,
             0xAF, 0x86, 0xE5, 0xBA, 0x93] @ '' runbook'' @ bytes [0xEF, 0xBC, 0x88, 0xE5, 0x8F, 0xAA, 0xE8, 0xAF,
             0xBB, 0xEF, 0xBC, 0x89, 0xE3, 0x80, 0x82, 0xE8, 0xBF, 0x94, 0xE5, 0x9B, 0x9E] @ '' {doc,snippet,score} ''
             @ bytes [0xE5, 0x88, 0x97, 0xE8, 0xA1, 0xA8, 0xEF, 0xBC, 0x8C, 0xE6, 0x97, 0xA0, 0xE5, 0x8C, 0xB9, 0xE9,
             0x85, 0x8D, 0xE8, 0xBF, 0x94, 0xE5, 0x9B, 0x9E, 0xE7, 0xA9, 0xBA, 0xE3, 0x80, 0x82],
           fs_parameters = object_schema
             [(''query'', field_schema ''string'' (bytes [0xE6, 0xA3, 0x80, 0xE7, 0xB4, 0xA2, 0xE9, 0x97, 0xAE, 0xE9, 0xA2, 0x98])),
              (''top_k'', field_schema ''number''
                (bytes [0xE8, 0xBF, 0x94, 0xE5, 0x9B, 0x9E, 0xE6, 0x9D, 0xA1, 0xE6, 0x95, 0xB0, 0xEF, 0xBC, 0x8C, 0xE9,
                0xBB, 0x98, 0xE8, 0xAE, 0xA4] @ '' 3''))]
             [(''required'', JArr [JStr ''query''])] \<rparr> \<rparr>,
         \<lparr> td_type = ''function'', td_function = \<lparr> fs_name = ''prometheus_query'', fs_description =
             bytes [0xE5, 0x8F, 0xAA, 0xE8, 0xAF, 0xBB, 0xE6, 0x9F, 0xA5, 0xE8, 0xAF, 0xA2] @ '' Prometheus '' @ bytes
             [0xE5, 0x8D, 0xB3, 0xE6, 0x97, 0xB6, 0xE5, 0x90, 0x91, 0xE9, 0x87, 0x8F, 0xEF, 0xBC, 0x88] @ ''GET
             /api/v1/query'' @ bytes [0xEF, 0xBC, 0x89, 0xE3, 0x80, 0x82, 0xE4, 0xB8, 0x8D, 0xE5, 0x81, 0x9A, 0xE7,
             0xA1, 0xAE, 0xE8, 0xAE, 0xA4] @ ''/'' @ bytes [0xE9, 0x9D, 0x99, 0xE9, 0xBB, 0x98, 0xE7, 0xAD, 0x89,
             0xE5, 0x86, 0x99, 0xE6, 0x93, 0x8D, 0xE4, 0xBD, 0x9C, 0xE3, 0x80, 0x82],
           fs_parameters = object_schema
             [(''query'', field_schema ''string''
                (''PromQL'' @ bytes [0xEF, 0xBC, 0x8C, 0xE5, 0xA6, 0x82] @ '' up '' @ bytes [0xE6, 0x88, 0x96] @ ''
                alert:xxx''))]
             [(''required'', JArr [JStr ''query''])] \<rparr> \<rparr>]
      in if trim_space repo = [] then defs
         else defs @
        [\<lparr> td_type = ''function'', td_function = \<lparr> fs_name = ''deploy_events'', fs_description =
             bytes [0xE5, 0x8F, 0xAA, 0xE8, 0xAF, 0xBB, 0xE6, 0x8B, 0x89, 0xE5, 0x8F, 0x96, 0xE9, 0x85, 0x8D, 0xE7,
             0xBD, 0xAE, 0xE4, 0xBB, 0x93, 0xE5, 0xBA, 0x93, 0xE6, 0x9C, 0x80, 0xE8, 0xBF, 0x91, 0xE5, 0x8F, 0x98,
             0xE6, 0x9B, 0xB4, 0xEF, 0xBC, 0x88] @ ''GitHub commits+deployments '' @ bytes [0xE5, 0x90, 0x88, 0xE6,
             0x88, 0x90, 0xE6, 0x97, 0xB6, 0xE9, 0x97, 0xB4, 0xE7, 0xBA, 0xBF, 0xEF, 0xBC, 0x8C] @ ''v0.7 '' @ bytes
             [0xE5, 0x8F, 0x98, 0xE6, 0x9B, 0xB4, 0xE5, 0xAF, 0x8C, 0xE5, 0x8C, 0x96, 0xEF, 0xBC, 0x89, 0xE3, 0x80,
             0x82, 0xE5, 0x8F, 0x82, 0xE6, 0x95, 0xB0] @ '' since/until '' @ bytes [0xE5, 0x8F, 0xAF, 0xE9, 0x80,
             0x89, 0xEF, 0xBC, 0x88] @ ''RFC3339'' @ bytes [0xEF, 0xBC, 0x8C, 0xE7, 0xBC, 0xBA, 0xE7, 0x9C, 0x81,
             0xE6, 0x9C, 0x80, 0xE8, 0xBF, 0x91] @ '' 24 '' @ bytes [0xE5, 0xB0, 0x8F, 0xE6, 0x97, 0xB6, 0xEF, 0xBC,
             0x89, 0xEF, 0xBC, 0x9B, 0xE4, 0xBB, 0x93, 0xE5, 0xBA, 0x93, 0xE7, 0x94, 0xB1, 0xE6, 0x9C, 0x8D, 0xE5,
             0x8A, 0xA1, 0xE7, 0xAB, 0xAF, 0xE9, 0x85, 0x8D, 0xE7, 0xBD, 0xAE, 0xE9, 0x94, 0x81, 0xE5, 0xAE, 0x9A,
             0xEF, 0xBC, 0x8C, 0xE4, 0xB8, 0x8D, 0xE6, 0x8E, 0xA5, 0xE5, 0x8F, 0x97] @ '' repo '' @ bytes [0xE5, 0x8F,
             0x82, 0xE6, 0x95, 0xB0, 0xE3, 0x80, 0x82, 0xE4, 0xB8, 0x8D, 0xE5, 0x81, 0x9A, 0xE4, 0xBB, 0xBB, 0xE4,
             0xBD, 0x95, 0xE5, 0x86, 0x99, 0xE6, 0x93, 0x8D, 0xE4, 0xBD, 0x9C, 0xE3, 0x80, 0x82],
           fs_parameters = object_schema
             [(''since'', field_schema ''string''
                (bytes [0xE8, 0xB5, 0xB7, 0xE5, 0xA7, 0x8B, 0xE6, 0x97, 0xB6, 0xE9, 0x97, 0xB4] @ '' RFC3339'' @ bytes
                [0xEF, 0xBC, 0x8C, 0xE5, 0x8F, 0xAF, 0xE9, 0x80, 0x89, 0xEF, 0xBC, 0x8C, 0xE7, 0xBC, 0xBA, 0xE7, 0x9C,
                0x81, 0xE6, 0x9C, 0x80, 0xE8, 0xBF, 0x91] @ '' 24 '' @ bytes [0xE5, 0xB0, 0x8F, 0xE6, 0x97, 0xB6])),
              (''until'', field_schema ''string''
                (bytes [0xE7, 0xBB, 0x93, 0xE6, 0x9D, 0x9F, 0xE6, 0x97, 0xB6, 0xE9, 0x97, 0xB4] @ '' RFC3339'' @ bytes
                [0xEF, 0xBC, 0x8C, 0xE5, 0x8F, 0xAF, 0xE9, 0x80, 0x89, 0xEF, 0xBC, 0x8C, 0xE7, 0xBC, 0xBA, 0xE7, 0x9C,
                0x81, 0xE7, 0x8E, 0xB0, 0xE5, 0x9C, 0xA8]))]
             [] \<rparr> \<rparr>])"

section \<open>Errors and the environment\<close>

datatype tool_error =
    SourceUnavailable
  | JoinedUnavailable ws_error
  | Denied string "string list"
  | NilPointer
  | ToolError ws_error

definition tool_err :: "(ws_error \<Rightarrow> tool_error) \<Rightarrow> 'a ws \<Rightarrow> (tool_error, 'a) res" where
  "tool_err f r = (case r of Inl e \<Rightarrow> Inl (f e) | Inr x \<Rightarrow> Inr x)"

record tool_env =
  te_parse :: "string \<Rightarrow> json option"
  te_now :: time
  te_render_now :: time
  te_zone :: int
  te_http :: "string \<Rightarrow> string \<Rightarrow> (nat \<times> string) ws"
  te_dims :: "string \<Rightarrow> nat ws"
  te_vhits :: "string \<Rightarrow> int \<Rightarrow> (point \<times> real) list ws"
  te_float :: "real \<Rightarrow> string"

definition errDeny :: "string \<Rightarrow> string \<Rightarrow> tool_error" where
  "errDeny repo name = Denied name (AllowedFor repo)"

text \<open>\<open>argsOf\<close>: the struct's decoder gets the members of the object.\<close>

definition argsOf :: "(string \<Rightarrow> json option) \<Rightarrow> string \<Rightarrow> ((string \<times> json) list \<Rightarrow> 'a ws) \<Rightarrow> 'a ws" where
  "argsOf parse raw decode =
     (let t = trim_space raw
      in case parse (if t = [] then ''{}'' else t) of
           Some JNull \<Rightarrow> decode []
         | Some (JObj kvs) \<Rightarrow> decode kvs
         | _ \<Rightarrow> Inl ErrJSON)"

section \<open>The knowledge search\<close>

text \<open>The value of a JSON number, and Go's conversion to \<open>int\<close>: towards zero, and on amd64 the least
  integer for a value out of range. A literal that rounds beyond the largest \<open>float64\<close> is an error.\<close>

definition scale10 :: "real \<Rightarrow> int \<Rightarrow> real" where
  "scale10 m e = (if 0 \<le> e then m * 10 ^ nat e else m / 10 ^ nat (- e))"

definition exponent_of :: "string \<Rightarrow> int" where
  "exponent_of s =
     (case s of
        [] \<Rightarrow> 0
      | _ # t \<Rightarrow> if has_prefix t ''-'' then - int (dec_val 0 (tl t))
                 else if has_prefix t ''+'' then int (dec_val 0 (tl t)) else int (dec_val 0 t))"

definition num_val :: "string \<Rightarrow> real" where
  "num_val s =
     (let neg = has_prefix s ''-''; s1 = (if neg then tl s else s);
          ip = takeWhile is_digit s1; r1 = dropWhile is_digit s1;
          fp = (if has_prefix r1 ''.'' then takeWhile is_digit (tl r1) else []);
          r2 = (if has_prefix r1 ''.'' then dropWhile is_digit (tl r1) else r1);
          v = scale10 (real (dec_val 0 (ip @ fp))) (exponent_of r2 - int (length fp))
      in if neg then - v else v)"

definition set_float :: "json \<Rightarrow> real \<Rightarrow> real ws" where
  "set_float v old =
     (case v of
        JNull \<Rightarrow> Inr old
      | JNum s \<Rightarrow> ensure (\<bar>num_val s\<bar> < 2 ^ 1024 - 2 ^ 970) ErrJSON (Inr (num_val s))
      | _ \<Rightarrow> Inl ErrJSON)"

definition go_int :: "real \<Rightarrow> int" where
  "go_int x =
     (let n = (if x < 0 then ceiling x else floor x)
      in if - (2 ^ 63) \<le> n \<and> n < 2 ^ 63 then n else - (2 ^ 63))"

definition clamp_top_k :: "int \<Rightarrow> int" where
  "clamp_top_k k = (if k \<le> 0 then 3 else if 5 < k then 5 else k)"

definition rag_item :: "(real \<Rightarrow> string) \<Rightarrow> rag_result \<Rightarrow> string" where
  "rag_item fl h =
     ''{'' @ json_string ''doc'' @ '':'' @ json_string (res_doc h) @ '','' @ json_string ''score'' @ '':'' @ fl (res_score h)
     @ '','' @ json_string ''snippet'' @ '':'' @ json_string (res_snippet h) @ '','' @ json_string ''source'' @ '':''
     @ json_string (res_source h) @ ''}''"

definition RagSearchWithContext :: "tool_env \<Rightarrow> rag option \<Rightarrow> string \<Rightarrow> (tool_error, string \<times> rag_result list) res" where
  "RagSearchWithContext env r argsJSON =
     res_bind (tool_err ToolError (argsOf (te_parse env) argsJSON (\<lambda>kvs.
        res_bind (str_field ''query'' kvs) (\<lambda>q.
        res_bind (fold_res set_float (jvalues ''top_k'' kvs) 0) (\<lambda>k. Inr (q, k)))))) (\<lambda>(q, k).
     let query = trim_space q; topK = clamp_top_k (go_int k) in
     if query = [] then Inl (ToolError (ErrMsg ''rag_search: query required''))
     else case r of
       None \<Rightarrow> Inl SourceUnavailable
     | Some rg \<Rightarrow>
         res_bind (tool_err JoinedUnavailable
           (SearchWithContext (te_dims env query) (te_vhits env query (topK * 2)) query topK rg)) (\<lambda>hits.
         if hits = [] then Inr (''[]'', [])
         else Inr (''['' @ join_with '','' (map (rag_item (te_float env)) hits) @ '']'', hits)))"

section \<open>The Prometheus query\<close>

definition PromQueryWithContext :: "tool_env \<Rightarrow> string \<Rightarrow> string \<Rightarrow> string ws" where
  "PromQueryWithContext env url argsJSON =
     res_bind (argsOf (te_parse env) argsJSON (\<lambda>kvs. str_field ''query'' kvs)) (\<lambda>q.
     let query = trim_space q;
         base = (if trim_space url \<noteq> [] then trim_slashes (trim_space url) else ''http://localhost:9090'') in
     if query = [] then Inl (ErrMsg ''prometheus_query: query required'')
     else res_bind (te_http env [] (base @ ''/api/v1/query?query='' @ QueryEscape query)) (\<lambda>(status, body).
       let raw = take 4096 body in
       if 300 \<le> status then Inl (ErrMsg (''prometheus '' @ dec status @ '': '' @ raw)) else Inr raw))"

section \<open>The deployment time line\<close>

record deploy_source =
  ds_repo :: string
  ds_token :: string
  ds_base_url :: string

record deploy_event =
  dv_env :: string
  dv_sha :: string
  dv_message :: string
  dv_at :: string

record gh_commit =
  gc_sha :: string
  gc_date :: string
  gc_message :: string

record gh_deployment =
  gd_sha :: string
  gd_environment :: string
  gd_created_at :: string
  gd_description :: string
  gd_ref :: string

definition deployFetchCap :: nat where "deployFetchCap = 10"

definition truncStr :: "string \<Rightarrow> nat \<Rightarrow> string" where
  "truncStr s n = (if length s \<le> n then s else take n s)"

definition shortSHA :: "string \<Rightarrow> string" where
  "shortSHA sha = (if length sha > 7 then take 7 sha else sha)"

definition firstLine :: "string \<Rightarrow> string" where
  "firstLine s = trim_space (takeWhile (\<lambda>c. c \<noteq> CHR 0x0A) s)"

text \<open>The offset of a time that \<open>time.Parse\<close> accepted, and \<open>time.RFC3339\<close> in a zone.\<close>

definition zone_offset :: "string \<Rightarrow> int" where
  "zone_offset s =
     (if has_suffix s ''Z'' then 0
      else case take_zone (drop (length s - 6) s) of Some (off, _) \<Rightarrow> off | None \<Rightarrow> 0)"

definition fmt_zone :: "int \<Rightarrow> string" where
  "fmt_zone off =
     (if off = 0 then ''Z''
      else let m = \<bar>off\<bar> div 60
           in (if off < 0 then ''-'' else ''+'') @ pad_int 2 (m div 60) @ '':'' @ pad_int 2 (m mod 60))"

definition fmt_zoned :: "time \<times> int \<Rightarrow> string" where
  "fmt_zoned = (\<lambda>(t, off). fmt_date_time (t + off * 1000000000) @ fmt_zone off)"

definition parse_zoned :: "string \<Rightarrow> (time \<times> int) option" where
  "parse_zoned s = map_option (\<lambda>t. (t, zone_offset s)) (parse_nano s)"

definition one_day :: int where "one_day = 24 * 3600 * 1000000000"

definition parseWindow :: "time \<Rightarrow> string \<Rightarrow> string \<Rightarrow> ((time \<times> int) \<times> (time \<times> int)) ws" where
  "parseWindow now since until =
     res_bind (if trim_space since \<noteq> [] then res_of (ErrMsg ''deploy_events bad since (want RFC3339)'') (parse_zoned since)
               else Inr (now - one_day, 0)) (\<lambda>s.
     res_bind (if trim_space until \<noteq> [] then res_of (ErrMsg ''deploy_events bad until (want RFC3339)'') (parse_zoned until)
               else Inr (now, 0)) (\<lambda>u. Inr (s, u)))"

definition githubGet :: "tool_env \<Rightarrow> deploy_source \<Rightarrow> string \<Rightarrow> string ws" where
  "githubGet env src path =
     (let b = trim_slashes (trim_space (ds_base_url src));
          base = (if b = [] then ''https://api.github.com'' else b)
      in res_bind (te_http env (trim_space (ds_token src)) (base @ path)) (\<lambda>(status, body).
           let raw = take 65536 body in
           if 300 \<le> status then Inl (ErrMsg (''deploy_events github '' @ dec status @ '': '' @ truncStr raw 256))
           else Inr raw))"

text \<open>Decoding into a struct that holds a value already: \<open>null\<close> leaves it, members overwrite it in order.\<close>

definition set_struct :: "((string \<times> json) list \<Rightarrow> 'a \<Rightarrow> 'a ws) \<Rightarrow> json \<Rightarrow> 'a \<Rightarrow> 'a ws" where
  "set_struct f v old = (case v of JNull \<Rightarrow> Inr old | JObj kvs \<Rightarrow> f kvs old | _ \<Rightarrow> Inl ErrJSON)"

definition set_str :: "string \<Rightarrow> (string \<times> json) list \<Rightarrow> string \<Rightarrow> string ws" where
  "set_str f kvs old = fold_res set_string (jvalues f kvs) old"

definition set_commit_body :: "(string \<times> json) list \<Rightarrow> gh_commit \<Rightarrow> gh_commit ws" where
  "set_commit_body kvs c =
     res_bind (fold_res (set_struct (\<lambda>ks dt. set_str ''date'' ks dt)) (jvalues ''author'' kvs) (gc_date c)) (\<lambda>dt.
     res_bind (set_str ''message'' kvs (gc_message c)) (\<lambda>msg. Inr (c\<lparr>gc_date := dt, gc_message := msg\<rparr>)))"

definition decode_commit :: "json \<Rightarrow> gh_commit ws" where
  "decode_commit j =
     set_struct (\<lambda>kvs c.
        res_bind (set_str ''sha'' kvs (gc_sha c)) (\<lambda>sha.
        res_bind (fold_res (set_struct set_commit_body) (jvalues ''commit'' kvs) c) (\<lambda>c. Inr (c\<lparr>gc_sha := sha\<rparr>))))
       j \<lparr> gc_sha = [], gc_date = [], gc_message = [] \<rparr>"

definition decode_deployment :: "json \<Rightarrow> gh_deployment ws" where
  "decode_deployment j =
     set_struct (\<lambda>kvs d.
        res_bind (set_str ''sha'' kvs []) (\<lambda>sha.
        res_bind (set_str ''environment'' kvs []) (\<lambda>en.
        res_bind (set_str ''created_at'' kvs []) (\<lambda>cr.
        res_bind (set_str ''description'' kvs []) (\<lambda>dc.
        res_bind (set_str ''ref'' kvs []) (\<lambda>rf.
          Inr \<lparr> gd_sha = sha, gd_environment = en, gd_created_at = cr, gd_description = dc, gd_ref = rf \<rparr>))))))
       j \<lparr> gd_sha = [], gd_environment = [], gd_created_at = [], gd_description = [], gd_ref = [] \<rparr>"

definition decode_array :: "(json \<Rightarrow> 'a ws) \<Rightarrow> json option \<Rightarrow> 'a list ws" where
  "decode_array f j =
     (case j of Some JNull \<Rightarrow> Inr [] | Some (JArr xs) \<Rightarrow> map_res f xs | _ \<Rightarrow> Inl ErrJSON)"

definition commit_event :: "gh_commit \<Rightarrow> deploy_event" where
  "commit_event c = \<lparr> dv_env = [], dv_sha = gc_sha c, dv_message = firstLine (gc_message c), dv_at = gc_date c \<rparr>"

definition fetchCommits :: "tool_env \<Rightarrow> deploy_source \<Rightarrow> time \<times> int \<Rightarrow> time \<times> int \<Rightarrow> deploy_event list ws" where
  "fetchCommits env src s u =
     res_bind (githubGet env src (''/repos/'' @ ds_repo src @ ''/commits?per_page=10&since='' @ QueryEscape (fmt_zoned s)
         @ ''&until='' @ QueryEscape (fmt_zoned u))) (\<lambda>raw.
     res_bind (decode_array decode_commit (te_parse env raw)) (\<lambda>cs.
       Inr (map commit_event (if length cs > deployFetchCap then take deployFetchCap cs else cs))))"

definition in_deploy_window :: "time \<Rightarrow> time \<Rightarrow> gh_deployment \<Rightarrow> bool" where
  "in_deploy_window s u d = (case parse_nano (gd_created_at d) of None \<Rightarrow> False | Some t \<Rightarrow> \<not> (t < s \<or> u < t))"

definition deployment_event :: "gh_deployment \<Rightarrow> deploy_event" where
  "deployment_event d =
     \<lparr> dv_env = gd_environment d, dv_sha = gd_sha d,
       dv_message = (if gd_description d = [] then gd_ref d else gd_description d), dv_at = gd_created_at d \<rparr>"

fun deployment_loop :: "time \<Rightarrow> time \<Rightarrow> gh_deployment list \<Rightarrow> deploy_event list \<Rightarrow> deploy_event list" where
  "deployment_loop s u [] evs = evs"
| "deployment_loop s u (d # ds) evs =
     (if \<not> in_deploy_window s u d then deployment_loop s u ds evs
      else let evs' = evs @ [deployment_event d]
           in if deployFetchCap \<le> length evs' then evs' else deployment_loop s u ds evs')"

definition fetchDeployments :: "tool_env \<Rightarrow> deploy_source \<Rightarrow> time \<times> int \<Rightarrow> time \<times> int \<Rightarrow> deploy_event list ws" where
  "fetchDeployments env src s u =
     res_bind (githubGet env src (''/repos/'' @ ds_repo src @ ''/deployments?per_page=10'')) (\<lambda>raw.
     res_bind (decode_array decode_deployment (te_parse env raw)) (\<lambda>ds.
       Inr (deployment_loop (fst s) (fst u) ds [])))"

text \<open>\<open>sort.Slice\<close> leaves the order of equal times open; the model keeps the later one of the list first.\<close>

definition latest_first :: "deploy_event list \<Rightarrow> deploy_event list" where
  "latest_first evs = rev (sort_key dv_at evs)"

definition FetchDeployEvents :: "tool_env \<Rightarrow> deploy_source \<Rightarrow> string \<Rightarrow> string \<Rightarrow> deploy_event list ws" where
  "FetchDeployEvents env src since until =
     res_bind (parseWindow (te_now env) since until) (\<lambda>(s, u).
     if trim_space (ds_repo src) = [] then Inl (ErrMsg ''deploy_events: repo not configured'')
     else res_bind (fetchCommits env src s u) (\<lambda>commits.
          res_bind (fetchDeployments env src s u) (\<lambda>deploys.
            Inr (latest_first (commits @ deploys)))))"

definition render_event :: "deploy_event \<Rightarrow> string" where
  "render_event e = dv_at e @ '' env='' @ dv_env e @ '' sha='' @ shortSHA (dv_sha e) @ '' '' @ truncStr (dv_message e) 80
     @ newline"

definition renderDeployEvents :: "string \<Rightarrow> time \<times> int \<Rightarrow> time \<times> int \<Rightarrow> deploy_event list \<Rightarrow> string" where
  "renderDeployEvents repo since until evs =
     ''deploy_events repo='' @ repo @ '' window=['' @ fmt_zoned since @ '', '' @ fmt_zoned until @ ''] total=''
     @ dec (length evs) @ newline @ concat (map render_event evs)"

definition DeployEventsWithContext :: "tool_env \<Rightarrow> deploy_source \<Rightarrow> string \<Rightarrow> (string \<times> deploy_event list) ws" where
  "DeployEventsWithContext env src argsJSON =
     res_bind (argsOf (te_parse env) argsJSON (\<lambda>kvs.
        res_bind (str_field ''since'' kvs) (\<lambda>s. res_bind (str_field ''until'' kvs) (\<lambda>u. Inr (s, u))))) (\<lambda>(since, until).
     res_bind (FetchDeployEvents env src since until) (\<lambda>evs.
     res_bind (parseWindow (te_render_now env) since until) (\<lambda>(sw, uw).
       Inr (renderDeployEvents (ds_repo src) sw uw evs, evs))))"

section \<open>Decimal digits of a 64-bit integer\<close>

text \<open>\<open>itoa\<close> of \<open>otel.go\<close>: digits from the right into a buffer of 20 bytes. \<open>int\<close> has 64 bits, so the negation
  of the least integer is that integer again.\<close>

definition neg64 :: "int \<Rightarrow> int" where
  "neg64 n = (if n = - (2 ^ 63) then n else - n)"

function itoa_loop :: "int \<Rightarrow> string \<Rightarrow> string" where
  "itoa_loop n tmp = (if 0 < n then itoa_loop (n div 10) (char_of (48 + nat (n mod 10)) # tmp) else tmp)"
  by pat_completeness auto
termination by (relation "measure (\<lambda>(n, _). nat n)") auto

declare itoa_loop.simps [simp del]

definition tool_itoa :: "int \<Rightarrow> string" where
  "tool_itoa n =
     (if n = 0 then ''0''
      else let neg = n < 0; digits = itoa_loop (if neg then neg64 n else n) [] in if neg then ''-'' @ digits else digits)"

section \<open>The dispatcher\<close>

record deps =
  dp_rag :: "rag option option"
  dp_prom :: "string option"
  dp_prom_url :: string
  dp_deploy :: deploy_source

definition NewDeps :: "rag option \<Rightarrow> string \<Rightarrow> deps" where
  "NewDeps r promURL = \<lparr> dp_rag = Some r, dp_prom = Some promURL, dp_prom_url = promURL,
     dp_deploy = \<lparr> ds_repo = [], ds_token = [], ds_base_url = [] \<rparr> \<rparr>"

definition WithDeploy :: "deploy_source \<Rightarrow> deps option \<Rightarrow> deps option" where
  "WithDeploy src d = map_option (\<lambda>x. x\<lparr>dp_deploy := src\<rparr>) d"

definition deployRepo :: "deps option \<Rightarrow> string" where
  "deployRepo d = (case d of None \<Rightarrow> [] | Some x \<Rightarrow> ds_repo (dp_deploy x))"

definition TimeNow :: "tool_env \<Rightarrow> string" where
  "TimeNow env = fmt_zoned (te_now env, te_zone env)"

definition execLocalWithContext :: "tool_env \<Rightarrow> deps option \<Rightarrow> string \<Rightarrow> string \<Rightarrow>
    (tool_error, string \<times> rag_result list) res" where
  "execLocalWithContext env d name argsJSON =
     (if name = ''time_now'' then Inr (TimeNow env, [])
      else if name = ''rag_search'' then
        RagSearchWithContext env (case d of None \<Rightarrow> None | Some x \<Rightarrow> (case dp_rag x of None \<Rightarrow> None | Some r \<Rightarrow> r)) argsJSON
      else if name = ''prometheus_query'' then
        (case d of
           None \<Rightarrow> Inl NilPointer
         | Some x \<Rightarrow>
             res_bind (tool_err ToolError (PromQueryWithContext env
               (case dp_prom x of None \<Rightarrow> dp_prom_url x | Some u \<Rightarrow> u) argsJSON)) (\<lambda>out. Inr (out, [])))
      else if name = ''deploy_events'' then
        (case d of
           None \<Rightarrow> Inl NilPointer
         | Some x \<Rightarrow>
             res_bind (tool_err ToolError (DeployEventsWithContext env (dp_deploy x) argsJSON)) (\<lambda>(out, _). Inr (out, [])))
      else Inl (errDeny (deployRepo d) name))"

definition ExecWithContext :: "tool_env \<Rightarrow> deps option \<Rightarrow> string \<Rightarrow> string \<Rightarrow>
    (tool_error, string \<times> rag_result list) res" where
  "ExecWithContext env d name argsJSON =
     (if \<not> IsAllowed (deployRepo d) name then Inl (errDeny (deployRepo d) name)
      else execLocalWithContext env d name argsJSON)"

section \<open>Properties of the tools\<close>

lemma itoa_loop_dec: "0 < n \<Longrightarrow> itoa_loop n tmp = dec (nat n) @ tmp"
proof (induction n tmp rule: itoa_loop.induct)
  case (1 n tmp)
  have m: "nat (n mod 10) = nat n mod 10" using 1(2) by (simp add: nat_mod_distrib)
  show ?case
  proof (cases "n < 10")
    case True
    with 1(2) have "n div 10 = 0" "nat n < 10" "nat n mod 10 = nat n" by simp_all
    then show ?thesis using 1(2) m by (simp add: itoa_loop.simps [of n] itoa_loop.simps [of 0] dec.simps [of "nat n"])
  next
    case False
    then have d: "0 < n div 10" "nat (n div 10) = nat n div 10" "\<not> nat n < 10"
      by (simp_all add: pos_imp_zdiv_pos_iff nat_div_distrib)
    with 1 m show ?thesis by (simp add: itoa_loop.simps [of n] dec.simps [of "nat n"])
  qed
qed

lemma length_dec: "n < 10 ^ k \<Longrightarrow> 0 < k \<Longrightarrow> length (dec n) \<le> k"
proof (induction k arbitrary: n)
  case (Suc k)
  show ?case
  proof (cases "n < 10")
    case False
    with Suc.prems have "n div 10 < 10 ^ k" "0 < k" by (auto intro!: Nat.gr0I)
    with Suc.IH [of "n div 10"] False show ?thesis by (simp add: dec.simps [of n])
  qed (simp add: dec.simps [of n])
qed simp

text \<open>The digit loop agrees with decimal printing on every 64-bit integer but the least one, and fits its buffer of 20
  bytes; the negation of the least integer overflows, and only its sign is printed.\<close>

theorem tool_itoa_decimal:
  assumes "- (2 ^ 63) \<le> n" and "n < 2 ^ 63"
  shows "tool_itoa n = (if n = - (2 ^ 63) then ''-'' else itoa n) \<and> length (tool_itoa n) \<le> 20"
proof -
  have eq: "tool_itoa n = (if n = - (2 ^ 63) then ''-'' else itoa n)"
    by (cases "n = 0")
       (auto simp: tool_itoa_def Let_def itoa_loop_dec itoa_def neg64_def itoa_loop.simps [of "- 9223372036854775808"] dec_eval digit_chars)
  have "length (dec (nat \<bar>n\<bar>)) \<le> 19" using assms by (intro length_dec) simp_all
  then have "length (itoa n) \<le> 20" by (cases "n < 0") (simp_all add: itoa_def)
  with eq show ?thesis by simp
qed

theorem tool_itoa_decimal_witness:
  "tool_itoa (- 120) = ''-120'' \<and> length (tool_itoa (- 120)) \<le> 20"
  using tool_itoa_decimal [of "- 120"] by (simp add: itoa_def dec_eval digit_chars)

lemma tool_err_Inr [simp]: "tool_err f r = Inr x \<longleftrightarrow> r = Inr x"
  by (simp add: tool_err_def split: sum.splits)

lemma definition_names: "map (fs_name \<circ> td_function) (DefinitionsFor repo) = AllowedFor repo"
  by (simp add: DefinitionsFor_def AllowedFor_def baseTools_def Let_def)

lemma res_bind_Inl: "res_bind r f = Inl e \<longleftrightarrow> r = Inl e \<or> (\<exists>x. r = Inr x \<and> f x = Inl e)"
  by (cases r) simp_all

lemma tool_err_Inl: "tool_err f r = Inl e \<longleftrightarrow> (\<exists>x. r = Inl x \<and> e = f x)"
  by (auto simp: tool_err_def split: sum.splits)

lemma local_not_denied:
  assumes "execLocalWithContext env d name args = Inl (Denied n l)"
  shows "name \<notin> {''time_now'', ''rag_search'', ''prometheus_query'', ''deploy_events''}"
  using assms
  by (auto simp: execLocalWithContext_def RagSearchWithContext_def res_bind_Inl tool_err_Inl Let_def
      split: if_splits option.splits)

text \<open>The tools offered to the language model are exactly the tools that run: a call of an offered tool is never
  denied, any other call is denied with the allow list, whatever its arguments. The deployment time line is offered only
  when a repository is configured.\<close>

theorem ExecWithContext_offered:
  "(if name \<in> (fs_name \<circ> td_function) ` set (DefinitionsFor (deployRepo d))
    then \<forall>n l. ExecWithContext env d name args \<noteq> Inl (Denied n l)
    else ExecWithContext env d name args = Inl (Denied name (AllowedFor (deployRepo d))))
    \<and> (''deploy_events'' \<in> (fs_name \<circ> td_function) ` set (DefinitionsFor repo) \<longleftrightarrow> trim_space repo \<noteq> [])"
proof -
  have names: "(fs_name \<circ> td_function) ` set (DefinitionsFor r) = set (AllowedFor r)" for r
    using definition_names [of r] by (metis set_map)
  have allowed: "IsAllowed r name \<longleftrightarrow> name \<in> set (AllowedFor r)" for r by (auto simp: IsAllowed_def list_ex_iff)
  have "execLocalWithContext env d name args \<noteq> Inl (Denied n l)" if "name \<in> set (AllowedFor r)" for r n l
    using that local_not_denied [of env d name args n l] by (auto simp: AllowedFor_def baseTools_def split: if_splits)
  then show ?thesis
    unfolding names by (simp add: ExecWithContext_def allowed errDeny_def AllowedFor_def [of repo] baseTools_def)
qed

lemma cap_take: "(if n < length xs then take n xs else xs) = take n xs"
  by simp

lemma deployment_loop_eq:
  "length evs < deployFetchCap \<Longrightarrow>
   deployment_loop s u ds evs
     = take deployFetchCap (evs @ map deployment_event (filter (in_deploy_window s u) ds))"
proof (induction ds arbitrary: evs)
  case (Cons d ds)
  show ?case
  proof (cases "in_deploy_window s u d")
    case True
    show ?thesis
    proof (cases "deployFetchCap \<le> length evs + 1")
      case full: True
      with Cons.prems have "length evs + 1 = deployFetchCap" by simp
      with True show ?thesis by (simp add: Let_def take_Cons')
    next
      case False
      with True Cons.IH [of "evs @ [deployment_event d]"] show ?thesis by (simp add: Let_def)
    qed
  qed (use Cons in simp)
qed simp

lemma sorted_latest_first: "sorted_wrt (\<lambda>x y. dv_at y \<le> dv_at x) (latest_first evs)"
  using sorted_sort_key [of dv_at evs] by (simp add: latest_first_def sorted_wrt_rev sorted_map)

text \<open>The time line is bounded and ordered: at most ten commits and ten deployments, the latest first, and every
  deployment on it was created inside the window that was asked for, both ends included.\<close>

theorem FetchDeployEvents_bounded:
  assumes "FetchDeployEvents env src since until = Inr evs"
  shows "\<exists>commits deploys s u. parseWindow (te_now env) since until = Inr (s, u)
    \<and> mset evs = mset (map commit_event commits) + mset (map deployment_event deploys)
    \<and> length commits \<le> 10 \<and> length deploys \<le> 10 \<and> sorted_wrt (\<lambda>x y. dv_at y \<le> dv_at x) evs
    \<and> (\<forall>d \<in> set deploys. \<exists>t. parse_nano (gd_created_at d) = Some t \<and> fst s \<le> t \<and> t \<le> fst u)"
proof -
  from assms obtain s u commits deploys where w: "parseWindow (te_now env) since until = Inr (s, u)"
    and c: "fetchCommits env src s u = Inr commits" and d: "fetchDeployments env src s u = Inr deploys"
    and evs: "evs = latest_first (commits @ deploys)"
    by (auto simp: FetchDeployEvents_def res_bind_eq_Inr split: if_splits)
  obtain cs where cs: "commits = map commit_event (take deployFetchCap cs)"
    using c by (auto simp: fetchCommits_def res_bind_eq_Inr cap_take)
  obtain ds where ds: "deploys = deployment_loop (fst s) (fst u) ds []"
    using d by (auto simp: fetchDeployments_def res_bind_eq_Inr)
  define dl where "dl = take deployFetchCap (filter (in_deploy_window (fst s) (fst u)) ds)"
  have evs': "evs = latest_first (map commit_event (take deployFetchCap cs) @ map deployment_event dl)"
    unfolding evs cs ds dl_def by (simp add: deployment_loop_eq deployFetchCap_def take_map)
  have "\<forall>d \<in> set dl. \<exists>t. parse_nano (gd_created_at d) = Some t \<and> fst s \<le> t \<and> t \<le> fst u"
    by (auto simp: dl_def in_deploy_window_def dest!: in_set_takeD split: option.splits)
  with w sorted_latest_first show ?thesis
    unfolding evs' by (intro exI [of _ "take deployFetchCap cs"] exI [of _ dl] exI [of _ s] exI [of _ u])
      (simp add: latest_first_def dl_def deployFetchCap_def)
qed

definition ex_env :: tool_env where
  "ex_env = \<lparr> te_parse = (\<lambda>s. if s = ''c'' then Some (JArr [JObj [(''sha'', JStr ''1'')]])
       else if s = ''d'' then Some (JArr [JObj [(''created_at'', JStr ''1970-01-01T00:00:00Z''), (''ref'', JStr ''main'')]])
       else Some (JObj [])),
     te_now = 0, te_render_now = 0, te_zone = 0,
     te_http = (\<lambda>_ u. Inr (200, if has_prefix u ''https://api.github.com/repos/o/r/c'' then ''c'' else ''d'')),
     te_dims = (\<lambda>_. Inr 0), te_vhits = (\<lambda>_ _. Inr []), te_float = (\<lambda>_. ''0'') \<rparr>"

definition ex_source :: deploy_source where
  "ex_source = \<lparr> ds_repo = ''o/r'', ds_token = [], ds_base_url = [] \<rparr>"

lemma trim_space_word [simp]: "trim_space ''o/r'' = ''o/r''"
  by code_simp

lemma ex_fetch:
  "FetchDeployEvents ex_env ex_source [] [] = Inr
     [\<lparr> dv_env = [], dv_sha = [], dv_message = ''main'', dv_at = ''1970-01-01T00:00:00Z'' \<rparr>,
      \<lparr> dv_env = [], dv_sha = ''1'', dv_message = [], dv_at = [] \<rparr>]"
proof -
  have w: "parseWindow 0 [] [] = Inr ((- one_day, 0), (0, 0))" by (simp add: parseWindow_def)
  have c: "fetchCommits ex_env ex_source (- one_day, 0) (0, 0) = Inr [\<lparr> dv_env = [], dv_sha = ''1'', dv_message = [], dv_at = [] \<rparr>]"
    by (simp add: fetchCommits_def githubGet_def ex_env_def ex_source_def has_prefix_def decode_array_def decode_commit_def
        set_struct_def set_str_def jvalues_def to_lower_def lower_char_def set_string_def commit_event_def firstLine_def trim_slashes_def
        deployFetchCap_def Let_def)
  have d: "fetchDeployments ex_env ex_source (- one_day, 0) (0, 0)
      = Inr [\<lparr> dv_env = [], dv_sha = [], dv_message = ''main'', dv_at = ''1970-01-01T00:00:00Z'' \<rparr>]"
    by (simp add: fetchDeployments_def githubGet_def ex_env_def ex_source_def has_prefix_def decode_array_def decode_deployment_def
        set_struct_def set_str_def jvalues_def to_lower_def lower_char_def set_string_def deployment_event_def trim_slashes_def
        in_deploy_window_def parse_epoch one_day_def deployFetchCap_def Let_def)
  have n: "te_now ex_env = 0" "trim_space (ds_repo ex_source) \<noteq> []" by (simp_all add: ex_env_def ex_source_def)
  show ?thesis by (simp add: FetchDeployEvents_def n w c d latest_first_def)
qed

theorem FetchDeployEvents_bounded_witness:
  "\<exists>evs commits deploys. FetchDeployEvents ex_env ex_source [] [] = Inr evs
     \<and> mset evs = mset (map commit_event commits) + mset (map deployment_event deploys)
     \<and> length evs = 2 \<and> length commits \<le> 10 \<and> length deploys \<le> 10 \<and> sorted_wrt (\<lambda>x y. dv_at y \<le> dv_at x) evs"
  using FetchDeployEvents_bounded [OF ex_fetch] ex_fetch by fastforce

end
