(* ===== verification/Agent.thy ===== *)
theory Agent
  imports Tools Transition
begin

text \<open>
  The chat assistant (\<open>src/internal/agent/react.go\<close>, \<open>evidence.go\<close>, \<open>src/internal/rag/qualification.go\<close>
  and \<open>src/internal/handler/chat.go\<close>): which hits may be cited, the report built from citations, the table of
  sessions, the bounded loop of model and tool calls, and the fallback without a model.

  The language model is \<open>ag_model\<close>: the answer to the \<open>n\<close>-th request, with the request before its JSON encoding.
  \<open>ag_decode\<close> reads the first JSON value of a response, \<open>ag_parse\<close> a complete one, \<open>ag_marshal\<close> prints a value.
  \<open>ag_ctx\<close> is the error of the context before the tool call \<open>j\<close> of round \<open>i\<close>, \<open>ag_ctx_after\<close> the one after a
  failed loop, and \<open>ag_tools\<close> the environment of that tool call. \<open>ag_others\<close> is what concurrent requests do to the
  session table while the model answers. \<open>ag_uni\<close> tells the letters and digits beyond ASCII (the tables of the
  \<open>unicode\<close> package). An array that occurs twice in an object keeps the last value. Spans, logs and counters are not modelled.
\<close>

section \<open>Qualification\<close>

definition WithEnvironment :: "string \<Rightarrow> string option" where
  "WithEnvironment en = Some (if en = [] then ''unknown'' else en)"

definition Environment :: "string option \<Rightarrow> string" where
  "Environment ctx = (case ctx of Some v \<Rightarrow> v | None \<Rightarrow> ''unknown'')"

definition stop_words :: "string list" where
  "stop_words = [''what'', ''why'', ''how'', ''the'', ''this'', ''that'', ''please'', ''with'',
     ''does'', ''query'', ''question'', ''error'',
     bytes [0xE9, 0x97, 0xAE, 0xE9, 0xA2, 0x98], bytes [0xE6, 0x95, 0x85, 0xE9, 0x9A, 0x9C], bytes [0xE6, 0x80, 0x8E, 0xE4, 0xB9, 0x88],
     bytes [0xE5, 0xA6, 0x82, 0xE4, 0xBD, 0x95], bytes [0xE4, 0xBB, 0x80, 0xE4, 0xB9, 0x88], bytes [0xE8, 0xAF, 0xB7, 0xE9, 0x97, 0xAE],
     bytes [0xE6, 0x8E, 0x92, 0xE6, 0x9F, 0xA5], bytes [0xE5, 0xA4, 0x84, 0xE7, 0x90, 0x86], bytes [0xE6, 0x98, 0xAF, 0xE5, 0x90, 0xA6],
     bytes [0xE5, 0x8E, 0x9F, 0xE5, 0x9B, 0xA0]]"

definition word_rune :: "(int \<Rightarrow> bool) \<Rightarrow> int \<Rightarrow> bool" where
  "word_rune uni r \<longleftrightarrow> (if r < 128 then ascii_alnum r \<or> r = 95 else uni r)"

text \<open>\<open>strings.FieldsFunc\<close>: the maximal runs of word runes.\<close>

fun word_fields :: "(int \<Rightarrow> bool) \<Rightarrow> (int \<times> string) list \<Rightarrow> string \<Rightarrow> string list" where
  "word_fields uni [] cur = (if cur = [] then [] else [cur])"
| "word_fields uni ((r, bs) # rs) cur =
     (if word_rune uni r then word_fields uni rs (cur @ bs)
      else (if cur = [] then [] else [cur]) @ word_fields uni rs [])"

definition ascii_word :: "string \<Rightarrow> bool" where
  "ascii_word w \<longleftrightarrow> list_all (\<lambda>(r, _). r \<le> 127) (runes w)"

definition word_pairs :: "string \<Rightarrow> string \<Rightarrow> string list" where
  "word_pairs txt w =
     filter (\<lambda>p. p \<notin> set stop_words \<and> contains txt p) (flush_han (map snd (runes w)))"

fun anchor_loop :: "string \<Rightarrow> string list \<Rightarrow> string list \<Rightarrow> bool" where
  "anchor_loop txt [] pairs \<longleftrightarrow> 2 \<le> length (remdups pairs)"
| "anchor_loop txt (w # ws) pairs \<longleftrightarrow>
     (if w \<in> set stop_words then anchor_loop txt ws pairs
      else if ascii_word w \<and> 3 \<le> length w \<and> contains txt w then True
      else anchor_loop txt ws (if ascii_word w then pairs else pairs @ word_pairs txt w))"

definition LexicalAnchor :: "(int \<Rightarrow> bool) \<Rightarrow> string \<Rightarrow> string \<Rightarrow> bool" where
  "LexicalAnchor uni query txt \<longleftrightarrow>
     (let q = to_lower (trim_space query); t = to_lower txt
      in if q = [] then False
         else if 3 \<le> length (runes q) \<and> contains t q then True
         else anchor_loop t (word_fields uni (runes q) []) [])"

section \<open>Citations and the report\<close>

record citation =
  ct_doc :: string
  ct_snippet :: string
  ct_doc_id :: string
  ct_version_id :: string
  ct_chunk_id :: string
  ct_source :: string

definition qualified_parts :: "string \<Rightarrow> string \<Rightarrow> string \<Rightarrow> string \<Rightarrow> string \<Rightarrow> bool" where
  "qualified_parts di vi ci sn src \<longleftrightarrow>
     trim_space di \<noteq> [] \<and> trim_space vi \<noteq> [] \<and> trim_space ci \<noteq> [] \<and> trim_space sn \<noteq> []
     \<and> (src = ''upload'' \<or> src = ''demo'')"

definition qualifiedHit :: "rag_result \<Rightarrow> bool" where
  "qualifiedHit h \<longleftrightarrow> qualified_parts (res_doc_id h) (res_version_id h) (res_chunk_id h) (res_snippet h) (res_source h)"

definition citationFromHit :: "rag_result \<Rightarrow> citation" where
  "citationFromHit h = \<lparr> ct_doc = res_doc h, ct_snippet = res_snippet h, ct_doc_id = res_doc_id h,
     ct_version_id = res_version_id h, ct_chunk_id = res_chunk_id h, ct_source = res_source h \<rparr>"

definition trunc :: "string \<Rightarrow> nat \<Rightarrow> string" where
  "trunc s n = (let r = runes s in if length r \<le> n then s else concat (map snd (take n r)))"

definition qualified_citation_parts :: "citation \<Rightarrow> bool" where
  "qualified_citation_parts c \<longleftrightarrow>
     qualified_parts (ct_doc_id c) (ct_version_id c) (ct_chunk_id c) (ct_snippet c) (ct_source c)"

definition report_head :: string where
  "report_head = bytes [0xE6, 0xA0, 0xB9, 0xE6, 0x8D, 0xAE, 0xE7, 0x9F, 0xA5, 0xE8, 0xAF, 0x86, 0xE5, 0xBA, 0x93, 0xE5, 0x8C,
     0xB9, 0xE9, 0x85, 0x8D, 0xE5, 0x88, 0xB0, 0xE4, 0xBB, 0xA5, 0xE4, 0xB8, 0x8B, 0xE5, 0x86, 0x85, 0xE5, 0xAE, 0xB9,
     0xEF, 0xBC, 0x88, 0xE6, 0x9C, 0xAC, 0xE8, 0xBD, 0xAE, 0xE5, 0x8E, 0x9F, 0xE6, 0x96, 0x87, 0xE6, 0x91, 0x98, 0xE5,
     0xBD, 0x95, 0xEF, 0xBC, 0x8C, 0xE9, 0x80, 0x82, 0xE7, 0x94, 0xA8, 0xE6, 0x80, 0xA7, 0xE4, 0xB8, 0x8E, 0xE6, 0xA0,
     0xB9, 0xE5, 0x9B, 0xA0, 0xE5, 0xB0, 0x9A, 0xE6, 0x9C, 0xAA, 0xE6, 0xA0, 0xB8, 0xE9, 0xAA, 0x8C, 0xEF, 0xBC, 0x8C,
     0xE8, 0xAF, 0xB7, 0xE4, 0xBA, 0xBA, 0xE5, 0xB7, 0xA5, 0xE7, 0xA0, 0x94, 0xE5, 0x88, 0xA4, 0xEF, 0xBC, 0x89, 0xEF,
     0xBC, 0x9A, 0x0A]"

definition report_entry :: "nat \<Rightarrow> citation \<Rightarrow> string" where
  "report_entry i c = newline @ dec (Suc i) @ ''. '' @ open_bracket @ ct_doc c @ close_bracket @ newline
     @ trunc (ct_snippet c) 500 @ newline"

definition EvidenceReport :: "citation list \<Rightarrow> string" where
  "EvidenceReport cites =
     (let qualified = filter qualified_citation_parts cites
      in if qualified = [] then SafeReport
         else report_head @ concat (map (\<lambda>(i, c). report_entry i c) (zip [0..<length qualified] qualified)))"

definition qualifiedQuery :: "(int \<Rightarrow> bool) \<Rightarrow> string option \<Rightarrow> string \<Rightarrow> rag_result \<Rightarrow> bool" where
  "qualifiedQuery uni ctx query h \<longleftrightarrow>
     (if \<not> qualifiedHit h \<or> \<not> LexicalAnchor uni query (res_doc h @ newline @ res_snippet h) then False
      else res_environment h \<in> {[], ''unknown'', ''all'', Environment ctx})"

section \<open>Messages and the session table\<close>

record tool_call_function =
  tf_name :: string
  tf_arguments :: string

record tool_call =
  tc_id :: string
  tc_type :: string
  tc_function :: tool_call_function

record api_msg =
  am_role :: string
  am_content :: string
  am_tool_calls :: "tool_call list"
  am_tool_call_id :: string

record react =
  ra_api_base :: string
  ra_api_key :: string
  ra_model :: string
  ra_tools :: "deps option"
  ra_sessions :: "(string \<times> api_msg list) list"
  ra_order :: "string list"

definition MaxRounds :: nat where "MaxRounds = 3"
definition MaxSessions :: nat where "MaxSessions = 256"

definition NewReAct :: "string \<Rightarrow> string \<Rightarrow> string \<Rightarrow> deps option \<Rightarrow> react" where
  "NewReAct apiBase apiKey model d =
     (let b = trim_slashes (trim_space apiBase)
      in \<lparr> ra_api_base = (if b = [] then ''https://api.openai.com/v1'' else b), ra_api_key = apiKey, ra_model = model,
           ra_tools = d, ra_sessions = [], ra_order = [] \<rparr>)"

function evict :: "(string \<times> api_msg list) list \<Rightarrow> string list \<Rightarrow> (string \<times> api_msg list) list \<times> string list" where
  "evict ss os = (if MaxSessions < length os then evict (AList.delete (hd os) ss) (tl os) else (ss, os))"
  by pat_completeness auto
termination by (relation "measure (\<lambda>(_, os). length os)") auto

declare evict.simps [simp del]

definition touchSessionLocked :: "string \<Rightarrow> react \<Rightarrow> react" where
  "touchSessionLocked i a =
     (case evict (ra_sessions a) (remove1 i (ra_order a) @ [i]) of (ss, os) \<Rightarrow> a\<lparr>ra_sessions := ss, ra_order := os\<rparr>)"

definition ClearSessions :: "string \<Rightarrow> react \<Rightarrow> nat \<times> react" where
  "ClearSessions sid a =
     (if trim_space sid = [] then (length (ra_sessions a), a\<lparr>ra_sessions := [], ra_order := []\<rparr>)
      else case map_of (ra_sessions a) sid of
             None \<Rightarrow> (0, a)
           | Some _ \<Rightarrow> (1, a\<lparr>ra_sessions := AList.delete sid (ra_sessions a), ra_order := remove1 sid (ra_order a)\<rparr>))"

definition user_msg :: "string \<Rightarrow> api_msg" where
  "user_msg s = \<lparr> am_role = ''user'', am_content = s, am_tool_calls = [], am_tool_call_id = [] \<rparr>"

definition assistant_msg :: "string \<Rightarrow> tool_call list \<Rightarrow> api_msg" where
  "assistant_msg s tcs = \<lparr> am_role = ''assistant'', am_content = s, am_tool_calls = tcs, am_tool_call_id = [] \<rparr>"

definition tool_msg :: "string \<Rightarrow> string \<Rightarrow> api_msg" where
  "tool_msg i s = \<lparr> am_role = ''tool'', am_content = s, am_tool_calls = [], am_tool_call_id = i \<rparr>"

definition history :: "string \<Rightarrow> react \<Rightarrow> api_msg list" where
  "history sid a = (case map_of (ra_sessions a) sid of None \<Rightarrow> [] | Some h \<Rightarrow> h)"

text \<open>The two critical sections of \<open>Run\<close>.\<close>

definition begin_run :: "string \<Rightarrow> string \<Rightarrow> react \<Rightarrow> api_msg list \<times> react" where
  "begin_run sid msg a = (history sid a @ [user_msg msg], touchSessionLocked sid a)"

definition commit_run :: "string \<Rightarrow> api_msg list \<Rightarrow> string \<Rightarrow> react \<Rightarrow> react" where
  "commit_run sid hist final a =
     (let nh = hist @ [assistant_msg final []];
          nh' = (if length nh > 20 then drop (length nh - 20) nh else nh)
      in touchSessionLocked sid (a\<lparr>ra_sessions := AList.update sid nh' (ra_sessions a)\<rparr>))"

section \<open>The language model\<close>

record chat_request =
  cr_url :: string
  cr_token :: string
  cr_model :: string
  cr_messages :: "api_msg list"
  cr_tools :: "tool_definition list option"

record agent_env =
  ag_model :: "nat \<Rightarrow> chat_request \<Rightarrow> (nat \<times> string) ws"
  ag_parse :: "string \<Rightarrow> json option"
  ag_decode :: "string \<Rightarrow> json option"
  ag_marshal :: "json \<Rightarrow> string"
  ag_ctx :: "nat \<Rightarrow> nat \<Rightarrow> ws_error option"
  ag_ctx_after :: "ws_error option"
  ag_tools :: "nat \<Rightarrow> nat \<Rightarrow> tool_env"
  ag_fallback_tools :: tool_env
  ag_environment :: "string option"
  ag_others :: "react \<Rightarrow> react"
  ag_uni :: "int \<Rightarrow> bool"

datatype agent_error =
    MessageRequired
  | ModelError ws_error
  | ToolFailure tool_error
  | KnowledgeUnavailable "tool_error option"

definition is_tool_failure :: "agent_error \<Rightarrow> bool" where
  "is_tool_failure e = (case e of ToolFailure _ \<Rightarrow> True | _ \<Rightarrow> False)"

definition IsSourceUnavailable :: "agent_error \<Rightarrow> bool" where
  "IsSourceUnavailable e = (case e of ToolFailure _ \<Rightarrow> True | KnowledgeUnavailable _ \<Rightarrow> True | _ \<Rightarrow> False)"

definition systemPrompt :: string where
  "systemPrompt =
    bytes [0xE4, 0xBD, 0xA0, 0xE6, 0x98, 0xAF] @ '' oncall-agent '' @ bytes [0xE5, 0x80, 0xBC, 0xE7, 0x8F, 0xAD, 0xE5,
    0x8A, 0xA9, 0xE6, 0x89, 0x8B, 0xEF, 0xBC, 0x88, 0xE5, 0x8F, 0xAA, 0xE8, 0xAF, 0xBB, 0xEF, 0xBC, 0x89, 0xE3, 0x80,
    0x82, 0xE5, 0x8F, 0xAF, 0xE7, 0x94, 0xA8, 0xE5, 0xB7, 0xA5, 0xE5, 0x85, 0xB7, 0xE4, 0xBB, 0x85] @ '' time_now /
    rag_search / prometheus_query'' @ bytes [0xEF, 0xBC, 0x8C, 0xE4, 0xB8, 0x8D, 0xE5, 0x8F, 0xAF, 0xE5, 0x81, 0x9A,
    0xE4, 0xBB, 0xBB, 0xE4, 0xBD, 0x95, 0xE5, 0x86, 0x99, 0xE6, 0x93, 0x8D, 0xE4, 0xBD, 0x9C, 0xEF, 0xBC, 0x88, 0xE7,
    0xA1, 0xAE, 0xE8, 0xAE, 0xA4] @ ''/'' @ bytes [0xE9, 0x9D, 0x99, 0xE9, 0xBB, 0x98, 0xE5, 0x91, 0x8A, 0xE8, 0xAD,
    0xA6, 0xE3, 0x80, 0x81, 0xE6, 0x94, 0xB9, 0xE9, 0x85, 0x8D, 0xE7, 0xBD, 0xAE, 0xE7, 0xAD, 0x89, 0xE4, 0xB8, 0x80,
    0xE5, 0xBE, 0x8B, 0xE6, 0x8B, 0x92, 0xE7, 0xBB, 0x9D, 0xEF, 0xBC, 0x89, 0xE3, 0x80, 0x82, 0x0A, 0xE6, 0xB5, 0x81,
    0xE7, 0xA8, 0x8B, 0xEF, 0xBC, 0x9A, 0xE5, 0x85, 0x88, 0xE7, 0x94, 0xA8] @ '' rag_search '' @ bytes [0xE6, 0x9F,
    0xA5, 0xE7, 0x9F, 0xA5, 0xE8, 0xAF, 0x86, 0xE5, 0xBA, 0x93, 0xEF, 0xBC, 0x8C, 0xE5, 0xBF, 0x85, 0xE8, 0xA6, 0x81,
    0xE6, 0x97, 0xB6, 0xE7, 0x94, 0xA8] @ '' prometheus_query '' @ bytes [0xE6, 0x9F, 0xA5, 0xE6, 0x8C, 0x87, 0xE6,
    0xA0, 0x87, 0xE3, 0x80, 0x81] @ ''time_now '' @ bytes [0xE5, 0x8F, 0x96, 0xE6, 0x97, 0xB6, 0xE9, 0x97, 0xB4, 0xEF,
    0xBC, 0x8C, 0xE6, 0x9C, 0x80, 0xE5, 0xA4, 0x9A] @ '' 3 '' @ bytes [0xE8, 0xBD, 0xAE, 0xE5, 0xB7, 0xA5, 0xE5, 0x85,
    0xB7, 0xE8, 0xB0, 0x83, 0xE7, 0x94, 0xA8, 0xEF, 0xBC, 0x8C, 0xE7, 0x84, 0xB6, 0xE5, 0x90, 0x8E, 0xE7, 0xBB, 0x99,
    0xE5, 0x87, 0xBA, 0xE8, 0xAF, 0x8A, 0xE6, 0x96, 0xAD, 0xE3, 0x80, 0x82, 0x0A, 0xE8, 0xAF, 0x8A, 0xE6, 0x96, 0xAD,
    0xE5, 0xBF, 0x85, 0xE9, 0xA1, 0xBB, 0xE5, 0xBC, 0x95, 0xE7, 0x94, 0xA8, 0xE7, 0x9F, 0xA5, 0xE8, 0xAF, 0x86, 0xE5,
    0xBA, 0x93, 0xE5, 0x8E, 0x9F, 0xE6, 0x96, 0x87, 0xE7, 0x89, 0x87, 0xE6, 0xAE, 0xB5, 0xEF, 0xBC, 0x9B, 0xE8, 0x8B,
    0xA5] @ '' rag_search '' @ bytes [0xE6, 0x97, 0xA0, 0xE5, 0x8C, 0xB9, 0xE9, 0x85, 0x8D, 0xE3, 0x80, 0x81, 0xE6,
    0x88, 0x96, 0xE6, 0xA3, 0x80, 0xE5, 0x87, 0xBA, 0xE7, 0x9A, 0x84, 0xE5, 0xBC, 0x95, 0xE7, 0x94, 0xA8, 0xE4, 0xB8,
    0x8E, 0xE9, 0x97, 0xAE, 0xE9, 0xA2, 0x98, 0xE4, 0xB8, 0x8D, 0xE7, 0x9B, 0xB8, 0xE5, 0x85, 0xB3, 0xEF, 0xBC, 0x8C,
    0xE5, 0xBF, 0x85, 0xE9, 0xA1, 0xBB, 0xE6, 0x98, 0x8E, 0xE7, 0xA4, 0xBA, 0xE2, 0x80, 0x9C, 0xE6, 0x9C, 0xAA, 0xE6,
    0x89, 0xBE, 0xE5, 0x88, 0xB0, 0xE7, 0x9B, 0xB8, 0xE5, 0x85, 0xB3, 0xE5, 0x8C, 0xB9, 0xE9, 0x85, 0x8D, 0xE2, 0x80,
    0x9D, 0xEF, 0xBC, 0x8C, 0xE4, 0xB8, 0x8D, 0xE5, 0xBE, 0x97, 0xE7, 0xBC, 0x96, 0xE9, 0x80, 0xA0, 0xE5, 0xA4, 0x84,
    0xE7, 0xBD, 0xAE, 0xE6, 0xAD, 0xA5, 0xE9, 0xAA, 0xA4, 0xEF, 0xBC, 0x8C, 0xE4, 0xB8, 0x8D, 0xE5, 0xBE, 0x97, 0xE7,
    0xA1, 0xAC, 0xE5, 0x87, 0x91, 0xE4, 0xB8, 0x8D, 0xE7, 0x9B, 0xB8, 0xE5, 0x85, 0xB3, 0xE5, 0xBC, 0x95, 0xE7, 0x94,
    0xA8, 0xE4, 0xBD, 0x9C, 0xE7, 0xAD, 0x94, 0xE3, 0x80, 0x82]"

definition systemPromptDeploy :: string where
  "systemPromptDeploy =
    bytes [0xE4, 0xBD, 0xA0, 0xE6, 0x98, 0xAF] @ '' oncall-agent '' @ bytes [0xE5, 0x80, 0xBC, 0xE7, 0x8F, 0xAD, 0xE5,
    0x8A, 0xA9, 0xE6, 0x89, 0x8B, 0xEF, 0xBC, 0x88, 0xE5, 0x8F, 0xAA, 0xE8, 0xAF, 0xBB, 0xEF, 0xBC, 0x89, 0xE3, 0x80,
    0x82, 0xE5, 0x8F, 0xAF, 0xE7, 0x94, 0xA8, 0xE5, 0xB7, 0xA5, 0xE5, 0x85, 0xB7, 0xE4, 0xBB, 0x85] @ '' time_now /
    rag_search / prometheus_query / deploy_events'' @ bytes [0xEF, 0xBC, 0x8C, 0xE4, 0xB8, 0x8D, 0xE5, 0x8F, 0xAF,
    0xE5, 0x81, 0x9A, 0xE4, 0xBB, 0xBB, 0xE4, 0xBD, 0x95, 0xE5, 0x86, 0x99, 0xE6, 0x93, 0x8D, 0xE4, 0xBD, 0x9C, 0xEF,
    0xBC, 0x88, 0xE7, 0xA1, 0xAE, 0xE8, 0xAE, 0xA4] @ ''/'' @ bytes [0xE9, 0x9D, 0x99, 0xE9, 0xBB, 0x98, 0xE5, 0x91,
    0x8A, 0xE8, 0xAD, 0xA6, 0xE3, 0x80, 0x81, 0xE6, 0x94, 0xB9, 0xE9, 0x85, 0x8D, 0xE7, 0xBD, 0xAE, 0xE7, 0xAD, 0x89,
    0xE4, 0xB8, 0x80, 0xE5, 0xBE, 0x8B, 0xE6, 0x8B, 0x92, 0xE7, 0xBB, 0x9D, 0xEF, 0xBC, 0x89, 0xE3, 0x80, 0x82, 0x0A,
    0xE6, 0xB5, 0x81, 0xE7, 0xA8, 0x8B, 0xEF, 0xBC, 0x9A, 0xE5, 0x85, 0x88, 0xE7, 0x94, 0xA8] @ '' rag_search '' @
    bytes [0xE6, 0x9F, 0xA5, 0xE7, 0x9F, 0xA5, 0xE8, 0xAF, 0x86, 0xE5, 0xBA, 0x93, 0xEF, 0xBC, 0x8C, 0xE5, 0xBF, 0x85,
    0xE8, 0xA6, 0x81, 0xE6, 0x97, 0xB6, 0xE7, 0x94, 0xA8] @ '' prometheus_query '' @ bytes [0xE6, 0x9F, 0xA5, 0xE6,
    0x8C, 0x87, 0xE6, 0xA0, 0x87, 0xE3, 0x80, 0x81] @ ''time_now '' @ bytes [0xE5, 0x8F, 0x96, 0xE6, 0x97, 0xB6, 0xE9,
    0x97, 0xB4, 0xEF, 0xBC, 0x8C, 0xE6, 0xB6, 0x89, 0xE5, 0x8F, 0x8A, 0xE3, 0x80, 0x8C, 0xE6, 0x9C, 0x80, 0xE8, 0xBF,
    0x91, 0xE6, 0x94, 0xB9, 0xE4, 0xBA, 0x86, 0xE4, 0xBB, 0x80, 0xE4, 0xB9, 0x88, 0xE3, 0x80, 0x8D, 0xE5, 0x8F, 0xAF,
    0xE7, 0x94, 0xA8] @ '' deploy_events '' @ bytes [0xE5, 0x8F, 0xAA, 0xE8, 0xAF, 0xBB, 0xE6, 0x9F, 0xA5, 0xE7, 0x9C,
    0x8B, 0xE9, 0x85, 0x8D, 0xE7, 0xBD, 0xAE, 0xE4, 0xBB, 0x93, 0xE5, 0xBA, 0x93, 0xE6, 0x9C, 0x80, 0xE8, 0xBF, 0x91,
    0xE6, 0x8F, 0x90, 0xE4, 0xBA, 0xA4, 0xE4, 0xB8, 0x8E, 0xE9, 0x83, 0xA8, 0xE7, 0xBD, 0xB2, 0xEF, 0xBC, 0x88] @
    ''since/until '' @ bytes [0xE5, 0x8F, 0xAF, 0xE9, 0x80, 0x89, 0xEF, 0xBC, 0x8C, 0xE7, 0xBC, 0xBA, 0xE7, 0x9C,
    0x81, 0xE6, 0x9C, 0x80, 0xE8, 0xBF, 0x91] @ '' 24 '' @ bytes [0xE5, 0xB0, 0x8F, 0xE6, 0x97, 0xB6, 0xEF, 0xBC,
    0x89, 0xEF, 0xBC, 0x8C, 0xE6, 0x9C, 0x80, 0xE5, 0xA4, 0x9A] @ '' 3 '' @ bytes [0xE8, 0xBD, 0xAE, 0xE5, 0xB7, 0xA5,
    0xE5, 0x85, 0xB7, 0xE8, 0xB0, 0x83, 0xE7, 0x94, 0xA8, 0xEF, 0xBC, 0x8C, 0xE7, 0x84, 0xB6, 0xE5, 0x90, 0x8E, 0xE7,
    0xBB, 0x99, 0xE5, 0x87, 0xBA, 0xE8, 0xAF, 0x8A, 0xE6, 0x96, 0xAD, 0xE3, 0x80, 0x82, 0x0A, 0xE8, 0xAF, 0x8A, 0xE6,
    0x96, 0xAD, 0xE5, 0xBF, 0x85, 0xE9, 0xA1, 0xBB, 0xE5, 0xBC, 0x95, 0xE7, 0x94, 0xA8, 0xE7, 0x9F, 0xA5, 0xE8, 0xAF,
    0x86, 0xE5, 0xBA, 0x93, 0xE5, 0x8E, 0x9F, 0xE6, 0x96, 0x87, 0xE7, 0x89, 0x87, 0xE6, 0xAE, 0xB5, 0xEF, 0xBC, 0x9B,
    0xE8, 0x8B, 0xA5] @ '' rag_search '' @ bytes [0xE6, 0x97, 0xA0, 0xE5, 0x8C, 0xB9, 0xE9, 0x85, 0x8D, 0xE3, 0x80,
    0x81, 0xE6, 0x88, 0x96, 0xE6, 0xA3, 0x80, 0xE5, 0x87, 0xBA, 0xE7, 0x9A, 0x84, 0xE5, 0xBC, 0x95, 0xE7, 0x94, 0xA8,
    0xE4, 0xB8, 0x8E, 0xE9, 0x97, 0xAE, 0xE9, 0xA2, 0x98, 0xE4, 0xB8, 0x8D, 0xE7, 0x9B, 0xB8, 0xE5, 0x85, 0xB3, 0xEF,
    0xBC, 0x8C, 0xE5, 0xBF, 0x85, 0xE9, 0xA1, 0xBB, 0xE6, 0x98, 0x8E, 0xE7, 0xA4, 0xBA, 0xE2, 0x80, 0x9C, 0xE6, 0x9C,
    0xAA, 0xE6, 0x89, 0xBE, 0xE5, 0x88, 0xB0, 0xE7, 0x9B, 0xB8, 0xE5, 0x85, 0xB3, 0xE5, 0x8C, 0xB9, 0xE9, 0x85, 0x8D,
    0xE2, 0x80, 0x9D, 0xEF, 0xBC, 0x8C, 0xE4, 0xB8, 0x8D, 0xE5, 0xBE, 0x97, 0xE7, 0xBC, 0x96, 0xE9, 0x80, 0xA0, 0xE5,
    0xA4, 0x84, 0xE7, 0xBD, 0xAE, 0xE6, 0xAD, 0xA5, 0xE9, 0xAA, 0xA4, 0xEF, 0xBC, 0x8C, 0xE4, 0xB8, 0x8D, 0xE5, 0xBE,
    0x97, 0xE7, 0xA1, 0xAC, 0xE5, 0x87, 0x91, 0xE4, 0xB8, 0x8D, 0xE7, 0x9B, 0xB8, 0xE5, 0x85, 0xB3, 0xE5, 0xBC, 0x95,
    0xE7, 0x94, 0xA8, 0xE4, 0xBD, 0x9C, 0xE7, 0xAD, 0x94, 0xE3, 0x80, 0x82]"

definition systemPromptFor :: "string \<Rightarrow> string" where
  "systemPromptFor repo = (if trim_space repo = [] then systemPrompt else systemPromptDeploy)"

definition toolsRepo :: "react \<Rightarrow> string" where
  "toolsRepo a = (case ra_tools a of None \<Rightarrow> [] | Some d \<Rightarrow> ds_repo (dp_deploy d))"

definition strOf :: "(json \<Rightarrow> string) \<Rightarrow> json \<Rightarrow> string" where
  "strOf marshal v = (case v of JNull \<Rightarrow> [] | JStr s \<Rightarrow> s | _ \<Rightarrow> marshal v)"

definition set_list :: "(json \<Rightarrow> 'a ws) \<Rightarrow> json \<Rightarrow> 'a list \<Rightarrow> 'a list ws" where
  "set_list f v old = (case v of JNull \<Rightarrow> Inr [] | JArr xs \<Rightarrow> map_res f xs | _ \<Rightarrow> Inl ErrJSON)"

definition decode_tool_call :: "json \<Rightarrow> tool_call ws" where
  "decode_tool_call j =
     set_struct (\<lambda>kvs c.
        res_bind (set_str ''id'' kvs (tc_id c)) (\<lambda>i.
        res_bind (set_str ''type'' kvs (tc_type c)) (\<lambda>t.
        res_bind (fold_res (set_struct (\<lambda>ks f.
            res_bind (set_str ''name'' ks (tf_name f)) (\<lambda>n.
            res_bind (set_str ''arguments'' ks (tf_arguments f)) (\<lambda>as. Inr \<lparr> tf_name = n, tf_arguments = as \<rparr>))))
          (jvalues ''function'' kvs) (tc_function c)) (\<lambda>f.
          Inr \<lparr> tc_id = i, tc_type = t, tc_function = f \<rparr>))))
       j \<lparr> tc_id = [], tc_type = [], tc_function = \<lparr> tf_name = [], tf_arguments = [] \<rparr> \<rparr>"

text \<open>\<open>choices[i]\<close>: the content, of any type, and the tool calls.\<close>

definition decode_choice :: "json \<Rightarrow> (json \<times> tool_call list) ws" where
  "decode_choice j =
     set_struct (\<lambda>kvs m.
        fold_res (set_struct (\<lambda>ks (content, calls).
            res_bind (fold_res (set_list decode_tool_call) (jvalues ''tool_calls'' ks) calls) (\<lambda>calls'.
              Inr (last (content # jvalues ''content'' ks), calls'))))
          (jvalues ''message'' kvs) m)
       j (JNull, [])"

definition decode_response :: "json option \<Rightarrow> (json \<times> tool_call list) list ws" where
  "decode_response j =
     (case j of
        Some JNull \<Rightarrow> Inr []
      | Some (JObj kvs) \<Rightarrow>
          res_bind (fold_res (set_struct (set_str ''message'')) (jvalues ''error'' kvs) []) (\<lambda>_.
            fold_res (set_list decode_choice) (jvalues ''choices'' kvs) [])
      | _ \<Rightarrow> Inl ErrJSON)"

definition error_message :: "(string \<Rightarrow> json option) \<Rightarrow> string \<Rightarrow> string" where
  "error_message parse body =
     (case parse body of
        Some (JObj kvs) \<Rightarrow>
          (case fold_res (set_struct (set_str ''message'')) (jvalues ''error'' kvs) [] of
             Inr (c # m) \<Rightarrow> c # m
           | _ \<Rightarrow> trim_space body)
      | _ \<Rightarrow> trim_space body)"

definition post :: "agent_env \<Rightarrow> nat \<Rightarrow> chat_request \<Rightarrow> (string \<times> tool_call list) ws" where
  "post env n rq =
     (if trim_space (cr_model rq) = [] then Inl (ErrMsg ''openai.model missing'')
      else res_bind (ag_model env n rq) (\<lambda>(status, body).
        if 300 \<le> status
        then Inl (ErrMsg (''llm '' @ dec status @ '': '' @ error_message (ag_parse env) (take 512 body)))
        else res_bind (decode_response (ag_decode env body)) (\<lambda>choices.
          case choices of
            [] \<Rightarrow> Inl (ErrMsg ''llm: empty choices'')
          | (content, calls) # _ \<Rightarrow> Inr (strOf (ag_marshal env) content, calls))))"

definition request :: "react \<Rightarrow> api_msg list \<Rightarrow> tool_definition list option \<Rightarrow> chat_request" where
  "request a msgs defs = \<lparr> cr_url = ra_api_base a @ ''/chat/completions'', cr_token = trim_space (ra_api_key a),
     cr_model = ra_model a, cr_messages = msgs, cr_tools = defs \<rparr>"

definition chat :: "agent_env \<Rightarrow> nat \<Rightarrow> react \<Rightarrow> api_msg list \<Rightarrow> (string \<times> tool_call list) ws" where
  "chat env n a msgs = post env n (request a msgs (Some (DefinitionsFor (toolsRepo a))))"

definition chatFinal :: "agent_env \<Rightarrow> nat \<Rightarrow> react \<Rightarrow> api_msg list \<Rightarrow> string ws" where
  "chatFinal env n a msgs = res_bind (post env n (request a msgs None)) (\<lambda>(content, _). Inr content)"

section \<open>The loop\<close>

definition hit_key :: "rag_result \<Rightarrow> string" where
  "hit_key h = res_doc_id h @ [CHR 0x00] @ res_version_id h @ [CHR 0x00] @ res_chunk_id h"

text \<open>The citations so far and the keys already seen.\<close>

type_synonym cited = "citation list \<times> string list"

definition cite_hit :: "(int \<Rightarrow> bool) \<Rightarrow> string option \<Rightarrow> string \<Rightarrow> rag_result \<Rightarrow> cited \<Rightarrow> cited" where
  "cite_hit uni ctx query h = (\<lambda>(cites, seen).
     if \<not> qualifiedQuery uni ctx query h then (cites, seen)
     else if hit_key h \<in> set seen then (cites, seen)
     else (cites @ [citationFromHit h], hit_key h # seen))"

definition no_rag :: "deps option \<Rightarrow> bool" where
  "no_rag d = (case d of None \<Rightarrow> True | Some x \<Rightarrow> (case dp_rag x of None \<Rightarrow> True | Some r \<Rightarrow> r = None))"

fun call_loop :: "agent_env \<Rightarrow> react \<Rightarrow> string \<Rightarrow> nat \<Rightarrow> nat \<Rightarrow> tool_call list \<Rightarrow> api_msg list \<Rightarrow> cited \<Rightarrow>
    (agent_error, api_msg list \<times> cited) res" where
  "call_loop env a query i j [] msgs st = Inr (msgs, st)"
| "call_loop env a query i j (tc # tcs) msgs st =
     (case ag_ctx env i j of
        Some e \<Rightarrow> Inl (ModelError e)
      | None \<Rightarrow>
          if ra_tools a = None \<or> (tf_name (tc_function tc) = ''rag_search'' \<and> no_rag (ra_tools a))
          then Inl (ToolFailure SourceUnavailable)
          else case ExecWithContext (ag_tools env i j) (ra_tools a) (tf_name (tc_function tc)) (tf_arguments (tc_function tc)) of
            Inl e \<Rightarrow> Inl (ToolFailure e)
          | Inr (out, hits) \<Rightarrow>
              call_loop env a query i (Suc j) tcs (msgs @ [tool_msg (tc_id tc) (trunc out 4000)])
                (fold (cite_hit (ag_uni env) (ag_environment env) query) hits st))"

text \<open>\<open>k\<close> rounds are left; round \<open>i\<close> sends request \<open>i\<close>, the last request is number \<open>MaxRounds\<close>.\<close>

fun round_loop :: "agent_env \<Rightarrow> react \<Rightarrow> string \<Rightarrow> nat \<Rightarrow> nat \<Rightarrow> api_msg list \<Rightarrow> cited \<Rightarrow>
    (agent_error, string \<times> citation list) res" where
  "round_loop env a query i 0 msgs st =
     (case chatFinal env i a msgs of Inl e \<Rightarrow> Inl (ModelError e) | Inr final \<Rightarrow> Inr (final, fst st))"
| "round_loop env a query i (Suc k) msgs st =
     (case chat env i a msgs of
        Inl e \<Rightarrow> Inl (ModelError e)
      | Inr (content, calls) \<Rightarrow>
          if calls = [] then Inr (content, fst st)
          else res_bind (call_loop env a query i 0 calls (msgs @ [assistant_msg content calls]) st) (\<lambda>(msgs, st).
            round_loop env a query (Suc i) k msgs st))"

definition loop :: "agent_env \<Rightarrow> react \<Rightarrow> api_msg list \<Rightarrow> string \<Rightarrow> (agent_error, string \<times> citation list) res" where
  "loop env a hist query =
     round_loop env a query 0 MaxRounds
       (\<lparr> am_role = ''system'', am_content = systemPromptFor (toolsRepo a), am_tool_calls = [], am_tool_call_id = [] \<rparr> # hist)
       ([], [])"

definition fallback :: "agent_env \<Rightarrow> react \<Rightarrow> string \<Rightarrow> (agent_error, string \<times> citation list) res" where
  "fallback env a query =
     (if no_rag (ra_tools a) then Inl (KnowledgeUnavailable None)
      else case ExecWithContext (ag_fallback_tools env) (ra_tools a) ''rag_search''
             (''{'' @ json_string ''query'' @ '':'' @ json_string query @ '','' @ json_string ''top_k'' @ '':3}'') of
        Inl e \<Rightarrow> Inl (KnowledgeUnavailable (Some e))
      | Inr (_, hits) \<Rightarrow>
          let ok = filter (qualifiedQuery (ag_uni env) (ag_environment env) query) hits
          in if ok = [] then Inr (SafeReport, [])
             else Inr (EvidenceReport (map citationFromHit ok), map citationFromHit ok))"

definition session_id :: "string \<Rightarrow> string" where
  "session_id sid = (if trim_space sid = [] then ''default'' else sid)"

definition Run :: "agent_env \<Rightarrow> string \<Rightarrow> string \<Rightarrow> react \<Rightarrow> (agent_error, string \<times> citation list) res \<times> react" where
  "Run env sessionID userMsg a =
     (let m = trim_space userMsg; sid = session_id sessionID in
      if m = [] then (Inl MessageRequired, a)
      else case begin_run sid m a of (hist, a1) \<Rightarrow>
        (case loop env a1 hist m of
           Inl e \<Rightarrow>
             ((if is_tool_failure e \<or> ag_ctx_after env \<noteq> None then Inl e else fallback env a1 m), ag_others env a1)
         | Inr (_, cites) \<Rightarrow>
             let final = EvidenceReport cites
             in (Inr (final, cites), commit_run sid hist final (ag_others env a1))))"

section \<open>The chat endpoint\<close>

record chat_req =
  cq_message :: string
  cq_session_id :: string
  cq_environment :: string

record chat_reply =
  hp_status :: nat
  hp_code :: string
  hp_reply :: string
  hp_citations :: "citation list"
  hp_evidence_status :: string

definition chat_error :: "nat \<Rightarrow> string \<Rightarrow> string \<Rightarrow> chat_reply" where
  "chat_error status code ev = \<lparr> hp_status = status, hp_code = code, hp_reply = [], hp_citations = [],
     hp_evidence_status = ev \<rparr>"

definition decode_chat_req :: "json option \<Rightarrow> chat_req ws" where
  "decode_chat_req j =
     (case j of
        None \<Rightarrow> Inl ErrJSON
      | Some v \<Rightarrow>
          set_struct (\<lambda>kvs rq.
            res_bind (str_field ''message'' kvs) (\<lambda>m.
            res_bind (str_field ''session_id'' kvs) (\<lambda>i.
            res_bind (str_field ''environment'' kvs) (\<lambda>en.
              Inr \<lparr> cq_message = m, cq_session_id = i, cq_environment = en \<rparr>))))
            v \<lparr> cq_message = [], cq_session_id = [], cq_environment = [] \<rparr>)"

definition hex_text :: "string \<Rightarrow> string" where
  "hex_text s = concat (map (\<lambda>c. [hex_nibble (of_char c div 16), hex_nibble (of_char c mod 16)]) s)"

definition request_id :: "string \<Rightarrow> string" where
  "request_id nonce = ''request:'' @ hex_text nonce"

definition tool_deadline :: "tool_error \<Rightarrow> bool" where
  "tool_deadline t = (case t of JoinedUnavailable e \<Rightarrow> e = ErrDeadline | ToolError e \<Rightarrow> e = ErrDeadline | _ \<Rightarrow> False)"

definition is_deadline :: "agent_error \<Rightarrow> bool" where
  "is_deadline e =
     (case e of
        MessageRequired \<Rightarrow> False
      | ModelError x \<Rightarrow> x = ErrDeadline
      | ToolFailure t \<Rightarrow> tool_deadline t
      | KnowledgeUnavailable t \<Rightarrow> (case t of None \<Rightarrow> False | Some x \<Rightarrow> tool_deadline x))"

definition answer :: "ws_error option \<Rightarrow> (agent_error, string \<times> citation list) res \<Rightarrow> chat_reply" where
  "answer ctx_err res =
     (if ctx_err = Some ErrDeadline \<or> (case res of Inl e \<Rightarrow> is_deadline e | Inr _ \<Rightarrow> False)
      then chat_error 504 ''timeout'' ''source_unavailable''
      else if ctx_err = Some ErrCanceled then chat_error 408 ''cancelled'' []
      else case res of
        Inl e \<Rightarrow> if IsSourceUnavailable e then chat_error 503 ''source_unavailable'' ''source_unavailable''
                 else chat_error 500 [] []
      | Inr (_, cites) \<Rightarrow>
          \<lparr> hp_status = 200, hp_code = [], hp_reply = EvidenceReport cites, hp_citations = cites,
            hp_evidence_status = (if cites = [] then ''no_evidence'' else ''has_citations'') \<rparr>)"

text \<open>\<open>body\<close> is the request body, \<open>nonce\<close> the random bytes or \<open>None\<close> when they cannot be read, \<open>ctx_err\<close>
  the state of the request's context after the answer.\<close>

definition Chat :: "agent_env \<Rightarrow> ws_error option \<Rightarrow> string \<Rightarrow> string option \<Rightarrow> react option \<Rightarrow> chat_reply \<times> react option" where
  "Chat env ctx_err body nonce ag =
     (if length body > 32 * 1024 then (chat_error 413 [] [], ag)
      else case decode_chat_req (ag_parse env body) of
        Inl _ \<Rightarrow> (chat_error 400 [] [], ag)
      | Inr rq \<Rightarrow>
          if length (cq_message rq) > 12 * 1024 then (chat_error 413 [] [], ag)
          else let m = trim_space (cq_message rq) in
          if m = [] then (chat_error 400 [] [], ag)
          else case nonce of
            None \<Rightarrow> (chat_error 503 [] [], ag)
          | Some n \<Rightarrow>
              (case ag of
                 None \<Rightarrow> (chat_error 503 ''source_unavailable'' ''source_unavailable'', ag)
               | Some a \<Rightarrow>
                   if length (cq_environment rq) > 128
                   then (chat_error 400 [] [], Some (snd (ClearSessions (request_id n) a)))
                   else case Run (env\<lparr>ag_environment := WithEnvironment (cq_environment rq)\<rparr>) (request_id n) m a of
                     (res, a') \<Rightarrow> (answer ctx_err res, Some (snd (ClearSessions (request_id n) a')))))"

section \<open>The session table\<close>

definition sessions_ok :: "react \<Rightarrow> bool" where
  "sessions_ok a \<longleftrightarrow> distinct (ra_order a) \<and> length (ra_order a) \<le> MaxSessions
     \<and> distinct (map fst (ra_sessions a)) \<and> fst ` set (ra_sessions a) \<subseteq> set (ra_order a)
     \<and> list_all (\<lambda>x. length (snd x) \<le> 20) (ra_sessions a)"

lemma evict_keeps:
  assumes "evict ss os = (ss', os')" and "distinct os" and "distinct (map fst ss)" and "fst ` set ss \<subseteq> set os"
    and "list_all P ss"
  shows "distinct os' \<and> length os' \<le> MaxSessions \<and> distinct (map fst ss') \<and> fst ` set ss' \<subseteq> set os' \<and> list_all P ss'"
  using assms
proof (induction ss os rule: evict.induct)
  case (1 ss os)
  show ?case
  proof (cases "MaxSessions < length os")
    case True
    then obtain x xs where os: "os = x # xs" by (cases os) auto
    have sub: "fst ` set (AList.delete x ss) \<subseteq> set xs"
      using 1(5) os by (auto simp: AList.delete_eq image_iff)
    have all: "list_all P (AList.delete x ss)" using 1(6) by (auto simp: AList.delete_eq list_all_iff)
    have "evict (AList.delete x ss) xs = (ss', os')" using 1(2) True os by (simp add: evict.simps [of ss "x # xs"])
    with 1(1) [OF True] 1(3,4) sub all os show ?thesis by (simp add: distinct_delete)
  qed (use 1 in \<open>auto simp: evict.simps [of ss os]\<close>)
qed

lemma touch_keeps:
  assumes "distinct (ra_order a)" and "distinct (map fst (ra_sessions a))"
    and "fst ` set (ra_sessions a) \<subseteq> insert i (set (ra_order a))" and "list_all (\<lambda>x. length (snd x) \<le> 20) (ra_sessions a)"
  shows "sessions_ok (touchSessionLocked i a)"
proof -
  obtain ss os where e: "evict (ra_sessions a) (remove1 i (ra_order a) @ [i]) = (ss, os)" by (cases "evict (ra_sessions a) (remove1 i (ra_order a) @ [i])")
  have "distinct (remove1 i (ra_order a) @ [i])" using assms(1) by auto
  moreover have "fst ` set (ra_sessions a) \<subseteq> set (remove1 i (ra_order a) @ [i])" using assms(1,3) by auto
  ultimately have "distinct os \<and> length os \<le> MaxSessions \<and> distinct (map fst ss) \<and> fst ` set ss \<subseteq> set os
      \<and> list_all (\<lambda>x. length (snd x) \<le> 20) ss"
    using evict_keeps [OF e] assms(2,4) by blast
  then show ?thesis by (simp add: touchSessionLocked_def e sessions_ok_def)
qed

text \<open>The critical sections, in any order and of any request.\<close>

inductive table_step :: "react \<Rightarrow> react \<Rightarrow> bool" where
  begins: "table_step a (snd (begin_run sid msg a))"
| commits: "table_step a (commit_run sid hist final a)"
| clears: "table_step a (snd (ClearSessions sid a))"

inductive_cases table_stepE: "table_step a a'"

lemma remove1_bound: "length xs \<le> n \<Longrightarrow> length (remove1 x xs) \<le> n"
  by (auto simp: length_remove1)

lemma dom_delete_sub:
  "fst ` set ss \<subseteq> set os \<Longrightarrow> distinct os \<Longrightarrow> fst ` set (AList.delete i ss) \<subseteq> set (remove1 i os)"
  by (auto simp: AList.delete_eq)

lemma sessions_ok_begin: "sessions_ok a \<Longrightarrow> sessions_ok (snd (begin_run sid msg a))"
  unfolding begin_run_def snd_conv by (rule touch_keeps) (auto simp: sessions_ok_def)

lemma sessions_ok_commit: "sessions_ok a \<Longrightarrow> sessions_ok (commit_run sid hist final a)"
  unfolding commit_run_def Let_def
  by (rule touch_keeps) (auto simp: sessions_ok_def distinct_update dom_update list_all_update)

lemma sessions_ok_clear: "sessions_ok a \<Longrightarrow> sessions_ok (snd (ClearSessions sid a))"
  using dom_delete_sub [of "ra_sessions a" "ra_order a" sid]
  by (cases "map_of (ra_sessions a) sid")
     (simp_all add: sessions_ok_def ClearSessions_def distinct_delete remove1_bound list_all_delete)

definition same_config :: "react \<Rightarrow> react \<Rightarrow> bool" where
  "same_config a b \<longleftrightarrow> ra_api_base a = ra_api_base b \<and> ra_api_key a = ra_api_key b \<and> ra_model a = ra_model b
     \<and> ra_tools a = ra_tools b"

lemma same_config_touch [simp]: "same_config a (touchSessionLocked i b) = same_config a b"
  by (simp add: same_config_def touchSessionLocked_def split: prod.splits)

lemma same_config_touch_left [simp]: "same_config (touchSessionLocked i b) a = same_config b a"
  by (simp add: same_config_def touchSessionLocked_def split: prod.splits)

lemma same_config_step: "table_step a a' \<Longrightarrow> same_config a a'"
  by (erule table_stepE)
     (auto simp: begin_run_def commit_run_def ClearSessions_def Let_def same_config_def touchSessionLocked_def
       split: option.splits prod.splits)

definition fresh_agent :: "react \<Rightarrow> bool" where
  "fresh_agent a \<longleftrightarrow> ra_sessions a = [] \<and> ra_order a = []"

interpretation st: transition_system table_step fresh_agent sessions_ok same_config
proof
  show "sessions_ok a'" if "sessions_ok a" "table_step a a'" for a a'
    using that(2,1) by (cases rule: table_stepE) (auto simp: sessions_ok_begin sessions_ok_commit sessions_ok_clear)
  show "same_config a a'" if "table_step a a'" for a a' by (rule same_config_step [OF that])
qed (auto simp: fresh_agent_def sessions_ok_def same_config_def)

lemma Run_path:
  assumes "\<And>x. table_step\<^sup>*\<^sup>* x (ag_others env x)"
  shows "table_step\<^sup>*\<^sup>* a (snd (Run env sid msg a))"
proof (cases "trim_space msg = []")
  case False
  define s where "s = session_id sid"
  obtain hist a1 where b: "begin_run s (trim_space msg) a = (hist, a1)" by (cases "begin_run s (trim_space msg) a")
  have 1: "table_step a a1" using table_step.begins [of a s "trim_space msg"] b by simp
  have 2: "table_step\<^sup>*\<^sup>* a (ag_others env a1)" using 1 assms [of a1] by (rule converse_rtranclp_into_rtranclp)
  have 3: "table_step\<^sup>*\<^sup>* a (commit_run s hist f (ag_others env a1))" for f
    using 2 table_step.commits by (rule rtranclp.rtrancl_into_rtrancl)
  show ?thesis using False 2 3 by (auto simp: Run_def Let_def s_def [symmetric] b split: sum.splits)
qed (simp add: Run_def)

text \<open>The memory of the assistant is bounded. However requests interleave, the session table of an agent that started
  empty holds at most 256 sessions, each at most 20 messages long, every session is in the recency order exactly once, and
  a request, whatever the model and the tools answer, keeps it so.\<close>

theorem sessions_bounded:
  assumes "table_step\<^sup>*\<^sup>* (NewReAct apiBase apiKey model d) a"
    and "\<And>x. table_step\<^sup>*\<^sup>* x (ag_others env x)" and "a' \<in> {a, snd (Run env sid msg a)}"
  shows "length (ra_sessions a') \<le> 256 \<and> list_all (\<lambda>x. length (snd x) \<le> 20) (ra_sessions a')
    \<and> distinct (map fst (ra_sessions a')) \<and> distinct (ra_order a') \<and> length (ra_order a') \<le> 256
    \<and> fst ` set (ra_sessions a') \<subseteq> set (ra_order a')"
proof -
  have "table_step\<^sup>*\<^sup>* (NewReAct apiBase apiKey model d) a'"
    using assms(1,3) Run_path [OF assms(2)] by (auto intro: rtranclp_trans)
  then have ok: "sessions_ok a'"
    by (rule st.reachable_inv [rotated]) (simp add: fresh_agent_def NewReAct_def Let_def)
  have "length (ra_sessions a') = card (fst ` set (ra_sessions a'))"
    using ok by (metis distinct_card length_map list.set_map sessions_ok_def)
  also have "\<dots> \<le> card (set (ra_order a'))" using ok by (intro card_mono) (simp_all add: sessions_ok_def)
  also have "\<dots> \<le> 256" using ok card_length [of "ra_order a'"] by (simp add: sessions_ok_def MaxSessions_def)
  finally show ?thesis using ok by (simp add: sessions_ok_def MaxSessions_def)
qed

definition ex_react :: react where
  "ex_react = NewReAct [] [] ''m'' None"

definition ex_agent_env :: agent_env where
  "ex_agent_env = \<lparr> ag_model = (\<lambda>_ _. Inl ErrUnavailable), ag_parse = (\<lambda>_. None), ag_decode = (\<lambda>_. None), ag_marshal = (\<lambda>_. []),
     ag_ctx = (\<lambda>_ _. None), ag_ctx_after = None, ag_tools = (\<lambda>_ _. ex_env), ag_fallback_tools = ex_env,
     ag_environment = None, ag_others = (\<lambda>x. x), ag_uni = (\<lambda>_. False) \<rparr>"

theorem sessions_bounded_witness:
  "length (ra_sessions (snd (Run ex_agent_env ''s'' ''hello'' ex_react))) \<le> 256"
  using sessions_bounded [of "[]" "[]" "''m''" None ex_react ex_agent_env _ "''s''" "''hello''"]
  by (simp add: ex_react_def ex_agent_env_def)

section \<open>Grounded answers\<close>

lemma RagSearch_hits:
  assumes "RagSearchWithContext env r args = Inr (out, hits)" and "h \<in> set hits"
  shows "\<exists>rg q k. r = Some rg \<and> 1 \<le> k \<and> k \<le> 5
    \<and> SearchWithContext (te_dims env q) (te_vhits env q (k * 2)) q k rg = Inr hits"
proof -
  from assms obtain q x rg where "r = Some rg"
    and "SearchWithContext (te_dims env q) (te_vhits env q (clamp_top_k x * 2)) q (clamp_top_k x) rg = Inr hits"
    by (auto simp: RagSearchWithContext_def res_bind_eq_Inr Let_def split: if_splits option.splits)
  moreover have "1 \<le> clamp_top_k x" "clamp_top_k x \<le> 5" by (simp_all add: clamp_top_k_def)
  ultimately show ?thesis by blast
qed

text \<open>A hit of the knowledge base: a result of a search for at most five results.\<close>

definition knowledge_hit :: "deps option \<Rightarrow> rag_result \<Rightarrow> bool" where
  "knowledge_hit d h \<longleftrightarrow> (\<exists>x rg (env :: tool_env) q k hits. d = Some x \<and> dp_rag x = Some (Some rg) \<and> 1 \<le> k \<and> k \<le> 5
     \<and> SearchWithContext (te_dims env q) (te_vhits env q (k * 2)) q k rg = Inr hits \<and> h \<in> set hits)"

lemma Exec_hits:
  assumes "ExecWithContext env d name args = Inr (out, hits)" and "h \<in> set hits"
  shows "knowledge_hit d h"
proof -
  have "execLocalWithContext env d name args = Inr (out, hits)"
    using assms(1) by (simp add: ExecWithContext_def split: if_splits)
  with assms(2) obtain r where r: "RagSearchWithContext env r args = Inr (out, hits)"
    and d: "r = (case d of None \<Rightarrow> None | Some x \<Rightarrow> (case dp_rag x of None \<Rightarrow> None | Some r \<Rightarrow> r))"
    by (auto simp: execLocalWithContext_def res_bind_eq_Inr split: if_splits option.splits)
  from RagSearch_hits [OF r assms(2)] d assms(2) show ?thesis
    by (auto simp: knowledge_hit_def split: option.splits)
qed

definition grounded :: "agent_env \<Rightarrow> deps option \<Rightarrow> string \<Rightarrow> citation \<Rightarrow> bool" where
  "grounded env d query c \<longleftrightarrow> (\<exists>h. c = citationFromHit h \<and> knowledge_hit d h
     \<and> qualifiedQuery (ag_uni env) (ag_environment env) query h)"

definition cited_ok :: "agent_env \<Rightarrow> deps option \<Rightarrow> string \<Rightarrow> cited \<Rightarrow> bool" where
  "cited_ok env d query = (\<lambda>(cites, seen). list_all (grounded env d query) cites
     \<and> set seen = (\<lambda>c. ct_doc_id c @ [CHR 0x00] @ ct_version_id c @ [CHR 0x00] @ ct_chunk_id c) ` set cites
     \<and> distinct (map (\<lambda>c. ct_doc_id c @ [CHR 0x00] @ ct_version_id c @ [CHR 0x00] @ ct_chunk_id c) cites))"

lemma cite_hit_ok:
  "cited_ok env d query st \<Longrightarrow> knowledge_hit d h \<Longrightarrow> cited_ok env d query (cite_hit (ag_uni env) (ag_environment env) query h st)"
  by (cases st) (auto simp: cited_ok_def cite_hit_def grounded_def hit_key_def citationFromHit_def)

lemma cite_fold_ok:
  "cited_ok env d query st \<Longrightarrow> \<forall>h \<in> set hits. knowledge_hit d h
   \<Longrightarrow> cited_ok env d query (fold (cite_hit (ag_uni env) (ag_environment env) query) hits st)"
  by (induction hits arbitrary: st) (simp_all add: cite_hit_ok)

lemma call_loop_ok:
  "call_loop env a query i j tcs msgs st = Inr (msgs', st') \<Longrightarrow> cited_ok env (ra_tools a) query st
   \<Longrightarrow> cited_ok env (ra_tools a) query st'"
proof (induction tcs arbitrary: j msgs st)
  case (Cons tc tcs)
  then obtain out hits where x: "ExecWithContext (ag_tools env i j) (ra_tools a) (tf_name (tc_function tc))
      (tf_arguments (tc_function tc)) = Inr (out, hits)"
    and r: "call_loop env a query i (Suc j) tcs (msgs @ [tool_msg (tc_id tc) (trunc out 4000)])
      (fold (cite_hit (ag_uni env) (ag_environment env) query) hits st) = Inr (msgs', st')"
    by (auto split: option.splits if_splits sum.splits)
  have "\<forall>h \<in> set hits. knowledge_hit (ra_tools a) h" using Exec_hits [OF x] by blast
  with Cons.IH [OF r] cite_fold_ok Cons.prems(2) show ?case by blast
qed simp

lemma round_loop_ok:
  "round_loop env a query i k msgs st = Inr (final, cites) \<Longrightarrow> cited_ok env (ra_tools a) query st
   \<Longrightarrow> \<exists>seen. cited_ok env (ra_tools a) query (cites, seen)"
proof (induction k arbitrary: i msgs st)
  case 0
  then show ?case by (cases st) (auto split: sum.splits)
next
  case (Suc k)
  from Suc.prems(1) obtain content calls where c: "chat env i a msgs = Inr (content, calls)"
    by (auto split: sum.splits)
  show ?case
  proof (cases "calls = []")
    case True
    with Suc.prems c show ?thesis by (cases st) auto
  next
    case False
    with Suc.prems(1) c obtain msgs' st' where
      l: "call_loop env a query i 0 calls (msgs @ [assistant_msg content calls]) st = Inr (msgs', st')"
      and r: "round_loop env a query (Suc i) k msgs' st' = Inr (final, cites)"
      by (auto simp: res_bind_eq_Inr)
    from Suc.IH [OF r call_loop_ok [OF l Suc.prems(2)]] show ?thesis .
  qed
qed

lemma loop_grounded: "loop env a hist query = Inr (final, cites) \<Longrightarrow> list_all (grounded env (ra_tools a) query) cites"
  unfolding loop_def by (drule round_loop_ok) (auto simp: cited_ok_def)

lemma fallback_grounded:
  assumes "fallback env a query = Inr (reply, cites)"
  shows "reply = EvidenceReport cites \<and> list_all (grounded env (ra_tools a) query) cites"
proof -
  obtain out hits where x: "ExecWithContext (ag_fallback_tools env) (ra_tools a) ''rag_search''
      (''{'' @ json_string ''query'' @ '':'' @ json_string query @ '','' @ json_string ''top_k'' @ '':3}'') = Inr (out, hits)"
    using assms unfolding fallback_def by (auto split: if_splits sum.splits)
  then have c: "cites = map citationFromHit (filter (qualifiedQuery (ag_uni env) (ag_environment env) query) hits)"
    and r: "reply = EvidenceReport cites"
    using assms unfolding fallback_def by (auto simp: Let_def EvidenceReport_def split: if_splits)
  have "list_all (grounded env (ra_tools a) query) cites"
    unfolding c using Exec_hits [OF x] by (auto simp: list_all_iff grounded_def)
  with r show ?thesis by simp
qed

lemma EvidenceReport_safe:
  assumes "list_all (grounded env d query) cites"
  shows "EvidenceReport cites = SafeReport \<longleftrightarrow> cites = []"
proof -
  have "filter qualified_citation_parts cites = cites"
    using assms by (induction cites)
      (auto simp: grounded_def qualifiedQuery_def qualifiedHit_def qualified_citation_parts_def citationFromHit_def split: if_splits)
  moreover have "report_head @ t \<noteq> SafeReport" for t
    by (simp add: report_head_def SafeReport_def bytes_def)
  ultimately show ?thesis by (simp add: EvidenceReport_def)
qed

lemma begin_run_tools [simp]: "begin_run sid m a = (hist, a1) \<Longrightarrow> ra_tools a1 = ra_tools a"
  by (auto simp: begin_run_def touchSessionLocked_def split: prod.splits)

text \<open>C32. The assistant never speaks for itself. Whatever the language model writes and whichever tools it calls, an answer
  is the report built from its citations alone; every citation is a result of a search in the knowledge base that is
  complete, comes from a reviewed source, applies to the caller's environment and shares a lexical anchor with the
  question the user asked, not with the query the model chose; and without a citation the answer is the fixed safe
  report.\<close>

theorem Run_grounded:
  assumes "Run env sid msg a = (Inr (reply, cites), a')"
  shows "reply = EvidenceReport cites
    \<and> (\<forall>c \<in> set cites. \<exists>h. c = citationFromHit h \<and> knowledge_hit (ra_tools a) h
         \<and> qualifiedQuery (ag_uni env) (ag_environment env) (trim_space msg) h)
    \<and> (reply = SafeReport \<longleftrightarrow> cites = [])"
proof -
  define m where "m = trim_space msg"
  obtain hist a1 where b: "begin_run (session_id sid) m a = (hist, a1)" by (cases "begin_run (session_id sid) m a")
  have main: "reply = EvidenceReport cites \<and> list_all (grounded env (ra_tools a) m) cites"
  proof (cases "loop env a1 hist m")
    case (Inl e)
    with assms b have "fallback env a1 m = Inr (reply, cites)"
      by (simp add: Run_def Let_def m_def [symmetric] split: if_splits)
    with fallback_grounded b show ?thesis by fastforce
  next
    case (Inr x)
    with assms b have "reply = EvidenceReport cites" "loop env a1 hist m = Inr (fst x, cites)"
      by (auto simp: Run_def Let_def m_def [symmetric] split: if_splits prod.splits)
    with loop_grounded [of env a1 hist m] b show ?thesis by fastforce
  qed
  then have "reply = SafeReport \<longleftrightarrow> cites = []" using EvidenceReport_safe [of env "ra_tools a" m cites] by simp
  with main show ?thesis by (simp add: list_all_iff grounded_def m_def)
qed

lemma model_fields:
  "ag_parse (env\<lparr>ag_model := f\<rparr>) = ag_parse env" "ag_decode (env\<lparr>ag_model := f\<rparr>) = ag_decode env"
  "ag_marshal (env\<lparr>ag_model := f\<rparr>) = ag_marshal env" "ag_model (env\<lparr>ag_model := f\<rparr>) = f"
  "ag_ctx_after (env\<lparr>ag_model := f\<rparr>) = ag_ctx_after env" "ag_others (env\<lparr>ag_model := f\<rparr>) = ag_others env"
  by simp_all

lemma chat_cong: "f n = g n \<Longrightarrow> chat (env\<lparr>ag_model := f\<rparr>) n a msgs = chat (env\<lparr>ag_model := g\<rparr>) n a msgs"
  unfolding chat_def post_def model_fields by simp

lemma chatFinal_cong: "f n = g n \<Longrightarrow> chatFinal (env\<lparr>ag_model := f\<rparr>) n a msgs = chatFinal (env\<lparr>ag_model := g\<rparr>) n a msgs"
  unfolding chatFinal_def post_def model_fields by simp

lemma call_loop_model: "call_loop (env\<lparr>ag_model := f\<rparr>) a q i j tcs msgs st = call_loop env a q i j tcs msgs st"
  by (induction tcs arbitrary: j msgs st) (auto split: option.splits sum.splits)

lemma round_loop_cong:
  "\<forall>n. i \<le> n \<and> n \<le> i + k \<longrightarrow> f n = g n \<Longrightarrow>
   round_loop (env\<lparr>ag_model := f\<rparr>) a q i k msgs st = round_loop (env\<lparr>ag_model := g\<rparr>) a q i k msgs st"
proof (induction k arbitrary: i msgs st)
  case 0
  then show ?case by (simp add: chatFinal_cong [of f i g])
next
  case (Suc k)
  have "\<forall>n. Suc i \<le> n \<and> n \<le> Suc i + k \<longrightarrow> f n = g n" using Suc.prems by simp
  note ih = Suc.IH [OF this]
  have "f i = g i" using Suc.prems by simp
  show ?case unfolding round_loop.simps chat_cong [of f i g, OF \<open>f i = g i\<close>] call_loop_model ih by (rule refl)
qed

lemma fallback_model: "fallback (env\<lparr>ag_model := f\<rparr>) a q = fallback env a q"
  by (simp add: fallback_def Let_def cong: if_cong sum.case_cong)

text \<open>A question costs at most four requests to the language model: answers beyond the third round and the final request
  cannot influence anything.\<close>

theorem Run_bounded_requests:
  assumes "\<forall>n \<le> MaxRounds. f n = g n"
  shows "Run (env\<lparr>ag_model := f\<rparr>) sid msg a = Run (env\<lparr>ag_model := g\<rparr>) sid msg a"
proof -
  have l: "loop (env\<lparr>ag_model := f\<rparr>) b hist q = loop (env\<lparr>ag_model := g\<rparr>) b hist q" for b hist q
    unfolding loop_def by (rule round_loop_cong) (use assms in simp)
  show ?thesis unfolding Run_def fallback_model model_fields l by (rule refl)
qed

theorem Run_bounded_requests_witness:
  "Run (ex_agent_env\<lparr>ag_model := \<lambda>n _. if n \<le> 3 then Inl ErrUnavailable else Inl ErrDeadline\<rparr>) ''s'' ''hello'' ex_react
     = Run (ex_agent_env\<lparr>ag_model := \<lambda>_ _. Inl ErrUnavailable\<rparr>) ''s'' ''hello'' ex_react"
  by (rule Run_bounded_requests) (simp add: MaxRounds_def)

section \<open>Isolation of callers\<close>

lemma same_config_loop:
  assumes "same_config a b"
  shows "loop env a hist q = loop env b hist q" and "fallback env a q = fallback env b q"
proof -
  note c = assms [unfolded same_config_def]
  have repo: "toolsRepo a = toolsRepo b" and rq: "request a msgs t = request b msgs t" for msgs t
    using c by (simp_all add: toolsRepo_def request_def)
  have calls: "call_loop env a q i j tcs msgs st = call_loop env b q i j tcs msgs st" for i j tcs msgs st
    using c by (induction tcs arbitrary: j msgs st) (simp_all cong: if_cong sum.case_cong option.case_cong)
  have "round_loop env a q i k msgs st = round_loop env b q i k msgs st" for i k msgs st
  proof (induction k arbitrary: i msgs st)
    case (Suc k)
    show ?case unfolding round_loop.simps chat_def rq repo calls Suc by (rule refl)
  qed (simp add: chatFinal_def rq)
  then show "loop env a hist q = loop env b hist q" by (simp add: loop_def repo)
  show "fallback env a q = fallback env b q" using c by (simp add: fallback_def)
qed

lemma same_config_begin: "same_config a b \<Longrightarrow> same_config (snd (begin_run i m a)) (snd (begin_run i m b))"
  by (simp add: begin_run_def)

lemma Run_history:
  assumes "same_config a b" and "history (session_id sid) a = history (session_id sid) b"
  shows "fst (Run env sid msg a) = fst (Run env sid msg b)"
proof -
  define s where "s = session_id sid"
  have h: "fst (begin_run s m a) = fst (begin_run s m b)" for m using assms(2) by (simp add: begin_run_def s_def)
  have c: "same_config (snd (begin_run s m a)) (snd (begin_run s m b))" for m by (rule same_config_begin [OF assms(1)])
  show ?thesis
    using h [of "trim_space msg"] same_config_loop [OF c [of "trim_space msg"], of env]
    by (simp add: Run_def Let_def s_def [symmetric] split_beta split: sum.splits)
qed

lemma cleared: "request_id n \<notin> fst ` set (ra_sessions (snd (ClearSessions (request_id n) a)))"
  by (auto simp: ClearSessions_def AList.delete_eq map_of_eq_None_iff split: option.splits)

lemma trim_left_keeps: "x \<in> set s \<Longrightarrow> x \<notin> set (concat ws_encodings) \<Longrightarrow> x \<in> set (trim_left s)"
proof (induction s rule: trim_left.induct)
  case (1 s)
  show ?case
  proof (cases "find (has_prefix s) ws_encodings")
    case (Some w)
    then have w: "w \<in> set ws_encodings" "has_prefix s w" by (auto simp: find_Some_iff)
    then obtain t where s: "s = w @ t" by (auto simp: has_prefix_iff)
    with 1 w(1) have "x \<in> set (drop (length w) s)" by auto
    with 1 Some show ?thesis by (subst trim_left.simps) simp
  qed (use 1 in \<open>subst trim_left.simps, simp\<close>)
qed

lemma trim_right_keeps: "x \<in> set s \<Longrightarrow> x \<notin> set (concat ws_encodings) \<Longrightarrow> x \<in> set (trim_right s)"
proof (induction s rule: trim_right.induct)
  case (1 s)
  show ?case
  proof (cases "find (has_suffix s) ws_encodings")
    case (Some w)
    then have w: "w \<in> set ws_encodings" "has_suffix s w" by (auto simp: find_Some_iff)
    then have "s = take (length s - length w) s @ w" by (metis append_take_drop_id has_suffix_def)
    then have "x \<in> set (take (length s - length w) s) \<or> x \<in> set w" using 1(2) by (metis Un_iff set_append)
    with 1 w(1) have "x \<in> set (take (length s - length w) s)" by auto
    with 1 Some show ?thesis by (subst trim_right.simps) simp
  qed (use 1 in \<open>subst trim_right.simps, simp\<close>)
qed

lemma session_request_id: "session_id (request_id n) = request_id n"
proof -
  have "CHR ''r'' \<notin> set (concat ws_encodings)" by code_simp
  then have "CHR ''r'' \<in> set (trim_space (request_id n))"
    unfolding trim_space_def by (intro trim_right_keeps trim_left_keeps) (simp_all add: request_id_def)
  then show ?thesis by (auto simp: session_id_def)
qed

lemma answer_ok:
  "hp_status (answer e res) = 200 \<Longrightarrow> hp_reply (answer e res) = EvidenceReport (hp_citations (answer e res))
     \<and> (hp_evidence_status (answer e res) = ''has_citations'' \<longleftrightarrow> hp_citations (answer e res) \<noteq> [])"
  by (auto simp: answer_def chat_error_def split: if_splits sum.splits prod.splits)

lemma Chat_ok:
  assumes "hp_status (fst (Chat env ctx_err body (Some n) (Some a))) = 200"
  shows "\<exists>env' m. \<forall>x. Chat env ctx_err body (Some n) (Some x)
     = (answer ctx_err (fst (Run env' (request_id n) m x)),
        Some (snd (ClearSessions (request_id n) (snd (Run env' (request_id n) m x)))))"
proof (cases "decode_chat_req (ag_parse env body)")
  case (Inl e)
  with assms show ?thesis by (simp add: Chat_def chat_error_def split: if_splits)
next
  case (Inr rq)
  with assms have "\<not> length body > 32 * 1024" "\<not> length (cq_message rq) > 12 * 1024" "trim_space (cq_message rq) \<noteq> []"
    "\<not> length (cq_environment rq) > 128"
    by (simp_all add: Chat_def chat_error_def Let_def split: if_splits)
  with Inr have "Chat env ctx_err body (Some n) (Some x)
     = (answer ctx_err (fst (Run (env\<lparr>ag_environment := WithEnvironment (cq_environment rq)\<rparr>) (request_id n)
          (trim_space (cq_message rq)) x)),
        Some (snd (ClearSessions (request_id n) (snd (Run (env\<lparr>ag_environment := WithEnvironment (cq_environment rq)\<rparr>)
          (request_id n) (trim_space (cq_message rq)) x)))))" for x
    by (simp add: Chat_def Let_def split_beta)
  then show ?thesis by blast
qed

text \<open>Callers are isolated. The answer of the chat endpoint depends on the request alone: two agents of the same
  configuration whose session tables differ give the same answer, and an accepted request leaves no history behind. A
  successful answer is the report of its citations and says whether it has any.\<close>

theorem Chat_isolated:
  assumes "same_config a b" and "request_id n \<notin> fst ` set (ra_sessions a)" and "request_id n \<notin> fst ` set (ra_sessions b)"
    and "Chat env ctx_err body (Some n) (Some a) = (rp, Some a')" and "hp_status rp = 200"
  shows "fst (Chat env ctx_err body (Some n) (Some b)) = rp \<and> request_id n \<notin> fst ` set (ra_sessions a')
    \<and> hp_reply rp = EvidenceReport (hp_citations rp)
    \<and> (hp_evidence_status rp = ''has_citations'' \<longleftrightarrow> hp_citations rp \<noteq> [])"
proof -
  have "history (session_id (request_id n)) a = history (session_id (request_id n)) b"
    using assms(2,3) by (simp add: history_def session_request_id map_of_eq_None_iff [THEN iffD2])
  note run = Run_history [OF assms(1) this]
  have "hp_status (fst (Chat env ctx_err body (Some n) (Some a))) = 200" using assms(4,5) by simp
  from Chat_ok [OF this] obtain env' m where c: "Chat env ctx_err body (Some n) (Some x)
      = (answer ctx_err (fst (Run env' (request_id n) m x)),
         Some (snd (ClearSessions (request_id n) (snd (Run env' (request_id n) m x)))))" for x by blast
  from assms(4) c [of a] have rp: "rp = answer ctx_err (fst (Run env' (request_id n) m a))"
    and a': "a' = snd (ClearSessions (request_id n) (snd (Run env' (request_id n) m a)))" by simp_all
  have "fst (Chat env ctx_err body (Some n) (Some b)) = rp" by (simp add: c rp run)
  moreover have "request_id n \<notin> fst ` set (ra_sessions a')" unfolding a' by (rule cleared)
  ultimately show ?thesis using answer_ok assms(5) unfolding rp by blast
qed

section \<open>The anchor policy\<close>

text \<open>The pairs a list of words contributes.\<close>

definition anchor_pairs :: "string \<Rightarrow> string list \<Rightarrow> string set" where
  "anchor_pairs txt ws = {p. \<exists>w. w \<in> set ws \<and> w \<notin> set stop_words \<and> \<not> ascii_word w
     \<and> p \<in> set (flush_han (map snd (runes w))) \<and> p \<notin> set stop_words \<and> contains txt p}"

lemma anchor_pairs_Cons:
  "anchor_pairs txt (w # ws) = (if w \<in> set stop_words \<or> ascii_word w then {} else set (word_pairs txt w)) \<union> anchor_pairs txt ws"
  by (auto simp: anchor_pairs_def word_pairs_def)

lemma anchor_loop_iff:
  "anchor_loop txt ws pairs \<longleftrightarrow>
     (\<exists>w. w \<in> set ws \<and> w \<notin> set stop_words \<and> ascii_word w \<and> 3 \<le> length w \<and> contains txt w)
     \<or> 2 \<le> card (set pairs \<union> anchor_pairs txt ws)"
proof (induction ws arbitrary: pairs)
  case Nil
  then show ?case by (simp add: anchor_pairs_def length_remdups_card_conv)
next
  case (Cons w ws)
  show ?case by (auto simp: Cons anchor_pairs_Cons Un_assoc)
qed

text \<open>What the anchor policy means. A text is anchored in a question exactly when, both in lower case, it contains the
  whole question (of at least three characters), or an ASCII word of the question of at least three letters that is no stop
  word, or two different pairs of neighbouring characters of its other words that are no stop words.\<close>

theorem LexicalAnchor_policy:
  "LexicalAnchor uni query txt \<longleftrightarrow>
     (let q = to_lower (trim_space query); t = to_lower txt; ws = word_fields uni (runes q) []
      in q \<noteq> [] \<and> (3 \<le> length (runes q) \<and> contains t q
           \<or> (\<exists>w. w \<in> set ws \<and> w \<notin> set stop_words \<and> ascii_word w \<and> 3 \<le> length w \<and> contains t w)
           \<or> 2 \<le> card (anchor_pairs t ws)))"
  by (auto simp: LexicalAnchor_def anchor_loop_iff Let_def)

section \<open>A question answered\<close>

definition ex_chunk2 :: version_chunk where
  "ex_chunk2 = \<lparr> vc_id = ''c'', vc_doc_id = ''d'', vc_version_id = ''v'', vc_title = ''disk'', vc_snippet = ''disk full'',
     vc_source = ''upload'', vc_space_id = [], vc_environment = ''all'' \<rparr>"
definition ex_kb :: rag where "ex_kb = new_rag\<lparr>rg_chunks := [(''c'', ex_chunk2)]\<rparr>"
definition ex_point :: point where "ex_point = \<lparr> pt_id = ''c'', pt_title = ''disk'', pt_content = ''disk full'', pt_source = ''upload'' \<rparr>"
definition ex_fields :: "rag_result \<Rightarrow> bool" where
  "ex_fields h \<longleftrightarrow> res_doc_id h = ''d'' \<and> res_version_id h = ''v'' \<and> res_chunk_id h = ''c'' \<and> res_snippet h = ''disk full''
     \<and> res_source h = ''upload'' \<and> res_environment h = ''all'' \<and> res_doc h = []"

lemma ex_search: "\<exists>h. SearchWithContext (Inr 3) (Inr [(ex_point, 1)]) ''disk full'' 3 ex_kb = Inr [h]
   \<and> ex_fields h"
proof -
  have t: "trim_space ''disk full'' = ''disk full''" by code_simp
  have v: "validateSpace (rg_space_id ex_kb) 3 ex_kb = Inr ()" by (simp add: validateSpace_def ensure_def ex_kb_def new_rag_def)
  have b: "searchFiltered ''disk full'' 6 f (rg_bm ex_kb) = []" for f
    by (simp add: searchFiltered_def ex_kb_def new_rag_def newBM25Index_def by_score_def Let_def)
  have r: "rrfFuse [''c''] [] 60 = [(''c'', 1 / 61)]" by (simp add: rrfFuse_def rrf_add_def enumerate_eq_zip)
  have fl: "rg_floor ex_kb = 0" "rg_chunks ex_kb = [(''c'', ex_chunk2)]" by (simp_all add: ex_kb_def new_rag_def)
  have id: "pt_id ex_point = ''c''" by (simp add: ex_point_def)
  have doc: "docOf ''disk full'' = []" by code_simp
  obtain h where h: "fuse_result ex_kb ''disk full'' [(ex_point, 1)] [] (''c'', 1 / 61) = Some h"
    and "res_doc_id h = ''d''" "res_version_id h = ''v''" "res_chunk_id h = ''c''" "res_snippet h = ''disk full''"
    "res_source h = ''upload''" "res_environment h = ''all''" "res_doc h = []"
    by (simp add: fuse_result_def find_cand_def dense_cand_def doc fl ex_point_def ex_chunk2_def Let_def)
  moreover have "SearchWithContext (Inr 3) (Inr [(ex_point, 1)]) ''disk full'' 3 ex_kb = Inr [h]"
    by (simp add: SearchWithContext_def searchFused_def t v b r id fl h List.map_filter_simps)
  ultimately show ?thesis by (auto simp: ex_fields_def)
qed

definition ex_call :: "nat \<Rightarrow> tool_env" where
  "ex_call n = ex_env\<lparr>te_parse := \<lambda>_. Some (JObj [(''query'', JStr ''disk full''), (''top_k'', JNum ''3'')]),
     te_dims := \<lambda>_. Inr 3, te_vhits := \<lambda>_ _. Inr [(ex_point, 1)]\<rparr>"

lemma ex_exec: "\<exists>out h. ExecWithContext (ex_call n) (Some (NewDeps (Some ex_kb) [])) ''rag_search'' args = Inr (out, [h])
   \<and> ex_fields h"
proof -
  obtain h where h: "SearchWithContext (Inr 3) (Inr [(ex_point, 1)]) ''disk full'' 3 ex_kb = Inr [h]"
    and p: "ex_fields h"
    using ex_search by blast
  have t: "trim_space ''disk full'' = ''disk full''" by code_simp
  have a: "argsOf (te_parse (ex_call n)) args (\<lambda>kvs.
        res_bind (str_field ''query'' kvs) (\<lambda>q.
        res_bind (fold_res set_float (jvalues ''top_k'' kvs) 0) (\<lambda>k. Inr (q, k)))) = Inr (''disk full'', 3)"
    by (simp add: argsOf_def ex_call_def str_field_def jvalues_def to_lower_def lower_char_def set_string_def set_float_def
        num_val_def has_prefix_def is_digit_def less_eq_char_def scale10_def exponent_of_def ensure_def Let_def)
  have "RagSearchWithContext (ex_call n) (Some ex_kb) args = Inr (''['' @ rag_item (te_float (ex_call n)) h @ '']'', [h])"
    unfolding RagSearchWithContext_def a
    by (simp add: t go_int_def clamp_top_k_def h ex_call_def tool_err_def Let_def)
  then have "ExecWithContext (ex_call n) (Some (NewDeps (Some ex_kb) [])) ''rag_search'' args = Inr (''['' @ rag_item (te_float (ex_call n)) h @ '']'', [h])"
    by (simp add: ExecWithContext_def IsAllowed_def deployRepo_def NewDeps_def AllowedFor_def baseTools_def execLocalWithContext_def)
  with p show ?thesis by blast
qed

lemma ex_anchor: "LexicalAnchor (\<lambda>_. False) ''disk full'' (newline @ ''disk full'')"
  by (simp add: newline_def) code_simp

lemma ex_trims: "trim_space ''d'' \<noteq> []" "trim_space ''v'' \<noteq> []" "trim_space ''c'' \<noteq> []" "trim_space ''disk full'' = ''disk full''"
  by code_simp+

definition ex_reply :: "string \<Rightarrow> json option" where
  "ex_reply s = Some (JObj [(''choices'', JArr [JObj [(''message'', JObj
     (if s = ''call'' then [(''tool_calls'', JArr [JObj [(''id'', JStr ''1''), (''function'', JObj [(''name'', JStr ''rag_search'')])]])]
      else [(''content'', JStr ''rm -rf /'')]))]])])"

definition ex_chat_env :: agent_env where
  "ex_chat_env = ex_agent_env\<lparr>ag_model := \<lambda>n _. Inr (200, if n = 0 then ''call'' else ''say''), ag_decode := ex_reply,
     ag_parse := \<lambda>_. Some (JObj [(''message'', JStr ''disk full'')]),
     ag_tools := \<lambda>_ _. ex_call 0\<rparr>"

definition ex_agent :: react where
  "ex_agent = NewReAct [] [] ''m'' (Some (NewDeps (Some ex_kb) []))"

lemma ex_posts:
  "trim_space (cr_model rq) \<noteq> [] \<Longrightarrow> post (ex_chat_env\<lparr>ag_environment := en\<rparr>) 0 rq = Inr ([], [\<lparr> tc_id = ''1'', tc_type = [], tc_function = \<lparr> tf_name = ''rag_search'', tf_arguments = [] \<rparr> \<rparr>])"
  "trim_space (cr_model rq) \<noteq> [] \<Longrightarrow> post (ex_chat_env\<lparr>ag_environment := en\<rparr>) (Suc n) rq = Inr (''rm -rf /'', [])"
  by (simp_all add: post_def ex_chat_env_def ex_agent_env_def ex_reply_def decode_response_def decode_choice_def decode_tool_call_def
      set_list_def set_struct_def set_str_def set_string_def jvalues_def to_lower_def lower_char_def strOf_def)

lemma ex_loop: "same_config ex_agent a1 \<Longrightarrow> \<exists>h. loop (ex_chat_env\<lparr>ag_environment := en\<rparr>) a1 hist ''disk full'' = Inr (''rm -rf /'', [citationFromHit h]) \<and> res_doc_id h = ''d''"
proof -
  assume c: "same_config ex_agent a1"
  have m: "ra_model a1 = ''m''" "ra_tools a1 = Some (NewDeps (Some ex_kb) [])" using c by (simp_all add: same_config_def ex_agent_def NewReAct_def Let_def)
  have mt: "trim_space ''m'' \<noteq> []" by code_simp
  obtain out h where x: "ExecWithContext (ex_call 0) (Some (NewDeps (Some ex_kb) [])) ''rag_search'' [] = Inr (out, [h])"
    and "ex_fields h" using ex_exec by blast
  note h = this(2) [unfolded ex_fields_def]
  have q: "qualifiedQuery (\<lambda>_. False) en ''disk full'' h"
    using ex_anchor by (simp add: qualifiedQuery_def qualifiedHit_def qualified_parts_def h ex_trims)
  have e: "ag_ctx ex_chat_env i j = None" "ag_tools ex_chat_env i j = ex_call 0" "ag_uni ex_chat_env = (\<lambda>_. False)" for i j
    by (simp_all add: ex_chat_env_def ex_agent_env_def)
  have n: "\<not> no_rag (Some (NewDeps (Some ex_kb) []))" by (simp add: no_rag_def NewDeps_def)
  have "loop (ex_chat_env\<lparr>ag_environment := en\<rparr>) a1 hist ''disk full'' = Inr (''rm -rf /'', [citationFromHit h])"
    by (simp add: loop_def MaxRounds_def eval_nat_numeral chat_def ex_posts request_def m mt e n x q cite_hit_def)
  with h show ?thesis by blast
qed

lemma ex_run: "\<exists>h a'. Run (ex_chat_env\<lparr>ag_environment := en\<rparr>) sid ''disk full'' ex_agent = (Inr (EvidenceReport [citationFromHit h], [citationFromHit h]), a') \<and> res_doc_id h = ''d''"
proof -
  obtain hist a1 where b: "begin_run (session_id sid) ''disk full'' ex_agent = (hist, a1)" by (cases "begin_run (session_id sid) ''disk full'' ex_agent")
  have "same_config ex_agent (snd (begin_run (session_id sid) ''disk full'' ex_agent))" by (rule same_config_step) (rule table_step.begins)
  with b obtain h where "loop (ex_chat_env\<lparr>ag_environment := en\<rparr>) a1 hist ''disk full'' = Inr (''rm -rf /'', [citationFromHit h])" "res_doc_id h = ''d''"
    using ex_loop [of a1 en hist] by auto
  with b show ?thesis by (intro exI [of _ h]) (simp add: Run_def ex_trims Let_def)
qed

theorem Run_grounded_witness:
  "\<exists>reply c a'. Run ex_chat_env ''s'' ''disk full'' ex_agent = (Inr (reply, [c]), a') \<and> ct_doc_id c = ''d''
     \<and> reply = EvidenceReport [c] \<and> reply \<noteq> SafeReport"
proof -
  have "ex_chat_env\<lparr>ag_environment := None\<rparr> = ex_chat_env" by (simp add: ex_chat_env_def ex_agent_env_def)
  then obtain h a' where r: "Run ex_chat_env ''s'' ''disk full'' ex_agent
      = (Inr (EvidenceReport [citationFromHit h], [citationFromHit h]), a')" and h: "res_doc_id h = ''d''"
    using ex_run [of None "''s''"] by auto
  from Run_grounded [OF r] have "EvidenceReport [citationFromHit h] \<noteq> SafeReport" by simp
  with r h show ?thesis by (auto simp: citationFromHit_def)
qed

lemma ex_chat:
  "\<exists>rp a'. Chat ex_chat_env None [] (Some []) (Some ex_agent) = (rp, Some a') \<and> hp_status rp = 200 \<and> hp_citations rp \<noteq> []"
proof -
  have "decode_chat_req (ag_parse ex_chat_env []) = Inr \<lparr> cq_message = ''disk full'', cq_session_id = [], cq_environment = [] \<rparr>"
    by (simp add: decode_chat_req_def ex_chat_env_def set_struct_def str_field_def jvalues_def to_lower_def lower_char_def set_string_def)
  moreover obtain h a' where
    "Run (ex_chat_env\<lparr>ag_environment := WithEnvironment []\<rparr>) (request_id []) ''disk full'' ex_agent
      = (Inr (EvidenceReport [citationFromHit h], [citationFromHit h]), a')" using ex_run by blast
  ultimately show ?thesis by (simp add: Chat_def ex_trims answer_def Let_def)
qed

theorem Chat_isolated_witness:
  "\<exists>rp a'. Chat ex_chat_env None [] (Some []) (Some ex_agent) = (rp, Some a') \<and> hp_status rp = 200
     \<and> fst (Chat ex_chat_env None [] (Some []) (Some (ex_agent\<lparr>ra_sessions := [(''x'', [])], ra_order := [''x'']\<rparr>))) = rp
     \<and> request_id [] \<notin> fst ` set (ra_sessions a') \<and> hp_evidence_status rp = ''has_citations''"
proof -
  obtain rp a' where c: "Chat ex_chat_env None [] (Some []) (Some ex_agent) = (rp, Some a')" "hp_status rp = 200" "hp_citations rp \<noteq> []"
    using ex_chat by blast
  have "same_config ex_agent (ex_agent\<lparr>ra_sessions := [(''x'', [])], ra_order := [''x'']\<rparr>)" by (simp add: same_config_def)
  from Chat_isolated [OF this _ _ c(1,2)] c show ?thesis
    by (simp add: ex_agent_def NewReAct_def request_id_def Let_def)
qed

end
