(* ===== verification/Planner.thy ===== *)
theory Planner
  imports Agent Dispatcher
begin

text \<open>
  The synchronous plan (\<open>src/internal/agent/planner.go\<close>): the firing alerts of Prometheus
  (\<open>src/internal/tool/prometheus.go\<close>), a search per alert and the report of the qualified hits. \<open>pe_decode\<close> reads
  the first JSON value of a response, \<open>pe_ctx\<close> is the error of the context on entry (\<open>0\<close>) and before the alert of
  that number, and \<open>pe_http\<close> a GET request.
\<close>

section \<open>Firing alerts\<close>

record prom_alert =
  pa_labels :: "gomap option"
  pa_annotations :: "gomap option"
  pa_state :: string
  pa_active_at :: string

record plan_env =
  pe_ctx :: "nat \<Rightarrow> ws_error option"
  pe_http :: "string \<Rightarrow> (nat \<times> string) ws"
  pe_decode :: "string \<Rightarrow> json option"
  pe_dims :: "string \<Rightarrow> nat ws"
  pe_vhits :: "string \<Rightarrow> int \<Rightarrow> (point \<times> real) list ws"
  pe_uni :: "int \<Rightarrow> bool"

definition NewPromClient :: "string \<Rightarrow> string" where
  "NewPromClient baseURL =
     (let b = trim_slashes (trim_space baseURL) in if b = [] then ''http://localhost:9090'' else b)"

definition decode_prom_alert :: "json \<Rightarrow> prom_alert ws" where
  "decode_prom_alert j =
     set_struct (\<lambda>kvs a.
        res_bind (map_field ''labels'' kvs) (\<lambda>ls.
        res_bind (map_field ''annotations'' kvs) (\<lambda>as.
        res_bind (str_field ''state'' kvs) (\<lambda>st.
        res_bind (str_field ''activeAt'' kvs) (\<lambda>t.
          Inr \<lparr> pa_labels = ls, pa_annotations = as, pa_state = st, pa_active_at = t \<rparr>)))))
       j \<lparr> pa_labels = None, pa_annotations = None, pa_state = [], pa_active_at = [] \<rparr>"

text \<open>The status and the alerts of the answer; \<open>None\<close> is a missing or null array.\<close>

definition set_alert_array :: "json \<Rightarrow> prom_alert list option \<Rightarrow> prom_alert list option ws" where
  "set_alert_array v old =
     (case v of
        JNull \<Rightarrow> Inr None
      | JArr xs \<Rightarrow> res_bind (map_res decode_prom_alert xs) (\<lambda>ys. Inr (Some ys))
      | _ \<Rightarrow> Inl ErrJSON)"

definition decode_alerts :: "json option \<Rightarrow> (string \<times> prom_alert list option) ws" where
  "decode_alerts j =
     (case j of
        None \<Rightarrow> Inl ErrJSON
      | Some v \<Rightarrow>
          set_struct (\<lambda>kvs out.
            res_bind (str_field ''status'' kvs) (\<lambda>st.
            res_bind (fold_res (set_struct (\<lambda>ks as. fold_res set_alert_array (jvalues ''alerts'' ks) as))
                (jvalues ''data'' kvs) None) (\<lambda>as. Inr (st, as))))
            v ([], None))"

definition label_of :: "gomap option \<Rightarrow> string \<Rightarrow> string" where
  "label_of m k = (case m of None \<Rightarrow> [] | Some ls \<Rightarrow> mget ls k)"

definition firing_alert :: "prom_alert \<Rightarrow> alert" where
  "firing_alert a =
     (let nm = label_of (pa_labels a) ''alertname''; ds = label_of (pa_annotations a) ''description''
      in \<lparr> al_name = (if nm = [] then label_of (pa_labels a) ''alert'' else nm),
           al_severity = label_of (pa_labels a) ''severity'',
           al_description = (if ds = [] then label_of (pa_annotations a) ''summary'' else ds),
           al_labels = Some (case pa_labels a of None \<Rightarrow> [] | Some ls \<Rightarrow> ls), al_starts_at = pa_active_at a \<rparr>)"

definition FiringWithContext :: "plan_env \<Rightarrow> string option \<Rightarrow> alert list ws" where
  "FiringWithContext env p =
     (case p of
        None \<Rightarrow> Inl (ErrMsg ''prometheus not configured'')
      | Some base \<Rightarrow>
          res_bind (pe_http env (base @ ''/api/v1/alerts'')) (\<lambda>(status, body).
          if 300 \<le> status then Inl (ErrMsg (''prom alerts query: HTTP '' @ dec status))
          else res_bind (decode_alerts (pe_decode env body)) (\<lambda>(st, as).
            case as of
              None \<Rightarrow> Inl (ErrMsg ''prom alerts invalid response status or missing alerts'')
            | Some xs \<Rightarrow>
                if st \<noteq> ''success'' then Inl (ErrMsg ''prom alerts invalid response status or missing alerts'')
                else Inr (map firing_alert (filter (\<lambda>a. to_lower (trim_space (pa_state a)) = ''firing'') xs)))))"

section \<open>The plan\<close>

record planner =
  pl_prom :: "string option"
  pl_rag :: "rag option"
  pl_top_k :: int

definition NewPlanner :: "string option \<Rightarrow> rag option \<Rightarrow> planner" where
  "NewPlanner prom r = \<lparr> pl_prom = prom, pl_rag = r, pl_top_k = 3 \<rparr>"

text \<open>\<open>qualifiedQuery\<close> asks for the name of the alert in the environment of its label.\<close>

definition alert_qualifies :: "plan_env \<Rightarrow> alert \<Rightarrow> rag_result \<Rightarrow> bool" where
  "alert_qualifies env a h =
     qualifiedQuery (pe_uni env) (WithEnvironment (label_of (al_labels a) ''environment'')) (al_name a) h"

definition alert_query :: "alert \<Rightarrow> string" where
  "alert_query a = trim_space (al_name a @ '' '' @ al_description a)"

definition plan_top_k :: "planner \<Rightarrow> int" where
  "plan_top_k p = (if pl_top_k p \<le> 0 then 3 else pl_top_k p)"

definition alert_hits :: "plan_env \<Rightarrow> planner \<Rightarrow> rag \<Rightarrow> alert \<Rightarrow> rag_result list ws" where
  "alert_hits env p r a =
     (let query = alert_query a; k = plan_top_k p in
      if query = [] then Inr []
      else res_bind (SearchWithContext (pe_dims env query) (pe_vhits env query (k * 2)) query k r) (\<lambda>h.
        Inr (filter (alert_qualifies env a) h)))"

definition plan_cite :: "rag_result \<Rightarrow> rag_result list \<times> string list \<Rightarrow> rag_result list \<times> string list" where
  "plan_cite h = (\<lambda>(cites, seen).
     if hit_key h \<in> set seen then (cites, seen) else (cites @ [h], hit_key h # seen))"

fun plan_loop :: "plan_env \<Rightarrow> planner \<Rightarrow> rag \<Rightarrow> nat \<Rightarrow> alert list \<Rightarrow> rag_result list \<times> string list \<Rightarrow>
    (agent_error, rag_result list) res" where
  "plan_loop env p r i [] st = Inr (fst st)"
| "plan_loop env p r i (a # as) st =
     (case pe_ctx env i of
        Some e \<Rightarrow> Inl (ModelError e)
      | None \<Rightarrow>
          (case alert_hits env p r a of
             Inl e \<Rightarrow> Inl (KnowledgeUnavailable (Some (JoinedUnavailable e)))
           | Inr hits \<Rightarrow> plan_loop env p r (Suc i) as (fold plan_cite hits st)))"

definition plan_diagnose :: "plan_env \<Rightarrow> planner \<Rightarrow> alert list \<Rightarrow> (agent_error, string \<times> rag_result list) res" where
  "plan_diagnose env p alerts =
     (case pl_rag p of
        None \<Rightarrow> Inl (KnowledgeUnavailable None)
      | Some r \<Rightarrow>
          res_bind (plan_loop env p r 1 alerts ([], [])) (\<lambda>citations.
            if citations = [] then Inr (SafeReport, citations)
            else Inr (EvidenceReport (map citationFromHit citations), citations)))"

definition no_alerts :: string where
  "no_alerts = bytes [0xE5, 0xBD, 0x93, 0xE5, 0x89, 0x8D, 0xE6, 0x97, 0xA0] @ '' firing '' @ bytes [0xE5, 0x91, 0x8A, 0xE8,
     0xAD, 0xA6, 0xEF, 0xBC, 0x8C, 0xE6, 0x97, 0xA0, 0xE9, 0x9C, 0x80, 0xE8, 0xAF, 0x8A, 0xE6, 0x96, 0xAD, 0xE3, 0x80,
     0x82]"

definition no_pushed_alerts :: string where
  "no_pushed_alerts = ''payload '' @ bytes [0xE6, 0x97, 0xA0] @ '' firing '' @ bytes [0xE5, 0x91, 0x8A, 0xE8, 0xAD, 0xA6, 0xEF, 0xBC,
     0x8C, 0xE6, 0x97, 0xA0, 0xE9, 0x9C, 0x80, 0xE8, 0xAF, 0x8A, 0xE6, 0x96, 0xAD, 0xE3, 0x80, 0x82]"

definition plan_unavailable :: string where
  "plan_unavailable = bytes [0xE6, 0x9D, 0xA5, 0xE6, 0xBA, 0x90, 0xE4, 0xB8, 0x8D, 0xE5, 0x8F, 0xAF, 0xE7, 0x94, 0xA8, 0xEF, 0xBC,
     0x88, 0xE5, 0x91, 0x8A, 0xE8, 0xAD, 0xA6, 0xE6, 0xBA, 0x90, 0xE4, 0xB8, 0x8D, 0xE5, 0x8F, 0xAF, 0xE8, 0xBE, 0xBE,
     0xE6, 0x88, 0x96, 0xE7, 0x9F, 0xA5, 0xE8, 0xAF, 0x86, 0xE6, 0xA3, 0x80, 0xE7, 0xB4, 0xA2, 0xE5, 0xA4, 0xB1, 0xE8,
     0xB4, 0xA5, 0xEF, 0xBC, 0x89, 0xEF, 0xBC, 0x8C, 0xE6, 0x9C, 0xAC, 0xE8, 0xBD, 0xAE, 0xE6, 0x9C, 0xAA, 0xE5, 0x81,
     0x9A, 0xE8, 0xAF, 0x8A, 0xE6, 0x96, 0xAD, 0xEF, 0xBC, 0x8C, 0xE8, 0xAF, 0xB7, 0xE4, 0xBA, 0xBA, 0xE5, 0xB7, 0xA5,
     0xE7, 0xA0, 0x94, 0xE5, 0x88, 0xA4, 0xE3, 0x80, 0x82]"

definition push_unavailable :: string where
  "push_unavailable = bytes [0xE7, 0x9F, 0xA5, 0xE8, 0xAF, 0x86, 0xE6, 0x9D, 0xA5, 0xE6, 0xBA, 0x90, 0xE4, 0xB8, 0x8D, 0xE5, 0x8F,
     0xAF, 0xE7, 0x94, 0xA8, 0xEF, 0xBC, 0x8C, 0xE6, 0x9C, 0xAC, 0xE8, 0xBD, 0xAE, 0xE6, 0x9C, 0xAA, 0xE5, 0x81, 0x9A,
     0xE8, 0xAF, 0x8A, 0xE6, 0x96, 0xAD, 0xEF, 0xBC, 0x8C, 0xE8, 0xAF, 0xB7, 0xE4, 0xBA, 0xBA, 0xE5, 0xB7, 0xA5, 0xE7,
     0xA0, 0x94, 0xE5, 0x88, 0xA4, 0xE3, 0x80, 0x82]"

definition SafePlanWithContext :: "plan_env \<Rightarrow> planner \<Rightarrow> alert list \<times> (agent_error, string \<times> rag_result list) res" where
  "SafePlanWithContext env p =
     (case pe_ctx env 0 of
        Some e \<Rightarrow> ([], Inl (ModelError e))
      | None \<Rightarrow>
          if pl_prom p = None then ([], Inl (KnowledgeUnavailable None))
          else case FiringWithContext env (pl_prom p) of
            Inl e \<Rightarrow> ([], Inl (KnowledgeUnavailable (Some (JoinedUnavailable e))))
          | Inr alerts \<Rightarrow>
              if alerts = [] then ([], Inr (no_alerts, [])) else (alerts, plan_diagnose env p alerts))"

definition PlanWithContext :: "plan_env \<Rightarrow> planner \<Rightarrow> alert list \<times> string \<times> rag_result list" where
  "PlanWithContext env p =
     (case SafePlanWithContext env p of
        (alerts, Inl _) \<Rightarrow> (alerts, plan_unavailable, [])
      | (alerts, Inr (report, cites)) \<Rightarrow> (alerts, report, cites))"

definition SafePlanPushed :: "plan_env \<Rightarrow> planner \<Rightarrow> alert list \<Rightarrow> (agent_error, string \<times> rag_result list) res" where
  "SafePlanPushed env p alerts =
     (case pe_ctx env 0 of
        Some e \<Rightarrow> Inl (ModelError e)
      | None \<Rightarrow> if alerts = [] then Inr (no_pushed_alerts, []) else plan_diagnose env p alerts)"

definition PlanPushed :: "plan_env \<Rightarrow> planner \<Rightarrow> alert list \<Rightarrow> string \<times> rag_result list" where
  "PlanPushed env p alerts =
     (case SafePlanPushed env p alerts of
        Inl _ \<Rightarrow> (push_unavailable, [])
      | Inr (report, cites) \<Rightarrow> (report, cites))"

section \<open>Properties of the plan\<close>

text \<open>A citation of a plan: a qualified search result of one of its alerts.\<close>

definition plan_grounded :: "plan_env \<Rightarrow> planner \<Rightarrow> alert list \<Rightarrow> rag_result \<Rightarrow> bool" where
  "plan_grounded env p alerts h \<longleftrightarrow> (\<exists>r a hits. pl_rag p = Some r \<and> a \<in> set alerts \<and> h \<in> set hits \<and> alert_qualifies env a h
     \<and> SearchWithContext (pe_dims env (alert_query a)) (pe_vhits env (alert_query a) (plan_top_k p * 2)) (alert_query a)
         (plan_top_k p) r = Inr hits)"

definition plan_ok :: "plan_env \<Rightarrow> planner \<Rightarrow> alert list \<Rightarrow> rag_result list \<times> string list \<Rightarrow> bool" where
  "plan_ok env p alerts = (\<lambda>(cites, seen). list_all (plan_grounded env p alerts) cites
     \<and> set seen = hit_key ` set cites \<and> distinct (map hit_key cites))"

lemma plan_cite_ok: "plan_ok env p alerts st \<Longrightarrow> plan_grounded env p alerts h \<Longrightarrow> plan_ok env p alerts (plan_cite h st)"
  by (cases st) (auto simp: plan_ok_def plan_cite_def)

lemma plan_fold_ok:
  "plan_ok env p alerts st \<Longrightarrow> \<forall>h \<in> set hits. plan_grounded env p alerts h \<Longrightarrow> plan_ok env p alerts (fold plan_cite hits st)"
  by (induction hits arbitrary: st) (simp_all add: plan_cite_ok)

lemma alert_hits_grounded:
  assumes "alert_hits env p r a = Inr hits" and "pl_rag p = Some r" and "a \<in> set alerts" and "h \<in> set hits"
  shows "plan_grounded env p alerts h"
  using assms by (auto simp: alert_hits_def plan_grounded_def Let_def res_bind_eq_Inr split: if_splits)

lemma plan_loop_ok:
  assumes "pl_rag p = Some r"
  shows "plan_loop env p r i as st = Inr cites \<Longrightarrow> set as \<subseteq> set alerts \<Longrightarrow> plan_ok env p alerts st
    \<Longrightarrow> \<exists>seen. plan_ok env p alerts (cites, seen)"
proof (induction as arbitrary: i st)
  case Nil
  then show ?case by (cases st) auto
next
  case (Cons a as)
  from Cons.prems(1) obtain hits where h: "alert_hits env p r a = Inr hits"
    and l: "plan_loop env p r (Suc i) as (fold plan_cite hits st) = Inr cites"
    by (auto split: option.splits sum.splits)
  have "\<forall>x \<in> set hits. plan_grounded env p alerts x"
    using alert_hits_grounded [OF h assms] Cons.prems(2) by auto
  with Cons.IH [OF l] Cons.prems plan_fold_ok show ?case by simp
qed

lemma plan_diagnose_grounded:
  assumes "plan_diagnose env p alerts = Inr (report, cites)"
  shows "list_all (plan_grounded env p alerts) cites \<and> distinct (map hit_key cites)
    \<and> report = EvidenceReport (map citationFromHit cites)"
proof -
  obtain r where r: "pl_rag p = Some r" and l: "plan_loop env p r 1 alerts ([], []) = Inr cites"
    and rep: "report = EvidenceReport (map citationFromHit cites)"
    using assms by (auto simp: plan_diagnose_def res_bind_eq_Inr EvidenceReport_def split: option.splits if_splits)
  from plan_loop_ok [OF r l, of alerts] obtain seen where "plan_ok env p alerts (cites, seen)" by (auto simp: plan_ok_def)
  with rep show ?thesis by (simp add: plan_ok_def)
qed


definition ex_plan_env :: plan_env where
  "ex_plan_env = \<lparr> pe_ctx = (\<lambda>_. None), pe_http = (\<lambda>_. Inr (200, [])),
     pe_decode = (\<lambda>_. Some (JObj [(''status'', JStr ''success''), (''data'', JObj [(''alerts'', JArr
       [JObj [(''state'', JStr ''Firing''), (''labels'', JObj [(''alertname'', JStr ''disk full'')])]])])])),
     pe_dims = (\<lambda>_. Inr 3), pe_vhits = (\<lambda>_ _. Inr [(ex_point, 1)]), pe_uni = (\<lambda>_. False) \<rparr>"

definition ex_alert :: alert where
  "ex_alert = \<lparr> al_name = ''disk full'', al_severity = [], al_description = [], al_labels = Some [(''alertname'', ''disk full'')],
     al_starts_at = [] \<rparr>"

lemma ex_firing: "FiringWithContext ex_plan_env (Some u) = Inr [ex_alert]"
proof -
  have t: "to_lower (trim_space ''Firing'') = ''firing''" by code_simp
  show ?thesis
    by (simp add: FiringWithContext_def ex_plan_env_def decode_alerts_def set_struct_def str_field_def map_field_def jvalues_def
        to_lower_def [of "''data''"] to_lower_def [of "''status''"] to_lower_def [of "''alerts''"] to_lower_def [of "''state''"]
        to_lower_def [of "''labels''"] to_lower_def [of "''annotations''"] to_lower_def [of "''activeAt''"] lower_char_def set_string_def set_alert_array_def
        decode_prom_alert_def set_map_def set_entry_def mput_def firing_alert_def label_of_def mget_def t ex_alert_def Let_def)
qed

lemma ex_plan: "\<exists>h. PlanWithContext ex_plan_env (NewPlanner (Some []) (Some ex_kb)) = ([ex_alert], EvidenceReport [citationFromHit h], [h])"
proof -
  obtain h where s: "SearchWithContext (Inr 3) (Inr [(ex_point, 1)]) ''disk full'' 3 ex_kb = Inr [h]" and "ex_fields h"
    using ex_search by blast
  note h = this(2) [unfolded ex_fields_def]
  have q: "alert_query ex_alert = ''disk full''" unfolding alert_query_def ex_alert_def by (simp del: append.simps) code_simp
  have "qualifiedQuery (\<lambda>_. False) c ''disk full'' h" for c
    using ex_anchor by (simp add: qualifiedQuery_def qualifiedHit_def qualified_parts_def h ex_trims)
  then have "alert_qualifies ex_plan_env ex_alert h" by (simp add: alert_qualifies_def ex_plan_env_def ex_alert_def)
  then have "alert_hits ex_plan_env (NewPlanner (Some []) (Some ex_kb)) ex_kb ex_alert = Inr [h]"
    by (simp add: alert_hits_def q plan_top_k_def NewPlanner_def s ex_plan_env_def Let_def)
  moreover have "pe_ctx ex_plan_env i = None" for i by (simp add: ex_plan_env_def)
  ultimately show ?thesis
    by (simp add: PlanWithContext_def SafePlanWithContext_def plan_diagnose_def ex_firing plan_cite_def NewPlanner_def)
qed


end
