(* ===== verification/PlanHttp.thy ===== *)
theory PlanHttp
  imports Http Planner
begin

text \<open>
  The synchronous plan of the workspace (\<open>src/internal/handler/workspace_plan.go\<close>): the firing alerts of Prometheus
  are admitted like a delivery, the handler runs the diagnosis itself, and polls the run until it is final.

  Other handlers and workers go on meanwhile. What they do before each read of the handler is an argument: the
  handler polls once per entry of \<open>moves\<close> (what happens before it reads the run, and before it reads the report), and
  the list ends when the context does.
\<close>

datatype plan_reply = NoFiring | PlanReport legacy_report | PlanFailed legacy_report

type_synonym moves = "(dstate \<Rightarrow> dstate) \<times> (dstate \<Rightarrow> dstate)"

definition plan_observation :: "alert \<Rightarrow> observation" where
  "plan_observation a = \<lparr> obs_name = al_name a, obs_severity = al_severity a, obs_description = al_description a,
     obs_labels = al_labels a, obs_annotations = None, obs_starts_at = al_starts_at a, obs_ends_at = [],
     obs_status = ''firing'' \<rparr>"

fun plan_poll :: "api_env \<Rightarrow> string \<Rightarrow> ws_error option \<Rightarrow> moves list \<Rightarrow> dstate \<Rightarrow> plan_reply web \<times> dstate" where
  "plan_poll env i failed [] s = (Inl (wsError 504 ''timeout'' True), s)"
| "plan_poll env i failed ((before, between) # later) s =
     (let s1 = before s in
      case get_run i (ds_db s1) of
        Inl e \<Rightarrow> (Inl (wsFail (ap_ctx env) e), s1)
      | Inr current \<Rightarrow>
          if terminal (run_status current)
          then (let s2 = between s1 in
                case LegacyReport (ap_parse env) (ap_service env) (run_id current) (ds_db s2) of
                  Inl e \<Rightarrow> (Inl (wsFail (ap_ctx env) e), s2)
                | Inr report \<Rightarrow>
                    (Inr (if run_status current \<noteq> ''succeeded'' then PlanFailed report else PlanReport report), s2))
          else (case failed of
                  Some e \<Rightarrow> if run_status current \<noteq> ''running'' then (Inl (wsFail (ap_ctx env) e), s1)
                            else plan_poll env i failed later s1
                | None \<Rightarrow> plan_poll env i failed later s1))"

text \<open>\<open>Admit\<close> returns no run only for a batch without a firing alert, and the handler would then dereference a null
  pointer; \<open>plan_admits\<close> below excludes it.\<close>

definition Plan_http :: "api_env \<Rightarrow> plan_env \<Rightarrow> string option \<Rightarrow> diag_env \<Rightarrow> (dstate \<Rightarrow> dstate) \<Rightarrow> moves list \<Rightarrow> dstate \<Rightarrow>
    plan_reply web \<times> dstate" where
  "Plan_http env pe prom de before moves s =
     (case FiringWithContext pe prom of
        Inl _ \<Rightarrow> (Inl (wsFail (ap_ctx env) ErrUnavailable), s)
      | Inr [] \<Rightarrow> (Inr NoFiring, s)
      | Inr alerts \<Rightarrow>
          (case Admit (map plan_observation alerts) (Ready (ap_queue env)) (ap_now env) (ds_db s) of
             Inl e \<Rightarrow> (Inl (wsFail (ap_ctx env) e), s)
           | Inr ((None, _), d) \<Rightarrow> (Inl (wsError 500 ''panic'' False), put_db d s)
           | Inr ((Some r, _), d) \<Rightarrow>
               (let s1 = before (put_db d s);
                    x = ProcessAlertDiagnosis (ap_parse env) (ap_service env) de (run_id r) (ap_dispatch_now env) (ds_db s1)
                in plan_poll env (run_id r) (fst x) moves (put_db (snd x) s1))))"

definition plan_status :: "plan_reply web \<Rightarrow> nat" where
  "plan_status = status_of (\<lambda>r. case r of PlanFailed _ \<Rightarrow> 503 | _ \<Rightarrow> 200)"

section \<open>The admitted batch has a run\<close>

lemma plan_firing: "firing_ids now (map plan_observation (a # as)) \<noteq> []"
  by (simp add: firing_ids_def plan_observation_def)

lemma plan_admits:
  assumes "Admit (map plan_observation (a # as)) ready now d = Inr ((ro, dup), d')" and "incidents_ok d"
  shows "\<exists>r. ro = Some r"
  using assms by (cases rule: Admit_cases) (use plan_firing [of now a as] in auto)

section \<open>The handler is a path of the system\<close>

definition harmless :: "(dstate \<Rightarrow> dstate) \<Rightarrow> bool" where
  "harmless f \<longleftrightarrow> (\<forall>s. \<exists>s'. step\<^sup>*\<^sup>* s s' \<and> sy_d s' = f (sy_d s))"

definition leads :: "dstate \<Rightarrow> dstate \<Rightarrow> bool" where
  "leads ds ds' \<longleftrightarrow> (\<forall>s. sy_d s = ds \<longrightarrow> (\<exists>s'. step\<^sup>*\<^sup>* s s' \<and> sy_d s' = ds'))"

lemma leads_refl [simp, intro]: "leads ds ds"
  by (auto simp: leads_def)

lemma leads_trans: "leads a b \<Longrightarrow> leads b c \<Longrightarrow> leads a c"
  unfolding leads_def by (metis rtranclp_trans)

lemma leads_harmless: "harmless f \<Longrightarrow> leads ds (f ds)"
  by (auto simp: leads_def harmless_def)

lemma sy_d_with_db [simp]: "sy_d (with_db d s) = put_db d (sy_d s)"
  by (simp add: with_db_def)

lemma leads_Admit: "Admit obs ready now (ds_db ds) = Inr (x, d) \<Longrightarrow> leads ds (put_db d ds)"
  unfolding leads_def by (metis r_into_rtranclp step.admit sy_d_with_db)

lemma leads_Process:
  "leads ds (put_db (snd (ProcessAlertDiagnosis parse sv env i now (ds_db ds))) ds)"
  unfolding leads_def by (metis ProcessAlertDiagnosis_path sy_d_with_db)

lemma leads_poll:
  "list_all (\<lambda>(f, g). harmless f \<and> harmless g) moves \<Longrightarrow> leads s (snd (plan_poll env i failed moves s))"
proof (induction env i failed moves s rule: plan_poll.induct)
  case (2 env i failed f g later s)
  have f: "leads s (f s)" and g: "leads (f s) (g (f s))" using 2 by (auto intro: leads_harmless)
  note * = f leads_trans [OF f g] leads_trans [OF f]
  show ?case using 2 by (auto simp: Let_def * split: sum.splits option.splits)
qed simp

lemma Plan_http_path:
  assumes "harmless before" and "list_all (\<lambda>(f, g). harmless f \<and> harmless g) moves"
  shows "leads s (snd (Plan_http env pe prom de before moves s))"
proof -
  have "leads s (snd (plan_poll env i e moves (put_db (snd (ProcessAlertDiagnosis parse sv de j now (ds_db (before (put_db d s)))))
      (before (put_db d s)))))"
    if "Admit obs ready t (ds_db s) = Inr (x, d)" for i e parse sv j now obs ready t x d
    using leads_Admit [OF that] leads_harmless [OF assms(1)] leads_Process leads_poll [OF assms(2)] leads_trans by meson
  then show ?thesis
    by (auto simp: Plan_http_def Let_def leads_Admit split: sum.splits list.splits option.splits)
qed

section \<open>What the reply says\<close>

definition settled :: "api_env \<Rightarrow> string \<Rightarrow> plan_reply \<Rightarrow> dstate \<Rightarrow> bool" where
  "settled env i reply ds \<longleftrightarrow>
     (case reply of
        NoFiring \<Rightarrow> False
      | PlanReport rep \<Rightarrow> LegacyReport (ap_parse env) (ap_service env) i (ds_db ds) = Inr rep
          \<and> (\<exists>r. get_run i (ds_db ds) = Inr r \<and> run_status r = ''succeeded'')
      | PlanFailed rep \<Rightarrow> LegacyReport (ap_parse env) (ap_service env) i (ds_db ds) = Inr rep
          \<and> (\<exists>r. get_run i (ds_db ds) = Inr r \<and> (run_status r = ''failed'' \<or> run_status r = ''cancelled'')))"

lemma get_run_row:
  assumes "runs_ok d" and "get_run i d = Inr r"
  obtains x where "x \<in> set (t_runs d)" and "rr_id x = i" and "rr_data x = r" and "run_id r = i" and "rr_status x = run_status r"
  using assms tget_SomeD [of rr_id i "t_runs d"] runs_okD(2) [OF assms(1)]
  by (fastforce simp: get_run_def res_of_def row_agrees_def split: option.splits)

lemma row_get_run:
  assumes "runs_ok d" and "x \<in> set (t_runs d)"
  shows "get_run (rr_id x) d = Inr (rr_data x)"
  using assms by (simp add: get_run_def runs_ok_def lt.get_unique res_of_def)

text \<open>A final run is the same run in every later state.\<close>

lemma final_kept:
  assumes "sys_ok s" and "step\<^sup>*\<^sup>* s s'" and "get_run i (sy_db s) = Inr r" and "terminal (run_status r)"
  shows "\<exists>r'. get_run i (sy_db s') = Inr r' \<and> run_status r' = run_status r"
proof -
  have ok: "runs_ok (sy_db s)" "runs_ok (sy_db s')" and f: "runs_follow (sy_db s) (sy_db s')"
    using assms(1) ws.path_inv [OF assms(2,1)] by (auto simp: sys_ok_def ws_ok_def core_ok_def sys_follows_def)
  obtain x where x: "x \<in> set (t_runs (sy_db s))" "rr_id x = i" "rr_status x = run_status r"
    using ok(1) assms(3) by (rule get_run_row)
  with f obtain y where y: "y \<in> set (t_runs (sy_db s'))" "run_follows x y" unfolding runs_follow_def by blast
  then have "rr_id y = i" "rr_status y = run_status r" using x assms(4) by (auto simp: run_follows_def)
  with row_get_run [OF ok(2) y(1)] runs_okD(2) [OF ok(2) y(1)] show ?thesis by (auto simp: row_agrees_def)
qed

lemma poll_settled:
  assumes "plan_poll env i failed moves (sy_d s) = (Inr reply, ds')" and "sys_ok s"
    and "list_all (\<lambda>(f, g). harmless f \<and> harmless g) moves"
  shows "settled env i reply ds'"
  using assms
proof (induction moves arbitrary: s)
  case (Cons m later)
  obtain f g where m: "m = (f, g)" by fastforce
  obtain s1 where s1: "step\<^sup>*\<^sup>* s s1" "sy_d s1 = f (sy_d s)" using Cons.prems(3) m by (auto simp: harmless_def)
  have ok1: "sys_ok s1" using ws.path_inv [OF s1(1) Cons.prems(2)] by simp
  have "harmless g" using Cons.prems(3) m by simp
  then obtain s2 where s2: "step\<^sup>*\<^sup>* s1 s2" "sy_d s2 = g (f (sy_d s))" unfolding harmless_def s1(2) [symmetric] by blast
  show ?case
  proof (cases "get_run i (sy_db s1)")
    case (Inl e)
    with Cons.prems(1) m s1(2) show ?thesis by (simp add: Let_def)
  next
    case (Inr r)
    have i: "run_id r = i" using Inr ok1 by (auto simp: sys_ok_def ws_ok_def core_ok_def elim: get_run_row)
    show ?thesis
    proof (cases "terminal (run_status r)")
      case True
      obtain r' where r': "get_run i (sy_db s2) = Inr r'" "run_status r' = run_status r"
        using final_kept [OF ok1 s2(1) Inr True] by blast
      show ?thesis using Cons.prems(1) m Inr True s1(2) s2(2) r' i
        by (auto simp: Let_def settled_def terminal_def split: sum.splits if_splits)
    next
      case False
      have "plan_poll env i failed later (sy_d s1) = (Inr reply, ds')"
        using Cons.prems(1) m Inr False s1(2) by (auto simp: Let_def split: option.splits if_splits)
      from Cons.IH [OF this ok1] Cons.prems(3) show ?thesis by simp
    qed
  qed
qed simp

text \<open>The synchronous plan tells the truth about its run. Whatever the other handlers and workers do meanwhile, the
  handler's effect is a path of the system; it says that nothing fires only when Prometheus says so, and then changes
  nothing; and a report it answers, successful or failed, is the report of the run its alerts were admitted to, which
  has that status in the database.\<close>

theorem Plan_http_sound:
  assumes ok: "sys_ok s" and others: "harmless before" "list_all (\<lambda>(f, g). harmless f \<and> harmless g) moves"
    and run: "Plan_http env pe prom de before moves (sy_d s) = (out, ds')"
  shows "(\<exists>s'. step\<^sup>*\<^sup>* s s' \<and> sy_d s' = ds')
    \<and> (case out of
        Inl _ \<Rightarrow> True
      | Inr NoFiring \<Rightarrow> FiringWithContext pe prom = Inr [] \<and> ds' = sy_d s
      | Inr reply \<Rightarrow> \<exists>alerts r dup d. FiringWithContext pe prom = Inr alerts
          \<and> Admit (map plan_observation alerts) (Ready (ap_queue env)) (ap_now env) (sy_db s) = Inr ((Some r, dup), d)
          \<and> settled env (run_id r) reply ds')"
proof
  show "\<exists>s'. step\<^sup>*\<^sup>* s s' \<and> sy_d s' = ds'"
    using Plan_http_path [OF others, of "sy_d s" env pe prom de] run by (auto simp: leads_def)
  show "case out of
        Inl _ \<Rightarrow> True
      | Inr NoFiring \<Rightarrow> FiringWithContext pe prom = Inr [] \<and> ds' = sy_d s
      | Inr reply \<Rightarrow> \<exists>alerts r dup d. FiringWithContext pe prom = Inr alerts
          \<and> Admit (map plan_observation alerts) (Ready (ap_queue env)) (ap_now env) (sy_db s) = Inr ((Some r, dup), d)
          \<and> settled env (run_id r) reply ds'"
  proof (cases out)
    case (Inr reply)
    obtain alerts where al: "FiringWithContext pe prom = Inr alerts"
      using run Inr by (auto simp: Plan_http_def split: sum.splits)
    show ?thesis
    proof (cases alerts)
      case Nil
      with run al Inr show ?thesis by (auto simp: Plan_http_def)
    next
      case (Cons a as)
      obtain ro dup d where ad: "Admit (map plan_observation alerts) (Ready (ap_queue env)) (ap_now env) (sy_db s) = Inr ((ro, dup), d)"
        using run Inr al Cons by (auto simp: Plan_http_def split: sum.splits)
      obtain r where r: "ro = Some r" using run Inr al Cons ad by (auto simp: Plan_http_def split: option.splits)
      define x where "x = ProcessAlertDiagnosis (ap_parse env) (ap_service env) de (run_id r) (ap_dispatch_now env)
        (ds_db (before (put_db d (sy_d s))))"
      have poll: "plan_poll env (run_id r) (fst x) moves (put_db (snd x) (before (put_db d (sy_d s)))) = (Inr reply, ds')"
        using run Inr al Cons ad r by (simp add: Plan_http_def Let_def x_def)
      have "leads (sy_d s) (put_db (snd x) (before (put_db d (sy_d s))))"
        unfolding x_def using leads_Admit [OF ad] leads_harmless [OF others(1)] leads_Process leads_trans by meson
      then obtain s1 where s1: "step\<^sup>*\<^sup>* s s1" "sy_d s1 = put_db (snd x) (before (put_db d (sy_d s)))" by (auto simp: leads_def)
      have "settled env (run_id r) reply ds'"
        using poll_settled [OF poll [folded s1(2)] _ others(2)] ws.path_inv [OF s1(1) ok] by blast
      moreover from this have "reply \<noteq> NoFiring" by (auto simp: settled_def)
      ultimately show ?thesis using al ad r Inr by (cases reply) auto
    qed
  qed simp
qed

end
