(* ===== verification/Vector.thy ===== *)
theory Vector
  imports Rag Admission Complex_Main
begin

text \<open>
  The vector store (\<open>src/internal/store/qdrant.go\<close>) and the operations of retrieval that write to it
  (\<open>src/internal/rag/rag.go\<close>, \<open>versions.go\<close>).

  A store keeps its points in memory (\<open>memOnly\<close>) or in a collection of the Qdrant service. The service is \<open>qd_answer\<close>: its
  reply to a request, given all requests it has had before, which \<open>vs_sent\<close> records. A request is a constructor of \<open>qrequest\<close>
  that carries what its body holds. \<open>qd_parse\<close> is the JSON reader, \<open>qd_num\<close> reads a number as a float and \<open>qd_show\<close> prints the
  identifier of a point that is not a string. \<open>ctx\<close> is the error of the context. Vectors are lists of real numbers, so
  there is no rounding and no value that is not a number; the order of equal scores is that of the points in the store. A member
  that occurs twice in an object of a reply keeps the last array.
\<close>

section \<open>Points and filters\<close>

record vpoint =
  vp_id :: string
  vp_title :: string
  vp_content :: string
  vp_doc :: string
  vp_source :: string
  vp_embedding :: "real list"
  vp_doc_id :: string
  vp_version_id :: string
  vp_space_id :: string

text \<open>A filter or one of its conditions: the keys \<open>must_not\<close>, \<open>must\<close> and \<open>should\<close>, and \<open>key\<close> with the value of \<open>match\<close>.\<close>

datatype condition =
  Cond (cn_must_not: "condition list option") (cn_must: "condition list option") (cn_should: "condition list option")
    (cn_key: string) (cn_value: string)

definition match_key :: "string \<Rightarrow> string \<Rightarrow> condition" where
  "match_key k v = Cond None None None k v"

definition filter_field :: "vpoint \<Rightarrow> string \<Rightarrow> string" where
  "filter_field p k =
     (if k = ''source'' then vp_source p else if k = ''version_id'' then vp_version_id p
      else if k = ''space_id'' then vp_space_id p else if k = ''doc_id'' then vp_doc_id p else [])"

fun matchesFilter :: "vpoint \<Rightarrow> condition \<Rightarrow> bool" and check_cond :: "vpoint \<Rightarrow> condition \<Rightarrow> bool" where
  "matchesFilter p (Cond mn mu sh k v) \<longleftrightarrow>
     (case mn of None \<Rightarrow> True | Some cs \<Rightarrow> \<not> list_ex (check_cond p) cs)
     \<and> (case mu of None \<Rightarrow> True | Some cs \<Rightarrow> list_all (check_cond p) cs)
     \<and> (case sh of None \<Rightarrow> True | Some cs \<Rightarrow> list_ex (check_cond p) cs)"
| "check_cond p c \<longleftrightarrow> (if cn_must c \<noteq> None then matchesFilter p c else filter_field p (cn_key c) = cn_value c)"

definition matches :: "vpoint \<Rightarrow> condition option \<Rightarrow> bool" where
  "matches p f \<longleftrightarrow> (case f of None \<Rightarrow> True | Some c \<Rightarrow> matchesFilter p c)"

text \<open>The filter of the current projection (\<open>currentFilter\<close>).\<close>

definition no_active_version :: string where
  "no_active_version = ''__no_active_version__''"

definition version_filter :: "active_version \<Rightarrow> condition" where
  "version_filter v =
     Cond None (Some [match_key ''version_id'' (av_version_id v), match_key ''doc_id'' (av_doc_id v), match_key ''space_id'' (av_space_id v)])
       None [] []"

definition currentFilter :: "rag \<Rightarrow> condition" where
  "currentFilter r =
     (let mn = Some [match_key ''source'' ''incident'', match_key ''source'' ''space_metadata''] in
      if rg_versioned r
      then (let vs = map (version_filter \<circ> snd) (rg_active r)
            in Cond mn None (Some (if vs = [] then [match_key ''version_id'' no_active_version] else vs)) [] [])
      else Cond mn (Some [match_key ''version_id'' []]) None [] [])"

section \<open>Similarity\<close>

fun dot_loop :: "real list \<Rightarrow> real list \<Rightarrow> real \<times> real \<times> real \<Rightarrow> real \<times> real \<times> real" where
  "dot_loop (x # xs) (y # ys) (d, na, nb) = dot_loop xs ys (d + x * y, na + x * x, nb + y * y)"
| "dot_loop _ _ acc = acc"

definition cosine :: "real list \<Rightarrow> real list \<Rightarrow> real" where
  "cosine a b =
     (case dot_loop a b (0, 0, 0) of (d, na, nb) \<Rightarrow> if na = 0 \<or> nb = 0 then 0 else d / (sqrt na * sqrt nb))"

section \<open>The service\<close>

datatype qrequest =
    GetCollection string
  | CreateCollection string int
  | PutPoint string vpoint
  | SearchPoints string "real list" int "condition option"
  | DeletePoints string string string
  | GetPoint string string
  | CountPoints string

datatype qreply = NoReply ws_error | Reply nat string

record vector_store =
  vs_collection :: string
  vs_mem :: "(string \<times> vpoint) list"
  vs_mem_only :: bool
  vs_sent :: "qrequest list"

record qdrant_env =
  qd_answer :: "qrequest list \<Rightarrow> qrequest \<Rightarrow> qreply"
  qd_parse :: "string \<Rightarrow> json option"
  qd_num :: "string \<Rightarrow> real option"
  qd_show :: "json \<Rightarrow> string"

definition NewVector :: "string \<Rightarrow> vector_store" where
  "NewVector collection =
     \<lparr> vs_collection = (if collection = [] then ''oncallagent'' else collection), vs_mem = [], vs_mem_only = False, vs_sent = [] \<rparr>"

definition NewMemoryVector :: vector_store where
  "NewMemoryVector = (NewVector ''oncallagent'')\<lparr>vs_mem_only := True\<rparr>"

definition request_line :: "qrequest \<Rightarrow> string" where
  "request_line q =
     (case q of
        GetCollection c \<Rightarrow> ''GET /collections/'' @ c
      | CreateCollection c _ \<Rightarrow> ''PUT /collections/'' @ c
      | PutPoint c _ \<Rightarrow> ''PUT /collections/'' @ c @ ''/points?wait=true''
      | SearchPoints c _ _ _ \<Rightarrow> ''POST /collections/'' @ c @ ''/points/search''
      | DeletePoints c _ _ \<Rightarrow> ''POST /collections/'' @ c @ ''/points/delete?wait=true''
      | GetPoint c i \<Rightarrow> ''GET /collections/'' @ c @ ''/points/'' @ i @ ''?with_payload=true''
      | CountPoints c \<Rightarrow> ''POST /collections/'' @ c @ ''/points/count'')"

text \<open>Operations on a store: a result and the store after it. A failed operation keeps what it has sent.\<close>

type_synonym 'a vst = "vector_store \<Rightarrow> 'a ws \<times> vector_store"

definition vst_return :: "'a ws \<Rightarrow> 'a vst" where
  "vst_return x s = (x, s)"

definition vst_bind :: "'a vst \<Rightarrow> ('a \<Rightarrow> 'b vst) \<Rightarrow> 'b vst" where
  "vst_bind m f s = (case m s of (Inl e, s') \<Rightarrow> (Inl e, s') | (Inr a, s') \<Rightarrow> f a s')"

definition doJSONContext :: "qdrant_env \<Rightarrow> qrequest \<Rightarrow> (json \<Rightarrow> 'a ws) \<Rightarrow> 'a \<Rightarrow> 'a vst" where
  "doJSONContext env q decode zero s =
     ((case qd_answer env (vs_sent s) q of
         NoReply e \<Rightarrow> Inl e
       | Reply st raw \<Rightarrow>
           let body = take 8388608 raw in
           if 300 \<le> st then Inl (ErrMsg (''qdrant '' @ request_line q @ '': '' @ dec st @ '' '' @ body))
           else if body = [] then Inr zero
           else case qd_parse env body of None \<Rightarrow> Inl ErrJSON | Some j \<Rightarrow> decode j),
      s\<lparr>vs_sent := vs_sent s @ [q]\<rparr>)"

text \<open>Reading a value at a path of nested objects, and a reply that is only checked to be an object.\<close>

fun set_path :: "(json \<Rightarrow> 'a \<Rightarrow> 'a ws) \<Rightarrow> string list \<Rightarrow> json \<Rightarrow> 'a \<Rightarrow> 'a ws" where
  "set_path f [] j x = f j x"
| "set_path f (k # ks) j x =
     (case j of JNull \<Rightarrow> Inr x | JObj kvs \<Rightarrow> fold_res (set_path f ks) (jvalues k kvs) x | _ \<Rightarrow> Inl ErrJSON)"

definition decode_size :: "json \<Rightarrow> int ws" where
  "decode_size j = set_path set_int [''result'', ''config'', ''params'', ''vectors'', ''size''] j 0"

definition decode_count :: "json \<Rightarrow> int ws" where
  "decode_count j = set_path set_int [''result'', ''count''] j 0"

definition set_payload :: "json \<Rightarrow> (string \<times> json) list \<Rightarrow> (string \<times> json) list ws" where
  "set_payload j old = (case j of JNull \<Rightarrow> Inr [] | JObj kvs \<Rightarrow> Inr (fold (\<lambda>(k, v). AList.update k v) kvs old) | _ \<Rightarrow> Inl ErrJSON)"

definition payloadString :: "(string \<times> json) list \<Rightarrow> string \<Rightarrow> string" where
  "payloadString p k = (case map_of p k of Some (JStr s) \<Rightarrow> s | _ \<Rightarrow> [])"

definition decode_payload :: "json \<Rightarrow> (string \<times> json) list ws" where
  "decode_payload j = set_path set_payload [''result'', ''payload''] j []"

definition decode_any :: "json \<Rightarrow> unit ws" where
  "decode_any j = (case j of JNull \<Rightarrow> Inr () | JObj _ \<Rightarrow> Inr () | _ \<Rightarrow> Inl ErrJSON)"

section \<open>Operations\<close>

definition VectorSize :: "qdrant_env \<Rightarrow> int vst" where
  "VectorSize env s =
     (if vs_mem_only s then (Inl (ErrMsg ''mem only''), s)
      else doJSONContext env (GetCollection (vs_collection s)) decode_size 0 s)"

definition RecreateCollection :: "unit vst" where
  "RecreateCollection s = (Inl (ErrMsg ''automatic collection recreation disabled; migrate into an owned new collection''), s)"

definition UpsertWithContext :: "qdrant_env \<Rightarrow> ws_error option \<Rightarrow> vpoint \<Rightarrow> unit vst" where
  "UpsertWithContext env ctx p s =
     (case ctx of
        Some e \<Rightarrow> (Inl e, s)
      | None \<Rightarrow>
          if vs_mem_only s then (Inr (), s\<lparr>vs_mem := AList.update (vp_id p) p (vs_mem s)\<rparr>)
          else doJSONContext env (PutPoint (vs_collection s) p) decode_any () s)"

definition mem_scored :: "real list \<Rightarrow> condition option \<Rightarrow> (string \<times> vpoint) list \<Rightarrow> (vpoint \<times> real) list" where
  "mem_scored query f ps =
     List.map_filter (\<lambda>(_, p).
       if \<not> matches p f \<or> length (vp_embedding p) \<noteq> length query then None
       else let sim = cosine query (vp_embedding p) in if sim \<le> 0 then None else Some (p, sim)) ps"

definition searchMemFiltered :: "real list \<Rightarrow> int \<Rightarrow> condition option \<Rightarrow> vector_store \<Rightarrow> (vpoint \<times> real) list" where
  "searchMemFiltered query topK f s = take (nat topK) (sort_key (\<lambda>h. - snd h) (mem_scored query f (vs_mem s)))"

definition float_field :: "qdrant_env \<Rightarrow> json \<Rightarrow> real \<Rightarrow> real ws" where
  "float_field env j x = (case j of JNull \<Rightarrow> Inr x | JNum t \<Rightarrow> res_of ErrJSON (qd_num env t) | _ \<Rightarrow> Inl ErrJSON)"

definition set_floats :: "qdrant_env \<Rightarrow> json \<Rightarrow> real list \<Rightarrow> real list ws" where
  "set_floats env j xs = (case j of JNull \<Rightarrow> Inr [] | JArr js \<Rightarrow> map_res (\<lambda>v. float_field env v 0) js | _ \<Rightarrow> Inl ErrJSON)"

definition point_id :: "qdrant_env \<Rightarrow> (string \<times> json) list \<Rightarrow> json \<Rightarrow> string" where
  "point_id env payload i =
     (if payloadString payload ''chunk_id'' \<noteq> [] then payloadString payload ''chunk_id''
      else let t = (case i of JStr s \<Rightarrow> s | _ \<Rightarrow> qd_show env i)
           in if length t = 36 then filter (\<lambda>c. c \<noteq> CHR ''-'') t else t)"

definition decode_hit :: "qdrant_env \<Rightarrow> json \<Rightarrow> (vpoint \<times> real) ws" where
  "decode_hit env j =
     (case (case j of JNull \<Rightarrow> Some [] | JObj kvs \<Rightarrow> Some kvs | _ \<Rightarrow> None) of
        None \<Rightarrow> Inl ErrJSON
      | Some kvs \<Rightarrow>
          res_bind (fold_res (float_field env) (jvalues ''score'' kvs) 0) (\<lambda>sc.
          res_bind (fold_res set_payload (jvalues ''payload'' kvs) []) (\<lambda>pl.
          res_bind (fold_res (set_floats env) (jvalues ''vector'' kvs) []) (\<lambda>v.
            let i = (case rev (jvalues ''id'' kvs) of [] \<Rightarrow> JNull | x # _ \<Rightarrow> x) in
            Inr (\<lparr> vp_id = point_id env pl i, vp_title = payloadString pl ''title'', vp_content = payloadString pl ''content'',
                   vp_doc = payloadString pl ''doc'', vp_source = payloadString pl ''source'', vp_embedding = v,
                   vp_doc_id = payloadString pl ''doc_id'', vp_version_id = payloadString pl ''version_id'',
                   vp_space_id = payloadString pl ''space_id'' \<rparr>, sc)))))"

definition set_hits :: "qdrant_env \<Rightarrow> json \<Rightarrow> (vpoint \<times> real) list \<Rightarrow> (vpoint \<times> real) list ws" where
  "set_hits env j hs = (case j of JNull \<Rightarrow> Inr [] | JArr js \<Rightarrow> map_res (decode_hit env) js | _ \<Rightarrow> Inl ErrJSON)"

definition SearchFiltered :: "qdrant_env \<Rightarrow> ws_error option \<Rightarrow> real list \<Rightarrow> int \<Rightarrow> condition option \<Rightarrow> (vpoint \<times> real) list vst" where
  "SearchFiltered env ctx query topK f s =
     (case ctx of
        Some e \<Rightarrow> (Inl e, s)
      | None \<Rightarrow>
          let k = (if topK \<le> 0 then 5 else topK) in
          if query = [] then (Inr [], s)
          else if vs_mem_only s then (Inr (searchMemFiltered query k f s), s)
          else doJSONContext env (SearchPoints (vs_collection s) query k f) (\<lambda>j. set_path (set_hits env) [''result''] j []) [] s)"

definition matchPoint :: "vpoint \<Rightarrow> string \<Rightarrow> string \<Rightarrow> bool" where
  "matchPoint p k v \<longleftrightarrow>
     (if k = ''doc'' then vp_doc p = v else if k = ''source'' then vp_source p = v
      else if k = ''version_id'' then vp_version_id p = v else False)"

definition deleteByFilterContext :: "qdrant_env \<Rightarrow> ws_error option \<Rightarrow> string \<Rightarrow> string \<Rightarrow> unit vst" where
  "deleteByFilterContext env ctx k v s =
     (case ctx of
        Some e \<Rightarrow> (Inl e, s)
      | None \<Rightarrow>
          let s1 = s\<lparr>vs_mem := filter (\<lambda>(_, p). \<not> matchPoint p k v) (vs_mem s)\<rparr> in
          if vs_mem_only s then (Inr (), s1)
          else doJSONContext env (DeletePoints (vs_collection s) k v) decode_any () s1)"

definition DeleteByDocWithContext :: "qdrant_env \<Rightarrow> ws_error option \<Rightarrow> string \<Rightarrow> unit vst" where
  "DeleteByDocWithContext env ctx d s =
     (if trim_space d = [] then (Inl (ErrMsg ''doc required''), s) else deleteByFilterContext env ctx ''doc'' d s)"

definition DeleteBySourceWithContext :: "qdrant_env \<Rightarrow> ws_error option \<Rightarrow> string \<Rightarrow> unit vst" where
  "DeleteBySourceWithContext env ctx src s =
     (if trim_space src = [] then (Inl (ErrMsg ''source required''), s) else deleteByFilterContext env ctx ''source'' src s)"

definition DeleteByVersionWithContext :: "qdrant_env \<Rightarrow> ws_error option \<Rightarrow> string \<Rightarrow> unit vst" where
  "DeleteByVersionWithContext env ctx ver s =
     (if trim_space ver = [] then (Inl (ErrMsg ''version required''), s) else deleteByFilterContext env ctx ''version_id'' ver s)"

text \<open>The check that tells a missing collection or point from another failure reads the text of the error.\<close>

definition says_404 :: "ws_error \<Rightarrow> bool" where
  "says_404 e = (case e of ErrMsg m \<Rightarrow> contains m '': 404 '' | _ \<Rightarrow> False)"

definition EnsureCompatible :: "qdrant_env \<Rightarrow> ws_error option \<Rightarrow> int \<Rightarrow> unit vst" where
  "EnsureCompatible env ctx n s =
     (case ctx of
        Some e \<Rightarrow> (Inl e, s)
      | None \<Rightarrow>
          if n \<le> 0 then (Inl (ErrMsg ''embedding dimension required''), s)
          else if vs_mem_only s then (Inr (), s)
          else (case doJSONContext env (GetCollection (vs_collection s)) decode_size 0 s of
                  (Inl e, s1) \<Rightarrow>
                    if \<not> says_404 e then (Inl e, s1)
                    else doJSONContext env (CreateCollection (vs_collection s) n) decode_any () s1
                | (Inr sz, s1) \<Rightarrow>
                    (if sz \<noteq> n then Inl (ErrMsg (''embedding dimension mismatch: collection='' @ itoa sz @ '' configured='' @ itoa n
                          @ ''; migrate into a new collection'')) else Inr (), s1)))"

definition space_marker :: string where
  "space_marker = ''00000000-0000-0000-0000-000000000001''"

definition marker_point :: "string \<Rightarrow> int \<Rightarrow> vpoint" where
  "marker_point space n =
     \<lparr> vp_id = space_marker, vp_title = [], vp_content = [], vp_doc = [], vp_source = ''space_metadata'',
       vp_embedding = replicate (nat n) 0, vp_doc_id = [], vp_version_id = [], vp_space_id = space \<rparr>"

definition EnsureSpace :: "qdrant_env \<Rightarrow> ws_error option \<Rightarrow> string \<Rightarrow> unit vst" where
  "EnsureSpace env ctx space s =
     (if space = [] then (Inl (ErrMsg ''embedding space required''), s)
      else if vs_mem_only s then (Inr (), s)
      else (case doJSONContext env (GetPoint (vs_collection s) space_marker) decode_payload [] s of
              (Inr pl, s1) \<Rightarrow>
                (if payloadString pl ''space_id'' \<noteq> space
                 then Inl (ErrMsg ''embedding space mismatch; migrate into a new collection'') else Inr (), s1)
            | (Inl e, s1) \<Rightarrow>
                if \<not> says_404 e then (Inl e, s1)
                else vst_bind (doJSONContext env (CountPoints (vs_collection s)) decode_count 0) (\<lambda>n.
                  if n \<noteq> 0 then vst_return (Inl (ErrMsg ''existing collection has no embedding space metadata; explicit migration required''))
                  else vst_bind (doJSONContext env (GetCollection (vs_collection s)) decode_size 0) (\<lambda>sz.
                    if sz \<le> 0 then vst_return (Inl (ErrMsg ''invalid collection dimension''))
                    else UpsertWithContext env ctx (marker_point space sz))) s1))"

section \<open>Retrieval on a store\<close>

text \<open>\<open>emb\<close> is the embedding of a text under the context.\<close>

definition doc_chunk_id :: "string \<Rightarrow> nat \<Rightarrow> string \<Rightarrow> string" where
  "doc_chunk_id doc i snippet = md5_hex (doc @ ''#'' @ dec i @ ''#'' @ snippet)"

definition doc_point :: "string \<Rightarrow> string \<Rightarrow> nat \<Rightarrow> md_chunk \<Rightarrow> real list \<Rightarrow> vpoint" where
  "doc_point doc source i c v =
     \<lparr> vp_id = doc_chunk_id doc i (mc_snippet c), vp_title = mc_title c,
       vp_content = open_bracket @ doc @ close_bracket @ mc_snippet c, vp_doc = doc, vp_source = source, vp_embedding = v,
       vp_doc_id = [], vp_version_id = [], vp_space_id = [] \<rparr>"

fun add_chunks :: "qdrant_env \<Rightarrow> (string \<Rightarrow> real list ws) \<Rightarrow> ws_error option \<Rightarrow> string \<Rightarrow> string \<Rightarrow> (nat \<times> md_chunk) list \<Rightarrow>
    rag \<Rightarrow> vector_store \<Rightarrow> unit ws \<times> rag \<times> vector_store" where
  "add_chunks env emb ctx doc source [] r s = (Inr (), r, s)"
| "add_chunks env emb ctx doc source ((i, c) # ics) r s =
     (case emb (mc_title c @ newline @ mc_snippet c) of
        Inl e \<Rightarrow> (Inl e, r, s)
      | Inr v \<Rightarrow>
          (case UpsertWithContext env ctx (doc_point doc source i c v) s of
             (Inl e, s1) \<Rightarrow> (Inl e, r, s1)
           | (Inr _, s1) \<Rightarrow>
               add_chunks env emb ctx doc source ics
                 (r\<lparr>rg_bm := bm_upsert (doc_chunk_id doc i (mc_snippet c)) doc (mc_title c) (mc_snippet c) source (rg_bm r)\<rparr>) s1))"

definition AddDocWithContext :: "qdrant_env \<Rightarrow> (string \<Rightarrow> real list ws) \<Rightarrow> ws_error option \<Rightarrow> string \<Rightarrow> string \<Rightarrow> string \<Rightarrow>
    rag \<Rightarrow> vector_store \<Rightarrow> unit ws \<times> rag \<times> vector_store" where
  "AddDocWithContext env emb ctx doc md source r s = add_chunks env emb ctx doc source (enumerate 0 (ChunkMarkdown doc md)) r s"

definition DeleteDoc :: "qdrant_env \<Rightarrow> string \<Rightarrow> rag \<Rightarrow> vector_store \<Rightarrow> unit ws \<times> rag \<times> vector_store" where
  "DeleteDoc env doc r s =
     (case DeleteByDocWithContext env None doc s of
        (Inl e, s1) \<Rightarrow> (Inl e, r, s1)
      | (Inr _, s1) \<Rightarrow> (Inr (), r\<lparr>rg_bm := deleteDoc doc (rg_bm r)\<rparr>, s1))"

definition DeleteSource :: "qdrant_env \<Rightarrow> string \<Rightarrow> rag \<Rightarrow> vector_store \<Rightarrow> unit ws \<times> rag \<times> vector_store" where
  "DeleteSource env source r s =
     (case DeleteBySourceWithContext env None source s of
        (Inl e, s1) \<Rightarrow> (Inl e, r, s1)
      | (Inr _, s1) \<Rightarrow> (Inr (), r\<lparr>rg_bm := deleteSource source (rg_bm r)\<rparr>, s1))"

definition IngestIncident :: "qdrant_env \<Rightarrow> (string \<Rightarrow> real list ws) \<Rightarrow> string \<Rightarrow> string \<Rightarrow> rag \<Rightarrow> vector_store \<Rightarrow> unit ws \<times> rag \<times> vector_store" where
  "IngestIncident env emb doc md r s =
     (case DeleteDoc env doc r s of
        (Inl e, r1, s1) \<Rightarrow> (Inl e, r1, s1)
      | (Inr _, r1, s1) \<Rightarrow> AddDocWithContext env emb None doc md ''incident'' r1 s1)"

definition version_point :: "version_chunk \<Rightarrow> string \<Rightarrow> real list \<Rightarrow> vpoint" where
  "version_point c title v =
     \<lparr> vp_id = vc_id c, vp_title = title, vp_content = open_bracket @ vc_title c @ close_bracket @ vc_snippet c,
       vp_doc = vc_title c, vp_source = vc_source c, vp_embedding = v, vp_doc_id = vc_doc_id c,
       vp_version_id = vc_version_id c, vp_space_id = vc_space_id c \<rparr>"

fun index_points :: "qdrant_env \<Rightarrow> (string \<Rightarrow> real list ws) \<Rightarrow> (nat \<Rightarrow> ws_error option) \<Rightarrow> rag \<Rightarrow> string \<Rightarrow> string \<Rightarrow> string \<Rightarrow>
    string \<Rightarrow> string \<Rightarrow> (nat \<times> md_chunk) list \<Rightarrow> version_chunk list vst" where
  "index_points env emb ctx r doc ver title source space [] s = (Inr [], s)"
| "index_points env emb ctx r doc ver title source space ((i, c) # ics) s =
     (case ctx i of
        Some e \<Rightarrow> (Inl e, s)
      | None \<Rightarrow>
          (case emb (mc_title c @ newline @ mc_snippet c) of
             Inl e \<Rightarrow> (Inl e, s)
           | Inr v \<Rightarrow>
               (case validateSpace space (length v) r of
                  Inl e \<Rightarrow> (Inl e, s)
                | Inr _ \<Rightarrow>
                    let vc = \<lparr> vc_id = chunk_id doc ver i, vc_doc_id = doc, vc_version_id = ver, vc_title = title,
                               vc_snippet = mc_snippet c, vc_source = source, vc_space_id = space, vc_environment = [] \<rparr>
                    in vst_bind (UpsertWithContext env (ctx i) (version_point vc (mc_title c) v)) (\<lambda>_.
                       vst_bind (index_points env emb ctx r doc ver title source space ics) (\<lambda>vcs. vst_return (Inr (vc # vcs)))) s)))"

definition IndexVersion_on :: "qdrant_env \<Rightarrow> (string \<Rightarrow> real list ws) \<Rightarrow> (nat \<Rightarrow> ws_error option) \<Rightarrow> string \<Rightarrow> string \<Rightarrow> string \<Rightarrow>
    string \<Rightarrow> string \<Rightarrow> string \<Rightarrow> rag \<Rightarrow> vector_store \<Rightarrow> (version_chunk list \<times> rag) ws \<times> vector_store" where
  "IndexVersion_on env emb ctx doc ver title md source space r s =
     (if doc = [] \<or> ver = [] \<or> space = [] then (Inl (ErrMsg ''document, version and embedding space required''), s)
      else let cs = ChunkMarkdown title md in
        if 512 < length cs then (Inl (ErrMsg ''document exceeds 512 chunks''), s)
        else vst_bind (index_points env emb ctx r doc ver title source space (enumerate 0 cs)) (\<lambda>vcs.
               vst_return (Inr (vcs, RestoreChunks vcs r))) s)"

definition DeleteVersion_on :: "qdrant_env \<Rightarrow> ws_error option \<Rightarrow> string \<Rightarrow> rag \<Rightarrow> vector_store \<Rightarrow> unit ws \<times> rag \<times> vector_store" where
  "DeleteVersion_on env ctx ver r s =
     (case DeleteByVersionWithContext env ctx ver s of
        (Inl e, s1) \<Rightarrow> (Inl e, r, s1)
      | (Inr _, s1) \<Rightarrow> (Inr (), DeleteVersion ver r, s1))"

definition to_point :: "vpoint \<Rightarrow> point" where
  "to_point p = \<lparr> pt_id = vp_id p, pt_title = vp_title p, pt_content = vp_content p, pt_source = vp_source p \<rparr>"

definition store_hits :: "(vpoint \<times> real) list \<Rightarrow> (point \<times> real) list" where
  "store_hits hs = map (map_prod to_point id) hs"

definition searchFused_on :: "qdrant_env \<Rightarrow> (string \<Rightarrow> real list ws) \<Rightarrow> ws_error option \<Rightarrow> string \<Rightarrow> int \<Rightarrow> nat \<Rightarrow> rag \<Rightarrow> rag_result list vst" where
  "searchFused_on env emb ctx query fetchK outK r s =
     (if trim_space query = [] then (Inr [], s)
      else case emb query of
        Inl e \<Rightarrow> (Inl e, s)
      | Inr qv \<Rightarrow>
          (case validateSpace (rg_space_id r) (length qv) r of
             Inl e \<Rightarrow> (Inl e, s)
           | Inr _ \<Rightarrow>
               vst_bind (SearchFiltered env ctx qv fetchK (Some (currentFilter r))) (\<lambda>hs.
                 vst_return (searchFused (Inr (length qv)) (Inr (store_hits hs)) query fetchK outK r)) s))"

section \<open>Properties of the filter\<close>

lemma check_match_key [simp]: "check_cond p (match_key k v) \<longleftrightarrow> filter_field p k = v"
  by (simp add: match_key_def)

declare check_cond.simps [simp del]

lemma filter_fields [simp]:
  "filter_field p ''source'' = vp_source p" "filter_field p ''version_id'' = vp_version_id p"
  "filter_field p ''doc_id'' = vp_doc_id p" "filter_field p ''space_id'' = vp_space_id p"
  by (simp_all add: filter_field_def)

text \<open>The three identifiers of a point are those of a version.\<close>

definition names_version :: "vpoint \<Rightarrow> active_version \<Rightarrow> bool" where
  "names_version p v \<longleftrightarrow> vp_version_id p = av_version_id v \<and> vp_doc_id p = av_doc_id v \<and> vp_space_id p = av_space_id v"

lemma check_version_filter: "check_cond p (version_filter v) \<longleftrightarrow> names_version p v"
  by (simp add: version_filter_def names_version_def check_cond.simps [of p "Cond _ (Some _) _ _ _"])

definition hidden_source :: "string \<Rightarrow> bool" where
  "hidden_source src \<longleftrightarrow> src = ''incident'' \<or> src = ''space_metadata''"

lemma matches_currentFilter:
  "matches p (Some (currentFilter r)) \<longleftrightarrow>
     \<not> hidden_source (vp_source p)
     \<and> (if \<not> rg_versioned r then vp_version_id p = []
        else if rg_active r = [] then vp_version_id p = no_active_version
        else \<exists>v \<in> snd ` set (rg_active r). names_version p v)"
  by (auto simp: matches_def currentFilter_def hidden_source_def list_ex_iff check_version_filter Let_def)

text \<open>A point describes the chunk the projection knows under its identifier, or is a point without a version.\<close>

definition describes :: "rag \<Rightarrow> vpoint \<Rightarrow> bool" where
  "describes r p \<longleftrightarrow>
     (case map_of (rg_chunks r) (vp_id p) of
        None \<Rightarrow> vp_version_id p = []
      | Some c \<Rightarrow> vp_version_id p = vc_version_id c \<and> vp_doc_id p = vc_doc_id c \<and> vp_space_id p = vc_space_id c
                 \<and> vc_version_id c \<notin> {[], no_active_version})"

definition versions_named :: "rag \<Rightarrow> bool" where
  "versions_named r \<longleftrightarrow> rag_ok r \<and> (rg_versioned r \<or> rg_active r = []) \<and> list_all (\<lambda>(_, v). av_version_id v \<noteq> []) (rg_active r)"

lemma active_lookup:
  assumes "rag_ok r"
  shows "(\<exists>v \<in> snd ` set (rg_active r). names_version p v)
    \<longleftrightarrow> (\<exists>v. map_of (rg_active r) (vp_doc_id p) = Some v \<and> av_version_id v = vp_version_id p \<and> av_space_id v = vp_space_id p)"
proof -
  from assms have d: "distinct (map fst (rg_active r))" and k: "(i, v) \<in> set (rg_active r) \<Longrightarrow> av_doc_id v = i" for i v
    by (auto simp: rag_ok_def list_all_iff)
  show ?thesis
  proof
    assume "\<exists>v \<in> snd ` set (rg_active r). names_version p v"
    then obtain i v where v: "(i, v) \<in> set (rg_active r)" "names_version p v" by auto
    with k [OF v(1)] d show "\<exists>v. map_of (rg_active r) (vp_doc_id p) = Some v \<and> av_version_id v = vp_version_id p \<and> av_space_id v = vp_space_id p"
      by (auto simp: names_version_def map_of_is_SomeI)
  next
    assume "\<exists>v. map_of (rg_active r) (vp_doc_id p) = Some v \<and> av_version_id v = vp_version_id p \<and> av_space_id v = vp_space_id p"
    then obtain v where v: "map_of (rg_active r) (vp_doc_id p) = Some v" "av_version_id v = vp_version_id p" "av_space_id v = vp_space_id p" by auto
    from map_of_SomeD [OF v(1)] have m: "(vp_doc_id p, v) \<in> set (rg_active r)" .
    with k have "names_version p v" using v by (auto simp: names_version_def)
    with m show "\<exists>v \<in> snd ` set (rg_active r). names_version p v" by force
  qed
qed

text \<open>C24. The two halves of the search admit the same chunks. For every point that describes the chunk of the projection under
  its identifier, the filter that is sent to the vector store accepts the point exactly when the local index may return the
  chunk: its version is the active one of its document in its embedding space, and it is no archived incident or metadata.\<close>

theorem currentFilter_agrees:
  assumes "versions_named r" and "describes r p"
  shows "matches p (Some (currentFilter r)) \<longleftrightarrow> rag_eligible r (vp_id p) (vp_source p)"
proof -
  have ok: "rag_ok r" using assms(1) by (simp add: versions_named_def)
  show ?thesis
  proof (cases "map_of (rg_chunks r) (vp_id p)")
    case None
    with assms(2) have v: "vp_version_id p = []" by (simp add: describes_def)
    have "\<not> names_version p a" if "a \<in> snd ` set (rg_active r)" for a
      using that assms(1) v by (auto simp: versions_named_def list_all_iff names_version_def)
    with v None show ?thesis
      by (auto simp: matches_currentFilter rag_eligible_def hidden_source_def no_active_version_def)
  next
    case (Some c)
    with assms(2) have eq: "vp_version_id p = vc_version_id c" "vp_doc_id p = vc_doc_id c" "vp_space_id p = vc_space_id c"
      and ne: "vc_version_id c \<noteq> []" "vc_version_id c \<noteq> no_active_version"
      by (simp_all add: describes_def)
    have act: "\<not> rg_versioned r \<Longrightarrow> rg_active r = []" using assms(1) by (simp add: versions_named_def)
    show ?thesis
      unfolding matches_currentFilter active_lookup [OF ok] rag_eligible_def hidden_source_def
      using Some ne act by (auto simp: eq split: option.splits)
  qed
qed

definition ex_vpoint :: vpoint where
  "ex_vpoint = \<lparr> vp_id = ''a'', vp_title = ''Api Down'', vp_content = ''text'', vp_doc = ''Api Down'', vp_source = ''demo'',
     vp_embedding = [3, 4], vp_doc_id = ''d'', vp_version_id = ''v'', vp_space_id = ''s'' \<rparr>"

lemma ex_rag_describes: "versions_named ex_rag" "describes ex_rag ex_vpoint" "rag_eligible ex_rag ''a'' ''demo''"
proof -
  have "rag_ok new_rag" using bm_ok_new by (simp add: rag_ok_def new_rag_def)
  then have "rag_ok ex_rag" unfolding ex_rag_def by (intro rag_ok_ActivateVersions rag_ok_RestoreChunks)
  then show "versions_named ex_rag" by (simp add: versions_named_def) (simp add: ex_rag_def ActivateVersions_def)
  show "describes ex_rag ex_vpoint" "rag_eligible ex_rag ''a'' ''demo''"
    by (simp_all add: describes_def rag_eligible_def ex_rag_def ex_vpoint_def ActivateVersions_def RestoreChunks_def restore_chunk_def
        new_rag_def no_active_version_def)
qed

theorem currentFilter_agrees_witness: "matches ex_vpoint (Some (currentFilter ex_rag))"
  using currentFilter_agrees [OF ex_rag_describes(1,2)] ex_rag_describes(3) by (simp add: ex_vpoint_def)

section \<open>Properties of the search in memory\<close>

lemma cauchy_step:
  fixes d :: real
  assumes "d\<^sup>2 \<le> a * b" and "0 \<le> a" and "0 \<le> b"
  shows "(d + x * y)\<^sup>2 \<le> (a + x * x) * (b + y * y)"
proof -
  have "2 * d * (x * y) \<le> a * (y * y) + b * (x * x)"
  proof (cases "a = 0")
    case True
    then have "d = 0" using assms(1) by simp
    then show ?thesis using True assms(3) by simp
  next
    case False
    have "0 \<le> (a * y - d * x)\<^sup>2 + (a * b - d\<^sup>2) * (x * x)" using assms(1) by simp
    also have "\<dots> = a * (a * (y * y) + b * (x * x) - 2 * d * (x * y))" by (simp add: power2_eq_square algebra_simps)
    finally have "0 \<le> a * (a * (y * y) + b * (x * x) - 2 * d * (x * y))" .
    with False assms(2) have "0 \<le> a * (y * y) + b * (x * x) - 2 * d * (x * y)" by (simp add: zero_le_mult_iff)
    then show ?thesis by simp
  qed
  with assms(1) show ?thesis by (simp add: power2_eq_square algebra_simps)
qed

lemma dot_loop_bound:
  assumes "dot_loop xs ys (d0, a0, b0) = (d, a, b)" and "d0\<^sup>2 \<le> a0 * b0" and "0 \<le> a0" and "0 \<le> b0"
  shows "d\<^sup>2 \<le> a * b \<and> 0 \<le> a \<and> 0 \<le> b"
  using assms
proof (induction xs ys "(d0, a0, b0)" arbitrary: d0 a0 b0 rule: dot_loop.induct)
  case (1 x xs y ys d0 a0 b0)
  from 1(2) have "dot_loop xs ys (d0 + x * y, a0 + x * x, b0 + y * y) = (d, a, b)" by simp
  from 1(1) [OF this cauchy_step [OF 1(3,4,5)]] 1(4,5) show ?case by simp
qed auto

lemma cosine_bounds: "\<bar>cosine xs ys\<bar> \<le> 1"
proof -
  obtain d a b where l: "dot_loop xs ys (0, 0, 0) = (d, a, b)" by (metis surj_pair)
  from dot_loop_bound [OF l] have b: "d\<^sup>2 \<le> a * b" "0 \<le> a" "0 \<le> b" by simp_all
  then have "\<bar>d\<bar> \<le> sqrt a * sqrt b" by (metis real_sqrt_abs real_sqrt_le_mono real_sqrt_mult)
  with b show ?thesis by (auto simp: cosine_def l divide_le_eq abs_mult)
qed

definition mem_points :: "vector_store \<Rightarrow> vpoint set" where
  "mem_points s = snd ` set (vs_mem s)"

definition scorable :: "real list \<Rightarrow> condition option \<Rightarrow> vpoint \<Rightarrow> bool" where
  "scorable q f p \<longleftrightarrow> matches p f \<and> length (vp_embedding p) = length q \<and> 0 < cosine q (vp_embedding p)"

lemma set_mem_scored: "set (mem_scored q f (vs_mem s)) = {(p, cosine q (vp_embedding p)) |p. p \<in> mem_points s \<and> scorable q f p}"
proof -
  have "mem_scored q f ps = map (\<lambda>(_, p). (p, cosine q (vp_embedding p))) (filter (\<lambda>(_, p). scorable q f p) ps)" (is "_ = map ?g (filter ?P _)")
    for ps :: "(string \<times> vpoint) list"
    by (induction ps) (auto simp: mem_scored_def List.map_filter_simps scorable_def Let_def not_le split: option.splits if_splits)
  moreover have "set (map ?g (filter ?P (vs_mem s))) = {(p, cosine q (vp_embedding p)) |p. p \<in> mem_points s \<and> scorable q f p}"
    by (force simp: mem_points_def)
  ultimately show ?thesis by simp
qed

lemma take_sorted_dominates:
  assumes "sorted_wrt R xs" and "y \<in> set (take n xs)" and "x \<in> set xs" and "x \<notin> set (take n xs)"
  shows "R y x"
proof -
  have "x \<in> set (drop n xs)" using assms(3,4) by (metis append_take_drop_id in_set_conv_decomp Un_iff set_append)
  moreover have "sorted_wrt R (take n xs @ drop n xs)" using assms(1) by simp
  ultimately show ?thesis using assms(2) unfolding sorted_wrt_append by blast
qed

text \<open>The search in memory finds the best points. The hits are at most \<open>topK\<close>, in order of falling score; each is a point of
  the store that the filter accepts and that has the dimension of the query, with its cosine, a number above 0 and at most 1; and
  a point that qualifies and is not among them has no higher score than any of them, which are then \<open>topK\<close> many.\<close>

theorem searchMemFiltered_best:
  "let hs = searchMemFiltered q topK f s in
     length hs \<le> nat topK \<and> sorted_wrt (\<lambda>x y. snd y \<le> snd x) hs
     \<and> list_all (\<lambda>(p, sc). p \<in> mem_points s \<and> scorable q f p \<and> sc = cosine q (vp_embedding p) \<and> 0 < sc \<and> sc \<le> 1) hs
     \<and> (\<forall>p. p \<in> mem_points s \<and> scorable q f p \<longrightarrow>
          (p, cosine q (vp_embedding p)) \<in> set hs
          \<or> length hs = nat topK \<and> list_all (\<lambda>h. cosine q (vp_embedding p) \<le> snd h) hs)"
proof -
  define ms where "ms = mem_scored q f (vs_mem s)"
  define hs where "hs = searchMemFiltered q topK f s"
  have hs: "hs = take (nat topK) (sort_key (\<lambda>h. - snd h) ms)" by (simp add: hs_def ms_def searchMemFiltered_def)
  have srt: "sorted_wrt (\<lambda>x y. snd y \<le> snd x) (sort_key (\<lambda>h. - snd h) ms)"
    using sorted_sort_key [of "\<lambda>h. - snd h" ms] by (simp add: sorted_map)
  have sub: "set hs \<subseteq> set ms" unfolding hs using mem_sort_key by fastforce
  have one: "cosine q v \<le> 1" for v using cosine_bounds [of q v] by simp
  have all: "list_all (\<lambda>(p, sc). p \<in> mem_points s \<and> scorable q f p \<and> sc = cosine q (vp_embedding p) \<and> 0 < sc \<and> sc \<le> 1) hs"
    using sub one unfolding ms_def set_mem_scored by (auto simp: list_all_iff scorable_def)
  have best: "(p, cosine q (vp_embedding p)) \<in> set hs
      \<or> length hs = nat topK \<and> list_all (\<lambda>h. cosine q (vp_embedding p) \<le> snd h) hs"
    if "p \<in> mem_points s" "scorable q f p" for p
  proof (cases "(p, cosine q (vp_embedding p)) \<in> set hs")
    case False
    have m: "(p, cosine q (vp_embedding p)) \<in> set (sort_key (\<lambda>h. - snd h) ms)"
      using that by (simp add: ms_def set_mem_scored)
    have "length hs = nat topK" using False m unfolding hs by (metis length_take min_def nle_le take_all)
    moreover have "list_all (\<lambda>h. cosine q (vp_embedding p) \<le> snd h) hs"
      using take_sorted_dominates [OF srt _ m] False unfolding hs by (auto simp: list_all_iff)
    ultimately show ?thesis by simp
  qed simp
  have "length hs \<le> nat topK" and "sorted_wrt (\<lambda>x y. snd y \<le> snd x) hs" unfolding hs using srt by (auto intro: sorted_wrt_take)
  with all best show ?thesis unfolding hs_def [symmetric] Let_def by blast
qed

section \<open>Properties of retrieval on a store\<close>

text \<open>The service honours a filter: the hits it answers match it.\<close>

definition honours_filter :: "qdrant_env \<Rightarrow> bool" where
  "honours_filter env \<longleftrightarrow>
     (\<forall>s q k f hs s'. doJSONContext env (SearchPoints (vs_collection s) q k (Some f)) (\<lambda>j. set_path (set_hits env) [''result''] j []) [] s
        = (Inr hs, s') \<longrightarrow> list_all (\<lambda>h. matches (fst h) (Some f)) hs)"

lemma SearchFiltered_matches:
  assumes "SearchFiltered env ctx q k (Some f) s = (Inr hs, s')" and "vs_mem_only s \<or> honours_filter env"
  shows "list_all (\<lambda>h. matches (fst h) (Some f)) hs"
proof (cases "vs_mem_only s \<or> q = []")
  case True
  then have "hs = [] \<or> (\<exists>k. hs = searchMemFiltered q k (Some f) s)"
    using assms(1) by (auto simp: SearchFiltered_def Let_def split: option.splits if_splits)
  then show ?thesis
  proof (elim disjE exE)
    fix k assume "hs = searchMemFiltered q k (Some f) s"
    then have "set hs \<subseteq> set (mem_scored q (Some f) (vs_mem s))" unfolding searchMemFiltered_def using mem_sort_key by fastforce
    then show ?thesis by (fastforce simp: set_mem_scored scorable_def list_all_iff)
  qed simp
next
  case False
  then have "honours_filter env" and "\<exists>k. doJSONContext env (SearchPoints (vs_collection s) q k (Some f))
      (\<lambda>j. set_path (set_hits env) [''result''] j []) [] s = (Inr hs, s')"
    using assms by (auto simp: SearchFiltered_def Let_def simp del: set_path.simps split: option.splits)
  then show ?thesis unfolding honours_filter_def by blast
qed

lemma store_hit_found:
  assumes "find (\<lambda>h. pt_id (fst h) = i) (rev (store_hits hs)) = Some h"
  obtains p where "p \<in> fst ` set hs" and "vp_id p = i" and "vp_source p = pt_source (fst h)"
proof -
  from find_SomeD [OF assms] have "h \<in> set (store_hits hs)" and i: "pt_id (fst h) = i" by auto
  then obtain p sc where p: "(p, sc) \<in> set hs" and h: "h = (to_point p, sc)" by (auto simp: store_hits_def)
  show thesis
  proof
    show "p \<in> fst ` set hs" using p by force
    show "vp_id p = i" "vp_source p = pt_source (fst h)" using i by (simp_all add: h to_point_def)
  qed
qed

lemma fused_origin:
  assumes "searchFused dims (Inr (store_hits hs)) query fetchK outK r = Inr out" and "x \<in> set out" and "rag_ok r"
  shows "(\<exists>p \<in> fst ` set hs. vp_id p = res_chunk_id x \<and> vp_source p = res_source x) \<or> rag_eligible r (res_chunk_id x) (res_source x)"
proof -
  define bhits where "bhits = searchFiltered query fetchK (\<lambda>i d. rag_eligible r i (bd_source d)) (rg_bm r)"
  define fs where "fs = rrfFuse (map (pt_id \<circ> fst) (store_hits hs)) (map fst bhits) 60"
  have "x \<in> set (List.map_filter (fuse_result r query (store_hits hs) bhits) fs)"
    using assms(1,2) by (auto simp: searchFused_def res_bind_eq_Inr Let_def bhits_def fs_def split: if_splits dest!: mem_sort_key)
  then obtain f where "fuse_result r query (store_hits hs) bhits f = Some x" by (auto dest: map_filter_mem)
  then obtain c where c: "find_cand r (store_hits hs) bhits (res_chunk_id x) = Some c" "res_source x = cd_source c"
    by (auto simp: fuse_result_def Let_def split: prod.splits)
  show ?thesis
  proof (cases "find (\<lambda>h. pt_id (fst h) = res_chunk_id x) (rev (store_hits hs))")
    case (Some h)
    then obtain p where "p \<in> fst ` set hs" "vp_id p = res_chunk_id x" "vp_source p = pt_source (fst h)" by (rule store_hit_found)
    moreover have "res_source x = pt_source (fst h)" using c Some by (auto simp: find_cand_def dense_cand_def)
    ultimately show ?thesis by auto
  next
    case None
    with c obtain d sc where d: "map_of (bm_docs (rg_bm r)) (res_chunk_id x) = Some d" "c = sparse_cand d" and "(res_chunk_id x, sc) \<in> set bhits"
      by (auto simp: find_cand_def split: if_splits)
    then obtain d' where "(res_chunk_id x, d') \<in> set (bm_docs (rg_bm r))" "rag_eligible r (res_chunk_id x) (bd_source d')"
      using searchFiltered_sound unfolding bhits_def by blast
    moreover have "distinct (map fst (bm_docs (rg_bm r)))" using assms(3) by (simp add: rag_ok_def bm_ok_def)
    ultimately show ?thesis using d c(2) by (auto simp: sparse_cand_def)
  qed
qed


definition ex_qdrant :: qdrant_env where
  "ex_qdrant = \<lparr> qd_answer = (\<lambda>_ _. Reply 200 []), qd_parse = (\<lambda>_. None), qd_num = (\<lambda>_. None), qd_show = (\<lambda>_. []) \<rparr>"

lemma ex_honours: "honours_filter ex_qdrant"
  by (simp add: honours_filter_def doJSONContext_def ex_qdrant_def)

lemma ex_memory_hit:
  "searchMemFiltered [3, 4] 6 (Some (currentFilter ex_rag)) (NewMemoryVector\<lparr>vs_mem := [(''a'', ex_vpoint)]\<rparr>) = [(ex_vpoint, 1)]"
proof -
  have "cosine [3, 4] [3, 4] = 1" by (simp add: cosine_def)
  moreover have "matches ex_vpoint (Some (currentFilter ex_rag))"
    by (simp add: matches_currentFilter hidden_source_def) (simp add: ex_vpoint_def ex_rag_def ActivateVersions_def names_version_def)
  ultimately show ?thesis
    by (simp add: searchMemFiltered_def mem_scored_def List.map_filter_simps Let_def) (simp add: ex_vpoint_def)
qed

theorem searchMemFiltered_best_witness:
  "scorable [3, 4] (Some (currentFilter ex_rag)) ex_vpoint
   \<and> (ex_vpoint, cosine [3, 4] (vp_embedding ex_vpoint))
     \<in> set (searchMemFiltered [3, 4] 6 (Some (currentFilter ex_rag)) (NewMemoryVector\<lparr>vs_mem := [(''a'', ex_vpoint)]\<rparr>))"
proof -
  let ?s = "NewMemoryVector\<lparr>vs_mem := [(''a'', ex_vpoint)]\<rparr>"
  note best = searchMemFiltered_best [of "[3, 4]" 6 "Some (currentFilter ex_rag)" ?s, unfolded Let_def ex_memory_hit]
  have sc: "scorable [3, 4] (Some (currentFilter ex_rag)) ex_vpoint" and "ex_vpoint \<in> mem_points ?s" using best by simp_all
  with best show ?thesis unfolding ex_memory_hit by (metis (no_types, lifting) One_nat_def length_Cons list.size(3) nat_numeral numeral_One numeral_eq_iff semiring_norm(83) num.distinct(3))
qed


text \<open>Indexing on a store in memory is the indexing of the projection, and the points it writes describe its chunks.\<close>

lemma index_points_refines:
  assumes "vs_mem_only s" and "\<forall>i. ctx i = None"
  shows "fst (index_points env emb ctx r doc ver title source space ics s)
    = map_res (index_chunk (\<lambda>t. res_bind (emb t) (\<lambda>v. Inr (length v))) (\<lambda>_. None) r doc ver title source space) ics"
    (is "_ = map_res ?g ics")
  using assms(1)
proof (induction ics arbitrary: s)
  case (Cons ic ics)
  obtain i c where ic: "ic = (i, c)" by fastforce
  show ?case
  proof (cases "emb (mc_title c @ newline @ mc_snippet c)")
    case (Inr v)
    show ?thesis
    proof (cases "validateSpace space (length v) r")
      case valid: (Inr u)
      define vc where "vc = \<lparr> vc_id = chunk_id doc ver i, vc_doc_id = doc, vc_version_id = ver, vc_title = title,
          vc_snippet = mc_snippet c, vc_source = source, vc_space_id = space, vc_environment = [] \<rparr>"
      define s1 where "s1 = s\<lparr>vs_mem := AList.update (vp_id (version_point vc (mc_title c) v)) (version_point vc (mc_title c) v) (vs_mem s)\<rparr>"
      obtain a s2 where ip: "index_points env emb ctx r doc ver title source space ics s1 = (a, s2)" by fastforce
      have a: "a = map_res ?g ics" using Cons.IH [of s1] Cons.prems ip by (simp add: s1_def)
      have "UpsertWithContext env (ctx i) (version_point vc (mc_title c) v) s = (Inr (), s1)"
        using Cons.prems assms(2) by (simp add: UpsertWithContext_def s1_def)
      then have "index_points env emb ctx r doc ver title source space ((i, c) # ics) s
          = (case a of Inl e \<Rightarrow> (Inl e, s2) | Inr vcs \<Rightarrow> (Inr (vc # vcs), s2))"
        using assms(2) Inr valid ip by (simp add: vc_def [symmetric] vst_bind_def vst_return_def split: sum.splits)
      moreover have "?g (i, c) = Inr vc" using Inr valid by (simp add: index_chunk_def vc_def)
      ultimately show ?thesis by (cases a) (simp_all add: ic a [symmetric])
    qed (use assms(2) Inr in \<open>simp add: ic index_chunk_def\<close>)
  qed (use assms(2) in \<open>simp add: ic index_chunk_def\<close>)
qed simp

text \<open>Indexing a version on the vector store refines the indexing of the projection. In memory and with a live context the
  chunks, the new projection and the errors are those of the abstract operation that the publication of documents uses.\<close>

theorem IndexVersion_on_refines:
  assumes "vs_mem_only s" and "\<forall>i. ctx i = None"
  shows "fst (IndexVersion_on env emb ctx doc ver title md source space r s)
    = IndexVersion (\<lambda>t. res_bind (emb t) (\<lambda>v. Inr (length v))) (\<lambda>_. None) doc ver title md source space r"
  using index_points_refines [OF assms, of env emb r doc ver title source space "enumerate 0 (ChunkMarkdown title md)"]
  by (cases "index_points env emb ctx r doc ver title source space (enumerate 0 (ChunkMarkdown title md)) s")
    (auto simp: IndexVersion_on_def IndexVersion_def ensure_def vst_bind_def vst_return_def Let_def res_bind_def split: sum.splits)

theorem IndexVersion_on_refines_witness:
  "fst (IndexVersion_on ex_qdrant (\<lambda>_. Inr [3, 4]) (\<lambda>_. None) ''d'' ''w'' ''t'' ''text'' ''demo'' ''s'' ex_rag NewMemoryVector)
    = IndexVersion (\<lambda>_. Inr 2) (\<lambda>_. None) ''d'' ''w'' ''t'' ''text'' ''demo'' ''s'' ex_rag"
  using IndexVersion_on_refines [of NewMemoryVector "\<lambda>_. None" ex_qdrant "\<lambda>_. Inr [3, 4]"]
  by (simp add: NewMemoryVector_def numeral_2_eq_2)

section \<open>Properties of the set-up\<close>

definition asks :: "qdrant_env \<Rightarrow> qrequest \<Rightarrow> (json \<Rightarrow> 'a ws) \<Rightarrow> 'a \<Rightarrow> vector_store \<Rightarrow> 'a ws" where
  "asks env q decode zero s = fst (doJSONContext env q decode zero s)"

definition sends :: "qrequest list \<Rightarrow> vector_store \<Rightarrow> vector_store" where
  "sends qs s = s\<lparr>vs_sent := vs_sent s @ qs\<rparr>"

lemma doJSON_asks: "doJSONContext env q decode zero s = (asks env q decode zero s, sends [q] s)"
  by (simp add: asks_def sends_def doJSONContext_def)

lemma sends_simps [simp]:
  "sends qs (sends ps s) = sends (ps @ qs) s" "vs_sent (sends qs s) = vs_sent s @ qs" "vs_collection (sends qs s) = vs_collection s"
  "vs_mem_only (sends qs s) = vs_mem_only s"
  by (simp_all add: sends_def)

text \<open>C25. An embedding space is never mixed into a collection. When the set-up of a persistent store succeeds, the marker of the
  collection names the configured space, or the service knows no marker, counted no points, and the last request has written
  the marker of the configured space. Whatever the outcome, nothing else is written, and a collection whose marker names another
  space, or that has points and no marker, is refused.\<close>

theorem EnsureSpace_guard:
  assumes "EnsureSpace env ctx space s = (res, s')" and "\<not> vs_mem_only s"
  defines "marker \<equiv> asks env (GetPoint (vs_collection s) space_marker) decode_payload [] s"
    and "points \<equiv> asks env (CountPoints (vs_collection s)) decode_count 0 (sends [GetPoint (vs_collection s) space_marker] s)"
  shows "\<exists>qs ws. s' = sends (qs @ ws) s \<and> set qs \<subseteq> {GetPoint (vs_collection s) space_marker, CountPoints (vs_collection s), GetCollection (vs_collection s)}
      \<and> (ws = [] \<or> (\<exists>n e. ws = [PutPoint (vs_collection s) (marker_point space n)] \<and> marker = Inl e \<and> says_404 e \<and> points = Inr 0))
      \<and> (res = Inr () \<longleftrightarrow> (\<exists>pl. marker = Inr pl \<and> payloadString pl ''space_id'' = space \<and> space \<noteq> [])
           \<or> ws \<noteq> [] \<and> asks env (hd ws) decode_any () (sends qs s) = Inr ())"
proof (cases "space = []")
  case True
  then have "s' = sends ([] @ []) s" "res \<noteq> Inr ()" using assms(1) by (auto simp: EnsureSpace_def sends_def)
  with True show ?thesis by (intro exI [of _ "[]"] exI [of _ "[]"]) auto
next
  case ne: False
  let ?c = "vs_collection s"
  let ?g = "GetPoint ?c space_marker" and ?n = "CountPoints ?c" and ?k = "GetCollection ?c"
  show ?thesis
  proof (cases marker)
    case (Inr pl)
    then have "asks env ?g decode_payload [] s = Inr pl" by (simp add: marker_def)
    with assms(1,2) ne have "s' = sends [?g] s" "res = Inr () \<longleftrightarrow> payloadString pl ''space_id'' = space"
      by (auto simp: EnsureSpace_def doJSON_asks split: if_splits)
    with Inr ne show ?thesis by (intro exI [of _ "[?g]"] exI [of _ "[]"]) auto
  next
    case (Inl e)
    note miss = this
    show ?thesis
    proof (cases "says_404 e \<and> points = Inr 0 \<and> (\<exists>z. asks env ?k decode_size 0 (sends [?g, ?n] s) = Inr z \<and> 0 < z) \<and> ctx = None")
      case True
      then obtain z where z: "asks env ?k decode_size 0 (sends [?g, ?n] s) = Inr z" "0 < z" by blast
      have "s' = sends ([?g, ?n, ?k] @ [PutPoint ?c (marker_point space z)]) s"
        and "res = asks env (PutPoint ?c (marker_point space z)) decode_any () (sends [?g, ?n, ?k] s)"
        using assms(1,2) miss True z ne
        by (auto simp: EnsureSpace_def doJSON_asks vst_bind_def vst_return_def UpsertWithContext_def marker_def points_def)
      with miss True show ?thesis
        by (intro exI [of _ "[?g, ?n, ?k]"] exI [of _ "[PutPoint ?c (marker_point space z)]"]) auto
    next
      case False
      have "res \<noteq> Inr () \<and> s' \<in> {sends [?g] s, sends [?g, ?n] s, sends [?g, ?n, ?k] s}"
        using assms(1,2) miss False ne
        by (auto simp: EnsureSpace_def doJSON_asks vst_bind_def vst_return_def UpsertWithContext_def marker_def points_def
            split: sum.splits if_splits option.splits)
      then obtain qs where "s' = sends (qs @ []) s" "set qs \<subseteq> {?g, ?n, ?k}" "res \<noteq> Inr ()" by fastforce
      with miss show ?thesis by (intro exI [of _ qs] exI [of _ "[]"]) auto
    qed
  qed
qed

theorem EnsureSpace_guard_witness:
  "\<exists>s'. EnsureSpace ex_qdrant None ''s'' (NewVector []) = (Inl (ErrMsg ''embedding space mismatch; migrate into a new collection''), s')
     \<and> vs_sent s' = [GetPoint ''oncallagent'' space_marker]"
proof -
  let ?e = "Inl (ErrMsg ''embedding space mismatch; migrate into a new collection'') :: unit ws"
  have "EnsureSpace ex_qdrant None ''s'' (NewVector []) = (?e, sends [GetPoint ''oncallagent'' space_marker] (NewVector []))"
    by (simp add: EnsureSpace_def NewVector_def doJSONContext_def ex_qdrant_def payloadString_def sends_def)
  moreover from EnsureSpace_guard [OF this] have "\<exists>qs ws. sends [GetPoint ''oncallagent'' space_marker] (NewVector []) = sends (qs @ ws) (NewVector [])"
    by (auto simp: NewVector_def)
  ultimately show ?thesis by (auto simp: NewVector_def)
qed

text \<open>The text of an error decides whether a collection is missing. A failure of the service whose body contains the text is
  taken for a missing collection, and the collection is created.\<close>

definition ex_failing :: qdrant_env where
  "ex_failing = ex_qdrant\<lparr>qd_answer := \<lambda>_ q. case q of GetCollection _ \<Rightarrow> Reply 500 ''upstream: 404 page'' | _ \<Rightarrow> Reply 200 []\<rparr>"

lemma EnsureCompatible_misread:
  "EnsureCompatible ex_failing None 3 (NewVector ''kb'') = (Inr (), sends [GetCollection ''kb'', CreateCollection ''kb'' 3] (NewVector ''kb''))"
proof -
  let ?m = "''qdrant '' @ request_line (GetCollection ''kb'') @ '': '' @ dec 500 @ '' '' @ ''upstream: 404 page''"
  have "?m = (''qdrant '' @ request_line (GetCollection ''kb'') @ '': '' @ dec 500 @ '' upstream'') @ '': 404 '' @ ''page''" by simp
  then have "contains ?m '': 404 ''" unfolding contains_iff by blast
  then show ?thesis by (simp add: EnsureCompatible_def doJSONContext_def ex_failing_def ex_qdrant_def says_404_def NewVector_def sends_def)
qed

end
