(* ===== verification/Embed.thy ===== *)
theory Embed
  imports Vector Tools "HOL-Library.Word"
begin

unbundle bit_operations_syntax

text \<open>
  Embeddings (\<open>src/internal/rag/embed.go\<close>): the two remote providers, the choice between them, and the deterministic
  embedding of the test profile.

  A provider is reached through \<open>ee_post\<close>, a POST request with a JSON body; \<open>ee_decode\<close> reads the first JSON value of a reply
  and \<open>ee_num\<close> a number as a float. Floats are real numbers: there is no rounding, and the check for values that are not
  finite has nothing to find. \<open>ee_ctx\<close> is the error of the context.
\<close>

section \<open>Remote providers\<close>

record embed_env =
  ee_ctx :: "ws_error option"
  ee_post :: "string \<Rightarrow> json \<Rightarrow> qreply"
  ee_decode :: "string \<Rightarrow> json option"
  ee_num :: "string \<Rightarrow> real option"

datatype embedder = OllamaEmbedder string string | OpenAIEmbedder string string | HashEmbedder

definition NewOllamaEmbedder :: "string \<Rightarrow> string \<Rightarrow> embedder" where
  "NewOllamaEmbedder baseURL model =
     OllamaEmbedder (trim_slashes (if baseURL = [] then ''http://127.0.0.1:11434'' else baseURL)) (if model = [] then ''nomic-embed-text'' else model)"

definition NewOpenAIEmbedder :: "string \<Rightarrow> string \<Rightarrow> embedder" where
  "NewOpenAIEmbedder baseURL model =
     OpenAIEmbedder (trim_slashes baseURL) (if model = [] then ''text-embedding-nomic-embed-text-v1.5'' else model)"

definition SelectEmbedder :: "string \<Rightarrow> int \<Rightarrow> string \<Rightarrow> embedder" where
  "SelectEmbedder host port model =
     (let base = ''http://'' @ host @ '':'' @ itoa port in
      if port = 1234 then NewOpenAIEmbedder (base @ ''/v1'') model else NewOllamaEmbedder base model)"

definition validateEmbedding :: "real list \<Rightarrow> real list ws" where
  "validateEmbedding v = ensure (v \<noteq> []) (ErrMsg ''empty embedding'') (Inr v)"

definition number_of :: "embed_env \<Rightarrow> json \<Rightarrow> real ws" where
  "number_of env j = (case j of JNull \<Rightarrow> Inr 0 | JNum t \<Rightarrow> res_of ErrJSON (ee_num env t) | _ \<Rightarrow> Inl ErrJSON)"

definition set_vector :: "embed_env \<Rightarrow> json \<Rightarrow> real list \<Rightarrow> real list ws" where
  "set_vector env j old = (case j of JNull \<Rightarrow> Inr [] | JArr js \<Rightarrow> map_res (number_of env) js | _ \<Rightarrow> Inl ErrJSON)"

text \<open>The elements of \<open>data\<close>, each with its embedding.\<close>

definition set_data_vectors :: "embed_env \<Rightarrow> json \<Rightarrow> real list list \<Rightarrow> real list list ws" where
  "set_data_vectors env j old =
     (case j of JNull \<Rightarrow> Inr [] | JArr js \<Rightarrow> map_res (\<lambda>e. set_path (set_vector env) [''embedding''] e []) js | _ \<Rightarrow> Inl ErrJSON)"

definition embed_request :: "embed_env \<Rightarrow> string \<Rightarrow> json \<Rightarrow> (json \<Rightarrow> 'a ws) \<Rightarrow> 'a ws" where
  "embed_request env url body decode =
     (case ee_post env url body of
        NoReply e \<Rightarrow> Inl e
      | Reply st raw \<Rightarrow>
          ensure (200 \<le> st \<and> st < 300) (ErrMsg (''embedding HTTP '' @ dec st))
          (case ee_decode env raw of None \<Rightarrow> Inl ErrJSON | Some j \<Rightarrow> decode j))"

definition embed_ollama :: "embed_env \<Rightarrow> string \<Rightarrow> string \<Rightarrow> string \<Rightarrow> real list ws" where
  "embed_ollama env base model txt =
     res_bind (embed_request env (base @ ''/api/embeddings'') (JObj [(''model'', JStr model), (''prompt'', JStr txt)])
       (\<lambda>j. set_path (set_vector env) [''embedding''] j [])) validateEmbedding"

definition embed_openai :: "embed_env \<Rightarrow> string \<Rightarrow> string \<Rightarrow> string \<Rightarrow> real list ws" where
  "embed_openai env base model txt =
     res_bind (embed_request env (base @ ''/embeddings'') (JObj [(''input'', JStr txt), (''model'', JStr model)])
       (\<lambda>j. set_path (set_data_vectors env) [''data''] j [])) (\<lambda>vs.
     case vs of [] \<Rightarrow> Inl (ErrMsg ''empty embedding data'') | v # _ \<Rightarrow> validateEmbedding v)"

section \<open>The test profile\<close>

definition Dim :: nat where
  "Dim = 64"

text \<open>\<open>fnv.New32a\<close>.\<close>

definition fnv32a :: "string \<Rightarrow> 32 word" where
  "fnv32a s = fold (\<lambda>c h. (h XOR of_nat (of_char c)) * 16777619) s 2166136261"

definition bump :: "nat \<Rightarrow> real \<Rightarrow> real list \<Rightarrow> real list" where
  "bump i x v = v[i := v ! i + x]"

definition hash_token :: "string \<Rightarrow> real list \<Rightarrow> real list" where
  "hash_token t v =
     (let idx = unat (fnv32a t mod of_nat Dim)
      in fold (\<lambda>(r, _). bump ((idx + nat r) mod Dim) (1 / 10)) (runes t) (bump idx 1 v))"

definition HashEmbed :: "string \<Rightarrow> real list" where
  "HashEmbed txt =
     (let toks = fields_loop (to_lower txt) []; zero = replicate Dim 0 in
      if toks = [] then zero
      else let v = fold hash_token toks zero; n = sum_list (map (\<lambda>x. x * x) v)
           in if n = 0 then v else map (\<lambda>x. x / sqrt n) v)"

definition EmbedContext :: "embed_env \<Rightarrow> embedder option \<Rightarrow> string \<Rightarrow> real list ws" where
  "EmbedContext env e txt =
     (case ee_ctx env of
        Some err \<Rightarrow> Inl err
      | None \<Rightarrow>
          (case e of
             None \<Rightarrow> Inl (ErrMsg ''embedding not configured'')
           | Some (OllamaEmbedder base model) \<Rightarrow> embed_ollama env base model txt
           | Some (OpenAIEmbedder base model) \<Rightarrow> embed_openai env base model txt
           | Some HashEmbedder \<Rightarrow> Inr (HashEmbed txt)))"

section \<open>Properties\<close>

lemma Dim_pos [simp]: "0 < Dim" "Dim \<noteq> 0"
  by (simp_all add: Dim_def)

lemma bucket_lt: "unat (fnv32a t mod of_nat Dim) < Dim"
  by (simp add: Dim_def unat_mod)

lemma sum_list_bump: "i < length v \<Longrightarrow> sum_list (v[i := v ! i + x]) = sum_list v + (x :: real)"
proof (induction v arbitrary: i)
  case (Cons y v)
  then show ?case by (cases i) simp_all
qed simp

lemma bump_facts:
  assumes "length v = Dim" and "list_all (\<lambda>x. 0 \<le> x) v" and "i < Dim" and "0 \<le> x"
  shows "length (bump i x v) = Dim" and "list_all (\<lambda>x. 0 \<le> x) (bump i x v)" and "sum_list (bump i x v) = sum_list v + x"
proof -
  show "length (bump i x v) = Dim" using assms(1) by (simp add: bump_def)
  show "list_all (\<lambda>x. 0 \<le> x) (bump i x v)"
    using assms by (auto simp: bump_def list_all_length nth_list_update)
  show "sum_list (bump i x v) = sum_list v + x"
    using assms(1,3) by (simp add: bump_def sum_list_bump)
qed

lemma hash_token_facts:
  assumes "length v = Dim" and "list_all (\<lambda>x. 0 \<le> x) v"
  shows "length (hash_token t v) = Dim \<and> list_all (\<lambda>x. 0 \<le> x) (hash_token t v) \<and> sum_list v + 1 \<le> sum_list (hash_token t v)"
proof -
  define idx where "idx = unat (fnv32a t mod of_nat Dim)"
  have "length w = Dim \<Longrightarrow> list_all (\<lambda>x. 0 \<le> x) w \<Longrightarrow>
      length (fold (\<lambda>(r, _). bump ((idx + nat r) mod Dim) (1 / 10)) rs w) = Dim
      \<and> list_all (\<lambda>x. 0 \<le> x) (fold (\<lambda>(r, _). bump ((idx + nat r) mod Dim) (1 / 10)) rs w)
      \<and> sum_list w \<le> sum_list (fold (\<lambda>(r, _). bump ((idx + nat r) mod Dim) (1 / 10)) rs w)" for rs :: "(int \<times> string) list" and w
  proof (induction rs arbitrary: w)
    case (Cons x rs)
    obtain r bs where x: "x = (r, bs)" by fastforce
    note b = bump_facts [OF Cons.prems, of "(idx + nat r) mod Dim" "1 / 10"]
    show ?case using Cons.IH [OF b(1,2)] b(3) by (simp add: x)
  qed simp
  moreover note bump_facts [OF assms bucket_lt, of 1 t]
  ultimately show ?thesis unfolding hash_token_def Let_def idx_def [symmetric] by (metis zero_le_one)
qed

lemma fold_hash_token:
  assumes "length v = Dim" and "list_all (\<lambda>x. 0 \<le> x) v"
  shows "length (fold hash_token ts v) = Dim \<and> list_all (\<lambda>x. 0 \<le> x) (fold hash_token ts v)
    \<and> sum_list v + real (length ts) \<le> sum_list (fold hash_token ts v)"
  using assms
proof (induction ts arbitrary: v)
  case (Cons t ts)
  from Cons.IH [of "hash_token t v"] hash_token_facts [OF Cons.prems, of t] show ?case by auto
qed simp

lemma sum_squares_scaled:
  fixes v :: "real list"
  assumes "c \<noteq> 0"
  shows "sum_list (map (\<lambda>x. x * x) (map (\<lambda>x. x / c) v)) = sum_list (map (\<lambda>x. x * x) v) / (c * c)"
  using assms by (induction v) (simp_all add: add_divide_distrib)

lemma sum_squares_zero:
  fixes v :: "real list"
  assumes "sum_list (map (\<lambda>x. x * x) v) = 0"
  shows "sum_list v = 0"
proof -
  have nn: "0 \<le> sum_list (map (\<lambda>x. x * x) w)" for w :: "real list" by (induction w) simp_all
  show ?thesis using assms
  proof (induction v)
    case (Cons x v)
    then have "x * x + sum_list (map (\<lambda>x. x * x) v) = 0" by simp
    with nn [of v] zero_le_square [of x] have "x * x = 0" "sum_list (map (\<lambda>x. x * x) v) = 0" by linarith+
    with Cons.IH show ?case by simp
  qed simp
qed

text \<open>The embedding of the test profile is well formed. It has 64 components, none of them negative, and it is the zero
  vector for a text without words and has length 1 for every other text, whatever its bytes are.\<close>

theorem HashEmbed_unit:
  "length (HashEmbed txt) = 64 \<and> list_all (\<lambda>x. 0 \<le> x) (HashEmbed txt)
   \<and> sum_list (map (\<lambda>x. x * x) (HashEmbed txt)) = (if fields_loop (to_lower txt) [] = [] then 0 else 1)"
proof (cases "fields_loop (to_lower txt) [] = []")
  case True
  then have "HashEmbed txt = replicate Dim 0" by (simp add: HashEmbed_def)
  with True show ?thesis by (simp add: Dim_def list_all_length sum_list_replicate)
next
  case False
  define v where "v = fold hash_token (fields_loop (to_lower txt) []) (replicate Dim 0)"
  define n where "n = sum_list (map (\<lambda>x. x * x) v)"
  from fold_hash_token [of "replicate Dim 0" "fields_loop (to_lower txt) []"]
  have v: "length v = Dim" "list_all (\<lambda>x. 0 \<le> x) v" and "real (length (fields_loop (to_lower txt) [])) \<le> sum_list v"
    by (simp_all add: v_def list_all_length sum_list_replicate)
  then have "0 < sum_list v" using False by (metis length_greater_0_conv less_le_trans of_nat_0_less_iff)
  then have n0: "n \<noteq> 0" using sum_squares_zero unfolding n_def by force
  moreover have "0 \<le> n" unfolding n_def by (induction v) simp_all
  ultimately have n: "0 < n" by simp
  have h: "HashEmbed txt = map (\<lambda>x. x / sqrt n) v" using False n0 by (simp add: HashEmbed_def v_def [symmetric] n_def [symmetric])
  have "sum_list (map (\<lambda>x. x * x) (HashEmbed txt)) = 1"
    unfolding h using sum_squares_scaled [of "sqrt n" v] n by (simp add: n_def [symmetric])
  moreover have "length (HashEmbed txt) = 64" "list_all (\<lambda>x. 0 \<le> x) (HashEmbed txt)"
    using v n by (auto simp: h Dim_def list_all_iff)
  ultimately show ?thesis using False by simp
qed

text \<open>An embedding is never made up: without a provider, or with a failing one, there is an error, and a vector that is
  returned is not empty.\<close>

lemma EmbedContext_nonempty:
  assumes "EmbedContext env e txt = Inr v"
  shows "v \<noteq> [] \<and> ee_ctx env = None \<and> e \<noteq> None"
proof -
  have "length (fold hash_token ts (replicate Dim 0)) = Dim" for ts
    using fold_hash_token [of "replicate Dim 0" ts] by (simp add: list_all_length)
  then have "HashEmbed txt \<noteq> []" by (auto simp: HashEmbed_def Let_def Dim_def dest: arg_cong [of _ _ length])
  then show ?thesis using assms
    by (auto simp: EmbedContext_def embed_ollama_def embed_openai_def validateEmbedding_def res_bind_eq_Inr
        split: option.splits embedder.splits list.splits) (metis list.exhaust)
qed

lemma EmbedContext_remote_fails:
  assumes "ee_post env = (\<lambda>_ _. NoReply err)" and "ee_ctx env = None" and "e \<noteq> HashEmbedder"
  shows "EmbedContext env (Some e) txt = Inl err"
  using assms by (auto simp: EmbedContext_def embed_ollama_def embed_openai_def embed_request_def split: embedder.splits)

end
