(* ===== verification/Judge.thy ===== *)
theory Judge
  imports Embed Agent
begin

text \<open>
  The self-assessment of a diagnosis (\<open>src/internal/judge/judge.go\<close>) and the delivery of a notification
  (\<open>src/internal/notify/notify.go\<close>).

  \<open>je_post\<close> is a POST request with a bearer token (empty for none) and \<open>je_decode\<close> the reader of the first JSON value of a reply.
  The two regular expressions are the scanners \<open>find_mark\<close> and \<open>find_digit\<close> on bytes, which is how they match valid UTF-8.
\<close>

section \<open>Reading a score\<close>

definition score_mark :: string where
  "score_mark = bytes [0xE5, 0x88, 0x86, 0xE6, 0x95, 0xB0]"

definition wide_colon :: string where
  "wide_colon = bytes [0xEF, 0xBC, 0x9A]"

text \<open>The white space of \<open>\s\<close> in a regular expression.\<close>

definition regexp_space :: "char \<Rightarrow> bool" where
  "regexp_space c \<longleftrightarrow> (of_char c :: nat) \<in> {9, 10, 12, 13, 32}"

definition grade :: "char \<Rightarrow> nat option" where
  "grade c = (let n = of_char c :: nat in if 49 \<le> n \<and> n \<le> 53 then Some (n - 48) else None)"

text \<open>The expression \<open>scoreRe\<close> at the head of a text: the grade and what follows it.\<close>

definition after_colon :: "string \<Rightarrow> string option" where
  "after_colon s =
     (if has_prefix s '':'' then Some (drop 1 s) else if has_prefix s wide_colon then Some (drop 3 s) else None)"

definition mark_here :: "string \<Rightarrow> (nat \<times> string) option" where
  "mark_here s =
     (if \<not> has_prefix s score_mark then None
      else case after_colon (drop (length score_mark) s) of
        None \<Rightarrow> None
      | Some t \<Rightarrow>
          (case dropWhile regexp_space t of
             [] \<Rightarrow> None
           | c # rest \<Rightarrow> map_option (\<lambda>g. (g, rest)) (grade c)))"

fun find_mark :: "string \<Rightarrow> (nat \<times> string) option" where
  "find_mark [] = None"
| "find_mark (c # s) = (case mark_here (c # s) of Some m \<Rightarrow> Some m | None \<Rightarrow> find_mark s)"

fun find_digit :: "string \<Rightarrow> nat option" where
  "find_digit [] = None"
| "find_digit (c # s) = (case grade c of Some g \<Rightarrow> Some g | None \<Rightarrow> find_digit s)"

function trim_marks :: "string \<Rightarrow> string" where
  "trim_marks s =
     (if has_prefix s '':'' \<or> has_prefix s '' '' \<or> has_prefix s [char_of (9::nat)] then trim_marks (drop 1 s)
      else if has_prefix s wide_colon then trim_marks (drop 3 s) else s)"
  by pat_completeness auto
termination
  by (relation "measure length") (auto simp: has_prefix_iff wide_colon_def bytes_def)

definition ellipsis :: string where
  "ellipsis = bytes [0xE2, 0x80, 0xA6]"

definition judge_trunc :: "string \<Rightarrow> nat \<Rightarrow> string" where
  "judge_trunc s n =
     (let r = map snd (runes (trim_space s)) in if length r \<le> n then concat r else concat (take n r) @ ellipsis)"

definition parseReply :: "string \<Rightarrow> nat \<times> string" where
  "parseReply reply =
     (case find_mark reply of
        Some (g, rest) \<Rightarrow> (g, judge_trunc (trim_space (trim_marks rest)) 60)
      | None \<Rightarrow>
          (case find_digit reply of
             Some g \<Rightarrow> (g, judge_trunc reply 60)
           | None \<Rightarrow> (0, [])))"

section \<open>Asking for a score\<close>

record judge_config =
  jc_api_base :: string
  jc_model :: string
  jc_api_key :: string

record judge_env =
  je_post :: "string \<Rightarrow> string \<Rightarrow> json \<Rightarrow> qreply"
  je_decode :: "string \<Rightarrow> json option"

definition judge_head :: string where
  "judge_head =
     bytes [0xE4, 0xBD, 0xA0, 0xE6, 0x98, 0xAF, 0xE8, 0xBF, 0x90, 0xE7, 0xBB, 0xB4, 0xE8, 0xAF, 0x8A, 0xE6, 0x96,
     0xAD, 0xE8, 0xB4, 0xA8, 0xE6, 0xA3, 0x80, 0xE5, 0x91, 0x98, 0xE3, 0x80, 0x82, 0xE4, 0xBB, 0x85, 0xE4, 0xBE, 0x9D,
     0xE6, 0x8D, 0xAE, 0xE4, 0xB8, 0x8B, 0xE5, 0x88, 0x97, 0xE7, 0x9F, 0xA5, 0xE8, 0xAF, 0x86, 0xE5, 0xBA, 0x93, 0xE5,
     0xBC, 0x95, 0xE7, 0x94, 0xA8, 0xEF, 0xBC, 0x8C, 0xE5, 0xAF, 0xB9, 0xE8, 0xAF, 0x8A, 0xE6, 0x96, 0xAD, 0xE6, 0x8A,
     0xA5, 0xE5, 0x91, 0x8A, 0xE6, 0x89, 0x93] @ '' 1-5 '' @ bytes [0xE5, 0x88, 0x86, 0xEF, 0xBC, 0x88, 0xE7, 0xBA,
     0xAF, 0xE8, 0xA7, 0x82, 0xE5, 0xAF, 0x9F, 0xE5, 0x80, 0xBC, 0xEF, 0xBC, 0x8C, 0xE4, 0xBE, 0x9B, 0xE4, 0xBA, 0xBA,
     0xE5, 0x8F, 0x82, 0xE8, 0x80, 0x83, 0xEF, 0xBC, 0x89, 0xEF, 0xBC, 0x9A, 0x0A] @ ''5='' @ bytes [0xE5, 0xBC, 0x95,
     0xE7, 0x94, 0xA8, 0xE5, 0x85, 0x85, 0xE5, 0x88, 0x86, 0xE6, 0x94, 0xAF, 0xE6, 0x92, 0x91, 0xE4, 0xB8, 0x94, 0xE5,
     0xA4, 0x84, 0xE7, 0xBD, 0xAE, 0xE6, 0xAD, 0xA5, 0xE9, 0xAA, 0xA4, 0xE5, 0x8F, 0xAF, 0xE7, 0x9B, 0xB4, 0xE6, 0x8E,
     0xA5, 0xE6, 0x89, 0xA7, 0xE8, 0xA1, 0x8C, 0xEF, 0xBC, 0x9B] @ ''3='' @ bytes [0xE5, 0xA4, 0xA7, 0xE4, 0xBD, 0x93,
     0xE5, 0x8F, 0xAF, 0xE7, 0x94, 0xA8, 0xE4, 0xBD, 0x86, 0xE4, 0xBE, 0x9D, 0xE6, 0x8D, 0xAE, 0xE4, 0xB8, 0x8D, 0xE8,
     0xB6, 0xB3, 0xE6, 0x88, 0x96, 0xE6, 0xAD, 0xA5, 0xE9, 0xAA, 0xA4, 0xE7, 0xAC, 0xBC, 0xE7, 0xBB, 0x9F, 0xEF, 0xBC,
     0x9B] @ ''1='' @ bytes [0xE5, 0xBC, 0x95, 0xE7, 0x94, 0xA8, 0xE4, 0xB8, 0x8D, 0xE6, 0x94, 0xAF, 0xE6, 0x92, 0x91,
     0xE6, 0x88, 0x96, 0xE5, 0x90, 0xAB, 0xE7, 0xBC, 0x96, 0xE9, 0x80, 0xA0, 0xE3, 0x80, 0x82, 0x0A, 0xE5, 0x8F, 0xAA,
     0xE8, 0xBE, 0x93, 0xE5, 0x87, 0xBA, 0xE4, 0xB8, 0x80, 0xE8, 0xA1, 0x8C, 0xEF, 0xBC, 0x9A, 0xE3, 0x80, 0x8C, 0xE5,
     0x88, 0x86, 0xE6, 0x95, 0xB0] @ '': <1-5>'' @ bytes [0xE3, 0x80, 0x8D, 0xEF, 0xBC, 0x8C, 0xE9, 0x9A, 0x8F, 0xE5,
     0x90, 0x8E, 0xE8, 0xB7, 0x9F, 0xE4, 0xB8, 0x80, 0xE5, 0x8F, 0xA5, 0xE4, 0xB8, 0x8D, 0xE8, 0xB6, 0x85, 0xE8, 0xBF,
     0x87] @ '' 40 '' @ bytes [0xE5, 0xAD, 0x97, 0xE7, 0x9A, 0x84, 0xE7, 0x90, 0x86, 0xE7, 0x94, 0xB1, 0xE3, 0x80,
     0x82, 0x0A, 0x0A, 0xE8, 0xAF, 0x8A, 0xE6, 0x96, 0xAD, 0xEF, 0xBC, 0x9A, 0x0A]"

definition no_citations :: string where
  "no_citations = bytes [0x0A, 0xE7, 0x9F, 0xA5, 0xE8, 0xAF, 0x86, 0xE5, 0xBA, 0x93, 0xE5, 0xBC, 0x95, 0xE7, 0x94, 0xA8, 0xEF,
     0xBC, 0x9A, 0xEF, 0xBC, 0x88, 0xE6, 0x97, 0xA0, 0xEF, 0xBC, 0x89, 0x0A]"

definition judge_item :: "nat \<times> rag_result \<Rightarrow> string" where
  "judge_item ic = (case ic of (i, c) \<Rightarrow>
     newline @ dec (i + 1) @ ''.'' @ open_bracket @ res_doc c @ close_bracket @ judge_trunc (res_snippet c) 300 @ newline)"

definition judge_prompt :: "string \<Rightarrow> rag_result list \<Rightarrow> string" where
  "judge_prompt diagnosis citations =
     judge_head @ diagnosis @ newline @ (if citations = [] then no_citations else []) @ concat (map judge_item (enumerate 0 citations))"

definition bearer_of :: "string \<Rightarrow> string" where
  "bearer_of key = (if trim_space key = [] then [] else ''Bearer '' @ trim_space key)"

text \<open>The content of each choice; an array that occurs twice keeps the last value.\<close>

definition set_choices :: "json \<Rightarrow> string list \<Rightarrow> string list ws" where
  "set_choices j old =
     (case j of JNull \<Rightarrow> Inr [] | JArr js \<Rightarrow> map_res (\<lambda>c. set_path set_string [''message'', ''content''] c []) js | _ \<Rightarrow> Inl ErrJSON)"

definition decode_choices :: "json option \<Rightarrow> string list ws" where
  "decode_choices j = (case j of None \<Rightarrow> Inl ErrJSON | Some v \<Rightarrow> set_path set_choices [''choices''] v [])"

definition Score :: "judge_env \<Rightarrow> judge_config \<Rightarrow> string \<Rightarrow> rag_result list \<Rightarrow> (nat \<times> string) ws" where
  "Score env cfg diagnosis citations =
     (case je_post env (trim_slashes (jc_api_base cfg) @ ''/chat/completions'') (bearer_of (jc_api_key cfg))
             (JObj [(''max_tokens'', JNum ''128''),
                    (''messages'', JArr [JObj [(''content'', JStr (judge_prompt diagnosis citations)), (''role'', JStr ''user'')]]),
                    (''model'', JStr (jc_model cfg)), (''temperature'', JNum ''0'')]) of
        NoReply e \<Rightarrow> Inl e
      | Reply _ raw \<Rightarrow>
          res_bind (decode_choices (je_decode env raw)) (\<lambda>cs.
          case cs of
            [] \<Rightarrow> Inl (ErrMsg ''judge reply empty choices'')
          | c # _ \<Rightarrow>
              (case parseReply (trim_space c) of
                 (score, reason) \<Rightarrow> if score = 0 then Inl (ErrMsg ''judge reply unparsable'') else Inr (score, reason))))"

section \<open>Delivery\<close>

definition Post :: "(string \<Rightarrow> string \<Rightarrow> qreply) \<Rightarrow> string \<Rightarrow> string \<Rightarrow> unit ws" where
  "Post send url body =
     (case send url body of
        NoReply e \<Rightarrow> Inl e
      | Reply st _ \<Rightarrow>
          ensure (200 \<le> st \<and> st \<le> 299) (ErrMsg (''notify: post '' @ url @ '': unexpected status '' @ dec st)) (Inr ()))"

section \<open>Properties\<close>

lemma grade_range: "grade c = Some g \<Longrightarrow> 1 \<le> g \<and> g \<le> 5"
  by (auto simp: grade_def Let_def split: if_splits)

lemma find_mark_range: "find_mark s = Some (g, r) \<Longrightarrow> 1 \<le> g \<and> g \<le> 5"
  by (induction s) (auto simp: mark_here_def dest: grade_range split: option.splits if_splits list.splits)

lemma find_digit_range: "find_digit s = Some g \<Longrightarrow> 1 \<le> g \<and> g \<le> 5"
  by (induction s) (auto dest: grade_range split: option.splits)

lemma parseReply_range: "fst (parseReply s) \<le> 5"
  using find_mark_range find_digit_range by (fastforce simp: parseReply_def split: option.splits)

text \<open>A score is between 1 and 5, whatever the model answers; an answer without a grade is an error and never a
  score.\<close>

theorem Score_range:
  assumes "Score env cfg diagnosis citations = Inr (score, reason)"
  shows "1 \<le> score \<and> score \<le> 5"
proof -
  from assms obtain cs where cs: "(case cs of [] \<Rightarrow> Inl (ErrMsg ''judge reply empty choices'')
      | c # _ \<Rightarrow> (case parseReply (trim_space c) of
          (score, reason) \<Rightarrow> if score = 0 then Inl (ErrMsg ''judge reply unparsable'') else Inr (score, reason))) = Inr (score, reason)"
    by (auto simp: Score_def res_bind_eq_Inr split: qreply.splits)
  then obtain c where "parseReply (trim_space c) = (score, reason)" "score \<noteq> 0"
    by (cases cs) (auto split: prod.splits if_splits)
  with parseReply_range [of "trim_space c"] show ?thesis by simp
qed

definition ex_judge :: judge_env where
  "ex_judge = \<lparr> je_post = (\<lambda>_ _ _. Reply 200 []),
     je_decode = (\<lambda>_. Some (JObj [(''choices'', JArr [JObj [(''message'', JObj [(''content'', JStr ''4 of 5'')])]])])) \<rparr>"

theorem Score_range_witness:
  "\<exists>r. Score ex_judge \<lparr> jc_api_base = ''b'', jc_model = ''m'', jc_api_key = [] \<rparr> ''d'' [] = Inr (4, r) \<and> 4 \<le> (5::nat)"
proof -
  have "parseReply (trim_space ''4 of 5'') = (4, judge_trunc (trim_space ''4 of 5'') 60)" by code_simp
  moreover have "decode_choices (je_decode ex_judge []) = Inr [''4 of 5'']" unfolding ex_judge_def by code_simp
  ultimately have "Score ex_judge \<lparr> jc_api_base = ''b'', jc_model = ''m'', jc_api_key = [] \<rparr> ''d'' []
      = Inr (4, judge_trunc (trim_space ''4 of 5'') 60)"
    by (simp add: Score_def) (simp add: ex_judge_def)
  with Score_range [OF this] show ?thesis by blast
qed

text \<open>A grade out of range is not refused: of a ten only the first digit is read.\<close>

lemma parseReply_ten: "parseReply (score_mark @ '': 10'') = (1, ''0'')"
  by code_simp

text \<open>A marked grade is read back: the format that the prompt asks for gives the grade that was written, wherever the mark
  stands in the reply and whatever other digits surround it.\<close>

lemma find_mark_format:
  assumes "1 \<le> g" and "g \<le> 5" and "\<forall>a b. pre = a @ b \<and> b \<noteq> [] \<longrightarrow> \<not> has_prefix (b @ score_mark) score_mark"
  shows "find_mark (pre @ score_mark @ '': '' @ dec g @ rest) = Some (g, rest)"
proof -
  have dg: "dec g = [char_of (48 + g)]" using assms(2) by (simp add: dec.simps [of g])
  have gr: "grade (char_of (48 + g)) = Some g" using assms(1,2) by (auto simp: grade_def Let_def)
  have sp: "\<not> regexp_space (char_of (48 + g))" using assms(1,2) by (auto simp: regexp_space_def)
  have here: "mark_here (score_mark @ '': '' @ dec g @ rest) = Some (g, rest)"
    using gr sp by (simp add: mark_here_def after_colon_def has_prefix_def dg) (simp add: regexp_space_def)
  have ne: "score_mark \<noteq> []" by (simp add: score_mark_def bytes_def)
  show ?thesis
    using assms(3)
  proof (induction pre)
    case Nil
    have "find_mark x = Some m" if "mark_here x = Some m" "x \<noteq> []" for x m using that by (cases x) simp_all
    from this [OF here] ne show ?case by simp
  next
    case (Cons c pre)
    have "\<not> has_prefix ((c # pre) @ score_mark) score_mark" using Cons.prems by (metis append_Nil list.distinct(1))
    then have "\<not> has_prefix ((c # pre) @ score_mark @ '': '' @ dec g @ rest) score_mark"
      by (auto simp: has_prefix_def take_append simp del: append_Cons)
    then have "mark_here (c # pre @ score_mark @ '': '' @ dec g @ rest) = None" by (simp add: mark_here_def)
    moreover have "find_mark (pre @ score_mark @ '': '' @ dec g @ rest) = Some (g, rest)"
      using Cons.prems by (intro Cons.IH) (metis append_Cons)
    ultimately show ?case by simp
  qed
qed

end
