(* ===== verification/Legacy.thy ===== *)
theory Legacy
  imports Judge Planner Api
begin

text \<open>
  The earlier HTTP surface that is kept beside the workspace (\<open>src/internal/handler/alert.go\<close>, \<open>handler.go\<close>, \<open>docs.go\<close>,
  \<open>plan.go\<close> and \<open>bind.go\<close>): the ring of reports with its snapshot on disk, the alert webhook and its worker, and the registry
  of uploaded documents.

  What lies outside the program is \<open>legacy_env\<close>: the disk and the JSON form of the reports on it, the vector store and the
  embedding, the planner's and the tools' surroundings, the judge, the queue, a clock and a random identifier. \<open>lh_diagnoses\<close> and
  \<open>lh_notices\<close> log the tasks the queue has accepted. Logs, spans and counters are not modelled. A nil knowledge base where the
  code does not expect it is answered by the recovery of the router with 500.
\<close>

section \<open>The ring of reports\<close>

record report =
  rpt_id :: string
  rpt_status :: string
  rpt_received_at :: string
  rpt_alerts :: "alert list"
  rpt_diagnosis :: string
  rpt_citations :: "rag_result list"
  rpt_ingested :: nat
  rpt_score :: nat
  rpt_low_score :: bool
  rpt_deploy_events :: "deploy_event list option"

record report_ring =
  rr_items :: "report list"
  rr_path :: string
  rr_disk :: "(string \<times> string) list"

record disk_env =
  dk_marshal :: "report list \<Rightarrow> string option"
  dk_unmarshal :: "string \<Rightarrow> report list option"
  dk_mkdir :: bool
  dk_write :: bool
  dk_rename :: bool
  dk_read :: bool

definition reportRingCap :: nat where
  "reportRingCap = 20"

definition newest :: "'a list \<Rightarrow> 'a list" where
  "newest xs = (if reportRingCap < length xs then drop (length xs - reportRingCap) xs else xs)"

definition persistLocked :: "disk_env \<Rightarrow> report_ring \<Rightarrow> report_ring" where
  "persistLocked dk r =
     (if rr_path r = [] then r
      else case dk_marshal dk (rr_items r) of
        None \<Rightarrow> r
      | Some raw \<Rightarrow>
          let tmp = rr_path r @ ''.tmp'' in
          if \<not> dk_write dk then r
          else if \<not> dk_rename dk then r\<lparr>rr_disk := AList.update tmp raw (rr_disk r)\<rparr>
          else r\<lparr>rr_disk := AList.update (rr_path r) raw (AList.delete tmp (rr_disk r))\<rparr>)"

definition ring_add :: "disk_env \<Rightarrow> report \<Rightarrow> report_ring \<Rightarrow> report_ring" where
  "ring_add dk rep r = persistLocked dk (r\<lparr>rr_items := newest (rr_items r @ [rep])\<rparr>)"

definition ring_snapshot :: "report_ring \<Rightarrow> report list" where
  "ring_snapshot r = rev (rr_items r)"

fun update_first :: "string \<Rightarrow> (report \<Rightarrow> report) \<Rightarrow> report list \<Rightarrow> report list option" where
  "update_first i f [] = None"
| "update_first i f (x # xs) = (if rpt_id x = i then Some (f x # xs) else map_option ((#) x) (update_first i f xs))"

definition ring_update :: "disk_env \<Rightarrow> string \<Rightarrow> (report \<Rightarrow> report) \<Rightarrow> report_ring \<Rightarrow> bool \<times> report_ring" where
  "ring_update dk i f r =
     (case update_first i f (rr_items r) of
        None \<Rightarrow> (False, r)
      | Some xs \<Rightarrow> (True, persistLocked dk (r\<lparr>rr_items := xs\<rparr>)))"

definition SetPersist :: "disk_env \<Rightarrow> string \<Rightarrow> report_ring \<Rightarrow> unit ws \<times> report_ring" where
  "SetPersist dk path r =
     (if trim_space path = [] then (Inr (), r\<lparr>rr_path := []\<rparr>)
      else if \<not> dk_mkdir dk then (Inl (ErrMsg ''create reports persist dir''), r)
      else (Inr (), r\<lparr>rr_path := path\<rparr>))"

definition LoadPersist :: "disk_env \<Rightarrow> report_ring \<Rightarrow> unit ws \<times> report_ring" where
  "LoadPersist dk r =
     (if rr_path r = [] then (Inr (), r)
      else case map_of (rr_disk r) (rr_path r) of
        None \<Rightarrow> (Inr (), r)
      | Some raw \<Rightarrow>
          if \<not> dk_read dk then (Inl (ErrMsg ''read reports snapshot''), r)
          else (case dk_unmarshal dk raw of
                  None \<Rightarrow> (Inr (), r)
                | Some items \<Rightarrow> (Inr (), r\<lparr>rr_items := newest items\<rparr>)))"

section \<open>The handler\<close>

record legacy_handler =
  lh_rag :: "rag option"
  lh_store :: vector_store
  lh_planner :: "planner option"
  lh_queue :: bool
  lh_judge :: judge_config
  lh_threshold :: int
  lh_webhook :: string
  lh_notifier :: bool
  lh_deploy :: deploy_source
  lh_ring :: report_ring
  lh_auto_ingest :: bool
  lh_titles :: "(string \<times> string) list"
  lh_sources :: "(string \<times> string) list"
  lh_diagnoses :: "(string \<times> alert list) list"
  lh_notices :: "(string \<times> report) list"

record legacy_env =
  lg_disk :: disk_env
  lg_qdrant :: qdrant_env
  lg_embed :: "string \<Rightarrow> real list ws"
  lg_plan :: plan_env
  lg_tools :: tool_env
  lg_judge :: judge_env
  lg_now :: time
  lg_id :: string
  lg_parse :: "string \<Rightarrow> json option"
  lg_decode :: "string \<Rightarrow> json option"
  lg_enqueue :: "string \<Rightarrow> alert list \<Rightarrow> ws_error option"
  lg_notify :: "string \<Rightarrow> report \<Rightarrow> ws_error option"
  lg_post :: "string \<Rightarrow> string \<Rightarrow> qreply"

definition New_legacy :: "vector_store \<Rightarrow> rag option \<Rightarrow> legacy_handler" where
  "New_legacy s r =
     \<lparr> lh_rag = r, lh_store = s, lh_planner = None, lh_queue = False,
       lh_judge = \<lparr> jc_api_base = [], jc_model = [], jc_api_key = [] \<rparr>, lh_threshold = 0, lh_webhook = [], lh_notifier = False,
       lh_deploy = \<lparr> ds_repo = [], ds_token = [], ds_base_url = [] \<rparr>,
       lh_ring = \<lparr> rr_items = [], rr_path = [], rr_disk = [] \<rparr>, lh_auto_ingest = False, lh_titles = [], lh_sources = [],
       lh_diagnoses = [], lh_notices = [] \<rparr>"

definition saveTitle :: "string \<Rightarrow> string \<Rightarrow> legacy_handler \<Rightarrow> nat \<times> legacy_handler" where
  "saveTitle title content h =
     (let h1 = h\<lparr>lh_titles := AList.update title content (lh_titles h), lh_sources := AList.update title ''upload'' (lh_sources h)\<rparr>
      in (length (lh_titles h1), h1))"

definition removeTitle :: "string \<Rightarrow> legacy_handler \<Rightarrow> (nat \<times> bool) \<times> legacy_handler" where
  "removeTitle title h =
     (if map_of (lh_titles h) title = None then ((length (lh_titles h), False), h)
      else let h1 = h\<lparr>lh_titles := AList.delete title (lh_titles h), lh_sources := AList.delete title (lh_sources h)\<rparr>
           in ((length (lh_titles h1), True), h1))"

definition hasTitle :: "string \<Rightarrow> legacy_handler \<Rightarrow> bool" where
  "hasTitle title h \<longleftrightarrow> map_of (lh_titles h) title \<noteq> None"

definition listTitles :: "legacy_handler \<Rightarrow> string list" where
  "listTitles h = sort (map fst (lh_titles h))"

definition resetTitles :: "(string \<times> string) list \<Rightarrow> legacy_handler \<Rightarrow> nat \<times> legacy_handler" where
  "resetTitles m h =
     (let kept = filter (\<lambda>(t, _). map_of (lh_sources h) t \<noteq> Some ''demo'') (lh_titles h);
          merged = fold (\<lambda>(t, c). AList.update t c) m kept;
          srcs = fold (\<lambda>(t, _). AList.update t ''demo'') m (lh_sources h)
      in (length merged, h\<lparr>lh_titles := merged, lh_sources := srcs\<rparr>))"

section \<open>Alerts of the webhook\<close>

record am_alert =
  am_status :: string
  am_labels :: "gomap option"
  am_annotations :: "gomap option"
  am_description :: string
  am_starts_at :: string

definition decode_am_alert :: "json \<Rightarrow> am_alert ws" where
  "decode_am_alert j =
     set_struct (\<lambda>kvs a.
        res_bind (str_field ''status'' kvs) (\<lambda>st.
        res_bind (map_field ''labels'' kvs) (\<lambda>ls.
        res_bind (map_field ''annotations'' kvs) (\<lambda>an.
        res_bind (str_field ''description'' kvs) (\<lambda>de.
        res_bind (str_field ''startsAt'' kvs) (\<lambda>sa.
          Inr \<lparr> am_status = st, am_labels = ls, am_annotations = an, am_description = de, am_starts_at = sa \<rparr>))))))
       j \<lparr> am_status = [], am_labels = None, am_annotations = None, am_description = [], am_starts_at = [] \<rparr>"

definition decode_tool_alert :: "json \<Rightarrow> alert ws" where
  "decode_tool_alert j =
     set_struct (\<lambda>kvs a.
        res_bind (str_field ''name'' kvs) (\<lambda>nm.
        res_bind (str_field ''severity'' kvs) (\<lambda>sv.
        res_bind (str_field ''description'' kvs) (\<lambda>de.
        res_bind (map_field ''labels'' kvs) (\<lambda>ls.
        res_bind (str_field ''startsAt'' kvs) (\<lambda>sa.
          Inr \<lparr> al_name = nm, al_severity = sv, al_description = de, al_labels = ls, al_starts_at = sa \<rparr>))))))
       j \<lparr> al_name = [], al_severity = [], al_description = [], al_labels = None, al_starts_at = [] \<rparr>"

definition set_am_alerts :: "json \<Rightarrow> am_alert list \<Rightarrow> am_alert list ws" where
  "set_am_alerts v old = (case v of JNull \<Rightarrow> Inr [] | JArr js \<Rightarrow> map_res decode_am_alert js | _ \<Rightarrow> Inl ErrJSON)"

definition toAlert :: "am_alert \<Rightarrow> alert" where
  "toAlert a =
     (let d = label_of (am_annotations a) ''description''; n = label_of (am_labels a) ''alertname'' in
      \<lparr> al_name = (if n = [] then label_of (am_labels a) ''alert_name'' else n), al_severity = label_of (am_labels a) ''severity'',
        al_description = (if d = [] then am_description a else d), al_labels = am_labels a, al_starts_at = am_starts_at a \<rparr>)"

definition is_firing :: "am_alert \<Rightarrow> bool" where
  "is_firing a \<longleftrightarrow> am_status a = [] \<or> am_status a = ''firing''"

definition parseAlertPayload :: "json option \<Rightarrow> alert list" where
  "parseAlertPayload raw =
     (case raw of
        None \<Rightarrow> []
      | Some j \<Rightarrow>
          (case set_path set_am_alerts [''alerts''] j [] of
             Inr (a # as) \<Rightarrow> map toAlert (filter is_firing (a # as))
           | _ \<Rightarrow>
               (case decode_am_alert j of
                  Inr one \<Rightarrow>
                    if am_labels one \<noteq> None then (if is_firing one then [toAlert one] else [])
                    else (case decode_tool_alert j of Inr d \<Rightarrow> if al_name d \<noteq> [] then [d] else [] | Inl _ \<Rightarrow> [])
                | Inl _ \<Rightarrow> (case decode_tool_alert j of Inr d \<Rightarrow> if al_name d \<noteq> [] then [d] else [] | Inl _ \<Rightarrow> []))))"

definition maxBodyBytes :: nat where
  "maxBodyBytes = 2097152"

definition put_ring :: "report_ring \<Rightarrow> legacy_handler \<Rightarrow> legacy_handler" where
  "put_ring r h = h\<lparr>lh_ring := r\<rparr>"

definition queued_report :: "string \<Rightarrow> time \<Rightarrow> alert list \<Rightarrow> report" where
  "queued_report i now alerts =
     \<lparr> rpt_id = i, rpt_status = ''queued'', rpt_received_at = fmt_sec now, rpt_alerts = alerts, rpt_diagnosis = [], rpt_citations = [],
       rpt_ingested = 0, rpt_score = 0, rpt_low_score = False, rpt_deploy_events = None \<rparr>"

definition enqueue_failed :: string where
  "enqueue_failed = bytes [0xE8, 0xAF, 0x8A, 0xE6, 0x96, 0xAD, 0xE4, 0xBB, 0xBB, 0xE5, 0x8A, 0xA1, 0xE5, 0x85, 0xA5, 0xE9, 0x98,
      0x9F, 0xE5, 0xA4, 0xB1, 0xE8, 0xB4, 0xA5]"

definition enqueue_duplicate :: string where
  "enqueue_duplicate = bytes [0xE5, 0x90, 0x8C, 0xE5, 0x91, 0x8A, 0xE8, 0xAD, 0xA6, 0xE8, 0xAF, 0x8A, 0xE6, 0x96, 0xAD, 0xE4, 0xBB,
      0xBB, 0xE5, 0x8A, 0xA1, 0xE5, 0xB7, 0xB2, 0xE5, 0x9C, 0xA8, 0xE9, 0x98, 0x9F, 0xE5, 0x88, 0x97, 0xEF, 0xBC,
      0x88, 0xE5, 0x8E, 0xBB, 0xE9, 0x87, 0x8D, 0xEF, 0xBC, 0x89]"

definition Alert_legacy :: "legacy_env \<Rightarrow> string \<Rightarrow> legacy_handler \<Rightarrow> (nat, string \<times> nat) res \<times> legacy_handler" where
  "Alert_legacy env body h =
     (let alerts = parseAlertPayload (lg_parse env body) in
      if maxBodyBytes < length body then (Inl 413, h)
      else if body = [] \<or> alerts = [] \<or> list_ex (\<lambda>a. al_name a = []) alerts then (Inl 400, h)
      else if \<not> lh_queue h then (Inl 503, h)
      else let h1 = put_ring (ring_add (lg_disk env) (queued_report (lg_id env) (lg_now env) alerts) (lh_ring h)) h in
        case lg_enqueue env (lg_id env) alerts of
          None \<Rightarrow> (Inr (lg_id env, length alerts), h1\<lparr>lh_diagnoses := lh_diagnoses h1 @ [(lg_id env, alerts)]\<rparr>)
        | Some e \<Rightarrow>
            (Inl 503, put_ring (snd (ring_update (lg_disk env) (lg_id env)
               (\<lambda>r. r\<lparr>rpt_status := ''failed'', rpt_diagnosis := if e = ErrTaskIDConflict then enqueue_duplicate else enqueue_failed\<rparr>) (lh_ring h1))) h1))"

section \<open>The worker\<close>

definition incidentMarkdown :: "alert \<Rightarrow> string \<Rightarrow> string" where
  "incidentMarkdown a diagnosis =
     ''# '' @ al_name a @
     '' '' @ bytes [0xE4, 0xBA, 0x8B, 0xE4, 0xBB, 0xB6, 0xE6, 0xB2, 0x89, 0xE6, 0xB7, 0x80, 0x0A, 0x0A] @ ''> AI '' @
     bytes [0xE8, 0xAF, 0x8A, 0xE6, 0x96, 0xAD, 0xE6, 0x8A, 0xA5, 0xE5, 0x91, 0x8A, 0xE8, 0x87, 0xAA, 0xE5, 0x8A,
     0xA8, 0xE5, 0x85, 0xA5, 0xE5, 0xBA, 0x93, 0xEF, 0xBC, 0x88] @ ''source=incident'' @ bytes [0xEF, 0xBC, 0x8C,
     0xE6, 0xA3, 0x80, 0xE7, 0xB4, 0xA2, 0xE9, 0x99, 0x8D, 0xE6, 0x9D, 0x83, 0xEF, 0xBC, 0x8C, 0xE6, 0x9C, 0xAA, 0xE7,
     0xBB, 0x8F, 0xE4, 0xBA, 0xBA, 0xE5, 0xB7, 0xA5, 0xE5, 0xAE, 0xA1, 0xE5, 0xAE, 0x9A, 0xEF, 0xBC, 0x89, 0xE3, 0x80,
     0x82, 0x0A, 0x0A] @ ''## '' @ bytes [0xE5, 0x91, 0x8A, 0xE8, 0xAD, 0xA6, 0x0A] @ ''- alertname: ''
     @ al_name a @ newline @ ''- severity: '' @ al_severity a @ newline @ ''- startsAt: '' @ al_starts_at a @ newline
     @ ''- description: '' @ al_description a @ newline @ newline @
     ''## '' @ bytes [0xE8, 0xAF, 0x8A, 0xE6, 0x96, 0xAD] @ newline @ diagnosis @ newline"

fun ingest_loop :: "legacy_env \<Rightarrow> string \<Rightarrow> alert list \<Rightarrow> string list \<Rightarrow> nat \<Rightarrow> rag \<Rightarrow> vector_store \<Rightarrow> nat \<times> rag \<times> vector_store" where
  "ingest_loop env diagnosis [] seen n r s = (n, r, s)"
| "ingest_loop env diagnosis (a # as) seen n r s =
     (if al_name a = [] \<or> al_name a \<in> set seen then ingest_loop env diagnosis as seen n r s
      else case IngestIncident (lg_qdrant env) (lg_embed env) (al_name a @ ''.incident.md'') (incidentMarkdown a diagnosis) r s of
        (Inl _, r1, s1) \<Rightarrow> ingest_loop env diagnosis as (al_name a # seen) n r1 s1
      | (Inr _, r1, s1) \<Rightarrow> ingest_loop env diagnosis as (al_name a # seen) (n + 1) r1 s1)"

definition ingestIncident :: "legacy_env \<Rightarrow> alert list \<Rightarrow> string \<Rightarrow> legacy_handler \<Rightarrow> nat \<times> legacy_handler" where
  "ingestIncident env alerts diagnosis h =
     (case lh_rag h of
        None \<Rightarrow> (0, h)
      | Some r \<Rightarrow>
          if \<not> lh_auto_ingest h then (0, h)
          else (case ingest_loop env diagnosis alerts [] 0 r (lh_store h) of
                  (n, r1, s1) \<Rightarrow> (n, h\<lparr>lh_rag := Some r1, lh_store := s1\<rparr>)))"

fun earliest :: "alert list \<Rightarrow> (time \<times> int) option \<Rightarrow> (time \<times> int) option" where
  "earliest [] best = best"
| "earliest (a # as) best =
     earliest as (case parse_zoned (al_starts_at a) of
                    None \<Rightarrow> best
                  | Some t \<Rightarrow> (case best of None \<Rightarrow> Some t | Some b \<Rightarrow> if fst t < fst b then Some t else best))"

definition deployWindow :: "time \<Rightarrow> alert list \<Rightarrow> string \<times> string" where
  "deployWindow now alerts =
     (case earliest alerts None of
        None \<Rightarrow> (fmt_sec (now - one_day), fmt_sec now)
      | Some (t, off) \<Rightarrow> (fmt_zoned (t - one_day, off), fmt_zoned (t, off)))"

definition judged :: "legacy_env \<Rightarrow> legacy_handler \<Rightarrow> string \<Rightarrow> rag_result list \<Rightarrow> nat \<times> bool" where
  "judged env h diagnosis citations =
     (if jc_api_base (lh_judge h) \<noteq> [] \<and> jc_model (lh_judge h) \<noteq> [] \<and> trim_space (jc_api_key (lh_judge h)) \<noteq> []
      then (case Score (lg_judge env) (lh_judge h) diagnosis citations of
              Inl _ \<Rightarrow> (0, False)
            | Inr (score, _) \<Rightarrow> (score, 0 < lh_threshold h \<and> int score < lh_threshold h))
      else (0, False))"

definition enriched :: "legacy_env \<Rightarrow> legacy_handler \<Rightarrow> alert list \<Rightarrow> deploy_event list option" where
  "enriched env h alerts =
     (if ds_repo (lh_deploy h) = [] then None
      else case deployWindow (lg_now env) alerts of (since, until) \<Rightarrow>
        (case FetchDeployEvents (lg_tools env) (lh_deploy h) since until of Inl _ \<Rightarrow> Some [] | Inr evs \<Rightarrow> Some evs))"

definition planner_of :: "legacy_handler \<Rightarrow> planner" where
  "planner_of h = (case lh_planner h of None \<Rightarrow> NewPlanner None (lh_rag h) | Some p \<Rightarrow> p)"

definition upsert_report :: "disk_env \<Rightarrow> report \<Rightarrow> (report \<Rightarrow> report) \<Rightarrow> report_ring \<Rightarrow> report_ring" where
  "upsert_report dk rep f r = (case ring_update dk (rpt_id rep) f r of (True, r1) \<Rightarrow> r1 | (False, r1) \<Rightarrow> ring_add dk rep r1)"

definition RunAlertDiagnosis :: "legacy_env \<Rightarrow> string \<Rightarrow> alert list \<Rightarrow> legacy_handler \<Rightarrow> report \<times> legacy_handler" where
  "RunAlertDiagnosis env i alerts h =
     (case PlanPushed (lg_plan env) (planner_of h) alerts of (diagnosis, citations) \<Rightarrow>
      case ingestIncident env alerts diagnosis h of (n, h1) \<Rightarrow>
      case judged env h1 diagnosis citations of (score, low) \<Rightarrow>
        let rep = \<lparr> rpt_id = i, rpt_status = ''done'', rpt_received_at = fmt_sec (lg_now env), rpt_alerts = alerts, rpt_diagnosis = diagnosis,
                    rpt_citations = citations, rpt_ingested = n, rpt_score = score, rpt_low_score = low,
                    rpt_deploy_events = enriched env h1 alerts \<rparr>
        in (rep, put_ring (upsert_report (lg_disk env) rep (\<lambda>_. rep) (lh_ring h1)) h1))"

definition failed_report :: "string \<Rightarrow> time \<Rightarrow> string \<Rightarrow> report" where
  "failed_report i now msg =
     \<lparr> rpt_id = i, rpt_status = ''failed'', rpt_received_at = fmt_sec now, rpt_alerts = [], rpt_diagnosis = msg, rpt_citations = [],
       rpt_ingested = 0, rpt_score = 0, rpt_low_score = False, rpt_deploy_events = None \<rparr>"

definition markFailed :: "legacy_env \<Rightarrow> string \<Rightarrow> string \<Rightarrow> legacy_handler \<Rightarrow> report \<times> legacy_handler" where
  "markFailed env i msg h =
     (let rep = failed_report i (lg_now env) msg
      in (rep, put_ring (upsert_report (lg_disk env) rep (\<lambda>r. r\<lparr>rpt_status := ''failed'', rpt_diagnosis := msg\<rparr>) (lh_ring h)) h))"

definition notifies_legacy :: "legacy_handler \<Rightarrow> report \<Rightarrow> bool" where
  "notifies_legacy h rep \<longleftrightarrow> lh_webhook h \<noteq> [] \<and> lh_notifier h \<and> (rpt_low_score rep \<or> rpt_status rep = ''failed'')"

definition maybeNotify :: "legacy_env \<Rightarrow> report \<Rightarrow> legacy_handler \<Rightarrow> legacy_handler" where
  "maybeNotify env rep h =
     (if \<not> notifies_legacy h rep then h
      else case lg_notify env (rpt_id rep) rep of
        None \<Rightarrow> h\<lparr>lh_notices := lh_notices h @ [(rpt_id rep, rep)]\<rparr>
      | Some _ \<Rightarrow> h)"

text \<open>The worker runs \<open>runChain\<close>, which is \<open>RunAlertDiagnosis\<close> in production; the chain may panic with a message.\<close>

type_synonym chain = "legacy_handler \<Rightarrow> (string, report) res \<times> legacy_handler"

definition run_chain :: "legacy_env \<Rightarrow> string \<Rightarrow> alert list \<Rightarrow> chain" where
  "run_chain env i alerts h = (case RunAlertDiagnosis env i alerts h of (rep, h1) \<Rightarrow> (Inr rep, h1))"

definition ProcessAlertDiagnosis_legacy :: "legacy_env \<Rightarrow> chain \<Rightarrow> string \<Rightarrow> legacy_handler \<Rightarrow> unit ws \<times> legacy_handler" where
  "ProcessAlertDiagnosis_legacy env chain i h =
     (let h0 = put_ring (snd (ring_update (lg_disk env) i (\<lambda>r. r\<lparr>rpt_status := ''running''\<rparr>) (lh_ring h))) h in
      case chain h0 of
        (Inr rep, h1) \<Rightarrow> (Inr (), maybeNotify env rep h1)
      | (Inl msg, h1) \<Rightarrow>
          (case markFailed env i msg h1 of (rep, h2) \<Rightarrow> (Inl ErrSkipRetry, maybeNotify env rep h2)))"

definition ProcessNotification_legacy :: "legacy_env \<Rightarrow> string \<Rightarrow> legacy_handler \<Rightarrow> unit ws" where
  "ProcessNotification_legacy env body h =
     (if lh_webhook h = [] then Inl ErrSkipRetry else Post (lg_post env) (lh_webhook h) body)"

section \<open>Documents\<close>

definition bindJSON :: "legacy_env \<Rightarrow> (json option \<Rightarrow> 'a ws) \<Rightarrow> string \<Rightarrow> (nat, 'a) res" where
  "bindJSON env decode body =
     (case decode (lg_decode env (take maxBodyBytes body)) of
        Inr x \<Rightarrow> Inr x
      | Inl _ \<Rightarrow> Inl (if maxBodyBytes < length body \<and> lg_decode env (take maxBodyBytes body) = None then 413 else 400))"

definition Upload_legacy :: "legacy_env \<Rightarrow> string \<Rightarrow> legacy_handler \<Rightarrow> (nat, string \<times> nat) res \<times> legacy_handler" where
  "Upload_legacy env body h =
     (case bindJSON env decode_upload_req body of
        Inl st \<Rightarrow> (Inl st, h)
      | Inr q \<Rightarrow>
          let title = trim_space (uq_title q) in
          if title = [] \<or> trim_space (uq_content q) = [] then (Inl 400, h)
          else case lh_rag h of
            None \<Rightarrow> (Inl 500, h)
          | Some r \<Rightarrow>
              (case AddDocWithContext (lg_qdrant env) (lg_embed env) None title (uq_content q) ''upload'' r (lh_store h) of
                 (Inl _, r1, s1) \<Rightarrow> (Inl 500, h\<lparr>lh_rag := Some r1, lh_store := s1\<rparr>)
               | (Inr _, r1, s1) \<Rightarrow>
                   (case saveTitle title (uq_content q) (h\<lparr>lh_rag := Some r1, lh_store := s1\<rparr>) of
                      (n, h1) \<Rightarrow> (Inr (title, n), h1))))"

definition delete_name :: "legacy_env \<Rightarrow> string \<Rightarrow> string \<Rightarrow> string" where
  "delete_name env query body =
     (let t = trim_space query in
      if t \<noteq> [] then t else (case bindJSON env decode_delete_req body of Inr b \<Rightarrow> trim_space b | Inl _ \<Rightarrow> []))"

definition Delete_legacy :: "legacy_env \<Rightarrow> string \<Rightarrow> string \<Rightarrow> legacy_handler \<Rightarrow> (nat, string \<times> nat) res \<times> legacy_handler" where
  "Delete_legacy env query body h =
     (let title = delete_name env query body in
      if title = [] then (Inl 400, h)
      else if \<not> hasTitle title h then (Inl 404, h)
      else case lh_rag h of
        None \<Rightarrow> (Inl 500, h)
      | Some r \<Rightarrow>
          (case DeleteDoc (lg_qdrant env) title r (lh_store h) of
             (Inl _, r1, s1) \<Rightarrow> (Inl 500, h\<lparr>lh_rag := Some r1, lh_store := s1\<rparr>)
           | (Inr _, r1, s1) \<Rightarrow>
               (case removeTitle title (h\<lparr>lh_rag := Some r1, lh_store := s1\<rparr>) of
                  ((n, _), h1) \<Rightarrow> (Inr (title, n), h1))))"

text \<open>The entries of the demo directory: a name, whether it is a directory, and the content or the error of reading it.\<close>

type_synonym dir_entry = "string \<times> bool \<times> string ws"

definition heading_title :: "string \<Rightarrow> string option" where
  "heading_title line =
     (let l = trim_space line; t = trim_space (if has_prefix l ''# '' then drop 2 l else l) in
      if has_prefix l ''# '' \<and> t \<noteq> [] then Some t else None)"

definition demo_title :: "string \<Rightarrow> string \<Rightarrow> string" where
  "demo_title name content =
     (case find (\<lambda>t. t \<noteq> None) (map heading_title (split_at_char (CHR 0x0A) content)) of
        Some (Some t) \<Rightarrow> t
      | _ \<Rightarrow> take (length name - 3) name)"

fun demo_loop :: "legacy_env \<Rightarrow> dir_entry list \<Rightarrow> (string \<times> string) list \<Rightarrow> rag \<Rightarrow> vector_store \<Rightarrow>
    (string \<times> string) list ws \<times> rag \<times> vector_store" where
  "demo_loop env [] loaded r s = (Inr loaded, r, s)"
| "demo_loop env ((name, is_dir, file) # es) loaded r s =
     (if is_dir \<or> \<not> has_suffix name ''.md'' then demo_loop env es loaded r s
      else case file of
        Inl e \<Rightarrow> (Inl e, r, s)
      | Inr content \<Rightarrow>
          let title = demo_title name content in
          (case AddDocWithContext (lg_qdrant env) (lg_embed env) None title content ''demo'' r s of
             (Inl e, r1, s1) \<Rightarrow> (Inl e, r1, s1)
           | (Inr _, r1, s1) \<Rightarrow> demo_loop env es (AList.update title content loaded) r1 s1))"

definition loadDemo :: "legacy_env \<Rightarrow> dir_entry list ws \<Rightarrow> legacy_handler \<Rightarrow> nat ws \<times> legacy_handler" where
  "loadDemo env dir h =
     (case lh_rag h of
        None \<Rightarrow> (Inl (ErrMsg ''nil''), h)
      | Some r \<Rightarrow>
          (case DeleteSource (lg_qdrant env) ''demo'' r (lh_store h) of
             (Inl e, r1, s1) \<Rightarrow> (Inl e, h\<lparr>lh_rag := Some r1, lh_store := s1\<rparr>)
           | (Inr _, r1, s1) \<Rightarrow>
               (case dir of
                  Inl e \<Rightarrow> (Inl e, h\<lparr>lh_rag := Some r1, lh_store := s1\<rparr>)
                | Inr es \<Rightarrow>
                    (case demo_loop env es [] r1 s1 of
                       (Inl e, r2, s2) \<Rightarrow> (Inl e, h\<lparr>lh_rag := Some r2, lh_store := s2\<rparr>)
                     | (Inr loaded, r2, s2) \<Rightarrow>
                         (case resetTitles loaded (h\<lparr>lh_rag := Some r2, lh_store := s2\<rparr>) of (n, h1) \<Rightarrow> (Inr n, h1))))))"

definition Plan_legacy :: "legacy_env \<Rightarrow> legacy_handler \<Rightarrow> alert list \<times> string \<times> rag_result list" where
  "Plan_legacy env h = PlanWithContext (lg_plan env) (planner_of h)"

section \<open>Properties of the ring\<close>

lemma persistLocked_simps [simp]: "rr_items (persistLocked dk r) = rr_items r" "rr_path (persistLocked dk r) = rr_path r"
  by (simp_all add: persistLocked_def Let_def split: option.splits)

lemma length_newest: "length (newest xs) \<le> reportRingCap"
  by (simp add: newest_def)

lemma newest_short: "length xs \<le> reportRingCap \<Longrightarrow> newest xs = xs"
  by (simp add: newest_def)

lemma last_newest: "xs \<noteq> [] \<Longrightarrow> newest xs \<noteq> [] \<and> last (newest xs) = last xs"
  by (auto simp: newest_def reportRingCap_def last_drop)

lemma update_first_Some:
  assumes "update_first i f xs = Some ys"
  shows "length ys = length xs \<and> (\<exists>as x bs. xs = as @ x # bs \<and> ys = as @ f x # bs \<and> rpt_id x = i \<and> i \<notin> rpt_id ` set as)"
  using assms
proof (induction xs arbitrary: ys)
  case (Cons x xs)
  show ?case
  proof (cases "rpt_id x = i")
    case True
    with Cons.prems show ?thesis by (intro conjI exI [of _ "[]"] exI [of _ x] exI [of _ xs]) auto
  next
    case False
    with Cons.prems obtain zs where z: "update_first i f xs = Some zs" "ys = x # zs" by auto
    from Cons.IH [OF z(1)] obtain as y bs where "length zs = length xs" "xs = as @ y # bs" "zs = as @ f y # bs" "rpt_id y = i" "i \<notin> rpt_id ` set as"
      by blast
    with z False show ?thesis by (intro conjI exI [of _ "x # as"] exI [of _ y] exI [of _ bs]) auto
  qed
qed simp

lemma update_first_None: "update_first i f xs = None \<longleftrightarrow> i \<notin> rpt_id ` set xs"
  by (induction xs) auto

lemma find_None_image: "i \<notin> rpt_id ` set xs \<Longrightarrow> find (\<lambda>x. rpt_id x = i) xs = None"
  by (induction xs) auto

lemma ring_update_length: "length (rr_items (snd (ring_update dk i f r))) = length (rr_items r)"
  by (auto simp: ring_update_def dest: update_first_Some split: option.splits)

lemma ring_add_length: "length (rr_items (ring_add dk rep r)) \<le> reportRingCap"
  by (simp add: ring_add_def length_newest)

text \<open>The report of an identifier: the one that an update would find.\<close>

definition report_of :: "string \<Rightarrow> report_ring \<Rightarrow> report option" where
  "report_of i r = find (\<lambda>x. rpt_id x = i) (rr_items r)"

lemma report_of_update:
  assumes "ring_update dk i f r = (True, r')" and "\<And>x. rpt_id (f x) = rpt_id x"
  shows "\<exists>x. report_of i r = Some x \<and> report_of i r' = Some (f x)"
proof -
  from assms(1) obtain xs where u: "update_first i f (rr_items r) = Some xs" and r': "rr_items r' = xs"
    by (auto simp: ring_update_def split: option.splits)
  from update_first_Some [OF u] obtain as x bs where s: "rr_items r = as @ x # bs" "xs = as @ f x # bs" "rpt_id x = i" "i \<notin> rpt_id ` set as"
    by blast
  then have "find (\<lambda>x. rpt_id x = i) as = None" by (intro find_None_image) simp
  with s r' assms(2) show ?thesis by (auto simp: report_of_def find_append)
qed

lemma report_of_upsert:
  assumes "length (rr_items r) \<le> reportRingCap" and "\<And>x. rpt_id x = rpt_id rep \<Longrightarrow> rpt_id (f x) = rpt_id rep"
  shows "(\<exists>x. rpt_id x = rpt_id rep \<and> report_of (rpt_id rep) (upsert_report dk rep f r) = Some (f x))
    \<or> report_of (rpt_id rep) (upsert_report dk rep f r) = Some rep"
proof (cases "update_first (rpt_id rep) f (rr_items r)")
  case None
  then have u: "upsert_report dk rep f r = ring_add dk rep r" by (simp add: upsert_report_def ring_update_def)
  have no: "find (\<lambda>x. rpt_id x = rpt_id rep) (rr_items r) = None" using None by (intro find_None_image) (simp add: update_first_None)
  have "\<exists>ys. newest (rr_items r @ [rep]) = ys @ [rep] \<and> set ys \<subseteq> set (rr_items r)"
    using assms(1) by (auto simp: newest_def reportRingCap_def dest: in_set_dropD)
  then obtain ys where ys: "newest (rr_items r @ [rep]) = ys @ [rep]" "set ys \<subseteq> set (rr_items r)" by blast
  then have "find (\<lambda>x. rpt_id x = rpt_id rep) ys = None" using no by (auto simp: find_None_iff)
  then have "report_of (rpt_id rep) (ring_add dk rep r) = Some rep" by (simp add: report_of_def ring_add_def ys find_append)
  then show ?thesis by (simp add: u)
next
  case (Some xs)
  from update_first_Some [OF Some] obtain as x bs where s: "rr_items r = as @ x # bs" "xs = as @ f x # bs" "rpt_id x = rpt_id rep"
    "rpt_id rep \<notin> rpt_id ` set as" by blast
  then have "find (\<lambda>x. rpt_id x = rpt_id rep) as = None" by (intro find_None_image) simp
  moreover have "rr_items (upsert_report dk rep f r) = xs" using Some by (simp add: upsert_report_def ring_update_def)
  ultimately have "report_of (rpt_id rep) (upsert_report dk rep f r) = Some (f x)"
    using s assms(2) [OF s(3)] by (simp add: report_of_def find_append)
  with s(3) show ?thesis by blast
qed


definition ex_disk :: disk_env where
  "ex_disk = \<lparr> dk_marshal = (\<lambda>xs. if xs = [] then Some ''[]'' else None), dk_unmarshal = (\<lambda>s. if s = ''[]'' then Some [] else None),
     dk_mkdir = True, dk_write = True, dk_rename = True, dk_read = True \<rparr>"

definition ex_ring :: report_ring where
  "ex_ring = \<lparr> rr_items = [], rr_path = ''r.json'', rr_disk = [] \<rparr>"


section \<open>Properties of the worker\<close>

lemma put_ring_simps [simp]: "lh_ring (put_ring r h) = r" "lh_notices (put_ring r h) = lh_notices h" "lh_webhook (put_ring r h) = lh_webhook h"
  "lh_notifier (put_ring r h) = lh_notifier h" "lh_titles (put_ring r h) = lh_titles h" "lh_sources (put_ring r h) = lh_sources h"
  "lh_diagnoses (put_ring r h) = lh_diagnoses h"
  by (simp_all add: put_ring_def)

lemma ingestIncident_frame:
  assumes "ingestIncident env alerts d h = (n, h1)"
  obtains r s where "h1 = h\<lparr>lh_rag := r, lh_store := s\<rparr>"
proof (cases "lh_rag h = None \<or> \<not> lh_auto_ingest h")
  case True
  then have "h1 = h\<lparr>lh_rag := lh_rag h, lh_store := lh_store h\<rparr>" using assms by (auto simp: ingestIncident_def split: option.splits)
  then show thesis by (rule that)
next
  case False
  then obtain r where r: "lh_rag h = Some r" "lh_auto_ingest h" by auto
  obtain m r1 s1 where "ingest_loop env d alerts [] 0 r (lh_store h) = (m, r1, s1)" by (metis surj_pair)
  with r assms have "h1 = h\<lparr>lh_rag := Some r1, lh_store := s1\<rparr>" by (simp add: ingestIncident_def)
  then show thesis by (rule that)
qed

lemma RunAlertDiagnosis_frame:
  assumes "RunAlertDiagnosis env i alerts h = (rep, h1)"
  shows "rpt_id rep = i \<and> rpt_status rep = ''done'' \<and> rpt_alerts rep = alerts
    \<and> (\<exists>r s. h1 = put_ring (upsert_report (lg_disk env) rep (\<lambda>_. rep) (lh_ring h)) (h\<lparr>lh_rag := r, lh_store := s\<rparr>))"
proof -
  obtain d cs where p: "PlanPushed (lg_plan env) (planner_of h) alerts = (d, cs)" by fastforce
  obtain n h2 where i: "ingestIncident env alerts d h = (n, h2)" by fastforce
  obtain sc low where j: "judged env h2 d cs = (sc, low)" by fastforce
  from i obtain r s where h2: "h2 = h\<lparr>lh_rag := r, lh_store := s\<rparr>" by (rule ingestIncident_frame)
  define x where "x = \<lparr> rpt_id = i, rpt_status = ''done'', rpt_received_at = fmt_sec (lg_now env), rpt_alerts = alerts, rpt_diagnosis = d,
      rpt_citations = cs, rpt_ingested = n, rpt_score = sc, rpt_low_score = low, rpt_deploy_events = enriched env h2 alerts \<rparr>"
  have "RunAlertDiagnosis env i alerts h = (x, put_ring (upsert_report (lg_disk env) x (\<lambda>_. x) (lh_ring h2)) h2)"
    by (simp add: RunAlertDiagnosis_def p i j x_def Let_def)
  with assms have rep: "rep = x" and h1: "h1 = put_ring (upsert_report (lg_disk env) x (\<lambda>_. x) (lh_ring h2)) h2" by auto
  have "lh_ring h2 = lh_ring h" by (simp add: h2)
  then have "h1 = put_ring (upsert_report (lg_disk env) rep (\<lambda>_. rep) (lh_ring h)) (h\<lparr>lh_rag := r, lh_store := s\<rparr>)"
    unfolding h1 rep by (simp add: h2)
  moreover have "rpt_id rep = i \<and> rpt_status rep = ''done'' \<and> rpt_alerts rep = alerts" by (simp add: rep x_def)
  ultimately show ?thesis by blast
qed

lemma upsert_length: "length (rr_items r) \<le> reportRingCap \<Longrightarrow> length (rr_items (upsert_report dk rep f r)) \<le> reportRingCap"
  using ring_update_length [of dk "rpt_id rep" f r] ring_add_length [of dk rep]
  by (auto simp: upsert_report_def split: prod.splits bool.splits)

text \<open>What a chain may do: it is the production chain, or it panics with a message after any work on the knowledge base.\<close>

definition worker_chain :: "legacy_env \<Rightarrow> string \<Rightarrow> alert list \<Rightarrow> chain \<Rightarrow> bool" where
  "worker_chain env i alerts chain \<longleftrightarrow>
     chain = run_chain env i alerts \<or> (\<exists>msg r s. chain = (\<lambda>h. (Inl msg, h\<lparr>lh_rag := r, lh_store := s\<rparr>)))"

lemma maybeNotify_frame:
  "lh_ring (maybeNotify env rep h) = lh_ring h" "lh_titles (maybeNotify env rep h) = lh_titles h" "lh_sources (maybeNotify env rep h) = lh_sources h"
  "lh_notices (maybeNotify env rep h) = lh_notices h @ (if notifies_legacy h rep \<and> lg_notify env (rpt_id rep) rep = None then [(rpt_id rep, rep)] else [])"
  by (auto simp: maybeNotify_def split: option.splits)

text \<open>C27. A report never stays unfinished. Whatever the chain does, panics included, after the worker has handled a task the
  report of its identifier is in the ring with status \<open>done\<close> or \<open>failed\<close>, a panic is reported as an error that is not retried, the
  ring stays within its capacity, and a notification with the identifier, status and text of the report is queued exactly when
  notifications are configured, the report failed or scored low, and the queue accepts it.\<close>

theorem ProcessAlertDiagnosis_legacy_final:
  assumes "ProcessAlertDiagnosis_legacy env chain i h = (res, h')" and "worker_chain env i alerts chain"
    and "length (rr_items (lh_ring h)) \<le> reportRingCap"
  shows "\<exists>rep n. report_of i (lh_ring h') = Some rep \<and> length (rr_items (lh_ring h')) \<le> reportRingCap
    \<and> (res = Inr () \<and> rpt_status rep = ''done'' \<or> res = Inl ErrSkipRetry \<and> rpt_status rep = ''failed'')
    \<and> rpt_id n = i \<and> rpt_status n = rpt_status rep \<and> rpt_diagnosis n = rpt_diagnosis rep
    \<and> lh_notices h' = lh_notices h @
        (if lh_webhook h \<noteq> [] \<and> lh_notifier h \<and> (rpt_low_score n \<or> rpt_status rep = ''failed'') \<and> lg_notify env i n = None then [(i, n)] else [])"
proof -
  define r0 where "r0 = snd (ring_update (lg_disk env) i (\<lambda>r. r\<lparr>rpt_status := ''running''\<rparr>) (lh_ring h))"
  define h0 where "h0 = put_ring r0 h"
  have len0: "length (rr_items r0) \<le> reportRingCap" using assms(3) by (simp add: r0_def ring_update_length)
  have proc: "(case chain h0 of
        (Inr rep, h1) \<Rightarrow> (Inr (), maybeNotify env rep h1)
      | (Inl msg, h1) \<Rightarrow> (case markFailed env i msg h1 of (rep, h2) \<Rightarrow> (Inl ErrSkipRetry, maybeNotify env rep h2))) = (res, h')"
    using assms(1) by (simp add: ProcessAlertDiagnosis_legacy_def r0_def [symmetric] h0_def [symmetric] Let_def)
  from assms(2) consider "chain = run_chain env i alerts" | msg r s where "chain = (\<lambda>h. (Inl msg, h\<lparr>lh_rag := r, lh_store := s\<rparr>))"
    unfolding worker_chain_def by blast
  then show ?thesis
  proof cases
    case 1
    obtain rep h1 where run: "RunAlertDiagnosis env i alerts h0 = (rep, h1)" by fastforce
    from RunAlertDiagnosis_frame [OF run] obtain r s where rep: "rpt_id rep = i" "rpt_status rep = ''done''"
      and h1: "h1 = put_ring (upsert_report (lg_disk env) rep (\<lambda>_. rep) r0) (h0\<lparr>lh_rag := r, lh_store := s\<rparr>)" by (auto simp: h0_def)
    have fin: "res = Inr ()" "h' = maybeNotify env rep h1" using proc 1 run by (simp_all add: run_chain_def)
    have "report_of i (lh_ring h') = Some rep"
      using report_of_upsert [of r0 rep "\<lambda>_. rep" "lg_disk env"] len0 rep by (auto simp: fin(2) maybeNotify_frame h1)
    moreover have "length (rr_items (lh_ring h')) \<le> reportRingCap" using len0 by (simp add: fin(2) maybeNotify_frame h1 upsert_length)
    moreover have "lh_notices h' = lh_notices h @
        (if lh_webhook h \<noteq> [] \<and> lh_notifier h \<and> (rpt_low_score rep \<or> rpt_status rep = ''failed'') \<and> lg_notify env i rep = None then [(i, rep)] else [])"
      by (simp add: fin(2) maybeNotify_frame h1 h0_def notifies_legacy_def rep)
    ultimately show ?thesis using rep fin(1) by (intro exI [of _ rep] exI [of _ rep]) auto
  next
    case 2
    define n where "n = failed_report i (lg_now env) msg"
    define f where "f = (\<lambda>x :: report. x\<lparr>rpt_status := ''failed'', rpt_diagnosis := msg\<rparr>)"
    define h1 where "h1 = put_ring (upsert_report (lg_disk env) n f r0) (h0\<lparr>lh_rag := r, lh_store := s\<rparr>)"
    have n: "rpt_id n = i" "rpt_status n = ''failed''" "rpt_diagnosis n = msg" by (simp_all add: n_def failed_report_def)
    have fin: "res = Inl ErrSkipRetry" "h' = maybeNotify env n h1"
      using proc 2 by (simp_all add: markFailed_def n_def [symmetric] f_def [symmetric] h1_def h0_def Let_def)
    have "(\<exists>x. rpt_id x = rpt_id n \<and> report_of (rpt_id n) (upsert_report (lg_disk env) n f r0) = Some (f x))
        \<or> report_of (rpt_id n) (upsert_report (lg_disk env) n f r0) = Some n"
      by (rule report_of_upsert [OF len0]) (simp add: f_def)
    then obtain rep where rep: "report_of i (lh_ring h') = Some rep" "rpt_status rep = ''failed''" "rpt_diagnosis rep = msg"
      by (auto simp: fin(2) maybeNotify_frame h1_def n f_def)
    have "length (rr_items (lh_ring h')) \<le> reportRingCap" using len0 by (simp add: fin(2) maybeNotify_frame h1_def upsert_length)
    moreover have "lh_notices h' = lh_notices h @ (if lh_webhook h \<noteq> [] \<and> lh_notifier h \<and> lg_notify env i n = None then [(i, n)] else [])"
      by (simp add: fin(2) maybeNotify_frame h1_def h0_def notifies_legacy_def n)
    ultimately show ?thesis using rep n fin(1) by (intro exI [of _ rep] exI [of _ n]) auto
  qed
qed

definition ex_down :: alert where
  "ex_down = \<lparr> al_name = ''down'', al_severity = [], al_description = [], al_labels = None, al_starts_at = [] \<rparr>"

definition ex_handler :: legacy_handler where
  "ex_handler = (New_legacy NewMemoryVector None)\<lparr>lh_webhook := ''u'', lh_notifier := True,
     lh_ring := \<lparr> rr_items = [queued_report ''i'' 0 [ex_down]], rr_path = [], rr_disk = [] \<rparr>\<rparr>"

definition ex_panic :: chain where
  "ex_panic = (\<lambda>h. (Inl ''boom'', h\<lparr>lh_rag := None, lh_store := NewMemoryVector\<rparr>))"

definition ex_legacy :: legacy_env where
  "ex_legacy = \<lparr> lg_disk = ex_disk, lg_qdrant = ex_qdrant, lg_embed = (\<lambda>_. Inr [1]), lg_plan = ex_plan_env, lg_tools = Tools.ex_env, lg_judge = ex_judge,
     lg_now = 0, lg_id = ''i'', lg_parse = (\<lambda>_. None), lg_decode = (\<lambda>_. None), lg_enqueue = (\<lambda>_ _. None), lg_notify = (\<lambda>_ _. None),
     lg_post = (\<lambda>_ _. Reply 200 []) \<rparr>"

theorem ProcessAlertDiagnosis_legacy_final_witness:
  "\<exists>rep n h'. ProcessAlertDiagnosis_legacy ex_legacy ex_panic ''i'' ex_handler = (Inl ErrSkipRetry, h')
     \<and> report_of ''i'' (lh_ring h') = Some rep \<and> rpt_status rep = ''failed'' \<and> lh_notices h' = [(''i'', n)]"
proof -
  obtain res h' where p: "ProcessAlertDiagnosis_legacy ex_legacy ex_panic ''i'' ex_handler = (res, h')" by fastforce
  have c: "worker_chain ex_legacy ''i'' [] ex_panic" unfolding worker_chain_def ex_panic_def by blast
  have l: "length (rr_items (lh_ring ex_handler)) \<le> reportRingCap" by (simp add: ex_handler_def reportRingCap_def)
  have res: "res = Inl ErrSkipRetry" using p by (auto simp: ProcessAlertDiagnosis_legacy_def ex_panic_def Let_def split: prod.splits)
  have "lh_webhook ex_handler \<noteq> []" "lh_notifier ex_handler" "lh_notices ex_handler = []" "lg_notify ex_legacy i n = None" for i n
    by (simp_all add: ex_handler_def New_legacy_def ex_legacy_def)
  with ProcessAlertDiagnosis_legacy_final [OF p c l] res p show ?thesis by auto
qed

text \<open>The notification of a panic is not the report that is listed: it carries no alerts, while the report in the ring still has
  those it was queued with.\<close>

lemma panic_notice_without_alerts:
  assumes "lg_notify env ''i'' (failed_report ''i'' (lg_now env) ''boom'') = None"
  shows "\<exists>h' rep n. ProcessAlertDiagnosis_legacy env ex_panic ''i'' ex_handler = (Inl ErrSkipRetry, h')
    \<and> report_of ''i'' (lh_ring h') = Some rep \<and> rpt_alerts rep = [ex_down] \<and> lh_notices h' = [(''i'', n)] \<and> rpt_alerts n = []"
  using assms
  by (simp add: ProcessAlertDiagnosis_legacy_def ex_panic_def ex_handler_def New_legacy_def ring_update_def markFailed_def upsert_report_def
      maybeNotify_def notifies_legacy_def failed_report_def queued_report_def report_of_def put_ring_def persistLocked_def Let_def)

section \<open>Properties of the surface\<close>

inductive legacy_step :: "legacy_handler \<Rightarrow> legacy_handler \<Rightarrow> bool" where
  alert: "Alert_legacy env body h = (a, h') \<Longrightarrow> legacy_step h h'"
| work: "worker_chain env i alerts chain \<Longrightarrow> ProcessAlertDiagnosis_legacy env chain i h = (e, h') \<Longrightarrow> legacy_step h h'"
| upload: "Upload_legacy env body h = (u, h') \<Longrightarrow> legacy_step h h'"
| delete: "Delete_legacy env query body h = (u, h') \<Longrightarrow> legacy_step h h'"
| reindex: "loadDemo env dir h = (m, h') \<Longrightarrow> legacy_step h h'"
| load: "LoadPersist dk (lh_ring h) = (l, r) \<Longrightarrow> legacy_step h (put_ring r h)"

definition notice_ok :: "string \<times> report \<Rightarrow> bool" where
  "notice_ok = (\<lambda>(i, n). rpt_id n = i \<and> (rpt_low_score n \<or> rpt_status n = ''failed''))"

definition legacy_ok :: "legacy_handler \<Rightarrow> bool" where
  "legacy_ok h \<longleftrightarrow> length (rr_items (lh_ring h)) \<le> reportRingCap \<and> distinct (map fst (lh_titles h))
     \<and> fst ` set (lh_titles h) \<subseteq> fst ` set (lh_sources h) \<and> list_all notice_ok (lh_notices h)"

lemma legacy_ok_knowledge [simp]: "legacy_ok (h\<lparr>lh_rag := r, lh_store := s\<rparr>) \<longleftrightarrow> legacy_ok h"
  by (simp add: legacy_ok_def)

lemma legacy_ok_log [simp]: "legacy_ok (h\<lparr>lh_diagnoses := ts\<rparr>) \<longleftrightarrow> legacy_ok h"
  by (simp add: legacy_ok_def)

lemma keys_update: "fst ` set (AList.update k v xs) = insert k (fst ` set xs)"
  using update_keys [of k v xs] by (auto simp flip: set_map)

lemma keys_delete: "fst ` set (AList.delete k xs) = fst ` set xs - {k}"
  using delete_keys [of k xs] by (auto simp flip: set_map)

lemma keys_fold_update: "fst ` set (fold (\<lambda>(t, c). AList.update t (g t c)) m xs) = fst ` set m \<union> fst ` set xs"
proof (induction m arbitrary: xs)
  case (Cons x m)
  obtain t c where "x = (t, c)" by fastforce
  with Cons [of "AList.update t (g t c) xs"] show ?case by (simp add: keys_update)
qed simp

lemma legacy_ok_ring: "legacy_ok h \<Longrightarrow> length (rr_items r) \<le> reportRingCap \<Longrightarrow> legacy_ok (put_ring r h)"
  by (simp add: legacy_ok_def)

lemma legacy_ok_notify: "legacy_ok h \<Longrightarrow> legacy_ok (maybeNotify env rep h)"
  by (simp add: legacy_ok_def maybeNotify_frame notice_ok_def notifies_legacy_def)

lemma legacy_ok_alert: "Alert_legacy env body h = (a, h') \<Longrightarrow> legacy_ok h \<Longrightarrow> legacy_ok h'"
  by (auto simp: Alert_legacy_def Let_def ring_add_length ring_update_length split: if_splits option.splits intro!: legacy_ok_ring)

lemma legacy_ok_work:
  assumes "worker_chain env i alerts chain" and "ProcessAlertDiagnosis_legacy env chain i h = (e, h')" and "legacy_ok h"
  shows "legacy_ok h'"
proof -
  define h0 where "h0 = put_ring (snd (ring_update (lg_disk env) i (\<lambda>r. r\<lparr>rpt_status := ''running''\<rparr>) (lh_ring h))) h"
  have ok0: "legacy_ok h0" using assms(3) by (auto simp: h0_def legacy_ok_def ring_update_length)
  have up: "legacy_ok (put_ring (upsert_report dk rep f (lh_ring g)) (g\<lparr>lh_rag := r, lh_store := s\<rparr>))" if "legacy_ok g" for g dk rep f r s
    using that by (intro legacy_ok_ring) (auto simp: legacy_ok_def upsert_length)
  have up': "legacy_ok (put_ring (upsert_report dk rep f (lh_ring g)) g)" if "legacy_ok g" for g dk rep f
    using that by (intro legacy_ok_ring) (auto simp: legacy_ok_def upsert_length)
  from assms(1) consider "chain = run_chain env i alerts" | msg r s where "chain = (\<lambda>h. (Inl msg, h\<lparr>lh_rag := r, lh_store := s\<rparr>))"
    unfolding worker_chain_def by blast
  then show ?thesis
  proof cases
    case 1
    obtain rep h1 where run: "RunAlertDiagnosis env i alerts h0 = (rep, h1)" by fastforce
    then have "legacy_ok h1" using RunAlertDiagnosis_frame [OF run] up [OF ok0] by auto
    moreover have "h' = maybeNotify env rep h1"
      using assms(2) 1 run by (simp add: ProcessAlertDiagnosis_legacy_def h0_def [symmetric] run_chain_def Let_def)
    ultimately show ?thesis by (simp add: legacy_ok_notify)
  next
    case 2
    obtain rep h2 where m: "markFailed env i msg (h0\<lparr>lh_rag := r, lh_store := s\<rparr>) = (rep, h2)" by fastforce
    then have "legacy_ok h2" using up' [of "h0\<lparr>lh_rag := r, lh_store := s\<rparr>"] ok0 by (auto simp: markFailed_def Let_def)
    moreover have "h' = maybeNotify env rep h2"
      using assms(2) 2 m by (simp add: ProcessAlertDiagnosis_legacy_def h0_def [symmetric] Let_def)
    ultimately show ?thesis by (simp add: legacy_ok_notify)
  qed
qed

lemma legacy_ok_titles:
  assumes "legacy_ok h" and "distinct (map fst ts)" and "fst ` set ts \<subseteq> fst ` set ss"
  shows "legacy_ok (h\<lparr>lh_titles := ts, lh_sources := ss\<rparr>)"
  using assms by (simp add: legacy_ok_def)

lemma legacy_ok_upload: "Upload_legacy env body h = (u, h') \<Longrightarrow> legacy_ok h \<Longrightarrow> legacy_ok h'"
  by (auto simp: Upload_legacy_def saveTitle_def Let_def split: sum.splits if_splits option.splits prod.splits)
    (auto simp: legacy_ok_def distinct_update keys_update)

lemma legacy_ok_delete:
  assumes "Delete_legacy env query body h = (u, h')" and "legacy_ok h"
  shows "legacy_ok h'"
proof -
  have "legacy_ok (h\<lparr>lh_rag := r, lh_store := s, lh_titles := AList.delete t (lh_titles h), lh_sources := AList.delete t (lh_sources h)\<rparr>)" for r s t
    using assms(2) by (auto simp: legacy_ok_def distinct_delete keys_delete)
  with assms show ?thesis
    by (auto simp: Delete_legacy_def removeTitle_def Let_def split: sum.splits if_splits option.splits prod.splits)
qed

lemma distinct_fold_update: "distinct (map fst xs) \<Longrightarrow> distinct (map fst (fold (\<lambda>(t, c). AList.update t (g t c)) m xs))"
  by (induction m arbitrary: xs) (auto simp: distinct_update)

lemma legacy_ok_reset:
  assumes "legacy_ok h"
  shows "legacy_ok (snd (resetTitles m h))"
proof -
  define kept where "kept = filter (\<lambda>(t, _). map_of (lh_sources h) t \<noteq> Some ''demo'') (lh_titles h)"
  have k: "distinct (map fst kept)" "fst ` set kept \<subseteq> fst ` set (lh_sources h)"
    using assms by (auto simp: kept_def legacy_ok_def distinct_map_filter)
  define ts where "ts = fold (\<lambda>(t, c). AList.update t c) m kept"
  define ss where "ss = fold (\<lambda>(t, _). AList.update t ''demo'') m (lh_sources h)"
  have "distinct (map fst ts)" using distinct_fold_update [OF k(1), of "\<lambda>t c. c" m] by (simp add: ts_def)
  moreover have "fst ` set ts \<subseteq> fst ` set ss"
    using keys_fold_update [of "\<lambda>t c. c" m kept] keys_fold_update [of "\<lambda>t c. ''demo''" m "lh_sources h"] k(2) by (auto simp: ts_def ss_def)
  ultimately show ?thesis
    using assms legacy_ok_titles by (simp add: resetTitles_def kept_def [symmetric] ts_def [symmetric] ss_def [symmetric] Let_def)
qed

lemma legacy_ok_reindex:
  assumes "loadDemo env dir h = (n, h')" and "legacy_ok h"
  shows "legacy_ok h'"
proof -
  have "legacy_ok h1" if "resetTitles m (h\<lparr>lh_rag := r, lh_store := s\<rparr>) = (k, h1)" for m r s k h1
    using legacy_ok_reset [of "h\<lparr>lh_rag := r, lh_store := s\<rparr>" m] assms(2) that by simp
  with assms show ?thesis by (auto simp: loadDemo_def split: option.splits prod.splits sum.splits)
qed

lemma legacy_ok_step: "legacy_step h h' \<Longrightarrow> legacy_ok h \<Longrightarrow> legacy_ok h'"
proof (induction rule: legacy_step.induct)
  case (load dk h l r)
  then have "length (rr_items r) \<le> reportRingCap"
    using length_newest by (auto simp: LoadPersist_def legacy_ok_def split: if_splits option.splits)
  with load show ?case by (intro legacy_ok_ring) auto
qed (auto intro: legacy_ok_alert legacy_ok_work legacy_ok_upload legacy_ok_delete legacy_ok_reindex)

definition legacy_start :: "legacy_handler \<Rightarrow> bool" where
  "legacy_start h \<longleftrightarrow> rr_items (lh_ring h) = [] \<and> lh_titles h = [] \<and> lh_notices h = []"

definition notices_grow :: "legacy_handler \<Rightarrow> legacy_handler \<Rightarrow> bool" where
  "notices_grow h h' \<longleftrightarrow> (\<exists>ns. lh_notices h' = lh_notices h @ ns)"

lemma step_notices: "legacy_step h h' \<Longrightarrow> notices_grow h h'"
  unfolding notices_grow_def
proof (induction rule: legacy_step.induct)
  case (work env i alerts chain h e h')
  have "\<exists>ns. lh_notices h1 = lh_notices g @ ns"
    if "(r, h1) = (case RunAlertDiagnosis env i alerts g of (rep, h1) \<Rightarrow> (Inr rep, h1))" for r h1 g
    using that by (auto split: prod.splits dest!: RunAlertDiagnosis_frame)
  with work show ?case
    by (auto simp: worker_chain_def ProcessAlertDiagnosis_legacy_def run_chain_def markFailed_def Let_def maybeNotify_frame
        split: prod.splits sum.splits dest!: RunAlertDiagnosis_frame)
qed (auto simp: Alert_legacy_def Upload_legacy_def Delete_legacy_def loadDemo_def saveTitle_def removeTitle_def resetTitles_def Let_def
    split: if_splits option.splits sum.splits prod.splits)

interpretation lg: transition_system legacy_step legacy_start legacy_ok notices_grow
proof
  show "legacy_ok h" if "legacy_start h" for h using that by (simp add: legacy_start_def legacy_ok_def)
  show "legacy_ok h'" if "legacy_ok h" "legacy_step h h'" for h h' using that legacy_ok_step by blast
  show "notices_grow h h'" if "legacy_ok h" "legacy_step h h'" for h h' using that step_notices by blast
qed (auto simp: notices_grow_def)

text \<open>The earlier surface keeps its state bounded and quiet. Whatever requests, worker runs and panics follow each other, the
  ring has at most 20 reports, a title is listed once and has a source, and every notification that was queued is about a
  report that failed or scored low.\<close>

theorem legacy_bounded:
  assumes "legacy_start h" and "legacy_step\<^sup>*\<^sup>* h h'"
  shows "length (rr_items (lh_ring h')) \<le> 20 \<and> distinct (map fst (lh_titles h')) \<and> fst ` set (lh_titles h') \<subseteq> fst ` set (lh_sources h')
    \<and> list_all notice_ok (lh_notices h')"
  using lg.reachable_inv [OF assms] by (simp add: legacy_ok_def reportRingCap_def)

theorem legacy_bounded_witness:
  "legacy_start (New_legacy NewMemoryVector None) \<and> length (rr_items (lh_ring (snd (Alert_legacy ex_legacy ''x'' (New_legacy NewMemoryVector None))))) \<le> 20"
proof -
  let ?h = "New_legacy NewMemoryVector None"
  have s: "legacy_start ?h" by (simp add: legacy_start_def New_legacy_def)
  have "legacy_step ?h (snd (Alert_legacy ex_legacy ''x'' ?h))" by (rule legacy_step.alert [OF prod.collapse [symmetric]])
  from legacy_bounded [OF s r_into_rtranclp, OF this] s show ?thesis by simp
qed

end
