(* ===== verification/Queue.thy ===== *)
theory Queue
  imports Legacy
begin

unbundle bit_operations_syntax

text \<open>
  The task queue (\<open>src/internal/queue/queue.go\<close>): payloads, task identities, the two handlers of the worker and the two
  consumers that call them.

  The queue itself is the asynq library on Redis: \<open>put\<close> is the outcome of enqueueing a task. \<open>marshal\<close> and \<open>parse\<close> are the JSON
  writer and reader of the standard library on values; an object is written with its members in the given order, which for a
  map is that of its keys. \<open>process\<close> is the handler the worker calls, on a state of any type. Spans and logs are not modelled.
\<close>

section \<open>SHA-1\<close>

definition sha1_rotl :: "nat \<Rightarrow> u32 \<Rightarrow> u32" where
  "sha1_rotl n x = push_bit n x OR drop_bit (32 - n) x"

definition sha1_fun :: "nat \<Rightarrow> u32 \<Rightarrow> u32 \<Rightarrow> u32 \<Rightarrow> u32 \<times> u32" where
  "sha1_fun t b c d =
     (if t < 20 then ((b AND c) OR (NOT b AND d), 0x5A827999)
      else if t < 40 then (b XOR c XOR d, 0x6ED9EBA1)
      else if t < 60 then ((b AND c) OR (b AND d) OR (c AND d), 0x8F1BBCDC)
      else (b XOR c XOR d, 0xCA62C1D6))"

text \<open>The schedule, newest word first.\<close>

primrec sha1_extend :: "nat \<Rightarrow> u32 list \<Rightarrow> u32 list" where
  "sha1_extend 0 w = w"
| "sha1_extend (Suc n) w = sha1_extend n (sha1_rotl 1 (w ! 2 XOR w ! 7 XOR w ! 13 XOR w ! 15) # w)"

definition sha1_round :: "nat \<Rightarrow> u32 \<Rightarrow> u32 list \<Rightarrow> u32 list" where
  "sha1_round t w s =
     (let a = s ! 0; b = s ! 1; c = s ! 2; d = s ! 3; e = s ! 4 in
      case sha1_fun t b c d of (f, k) \<Rightarrow> [sha1_rotl 5 a + f + e + k + w, a, sha1_rotl 30 b, c, d])"

primrec sha1_rounds :: "nat \<Rightarrow> u32 list \<Rightarrow> u32 list \<Rightarrow> u32 list" where
  "sha1_rounds t [] s = s"
| "sha1_rounds t (w # ws) s = sha1_rounds (Suc t) ws (sha1_round t w s)"

definition sha1_block :: "u32 list \<Rightarrow> u32 list \<Rightarrow> u32 list" where
  "sha1_block hs block = map2 (+) hs (sha1_rounds 0 (rev (sha1_extend 64 (rev block))) hs)"

definition sha1_hex :: "string \<Rightarrow> string" where
  "sha1_hex s =
     concat (map hex_word (foldl sha1_block [0x67452301, 0xEFCDAB89, 0x98BADCFE, 0x10325476, 0xC3D2E1F0]
       (group 16 (map be32 (group 4 (sha_pad (map of_char s)))))))"

section \<open>Tasks\<close>

record qtask =
  tk_type :: string
  tk_payload :: string
  tk_queue :: string
  tk_id :: string
  tk_max_retry :: nat
  tk_timeout :: int

definition queue_of :: "string \<Rightarrow> string \<Rightarrow> string" where
  "queue_of ns name = (if ns = [] then name else ns @ '':'' @ name)"

definition labels_json :: "gomap option \<Rightarrow> json" where
  "labels_json ls = (case ls of None \<Rightarrow> JNull | Some m \<Rightarrow> JObj (map (\<lambda>(k, v). (k, JStr v)) (sort_key fst m)))"

definition alert_json :: "alert \<Rightarrow> json" where
  "alert_json a = JObj [(''name'', JStr (al_name a)), (''severity'', JStr (al_severity a)), (''description'', JStr (al_description a)),
     (''labels'', labels_json (al_labels a)), (''startsAt'', JStr (al_starts_at a))]"

definition alerts_json :: "alert list \<Rightarrow> json" where
  "alerts_json as = JArr (map alert_json as)"

definition alert_payload :: "string \<Rightarrow> alert list \<Rightarrow> json" where
  "alert_payload i as = JObj [(''report_id'', JStr i), (''alerts'', alerts_json as)]"

definition notify_payload :: "string \<Rightarrow> json \<Rightarrow> json" where
  "notify_payload i report = JObj [(''report_id'', JStr i), (''report'', report)]"

definition set_tool_alerts :: "json \<Rightarrow> alert list \<Rightarrow> alert list ws" where
  "set_tool_alerts v old = (case v of JNull \<Rightarrow> Inr [] | JArr js \<Rightarrow> map_res decode_tool_alert js | _ \<Rightarrow> Inl ErrJSON)"

definition decode_alert_payload :: "json option \<Rightarrow> (string \<times> alert list) ws" where
  "decode_alert_payload j =
     (case j of
        Some JNull \<Rightarrow> Inr ([], [])
      | Some (JObj kvs) \<Rightarrow>
          res_bind (str_field ''report_id'' kvs) (\<lambda>i.
          res_bind (fold_res set_tool_alerts (jvalues ''alerts'' kvs) []) (\<lambda>as. Inr (i, as)))
      | _ \<Rightarrow> Inl ErrJSON)"

text \<open>The report stays raw: \<open>None\<close> is a report that is missing.\<close>

definition decode_notify_payload :: "json option \<Rightarrow> (string \<times> json option) ws" where
  "decode_notify_payload j =
     (case j of
        Some JNull \<Rightarrow> Inr ([], None)
      | Some (JObj kvs) \<Rightarrow>
          res_bind (str_field ''report_id'' kvs) (\<lambda>i.
            Inr (i, case rev (jvalues ''report'' kvs) of [] \<Rightarrow> None | r # _ \<Rightarrow> Some r))
      | _ \<Rightarrow> Inl ErrJSON)"

definition taskID :: "(json \<Rightarrow> string) \<Rightarrow> (string \<Rightarrow> json option) \<Rightarrow> string \<Rightarrow> string" where
  "taskID marshal parse payload =
     take 32 (sha1_hex (case decode_alert_payload (parse payload) of Inr (_, as) \<Rightarrow> marshal (alerts_json as) | Inl _ \<Rightarrow> payload))"

definition diagnosisID :: "(json \<Rightarrow> string) \<Rightarrow> (string \<Rightarrow> json option) \<Rightarrow> string \<Rightarrow> string \<Rightarrow> string \<Rightarrow> string" where
  "diagnosisID marshal parse ns i payload = (if ns \<noteq> [] then ns @ '':'' @ i else taskID marshal parse payload)"

definition notificationID :: "string \<Rightarrow> string \<Rightarrow> string" where
  "notificationID ns i = (if ns \<noteq> [] then ns @ '':notify:'' @ i else ''notify:'' @ i)"

definition diagnosis_task :: "(json \<Rightarrow> string) \<Rightarrow> (string \<Rightarrow> json option) \<Rightarrow> string \<Rightarrow> string \<Rightarrow> alert list \<Rightarrow> qtask" where
  "diagnosis_task marshal parse ns i as =
     (let payload = marshal (alert_payload i as) in
      \<lparr> tk_type = ''diagnosis:alert'', tk_payload = payload, tk_queue = queue_of ns ''diagnosis'',
        tk_id = diagnosisID marshal parse ns i payload, tk_max_retry = 3, tk_timeout = seconds 600 \<rparr>)"

definition notification_task :: "(json \<Rightarrow> string) \<Rightarrow> string \<Rightarrow> string \<Rightarrow> json \<Rightarrow> qtask" where
  "notification_task marshal ns i report =
     \<lparr> tk_type = ''notify:report'', tk_payload = marshal (notify_payload i report), tk_queue = queue_of ns ''notify'',
       tk_id = notificationID ns i, tk_max_retry = 3, tk_timeout = seconds 60 \<rparr>"

definition EnqueueAlertDiagnosis :: "(json \<Rightarrow> string) \<Rightarrow> (string \<Rightarrow> json option) \<Rightarrow> (qtask \<Rightarrow> ws_error option) \<Rightarrow> string \<Rightarrow> string \<Rightarrow>
    alert list \<Rightarrow> ws_error option" where
  "EnqueueAlertDiagnosis marshal parse put ns i as = put (diagnosis_task marshal parse ns i as)"

definition EnqueueNotification :: "(json \<Rightarrow> string) \<Rightarrow> (qtask \<Rightarrow> ws_error option) \<Rightarrow> string \<Rightarrow> string \<Rightarrow> json \<Rightarrow> ws_error option" where
  "EnqueueNotification marshal put ns i report = put (notification_task marshal ns i report)"

section \<open>The worker\<close>

definition handleAlertDiagnosis :: "(string \<Rightarrow> json option) \<Rightarrow> (string \<Rightarrow> alert list \<Rightarrow> 's \<Rightarrow> unit ws \<times> 's) \<Rightarrow> qtask \<Rightarrow> 's \<Rightarrow> unit ws \<times> 's" where
  "handleAlertDiagnosis parse process t s =
     (case decode_alert_payload (parse (tk_payload t)) of
        Inl _ \<Rightarrow> (Inl ErrSkipRetry, s)
      | Inr (i, as) \<Rightarrow> process i as s)"

definition handleNotification :: "(string \<Rightarrow> json option) \<Rightarrow> (string \<Rightarrow> json \<Rightarrow> 's \<Rightarrow> unit ws \<times> 's) \<Rightarrow> qtask \<Rightarrow> 's \<Rightarrow> unit ws \<times> 's" where
  "handleNotification parse process t s =
     (case decode_notify_payload (parse (tk_payload t)) of
        Inr (i, Some report) \<Rightarrow> process i report s
      | _ \<Rightarrow> (Inl ErrSkipRetry, s))"

definition handle_task :: "(string \<Rightarrow> json option) \<Rightarrow> (string \<Rightarrow> alert list \<Rightarrow> 's \<Rightarrow> unit ws \<times> 's) \<Rightarrow>
    (string \<Rightarrow> json \<Rightarrow> 's \<Rightarrow> unit ws \<times> 's) \<Rightarrow> qtask \<Rightarrow> 's \<Rightarrow> (unit ws \<times> 's) option" where
  "handle_task parse run_it notify t s =
     (if tk_type t = ''diagnosis:alert'' then Some (handleAlertDiagnosis parse run_it t s)
      else if tk_type t = ''notify:report'' then Some (handleNotification parse notify t s) else None)"

text \<open>The delay before a notification is tried again: a shift of a 64-bit duration.\<close>

definition retry_delay :: "nat \<Rightarrow> int" where
  "retry_delay n = sint (push_bit n (5000000000 :: 64 word))"

section \<open>The two consumers\<close>

text \<open>One consumer per queue, so that notifications do not wait for diagnoses. \<open>co_state\<close> is that of the library's server:
  it fetches and works, works off what it has, or is down.\<close>

datatype consumer_state = Down | Fetching | Draining

record consumer =
  co_queue :: string
  co_concurrency :: nat
  co_state :: consumer_state

record queue_server =
  qs_diagnosis :: consumer
  qs_notify :: consumer

definition NewWorkspaceServer :: "string \<Rightarrow> queue_server" where
  "NewWorkspaceServer namespace =
     (let name = (\<lambda>q. if namespace = [] then q else namespace @ '':'' @ q) in
      \<lparr> qs_diagnosis = \<lparr> co_queue = name ''diagnosis'', co_concurrency = 2, co_state = Down \<rparr>,
        qs_notify = \<lparr> co_queue = name ''notify'', co_concurrency = 1, co_state = Down \<rparr> \<rparr>)"

definition NewServer :: queue_server where
  "NewServer = NewWorkspaceServer []"

definition set_consumer :: "consumer_state \<Rightarrow> consumer \<Rightarrow> consumer" where
  "set_consumer st c = c\<lparr>co_state := st\<rparr>"

text \<open>\<open>e1\<close> and \<open>e2\<close> are the errors of the library's \<open>Start\<close> for the two consumers.\<close>

definition Start_server :: "ws_error option \<Rightarrow> ws_error option \<Rightarrow> queue_server \<Rightarrow> ws_error option \<times> queue_server" where
  "Start_server e1 e2 s =
     (case e1 of
        Some e \<Rightarrow> (Some e, s)
      | None \<Rightarrow>
          (let s1 = s\<lparr>qs_diagnosis := set_consumer Fetching (qs_diagnosis s)\<rparr> in
           case e2 of
             Some e \<Rightarrow> (Some e, s1\<lparr>qs_diagnosis := set_consumer Down (qs_diagnosis s1)\<rparr>)
           | None \<Rightarrow> (None, s1\<lparr>qs_notify := set_consumer Fetching (qs_notify s1)\<rparr>)))"

definition stop_fetching :: "consumer \<Rightarrow> consumer" where
  "stop_fetching c = (if co_state c = Fetching then set_consumer Draining c else c)"

definition Stop_server :: "queue_server \<Rightarrow> queue_server" where
  "Stop_server s = s\<lparr>qs_diagnosis := stop_fetching (qs_diagnosis s), qs_notify := stop_fetching (qs_notify s)\<rparr>"

definition Shutdown_server :: "queue_server \<Rightarrow> queue_server" where
  "Shutdown_server s = s\<lparr>qs_diagnosis := set_consumer Down (qs_diagnosis s), qs_notify := set_consumer Down (qs_notify s)\<rparr>"

section \<open>Properties\<close>

text \<open>The consumers start both or not at all, and read exactly the queues that the client of the same namespace fills; the
  order of the shutdown, \<open>Stop\<close> and then \<open>Shutdown\<close>, leaves nothing running.\<close>

lemma server_consumes:
  "Start_server e1 e2 (NewWorkspaceServer ns) = (r, s) \<Longrightarrow>
     (if r = None then co_state (qs_diagnosis s) = Fetching \<and> co_state (qs_notify s) = Fetching else s = NewWorkspaceServer ns)
     \<and> co_queue (qs_diagnosis s) = tk_queue (diagnosis_task marshal parse ns i as)
     \<and> co_queue (qs_notify s) = tk_queue (notification_task marshal ns j report)
     \<and> co_state (qs_diagnosis (Shutdown_server (Stop_server s))) = Down \<and> co_state (qs_notify (Shutdown_server (Stop_server s))) = Down"
  by (auto simp: Start_server_def NewWorkspaceServer_def set_consumer_def diagnosis_task_def notification_task_def queue_of_def Let_def
      Shutdown_server_def split: option.splits)

text \<open>A map that is listed in the order of its keys, as the writer lists it.\<close>

definition ordered_labels :: "alert \<Rightarrow> bool" where
  "ordered_labels a = (case al_labels a of None \<Rightarrow> True | Some m \<Rightarrow> sorted (map fst m) \<and> distinct (map fst m))"

lemma sort_key_sorted: "sorted (map f xs) \<Longrightarrow> sort_key f xs = xs"
  by (induction xs) (auto simp: insort_is_Cons)

lemma fold_set_entries:
  assumes "distinct (map fst m @ map fst acc)"
  shows "fold_res set_entry (map (\<lambda>(k, v). (k, JStr v)) m) acc = Inr (acc @ m)"
  using assms
proof (induction m arbitrary: acc)
  case (Cons x m)
  obtain k v where x: "x = (k, v)" by fastforce
  have "k \<notin> fst ` set acc" using Cons.prems by (auto simp: x)
  then have put: "mput k v acc = acc @ [(k, v)]" by (induction acc) (auto simp: mput_def)
  have "distinct (map fst m @ map fst (acc @ [(k, v)]))" using Cons.prems by (auto simp: x)
  from Cons.IH [OF this] show ?case by (simp add: x set_entry_def set_string_def put)
qed simp

lemma decode_alert_json:
  assumes "ordered_labels a"
  shows "decode_tool_alert (alert_json a) = Inr a"
proof -
  have "fold_res set_map [labels_json (al_labels a)] None = Inr (al_labels a)"
  proof (cases "al_labels a")
    case (Some m)
    with assms have m: "sorted (map fst m)" "distinct (map fst m)" by (simp_all add: ordered_labels_def)
    from fold_set_entries [of m "[]"] m(2) show ?thesis by (simp add: Some labels_json_def sort_key_sorted [OF m(1)] set_map_def)
  qed (simp add: labels_json_def set_map_def)
  moreover have "jvalues ''labels'' [(''name'', JStr (al_name a)), (''severity'', JStr (al_severity a)), (''description'', JStr (al_description a)),
     (''labels'', labels_json (al_labels a)), (''startsAt'', JStr (al_starts_at a))] = [labels_json (al_labels a)]"
    by (simp add: jvalues_def to_lower_def lower_char_def)
  ultimately show ?thesis
    by (simp add: decode_tool_alert_def alert_json_def set_struct_def str_field_def map_field_def)
      (simp add: jvalues_def to_lower_def lower_char_def set_string_def)
qed

lemma decode_alerts_json: "list_all ordered_labels as \<Longrightarrow> map_res decode_tool_alert (map alert_json as) = Inr as"
  by (induction as) (simp_all add: decode_alert_json)

lemma decode_alert_payload_json:
  assumes "list_all ordered_labels as"
  shows "decode_alert_payload (Some (alert_payload i as)) = Inr (i, as)"
  using decode_alerts_json [OF assms]
  by (simp add: decode_alert_payload_def alert_payload_def alerts_json_def str_field_def jvalues_def to_lower_def lower_char_def
      set_string_def set_tool_alerts_def)


definition ex_marshal :: "json \<Rightarrow> string" where
  "ex_marshal j = (if j = alert_payload ''a'' [] then ''A'' else if j = alert_payload ''b'' [] then ''B'' else [])"

definition ex_reader :: "string \<Rightarrow> json option" where
  "ex_reader s = (if s = ''A'' then Some (alert_payload ''a'' []) else if s = ''B'' then Some (alert_payload ''b'' []) else None)"


text \<open>A payload that cannot be read is archived and never retried, and nothing is done for it.\<close>

lemma bad_payload_skipped:
  assumes "parse (tk_payload t) = None"
  shows "handleAlertDiagnosis parse process t s = (Inl ErrSkipRetry, s)" "handleNotification parse notify t s = (Inl ErrSkipRetry, s)"
  using assms by (simp_all add: handleAlertDiagnosis_def handleNotification_def decode_alert_payload_def decode_notify_payload_def)

text \<open>Within the three retries the delay doubles from 5 to 40 seconds.\<close>

lemma retry_delay_doubles: "n \<le> 3 \<Longrightarrow> retry_delay n = seconds (5 * 2 ^ n)"
proof -
  have "\<forall>n \<in> set [0..<4]. retry_delay n = seconds (5 * 2 ^ n)" by code_simp
  then show "n \<le> 3 \<Longrightarrow> retry_delay n = seconds (5 * 2 ^ n)" by auto
qed

end
