(* ===== verification/Config.thy ===== *)
theory Config
  imports Judge
begin

text \<open>
  The configuration (\<open>src/internal/config/config.go\<close>): the defaults, the JSON file that is decoded over them, the
  environment variables that override single settings, and the check of the model's key.

  The file system and the environment are arguments; \<open>parse\<close> is the JSON reader and \<open>num\<close> reads a number as a float. Members
  of an object are taken in order and match a field whatever their case; a value of the wrong type is an error.
\<close>

section \<open>The settings\<close>

record server_config = sc_host :: string sc_port :: int
record qdrant_config = qc_host :: string qc_port :: int qc_collection :: string
record embedder_config = ec_host :: string ec_port :: int ec_model :: string
record knowledge_config = kc_auto_ingest :: bool kc_incident_weight :: real
record queue_config = uc_redis_addr :: string uc_namespace :: string uc_redis_db :: int
record deploy_config = dc_github_repo :: string dc_github_token :: string
record auth_config = ac_console_token_env :: string ac_webhook_token_env :: string ac_localhost_http :: bool
record ui_config = ui_mode :: string ui_legacy_enabled :: bool ui_legacy_default :: bool

record config =
  cfg_server :: server_config
  cfg_openai :: judge_config
  cfg_qdrant :: qdrant_config
  cfg_embedder :: embedder_config
  cfg_prometheus_url :: string
  cfg_knowledge :: knowledge_config
  cfg_queue :: queue_config
  cfg_low_threshold :: int
  cfg_webhook_url :: string
  cfg_deploy :: deploy_config
  cfg_persist_path :: string
  cfg_sqlite_path :: string
  cfg_auth :: auth_config
  cfg_ui :: ui_config
  cfg_topology_file :: string
  cfg_templates_file :: string

definition Default :: config where
  "Default = \<lparr>
     cfg_server = \<lparr> sc_host = ''127.0.0.1'', sc_port = 8819 \<rparr>,
     cfg_openai = \<lparr> jc_api_base = ''https://api.openai.com/v1'', jc_model = [], jc_api_key = [] \<rparr>,
     cfg_qdrant = \<lparr> qc_host = ''127.0.0.1'', qc_port = 6334, qc_collection = ''oncallagent_workspace_v1'' \<rparr>,
     cfg_embedder = \<lparr> ec_host = ''127.0.0.1'', ec_port = 11434, ec_model = ''nomic-embed-text'' \<rparr>,
     cfg_prometheus_url = ''http://localhost:9090'',
     cfg_knowledge = \<lparr> kc_auto_ingest = False, kc_incident_weight = 1/2 \<rparr>,
     cfg_queue = \<lparr> uc_redis_addr = ''127.0.0.1:6379'', uc_namespace = ''workspace'', uc_redis_db = 0 \<rparr>,
     cfg_low_threshold = 3,
     cfg_webhook_url = [],
     cfg_deploy = \<lparr> dc_github_repo = [], dc_github_token = [] \<rparr>,
     cfg_persist_path = ''data/reports.json'',
     cfg_sqlite_path = ''data/oncall-agent.sqlite'',
     cfg_auth = \<lparr> ac_console_token_env = ''ONCALL_CONSOLE_TOKEN'', ac_webhook_token_env = ''ONCALL_WEBHOOK_TOKEN'', ac_localhost_http = False \<rparr>,
     cfg_ui = \<lparr> ui_mode = ''live'', ui_legacy_enabled = True, ui_legacy_default = False \<rparr>,
     cfg_topology_file = [],
     cfg_templates_file = ''config/metric_templates.json'' \<rparr>"

section \<open>Decoding\<close>

type_synonym 'a setter = "json \<Rightarrow> 'a \<Rightarrow> 'a ws"

definition json_into :: "('a \<Rightarrow> 'b) \<Rightarrow> (('b \<Rightarrow> 'b) \<Rightarrow> 'a \<Rightarrow> 'a) \<Rightarrow> 'b setter \<Rightarrow> 'a setter" where
  "json_into get upd f v x = res_bind (f v (get x)) (\<lambda>y. Inr (upd (\<lambda>_. y) x))"

definition set_member :: "(string \<times> 'a setter) list \<Rightarrow> string \<times> json \<Rightarrow> 'a \<Rightarrow> 'a ws" where
  "set_member fs kv x = (case kv of (k, v) \<Rightarrow> case map_of fs (to_lower k) of Some f \<Rightarrow> f v x | None \<Rightarrow> Inr x)"

definition json_struct :: "(string \<times> 'a setter) list \<Rightarrow> 'a setter" where
  "json_struct fs v x = (case v of JNull \<Rightarrow> Inr x | JObj kvs \<Rightarrow> fold_res (set_member fs) kvs x | _ \<Rightarrow> Inl ErrJSON)"

definition server_fields :: "(string \<times> server_config setter) list" where
  "server_fields = [(''host'', json_into sc_host sc_host_update set_string), (''port'', json_into sc_port sc_port_update set_int)]"

definition openai_fields :: "(string \<times> judge_config setter) list" where
  "openai_fields = [(''api_key'', json_into jc_api_key jc_api_key_update set_string), (''model'', json_into jc_model jc_model_update set_string),
     (''api_base'', json_into jc_api_base jc_api_base_update set_string)]"

definition qdrant_fields :: "(string \<times> qdrant_config setter) list" where
  "qdrant_fields = [(''host'', json_into qc_host qc_host_update set_string), (''port'', json_into qc_port qc_port_update set_int),
     (''collection'', json_into qc_collection qc_collection_update set_string)]"

definition embedder_fields :: "(string \<times> embedder_config setter) list" where
  "embedder_fields = [(''host'', json_into ec_host ec_host_update set_string), (''port'', json_into ec_port ec_port_update set_int),
     (''model'', json_into ec_model ec_model_update set_string)]"

definition knowledge_fields :: "(string \<Rightarrow> real option) \<Rightarrow> (string \<times> knowledge_config setter) list" where
  "knowledge_fields num = [(''auto_ingest'', json_into kc_auto_ingest kc_auto_ingest_update set_bool),
     (''incident_weight'', json_into kc_incident_weight kc_incident_weight_update
        (\<lambda>v old. case v of JNull \<Rightarrow> Inr old | JNum t \<Rightarrow> res_of ErrJSON (num t) | _ \<Rightarrow> Inl ErrJSON))]"

definition queue_fields :: "(string \<times> queue_config setter) list" where
  "queue_fields = [(''redis_addr'', json_into uc_redis_addr uc_redis_addr_update set_string),
     (''namespace'', json_into uc_namespace uc_namespace_update set_string), (''redis_db'', json_into uc_redis_db uc_redis_db_update set_int)]"

definition deploy_fields :: "(string \<times> deploy_config setter) list" where
  "deploy_fields = [(''github_repo'', json_into dc_github_repo dc_github_repo_update set_string),
     (''github_token'', json_into dc_github_token dc_github_token_update set_string)]"

definition auth_fields :: "(string \<times> auth_config setter) list" where
  "auth_fields = [(''console_token_env'', json_into ac_console_token_env ac_console_token_env_update set_string),
     (''webhook_token_env'', json_into ac_webhook_token_env ac_webhook_token_env_update set_string),
     (''localhost_http'', json_into ac_localhost_http ac_localhost_http_update set_bool)]"

definition ui_fields :: "(string \<times> ui_config setter) list" where
  "ui_fields = [(''mode'', json_into ui_mode ui_mode_update set_string),
     (''legacy_enabled'', json_into ui_legacy_enabled ui_legacy_enabled_update set_bool),
     (''legacy_default'', json_into ui_legacy_default ui_legacy_default_update set_bool)]"

definition one_field :: "string \<Rightarrow> 'a setter \<Rightarrow> 'a setter" where
  "one_field k f = json_struct [(k, f)]"

definition config_fields :: "(string \<Rightarrow> real option) \<Rightarrow> (string \<times> config setter) list" where
  "config_fields num =
     [(''server'', json_into cfg_server cfg_server_update (json_struct server_fields)),
      (''openai'', json_into cfg_openai cfg_openai_update (json_struct openai_fields)),
      (''qdrant'', json_into cfg_qdrant cfg_qdrant_update (json_struct qdrant_fields)),
      (''embedder'', json_into cfg_embedder cfg_embedder_update (json_struct embedder_fields)),
      (''prometheus'', json_into cfg_prometheus_url cfg_prometheus_url_update (one_field ''url'' set_string)),
      (''knowledge'', json_into cfg_knowledge cfg_knowledge_update (json_struct (knowledge_fields num))),
      (''queue'', json_into cfg_queue cfg_queue_update (json_struct queue_fields)),
      (''judge'', json_into cfg_low_threshold cfg_low_threshold_update (one_field ''low_threshold'' set_int)),
      (''notify'', json_into cfg_webhook_url cfg_webhook_url_update (one_field ''webhook_url'' set_string)),
      (''deploy'', json_into cfg_deploy cfg_deploy_update (json_struct deploy_fields)),
      (''reports'', json_into cfg_persist_path cfg_persist_path_update (one_field ''persist_path'' set_string)),
      (''storage'', json_into cfg_sqlite_path cfg_sqlite_path_update (one_field ''sqlite_path'' set_string)),
      (''auth'', json_into cfg_auth cfg_auth_update (json_struct auth_fields)),
      (''ui'', json_into cfg_ui cfg_ui_update (json_struct ui_fields)),
      (''topology'', json_into cfg_topology_file cfg_topology_file_update (one_field ''file'' set_string)),
      (''metrics'', json_into cfg_templates_file cfg_templates_file_update (one_field ''templates_file'' set_string))]"

section \<open>Loading\<close>

record config_env =
  ce_getenv :: "string \<Rightarrow> string"
  ce_read :: "string \<Rightarrow> string ws"
  ce_parse :: "string \<Rightarrow> json option"
  ce_num :: "string \<Rightarrow> real option"

text \<open>The environment variables of single settings, with the setting they override.\<close>

definition overrides :: "(string \<times> ((string \<Rightarrow> string) \<Rightarrow> config \<Rightarrow> config)) list" where
  "overrides =
     [(''ONCALL_SERVER_HOST'', cfg_server_update \<circ> sc_host_update), (''ONCALL_SQLITE_PATH'', cfg_sqlite_path_update),
      (''ONCALL_REDIS_ADDR'', cfg_queue_update \<circ> uc_redis_addr_update), (''ONCALL_QUEUE_NAMESPACE'', cfg_queue_update \<circ> uc_namespace_update),
      (''ONCALL_QDRANT_HOST'', cfg_qdrant_update \<circ> qc_host_update), (''ONCALL_QDRANT_COLLECTION'', cfg_qdrant_update \<circ> qc_collection_update),
      (''ONCALL_EMBEDDER_HOST'', cfg_embedder_update \<circ> ec_host_update), (''ONCALL_PROMETHEUS_URL'', cfg_prometheus_url_update),
      (''ONCALL_TOPOLOGY_FILE'', cfg_topology_file_update), (''ONCALL_METRICS_TEMPLATES_FILE'', cfg_templates_file_update)]"

definition override :: "(string \<Rightarrow> string) \<Rightarrow> string \<times> ((string \<Rightarrow> string) \<Rightarrow> config \<Rightarrow> config) \<Rightarrow> config \<Rightarrow> config" where
  "override getenv o1 cfg =
     (case o1 of (name, upd) \<Rightarrow> let v = trim_space (getenv name) in if v \<noteq> [] then upd (\<lambda>_. v) cfg else cfg)"

text \<open>\<open>strconv.ParseBool\<close>\<close>

definition parse_bool :: "string \<Rightarrow> bool option" where
  "parse_bool s =
     (if s \<in> {''1'', ''t'', ''T'', ''true'', ''TRUE'', ''True''} then Some True
      else if s \<in> {''0'', ''f'', ''F'', ''false'', ''FALSE'', ''False''} then Some False else None)"

definition with_environment :: "(string \<Rightarrow> string) \<Rightarrow> config \<Rightarrow> config" where
  "with_environment getenv cfg =
     fold (override getenv) overrides
       (let v = trim_space (getenv ''OPENAI_API_KEY'') in
        if v \<noteq> [] then cfg\<lparr>cfg_openai := (cfg_openai cfg)\<lparr>jc_api_key := v\<rparr>\<rparr> else cfg)"

definition localhost_http :: "(string \<Rightarrow> string) \<Rightarrow> config \<Rightarrow> config ws" where
  "localhost_http getenv cfg =
     (let v = getenv ''ONCALL_LOCALHOST_HTTP'' in
      if v = [] then Inr cfg
      else case parse_bool v of
        None \<Rightarrow> Inl (ErrMsg ''invalid ONCALL_LOCALHOST_HTTP'')
      | Some b \<Rightarrow> Inr (cfg\<lparr>cfg_auth := (cfg_auth cfg)\<lparr>ac_localhost_http := b\<rparr>\<rparr>))"

definition default_port :: "config \<Rightarrow> config" where
  "default_port cfg =
     (if sc_port (cfg_server cfg) = 0 then cfg\<lparr>cfg_server := (cfg_server cfg)\<lparr>sc_port := 8819\<rparr>\<rparr> else cfg)"

definition decode_file :: "config_env \<Rightarrow> string \<Rightarrow> config ws" where
  "decode_file env path =
     (case ce_read env path of
        Inl _ \<Rightarrow> Inl (ErrMsg (''read config '' @ path))
      | Inr b \<Rightarrow>
          (case ce_parse env b of
             None \<Rightarrow> Inl (ErrMsg (''parse config '' @ path))
           | Some j \<Rightarrow>
               (case json_struct (config_fields (ce_num env)) j Default of
                  Inl _ \<Rightarrow> Inl (ErrMsg (''parse config '' @ path))
                | Inr cfg \<Rightarrow> Inr cfg)))"

definition loadFile :: "config_env \<Rightarrow> string \<Rightarrow> config ws" where
  "loadFile env path =
     (let path = (if trim_space path = [] then ''config/config.json'' else path) in
      res_bind (decode_file env path) (\<lambda>cfg.
      res_bind (localhost_http (ce_getenv env) (with_environment (ce_getenv env) cfg)) (\<lambda>cfg. Inr (default_port cfg))))"

definition isMissingKey :: "string \<Rightarrow> bool" where
  "isMissingKey k =
     (let s = trim_space k in s = [] \<or> to_lower s \<in> {''your-key'', ''your_key'', ''your-key-here'', ''your_key_here''})"

definition Load :: "config_env \<Rightarrow> string \<Rightarrow> config ws" where
  "Load env path =
     res_bind (loadFile env path) (\<lambda>cfg.
       if isMissingKey (jc_api_key (cfg_openai cfg))
       then Inl (ErrMsg ''openai.api_key missing: fill config/config.json or set OPENAI_API_KEY'') else Inr cfg)"

definition LoadMCP :: "config_env \<Rightarrow> string \<Rightarrow> config ws" where
  "LoadMCP env path = loadFile env path"

section \<open>Properties\<close>

text \<open>The settings that an environment variable overrides, with what reads them.\<close>

definition settings :: "(string \<times> (config \<Rightarrow> string)) list" where
  "settings =
     [(''ONCALL_SERVER_HOST'', sc_host \<circ> cfg_server), (''ONCALL_SQLITE_PATH'', cfg_sqlite_path),
      (''ONCALL_REDIS_ADDR'', uc_redis_addr \<circ> cfg_queue), (''ONCALL_QUEUE_NAMESPACE'', uc_namespace \<circ> cfg_queue),
      (''ONCALL_QDRANT_HOST'', qc_host \<circ> cfg_qdrant), (''ONCALL_QDRANT_COLLECTION'', qc_collection \<circ> cfg_qdrant),
      (''ONCALL_EMBEDDER_HOST'', ec_host \<circ> cfg_embedder), (''ONCALL_PROMETHEUS_URL'', cfg_prometheus_url),
      (''ONCALL_TOPOLOGY_FILE'', cfg_topology_file), (''ONCALL_METRICS_TEMPLATES_FILE'', cfg_templates_file),
      (''OPENAI_API_KEY'', jc_api_key \<circ> cfg_openai)]"

definition chosen :: "(string \<Rightarrow> string) \<Rightarrow> string \<Rightarrow> string \<Rightarrow> string" where
  "chosen getenv name from_file = (if trim_space (getenv name) \<noteq> [] then trim_space (getenv name) else from_file)"

text \<open>An override is an update of the setting by \<open>chosen\<close>.\<close>

lemma override_chosen:
  assumes "\<And>x. upd (\<lambda>y. y) x = x"
  shows "override getenv (name, upd) cfg = upd (chosen getenv name) cfg"
proof (cases "trim_space (getenv name) = []")
  case True
  then have "chosen getenv name = (\<lambda>y. y)" by (simp add: chosen_def fun_eq_iff)
  with True assms show ?thesis by (simp add: override_def)
next
  case False
  then have "chosen getenv name = (\<lambda>_. trim_space (getenv name))" by (simp add: chosen_def fun_eq_iff)
  with False show ?thesis by (simp add: override_def)
qed

lemma environment_updates:
  "with_environment getenv cfg = fold (\<lambda>(name, upd). upd (chosen getenv name)) overrides
     (cfg_openai_update (jc_api_key_update (chosen getenv ''OPENAI_API_KEY'')) cfg)"
proof -
  have k: "(let v = trim_space (getenv ''OPENAI_API_KEY'') in if v \<noteq> [] then cfg\<lparr>cfg_openai := (cfg_openai cfg)\<lparr>jc_api_key := v\<rparr>\<rparr> else cfg)
      = cfg_openai_update (jc_api_key_update (chosen getenv ''OPENAI_API_KEY'')) cfg"
  proof -
    have u: "cfg\<lparr>cfg_openai := (cfg_openai cfg)\<lparr>jc_api_key := v\<rparr>\<rparr> = (cfg_openai_update \<circ> jc_api_key_update) (\<lambda>_. v) cfg" for v
      by (cases cfg) simp
    have "override getenv (''OPENAI_API_KEY'', cfg_openai_update \<circ> jc_api_key_update) cfg
        = (cfg_openai_update \<circ> jc_api_key_update) (chosen getenv ''OPENAI_API_KEY'') cfg" by (rule override_chosen) simp
    then show ?thesis unfolding u by (simp only: override_def Let_def prod.case o_apply)
  qed
  have o: "override getenv (name, upd) = upd (chosen getenv name)" if "(name, upd) \<in> set overrides" for name upd
    using that by (intro ext override_chosen) (auto simp: overrides_def)
  show ?thesis unfolding with_environment_def k by (rule fold_cong) (use o in auto)
qed

lemma environment_chosen:
  "list_all (\<lambda>(name, get). get (with_environment getenv cfg) = chosen getenv name (get cfg)) settings"
  by (simp add: environment_updates overrides_def settings_def)

lemma environment_keeps_rest:
  "sc_port (cfg_server (with_environment getenv cfg)) = sc_port (cfg_server cfg)" "cfg_auth (with_environment getenv cfg) = cfg_auth cfg"
  by (simp_all add: environment_updates overrides_def)

lemma late_steps_keep:
  assumes "localhost_http getenv cfg = Inr cfg'" and "(name, get) \<in> set settings"
  shows "get (default_port cfg') = get cfg"
  using assms by (auto simp: localhost_http_def default_port_def settings_def Let_def split: if_splits option.splits)

text \<open>A member of the file that is not the field leaves the field.\<close>

lemma json_members_keep:
  assumes "fold_res (set_member fs) kvs x = Inr y" and "k \<notin> (\<lambda>kv. to_lower (fst kv)) ` set kvs"
    and "\<And>k' f v x y. map_of fs k' = Some f \<Longrightarrow> k' \<noteq> k \<Longrightarrow> f v x = Inr y \<Longrightarrow> get y = get x"
  shows "get y = get x"
  using assms(1,2)
proof (induction kvs arbitrary: x)
  case (Cons kv kvs)
  obtain x1 where x1: "set_member fs kv x = Inr x1" "fold_res (set_member fs) kvs x1 = Inr y"
    using Cons.prems(1) by (auto simp: res_bind_eq_Inr)
  have "get x1 = get x"
    using x1(1) Cons.prems(2) assms(3) by (fastforce simp: set_member_def split: prod.splits option.splits)
  with Cons x1(2) show ?case by simp
qed simp

lemma server_kept:
  assumes "map_of (config_fields num) k = Some f" and "k \<noteq> ''server''" and "f v x = Inr y"
  shows "cfg_server y = cfg_server x"
  using assms by (auto simp: config_fields_def json_into_def res_bind_eq_Inr split: if_splits)

lemma server_default:
  assumes "json_struct (config_fields num) (JObj kvs) Default = Inr cfg" and "''server'' \<notin> (\<lambda>kv. to_lower (fst kv)) ` set kvs"
  shows "cfg_server cfg = cfg_server Default"
  using json_members_keep [of "config_fields num" kvs Default cfg "''server''" cfg_server] assms server_kept
  by (fastforce simp: json_struct_def)

text \<open>A loaded configuration is the file over the defaults with the environment on top. Every setting that has an environment variable
  takes its value without surrounding space when there is one and the file's otherwise; the port is never 0; with a file
  that has no section for the server and no variable for its host, the server listens on the loopback interface only; and
  \<open>Load\<close> differs from \<open>LoadMCP\<close> only in refusing a missing or sample key.\<close>

theorem Load_settings:
  assumes "loadFile env path = Inr cfg"
  shows "\<exists>from_file. decode_file env (if trim_space path = [] then ''config/config.json'' else path) = Inr from_file
    \<and> list_all (\<lambda>(name, get). get cfg = chosen (ce_getenv env) name (get from_file)) settings
    \<and> sc_port (cfg_server cfg) \<noteq> 0
    \<and> (\<forall>b kvs. ce_read env (if trim_space path = [] then ''config/config.json'' else path) = Inr b \<longrightarrow> ce_parse env b = Some (JObj kvs) \<longrightarrow>
         ''server'' \<notin> (\<lambda>kv. to_lower (fst kv)) ` set kvs \<longrightarrow> trim_space (ce_getenv env ''ONCALL_SERVER_HOST'') = [] \<longrightarrow>
         sc_host (cfg_server cfg) = ''127.0.0.1'' \<and> sc_port (cfg_server cfg) = 8819)
    \<and> Load env path = (if isMissingKey (jc_api_key (cfg_openai cfg))
         then Inl (ErrMsg ''openai.api_key missing: fill config/config.json or set OPENAI_API_KEY'') else LoadMCP env path)"
proof -
  define p where "p = (if trim_space path = [] then ''config/config.json'' else path)"
  obtain file_cfg cfg1 where f: "decode_file env p = Inr file_cfg" and l: "localhost_http (ce_getenv env) (with_environment (ce_getenv env) file_cfg) = Inr cfg1"
    and cfg: "cfg = default_port cfg1"
    using assms by (auto simp: loadFile_def Let_def res_bind_eq_Inr p_def)
  have set: "get cfg = chosen (ce_getenv env) name (get file_cfg)" if "(name, get) \<in> set settings" for name get
    using environment_chosen [of "ce_getenv env" file_cfg] late_steps_keep [OF l that] that by (auto simp: cfg list_all_iff)
  have port: "sc_port (cfg_server cfg) = (if sc_port (cfg_server file_cfg) = 0 then 8819 else sc_port (cfg_server file_cfg))"
    using l environment_keeps_rest(1) [of "ce_getenv env" file_cfg]
    by (auto simp: cfg default_port_def localhost_http_def Let_def split: if_splits option.splits)
  have host: "sc_host (cfg_server cfg) = chosen (ce_getenv env) ''ONCALL_SERVER_HOST'' (sc_host (cfg_server file_cfg))"
    using set [of "''ONCALL_SERVER_HOST''" "sc_host \<circ> cfg_server"] by (simp add: settings_def)
  have loop: "sc_host (cfg_server cfg) = ''127.0.0.1'' \<and> sc_port (cfg_server cfg) = 8819"
    if "ce_read env p = Inr b" "ce_parse env b = Some (JObj kvs)" "''server'' \<notin> (\<lambda>kv. to_lower (fst kv)) ` set kvs"
      "trim_space (ce_getenv env ''ONCALL_SERVER_HOST'') = []" for b kvs
  proof -
    have "json_struct (config_fields (ce_num env)) (JObj kvs) Default = Inr file_cfg"
      using f that(1,2) by (auto simp: decode_file_def split: sum.splits)
    from server_default [OF this that(3)] host port that(4) show ?thesis by (simp add: chosen_def Default_def)
  qed
  show ?thesis unfolding p_def [symmetric]
  proof (intro exI [of _ file_cfg] conjI)
    show "list_all (\<lambda>(name, get). get cfg = chosen (ce_getenv env) name (get file_cfg)) settings"
      using set by (auto simp: list_all_iff)
    show "Load env path = (if isMissingKey (jc_api_key (cfg_openai cfg))
         then Inl (ErrMsg ''openai.api_key missing: fill config/config.json or set OPENAI_API_KEY'') else LoadMCP env path)"
      using assms by (simp add: Load_def LoadMCP_def)
  qed (use f port loop in auto)
qed

definition ex_config_env :: config_env where
  "ex_config_env = \<lparr> ce_getenv = (\<lambda>k. if k = ''ONCALL_QDRANT_HOST'' then '' qdrant '' else []), ce_read = (\<lambda>_. Inr ''c''),
     ce_parse = (\<lambda>_. Some (JObj [(''openai'', JObj [(''api_key'', JStr ''k'')])])), ce_num = (\<lambda>_. None) \<rparr>"

lemma ex_config_trims: "trim_space '' qdrant '' = ''qdrant''" "trim_space ''k'' = ''k''" "to_lower ''k'' = ''k''"
  by code_simp+

lemma ex_load_config:
  "loadFile ex_config_env [] = Inr (Default\<lparr>cfg_openai := (cfg_openai Default)\<lparr>jc_api_key := ''k''\<rparr>,
     cfg_qdrant := (cfg_qdrant Default)\<lparr>qc_host := ''qdrant''\<rparr>\<rparr>)"
  by (simp add: loadFile_def decode_file_def ex_config_env_def json_struct_def set_member_def config_fields_def openai_fields_def
      json_into_def set_string_def to_lower_def lower_char_def with_environment_def overrides_def override_def ex_config_trims localhost_http_def
      default_port_def Default_def Let_def)

theorem Load_settings_witness:
  "\<exists>cfg. loadFile ex_config_env [] = Inr cfg \<and> qc_host (cfg_qdrant cfg) = chosen (ce_getenv ex_config_env) ''ONCALL_QDRANT_HOST'' ''127.0.0.1''
     \<and> sc_host (cfg_server cfg) = ''127.0.0.1'' \<and> Load ex_config_env [] = Inr cfg"
proof -
  from Load_settings [OF ex_load_config] have "Load ex_config_env [] = LoadMCP ex_config_env []"
    by (auto simp: isMissingKey_def ex_config_trims Let_def)
  then show ?thesis using ex_load_config by (simp add: LoadMCP_def chosen_def ex_config_env_def ex_config_trims Default_def)
qed

end
