(* ===== verification/Auth.thy ===== *)
theory Auth
  imports GoTime Sha256 Transition
begin

text \<open>
  Authentication of the HTTP surface (\<open>src/internal/auth/auth.go\<close>).

  The state holds the configured credentials, the console sessions and the rate windows; a request is read through the
  parts the code looks at. The clock is read once per request. \<open>parse_url\<close> is \<open>url.Parse\<close> of the standard library, and
  the two random identifiers of a login are arguments. The maps are association lists; when two sessions were created at the
  same instant, Go evicts either of them and the model the first.
\<close>

section \<open>Strings\<close>

text \<open>\<open>strings.Fields\<close>\<close>

function split_fields :: "string \<Rightarrow> string \<Rightarrow> string list" where
  "split_fields word s =
     (case s of
        [] \<Rightarrow> (if word = [] then [] else [word])
      | c # t \<Rightarrow>
          (case find (has_prefix s) ws_encodings of
             Some w \<Rightarrow> (if word = [] then [] else [word]) @ split_fields [] (drop (length w) s)
           | None \<Rightarrow> split_fields (word @ [c]) t))"
  by pat_completeness auto
termination
proof (relation "measure (length \<circ> snd)")
  fix word s c t w
  assume s: "s = c # t" and "find (has_prefix s) ws_encodings = Some w"
  then have "w \<noteq> []" using ws_encodings_nonempty by (auto simp: find_Some_iff)
  with s show "(([], drop (length w) s), word, s) \<in> measure (length \<circ> snd)" by simp
qed simp_all

declare split_fields.simps [simp del]

definition go_fields :: "string \<Rightarrow> string list" where
  "go_fields s = split_fields [] s"

text \<open>\<open>net.SplitHostPort\<close>: the host, or \<open>None\<close> for an error. \<open>last_index\<close> is \<open>bytealg.LastIndexByteString\<close>.\<close>

definition last_index :: "char \<Rightarrow> string \<Rightarrow> nat option" where
  "last_index c s = (if c \<in> set s then Some (length s - 1 - length (takeWhile (\<lambda>x. x \<noteq> c) (rev s))) else None)"

definition split_host :: "string \<Rightarrow> string option" where
  "split_host hp =
     (case last_index (CHR '':'') hp of
        None \<Rightarrow> None
      | Some i \<Rightarrow>
          if hd hp = CHR ''[''
          then (let e = length (takeWhile (\<lambda>x. x \<noteq> CHR '']'') hp) in
                if e < length hp \<and> e + 1 = i \<and> CHR ''['' \<notin> set (drop 1 hp) \<and> CHR '']'' \<notin> set (drop (e + 1) hp)
                then Some (take (e - 1) (drop 1 hp)) else None)
          else (let h = take i hp in
                if CHR '':'' \<notin> set h \<and> CHR ''['' \<notin> set hp \<and> CHR '']'' \<notin> set hp then Some h else None))"

definition trim_brackets :: "string \<Rightarrow> string" where
  "trim_brackets s =
     (let b = (\<lambda>c. c = CHR ''['' \<or> c = CHR '']'') in rev (dropWhile b (rev (dropWhile b s))))"

definition localhost :: "string \<Rightarrow> bool" where
  "localhost host =
     (let h = trim_brackets (case split_host host of Some x \<Rightarrow> x | None \<Rightarrow> host)
      in h = ''localhost'' \<or> h = ''127.0.0.1'' \<or> h = ''::1'')"

section \<open>State\<close>

record auth_session =
  as_csrf :: string
  as_expires :: time
  as_created :: time

record rate_window =
  rw_start :: time
  rw_count :: nat

record auth =
  au_console :: string
  au_webhook :: string
  au_has_console :: bool
  au_has_webhook :: bool
  au_local_http :: bool
  au_ttl :: int
  au_max_sessions :: nat
  au_sessions :: "(string \<times> auth_session) list"
  au_limits :: "(string \<times> rate_window) list"

text \<open>\<open>New\<close> with the options \<open>WithLocalhostHTTP\<close> and \<open>WithSessionLimits\<close>.\<close>

definition New_auth :: "string \<Rightarrow> string \<Rightarrow> bool \<Rightarrow> (int \<times> int) option \<Rightarrow> auth" where
  "New_auth consoleToken webhookToken local_http limits =
     \<lparr> au_console = hash consoleToken, au_webhook = hash webhookToken, au_has_console = (consoleToken \<noteq> []),
       au_has_webhook = (webhookToken \<noteq> []), au_local_http = local_http,
       au_ttl = (case limits of Some (ttl, _) \<Rightarrow> if ttl > 0 then ttl else seconds (8 * 3600) | None \<Rightarrow> seconds (8 * 3600)),
       au_max_sessions = (case limits of Some (_, mx) \<Rightarrow> if mx > 0 then nat mx else 100 | None \<Rightarrow> 100),
       au_sessions = [], au_limits = [] \<rparr>"

record auth_request =
  aq_method :: string
  aq_path :: string
  aq_authorization :: string
  aq_cookie :: "string option"
  aq_origin :: string
  aq_csrf :: string
  aq_host :: string
  aq_tls :: bool
  aq_remote :: string

record origin_url =
  ou_user :: bool
  ou_query :: string
  ou_fragment :: string
  ou_path :: string
  ou_host :: string
  ou_scheme :: string

section \<open>Checks\<close>

text \<open>The scope of the bearer token and whether there is an \<open>Authorization\<close> header.\<close>

definition bearer :: "auth_request \<Rightarrow> auth \<Rightarrow> string \<times> bool" where
  "bearer rq a =
     (if aq_authorization rq = [] then ([], False)
      else case go_fields (aq_authorization rq) of
        [scheme, token] \<Rightarrow>
          if to_lower scheme \<noteq> ''bearer'' then ([], True)
          else if au_has_console a \<and> hash token = au_console a then (''console'', True)
          else if au_has_webhook a \<and> hash token = au_webhook a then (''webhook'', True)
          else ([], True)
      | _ \<Rightarrow> ([], True))"

definition originOK :: "(string \<Rightarrow> origin_url option) \<Rightarrow> bool \<Rightarrow> auth_request \<Rightarrow> bool" where
  "originOK parse_url required rq =
     (if aq_origin rq = [] then \<not> required
      else case parse_url (aq_origin rq) of
        None \<Rightarrow> False
      | Some u \<Rightarrow>
          if ou_user u \<or> ou_query u \<noteq> [] \<or> ou_fragment u \<noteq> [] \<or> ou_path u \<noteq> [] \<or> ou_host u \<noteq> aq_host rq then False
          else ou_scheme u = (if aq_tls rq then ''https'' else ''http''))"

definition cookieSecure :: "auth_request \<Rightarrow> auth \<Rightarrow> bool" where
  "cookieSecure rq a = (\<not> (au_local_http a \<and> localhost (aq_host rq) \<and> \<not> aq_tls rq))"

text \<open>The session of the cookie: its identifier and the session if it is live. An expired one is dropped.\<close>

definition getSession :: "time \<Rightarrow> auth_request \<Rightarrow> auth \<Rightarrow> (string \<times> auth_session option) \<times> auth" where
  "getSession now rq a =
     (case aq_cookie rq of
        None \<Rightarrow> (([], None), a)
      | Some i \<Rightarrow>
          (case map_of (au_sessions a) i of
             None \<Rightarrow> ((i, None), a)
           | Some s \<Rightarrow>
               if as_expires s < now then ((i, None), a\<lparr>au_sessions := AList.delete i (au_sessions a)\<rparr>)
               else ((i, Some s), a)))"

section \<open>Rate limits\<close>

definition minute :: int where
  "minute = seconds 60"

definition live_windows :: "time \<Rightarrow> (string \<times> rate_window) list \<Rightarrow> (string \<times> rate_window) list" where
  "live_windows now ws = filter (\<lambda>(_, w). now - rw_start w < minute) ws"

definition allow :: "string \<Rightarrow> nat \<Rightarrow> time \<Rightarrow> auth \<Rightarrow> bool \<times> auth" where
  "allow key mx now a =
     (let ws = live_windows now (au_limits a) in
      if length ws \<ge> 10000 \<and> map_of ws key = None then (False, a\<lparr>au_limits := ws\<rparr>)
      else (let v = (case map_of ws key of None \<Rightarrow> \<lparr> rw_start = now, rw_count = 0 \<rparr> | Some w \<Rightarrow> w);
                v' = v\<lparr>rw_count := rw_count v + 1\<rparr>
            in (rw_count v' \<le> mx, a\<lparr>au_limits := AList.update key v' ws\<rparr>)))"

section \<open>The middleware\<close>

text \<open>An answer: the status and code of a refusal, or the scope and identity the request goes on with.\<close>

datatype verdict = Refused nat string | Passed string string

definition rate_limited :: verdict where
  "rate_limited = Refused 429 ''rate_limited''"

text \<open>Who sends the request, before the rate limits.\<close>

definition identify :: "(string \<Rightarrow> origin_url option) \<Rightarrow> time \<Rightarrow> auth_request \<Rightarrow> auth \<Rightarrow> verdict \<times> auth" where
  "identify parse_url now rq a =
     (case bearer rq a of (scope, present) \<Rightarrow>
      if present
      then (if scope = []
            then (if \<not> au_has_console a \<and> \<not> au_has_webhook a then Refused 503 ''auth_not_configured'' else Refused 401 ''unauthorized'', a)
            else if scope = ''webhook'' \<and> (aq_method rq \<noteq> ''POST'' \<or> aq_path rq \<noteq> ''/alert'') then (Refused 403 ''forbidden'', a)
            else (Passed scope scope, a))
      else if \<not> au_has_console a then (Refused 503 ''auth_not_configured'', a)
      else case getSession now rq a of
        ((_, None), a) \<Rightarrow> (Refused 401 ''unauthorized'', a)
      | ((sid, Some s), a) \<Rightarrow>
          if cookieSecure rq a \<and> \<not> aq_tls rq then (Refused 403 ''secure_transport_required'', a)
          else if aq_method rq \<notin> {''GET'', ''HEAD'', ''OPTIONS''} \<and> (\<not> originOK parse_url True rq \<or> aq_csrf rq \<noteq> as_csrf s)
          then (Refused 403 ''csrf_rejected'', a)
          else (Passed ''console'' (''session:'' @ sid), a))"

text \<open>\<open>rate\<close>: go on with \<open>f\<close> unless the limit of the key is reached.\<close>

definition rate :: "bool \<Rightarrow> string \<Rightarrow> nat \<Rightarrow> time \<Rightarrow> auth \<Rightarrow> (auth \<Rightarrow> verdict \<times> auth) \<Rightarrow> verdict \<times> auth" where
  "rate applies key mx now a f =
     (if \<not> applies then f a
      else case allow key mx now a of (ok, a') \<Rightarrow> if ok then f a' else (rate_limited, a'))"

definition starts_run :: "auth_request \<Rightarrow> bool" where
  "starts_run rq \<longleftrightarrow> aq_method rq = ''POST'' \<and> has_prefix (aq_path rq) ''/api/v1/incidents/'' \<and> has_suffix (aq_path rq) ''/runs''"

definition Middleware :: "(string \<Rightarrow> origin_url option) \<Rightarrow> time \<Rightarrow> auth_request \<Rightarrow> auth \<Rightarrow> verdict \<times> auth" where
  "Middleware parse_url now rq a =
     (case identify parse_url now rq a of
        (Refused st c, a) \<Rightarrow> (Refused st c, a)
      | (Passed scope i, a) \<Rightarrow>
          rate (aq_method rq = ''GET'' \<or> aq_method rq = ''HEAD'') (''read:'' @ i) 120 now a (\<lambda>a.
          rate (starts_run rq) (''runs:'' @ i) 10 now a (\<lambda>a.
            (Passed scope i, a))))"

section \<open>Sessions\<close>

fun oldest :: "(string \<times> auth_session) list \<Rightarrow> (string \<times> time) option \<Rightarrow> (string \<times> time) option" where
  "oldest [] best = best"
| "oldest ((k, v) # xs) best =
     (case best of
        None \<Rightarrow> oldest xs (Some (k, as_created v))
      | Some (i, t) \<Rightarrow> if as_created v < t then oldest xs (Some (k, as_created v)) else oldest xs best)"

definition add_session :: "string \<Rightarrow> string \<Rightarrow> time \<Rightarrow> auth \<Rightarrow> auth" where
  "add_session i csrf now a =
     (let live = filter (\<lambda>(_, v). \<not> as_expires v < now) (au_sessions a);
          room = (if length live \<ge> au_max_sessions a
                  then (case oldest live None of None \<Rightarrow> live | Some (k, _) \<Rightarrow> AList.delete k live) else live)
      in a\<lparr>au_sessions := AList.update i \<lparr> as_csrf = csrf, as_expires = now + au_ttl a, as_created = now \<rparr> room\<rparr>)"

datatype login_answer = LoginRefused nat string | LoggedIn string string time bool

definition remote_ip :: "auth_request \<Rightarrow> string" where
  "remote_ip rq = (case split_host (aq_remote rq) of Some ip \<Rightarrow> ip | None \<Rightarrow> aq_remote rq)"

text \<open>\<open>id\<close> and \<open>csrf\<close> are the random identifiers.\<close>

definition login :: "(string \<Rightarrow> origin_url option) \<Rightarrow> string \<Rightarrow> string \<Rightarrow> time \<Rightarrow> auth_request \<Rightarrow> auth \<Rightarrow> login_answer \<times> auth" where
  "login parse_url sid csrf now rq a =
     (if \<not> au_has_console a then (LoginRefused 503 ''auth_not_configured'', a)
      else case allow (''login:'' @ remote_ip rq) 5 now a of (ok, a) \<Rightarrow>
        if \<not> ok then (LoginRefused 429 ''rate_limited'', a)
        else if fst (bearer rq a) \<noteq> ''console'' then (LoginRefused 401 ''unauthorized'', a)
        else if \<not> originOK parse_url False rq then (LoginRefused 403 ''csrf_rejected'', a)
        else if cookieSecure rq a \<and> \<not> aq_tls rq then (LoginRefused 403 ''secure_transport_required'', a)
        else (LoggedIn sid csrf (now + au_ttl a) (cookieSecure rq a), add_session sid csrf now a))"

text \<open>The token and expiry of the cookie's session, for the page to use.\<close>

definition current :: "time \<Rightarrow> auth_request \<Rightarrow> auth \<Rightarrow> (string \<times> time option) \<times> auth" where
  "current now rq a =
     (case getSession now rq a of
        ((_, Some s), a) \<Rightarrow> ((as_csrf s, Some (as_expires s)), a)
      | ((_, None), a) \<Rightarrow> (([], None), a))"

definition logout :: "time \<Rightarrow> auth_request \<Rightarrow> auth \<Rightarrow> auth" where
  "logout now rq a =
     (case getSession now rq a of ((i, _), a) \<Rightarrow> a\<lparr>au_sessions := AList.delete i (au_sessions a)\<rparr>)"

section \<open>Who is let through\<close>

text \<open>The request carries the token with that digest.\<close>

definition holds_token :: "bool \<Rightarrow> string \<Rightarrow> auth_request \<Rightarrow> bool" where
  "holds_token configured digest rq \<longleftrightarrow> configured
     \<and> (\<exists>scheme token. go_fields (aq_authorization rq) = [scheme, token] \<and> to_lower scheme = ''bearer'' \<and> hash token = digest)"

text \<open>The request comes from a page of the same origin.\<close>

definition same_origin :: "(string \<Rightarrow> origin_url option) \<Rightarrow> auth_request \<Rightarrow> bool" where
  "same_origin parse_url rq \<longleftrightarrow> (\<exists>u. parse_url (aq_origin rq) = Some u \<and> ou_host u = aq_host rq \<and> ou_path u = []
     \<and> ou_scheme u = (if aq_tls rq then ''https'' else ''http''))"

text \<open>The request belongs to a live console session, over a secure or an allowed local connection, and if it may change
  something it was sent by the console's own page.\<close>

definition holds_session :: "(string \<Rightarrow> origin_url option) \<Rightarrow> time \<Rightarrow> auth_request \<Rightarrow> auth \<Rightarrow> bool" where
  "holds_session parse_url now rq a \<longleftrightarrow> au_has_console a \<and> aq_authorization rq = []
     \<and> (\<exists>sid s. aq_cookie rq = Some sid \<and> map_of (au_sessions a) sid = Some s \<and> now \<le> as_expires s
          \<and> (aq_tls rq \<or> au_local_http a \<and> localhost (aq_host rq))
          \<and> (aq_method rq \<in> {''GET'', ''HEAD'', ''OPTIONS''} \<or> same_origin parse_url rq \<and> aq_csrf rq = as_csrf s))"

definition authenticated :: "(string \<Rightarrow> origin_url option) \<Rightarrow> time \<Rightarrow> auth_request \<Rightarrow> auth \<Rightarrow> bool" where
  "authenticated parse_url now rq a \<longleftrightarrow>
     holds_token (au_has_console a) (au_console a) rq
     \<or> holds_token (au_has_webhook a) (au_webhook a) rq \<and> aq_method rq = ''POST'' \<and> aq_path rq = ''/alert''
     \<or> holds_session parse_url now rq a"

lemma bearer_cases:
  assumes "bearer rq a = (scope, present)"
  obtains (absent) "scope = []" and "\<not> present" and "aq_authorization rq = []"
  | (bad) "scope = []" and present
  | (console) "scope = ''console''" and present and "holds_token (au_has_console a) (au_console a) rq"
  | (webhook) "scope = ''webhook''" and present and "holds_token (au_has_webhook a) (au_webhook a) rq"
  using assms by (auto simp: bearer_def holds_token_def split: if_splits list.splits)

lemma originOK_required: "originOK parse_url True rq \<Longrightarrow> same_origin parse_url rq"
  by (auto simp: originOK_def same_origin_def split: if_splits option.splits)

lemma getSession_live:
  assumes "getSession now rq a = ((sid, Some s), a')"
  shows "aq_cookie rq = Some sid \<and> map_of (au_sessions a) sid = Some s \<and> now \<le> as_expires s \<and> a' = a"
  using assms by (auto simp: getSession_def split: option.splits if_splits)

lemma identify_sound:
  assumes "identify parse_url now rq a = (Passed scope i, a')"
  shows "authenticated parse_url now rq a \<and> a' = a \<and> (scope = ''console'' \<or> scope = ''webhook'' \<and> aq_method rq = ''POST'' \<and> aq_path rq = ''/alert'')"
proof -
  obtain sc present where b: "bearer rq a = (sc, present)" by fastforce
  from b show ?thesis
  proof (cases rule: bearer_cases)
    case absent
    obtain sid so a1 where g: "getSession now rq a = ((sid, so), a1)" by (metis surj_pair)
    with assms b absent obtain s where so: "so = Some s" by (cases so) (auto simp: identify_def split: if_splits)
    note l = getSession_live [OF g [unfolded so]]
    have "au_has_console a" "\<not> (cookieSecure rq a \<and> \<not> aq_tls rq)" "a' = a"
      "aq_method rq \<in> {''GET'', ''HEAD'', ''OPTIONS''} \<or> originOK parse_url True rq \<and> aq_csrf rq = as_csrf s" "scope = ''console''"
      using assms b absent g so l by (auto simp: identify_def split: if_splits)
    with l absent originOK_required show ?thesis
      by (auto simp: authenticated_def holds_session_def cookieSecure_def)
  qed (use assms b in \<open>auto simp: identify_def authenticated_def split: if_splits\<close>)
qed

lemma rate_Passed:
  assumes "rate applies key mx now a f = (Passed scope i, a')"
  obtains b where "f b = (Passed scope i, a')" and "au_sessions b = au_sessions a"
  using assms by (auto simp: rate_def rate_limited_def allow_def Let_def split: if_splits prod.splits option.splits)

lemma identify_Passed:
  assumes "Middleware parse_url now rq a = (Passed scope i, a')"
  shows "authenticated parse_url now rq a \<and> (scope = ''console'' \<or> scope = ''webhook'' \<and> aq_method rq = ''POST'' \<and> aq_path rq = ''/alert'')"
proof -
  obtain v b where v: "identify parse_url now rq a = (v, b)" by fastforce
  with assms obtain sc j where p: "v = Passed sc j" by (cases v) (auto simp: Middleware_def)
  have "sc = scope" using assms v p by (auto simp: Middleware_def elim!: rate_Passed)
  with identify_sound [OF v [unfolded p]] show ?thesis by simp
qed

text \<open>C12. Only authenticated requests are let through. When the middleware passes a request on, it carries the console token,
  or the webhook token and is a \<open>POST\<close> to \<open>/alert\<close>, or the cookie of a session that is live, over TLS or an allowed local
  connection, and then a request that may change something comes from the same origin and repeats the session's CSRF token.
  A request with the webhook token never reaches anything but the webhook.\<close>

theorem Middleware_sound:
  assumes "Middleware parse_url now rq a = (Passed scope i, a')"
  shows "authenticated parse_url now rq a \<and> (scope = ''console'' \<or> scope = ''webhook'' \<and> aq_method rq = ''POST'' \<and> aq_path rq = ''/alert'')"
  using assms by (rule identify_Passed)

definition ex_auth :: auth where
  "ex_auth = (New_auth ''secret'' [] True None)\<lparr>au_sessions := [(''sid'', \<lparr> as_csrf = ''token'', as_expires = seconds 28800, as_created = 0 \<rparr>)]\<rparr>"

definition ex_page :: auth_request where
  "ex_page = \<lparr> aq_method = ''POST'', aq_path = ''/upload'', aq_authorization = [], aq_cookie = Some ''sid'', aq_origin = ''o'',
     aq_csrf = ''token'', aq_host = ''localhost'', aq_tls = False, aq_remote = [] \<rparr>"

definition ex_parse_url :: "string \<Rightarrow> origin_url option" where
  "ex_parse_url s = (if s = ''o'' then Some \<lparr> ou_user = False, ou_query = [], ou_fragment = [], ou_path = [], ou_host = ''localhost'',
     ou_scheme = ''http'' \<rparr> else None)"

lemma ex_page_passes: "\<exists>a'. Middleware ex_parse_url 50 ex_page ex_auth = (Passed ''console'' ''session:sid'', a')"
proof -
  have "localhost ''localhost''" by code_simp
  then show ?thesis
    by (simp add: Middleware_def identify_def bearer_def ex_page_def ex_auth_def New_auth_def getSession_def cookieSecure_def originOK_def
        ex_parse_url_def rate_def starts_run_def has_prefix_def seconds_def)
qed

theorem Middleware_sound_witness: "authenticated ex_parse_url 50 ex_page ex_auth"
  using Middleware_sound ex_page_passes by blast

section \<open>The authentication state\<close>

text \<open>The operations on the state, with the identifier a login would issue.\<close>

inductive auth_step :: "string option \<Rightarrow> auth \<Rightarrow> auth \<Rightarrow> bool" where
  pass: "Middleware parse_url now rq a = (v, a') \<Longrightarrow> auth_step None a a'"
| issue: "login parse_url sid csrf now rq a = (v, a') \<Longrightarrow> auth_step (Some sid) a a'"
| show_current: "current now rq a = (v, a') \<Longrightarrow> auth_step None a a'"
| revoke: "auth_step None a (logout now rq a)"

definition any_step :: "auth \<Rightarrow> auth \<Rightarrow> bool" where
  "any_step a a' \<longleftrightarrow> (\<exists>l. auth_step l a a')"

definition auth_ok :: "auth \<Rightarrow> bool" where
  "auth_ok a \<longleftrightarrow> distinct (map fst (au_sessions a)) \<and> length (au_sessions a) \<le> au_max_sessions a \<and> 0 < au_max_sessions a
     \<and> distinct (map fst (au_limits a)) \<and> length (au_limits a) \<le> 10000
     \<and> (\<forall>(_, s) \<in> set (au_sessions a). as_expires s = as_created s + au_ttl a)"

text \<open>The credentials and options are fixed.\<close>

definition config_of :: "auth \<Rightarrow> string \<times> string \<times> bool \<times> bool \<times> bool \<times> int \<times> nat" where
  "config_of a = (au_console a, au_webhook a, au_has_console a, au_has_webhook a, au_local_http a, au_ttl a, au_max_sessions a)"

definition sessions_kept :: "string option \<Rightarrow> auth \<Rightarrow> auth \<Rightarrow> bool" where
  "sessions_kept l a a' \<longleftrightarrow> (\<forall>x \<in> set (au_sessions a'). x \<in> set (au_sessions a) \<or> Some (fst x) = l)"

definition auth_next :: "string option \<Rightarrow> auth \<Rightarrow> auth \<Rightarrow> bool" where
  "auth_next l a a' \<longleftrightarrow> auth_ok a' \<and> config_of a' = config_of a \<and> sessions_kept l a a'"

lemma auth_next_refl: "auth_ok a \<Longrightarrow> auth_next l a a"
  by (simp add: auth_next_def sessions_kept_def)

lemma auth_next_trans: "auth_next l a b \<Longrightarrow> auth_next l b c \<Longrightarrow> auth_next l a c"
  unfolding auth_next_def sessions_kept_def by auto

lemma length_update: "length (AList.update k v xs) = (if k \<in> fst ` set xs then length xs else Suc (length xs))"
  by (induction xs) auto

lemma length_delete_le: "length (AList.delete k xs) \<le> length xs"
  by (simp add: AList.delete_eq)

lemma length_delete_less: "k \<in> fst ` set xs \<Longrightarrow> length (AList.delete k xs) < length xs"
  by (auto simp: AList.delete_eq intro: length_filter_less)

lemma update_rows: "x \<in> set (AList.update k v xs) \<Longrightarrow> x \<in> set xs \<or> x = (k, v)"
  by (induction xs) (auto split: if_splits)

lemma auth_next_allow:
  assumes "allow key mx now a = (ok, a')" and "auth_ok a"
  shows "auth_next l a a' \<and> au_sessions a' = au_sessions a"
proof -
  have len: "length (live_windows now (au_limits a)) \<le> 10000" using assms(2) le_trans [OF length_filter_le] by (auto simp: live_windows_def auth_ok_def)
  have dist: "distinct (map fst (live_windows now (au_limits a)))" using assms(2) by (simp add: live_windows_def auth_ok_def distinct_map_filter)
  define ws where "ws = live_windows now (au_limits a)"
  consider "a' = a\<lparr>au_limits := ws\<rparr>" | v where "a' = a\<lparr>au_limits := AList.update key v ws\<rparr>" "length ws < 10000 \<or> key \<in> fst ` set ws"
    using assms(1) by (auto simp: allow_def Let_def ws_def map_of_eq_None_iff split: if_splits)
  then show ?thesis
  proof cases
    case 1
    then show ?thesis using assms(2) len dist by (simp add: auth_next_def auth_ok_def config_of_def sessions_kept_def ws_def)
  next
    case 2
    have "length (AList.update key v ws) \<le> 10000" using 2(2) len by (auto simp: length_update ws_def)
    moreover have "distinct (map fst (AList.update key v ws))" using dist by (simp add: distinct_update ws_def)
    ultimately show ?thesis using 2(1) assms(2) by (simp add: auth_next_def auth_ok_def config_of_def sessions_kept_def)
  qed
qed

lemma delete_rows: "set (AList.delete k xs) \<subseteq> set xs"
  by (auto simp: AList.delete_eq)

lemma auth_next_delete:
  assumes "auth_ok a"
  shows "auth_next l a (a\<lparr>au_sessions := AList.delete i (au_sessions a)\<rparr>)"
proof -
  have "length (AList.delete i (au_sessions a)) \<le> au_max_sessions a"
    using length_delete_le [of i "au_sessions a"] assms by (simp add: auth_ok_def)
  moreover have "distinct (map fst (AList.delete i (au_sessions a)))" using assms by (intro distinct_delete) (simp add: auth_ok_def)
  ultimately show ?thesis
    using assms delete_rows [of i "au_sessions a"] by (auto simp: auth_next_def auth_ok_def config_of_def sessions_kept_def)
qed

lemma auth_next_getSession: "getSession now rq a = (x, a') \<Longrightarrow> auth_ok a \<Longrightarrow> auth_next l a a'"
  by (auto simp: getSession_def auth_next_refl auth_next_delete split: option.splits if_splits)

lemma auth_next_identify: "identify parse_url now rq a = (v, a') \<Longrightarrow> auth_ok a \<Longrightarrow> auth_next l a a'"
  by (auto simp: identify_def auth_next_refl split: prod.splits if_splits option.splits dest: auth_next_getSession)

lemma auth_next_rate:
  assumes "rate applies key mx now a f = (v, a')" and "auth_ok a" and "\<And>b v a'. f b = (v, a') \<Longrightarrow> auth_ok b \<Longrightarrow> auth_next l b a'"
  shows "auth_next l a a'"
proof (cases applies)
  case True
  obtain ok b where al: "allow key mx now a = (ok, b)" by fastforce
  note n = conjunct1 [OF auth_next_allow [OF al assms(2), of l]]
  then have b: "auth_ok b" by (simp add: auth_next_def)
  show ?thesis
  proof (cases ok)
    case True
    with \<open>applies\<close> assms(1) al have "f b = (v, a')" by (simp add: rate_def)
    from auth_next_trans [OF n assms(3) [OF this b]] show ?thesis .
  next
    case False
    with \<open>applies\<close> assms(1) al n show ?thesis by (simp add: rate_def)
  qed
next
  case False
  with assms(1) have "f a = (v, a')" by (simp add: rate_def)
  from assms(3) [OF this assms(2)] show ?thesis .
qed

lemma auth_next_Middleware:
  assumes "Middleware parse_url now rq a = (v, a')" and "auth_ok a"
  shows "auth_next l a a'"
proof -
  obtain u b where i: "identify parse_url now rq a = (u, b)" by fastforce
  note n = auth_next_identify [OF i assms(2), of l]
  then have b: "auth_ok b" by (simp add: auth_next_def)
  show ?thesis
  proof (cases u)
    case (Refused st c)
    with assms(1) i n show ?thesis by (simp add: Middleware_def)
  next
    case (Passed scope k)
    have inner: "auth_next l c d" if "rate x k m now c (\<lambda>a. (Passed scope j, a)) = (w, d)" "auth_ok c" for x k m c j w d
      using that by (rule auth_next_rate) (auto intro: auth_next_refl)
    have "auth_next l b a'"
      using assms(1) i Passed by (intro auth_next_rate [OF _ b inner]) (auto simp: Middleware_def)
    with n show ?thesis by (rule auth_next_trans)
  qed
qed

lemma oldest_key:
  assumes "oldest xs best = Some (k, t)"
  shows "k \<in> fst ` set xs \<or> map_option fst best = Some k"
  using assms
proof (induction xs arbitrary: best)
  case (Cons x xs)
  obtain i v where x: "x = (i, v)" by fastforce
  show ?case
  proof (cases best)
    case None
    with Cons.prems Cons.IH [of "Some (i, as_created v)"] show ?thesis by (auto simp: x)
  next
    case (Some b)
    obtain j t0 where b: "b = (j, t0)" by fastforce
    with Some Cons.prems Cons.IH [of "Some (i, as_created v)"] Cons.IH [of best] show ?thesis by (auto simp: x split: if_splits)
  qed
qed simp

lemma oldest_some: "xs \<noteq> [] \<or> best \<noteq> None \<Longrightarrow> oldest xs best \<noteq> None"
  by (induction xs best rule: oldest.induct) (auto split: option.splits)

lemma auth_next_add:
  assumes "auth_ok a"
  shows "auth_next (Some i) a (add_session i csrf now a)"
proof -
  define live where "live = filter (\<lambda>(_, v). \<not> as_expires v < now) (au_sessions a)"
  define room where "room = (if length live \<ge> au_max_sessions a then (case oldest live None of None \<Rightarrow> live | Some (k, _) \<Rightarrow> AList.delete k live) else live)"
  have ok: "distinct (map fst (au_sessions a))" "length (au_sessions a) \<le> au_max_sessions a" "0 < au_max_sessions a"
    using assms by (simp_all add: auth_ok_def)
  have d: "distinct (map fst live)" using ok(1) by (simp add: live_def distinct_map_filter)
  have len: "length live \<le> au_max_sessions a" using ok(2) le_trans [OF length_filter_le] by (auto simp: live_def)
  have sub: "set room \<subseteq> set (au_sessions a)"
    by (auto simp: room_def live_def AList.delete_eq split: option.splits if_splits)
  have room: "length room < au_max_sessions a"
  proof (cases "length live \<ge> au_max_sessions a")
    case True
    with ok(3) have "live \<noteq> []" by auto
    then obtain k t where o: "oldest live None = Some (k, t)" using oldest_some [of live None] by auto
    then have "length (AList.delete k live) < length live" using oldest_key [OF o] by (intro length_delete_less) simp
    with len True o show ?thesis by (simp add: room_def)
  qed (simp add: room_def)
  have dr: "distinct (map fst room)" using d by (auto simp: room_def distinct_delete split: option.split)
  have eq: "add_session i csrf now a
      = a\<lparr>au_sessions := AList.update i \<lparr> as_csrf = csrf, as_expires = now + au_ttl a, as_created = now \<rparr> room\<rparr>"
    by (simp only: add_session_def Let_def room_def live_def)
  let ?s = "\<lparr> as_csrf = csrf, as_expires = now + au_ttl a, as_created = now \<rparr>"
  have rows: "x \<in> set (AList.update i ?s room) \<Longrightarrow> x \<in> set (au_sessions a) \<or> x = (i, ?s)" for x
    using update_rows [of x i ?s room] sub by blast
  have "length (AList.update i ?s room) \<le> au_max_sessions a" using room by (simp add: length_update)
  moreover have "\<forall>(_, s) \<in> set (AList.update i ?s room). as_expires s = as_created s + au_ttl a"
    using rows assms by (fastforce simp: auth_ok_def)
  moreover have "\<forall>x \<in> set (AList.update i ?s room). x \<in> set (au_sessions a) \<or> fst x = i" using rows by fastforce
  ultimately show ?thesis
    using assms dr by (simp add: eq auth_next_def auth_ok_def config_of_def sessions_kept_def distinct_update)
qed

lemma auth_next_login:
  assumes "login parse_url sid csrf now rq a = (v, a')" and "auth_ok a"
  shows "auth_next (Some sid) a a'"
proof (cases "au_has_console a")
  case True
  obtain ok b where al: "allow (''login:'' @ remote_ip rq) 5 now a = (ok, b)" by fastforce
  note n = conjunct1 [OF auth_next_allow [OF al assms(2), of "Some sid"]]
  then have "auth_ok b" by (simp add: auth_next_def)
  then have "auth_next (Some sid) b a'"
    using assms(1) True al by (auto simp: login_def auth_next_refl auth_next_add split: if_splits)
  with n show ?thesis by (rule auth_next_trans)
qed (use assms in \<open>simp add: login_def auth_next_refl\<close>)

lemma auth_next_logout: "auth_ok a \<Longrightarrow> auth_next l a (logout now rq a)"
  using auth_next_getSession [of now rq a _ _ l] auth_next_delete [of _ l] auth_next_trans
  by (auto simp: logout_def split: prod.splits) (metis auth_next_def)

lemma auth_step_next: "auth_step l a a' \<Longrightarrow> auth_ok a \<Longrightarrow> auth_next l a a'"
proof (induction rule: auth_step.induct)
  case (show_current now rq a v a')
  then show ?case by (auto simp: current_def split: prod.splits option.splits dest: auth_next_getSession)
qed (auto intro: auth_next_Middleware auth_next_login auth_next_logout)

text \<open>The state right after \<open>New\<close>.\<close>

definition auth_start :: "auth \<Rightarrow> bool" where
  "auth_start a \<longleftrightarrow> (\<exists>c w h l. a = New_auth c w h l)"

lemma auth_ok_start: "auth_start a \<Longrightarrow> auth_ok a"
  by (auto simp: auth_start_def New_auth_def auth_ok_def split: option.splits)

definition auth_follows :: "auth \<Rightarrow> auth \<Rightarrow> bool" where
  "auth_follows a a' \<longleftrightarrow> config_of a' = config_of a"

interpretation au: transition_system any_step auth_start auth_ok auth_follows
proof
  show "auth_ok a" if "auth_start a" for a using that by (rule auth_ok_start)
  show "auth_ok b" if "auth_ok a" "any_step a b" for a b using that auth_step_next by (auto simp: any_step_def auth_next_def)
  show "auth_follows a b" if "auth_ok a" "any_step a b" for a b
    using that auth_step_next by (auto simp: any_step_def auth_next_def auth_follows_def)
qed (simp_all add: auth_follows_def)

text \<open>The authentication state is bounded, whatever requests arrive: there are never more sessions than configured (100
  by default) nor more than 10000 rate windows, each under one key; a session lives for the configured time; and no request
  changes the credentials or the options.\<close>

theorem auth_bounded:
  assumes "auth_start a" and "any_step\<^sup>*\<^sup>* a b"
  shows "length (au_sessions b) \<le> au_max_sessions a \<and> distinct (map fst (au_sessions b)) \<and> length (au_limits b) \<le> 10000
    \<and> config_of b = config_of a \<and> (\<forall>(_, s) \<in> set (au_sessions b). as_expires s = as_created s + au_ttl a)"
  using au.reachable_inv [OF assms] au.path_inv [OF assms(2) auth_ok_start [OF assms(1)]]
  by (auto simp: auth_ok_def auth_follows_def config_of_def)

theorem auth_bounded_witness:
  "auth_start (New_auth ''secret'' [] True None) \<and> length (au_sessions (snd (Middleware ex_parse_url 50 ex_page (New_auth ''secret'' [] True None)))) \<le> 100"
proof -
  let ?a = "New_auth ''secret'' [] True None"
  have s: "auth_start ?a" by (auto simp: auth_start_def)
  have "any_step ?a (snd (Middleware ex_parse_url 50 ex_page ?a))" by (auto simp: any_step_def intro: auth_step.pass [OF prod.collapse [symmetric]])
  from auth_bounded [OF s r_into_rtranclp [of any_step, OF this]] s show ?thesis by (simp add: New_auth_def)
qed

section \<open>Sessions come from logins and end with a logout\<close>

definition quiet_step :: "string \<Rightarrow> auth \<Rightarrow> auth \<Rightarrow> bool" where
  "quiet_step sid a a' \<longleftrightarrow> (\<exists>l. l \<noteq> Some sid \<and> auth_step l a a')"

lemma quiet_path:
  assumes "(quiet_step sid)\<^sup>*\<^sup>* a b" and "auth_ok a" and "map_of (au_sessions a) sid = None"
  shows "auth_ok b \<and> map_of (au_sessions b) sid = None"
  using assms(1)
proof (induction rule: rtranclp_induct)
  case (step b c)
  then obtain l where l: "l \<noteq> Some sid" "auth_step l b c" by (auto simp: quiet_step_def)
  have n: "auth_next l b c" using auth_step_next [OF l(2)] step by blast
  have "sid \<notin> fst ` set (au_sessions c)"
  proof
    assume "sid \<in> fst ` set (au_sessions c)"
    then obtain s where "(sid, s) \<in> set (au_sessions c)" by auto
    with n l(1) have "(sid, s) \<in> set (au_sessions b)" by (fastforce simp: auth_next_def sessions_kept_def)
    with step show False by (force simp: map_of_eq_None_iff)
  qed
  with n show ?case by (simp add: auth_next_def map_of_eq_None_iff)
qed (use assms in simp)

lemma refused_without_session:
  assumes "map_of (au_sessions a) sid = None" and "aq_cookie rq = Some sid" and "aq_authorization rq = []"
  shows "\<exists>st c a'. Middleware parse_url now rq a = (Refused st c, a') \<and> (st = 401 \<or> st = 503)"
  using assms by (simp add: Middleware_def identify_def bearer_def getSession_def)

lemma logout_gone: "aq_cookie rq = Some sid \<Longrightarrow> map_of (au_sessions (logout now rq a)) sid = None"
  by (auto simp: logout_def getSession_def map_of_eq_None_iff AList.delete_eq split: option.splits)

text \<open>C13. A logout ends the session for good. After a logout, whatever happens next, a request with that cookie and no token is
  refused, unless a login has issued the same identifier again.\<close>

theorem logout_revokes:
  assumes "auth_ok a" and "aq_cookie rq = Some sid" and "(quiet_step sid)\<^sup>*\<^sup>* (logout now rq a) b"
    and "aq_cookie rq' = Some sid" and "aq_authorization rq' = []"
  shows "\<exists>st c b'. Middleware parse_url now' rq' b = (Refused st c, b') \<and> (st = 401 \<or> st = 503)"
proof -
  have "auth_ok (logout now rq a)" using auth_next_logout [OF assms(1), of None now rq] by (simp add: auth_next_def)
  from quiet_path [OF assms(3) this logout_gone [OF assms(2)]] refused_without_session [OF _ assms(4,5)] show ?thesis by blast
qed

theorem logout_revokes_witness:
  "(\<exists>a'. Middleware ex_parse_url 50 ex_page ex_auth = (Passed ''console'' ''session:sid'', a'))
   \<and> (\<exists>st c b'. Middleware ex_parse_url 60 ex_page (logout 55 ex_page ex_auth) = (Refused st c, b') \<and> (st = 401 \<or> st = 503))"
proof -
  have "auth_ok ex_auth" "aq_cookie ex_page = Some ''sid''" "aq_authorization ex_page = []"
    "(quiet_step ''sid'')\<^sup>*\<^sup>* (logout 55 ex_page ex_auth) (logout 55 ex_page ex_auth)"
    by (simp_all add: auth_ok_def ex_auth_def New_auth_def ex_page_def)
  from logout_revokes [OF this(1,2,4,2,3)] ex_page_passes show ?thesis by blast
qed

text \<open>A session is issued only to the holder of the console token. When an operation adds a session, it is a login whose
  request carries the console token, over TLS or an allowed local connection.\<close>

theorem session_issued:
  assumes "auth_ok a" and "auth_step l a b" and "map_of (au_sessions a) sid = None" and "map_of (au_sessions b) sid \<noteq> None"
  shows "\<exists>parse_url csrf now rq. l = Some sid \<and> holds_token (au_has_console a) (au_console a) rq
    \<and> (aq_tls rq \<or> au_local_http a \<and> localhost (aq_host rq)) \<and> login parse_url sid csrf now rq a
      = (LoggedIn sid csrf (now + au_ttl a) (cookieSecure rq a), b)"
proof -
  from assms(4) obtain s where s: "(sid, s) \<in> set (au_sessions b)" by (auto simp: map_of_eq_None_iff dest: map_of_SomeD)
  have notin: "(sid, s) \<notin> set (au_sessions a)" using assms(3) by (force simp: map_of_eq_None_iff)
  have l: "l = Some sid"
    using auth_step_next [OF assms(2,1)] s notin by (fastforce simp: auth_next_def sessions_kept_def)
  from assms(2) l obtain parse_url csrf now rq v where log: "login parse_url sid csrf now rq a = (v, b)" by (auto elim: auth_step.cases)
  obtain ok c where al: "allow (''login:'' @ remote_ip rq) 5 now a = (ok, c)" by fastforce
  have c: "config_of c = config_of a" "au_sessions c = au_sessions a"
    using auth_next_allow [OF al assms(1), of None] by (simp_all add: auth_next_def)
  have ne: "au_sessions b \<noteq> au_sessions a" using s notin by auto
  have has: "au_has_console a" using log ne by (auto simp: login_def split: if_splits)
  have r: "ok" "fst (bearer rq c) = ''console''" "\<not> (cookieSecure rq c \<and> \<not> aq_tls rq)"
    "v = LoggedIn sid csrf (now + au_ttl c) (cookieSecure rq c)"
    using log al has ne c(2) by (auto simp: login_def split: if_splits)
  obtain pr where "bearer rq c = (''console'', pr)" using r(2) by (metis prod.collapse)
  then have "holds_token (au_has_console c) (au_console c) rq" by (cases rule: bearer_cases) auto
  with c(1) r has log l show ?thesis by (auto simp: config_of_def cookieSecure_def)
qed

definition ex_login :: auth_request where
  "ex_login = ex_page\<lparr>aq_authorization := ''Bearer secret'', aq_cookie := None\<rparr>"

theorem session_issued_witness:
  "\<exists>b. auth_step (Some ''new'') ex_auth b \<and> map_of (au_sessions b) ''new'' \<noteq> None
     \<and> (\<exists>parse_url csrf now rq. holds_token True (hash ''secret'') rq \<and> login parse_url ''new'' csrf now rq ex_auth
      = (LoggedIn ''new'' csrf (now + au_ttl ex_auth) (cookieSecure rq ex_auth), b))"
proof -
  have f: "go_fields ''Bearer secret'' = [''Bearer'', ''secret'']" "localhost ''localhost''" "to_lower ''Bearer'' = ''bearer''" by code_simp+
  let ?r = "login ex_parse_url ''new'' ''token'' 50 ex_login ex_auth"
  have "map_of (au_sessions (snd ?r)) ''new'' \<noteq> None"
    by (simp add: login_def ex_auth_def New_auth_def allow_def live_windows_def Let_def bearer_def ex_login_def ex_page_def f originOK_def
        ex_parse_url_def cookieSecure_def add_session_def seconds_def update_conv')
  moreover have "auth_step (Some ''new'') ex_auth (snd ?r)" by (rule auth_step.issue [OF prod.collapse [symmetric]])
  moreover have "auth_ok ex_auth" "map_of (au_sessions ex_auth) ''new'' = None" "au_has_console ex_auth" "au_console ex_auth = hash ''secret''"
    by (simp_all add: auth_ok_def ex_auth_def New_auth_def)
  ultimately show ?thesis using session_issued [of ex_auth "Some ''new''" "snd ?r" "''new''"] by metis
qed

section \<open>The rate limit\<close>

text \<open>A sequence of calls of \<open>allow\<close>: key, limit and time of each. The result tells which were allowed.\<close>

fun allow_all :: "(string \<times> nat \<times> time) list \<Rightarrow> auth \<Rightarrow> bool list \<times> auth" where
  "allow_all [] a = ([], a)"
| "allow_all ((key, mx, now) # cs) a =
     (case allow key mx now a of (ok, a') \<Rightarrow> case allow_all cs a' of (oks, a'') \<Rightarrow> (ok # oks, a''))"

definition allowed :: "string \<Rightarrow> (string \<times> nat \<times> time) list \<Rightarrow> auth \<Rightarrow> nat" where
  "allowed key cs a = length (filter (\<lambda>(c, ok). fst c = key \<and> ok) (zip cs (fst (allow_all cs a))))"

lemma allowed_simps [simp]:
  "allowed key [] a = 0"
  "allowed key ((k, mx, now) # cs) a = (if k = key \<and> fst (allow k mx now a) then 1 else 0) + allowed key cs (snd (allow k mx now a))"
  by (simp_all add: allowed_def split: prod.split)

text \<open>What the key may still use up in the minute from \<open>t\<close>: the rest of its window, and a whole new window if this one began
  before.\<close>

definition budget :: "string \<Rightarrow> nat \<Rightarrow> time \<Rightarrow> auth \<Rightarrow> nat" where
  "budget key mx t a =
     (case map_of (au_limits a) key of
        None \<Rightarrow> mx
      | Some w \<Rightarrow> (mx - rw_count w) + (if rw_start w < t then mx else 0))"

lemma map_of_live:
  assumes "distinct (map fst ws)"
  shows "map_of (live_windows now ws) key = (case map_of ws key of None \<Rightarrow> None | Some w \<Rightarrow> if now - rw_start w < minute then Some w else None)"
  using assms
proof (induction ws)
  case (Cons x ws)
  obtain k w where x: "x = (k, w)" by fastforce
  have "map_of ws k = None" using Cons.prems by (simp add: x map_of_eq_None_iff)
  with Cons show ?case by (auto simp: live_windows_def x split: option.splits)
qed (simp add: live_windows_def)

lemma budget_allow:
  assumes ok: "auth_ok a" and t: "t \<le> now" "now < t + minute" and al: "allow k m now a = (b, a')" and m: "k = key \<Longrightarrow> m = mx"
  shows "(if k = key \<and> b then 1 else 0) + budget key mx t a' \<le> budget key mx t a"
proof -
  define ws where "ws = live_windows now (au_limits a)"
  have live: "map_of ws j = (case map_of (au_limits a) j of None \<Rightarrow> None | Some w \<Rightarrow> if now - rw_start w < minute then Some w else None)" for j
    unfolding ws_def using ok by (intro map_of_live) (simp add: auth_ok_def)
  define w where "w = (case map_of ws k of None \<Rightarrow> \<lparr> rw_start = now, rw_count = 0 \<rparr> | Some w \<Rightarrow> w)"
  consider (full) "\<not> b" "a' = a\<lparr>au_limits := ws\<rparr>"
    | (counted) "b \<longleftrightarrow> Suc (rw_count w) \<le> m" "a' = a\<lparr>au_limits := AList.update k (w\<lparr>rw_count := rw_count w + 1\<rparr>) ws\<rparr>"
    using al by (auto simp: allow_def Let_def ws_def [symmetric] w_def [symmetric] split: if_splits)
  then show ?thesis
  proof cases
    case full
    then show ?thesis using t live [of key] by (auto simp: budget_def split: option.splits)
  next
    case counted
    show ?thesis
    proof (cases "k = key")
      case True
      then show ?thesis
        using counted t live [of key] m by (auto simp: budget_def w_def update_conv' split: option.splits if_splits)
    next
      case False
      then show ?thesis using counted t live [of key] by (auto simp: budget_def update_conv' split: option.splits)
    qed
  qed
qed

text \<open>C14. The rate limit holds. Within any minute, whatever other requests are made in between, at most twice the limit of the
  requests under one key are allowed, and at most the limit itself when the key had no window before.\<close>

theorem rate_limit:
  assumes "auth_ok a" and "list_all (\<lambda>(k, m, now). t \<le> now \<and> now < t + minute \<and> (k = key \<longrightarrow> m = mx)) cs"
  shows "allowed key cs a \<le> 2 * mx \<and> (map_of (au_limits a) key = None \<longrightarrow> allowed key cs a \<le> mx)"
proof -
  have "allowed key cs a \<le> budget key mx t a"
    using assms
  proof (induction cs arbitrary: a)
    case (Cons c cs)
    obtain k m now where c: "c = (k, m, now)" by (metis surj_pair)
    obtain b a' where al: "allow k m now a = (b, a')" by fastforce
    have "(if k = key \<and> b then 1 else 0) + budget key mx t a' \<le> budget key mx t a"
      using Cons.prems al by (intro budget_allow [of a t now k m b a' key mx]) (auto simp: c)
    moreover have "allowed key cs a' \<le> budget key mx t a'"
      using Cons.prems auth_next_allow [OF al Cons.prems(1), of None] by (intro Cons.IH) (auto simp: auth_next_def)
    ultimately show ?case by (simp add: c al)
  qed simp
  then show ?thesis by (auto simp: budget_def split: option.splits if_splits)
qed

theorem rate_limit_witness:
  "allowed ''login:ip'' [(''login:ip'', 5, 1), (''read:console'', 120, 2), (''login:ip'', 5, 3)] ex_auth \<le> 10"
proof -
  have "auth_ok ex_auth" by (simp add: auth_ok_def ex_auth_def New_auth_def)
  moreover have "list_all (\<lambda>(k, m, now). 0 \<le> now \<and> now < 0 + minute \<and> (k = ''login:ip'' \<longrightarrow> m = 5))
    [(''login:ip'', 5, 1), (''read:console'', 120, 2), (''login:ip'', 5, 3)]" by (simp add: minute_def seconds_def)
  ultimately show ?thesis using rate_limit [of ex_auth 0 "''login:ip''" 5] by auto
qed

end
