(* ===== verification/Gateway.thy ===== *)
theory Gateway
  imports Http Auth
begin

text \<open>
  The router of the server (\<open>src/cmd/server/main.go\<close>): the authentication middleware in front of the handlers.

  A request comes in two views: what the middleware reads of it and what the handler reads of it.
\<close>

definition protected :: "string \<Rightarrow> bool" where
  "protected p \<longleftrightarrow> has_prefix p ''/api/v1/''
     \<or> p \<in> {''/chat'', ''/alert'', ''/reports'', ''/plan'', ''/upload'', ''/list'', ''/delete'', ''/session'', ''/reindex'', ''/mcp'', ''/metrics''}"

text \<open>\<open>/ready\<close>: the queue is ready and the retrieval source answered its last probe.\<close>

definition ready_http :: "dispatch_env \<Rightarrow> bool \<Rightarrow> nat" where
  "ready_http q source_ok = (if \<not> Ready q \<or> \<not> source_ok then 503 else 200)"

definition route :: "(string \<Rightarrow> origin_url option) \<Rightarrow> time \<Rightarrow> auth_request \<Rightarrow> api_env \<Rightarrow> endpoint \<Rightarrow> web_request \<Rightarrow> auth \<Rightarrow> dstate \<Rightarrow>
    nat \<times> auth \<times> dstate" where
  "route parse_url now aq env h rq a s =
     (if protected (aq_path aq)
      then (case Middleware parse_url now aq a of
              (Refused st _, a') \<Rightarrow> (st, a', s)
            | (Passed _ _, a') \<Rightarrow> (case serve env h rq s of (st, s') \<Rightarrow> (st, a', s')))
      else (case serve env h rq s of (st, s') \<Rightarrow> (st, a, s')))"

text \<open>Every endpoint of the route tables is behind the middleware.\<close>

lemma tables_protected: "list_all (\<lambda>((_, p), _). protected p) (RegisterWorkspace @ mounted)"
  by (simp add: RegisterWorkspace_def mounted_def protected_def has_prefix_def)

lemma Middleware_refuses:
  assumes "Middleware parse_url now rq a = (Refused st c, a')"
  shows "st \<in> {401, 403, 429, 503}"
  using assms
  by (auto simp: Middleware_def rate_def rate_limited_def identify_def split: prod.splits if_splits verdict.splits option.splits)


definition ex_anonymous :: auth_request where
  "ex_anonymous = ex_page\<lparr>aq_path := ''/alert'', aq_cookie := None\<rparr>"


end
