(* ===== verification/Metrics.thy ===== *)
theory Metrics
  imports Api Topology Complex_Main
begin

text \<open>
  The metric and topology endpoints (\<open>src/internal/handler/workspace_metrics.go\<close>).

  \<open>decode_stream\<close> reads the first JSON value of a text and tells whether the text ends after it, as for the topology file.
  The answer of Prometheus is a parameter, \<open>num\<close> reads a JSON number as a float and \<open>float_text\<close> is
  \<open>strconv.ParseFloat\<close>. Floats are real numbers. A member that occurs twice in an object keeps the last value, and
  white space inside an empty array of histograms is not told apart.

  \<open>go_quote\<close> is \<open>strconv.Quote\<close> for ASCII text; bytes of other characters are kept, as for printable characters.
\<close>

section \<open>Templates\<close>

record metric_template =
  mt_id :: string
  mt_unit :: string
  mt_promql :: string

record metric_config =
  mc_version :: string
  mc_templates :: "metric_template list"

definition decode_template :: "json \<Rightarrow> metric_template ws" where
  "decode_template j =
     (case j of
        JNull \<Rightarrow> Inr \<lparr> mt_id = [], mt_unit = [], mt_promql = [] \<rparr>
      | JObj kvs \<Rightarrow>
          ensure (known_fields [''id'', ''unit'', ''promql''] kvs) ErrJSON
          (res_bind (str_field ''id'' kvs) (\<lambda>i.
           res_bind (str_field ''unit'' kvs) (\<lambda>u.
           res_bind (str_field ''promql'' kvs) (\<lambda>q. Inr \<lparr> mt_id = i, mt_unit = u, mt_promql = q \<rparr>))))
      | _ \<Rightarrow> Inl ErrJSON)"

definition decode_metric_config :: "json \<Rightarrow> metric_config ws" where
  "decode_metric_config j =
     (case j of
        JNull \<Rightarrow> Inr \<lparr> mc_version = [], mc_templates = [] \<rparr>
      | JObj kvs \<Rightarrow>
          ensure (known_fields [''version'', ''templates''] kvs) ErrJSON
          (res_bind (str_field ''version'' kvs) (\<lambda>v.
           res_bind (fold_res (set_array decode_template) (jvalues ''templates'' kvs) []) (\<lambda>ts.
             Inr \<lparr> mc_version = v, mc_templates = ts \<rparr>)))
      | _ \<Rightarrow> Inl ErrJSON)"

definition metric_ids :: "string list" where
  "metric_ids = [''error_rate'', ''request_rate'', ''latency_p99'']"

definition check_template :: "metric_template \<Rightarrow> string list \<Rightarrow> string list ws" where
  "check_template t seen =
     ensure (mt_id t \<in> set metric_ids \<and> mt_id t \<notin> set seen \<and> trim_space (mt_unit t) \<noteq> [] \<and> length (mt_unit t) \<le> 64
             \<and> length (mt_promql t) \<le> 4096 \<and> contains (mt_promql t) ''{{environment}}'' \<and> contains (mt_promql t) ''{{service}}'')
       (ErrMsg ''metric template scope invalid'') (Inr (mt_id t # seen))"

definition loadMetricTemplates :: "(string \<Rightarrow> (json \<times> bool) option) \<Rightarrow> string option \<Rightarrow> (metric_config \<times> string) ws" where
  "loadMetricTemplates decode_stream file =
     (case file of
        None \<Rightarrow> Inl (ErrMsg ''metric templates unavailable'')
      | Some raw \<Rightarrow>
          ensure (length raw \<le> 16384) (ErrMsg ''metric templates exceed size budget'')
          (case decode_stream raw of
             None \<Rightarrow> Inl (ErrMsg ''metric templates invalid'')
           | Some (j, at_end) \<Rightarrow>
               (case decode_metric_config j of
                  Inl _ \<Rightarrow> Inl (ErrMsg ''metric templates invalid'')
                | Inr cfg \<Rightarrow>
                    ensure (at_end \<and> mc_version cfg \<noteq> [] \<and> mc_templates cfg \<noteq> [] \<and> length (mc_templates cfg) \<le> 3)
                      (ErrMsg ''metric templates invalid'')
                    (res_bind (fold_res check_template (mc_templates cfg) []) (\<lambda>_. Inr (cfg, hash raw))))))"

text \<open>The sources pinned at start-up. \<open>None\<close> for a source that is not configured.\<close>

record m2_sources =
  m2_topology :: "topology option"
  m2_templates :: "metric_template list"
  m2_version :: string
  m2_hash :: string

definition load_sources :: "(string \<Rightarrow> (json \<times> bool) option) \<Rightarrow> string option option \<Rightarrow> string option option \<Rightarrow> time \<Rightarrow> m2_sources ws" where
  "load_sources decode_stream topology_file templates_file now =
     res_bind (case topology_file of
                 None \<Rightarrow> Inr None
               | Some f \<Rightarrow> res_bind (LoadTopology decode_stream f now) (\<lambda>t. Inr (Some t))) (\<lambda>top.
     res_bind (case templates_file of
                 None \<Rightarrow> Inr ([], [], [])
               | Some f \<Rightarrow> res_bind (loadMetricTemplates decode_stream f) (\<lambda>(c, h). Inr (mc_templates c, mc_version c, h))) (\<lambda>(ts, v, h).
       Inr \<lparr> m2_topology = top, m2_templates = ts, m2_version = v, m2_hash = h \<rparr>))"

definition m2_capabilities :: "m2_sources \<Rightarrow> status_state \<Rightarrow> status_state" where
  "m2_capabilities src st = setM2Capabilities (m2_topology src \<noteq> None) (m2_templates src \<noteq> []) st"

section \<open>The topology endpoint\<close>

definition allowedMetricParams :: "string list \<Rightarrow> web_request \<Rightarrow> unit web" where
  "allowedMetricParams allowed rq =
     guard (list_all (\<lambda>(k, _). k \<in> set allowed) (wr_query rq) \<and> distinct (map fst (wr_query rq))) invalid_request (Inr ())"

definition no_topology :: topology_snapshot where
  "no_topology = \<lparr> ts_capability = ''not_configured'', ts_version = [], ts_content_sha256 = [], ts_source_ref = [], ts_valid_from = [],
     ts_valid_to = None, ts_as_of = [], ts_focus_id = [], ts_nodes = [], ts_edges = [], ts_potential_impact = [],
     ts_historical_evidence = False, ts_validity_state = [] \<rparr>"

definition topology_http :: "api_env \<Rightarrow> (nat \<Rightarrow> string \<Rightarrow> ws_error option) \<Rightarrow> m2_sources \<Rightarrow> web_request \<Rightarrow> db \<Rightarrow> topology_snapshot reply web" where
  "topology_http env ctx src rq d =
     res_bind (allowedMetricParams [''environment'', ''service''] rq) (\<lambda>_.
     res_bind (web_of (ap_ctx env) (get_incident (wr_param rq ''id'') d)) (\<lambda>inc.
       let e = query_of rq ''environment''; s = query_of rq ''service'' in
       guard (\<not> (e \<noteq> [] \<and> e \<noteq> inc_environment inc) \<and> \<not> (s \<noteq> [] \<and> s \<noteq> inc_service inc)) invalid_request
       (case m2_topology src of
          None \<Rightarrow> Inr (wsOK 200 no_topology 1)
        | Some t \<Rightarrow>
            (case ForService ctx (ap_now env) (inc_environment inc) (inc_service inc) t of
               Inl e \<Rightarrow> Inl (if ap_ctx env \<noteq> None then wsFail (ap_ctx env) e else wsError 400 ''unknown_service'' False)
             | Inr g \<Rightarrow> Inr (wsOK 200 g 1)))))"

section \<open>The window\<close>

record metric_window =
  mw_start :: time
  mw_end :: time
  mw_step :: int
  mw_points :: int

definition maxMetricPoints :: int where
  "maxMetricPoints = 2000"

definition maxMetricSeries :: nat where
  "maxMetricSeries = 20"

definition maxMetricBody :: nat where
  "maxMetricBody = 2097152"

definition parseMetricWindow :: "web_request \<Rightarrow> metric_window web" where
  "parseMetricWindow rq =
     (case parse_nano (query_of rq ''start'') of
        None \<Rightarrow> Inl invalid_request
      | Some start \<Rightarrow>
          (case parse_nano (query_of rq ''end'') of
             None \<Rightarrow> Inl invalid_request
           | Some end_t \<Rightarrow>
               guard (\<not> (end_t < start \<or> end_t - start > seconds (24 * 3600))) invalid_request
               (case atoi (query_of rq ''step'') of
                  None \<Rightarrow> Inl invalid_request
                | Some st \<Rightarrow>
                    guard (15 \<le> st \<and> st \<le> 86400) invalid_request
                    (let points = (end_t - start) div seconds st + 1 in
                     guard (points \<le> maxMetricPoints) (wsError 400 ''query_budget_exceeded'' False)
                       (Inr \<lparr> mw_start = start, mw_end = end_t, mw_step = st, mw_points = points \<rparr>)))))"

section \<open>The query\<close>

definition hex_pair :: "nat \<Rightarrow> string" where
  "hex_pair n = [hex_nibble (n div 16), hex_nibble (n mod 16)]"

text \<open>One byte of a quoted string.\<close>

definition quote_char :: "char \<Rightarrow> string" where
  "quote_char c =
     (let n = of_char c :: nat in
      if c = CHR 0x22 \<or> c = CHR 0x5C then [CHR 0x5C, c]
      else if n = 7 then [CHR 0x5C, CHR ''a'']
      else if n = 8 then [CHR 0x5C, CHR ''b'']
      else if n = 9 then [CHR 0x5C, CHR ''t'']
      else if n = 10 then [CHR 0x5C, CHR ''n'']
      else if n = 11 then [CHR 0x5C, CHR ''v'']
      else if n = 12 then [CHR 0x5C, CHR ''f'']
      else if n = 13 then [CHR 0x5C, CHR ''r'']
      else if n < 32 \<or> n = 127 then [CHR 0x5C, CHR ''x''] @ hex_pair n
      else [c])"

definition go_quote :: "string \<Rightarrow> string" where
  "go_quote s = CHR 0x22 # concat (map quote_char s) @ [CHR 0x22]"

text \<open>\<open>strings.NewReplacer\<close> with the two placeholders.\<close>

function fill_query :: "string \<Rightarrow> string \<Rightarrow> string \<Rightarrow> string" where
  "fill_query e v s =
     (if has_prefix s ''{{environment}}'' then e @ fill_query e v (drop 15 s)
      else if has_prefix s ''{{service}}'' then v @ fill_query e v (drop 11 s)
      else case s of [] \<Rightarrow> [] | c # t \<Rightarrow> c # fill_query e v t)"
  by pat_completeness auto
termination
  by (relation "measure (\<lambda>(e, v, s). length s)") (auto simp: has_prefix_iff)

declare fill_query.simps [simp del]

section \<open>Reading the matrix\<close>

record metric_series =
  mx_labels :: gomap
  mx_values :: "(real \<times> real option) list"
  mx_missing :: nat

text \<open>A series of the answer: labels, samples (absent or an array of arrays) and histograms.\<close>

record raw_series =
  rs_metric :: "gomap option"
  rs_values :: "json list list option"
  rs_histograms :: "json option"

definition set_samples :: "json \<Rightarrow> json list list option \<Rightarrow> json list list option ws" where
  "set_samples v old =
     (case v of
        JNull \<Rightarrow> Inr None
      | JArr ps \<Rightarrow> res_bind (map_res (\<lambda>p. case p of JNull \<Rightarrow> Inr [] | JArr xs \<Rightarrow> Inr xs | _ \<Rightarrow> Inl ErrJSON) ps) (\<lambda>xs. Inr (Some xs))
      | _ \<Rightarrow> Inl ErrJSON)"

definition decode_series :: "json \<Rightarrow> raw_series ws" where
  "decode_series j =
     (case j of
        JNull \<Rightarrow> Inr \<lparr> rs_metric = None, rs_values = None, rs_histograms = None \<rparr>
      | JObj kvs \<Rightarrow>
          res_bind (map_field ''metric'' kvs) (\<lambda>ls.
          res_bind (fold_res set_samples (jvalues ''values'' kvs) None) (\<lambda>vs.
            Inr \<lparr> rs_metric = ls, rs_values = vs, rs_histograms = (case rev (jvalues ''histograms'' kvs) of [] \<Rightarrow> None | h # _ \<Rightarrow> Some h) \<rparr>))
      | _ \<Rightarrow> Inl ErrJSON)"

definition set_result :: "json \<Rightarrow> raw_series list option \<Rightarrow> raw_series list option ws" where
  "set_result v old =
     (case v of
        JNull \<Rightarrow> Inr None
      | JArr js \<Rightarrow> res_bind (map_res decode_series js) (\<lambda>xs. Inr (Some xs))
      | _ \<Rightarrow> Inl ErrJSON)"

definition set_data :: "json \<Rightarrow> string \<times> raw_series list option \<Rightarrow> (string \<times> raw_series list option) ws" where
  "set_data v old =
     (case v of
        JNull \<Rightarrow> Inr old
      | JObj kvs \<Rightarrow>
          res_bind (fold_res set_string (jvalues ''resultType'' kvs) (fst old)) (\<lambda>ty.
          res_bind (fold_res set_result (jvalues ''result'' kvs) (snd old)) (\<lambda>rs. Inr (ty, rs)))
      | _ \<Rightarrow> Inl ErrJSON)"

definition decode_matrix :: "json option \<Rightarrow> (string \<times> string \<times> raw_series list option) ws" where
  "decode_matrix j =
     (case j of
        Some JNull \<Rightarrow> Inr ([], [], None)
      | Some (JObj kvs) \<Rightarrow>
          res_bind (str_field ''status'' kvs) (\<lambda>st.
          res_bind (fold_res set_data (jvalues ''data'' kvs) ([], None)) (\<lambda>(ty, rs). Inr (st, ty, rs)))
      | _ \<Rightarrow> Inl ErrJSON)"

datatype float_value = Finite real | NotFinite

record float_env =
  fe_num :: "string \<Rightarrow> real option"
  fe_text :: "string \<Rightarrow> float_value option"

text \<open>\<open>math.Round\<close>: half away from zero.\<close>

definition go_round :: "real \<Rightarrow> int" where
  "go_round x = (if x < 0 then \<lceil>x - 1 / 2\<rceil> else \<lfloor>x + 1 / 2\<rfloor>)"

definition start_seconds :: "metric_window \<Rightarrow> real" where
  "start_seconds w = real_of_int (mw_start w) / 1000000000"

definition read_time :: "float_env \<Rightarrow> json \<Rightarrow> real option" where
  "read_time env j = (case j of JNum s \<Rightarrow> fe_num env s | JNull \<Rightarrow> Some 0 | _ \<Rightarrow> None)"

definition read_text :: "json \<Rightarrow> string option" where
  "read_text j = (case j of JStr s \<Rightarrow> Some s | JNull \<Rightarrow> Some [] | _ \<Rightarrow> None)"

definition unavailable :: string where
  "unavailable = ''source_unavailable''"

text \<open>One sample: the values so far and the slots already seen.\<close>

definition read_sample :: "float_env \<Rightarrow> metric_window \<Rightarrow> json list \<Rightarrow> (real \<times> real option) list \<times> int set \<Rightarrow>
    (string, (real \<times> real option) list \<times> int set) res" where
  "read_sample env w p st =
     (case p of
        [jt, jv] \<Rightarrow>
          (case (read_time env jt, read_text jv) of
             (Some ts, Some tx) \<Rightarrow>
               (let offset = (ts - start_seconds w) / real_of_int (mw_step w); i = go_round offset in
                if i < 0 \<or> i \<ge> mw_points w \<or> \<bar>offset - real_of_int i\<bar> > 1 / 10000 \<or> i \<in> snd st then Inl unavailable
                else case fe_text env tx of
                  None \<Rightarrow> Inl unavailable
                | Some (Finite x) \<Rightarrow> Inr ((fst st)[nat i := (fst (fst st ! nat i), Some x)], insert i (snd st))
                | Some NotFinite \<Rightarrow> Inr (fst st, insert i (snd st)))
           | _ \<Rightarrow> Inl ''unsupported_result_type'')
      | _ \<Rightarrow> Inl unavailable)"

definition grid :: "metric_window \<Rightarrow> (real \<times> real option) list" where
  "grid w = map (\<lambda>i. (start_seconds w + real_of_int (int i * mw_step w), None)) [0..<nat (mw_points w)]"

definition budget_exceeded :: string where
  "budget_exceeded = ''response_budget_exceeded''"

definition check_that :: "bool \<Rightarrow> string \<Rightarrow> (string, 'a) res \<Rightarrow> (string, 'a) res" where
  "check_that b c m = (if b then m else Inl c)"

definition read_series :: "float_env \<Rightarrow> metric_window \<Rightarrow> incident \<Rightarrow> raw_series \<Rightarrow> (string, metric_series) res" where
  "read_series env w inc s =
     check_that (rs_histograms s \<in> {None, Some JNull, Some (JArr [])}) ''unsupported_result_type''
     (case rs_values s of
        None \<Rightarrow> Inl unavailable
      | Some ps \<Rightarrow>
          check_that (int (length ps) \<le> maxMetricPoints) budget_exceeded
          (let ls = (case rs_metric s of None \<Rightarrow> [] | Some m \<Rightarrow> m) in
           check_that (length ls \<le> 50) budget_exceeded
           (check_that (list_all (\<lambda>(k, v). length k \<le> 256 \<and> length v \<le> 1024) ls) budget_exceeded
           (check_that (\<not> (label (rs_metric s) ''environment'' \<noteq> [] \<and> label (rs_metric s) ''environment'' \<noteq> inc_environment inc)
                        \<and> \<not> (label (rs_metric s) ''service'' \<noteq> [] \<and> label (rs_metric s) ''service'' \<noteq> inc_service inc)) unavailable
             (res_bind (fold_res (read_sample env w) ps (grid w, {})) (\<lambda>(vs, _).
                Inr \<lparr> mx_labels = ls, mx_values = vs, mx_missing = length (filter (\<lambda>p. snd p = None) vs) \<rparr>))))))"

definition parseMetricMatrix :: "float_env \<Rightarrow> json option \<Rightarrow> metric_window \<Rightarrow> incident \<Rightarrow> (string, metric_series list) res" where
  "parseMetricMatrix env j w inc =
     (case decode_matrix j of
        Inl _ \<Rightarrow> Inl unavailable
      | Inr (st, ty, rs) \<Rightarrow>
          check_that (st = ''success'') unavailable
          (case rs of
             None \<Rightarrow> Inl unavailable
           | Some ss \<Rightarrow>
               check_that (ty = ''matrix'') ''unsupported_result_type''
               (check_that (length ss \<le> maxMetricSeries) budget_exceeded (map_res (read_series env w inc) ss))))"

section \<open>The metrics endpoint\<close>

text \<open>The configured base address, parsed, and what a request to it answers.\<close>

record prom_base =
  pb_host :: string
  pb_scheme :: string
  pb_query :: string
  pb_fragment :: string
  pb_source :: string

datatype prom_answer = PromTimeout | PromDown | PromStatus nat "string option"

record metrics_env =
  me_base :: "prom_base option option"
  me_fetch :: "(string \<times> string) list \<Rightarrow> prom_answer"
  me_floats :: float_env

record metric_result =
  mr_capability :: string
  mr_metric_id :: string
  mr_unit :: string
  mr_start :: string
  mr_end :: string
  mr_step :: int
  mr_series :: "metric_series list"
  mr_source :: string
  mr_query :: string
  mr_template_version :: string
  mr_template_sha256 :: string
  mr_sample_state :: string
  mr_historical_evidence :: bool

definition empty_result :: "string \<Rightarrow> metric_window \<Rightarrow> metric_result" where
  "empty_result i w =
     \<lparr> mr_capability = ''not_configured'', mr_metric_id = i, mr_unit = [], mr_start = fmt_nano (mw_start w), mr_end = fmt_nano (mw_end w),
       mr_step = mw_step w, mr_series = [], mr_source = [], mr_query = [], mr_template_version = [], mr_template_sha256 = [],
       mr_sample_state = ''empty'', mr_historical_evidence = False \<rparr>"

definition prom_base_ok :: "prom_base \<Rightarrow> bool" where
  "prom_base_ok b \<longleftrightarrow> pb_host b \<noteq> [] \<and> (pb_scheme b = ''http'' \<or> pb_scheme b = ''https'') \<and> pb_query b = [] \<and> pb_fragment b = []"

definition scoped_query :: "metric_template \<Rightarrow> incident \<Rightarrow> string" where
  "scoped_query t inc = fill_query (go_quote (inc_environment inc)) (go_quote (inc_service inc)) (mt_promql t)"

definition sample_state :: "metric_series list \<Rightarrow> string" where
  "sample_state ss =
     (if \<exists>s \<in> set ss. mx_missing s > 0 then ''partial'' else if ss = [] then ''empty'' else ''complete'')"

definition metrics_http :: "api_env \<Rightarrow> metrics_env \<Rightarrow> m2_sources \<Rightarrow> web_request \<Rightarrow> db \<Rightarrow> metric_result reply web" where
  "metrics_http env me src rq d =
     res_bind (allowedMetricParams [''metric_id'', ''start'', ''end'', ''step''] rq) (\<lambda>_.
       let i = query_of rq ''metric_id'' in
       guard (i \<in> set metric_ids) (wsError 400 ''unknown_template'' False)
       (res_bind (parseMetricWindow rq) (\<lambda>w.
        res_bind (web_of (ap_ctx env) (get_incident (wr_param rq ''id'') d)) (\<lambda>inc.
          case find (\<lambda>t. mt_id t = i) (m2_templates src) of
            None \<Rightarrow> Inr (wsOK 200 (empty_result i w) 1)
          | Some t \<Rightarrow>
              (case me_base me of
                 None \<Rightarrow> Inl (wsError 503 ''source_unavailable'' True)
               | Some None \<Rightarrow> Inl (wsError 503 ''source_unavailable'' False)
               | Some (Some b) \<Rightarrow>
                   guard (prom_base_ok b) (wsError 503 ''source_unavailable'' False)
                   (let r = (empty_result i w)\<lparr>mr_capability := ''available'', mr_unit := mt_unit t, mr_source := pb_source b,
                              mr_query := scoped_query t inc, mr_template_version := m2_version src, mr_template_sha256 := m2_hash src\<rparr>
                    in case me_fetch me [(''query'', mr_query r), (''start'', mr_start r), (''end'', mr_end r),
                                         (''step'', itoa (mw_step w)), (''timeout'', ''10s'')] of
                         PromTimeout \<Rightarrow> Inl (wsError 504 ''timeout'' True)
                       | PromDown \<Rightarrow> Inl (wsError 503 ''source_unavailable'' True)
                       | PromStatus st body \<Rightarrow>
                           guard (st = 200) (wsError 503 ''source_unavailable'' True)
                           (case body of
                              None \<Rightarrow> Inl (wsError 503 ''response_budget_exceeded'' True)
                            | Some bs \<Rightarrow>
                                guard (length bs \<le> maxMetricBody) (wsError 503 ''response_budget_exceeded'' True)
                                (case parseMetricMatrix (me_floats me) (ap_parse env bs) w inc of
                                   Inl c \<Rightarrow> Inl (wsError (if c = ''unsupported_result_type'' then 422 else 503) c (c \<noteq> ''unsupported_result_type''))
                                 | Inr ss \<Rightarrow> Inr (wsOK 200 (r\<lparr>mr_series := ss, mr_sample_state := sample_state ss\<rparr>) 1)))))))))"

section \<open>Properties\<close>

lemma check_that_Inr [simp]: "check_that b c m = Inr x \<longleftrightarrow> b \<and> m = Inr x"
  by (simp add: check_that_def)

lemma window_cases:
  assumes "parseMetricWindow rq = Inr w"
  shows "mw_start w \<le> mw_end w" and "mw_end w - mw_start w \<le> seconds 86400" and "15 \<le> mw_step w" and "mw_step w \<le> 86400"
    and "mw_points w = (mw_end w - mw_start w) div seconds (mw_step w) + 1" and "mw_points w \<le> 2000"
  using assms by (auto simp: parseMetricWindow_def Let_def maxMetricPoints_def split: option.splits)

text \<open>An accepted window is within its budget: it is ordered, at most a day long, has a step of 15 seconds to a day and
  between 1 and 2000 points, and its points are exactly the multiples of the step from its start up to its end.\<close>

theorem parseMetricWindow_bounds:
  assumes "parseMetricWindow rq = Inr w"
  shows "mw_start w \<le> mw_end w \<and> mw_end w - mw_start w \<le> seconds 86400 \<and> 15 \<le> mw_step w \<and> mw_step w \<le> 86400
    \<and> 1 \<le> mw_points w \<and> mw_points w \<le> 2000
    \<and> (\<forall>i \<ge> 0. mw_start w + i * seconds (mw_step w) \<le> mw_end w \<longleftrightarrow> i < mw_points w)"
proof -
  note c = window_cases [OF assms]
  have s: "0 < seconds (mw_step w)" using c(3) by (simp add: seconds_def)
  have p: "1 \<le> mw_points w" using c(1,5) s by (simp add: pos_imp_zdiv_nonneg_iff)
  let ?d = "mw_end w - mw_start w" and ?s = "seconds (mw_step w)"
  have le: "?d div ?s * ?s \<le> ?d" using div_mult_mod_eq [of ?d ?s] pos_mod_sign [OF s, of ?d] by linarith
  have "mw_start w + i * ?s \<le> mw_end w \<longleftrightarrow> i < mw_points w" for i
  proof
    assume "mw_start w + i * ?s \<le> mw_end w"
    then have "i * ?s \<le> ?d" by simp
    then have "i * ?s div ?s \<le> ?d div ?s" using s by (rule zdiv_mono1)
    with s show "i < mw_points w" by (simp add: c(5))
  next
    assume "i < mw_points w"
    then have "i \<le> ?d div ?s" by (simp add: c(5))
    then have "i * ?s \<le> ?d div ?s * ?s" using s by (intro mult_right_mono) auto
    with le show "mw_start w + i * ?s \<le> mw_end w" by linarith
  qed
  with c p show ?thesis by simp
qed

definition ex_window_request :: web_request where
  "ex_window_request = \<lparr> wr_path = [], wr_query = [(''start'', ''1970-01-01T00:00:00Z''), (''end'', ''1970-01-01T00:00:00.5Z''), (''step'', ''15'')],
     wr_param = (\<lambda>_. []), wr_header = (\<lambda>_. []), wr_body = [] \<rparr>"

lemma ex_window: "\<exists>w. parseMetricWindow ex_window_request = Inr w"
  by (simp add: parseMetricWindow_def ex_window_request_def query_of_def parse_epoch parse_half_second guard_def atoi_def has_prefix_def
      is_digit_def less_eq_char_def maxMetricPoints_def seconds_def Let_def)

theorem parseMetricWindow_bounds_witness: "\<exists>w. parseMetricWindow ex_window_request = Inr w \<and> 1 \<le> mw_points w \<and> mw_points w \<le> 2000"
  using ex_window parseMetricWindow_bounds by blast

text \<open>The slot of a sample and its value, if it is finite.\<close>

definition sample_slot :: "float_env \<Rightarrow> metric_window \<Rightarrow> json list \<Rightarrow> int option" where
  "sample_slot env w p =
     (case p of
        [jt, jv] \<Rightarrow> map_option (\<lambda>ts. go_round ((ts - start_seconds w) / real_of_int (mw_step w))) (read_time env jt)
      | _ \<Rightarrow> None)"

definition sample_value :: "float_env \<Rightarrow> json list \<Rightarrow> real option" where
  "sample_value env p =
     (case p of
        [jt, jv] \<Rightarrow> (case Option.bind (read_text jv) (fe_text env) of Some (Finite x) \<Rightarrow> Some x | _ \<Rightarrow> None)
      | _ \<Rightarrow> None)"

text \<open>The value the grid shows in a slot: that of the sample of the slot.\<close>

definition slot_value :: "float_env \<Rightarrow> metric_window \<Rightarrow> json list list \<Rightarrow> int \<Rightarrow> real option" where
  "slot_value env w ps i = Option.bind (find (\<lambda>p. sample_slot env w p = Some i) ps) (sample_value env)"

lemma read_sample_Inr:
  assumes "read_sample env w p (vs, seen) = Inr (vs', seen')"
  obtains i where "sample_slot env w p = Some i" and "0 \<le> i" and "i < mw_points w" and "i \<notin> seen" and "seen' = insert i seen"
    and "vs' = (case sample_value env p of None \<Rightarrow> vs | Some x \<Rightarrow> vs[nat i := (fst (vs ! nat i), Some x)])"
proof -
  obtain jt jv where p: "p = [jt, jv]" using assms by (auto simp: read_sample_def split: list.splits)
  obtain ts tx where r: "read_time env jt = Some ts" "read_text jv = Some tx"
    using assms by (auto simp: read_sample_def p split: option.splits)
  define i where "i = go_round ((ts - start_seconds w) / real_of_int (mw_step w))"
  have i: "0 \<le> i" "i < mw_points w" "i \<notin> seen" using assms by (auto simp: read_sample_def p r Let_def i_def split: if_splits)
  obtain x where x: "fe_text env tx = Some x" using assms by (auto simp: read_sample_def p r Let_def split: if_splits option.splits)
  have "sample_slot env w p = Some i" by (simp add: sample_slot_def p r i_def)
  moreover have "seen' = insert i seen \<and> vs' = (case sample_value env p of None \<Rightarrow> vs | Some x \<Rightarrow> vs[nat i := (fst (vs ! nat i), Some x)])"
    using assms x by (cases x) (auto simp: read_sample_def p r Let_def sample_value_def i_def [symmetric] split: if_splits)
  ultimately show ?thesis using i that by blast
qed

lemma samples_read:
  assumes "fold_res (read_sample env w) ps (vs, seen) = Inr (vs', seen')" and "length vs = nat (mw_points w)"
  shows "length vs' = length vs \<and> map fst vs' = map fst vs \<and> (\<forall>p \<in> set ps. sample_slot env w p \<noteq> None)
    \<and> distinct (map (sample_slot env w) ps)
    \<and> (\<forall>i < length vs. snd (vs' ! i) = (case find (\<lambda>p. sample_slot env w p = Some (int i)) ps of
         Some p \<Rightarrow> if sample_value env p = None then snd (vs ! i) else sample_value env p | None \<Rightarrow> snd (vs ! i)))
    \<and> (\<forall>p \<in> set ps. \<forall>i \<in> seen. sample_slot env w p \<noteq> Some i)"
  using assms
proof (induction ps arbitrary: vs seen)
  case (Cons p ps)
  obtain vs1 seen1 where 1: "read_sample env w p (vs, seen) = Inr (vs1, seen1)"
    and 2: "fold_res (read_sample env w) ps (vs1, seen1) = Inr (vs', seen')"
    using Cons.prems(1) by (auto simp: res_bind_eq_Inr)
  obtain j where j: "sample_slot env w p = Some j" "0 \<le> j" "j < mw_points w" "j \<notin> seen" "seen1 = insert j seen"
    and vs1: "vs1 = (case sample_value env p of None \<Rightarrow> vs | Some x \<Rightarrow> vs[nat j := (fst (vs ! nat j), Some x)])"
    using read_sample_Inr [OF 1] by blast
  have jl: "nat j < length vs" using j Cons.prems(2) by simp
  have len: "length vs1 = length vs" by (simp add: vs1 split: option.split)
  have fst1: "map fst vs1 = map fst vs"
    using jl by (auto simp: vs1 map_update list_update_same_conv split: option.split)
  have v1: "snd (vs1 ! i) = (if i = nat j \<and> sample_value env p \<noteq> None then sample_value env p else snd (vs ! i))" if "i < length vs" for i
    using that jl by (auto simp: vs1 nth_list_update split: option.split)
  note ih = Cons.IH [OF 2, unfolded len, OF Cons.prems(2)]
  have other: "\<forall>q \<in> set ps. sample_slot env w q \<noteq> Some j" using ih j(5) by blast
  then have nj: "find (\<lambda>q. sample_slot env w q = Some j) ps = None" by (auto simp: find_None_iff)
  have vals: "snd (vs' ! i) = (case find (\<lambda>q. sample_slot env w q = Some (int i)) (p # ps) of
         Some q \<Rightarrow> if sample_value env q = None then snd (vs ! i) else sample_value env q | None \<Rightarrow> snd (vs ! i))" if i: "i < length vs" for i
  proof (cases "int i = j")
    case True
    then show ?thesis using ih i nj v1 [OF i] j(1) by auto
  next
    case False
    then have "i \<noteq> nat j" using j(2) by auto
    then show ?thesis using ih i v1 [OF i] j(1) False by (auto split: option.splits)
  qed
  have "distinct (map (sample_slot env w) (p # ps))" using ih other j(1) by auto
  moreover have "\<forall>q \<in> set (p # ps). \<forall>i \<in> seen. sample_slot env w q \<noteq> Some i" using ih j by auto
  ultimately show ?case using ih fst1 vals j(1) len by auto
qed simp


definition ex_floats :: float_env where
  "ex_floats = \<lparr> fe_num = (\<lambda>_. Some 0), fe_text = (\<lambda>_. Some (Finite 1)) \<rparr>"

definition ex_matrix :: json where
  "ex_matrix = JObj [(''status'', JStr ''success''), (''data'', JObj [(''resultType'', JStr ''matrix''),
     (''result'', JArr [JObj [(''values'', JArr [JArr [JNum ''0'', JStr ''1'']])]])])]"

definition ex_grid :: metric_window where
  "ex_grid = \<lparr> mw_start = 0, mw_end = 0, mw_step = 15, mw_points = 1 \<rparr>"

lemma ex_matrix_read:
  "parseMetricMatrix ex_floats (Some ex_matrix) ex_grid (ir_data ex_incident) = Inr [\<lparr> mx_labels = [], mx_values = [(0, Some 1)], mx_missing = 0 \<rparr>]"
proof -
  have d: "decode_matrix (Some ex_matrix) = Inr (''success'', ''matrix'',
      Some [\<lparr> rs_metric = None, rs_values = Some [[JNum ''0'', JStr ''1'']], rs_histograms = None \<rparr>])" by code_simp
  show ?thesis
    by (simp add: parseMetricMatrix_def d check_that_def read_series_def maxMetricSeries_def maxMetricPoints_def label_def read_sample_def
        read_time_def read_text_def ex_floats_def ex_grid_def grid_def start_seconds_def go_round_def Let_def)
qed


section \<open>Quoting\<close>

text \<open>The reader of quoted strings.\<close>

definition hex_value :: "char \<Rightarrow> nat" where
  "hex_value c = length (takeWhile (\<lambda>x. x \<noteq> c) ''0123456789abcdef'')"

definition escapes :: "(char \<times> char) list" where
  "escapes = [(CHR ''a'', char_of (7::nat)), (CHR ''b'', char_of (8::nat)), (CHR ''t'', char_of (9::nat)), (CHR ''n'', char_of (10::nat)),
     (CHR ''v'', char_of (11::nat)), (CHR ''f'', char_of (12::nat)), (CHR ''r'', char_of (13::nat)), (CHR 0x22, CHR 0x22), (CHR 0x5C, CHR 0x5C)]"

fun unquote_chars :: "string \<Rightarrow> string option" where
  "unquote_chars [] = Some []"
| "unquote_chars (c # s) =
     (if c = CHR 0x5C
      then (case s of
              e # a # b # t \<Rightarrow>
                if e = CHR ''x'' then map_option ((#) (char_of (16 * hex_value a + hex_value b))) (unquote_chars t)
                else Option.bind (map_of escapes e) (\<lambda>d. map_option ((#) d) (unquote_chars (a # b # t)))
            | e # t \<Rightarrow> Option.bind (map_of escapes e) (\<lambda>d. map_option ((#) d) (unquote_chars t))
            | [] \<Rightarrow> None)
      else if c = CHR 0x22 then None
      else map_option ((#) c) (unquote_chars s))"

definition go_unquote :: "string \<Rightarrow> string option" where
  "go_unquote s = (if 2 \<le> length s \<and> hd s = CHR 0x22 \<and> last s = CHR 0x22 then unquote_chars (butlast (tl s)) else None)"

lemma hex_value_nibble: "n < 16 \<Longrightarrow> hex_value (hex_nibble n) = n"
proof -
  have "\<forall>n \<in> set [0..<16]. hex_value (hex_nibble n) = n" by code_simp
  then show "n < 16 \<Longrightarrow> hex_value (hex_nibble n) = n" by simp
qed

lemma unquote_escape:
  assumes "map_of escapes e = Some d"
  shows "unquote_chars (CHR 0x5C # e # r) = map_option ((#) d) (unquote_chars r)"
proof -
  have "e \<noteq> CHR ''x''" using assms by (auto simp: escapes_def)
  with assms show ?thesis by (auto split: list.split)
qed

declare unquote_chars.simps(2) [simp del]

lemma unquote_quote_char: "unquote_chars (quote_char c @ r) = map_option ((#) c) (unquote_chars r)"
proof -
  define n where "n = (of_char c :: nat)"
  have c: "c = char_of n" by (simp add: n_def)
  consider "c = CHR 0x22 \<or> c = CHR 0x5C" | "n \<in> {7, 8, 9, 10, 11, 12, 13}"
    | "c \<noteq> CHR 0x22" "c \<noteq> CHR 0x5C" "n \<notin> {7, 8, 9, 10, 11, 12, 13}" "n < 32 \<or> n = 127"
    | "c \<noteq> CHR 0x22" "c \<noteq> CHR 0x5C" "\<not> (n < 32 \<or> n = 127)" by blast
  then show ?thesis
  proof cases
    case 1
    then have "quote_char c = [CHR 0x5C, c]" "map_of escapes c = Some c" by (auto simp: quote_char_def Let_def escapes_def)
    then show ?thesis using unquote_escape [of c c r] by simp
  next
    case 2
    then have "c \<noteq> CHR 0x22" "c \<noteq> CHR 0x5C" by (auto simp: n_def)
    with 2 have "\<exists>e. quote_char c = [CHR 0x5C, e] \<and> map_of escapes e = Some c"
      unfolding quote_char_def n_def [symmetric] Let_def by (elim insertE) (simp_all add: escapes_def c)
    then show ?thesis using unquote_escape by auto
  next
    case 3
    then have lt: "n < 256" by auto
    have "16 * hex_value (hex_nibble (n div 16)) + hex_value (hex_nibble (n mod 16)) = n"
      using hex_value_nibble [of "n div 16"] hex_value_nibble [of "n mod 16"] lt by (simp add: less_mult_imp_div_less)
    moreover have "quote_char c = CHR 0x5C # CHR ''x'' # hex_nibble (n div 16) # [hex_nibble (n mod 16)]"
      using 3 by (auto simp: quote_char_def n_def [symmetric] Let_def hex_pair_def)
    ultimately show ?thesis by (simp add: unquote_chars.simps(2) c)
  next
    case 4
    then have "quote_char c = [c]" by (auto simp: quote_char_def n_def [symmetric] Let_def)
    with 4 show ?thesis by (simp add: unquote_chars.simps(2))
  qed
qed


end
