(* ===== verification/Startup.thy ===== *)
theory Startup
  imports Config Gateway Metrics System Planner
begin

text \<open>
  Starting the server (\<open>src/cmd/server/main.go\<close>): the service that the configuration describes, the probe of the
  retrieval source, the recovery of projection and runs, the controlled configuration of topology and metrics, and
  the tools offered over MCP (\<open>src/internal/mcpserver/server.go\<close>).

  Opening the database, the listener, the tickers and the signal handling are calls into libraries and not modelled;
  \<open>log.Fatalf\<close> is an error. The MCP library calls the handler of the tool that a request names.
\<close>

section \<open>The service of a configuration\<close>

definition configPath :: "(string \<Rightarrow> string) \<Rightarrow> string" where
  "configPath getenv = (if getenv ''ONCALL_CONFIG'' \<noteq> [] then getenv ''ONCALL_CONFIG'' else ''config/config.json'')"

definition qdrant_port :: "config \<Rightarrow> int" where
  "qdrant_port cfg = (if qc_port (cfg_qdrant cfg) = 6334 then 6333 else qc_port (cfg_qdrant cfg))"

definition NewVectorFromHostPort :: "string \<Rightarrow> int \<Rightarrow> string \<Rightarrow> string \<times> vector_store" where
  "NewVectorFromHostPort host port collection =
     (''http://'' @ host @ '':'' @ itoa (if port = 0 then 6333 else port), NewVector collection)"

definition service_of :: "config \<Rightarrow> service" where
  "service_of cfg = \<lparr> sv_space_id = ''unavailable'', sv_webhook_url = cfg_webhook_url cfg, sv_judge_threshold = cfg_low_threshold cfg,
     sv_judge_key = jc_api_key (cfg_openai cfg), sv_judge_model = jc_model (cfg_openai cfg) \<rparr>"

definition embedder_identity :: "config \<Rightarrow> string" where
  "embedder_identity cfg =
     ec_host (cfg_embedder cfg) @ '':'' @ itoa (ec_port (cfg_embedder cfg)) @ '':'' @ ec_model (cfg_embedder cfg)"

section \<open>The probe\<close>

record probe_state =
  ps_checked :: "string option"
  ps_succeeded :: "string option"
  ps_source_ok :: bool

definition probe_busy :: ws_error where
  "probe_busy = ErrMsg ''retrieval projection publication in progress''"

definition probe :: "probe_env \<Rightarrow> string \<Rightarrow> time \<Rightarrow> service \<Rightarrow> probe_state \<Rightarrow> kstate \<Rightarrow> service \<times> probe_state \<times> kstate" where
  "probe env identity now sv ps k =
     (case ProbeRetrieval env identity sv k of
        ((e, sv'), k') \<Rightarrow>
          if e = Some probe_busy then (sv', ps, k')
          else (sv', ps\<lparr>ps_checked := Some (fmt_nano now), ps_source_ok := (e = None),
                        ps_succeeded := (if e = None then Some (fmt_nano now) else ps_succeeded ps)\<rparr>, k'))"

section \<open>Start-up\<close>

record boot_env =
  bo_probe :: probe_env
  bo_now :: time
  bo_stream :: "string \<Rightarrow> (json \<times> bool) option"
  bo_reader :: raw_reader
  bo_files :: "string \<Rightarrow> string option"
  bo_frontend :: bool

definition controlled_file :: "boot_env \<Rightarrow> string \<Rightarrow> string option option" where
  "controlled_file env path = (if path = [] then None else Some (bo_files env path))"

definition RegisterM2 :: "boot_env \<Rightarrow> config \<Rightarrow> db \<Rightarrow> topology_row list \<Rightarrow> (m2_sources \<times> db \<times> topology_row list) ws" where
  "RegisterM2 env cfg d vs =
     res_bind (load_sources (bo_stream env) (controlled_file env (cfg_topology_file cfg))
                 (controlled_file env (cfg_templates_file cfg)) (bo_now env)) (\<lambda>src.
       case m2_topology src of
         None \<Rightarrow> Inr (src, d, vs)
       | Some t \<Rightarrow>
           res_bind (PersistTopology (bo_reader env) (bo_now env) t d vs) (\<lambda>(t', d', vs').
             Inr (src\<lparr>m2_topology := Some t'\<rparr>, d', vs')))"

record server =
  sr_service :: service
  sr_probe :: probe_state
  sr_state :: kstate
  sr_sources :: m2_sources
  sr_versions :: "topology_row list"

definition startup :: "boot_env \<Rightarrow> config \<Rightarrow> kstate \<Rightarrow> topology_row list \<Rightarrow> server ws" where
  "startup env cfg k vs =
     (case probe (bo_probe env) (embedder_identity cfg) (bo_now env) (service_of cfg)
             \<lparr> ps_checked = None, ps_succeeded = None, ps_source_ok = False \<rparr>
             (k\<lparr>ks_rag := SetEmbeddingSpace ''unavailable'' 0 (ks_rag k)\<rparr>) of
        (sv, ps, k1) \<Rightarrow>
          (case RestoreProjection sv k1 of
             (Some e, _) \<Rightarrow> Inl e
           | (None, k2) \<Rightarrow>
               res_bind (Recover (bo_now env) (ks_db k2)) (\<lambda>d.
               res_bind (RegisterM2 env cfg d vs) (\<lambda>(src, d', vs').
                 if \<not> ui_legacy_default (cfg_ui cfg) \<and> \<not> bo_frontend env then Inl (ErrMsg ''frontend build missing'')
                 else Inr \<lparr> sr_service = sv, sr_probe = ps, sr_state = k2\<lparr>ks_db := d'\<rparr>, sr_sources = src, sr_versions = vs' \<rparr>))))"

text \<open>The service without HTTP: the tools over standard input and output, which need a validated space.\<close>

definition runMCPStdio :: "probe_env \<Rightarrow> config \<Rightarrow> kstate \<Rightarrow> (service \<times> kstate) ws" where
  "runMCPStdio env cfg k =
     (case pr_embed env of
        Inl _ \<Rightarrow> Inl (ErrMsg ''embedding unavailable'')
      | Inr dims \<Rightarrow>
          (let space = hash (''space-v1:'' @ ec_host (cfg_embedder cfg) @ '':'' @ itoa (ec_port (cfg_embedder cfg)) @ '':''
                         @ ec_model (cfg_embedder cfg) @ '':'' @ dec dims);
               sv = \<lparr> sv_space_id = space, sv_webhook_url = [], sv_judge_threshold = 0, sv_judge_key = [], sv_judge_model = [] \<rparr> in
           case pr_compatible env dims of
             Some e \<Rightarrow> Inl e
           | None \<Rightarrow>
               (case pr_space env space of
                  Some e \<Rightarrow> Inl e
                | None \<Rightarrow>
                    (case RestoreProjection sv (k\<lparr>ks_rag := SetEmbeddingSpace space dims (ks_rag k)\<rparr>) of
                       (Some e, _) \<Rightarrow> Inl e
                     | (None, k') \<Rightarrow> Inr (sv, k')))))"

text \<open>What a path that no route takes is answered with.\<close>

datatype page = App | NotFound

definition no_route :: "string \<Rightarrow> string \<Rightarrow> page" where
  "no_route verb path = (if verb \<noteq> ''GET'' \<or> has_prefix path ''/api/'' then NotFound else App)"

section \<open>Tools over MCP\<close>

record mcp_result =
  mr_text :: string
  mr_is_error :: bool

definition mcp_deps :: "rag \<Rightarrow> string \<Rightarrow> string \<Rightarrow> string \<Rightarrow> deps option" where
  "mcp_deps r promURL repo token = WithDeploy \<lparr> ds_repo = repo, ds_token = token, ds_base_url = [] \<rparr> (Some (NewDeps (Some r) promURL))"

definition mcp_tools :: "string \<Rightarrow> string list" where
  "mcp_tools repo = map (fs_name \<circ> td_function) (DefinitionsFor repo)"

text \<open>The handler of a tool; \<open>show_err\<close> renders an error.\<close>

definition mcp_handler :: "(tool_error \<Rightarrow> string) \<Rightarrow> tool_env \<Rightarrow> deps option \<Rightarrow> string \<Rightarrow> string \<Rightarrow> mcp_result" where
  "mcp_handler show_err env d name args =
     (case ExecWithContext env d name args of
        Inl e \<Rightarrow> \<lparr> mr_text = ''error: '' @ show_err e, mr_is_error = True \<rparr>
      | Inr (out, _) \<Rightarrow> \<lparr> mr_text = out, mr_is_error = False \<rparr>)"


section \<open>Restart\<close>

lemma tx_okD: "tx_ok d d' \<Longrightarrow> core_ok d' \<and> runs_follow d d' \<and> t_documents d' = t_documents d \<and> t_versions d' = t_versions d"
  by (simp add: tx_ok_def)

lemma probe_step:
  assumes "probe env identity now sv ps k = (sv', ps', k')"
  obtains e where "ProbeRetrieval env identity sv k = ((e, sv'), k')"
    and "ps_source_ok ps' = (e = None) \<or> ps' = ps \<and> e \<noteq> None"
  using assms by (auto simp: probe_def split: prod.splits if_splits)

lemma RegisterM2_effect:
  assumes "RegisterM2 env cfg d vs = Inr (src, d', vs')" and "core_ok d"
  shows "tx_ok d d' \<and> (\<exists>new. d' = d\<lparr>t_evidence := t_evidence d @ new\<rparr>)"
proof -
  consider "d' = d" | t t' where "PersistTopology (bo_reader env) (bo_now env) t d vs = Inr (t', d', vs')"
    using assms(1) by (auto simp: RegisterM2_def res_bind_eq_Inr split: option.splits)
  then show ?thesis
  proof cases
    case 1 with assms(2) show ?thesis by (auto simp: tx_ok_def intro: exI [of _ "[]"])
  next
    case 2 with tx_ok_topology [OF 2 assms(2)] PersistTopology_effect [OF 2] show ?thesis by blast
  qed
qed

lemma probe_source:
  assumes "ProbeRetrieval env identity sv k = ((e, sv'), k')"
  shows "(e = None \<longrightarrow> (\<exists>dims. pr_embed env = Inr dims \<and> sv_space_id sv' = probe_space identity dims))
    \<and> (e \<noteq> None \<longrightarrow> sv' = sv)"
  using assms by (cases e) (auto simp: ProbeRetrieval_def Let_def split: if_splits sum.splits option.splits prod.splits)

text \<open>On well-formed facts the projection can be restored, whatever the probe said.\<close>

lemma startup_opens:
  assumes ok: "ws_ok (ks_db k)"
  obtains sv ps k2 where
    "startup env cfg k vs =
       res_bind (Recover (bo_now env) (ks_db k)) (\<lambda>d.
       res_bind (RegisterM2 env cfg d vs) (\<lambda>(src, d', vs').
         if \<not> ui_legacy_default (cfg_ui cfg) \<and> \<not> bo_frontend env then Inl (ErrMsg ''frontend build missing'')
         else Inr \<lparr> sr_service = sv, sr_probe = ps, sr_state = k2\<lparr>ks_db := d'\<rparr>, sr_sources = src, sr_versions = vs' \<rparr>))"
    and "rag_view k2 = sql_active (sv_space_id sv) (ks_db k)"
    and "if ps_source_ok ps
         then \<exists>dims. pr_embed (bo_probe env) = Inr dims \<and> sv_space_id sv = probe_space (embedder_identity cfg) dims
         else sv = service_of cfg"
proof -
  let ?ps = "\<lparr> ps_checked = None, ps_succeeded = None, ps_source_ok = False \<rparr>"
  define k0 where "k0 = k\<lparr>ks_rag := SetEmbeddingSpace ''unavailable'' 0 (ks_rag k)\<rparr>"
  obtain sv ps k1 where p: "probe (bo_probe env) (embedder_identity cfg) (bo_now env) (service_of cfg) ?ps k0 = (sv, ps, k1)"
    by (cases "probe (bo_probe env) (embedder_identity cfg) (bo_now env) (service_of cfg) ?ps k0") auto
  then obtain e where e: "ProbeRetrieval (bo_probe env) (embedder_identity cfg) (service_of cfg) k0 = ((e, sv), k1)"
    and "ps_source_ok ps = (e = None) \<or> ps = ?ps \<and> e \<noteq> None" by (rule probe_step)
  then have ps: "ps_source_ok ps = (e = None)" by auto
  have k1: "ks_db k1 = ks_db k" using probe_facts [OF e] by (simp add: k0_def)
  with ok rp.restore_ok [of k1 sv] obtain k2 where k2: "RestoreProjection sv k1 = (None, k2)" "ks_db k2 = ks_db k"
    "rag_view k2 = sql_active (sv_space_id sv) (ks_db k)" by (auto simp: ws_ok_def)
  show ?thesis
    by (rule that [of sv ps k2]) (use p [unfolded k0_def] k2 ps probe_source [OF e] in \<open>simp_all add: startup_def\<close>)
qed


text \<open>What stops a start is the recovery of the runs, the controlled configuration or a missing build of the frontend.\<close>

lemma startup_refused:
  assumes run: "startup env cfg k vs = Inl e" and ok: "ws_ok (ks_db k)"
  shows "case Recover (bo_now env) (ks_db k) of
      Inl e' \<Rightarrow> e = e'
    | Inr d \<Rightarrow> (case RegisterM2 env cfg d vs of Inl e' \<Rightarrow> e = e' | Inr _ \<Rightarrow> \<not> ui_legacy_default (cfg_ui cfg) \<and> \<not> bo_frontend env)"
  by (rule startup_opens [OF ok, of env cfg vs]) (use run in \<open>auto simp: res_bind_def split: sum.splits if_splits\<close>)

definition ex_boot :: boot_env where
  "ex_boot = \<lparr> bo_probe = ex_probe, bo_now = 9, bo_stream = (\<lambda>_. None),
     bo_reader = \<lparr> rd_parse = (\<lambda>_. None), rd_nodes = (\<lambda>_. []), rd_edges = (\<lambda>_. []) \<rparr>, bo_files = (\<lambda>_. None), bo_frontend = True \<rparr>"

definition ex_config :: config where
  "ex_config = Default\<lparr>cfg_templates_file := []\<rparr>"

definition ex_crashed :: kstate where
  "ex_crashed = \<lparr> ks_db = ex_running, ks_rag = ex_rag \<rparr>"

lemma ws_ok_ex_crashed: "ws_ok (ks_db ex_crashed)"
  using core_ok_ex_running knowledge_ok_cong [of ex_running empty_db] knowledge_ok_empty
  by (simp add: ws_ok_def ex_crashed_def ex_running_def)

lemma startup_ex: "\<exists>srv. startup ex_boot ex_config ex_crashed [] = Inr srv"
proof (rule ccontr)
  assume "\<nexists>srv. startup ex_boot ex_config ex_crashed [] = Inr srv"
  then obtain e where "startup ex_boot ex_config ex_crashed [] = Inl e" by (cases "startup ex_boot ex_config ex_crashed []") auto
  from startup_refused [OF this ws_ok_ex_crashed] Recover_ex_running show False
    by (auto simp: ex_boot_def ex_crashed_def ex_config_def RegisterM2_def load_sources_def controlled_file_def Default_def)
qed


section \<open>Tools over MCP are the tools of the agent\<close>

lemma restore_same_space: "sv_space_id sv = sv_space_id sv' \<Longrightarrow> RestoreProjection sv k = RestoreProjection sv' k"
  by (simp add: RestoreProjection_def)

text \<open>The process that serves tools over standard input and output. It writes no fact, and it reads the documents that
  a server with the same configuration and the same embedder would show: the same space and the same active versions.\<close>

theorem runMCPStdio_agrees:
  assumes run: "runMCPStdio env cfg k = Inr (sv, k')" and ok: "knowledge_ok (ks_db k)"
  shows "ks_db k' = ks_db k \<and> rag_view k' = sql_active (sv_space_id sv) (ks_db k)
    \<and> (\<not> pr_locked env \<longrightarrow> (\<exists>sv' k''. ProbeRetrieval env (embedder_identity cfg) (service_of cfg) k = ((None, sv'), k'')
         \<and> sv_space_id sv' = sv_space_id sv \<and> ks_rag k'' = ks_rag k'))"
proof -
  from run obtain dims where e: "pr_embed env = Inr dims" "pr_compatible env dims = None"
    by (auto simp: runMCPStdio_def Let_def split: sum.splits option.splits)
  define space where "space = probe_space (embedder_identity cfg) dims"
  define k1 where "k1 = k\<lparr>ks_rag := SetEmbeddingSpace space dims (ks_rag k)\<rparr>"
  have sp: "hash (''space-v1:'' @ ec_host (cfg_embedder cfg) @ '':'' @ itoa (ec_port (cfg_embedder cfg)) @ '':''
      @ ec_model (cfg_embedder cfg) @ '':'' @ dec dims) = space"
    by (simp add: space_def probe_space_def embedder_identity_def)
  note run' = run [unfolded runMCPStdio_def e(1) sum.case Let_def, unfolded sp]
  from run' e have s: "pr_space env space = None" and sv: "sv_space_id sv = space" and r: "RestoreProjection sv k1 = (None, k')"
    by (auto simp: k1_def split: option.splits prod.splits)
  have known: "knowledge_ok (ks_db k1)" using ok by (simp add: k1_def)
  have "length space = 64" by (simp add: space_def probe_space_def)
  then have "space \<noteq> ''unavailable''" by auto
  then have "ProbeRetrieval env (embedder_identity cfg) (service_of cfg) k = ((None, (service_of cfg)\<lparr>sv_space_id := space\<rparr>), k')"
    if "\<not> pr_locked env"
    using that e s r restore_same_space [of "(service_of cfg)\<lparr>sv_space_id := space\<rparr>" sv k1]
    by (simp add: ProbeRetrieval_def Let_def service_of_def sv k1_def space_def)
  with rp.restore_ok [OF known, of sv] r sv show ?thesis by (auto simp: k1_def)
qed

lemma runMCPStdio_starts:
  assumes ok: "knowledge_ok (ks_db k)" and "pr_embed env = Inr dims" "pr_compatible env dims = None" "\<And>s. pr_space env s = None"
  shows "\<exists>x. runMCPStdio env cfg k = Inr x"
proof -
  have r: "fst (RestoreProjection sv (k\<lparr>ks_rag := r\<rparr>)) = None" for sv r using rp.restore_total [of "k\<lparr>ks_rag := r\<rparr>" sv] ok by simp
  have c: "fst p = None \<Longrightarrow> \<exists>x. (case p of (Some e, _) \<Rightarrow> Inl e | (None, k') \<Rightarrow> Inr (sv, k')) = Inr x" for p and sv :: service
    by (auto split: prod.splits option.splits)
  show ?thesis unfolding runMCPStdio_def assms(2) sum.case assms(3,4) option.case Let_def by (rule c [OF r])
qed

theorem runMCPStdio_agrees_witness:
  "\<exists>sv k'. runMCPStdio ex_probe ex_config ex_published = Inr (sv, k') \<and> ks_db k' = ks_db ex_published
     \<and> rag_view k' = sql_active (sv_space_id sv) (ks_db ex_published)"
proof -
  have "\<exists>x. runMCPStdio ex_probe ex_config ex_published = Inr x"
    by (rule runMCPStdio_starts [OF knowledge_ok_ex_published]) (simp_all add: ex_probe_def)
  then obtain sv k' where "runMCPStdio ex_probe ex_config ex_published = Inr (sv, k')" by auto
  with runMCPStdio_agrees [OF this knowledge_ok_ex_published] show ?thesis by blast
qed

text \<open>The tools on offer are the tools of the agent's list, and every other name is answered with the refusal, as the
  result of the call and not as a failure of the protocol.\<close>

lemma mcp_refuses:
  assumes "name \<notin> set (mcp_tools repo)"
  shows "mcp_handler show_err env (mcp_deps r promURL repo token) name args
    = \<lparr> mr_text = ''error: '' @ show_err (Denied name (mcp_tools repo)), mr_is_error = True \<rparr>"
  using assms
  by (auto simp: mcp_handler_def mcp_tools_def definition_names ExecWithContext_def IsAllowed_def list_ex_iff errDeny_def deployRepo_def
      mcp_deps_def WithDeploy_def)

end
