(* ===== verification/Migration.thy ===== *)
theory Migration
  imports Diagnosis
begin

text \<open>
  The import of reports of the earlier version (\<open>src/internal/workspace/migration.go\<close>): validation of a
  snapshot, the import transaction and the archive it leaves.

  The snapshot is its content, or \<open>None\<close> when it cannot be opened. \<open>parse\<close> is the JSON reader of the standard
  library and \<open>raw_rows\<close> the raw texts (\<open>json.RawMessage\<close>) of the elements of the report array of a snapshot.
  \<open>ctx\<close> answers the check of the context before each report. The inventory, the file backup and
  the command that runs them are in the theory \<open>Control\<close>.
\<close>

section \<open>Reading a snapshot\<close>

record legacy_snapshot =
  ls_raw :: string
  ls_id :: string
  ls_status :: string
  ls_received :: string
  ls_diagnosis :: string
  ls_score :: int

definition decode_legacy :: "string \<Rightarrow> json option \<Rightarrow> legacy_snapshot ws" where
  "decode_legacy row j =
     (case j of
        Some JNull \<Rightarrow> Inr \<lparr> ls_raw = row, ls_id = [], ls_status = [], ls_received = [], ls_diagnosis = [], ls_score = 0 \<rparr>
      | Some (JObj kvs) \<Rightarrow>
          res_bind (str_field ''id'' kvs) (\<lambda>i.
          res_bind (str_field ''status'' kvs) (\<lambda>st.
          res_bind (str_field ''received_at'' kvs) (\<lambda>at_s.
          res_bind (str_field ''diagnosis'' kvs) (\<lambda>di.
          res_bind (int_field ''score'' kvs) (\<lambda>sc.
            Inr \<lparr> ls_raw = row, ls_id = i, ls_status = st, ls_received = at_s, ls_diagnosis = di, ls_score = sc \<rparr>)))))
      | _ \<Rightarrow> Inl ErrJSON)"

definition legacy_row :: "(string \<Rightarrow> json option) \<Rightarrow> string \<Rightarrow> legacy_snapshot ws" where
  "legacy_row parse row =
     (case decode_legacy row (parse row) of
        Inl _ \<Rightarrow> Inl (ErrMsg ''invalid legacy report'')
      | Inr p \<Rightarrow>
          ensure (ls_id p \<noteq> [] \<and> length (ls_id p) \<le> 200) (ErrMsg ''legacy report ID required'')
          (ensure (0 \<le> ls_score p \<and> ls_score p \<le> 5) (ErrMsg ''legacy judge score invalid'')
          (ensure (ls_status p \<in> {''done'', ''failed'', ''queued'', ''running''}) (ErrMsg ''unsupported legacy report status'')
          (ensure (parse_nano (ls_received p) \<noteq> None) (ErrMsg ''legacy received_at required and must be RFC3339'')
            (Inr p)))))"

definition report_array :: "json option \<Rightarrow> unit ws" where
  "report_array j =
     (case j of
        Some (JArr _) \<Rightarrow> Inr ()
      | Some JNull \<Rightarrow> Inl (ErrMsg ''legacy snapshot must be a report array'')
      | Some (JObj kvs) \<Rightarrow>
          (case jvalues ''reports'' kvs of
             [] \<Rightarrow> Inl (ErrMsg ''invalid legacy snapshot'')
           | vs \<Rightarrow> (if list_all (\<lambda>v. case v of JArr _ \<Rightarrow> True | JNull \<Rightarrow> True | _ \<Rightarrow> False) vs \<and> last vs \<noteq> JNull
                     then Inr () else Inl (ErrMsg ''invalid legacy snapshot'')))
      | _ \<Rightarrow> Inl (ErrMsg ''invalid legacy snapshot''))"

definition readLegacySnapshot :: "(string \<Rightarrow> json option) \<Rightarrow> (string \<Rightarrow> string list) \<Rightarrow> string option \<Rightarrow>
    (legacy_snapshot list \<times> string) ws" where
  "readLegacySnapshot parse raw_rows file =
     (case file of
        None \<Rightarrow> Inl (ErrMsg ''open'')
      | Some raw \<Rightarrow>
          ensure (length raw \<le> 32 * 1048576) (ErrMsg ''legacy snapshot exceeds 32MiB'')
          (res_bind (report_array (parse raw)) (\<lambda>_.
           res_bind (map_res (legacy_row parse) (raw_rows raw)) (\<lambda>out. Inr (out, hash raw)))))"

section \<open>Importing\<close>

record legacy_import_result =
  li_imported :: nat
  li_duplicates :: nat
  li_source_sha256 :: string
  li_legacy_incomplete :: bool

definition legacy_id :: "string \<Rightarrow> string" where
  "legacy_id i = stableID ''legacy_'' i"

definition legacy_error :: api_error where
  "legacy_error = \<lparr> ae_code = ''legacy_incomplete'', ae_message = bytes
       [0xE6, 0x97, 0xA7, 0xE6, 0x8A, 0xA5, 0xE5, 0x91, 0x8A, 0xE6, 0x9D, 0xA5, 0xE6, 0xBA, 0x90, 0xE4, 0xB8, 0x8E,
       0xE7, 0x89, 0x88, 0xE6, 0x9C, 0xAC, 0xE4, 0xB8, 0x8D, 0xE5, 0xAE, 0x8C, 0xE6, 0x95, 0xB4, 0xEF, 0xBC, 0x8C,
       0xE4, 0xBB, 0x85, 0xE4, 0xBF, 0x9D, 0xE7, 0x95, 0x99, 0xE5, 0x8E, 0x86, 0xE5, 0x8F, 0xB2, 0xE5, 0x8E, 0x9F,
       0xE6, 0x96, 0x87, 0xEF, 0xBC, 0x8C, 0xE6, 0x9C, 0xAA, 0xE6, 0xA0, 0xB8, 0xE9, 0xAA, 0x8C],
     ae_retryable = False \<rparr>"

definition legacy_run :: "legacy_snapshot \<Rightarrow> run" where
  "legacy_run old =
     \<lparr> run_id = ls_id old, run_incident_ids = [],
       run_status = (if ls_status old = ''done'' then ''succeeded'' else ''failed''),
       run_dispatch_state = ''none'', run_evidence_status = ''not_evaluated'', run_notification_status = ''disabled'',
       run_judge_score = (if 0 < ls_score old then Some (ls_score old) else None),
       run_received_at = fmt_nano (parse_or_zero (ls_received old)), run_started_at = None, run_finished_at = None,
       run_duration_ms = None, run_current_attempt = 0, run_revision = 1, run_report_text = Some (ls_diagnosis old),
       run_citation_ids = [], run_error = Some legacy_error \<rparr>"

definition legacy_evidence :: "string \<Rightarrow> legacy_snapshot \<Rightarrow> time \<Rightarrow> evidence" where
  "legacy_evidence digest old now =
     \<lparr> evi_id = legacy_id (ls_id old), evi_kind = ''report'', evi_source_kind = ''system'',
       evi_source_ref = ''legacy:'' @ ls_id old, evi_recorded_at = fmt_nano now, evi_observed_at = None,
       evi_document_id = None, evi_version_id = None, evi_chunk_id = None, evi_snippet = Some (ls_diagnosis old),
       evi_metadata = [(''run_id'', MStr (ls_id old)), (''legacy_incomplete'', MBool True), (''legacy_status'', MStr (ls_status old)),
         (''legacy_json'', MStr (ls_raw old)), (''legacy_report_sha256'', MStr (hash (ls_raw old))), (''source_sha256'', MStr digest),
         (''verification'', MStr ''unverified''), (''original_alerts_preserved'', MBool True)] \<rparr>"

definition insert_run_evidence :: "evidence \<Rightarrow> string \<Rightarrow> db \<Rightarrow> db ws" where
  "insert_run_evidence e rid d =
     ensure (has_run rid d) ErrConstraint
       (res_bind (res_of ErrConstraint (tins vi_id \<lparr> vi_id = evi_id e, vi_run = Some rid, vi_incident = None, vi_data = e \<rparr>
            (t_evidence d))) (\<lambda>t. Inr (d\<lparr>t_evidence := t\<rparr>)))"

definition import_one :: "(string \<Rightarrow> ws_error option) \<Rightarrow> string \<Rightarrow> time \<Rightarrow> legacy_snapshot \<Rightarrow> legacy_import_result \<times> db \<Rightarrow>
    (legacy_import_result \<times> db) ws" where
  "import_one ctx digest now old = (\<lambda>(res, d).
     case ctx (ls_id old) of
       Some e \<Rightarrow> Inl e
     | None \<Rightarrow>
         (case get_evidence (legacy_id (ls_id old)) d of
            Inr ev \<Rightarrow>
              ensure (map_of (evi_metadata ev) ''legacy_report_sha256'' = Some (MStr (hash (ls_raw old)))) ErrConflict
                (Inr (res\<lparr>li_duplicates := li_duplicates res + 1\<rparr>, d))
          | Inl _ \<Rightarrow>
              ensure (\<not> has_run (ls_id old) d) ErrConflict
              (res_bind (insert_run_row (legacy_run old) (''legacy:'' @ hash (ls_id old)) d) (\<lambda>d.
               res_bind (insert_run_evidence (legacy_evidence digest old now) (ls_id old) d) (\<lambda>d.
                 Inr (res\<lparr>li_imported := li_imported res + 1\<rparr>, d))))))"

definition ImportLegacyReports :: "(string \<Rightarrow> json option) \<Rightarrow> (string \<Rightarrow> string list) \<Rightarrow> (string \<Rightarrow> ws_error option) \<Rightarrow>
    string option \<Rightarrow> time \<Rightarrow> db \<Rightarrow> (legacy_import_result \<times> db) ws" where
  "ImportLegacyReports parse raw_rows ctx file now d =
     res_bind (readLegacySnapshot parse raw_rows file) (\<lambda>(rows, digest).
       fold_res (import_one ctx digest now) rows
         (\<lparr> li_imported = 0, li_duplicates = 0, li_source_sha256 = digest, li_legacy_incomplete = True \<rparr>, d))"

definition LegacyReportArchive :: "(string \<Rightarrow> json option) \<Rightarrow> string \<Rightarrow> db \<Rightarrow> string ws" where
  "LegacyReportArchive parse i d =
     res_bind (get_evidence (legacy_id i) d) (\<lambda>ev.
       case map_of (evi_metadata ev) ''legacy_json'' of
         Some (MStr raw) \<Rightarrow> ensure (parse raw \<noteq> None) (ErrMsg ''legacy archive unavailable'') (Inr raw)
       | _ \<Rightarrow> Inl (ErrMsg ''legacy archive unavailable''))"

definition QdrantHTTPBase :: "string \<Rightarrow> int \<Rightarrow> string" where
  "QdrantHTTPBase host port =
     (let p = (if port = 0 \<or> port = 6334 then 6333 else port)
      in ''http://'' @ host @ '':'' @ (if p < 0 then ''-'' @ dec (nat (- p)) else dec (nat p)))"

section \<open>What an import changes\<close>

definition archive_only :: "db \<Rightarrow> db \<Rightarrow> bool" where
  "archive_only d d' \<longleftrightarrow> d' = d\<lparr>t_runs := t_runs d', t_evidence := t_evidence d'\<rparr>"

lemma archive_only_trans: "archive_only d d1 \<Longrightarrow> archive_only d1 d2 \<Longrightarrow> archive_only d d2"
  by (cases d; cases d1; cases d2) (simp add: archive_only_def)

text \<open>One report: known and unchanged, or added as a finished run with its archive.\<close>

lemma import_one_cases:
  assumes "import_one ctx digest now old (res, d) = Inr (res', d')"
  obtains (known) ev where "get_evidence (legacy_id (ls_id old)) d = Inr ev"
      and "map_of (evi_metadata ev) ''legacy_report_sha256'' = Some (MStr (hash (ls_raw old)))" and "d' = d"
      and "res' = res\<lparr>li_duplicates := li_duplicates res + 1\<rparr>"
  | (added) "get_evidence (legacy_id (ls_id old)) d = Inl ErrNoRows" and "\<not> has_run (ls_id old) d"
      and "''legacy:'' @ hash (ls_id old) \<notin> set (map rr_business_key (t_runs d))"
      and "d' = d\<lparr>t_runs := t_runs d @ [\<lparr> rr_id = ls_id old, rr_business_key = ''legacy:'' @ hash (ls_id old),
              rr_status = run_status (legacy_run old), rr_received_at = run_received_at (legacy_run old), rr_attempt = 0,
              rr_lease_until = None, rr_revision = 1, rr_data = legacy_run old \<rparr>],
            t_evidence := t_evidence d @ [\<lparr> vi_id = legacy_id (ls_id old), vi_run = Some (ls_id old), vi_incident = None,
              vi_data = legacy_evidence digest old now \<rparr>]\<rparr>"
      and "res' = res\<lparr>li_imported := li_imported res + 1\<rparr>"
proof (cases "get_evidence (legacy_id (ls_id old)) d")
  case (Inr ev)
  with assms show ?thesis by (intro known [of ev]) (auto simp: import_one_def split: option.splits)
next
  case (Inl e)
  then have "e = ErrNoRows" by (auto simp: get_evidence_def res_of_def split: option.splits)
  with Inl assms show ?thesis
    by (intro added)
       (auto simp: import_one_def res_bind_eq_Inr insert_run_row_Inr insert_run_evidence_def tins_Some legacy_run_def
          legacy_evidence_def split: option.splits)
qed

lemma legacy_terminal: "terminal (run_status (legacy_run old))"
  by (simp add: legacy_run_def terminal_def)

lemma import_one_effect:
  assumes "import_one ctx digest now old (res, d) = Inr (res', d')" and ok: "core_ok d"
  shows "core_ok d' \<and> runs_follow d d' \<and> archive_only d d'"
  using assms(1)
proof (cases rule: import_one_cases)
  case known
  with ok show ?thesis by (simp add: archive_only_def)
next
  case added
  have t: "t_runs d' = t_runs d @ [\<lparr> rr_id = ls_id old, rr_business_key = ''legacy:'' @ hash (ls_id old),
      rr_status = run_status (legacy_run old), rr_received_at = run_received_at (legacy_run old), rr_attempt = 0,
      rr_lease_until = None, rr_revision = 1, rr_data = legacy_run old \<rparr>]" (is "_ = _ @ [?x]")
    and ev: "t_evidence d' = t_evidence d @ [\<lparr> vi_id = legacy_id (ls_id old), vi_run = Some (ls_id old), vi_incident = None,
      vi_data = legacy_evidence digest old now \<rparr>]"
    and same: "t_events d' = t_events d" "t_incidents d' = t_incidents d" "t_run_incidents d' = t_run_incidents d" "t_outbox d' = t_outbox d"
    by (simp_all add: added(4))
  have has: "has_run i d' \<longleftrightarrow> has_run i d \<or> i = ls_id old" for i by (auto simp: has_run_keys t)
  have inc: "has_incident i d' = has_incident i d" for i by (simp add: has_incident_def same)
  have none: "run_links (ls_id old) d = []"
    using ok added(2) by (auto simp: core_ok_def links_ok_def run_links_def list_all_iff filter_empty_conv)
  have links: "run_links i d' = run_links i d" for i by (simp add: run_links_def same)
  have new: "legacy_id (ls_id old) \<notin> vi_id ` set (t_evidence d)"
    using added(1) by (auto simp: get_evidence_def tget_None_iff res_of_def split: option.splits)
  have "runs_ok d'"
    using ok added(2,3) by (auto simp: core_ok_def runs_ok_def t tok_def row_agrees_def legacy_run_def has_run_keys)
  moreover have "events_ok d'" by (rule events_ok_grow [of d]) (use ok in \<open>auto simp: core_ok_def same t\<close>)
  moreover have "incidents_ok d'"
    using ok by (auto simp: core_ok_def incidents_ok_def same has list_all_iff split: option.splits)
  moreover have "links_ok d'" using ok none by (auto simp: core_ok_def links_ok_def same has inc links t list_all_iff legacy_run_def)
  moreover have "evidence_ok d'"
    using ok new by (auto simp: core_ok_def evidence_ok_def ev tok_def has list_all_iff legacy_evidence_def)
  moreover have "outbox_ok d'"
    using ok by (auto simp: core_ok_def outbox_ok_def same has list_all_iff split: payload.splits)
  moreover have "queue_ok d'"
    using ok legacy_terminal by (auto simp: core_ok_def queue_ok_def same t list_all_iff)
  moreover have "runs_follow d d'" by (rule runs_follow_append [OF t])
  moreover have "archive_only d d'" by (simp add: archive_only_def added(4))
  ultimately show ?thesis by (simp add: core_ok_def)
qed

lemma import_one_keeps:
  assumes "import_one ctx digest now old (res, d) = Inr (res', d')" and "get_evidence i d = Inr ev"
  shows "get_evidence i d' = Inr ev"
  using assms(1)
proof (cases rule: import_one_cases)
  case added
  with assms(2) show ?thesis by (auto simp: get_evidence_Inr tget_def find_append)
qed (use assms(2) in simp)

lemma import_one_archives:
  assumes "import_one ctx digest now old (res, d) = Inr (res', d')"
  shows "(\<exists>ev. get_evidence (legacy_id (ls_id old)) d' = Inr ev
      \<and> map_of (evi_metadata ev) ''legacy_report_sha256'' = Some (MStr (hash (ls_raw old)))
      \<and> (li_duplicates res' = li_duplicates res \<longrightarrow> ev = legacy_evidence digest old now))
    \<and> li_imported res' + li_duplicates res' = Suc (li_imported res + li_duplicates res)
    \<and> li_duplicates res \<le> li_duplicates res' \<and> li_source_sha256 res' = li_source_sha256 res"
  using assms
proof (cases rule: import_one_cases)
  case added
  have "get_evidence (legacy_id (ls_id old)) d' = Inr (legacy_evidence digest old now)"
    using added(1) by (auto simp: added(4) get_evidence_def tget_def find_append res_of_def split: option.splits)
  with added show ?thesis by (simp add: legacy_evidence_def)
qed auto

lemma import_fold:
  assumes "fold_res (import_one ctx digest now) rows (res, d) = Inr (res', d')"
  shows "(\<forall>i ev. get_evidence i d = Inr ev \<longrightarrow> get_evidence i d' = Inr ev)
    \<and> (\<forall>old \<in> set rows. \<exists>ev. get_evidence (legacy_id (ls_id old)) d' = Inr ev
         \<and> map_of (evi_metadata ev) ''legacy_report_sha256'' = Some (MStr (hash (ls_raw old)))
         \<and> (li_duplicates res' = li_duplicates res \<longrightarrow> ev = legacy_evidence digest old now))
    \<and> li_imported res' + li_duplicates res' = length rows + li_imported res + li_duplicates res
    \<and> li_duplicates res \<le> li_duplicates res'"
  using assms
proof (induction rows arbitrary: res d)
  case (Cons old rows)
  then obtain res1 d1 where 1: "import_one ctx digest now old (res, d) = Inr (res1, d1)"
    and 2: "fold_res (import_one ctx digest now) rows (res1, d1) = Inr (res', d')"
    by (auto simp: res_bind_eq_Inr)
  note k = import_one_keeps [OF 1] and a = import_one_archives [OF 1] and ih = Cons.IH [OF 2]
  from a obtain ev where ev: "get_evidence (legacy_id (ls_id old)) d1 = Inr ev"
    "map_of (evi_metadata ev) ''legacy_report_sha256'' = Some (MStr (hash (ls_raw old)))"
    "li_duplicates res1 = li_duplicates res \<longrightarrow> ev = legacy_evidence digest old now" by blast
  have mono: "li_duplicates res \<le> li_duplicates res1" "li_duplicates res1 \<le> li_duplicates res'" using a ih by simp_all
  have same: "li_duplicates res' = li_duplicates res \<longrightarrow> li_duplicates res1 = li_duplicates res \<and> li_duplicates res' = li_duplicates res1"
    using mono by simp
  have "\<exists>ev. get_evidence (legacy_id (ls_id x)) d' = Inr ev
      \<and> map_of (evi_metadata ev) ''legacy_report_sha256'' = Some (MStr (hash (ls_raw x)))
      \<and> (li_duplicates res' = li_duplicates res \<longrightarrow> ev = legacy_evidence digest x now)" if "x \<in> set (old # rows)" for x
  proof (cases "x = old")
    case True
    have "get_evidence (legacy_id (ls_id old)) d' = Inr ev" using ih ev(1) by blast
    then show ?thesis unfolding True by (intro exI [of _ ev] conjI ev(2)) (use ev(3) same in blast)+
  next
    case False
    with that have "x \<in> set rows" by simp
    with ih obtain e where e: "get_evidence (legacy_id (ls_id x)) d' = Inr e"
      "map_of (evi_metadata e) ''legacy_report_sha256'' = Some (MStr (hash (ls_raw x)))"
      "li_duplicates res' = li_duplicates res1 \<longrightarrow> e = legacy_evidence digest x now" by blast
    show ?thesis by (rule exI [of _ e]) (use e same in blast)
  qed
  moreover have "get_evidence i d = Inr e \<longrightarrow> get_evidence i d' = Inr e" for i e using k ih by blast
  moreover have "li_imported res' + li_duplicates res' = length (old # rows) + li_imported res + li_duplicates res" using a ih by simp
  ultimately show ?case using mono by simp
qed simp

lemma import_known:
  assumes "\<forall>old \<in> set rows. \<exists>ev. get_evidence (legacy_id (ls_id old)) d = Inr ev
         \<and> map_of (evi_metadata ev) ''legacy_report_sha256'' = Some (MStr (hash (ls_raw old)))"
    and "\<forall>i. ctx i = None"
  shows "fold_res (import_one ctx digest now) rows (res, d) = Inr (res\<lparr>li_duplicates := li_duplicates res + length rows\<rparr>, d)"
  using assms(1)
proof (induction rows arbitrary: res)
  case (Cons old rows)
  then have "import_one ctx digest now old (res, d) = Inr (res\<lparr>li_duplicates := li_duplicates res + 1\<rparr>, d)"
    using assms(2) by (auto simp: import_one_def ensure_def)
  with Cons show ?case by simp
qed simp

lemma import_fold_effect:
  assumes "fold_res (import_one ctx digest now) rows (res, d) = Inr (res', d')" and "core_ok d"
  shows "core_ok d' \<and> runs_follow d d' \<and> archive_only d d'"
  using assms
proof (induction rows arbitrary: res d)
  case Nil
  then show ?case by (simp add: archive_only_def)
next
  case (Cons old rows)
  then obtain res1 d1 where 1: "import_one ctx digest now old (res, d) = Inr (res1, d1)"
    and 2: "fold_res (import_one ctx digest now) rows (res1, d1) = Inr (res', d')"
    by (auto simp: res_bind_eq_Inr)
  note e = import_one_effect [OF 1 Cons.prems(2)]
  with Cons.IH [OF 2] runs_follow_trans archive_only_trans show ?case by blast
qed

section \<open>Properties of the import\<close>


definition ex_legacy :: json where
  "ex_legacy = JObj [(''id'', JStr ''old''), (''status'', JStr ''done''), (''received_at'', JStr ''1970-01-01T00:00:00Z''),
     (''diagnosis'', JStr ''text''), (''score'', JNum ''4'')]"

definition ex_parse :: "string \<Rightarrow> json option" where
  "ex_parse s = (if s = ''file'' then Some (JArr [ex_legacy]) else if s = ''row'' then Some ex_legacy else None)"

lemma ex_read:
  "readLegacySnapshot ex_parse (\<lambda>_. [''row'']) (Some ''file'')
     = Inr ([\<lparr> ls_raw = ''row'', ls_id = ''old'', ls_status = ''done'', ls_received = ''1970-01-01T00:00:00Z'',
               ls_diagnosis = ''text'', ls_score = 4 \<rparr>], hash ''file'')"
  by (simp add: readLegacySnapshot_def ex_parse_def ex_legacy_def report_array_def legacy_row_def decode_legacy_def str_field_def
      int_field_def jvalues_def set_string_def set_int_def int_literal_def ensure_def parse_epoch to_lower_def lower_char_def
      has_prefix_def is_digit_def less_eq_char_def Let_def)

lemma ex_import:
  "\<exists>d'. ImportLegacyReports ex_parse (\<lambda>_. [''row'']) (\<lambda>_. None) (Some ''file'') 5 empty_db
     = Inr (\<lparr> li_imported = 1, li_duplicates = 0, li_source_sha256 = hash ''file'', li_legacy_incomplete = True \<rparr>, d')"
  by (simp add: ImportLegacyReports_def ex_read import_one_def get_evidence_def empty_db_def tget_def ensure_def has_run_def
      insert_run_row_def insert_run_evidence_def tins_def legacy_run_def)


text \<open>The archive is the original. After an import without duplicates, the archive of every report of the snapshot is
  its original text, byte for byte.\<close>

theorem LegacyReportArchive_roundtrip:
  assumes run: "ImportLegacyReports parse raw_rows ctx file now d = Inr (res, d')" and new: "li_duplicates res = 0"
    and rows: "readLegacySnapshot parse raw_rows file = Inr (rows, digest)" and old: "old \<in> set rows"
  shows "LegacyReportArchive parse (ls_id old) d' = Inr (ls_raw old)"
proof -
  have "fold_res (import_one ctx digest now) rows
      (\<lparr> li_imported = 0, li_duplicates = 0, li_source_sha256 = digest, li_legacy_incomplete = True \<rparr>, d) = Inr (res, d')"
    using run rows by (simp add: ImportLegacyReports_def)
  from import_fold [OF this] old new have ev: "get_evidence (legacy_id (ls_id old)) d' = Inr (legacy_evidence digest old now)"
    by auto
  obtain raw where "map_res (legacy_row parse) (raw_rows raw) = Inr rows"
    using rows by (auto simp: readLegacySnapshot_def res_bind_eq_Inr split: option.splits)
  then have "list_all2 (\<lambda>x y. legacy_row parse x = Inr y) (raw_rows raw) rows" by (simp add: map_res_Inr)
  with old obtain x where "legacy_row parse x = Inr old" by (auto simp: list_all2_conv_all_nth in_set_conv_nth)
  then have "parse (ls_raw old) \<noteq> None"
    by (auto simp: legacy_row_def decode_legacy_def res_bind_eq_Inr split: sum.splits option.splits json.splits)
  with ev show ?thesis by (simp add: LegacyReportArchive_def legacy_evidence_def ensure_def)
qed

theorem LegacyReportArchive_roundtrip_witness:
  "\<exists>res d'. ImportLegacyReports ex_parse (\<lambda>_. [''row'']) (\<lambda>_. None) (Some ''file'') 5 empty_db = Inr (res, d')
     \<and> LegacyReportArchive ex_parse ''old'' d' = Inr ''row''"
proof -
  obtain d' where d': "ImportLegacyReports ex_parse (\<lambda>_. [''row'']) (\<lambda>_. None) (Some ''file'') 5 empty_db
     = Inr (\<lparr> li_imported = 1, li_duplicates = 0, li_source_sha256 = hash ''file'', li_legacy_incomplete = True \<rparr>, d')"
    using ex_import by blast
  from LegacyReportArchive_roundtrip [OF d' _ ex_read] d' show ?thesis by simp
qed

end
