(* ===== verification/Control.thy ===== *)
theory Control
  imports Config Migration GoUrl
begin

text \<open>
  The maintenance command (\<open>src/cmd/workspacectl/main.go\<close>) with the inventory and the backup it runs
  (\<open>src/internal/workspace/migration.go\<close>) and the schema it opens (\<open>Open\<close>, \<open>migrate\<close>, \<open>Backup\<close> of
  \<open>src/internal/workspace/database.go\<close>).

  A file is the text it holds or a SQLite database with the tables of the schema. A path names one file: directories,
  links, two spellings of a path and the log files of the engine are not modelled; an error keeps its cause and loses the text
  around it. What the system and the engine decide is a field of the
  environment: errors of opening a file or making a directory, the bytes of a database file, the copy that
  \<open>VACUUM INTO\<close> makes of a file without tables, the name of a temporary file, what other processes do before the
  backup is published, \<open>url.Parse\<close> as scheme, user information present and host, and the answer of Qdrant.
\<close>

section \<open>Files\<close>

record ctl_db =
  cd_versions :: "int list"
  cd_db :: db

datatype ctl_file = Plain string | Database ctl_db

type_synonym ctl_fs = "string \<Rightarrow> ctl_file option"

record ctl_env =
  cl_getenv :: "string \<Rightarrow> string"
  cl_parse :: "string \<Rightarrow> json option"
  cl_num :: "string \<Rightarrow> real option"
  cl_rows :: "string \<Rightarrow> string list"
  cl_now :: time
  cl_ctx :: "string \<Rightarrow> ws_error option"
  cl_ctx_end :: "ws_error option"
  cl_denied :: "string \<Rightarrow> ws_error option"
  cl_mkdir :: "string \<Rightarrow> ws_error option"
  cl_bytes :: "ctl_db \<Rightarrow> string"
  cl_vacuum :: "string \<Rightarrow> ctl_file ws"
  cl_temp :: "string \<Rightarrow> ctl_fs \<Rightarrow> string ws"
  cl_meanwhile :: "ctl_fs \<Rightarrow> ctl_fs"
  cl_url :: "string \<Rightarrow> (string \<times> bool \<times> string) option"
  cl_get :: "string \<Rightarrow> (nat \<times> string option) option"

definition not_found :: ws_error where
  "not_found = ErrMsg ''no such file or directory''"

definition file_bytes :: "ctl_env \<Rightarrow> ctl_file \<Rightarrow> string" where
  "file_bytes env f = (case f of Plain s \<Rightarrow> s | Database x \<Rightarrow> cl_bytes env x)"

definition read_file :: "ctl_env \<Rightarrow> ctl_fs \<Rightarrow> string \<Rightarrow> string ws" where
  "read_file env fs path =
     (case fs path of
        None \<Rightarrow> Inl not_found
      | Some f \<Rightarrow> (case cl_denied env path of Some e \<Rightarrow> Inl e | None \<Rightarrow> Inr (file_bytes env f)))"

section \<open>The database file\<close>

text \<open>\<open>migrate\<close> on what the engine finds: no tables, the tables of the schema, or no database.\<close>

definition migrate :: "ctl_file option \<Rightarrow> ctl_db ws" where
  "migrate f =
     (case f of
        Some (Database x) \<Rightarrow> Inr (x\<lparr>cd_versions := (if 1 \<in> set (cd_versions x) then cd_versions x else cd_versions x @ [1])\<rparr>)
      | Some (Plain s) \<Rightarrow>
          if s = [] then Inr \<lparr> cd_versions = [1], cd_db = empty_db \<rparr> else Inl (ErrMsg ''file is not a database'')
      | None \<Rightarrow> Inr \<lparr> cd_versions = [1], cd_db = empty_db \<rparr>)"

text \<open>The connection: the tables, and the file they are kept in; a database in memory has none.\<close>

definition Open :: "ctl_env \<Rightarrow> string \<Rightarrow> ctl_fs \<Rightarrow> ctl_db ws \<times> ctl_fs" where
  "Open env path fs =
     (if path = [] then (Inl (ErrMsg ''sqlite path required''), fs)
      else if path = '':memory:'' then (migrate None, fs)
      else case cl_mkdir env path of
        Some e \<Rightarrow> (Inl e, fs)
      | None \<Rightarrow>
          (case cl_denied env path of
             Some e \<Rightarrow> (Inl e, fs)
           | None \<Rightarrow> (case migrate (fs path) of Inl e \<Rightarrow> (Inl e, fs) | Inr x \<Rightarrow> (Inr x, fs(path \<mapsto> Database x)))))"

definition commit :: "string \<Rightarrow> ctl_db \<Rightarrow> ctl_fs \<Rightarrow> ctl_fs" where
  "commit path x fs = (if path = '':memory:'' then fs else fs(path \<mapsto> Database x))"

definition openSQLiteReadOnly :: "ctl_env \<Rightarrow> string \<Rightarrow> ctl_file \<Rightarrow> ctl_file ws" where
  "openSQLiteReadOnly env path f = (case cl_denied env path of Some e \<Rightarrow> Inl e | None \<Rightarrow> Inr f)"

definition Backup :: "ctl_env \<Rightarrow> ctl_file \<Rightarrow> string \<Rightarrow> ctl_file ws" where
  "Backup env f path =
     (if path = [] \<or> CHR 0x00 \<in> set path then Inl (ErrMsg ''invalid backup path'')
      else case f of Database x \<Rightarrow> Inr (Database x) | Plain s \<Rightarrow> cl_vacuum env s)"

section \<open>The inventory\<close>

record inventory =
  iv_legacy_state :: string
  iv_report_count :: "nat option"
  iv_sha256 :: string
  iv_sqlite_state :: string
  iv_schema_version :: "int option"
  iv_document_count :: "nat option"
  iv_run_count :: "nat option"
  iv_qdrant_state :: string
  iv_dimension :: "int option"
  iv_point_count :: "int option"
  iv_notes :: "string list"

definition inventory_notes :: "string list" where
  "inventory_notes =
    [bytes
       [0xE6, 0x97, 0xA7, 0xE5, 0xBC, 0x95, 0xE7, 0x94, 0xA8, 0xE4, 0xBB, 0x85, 0xE4, 0xBF, 0x9D, 0xE7, 0x95, 0x99, 0xE5, 0x8E,
        0x86, 0xE5, 0x8F, 0xB2, 0xE5, 0x8E, 0x9F, 0xE6, 0x96, 0x87, 0xEF, 0xBC, 0x9B, 0xE7, 0xBC, 0xBA, 0xE5, 0xB0, 0x91, 0xE5,
        0x8E, 0x9F] @ '' Markdown '' @ bytes
       [0xE6, 0x97, 0xB6, 0xE6, 0x97, 0xA0, 0xE6, 0xB3, 0x95, 0xE6, 0x81, 0xA2, 0xE5, 0xA4, 0x8D, 0xE5, 0x90, 0x88, 0xE6, 0xA0,
        0xBC, 0xE6, 0x96, 0x87, 0xE6, 0xA1, 0xA3, 0xE7, 0x89, 0x88, 0xE6, 0x9C, 0xAC, 0xEF, 0xBC, 0x8C, 0xE8, 0xAF, 0xB7, 0xE6,
        0x8F, 0x90, 0xE4, 0xBE, 0x9B, 0xE5, 0x8E, 0x9F, 0xE6, 0x96, 0x87, 0xE4, 0xBB, 0xB6, 0xE5, 0x90, 0x8E, 0xE7, 0xBB, 0x8F,
        0xE7, 0x89, 0x88, 0xE6, 0x9C, 0xAC, 0xE6, 0x8E, 0xA5, 0xE5, 0x8F, 0xA3, 0xE9, 0x87, 0x8D, 0xE6, 0x96, 0xB0, 0xE7, 0xB4,
        0xA2, 0xE5, 0xBC, 0x95, 0xE3, 0x80, 0x82],
     bytes
       [0xE6, 0x9C, 0xAC, 0xE5, 0x91, 0xBD, 0xE4, 0xBB, 0xA4, 0xE4, 0xB8, 0x8D, 0xE5, 0x86, 0x99, 0xE4, 0xB8, 0x9A, 0xE5, 0x8A,
        0xA1, 0xE8, 0xAE, 0xB0, 0xE5, 0xBD, 0x95, 0xE3, 0x80, 0x81, 0xE4, 0xB8, 0x8D, 0xE9, 0x87, 0x8D, 0xE5, 0xBB, 0xBA, 0xE7,
        0xB4, 0xA2, 0xE5, 0xBC, 0x95, 0xE3, 0x80, 0x81, 0xE4, 0xB8, 0x8D, 0xE5, 0x88, 0xA0, 0xE9, 0x99, 0xA4] @ '' Qdrant '' @ bytes
       [0xE9, 0x9B, 0x86, 0xE5, 0x90, 0x88, 0xE3, 0x80, 0x82]]"

definition no_inventory :: inventory where
  "no_inventory = \<lparr> iv_legacy_state = ''not_configured'', iv_report_count = None, iv_sha256 = [],
     iv_sqlite_state = ''not_configured'', iv_schema_version = None, iv_document_count = None, iv_run_count = None,
     iv_qdrant_state = ''not_configured'', iv_dimension = None, iv_point_count = None, iv_notes = inventory_notes \<rparr>"

definition inventory_legacy :: "ctl_env \<Rightarrow> string \<Rightarrow> ctl_fs \<Rightarrow> inventory \<Rightarrow> inventory ws" where
  "inventory_legacy env path fs v =
     (if path = [] then Inr v
      else case res_bind (read_file env fs path) (\<lambda>b. readLegacySnapshot (cl_parse env) (cl_rows env) (Some b)) of
        Inl e \<Rightarrow> if e = not_found then Inr (v\<lparr>iv_legacy_state := ''not_found''\<rparr>) else Inl e
      | Inr (rows, digest) \<Rightarrow>
          Inr (v\<lparr>iv_legacy_state := ''fresh'', iv_report_count := Some (length rows), iv_sha256 := digest\<rparr>))"

definition max_version :: "int list \<Rightarrow> int option" where
  "max_version vs = (case vs of [] \<Rightarrow> None | x # xs \<Rightarrow> Some (fold max xs x))"

definition inventory_sqlite :: "ctl_env \<Rightarrow> string \<Rightarrow> ctl_fs \<Rightarrow> inventory \<Rightarrow> inventory ws" where
  "inventory_sqlite env path fs v =
     (if path = [] then Inr v
      else case fs path of
        None \<Rightarrow> Inr (v\<lparr>iv_sqlite_state := ''not_found''\<rparr>)
      | Some f \<Rightarrow>
          res_bind (openSQLiteReadOnly env path f) (\<lambda>f.
            case f of
              Plain _ \<Rightarrow> Inl (ErrMsg ''sqlite schema unavailable'')
            | Database x \<Rightarrow>
                Inr (v\<lparr>iv_schema_version := max_version (cd_versions x), iv_document_count := Some (length (t_documents (cd_db x))),
                       iv_run_count := Some (length (t_runs (cd_db x))), iv_sqlite_state := ''fresh''\<rparr>)))"

text \<open>The part of Qdrant's answer that the inventory reads.\<close>

record collection_info =
  ci_points :: "int option"
  ci_size :: "int option"

definition ptr_into :: "'a \<Rightarrow> 'a setter \<Rightarrow> 'a option setter" where
  "ptr_into zero f v old =
     (case v of JNull \<Rightarrow> Inr None | _ \<Rightarrow> res_bind (f v (case old of None \<Rightarrow> zero | Some x \<Rightarrow> x)) (\<lambda>x. Inr (Some x)))"

definition collection_fields :: "(string \<times> collection_info setter) list" where
  "collection_fields =
     [(''points_count'', json_into ci_points ci_points_update (ptr_into 0 set_int)),
      (''config'', one_field ''params'' (one_field ''vectors''
         (one_field ''size'' (json_into ci_size ci_size_update (ptr_into 0 set_int)))))]"

definition decode_collection :: "json option \<Rightarrow> collection_info option" where
  "decode_collection j =
     (case j of
        None \<Rightarrow> None
      | Some v \<Rightarrow>
          (case one_field ''result'' (ptr_into \<lparr> ci_points = None, ci_size = None \<rparr> (json_struct collection_fields)) v None of
             Inl _ \<Rightarrow> None
           | Inr r \<Rightarrow> r))"

definition qdrant_answer :: "ctl_env \<Rightarrow> (nat \<times> string option) option \<Rightarrow> inventory \<Rightarrow> inventory" where
  "qdrant_answer env resp v =
     (case resp of
        Some (status, body) \<Rightarrow>
          if status = 404 then v\<lparr>iv_qdrant_state := ''not_found''\<rparr>
          else if status < 200 \<or> 300 \<le> status then v\<lparr>iv_qdrant_state := ''unavailable''\<rparr>
          else (case body of
             None \<Rightarrow> v\<lparr>iv_qdrant_state := ''unavailable''\<rparr>
           | Some b \<Rightarrow>
               if 1048576 < length b then v\<lparr>iv_qdrant_state := ''unavailable''\<rparr>
               else (case decode_collection (cl_parse env b) of
                 None \<Rightarrow> v\<lparr>iv_qdrant_state := ''unavailable''\<rparr>
               | Some i \<Rightarrow> v\<lparr>iv_qdrant_state := ''fresh'', iv_dimension := ci_size i, iv_point_count := ci_points i\<rparr>))
      | None \<Rightarrow> v\<lparr>iv_qdrant_state := ''unavailable''\<rparr>)"

definition InventoryMigration :: "ctl_env \<Rightarrow> string \<Rightarrow> string \<Rightarrow> string \<Rightarrow> string \<Rightarrow> ctl_fs \<Rightarrow> inventory ws" where
  "InventoryMigration env legacyPath sqlitePath qdrantBase collection fs =
     res_bind (inventory_legacy env legacyPath fs no_inventory) (\<lambda>v.
     res_bind (inventory_sqlite env sqlitePath fs v) (\<lambda>v.
       if qdrantBase \<noteq> [] \<and> collection \<noteq> []
       then (case cl_url env qdrantBase of
               Some (scheme, user, host) \<Rightarrow>
                 if user \<or> scheme \<notin> {''http'', ''https''} \<or> host = [] then Inl (ErrMsg ''invalid Qdrant base URL'')
                 else (let v' = qdrant_answer env (cl_get env (trim_slashes qdrantBase @ ''/collections/'' @ PathEscape collection)) v in
                       if iv_qdrant_state v' = ''fresh''
                       then (case cl_ctx_end env of Some e \<Rightarrow> Inl e | None \<Rightarrow> Inr v') else Inr v')
             | None \<Rightarrow> Inl (ErrMsg ''invalid Qdrant base URL''))
       else (case cl_ctx_end env of Some e \<Rightarrow> Inl e | None \<Rightarrow> Inr v)))"

section \<open>The backup\<close>

text \<open>\<open>os.Link\<close>: a second name for a file, never the name of another.\<close>

definition link :: "string \<Rightarrow> string \<Rightarrow> ctl_fs \<Rightarrow> ws_error option \<times> ctl_fs" where
  "link old new fs =
     (case (fs old, fs new) of
        (None, _) \<Rightarrow> (Some not_found, fs)
      | (_, Some _) \<Rightarrow> (Some (ErrMsg ''file exists''), fs)
      | (Some f, None) \<Rightarrow> (None, fs(new \<mapsto> f)))"

definition BackupExistingDatabase :: "ctl_env \<Rightarrow> string \<Rightarrow> string \<Rightarrow> ctl_fs \<Rightarrow> ws_error option \<times> ctl_fs" where
  "BackupExistingDatabase env source target fs =
     (if source = [] \<or> target = [] then (Some (ErrMsg ''source and backup path required''), fs)
      else case fs source of
        None \<Rightarrow> (Some not_found, fs)
      | Some f \<Rightarrow>
          if fs target \<noteq> None then (Some (ErrMsg ''backup already exists''), fs)
          else case cl_denied env target of
            Some e \<Rightarrow> (Some e, fs)
          | None \<Rightarrow>
              (case openSQLiteReadOnly env source f of
                 Inl e \<Rightarrow> (Some e, fs)
               | Inr f \<Rightarrow>
                   (case cl_temp env target fs of
                      Inl e \<Rightarrow> (Some e, fs)
                    | Inr temporary \<Rightarrow>
                        (case Backup env f temporary of
                           Inl e \<Rightarrow> (Some e, fs(temporary := None))
                         | Inr copy \<Rightarrow>
                             (case link temporary target (cl_meanwhile env (fs(temporary \<mapsto> copy))) of
                                (e, fs2) \<Rightarrow> (e, fs2(temporary := None)))))))"

section \<open>The command line\<close>

record ctl_flags =
  fl_config :: string
  fl_sqlite :: string
  fl_legacy :: string
  fl_output :: string
  fl_apply :: bool

definition string_flags :: "(string \<times> ((string \<Rightarrow> string) \<Rightarrow> ctl_flags \<Rightarrow> ctl_flags)) list" where
  "string_flags = [(''config'', fl_config_update), (''sqlite'', fl_sqlite_update), (''legacy'', fl_legacy_update), (''output'', fl_output_update)]"

text \<open>\<open>parseOne\<close> of the \<open>flag\<close> package: name and value of an argument that is a flag.\<close>

definition split_flag :: "string \<Rightarrow> string \<times> string option" where
  "split_flag s =
     (let t = tl s; n = takeWhile (\<lambda>c. c \<noteq> CHR ''='') t in
      (hd s # n, if length n < length t then Some (drop (Suc (length n)) t) else None))"

definition flag_name :: "string \<Rightarrow> string ws" where
  "flag_name s =
     (let name = (if take 2 s = ''--'' then drop 2 s else drop 1 s) in
      if name = [] \<or> hd name = CHR ''-'' \<or> hd name = CHR ''='' then Inl (ErrMsg ''bad flag syntax'') else Inr name)"

fun parse_flags :: "string list \<Rightarrow> ctl_flags \<Rightarrow> (ctl_flags \<times> string list) ws" where
  "parse_flags [] f = Inr (f, [])"
| "parse_flags (s # rest) f =
     (if length s < 2 \<or> hd s \<noteq> CHR ''-'' then Inr (f, s # rest)
      else if s = ''--'' then Inr (f, rest)
      else res_bind (flag_name s) (\<lambda>t.
        case split_flag t of
          (name, v) \<Rightarrow>
            if name = ''apply''
            then (case v of
                    None \<Rightarrow> parse_flags rest (f\<lparr>fl_apply := True\<rparr>)
                  | Some b \<Rightarrow> res_bind (res_of (ErrMsg ''invalid boolean value'') (parse_bool b)) (\<lambda>b. parse_flags rest (f\<lparr>fl_apply := b\<rparr>)))
            else (case map_of string_flags name of
                    None \<Rightarrow> Inl (ErrMsg ''flag provided but not defined'')
                  | Some set_flag \<Rightarrow>
                      (case (v, rest) of
                         (Some x, _) \<Rightarrow> parse_flags rest (set_flag (\<lambda>_. x) f)
                       | (None, x # rest') \<Rightarrow> parse_flags rest' (set_flag (\<lambda>_. x) f)
                       | (None, []) \<Rightarrow> Inl (ErrMsg ''flag needs an argument'')))))"

datatype ctl_output = Inventoried inventory | Imported legacy_import_result | BackedUp

definition ctl_config :: "ctl_env \<Rightarrow> ctl_fs \<Rightarrow> config_env" where
  "ctl_config env fs = \<lparr> ce_getenv = cl_getenv env, ce_read = read_file env fs, ce_parse = cl_parse env, ce_num = cl_num env \<rparr>"

definition flags_of :: "ctl_env \<Rightarrow> string list \<Rightarrow> ctl_flags ws" where
  "flags_of env args =
     res_bind (parse_flags args \<lparr> fl_config = cl_getenv env ''ONCALL_CONFIG'', fl_sqlite = [], fl_legacy = [], fl_output = [], fl_apply = False \<rparr>)
       (\<lambda>(f, positional).
       if positional \<noteq> [] then Inl (ErrMsg ''unexpected positional argument'')
       else if fl_config f = [] then Inl (ErrMsg ''--config or ONCALL_CONFIG required; no business configuration is loaded by default'')
       else Inr f)"

text \<open>The flags with the paths of the configuration filled in, and the configuration.\<close>

definition settings_of :: "ctl_env \<Rightarrow> string list \<Rightarrow> ctl_fs \<Rightarrow> (ctl_flags \<times> config) ws" where
  "settings_of env args fs =
     res_bind (flags_of env args) (\<lambda>f.
       case LoadMCP (ctl_config env fs) (fl_config f) of
         Inl _ \<Rightarrow> Inl (ErrMsg ''explicit configuration could not be read'')
       | Inr cfg \<Rightarrow>
           Inr (f\<lparr>fl_sqlite := (if fl_sqlite f = [] then cfg_sqlite_path cfg else fl_sqlite f),
                  fl_legacy := (if fl_legacy f = [] then cfg_persist_path cfg else fl_legacy f)\<rparr>, cfg))"

definition import_legacy :: "ctl_env \<Rightarrow> ctl_flags \<Rightarrow> ctl_fs \<Rightarrow> ctl_output ws \<times> ctl_fs" where
  "import_legacy env f fs =
     (if \<not> fl_apply f then (Inl (ErrMsg ''legacy import requires --apply; use dry-run first''), fs)
      else if fl_legacy f = [] \<or> fl_sqlite f = [] then (Inl (ErrMsg ''legacy and sqlite paths required''), fs)
      else case Open env (fl_sqlite f) fs of
        (Inl e, fs1) \<Rightarrow> (Inl e, fs1)
      | (Inr x, fs1) \<Rightarrow>
          (case res_bind (read_file env fs1 (fl_legacy f)) (\<lambda>b.
                  ImportLegacyReports (cl_parse env) (cl_rows env) (cl_ctx env) (Some b) (cl_now env) (cd_db x)) of
             Inl e \<Rightarrow> (Inl e, fs1)
           | Inr (r, d) \<Rightarrow> (Inr (Imported r), commit (fl_sqlite f) (x\<lparr>cd_db := d\<rparr>) fs1)))"

definition run_ctl :: "ctl_env \<Rightarrow> string list \<Rightarrow> ctl_fs \<Rightarrow> ctl_output ws \<times> ctl_fs" where
  "run_ctl env args fs =
     (case args of
        [] \<Rightarrow> (Inl (ErrMsg ''usage''), fs)
      | command # rest \<Rightarrow>
          if command \<notin> {''inventory'', ''dry-run'', ''import-legacy'', ''backup''} then (Inl (ErrMsg ''unknown command''), fs)
          else case settings_of env rest fs of
            Inl e \<Rightarrow> (Inl e, fs)
          | Inr (f, cfg) \<Rightarrow>
              if command \<in> {''inventory'', ''dry-run''}
              then (res_bind (InventoryMigration env (fl_legacy f) (fl_sqlite f) (QdrantHTTPBase (qc_host (cfg_qdrant cfg)) (qc_port (cfg_qdrant cfg)))
                     (qc_collection (cfg_qdrant cfg)) fs) (\<lambda>v. Inr (Inventoried v)), fs)
              else if command = ''import-legacy'' then import_legacy env f fs
              else if fl_output f = [] then (Inl (ErrMsg ''--output must name a new backup file''), fs)
              else (case BackupExistingDatabase env (fl_sqlite f) (fl_output f) fs of
                      (Some e, fs') \<Rightarrow> (Inl e, fs') | (None, fs') \<Rightarrow> (Inr BackedUp, fs')))"

section \<open>The backup\<close>

text \<open>\<open>os.CreateTemp\<close> creates its file with \<open>O_EXCL\<close> under a name nobody else writes; other processes may create files
  while the command runs.\<close>

definition fresh_temp :: "ctl_env \<Rightarrow> bool" where
  "fresh_temp env \<longleftrightarrow> (\<forall>dir fs t. cl_temp env dir fs = Inr t \<longrightarrow> fs t = None \<and> (\<forall>g. cl_meanwhile env g t = g t))"

definition only_creates :: "ctl_env \<Rightarrow> bool" where
  "only_creates env \<longleftrightarrow> (\<forall>fs p f. fs p = Some f \<longrightarrow> cl_meanwhile env fs p = Some f)"

definition copy_of :: "ctl_env \<Rightarrow> ctl_file \<Rightarrow> ctl_file ws" where
  "copy_of env f = (case f of Database x \<Rightarrow> Inr (Database x) | Plain s \<Rightarrow> cl_vacuum env s)"

lemma backup_steps:
  assumes "BackupExistingDatabase env source target fs = (r, fs')"
  obtains (refused) "r \<noteq> None" "fs' = fs"
  | (failed) t where "cl_temp env target fs = Inr t" "r \<noteq> None" "fs' = fs(t := None)"
  | (copied) t f c fs2 where "fs source = Some f" "fs target = None" "cl_temp env target fs = Inr t" "copy_of env f = Inr c"
      "link t target (cl_meanwhile env (fs(t \<mapsto> c))) = (r, fs2)" "fs' = fs2(t := None)"
proof (cases "source = [] \<or> target = [] \<or> fs source = None \<or> fs target \<noteq> None \<or> cl_denied env target \<noteq> None
    \<or> cl_denied env source \<noteq> None \<or> (\<exists>e. cl_temp env target fs = Inl e)")
  case True
  then have "r \<noteq> None \<and> fs' = fs"
    using assms by (elim disjE exE; cases r) (auto simp: BackupExistingDatabase_def openSQLiteReadOnly_def split: option.splits if_splits)
  then show ?thesis using refused by blast
next
  case False
  then obtain f t where f: "fs source = Some f" "fs target = None" "cl_temp env target fs = Inr t"
    by (cases "cl_temp env target fs") auto
  then have eq: "(r, fs') = (case Backup env f t of
      Inl e \<Rightarrow> (Some e, fs(t := None))
    | Inr c \<Rightarrow> (case link t target (cl_meanwhile env (fs(t \<mapsto> c))) of (e, fs2) \<Rightarrow> (e, fs2(t := None))))"
    using assms False by (simp add: BackupExistingDatabase_def openSQLiteReadOnly_def)
  show ?thesis
  proof (cases "Backup env f t")
    case (Inl e) with eq f show ?thesis by (intro failed) auto
  next
    case (Inr c)
    then have "copy_of env f = Inr c" by (auto simp: Backup_def copy_of_def split: if_splits ctl_file.splits)
    obtain r' fs2 where "link t target (cl_meanwhile env (fs(t \<mapsto> c))) = (r', fs2)" by (cases "link t target (cl_meanwhile env (fs(t \<mapsto> c)))")
    with Inr eq f \<open>copy_of env f = Inr c\<close> show ?thesis by (intro copied) auto
  qed
qed

lemma backup_exact:
  assumes run: "BackupExistingDatabase env source target fs = (r, fs')" and t: "fresh_temp env" and o: "only_creates env"
  shows "(\<forall>p f. fs p = Some f \<longrightarrow> fs' p = Some f)
    \<and> (r = None \<longrightarrow> fs target = None \<and> (\<exists>f c. fs source = Some f \<and> copy_of env f = Inr c \<and> fs' target = Some c))"
  using run
proof (cases rule: backup_steps)
  case failed with t show ?thesis by (auto simp: fresh_temp_def)
next
  case (copied t f c fs2)
  let ?g = "cl_meanwhile env (fs(t \<mapsto> c))"
  have new: "fs t = None" and keep: "?g t = Some c" using t copied(3) by (auto simp: fresh_temp_def)
  have old: "?g p = Some x" if "fs p = Some x" for p x
  proof -
    from that new have "(fs(t \<mapsto> c)) p = Some x" by auto
    with o show ?thesis unfolding only_creates_def by blast
  qed
  have "t \<noteq> target" if "r = None" using copied(5) keep that by (auto simp: link_def split: option.splits)
  with copied keep old new show ?thesis by (auto simp: link_def split: option.splits)
qed auto

section \<open>The command\<close>

lemma Open_effect:
  assumes "Open env path fs = (r, fs')"
  shows "(\<forall>p. p \<noteq> path \<longrightarrow> fs' p = fs p) \<and> (path = '':memory:'' \<longrightarrow> fs' = fs)
    \<and> (case r of Inl _ \<Rightarrow> fs' = fs | Inr x \<Rightarrow> migrate (if path = '':memory:'' then None else fs path) = Inr x \<and> fs' = commit path x fs)"
  using assms by (auto simp: Open_def commit_def split: if_splits option.splits sum.splits)

lemma import_legacy_effect:
  assumes "import_legacy env f fs = (r, fs')"
  shows "(\<forall>p. p \<noteq> fl_sqlite f \<longrightarrow> fs' p = fs p) \<and> (\<not> fl_apply f \<longrightarrow> fs' = fs)
    \<and> (\<forall>o'. r = Inr o' \<longrightarrow> fl_apply f \<and> (\<exists>x fs1 b res d. Open env (fl_sqlite f) fs = (Inr x, fs1) \<and> read_file env fs1 (fl_legacy f) = Inr b
         \<and> ImportLegacyReports (cl_parse env) (cl_rows env) (cl_ctx env) (Some b) (cl_now env) (cd_db x) = Inr (res, d)
         \<and> o' = Imported res \<and> fs' = commit (fl_sqlite f) (x\<lparr>cd_db := d\<rparr>) fs))"
proof (cases "\<not> fl_apply f \<or> fl_legacy f = [] \<or> fl_sqlite f = []")
  case True with assms show ?thesis by (auto simp: import_legacy_def split: if_splits)
next
  case False
  obtain rx fs1 where op: "Open env (fl_sqlite f) fs = (rx, fs1)" by (cases "Open env (fl_sqlite f) fs")
  note o = Open_effect [OF op]
  show ?thesis
  proof (cases rx)
    case (Inl e) with assms False op o show ?thesis by (auto simp: import_legacy_def)
  next
    case (Inr x)
    let ?m = "res_bind (read_file env fs1 (fl_legacy f)) (\<lambda>b.
        ImportLegacyReports (cl_parse env) (cl_rows env) (cl_ctx env) (Some b) (cl_now env) (cd_db x))"
    show ?thesis
    proof (cases ?m)
      case (Inl e) with assms False op o Inr show ?thesis by (auto simp: import_legacy_def)
    next
      case m: (Inr y)
      obtain res d where y: "y = (res, d)" by (cases y)
      then obtain b where "read_file env fs1 (fl_legacy f) = Inr b"
        "ImportLegacyReports (cl_parse env) (cl_rows env) (cl_ctx env) (Some b) (cl_now env) (cd_db x) = Inr (res, d)"
        using m by (auto simp: res_bind_eq_Inr)
      moreover have "r = Inr (Imported res)" and fs': "fs' = commit (fl_sqlite f) (x\<lparr>cd_db := d\<rparr>) fs1"
        using assms False op Inr m y by (simp_all add: import_legacy_def)
      moreover have "commit (fl_sqlite f) (x\<lparr>cd_db := d\<rparr>) fs1 = commit (fl_sqlite f) (x\<lparr>cd_db := d\<rparr>) fs"
        using o Inr by (simp add: commit_def)
      ultimately show ?thesis using op Inr False o by (auto simp: commit_def)
    qed
  qed
qed

lemma run_ctl_cases:
  assumes "run_ctl env args fs = (r, fs')"
  obtains (refused) e where "r = Inl e" "fs' = fs"
  | (listed) fl cfg where "hd args \<in> {''inventory'', ''dry-run''}" "settings_of env (tl args) fs = Inr (fl, cfg)" "fs' = fs"
      "r = res_bind (InventoryMigration env (fl_legacy fl) (fl_sqlite fl) (QdrantHTTPBase (qc_host (cfg_qdrant cfg)) (qc_port (cfg_qdrant cfg)))
         (qc_collection (cfg_qdrant cfg)) fs) (\<lambda>v. Inr (Inventoried v))"
  | (imported) fl cfg where "hd args = ''import-legacy''" "settings_of env (tl args) fs = Inr (fl, cfg)" "import_legacy env fl fs = (r, fs')"
  | (backup) fl cfg e where "hd args = ''backup''" "settings_of env (tl args) fs = Inr (fl, cfg)"
      "BackupExistingDatabase env (fl_sqlite fl) (fl_output fl) fs = (e, fs')" "r = (case e of Some e \<Rightarrow> Inl e | None \<Rightarrow> Inr BackedUp)"
proof (cases "args = [] \<or> hd args \<notin> {''inventory'', ''dry-run'', ''import-legacy'', ''backup''} \<or> (\<exists>e. settings_of env (tl args) fs = Inl e)")
  case True
  then have "(\<exists>e. r = Inl e) \<and> fs' = fs" using assms by (auto simp: run_ctl_def split: list.splits if_splits)
  then show ?thesis using refused by blast
next
  case False
  then obtain command rest fl cfg where args: "args = command # rest" "settings_of env rest fs = Inr (fl, cfg)"
    "command \<in> {''inventory'', ''dry-run'', ''import-legacy'', ''backup''}"
    by (cases args; cases "settings_of env (tl args) fs") auto
  then consider "command \<in> {''inventory'', ''dry-run''}" | "command = ''import-legacy''" | "command = ''backup''" by blast
  then show ?thesis
  proof cases
    case 1 then show ?thesis by (intro listed) (use assms args in \<open>auto simp: run_ctl_def\<close>)
  next
    case 2 then show ?thesis by (intro imported) (use assms args in \<open>auto simp: run_ctl_def\<close>)
  next
    case 3
    show ?thesis
    proof (cases "fl_output fl = []")
      case True with 3 assms args show ?thesis by (intro refused) (auto simp: run_ctl_def)
    next
      case False
      obtain e fs2 where "BackupExistingDatabase env (fl_sqlite fl) (fl_output fl) fs = (e, fs2)"
        by (cases "BackupExistingDatabase env (fl_sqlite fl) (fl_output fl) fs")
      with 3 False assms args show ?thesis by (cases e; intro backup [of fl cfg e]) (auto simp: run_ctl_def)
    qed
  qed
qed

text \<open>C40. The command never changes a file, with one exception that has to be asked for: the database, when an import is
  applied. Inventory and dry run change nothing at all, not even by creating a file. A backup that is reported is a copy of
  the database under a name that was free.\<close>

theorem run_ctl_preserves:
  assumes run: "run_ctl env args fs = (r, fs')" and t: "fresh_temp env" and o: "only_creates env"
  shows "(hd args \<in> {''inventory'', ''dry-run''} \<longrightarrow> fs' = fs)
    \<and> (\<forall>p f. fs p = Some f \<and> fs' p \<noteq> Some f \<longrightarrow>
         hd args = ''import-legacy'' \<and> (\<exists>fl cfg. settings_of env (tl args) fs = Inr (fl, cfg) \<and> fl_apply fl \<and> p = fl_sqlite fl))
    \<and> (r = Inr BackedUp \<longrightarrow> (\<exists>fl cfg f c. settings_of env (tl args) fs = Inr (fl, cfg) \<and> fs (fl_output fl) = None
         \<and> fs (fl_sqlite fl) = Some f \<and> copy_of env f = Inr c \<and> fs' (fl_output fl) = Some c))"
  using run
proof (cases rule: run_ctl_cases)
  case imported
  from import_legacy_effect [OF this(3)] imported show ?thesis by (cases "fl_apply fl") auto
next
  case backup
  from backup_exact [OF this(3) t o] backup show ?thesis by (auto split: option.splits)
next
  case listed
  then show ?thesis by (auto simp: res_bind_eq_Inr)
qed simp

lemma import_runs:
  assumes "fold_res (import_one ctx digest now) rows (res, d) = Inr (res', d')"
  shows "length (t_runs d') + li_imported res = length (t_runs d) + li_imported res' \<and> t_documents d' = t_documents d
    \<and> li_source_sha256 res' = li_source_sha256 res"
  using assms
proof (induction rows arbitrary: res d)
  case (Cons old rows)
  then obtain res1 d1 where 1: "import_one ctx digest now old (res, d) = Inr (res1, d1)"
    and 2: "fold_res (import_one ctx digest now) rows (res1, d1) = Inr (res', d')"
    by (auto simp: res_bind_eq_Inr)
  from 1 have "length (t_runs d1) + li_imported res = length (t_runs d) + li_imported res1 \<and> t_documents d1 = t_documents d
      \<and> li_source_sha256 res1 = li_source_sha256 res" by (cases rule: import_one_cases) auto
  with Cons.IH [OF 2] show ?case by auto
qed simp

lemma import_counts:
  assumes "ImportLegacyReports parse raw_rows ctx file now d = Inr (res, d')"
  obtains rows where "readLegacySnapshot parse raw_rows file = Inr (rows, li_source_sha256 res)"
    and "li_imported res + li_duplicates res = length rows"
    and "length (t_runs d') = length (t_runs d) + li_imported res" and "t_documents d' = t_documents d"
proof -
  obtain rows digest where r: "readLegacySnapshot parse raw_rows file = Inr (rows, digest)"
    and f: "fold_res (import_one ctx digest now) rows
         (\<lparr> li_imported = 0, li_duplicates = 0, li_source_sha256 = digest, li_legacy_incomplete = True \<rparr>, d) = Inr (res, d')"
    using assms by (auto simp: ImportLegacyReports_def res_bind_eq_Inr)
  from import_fold [OF f] import_runs [OF f] r show ?thesis by (intro that) auto
qed

definition count_of :: "nat option \<Rightarrow> nat" where
  "count_of n = (case n of None \<Rightarrow> 0 | Some k \<Rightarrow> k)"

lemma qdrant_answer_keeps:
  "iv_report_count (qdrant_answer env resp v) = iv_report_count v" "iv_sha256 (qdrant_answer env resp v) = iv_sha256 v"
  "iv_document_count (qdrant_answer env resp v) = iv_document_count v" "iv_run_count (qdrant_answer env resp v) = iv_run_count v"
  by (auto simp: qdrant_answer_def split: option.splits)

lemma inventory_parts:
  assumes "InventoryMigration env legacyPath sqlitePath qdrantBase collection fs = Inr v"
  obtains v1 v2 where "inventory_legacy env legacyPath fs no_inventory = Inr v1" "inventory_sqlite env sqlitePath fs v1 = Inr v2"
    "iv_report_count v = iv_report_count v2" "iv_sha256 v = iv_sha256 v2" "iv_document_count v = iv_document_count v2"
    "iv_run_count v = iv_run_count v2"
proof -
  obtain v1 v2 where v: "inventory_legacy env legacyPath fs no_inventory = Inr v1" "inventory_sqlite env sqlitePath fs v1 = Inr v2"
    using assms unfolding InventoryMigration_def res_bind_eq_Inr by blast
  with assms have "v = v2 \<or> (\<exists>resp. v = qdrant_answer env resp v2)"
    by (auto simp: InventoryMigration_def Let_def split: if_splits option.splits)
  then show ?thesis by (elim disjE exE) (auto intro: that v(1,2) simp: qdrant_answer_keeps)
qed

text \<open>What the inventory says of the database is what a migration of the file starts from.\<close>

lemma inventory_sqlite_counts:
  assumes "inventory_sqlite env path fs v = Inr v'" and "iv_run_count v = None" "iv_document_count v = None"
    and "path \<noteq> []" and "migrate (fs path) = Inr x"
  shows "length (t_runs (cd_db x)) = count_of (iv_run_count v') \<and> length (t_documents (cd_db x)) = count_of (iv_document_count v')
    \<and> iv_report_count v' = iv_report_count v \<and> iv_sha256 v' = iv_sha256 v"
  using assms
  by (auto simp: inventory_sqlite_def openSQLiteReadOnly_def migrate_def count_of_def empty_db_def res_bind_eq_Inr split: option.splits ctl_file.splits)

lemma inventory_legacy_counts:
  assumes "inventory_legacy env path fs v = Inr v'" and "path \<noteq> []" and "read_file env fs path = Inr b"
    and "readLegacySnapshot (cl_parse env) (cl_rows env) (Some b) = Inr (rows, digest)"
  shows "v' = v\<lparr>iv_legacy_state := ''fresh'', iv_report_count := Some (length rows), iv_sha256 := digest\<rparr>"
  using assms by (simp add: inventory_legacy_def)

text \<open>What a dry run announces is what the import does. The snapshot both name is the same, by its digest; every announced
  report is imported or a known duplicate; and the database afterwards has the announced runs and the imported ones, and the
  announced documents.\<close>

theorem dry_run_predicts:
  assumes dry: "run_ctl env (''dry-run'' # args) fs = (Inr (Inventoried v), fs1)"
    and imp: "run_ctl env (''import-legacy'' # args) fs = (Inr (Imported res), fs')"
    and fl: "settings_of env args fs = Inr (fl, cfg)" and paths: "fl_legacy fl \<noteq> fl_sqlite fl" "fl_sqlite fl \<noteq> '':memory:''"
  shows "iv_report_count v = Some (li_imported res + li_duplicates res) \<and> iv_sha256 v = li_source_sha256 res
    \<and> (\<exists>x. fs' (fl_sqlite fl) = Some (Database x)
         \<and> length (t_runs (cd_db x)) = count_of (iv_run_count v) + li_imported res
         \<and> length (t_documents (cd_db x)) = count_of (iv_document_count v))"
proof -
  from dry fl obtain base coll where "InventoryMigration env (fl_legacy fl) (fl_sqlite fl) base coll fs = Inr v"
    by (auto simp: run_ctl_def res_bind_eq_Inr)
  then obtain v1 v2 where v: "inventory_legacy env (fl_legacy fl) fs no_inventory = Inr v1" "inventory_sqlite env (fl_sqlite fl) fs v1 = Inr v2"
    "iv_report_count v = iv_report_count v2" "iv_sha256 v = iv_sha256 v2" "iv_document_count v = iv_document_count v2"
    "iv_run_count v = iv_run_count v2" by (rule inventory_parts)
  have i: "import_legacy env fl fs = (Inr (Imported res), fs')" using imp fl by (simp add: run_ctl_def)
  then have ne: "fl_legacy fl \<noteq> []" "fl_sqlite fl \<noteq> []" by (auto simp: import_legacy_def split: if_splits)
  from import_legacy_effect [OF i] obtain x fs2 b d where op: "Open env (fl_sqlite fl) fs = (Inr x, fs2)"
    and b: "read_file env fs2 (fl_legacy fl) = Inr b"
    and d: "ImportLegacyReports (cl_parse env) (cl_rows env) (cl_ctx env) (Some b) (cl_now env) (cd_db x) = Inr (res, d)"
    and fs': "fs' = commit (fl_sqlite fl) (x\<lparr>cd_db := d\<rparr>) fs" by auto
  note o = Open_effect [OF op]
  from d obtain rows where rows: "readLegacySnapshot (cl_parse env) (cl_rows env) (Some b) = Inr (rows, li_source_sha256 res)"
    "li_imported res + li_duplicates res = length rows" "length (t_runs d) = length (t_runs (cd_db x)) + li_imported res"
    "t_documents d = t_documents (cd_db x)" by (rule import_counts)
  have "read_file env fs (fl_legacy fl) = Inr b" using b o paths(1) by (simp add: read_file_def)
  from inventory_legacy_counts [OF v(1) ne(1) this rows(1)] have v1: "iv_run_count v1 = None" "iv_document_count v1 = None"
    "iv_report_count v1 = Some (length rows)" "iv_sha256 v1 = li_source_sha256 res" by (simp_all add: no_inventory_def)
  have "migrate (fs (fl_sqlite fl)) = Inr x" using o paths(2) by simp
  from inventory_sqlite_counts [OF v(2) v1(1,2) ne(2) this] v v1 rows fs' paths(2) show ?thesis by (simp add: commit_def)
qed

section \<open>Examples\<close>

definition ex_ctl :: ctl_env where
  "ex_ctl = \<lparr> cl_getenv = (\<lambda>k. if k = ''ONCALL_CONFIG'' then ''c'' else []), cl_parse = ex_parse, cl_num = (\<lambda>_. None), cl_rows = (\<lambda>_. [''row'']),
     cl_now = 5, cl_ctx = (\<lambda>_. None), cl_ctx_end = None, cl_denied = (\<lambda>_. None), cl_mkdir = (\<lambda>_. None), cl_bytes = (\<lambda>_. []),
     cl_vacuum = (\<lambda>_. Inl not_found), cl_temp = (\<lambda>_ fs. if fs ''.workspace-backup-1'' = None then Inr ''.workspace-backup-1'' else Inl not_found),
     cl_meanwhile = (\<lambda>fs. fs), cl_url = (\<lambda>_. Some (''http'', False, ''h'')), cl_get = (\<lambda>_. None) \<rparr>"

definition ex_files :: ctl_fs where
  "ex_files = [''c'' \<mapsto> Plain ''row'', ''data/reports.json'' \<mapsto> Plain ''file'', ''old'' \<mapsto> Database \<lparr> cd_versions = [1], cd_db = ex_running \<rparr>]"

lemma ex_ctl_env: "fresh_temp ex_ctl" "only_creates ex_ctl"
  by (auto simp: fresh_temp_def only_creates_def ex_ctl_def split: if_splits)

lemma ex_ctl_trim: "trim_space ''c'' = ''c''"
  by code_simp

lemma ex_ctl_config: "LoadMCP (ctl_config ex_ctl ex_files) ''c'' = Inr Default"
  by (simp add: LoadMCP_def loadFile_def decode_file_def ctl_config_def ex_ctl_def ex_files_def read_file_def file_bytes_def ex_parse_def ex_legacy_def
      json_struct_def set_member_def config_fields_def to_lower_def lower_char_def with_environment_def overrides_def override_def
      localhost_http_def default_port_def Default_def Let_def ex_ctl_trim)

lemma ex_ctl_getenv: "cl_getenv ex_ctl ''ONCALL_CONFIG'' = ''c''"
  by (simp add: ex_ctl_def)

lemma ex_settings:
  "settings_of ex_ctl [''--apply''] ex_files = Inr (\<lparr> fl_config = ''c'', fl_sqlite = cfg_sqlite_path Default, fl_legacy = cfg_persist_path Default,
     fl_output = [], fl_apply = True \<rparr>, Default)"
  "settings_of ex_ctl [''--sqlite=old'', ''-output'', ''new''] ex_files = Inr (\<lparr> fl_config = ''c'', fl_sqlite = ''old'', fl_legacy = cfg_persist_path Default,
     fl_output = ''new'', fl_apply = False \<rparr>, Default)"
  by (simp_all add: settings_of_def flags_of_def flag_name_def split_flag_def string_flags_def Let_def ex_ctl_getenv ex_ctl_config)

lemma ex_ctl_sel:
  "cl_parse ex_ctl = ex_parse" "cl_rows ex_ctl = (\<lambda>_. [''row''])" "cl_now ex_ctl = 5" "cl_ctx ex_ctl = (\<lambda>_. None)" "cl_denied ex_ctl p = None"
  "cl_mkdir ex_ctl p = None" "cl_meanwhile ex_ctl fs = fs" "cl_url ex_ctl p = Some (''http'', False, ''h'')" "cl_get ex_ctl p = None"
  "cl_temp ex_ctl p ex_files = Inr ''.workspace-backup-1''"
  by (simp_all add: ex_ctl_def ex_files_def)

lemma ex_files_sel:
  "ex_files ''data/reports.json'' = Some (Plain ''file'')" "ex_files ''data/oncall-agent.sqlite'' = None" "ex_files ''new'' = None"
  "ex_files ''old'' = Some (Database \<lparr> cd_versions = [1], cd_db = ex_running \<rparr>)" "ex_files ''c'' = Some (Plain ''row'')"
  by (simp_all add: ex_files_def)

theorem run_ctl_preserves_witness:
  "\<exists>fs'. run_ctl ex_ctl [''backup'', ''--sqlite=old'', ''-output'', ''new''] ex_files = (Inr BackedUp, fs') \<and> fs' ''new'' = ex_files ''old''
     \<and> fs' ''c'' = ex_files ''c''"
proof -
  obtain fs' where run: "run_ctl ex_ctl [''backup'', ''--sqlite=old'', ''-output'', ''new''] ex_files = (Inr BackedUp, fs')"
    by (simp add: run_ctl_def ex_settings BackupExistingDatabase_def openSQLiteReadOnly_def Backup_def link_def ex_ctl_sel ex_files_sel)
  from run_ctl_preserves [OF run ex_ctl_env] ex_settings(2) have "fs' ''new'' = ex_files ''old''" "fs' ''c'' = ex_files ''c''"
    by (auto simp: ex_files_sel copy_of_def)
  with run show ?thesis by blast
qed

lemma ex_dry_run: "\<exists>v. run_ctl ex_ctl [''dry-run'', ''--apply''] ex_files = (Inr (Inventoried v), ex_files) \<and> iv_report_count v = Some 1"
proof -
  have "\<exists>v. InventoryMigration ex_ctl ''data/reports.json'' ''data/oncall-agent.sqlite'' base coll ex_files = Inr v \<and> iv_report_count v = Some 1"
    if "base \<noteq> []" "coll \<noteq> []" for base coll
    using that
    by (simp add: InventoryMigration_def inventory_legacy_def inventory_sqlite_def read_file_def file_bytes_def ex_ctl_sel ex_files_sel ex_read
        qdrant_answer_def Let_def)
  from this [of "QdrantHTTPBase (qc_host (cfg_qdrant Default)) (qc_port (cfg_qdrant Default))" "qc_collection (cfg_qdrant Default)"]
  obtain v where "InventoryMigration ex_ctl ''data/reports.json'' ''data/oncall-agent.sqlite''
      (QdrantHTTPBase (qc_host (cfg_qdrant Default)) (qc_port (cfg_qdrant Default))) (qc_collection (cfg_qdrant Default)) ex_files = Inr v"
    "iv_report_count v = Some 1" by (auto simp: QdrantHTTPBase_def Default_def Let_def)
  moreover have "cfg_sqlite_path Default = ''data/oncall-agent.sqlite''" "cfg_persist_path Default = ''data/reports.json''" by (simp_all add: Default_def)
  ultimately show ?thesis by (simp add: run_ctl_def ex_settings)
qed

theorem dry_run_predicts_witness:
  "\<exists>v res fs'. run_ctl ex_ctl [''dry-run'', ''--apply''] ex_files = (Inr (Inventoried v), ex_files)
     \<and> run_ctl ex_ctl [''import-legacy'', ''--apply''] ex_files = (Inr (Imported res), fs')
     \<and> iv_report_count v = Some 1 \<and> li_imported res + li_duplicates res = 1"
proof -
  obtain v where v: "run_ctl ex_ctl [''dry-run'', ''--apply''] ex_files = (Inr (Inventoried v), ex_files)" "iv_report_count v = Some 1"
    using ex_dry_run by blast
  have p: "cfg_sqlite_path Default = ''data/oncall-agent.sqlite''" "cfg_persist_path Default = ''data/reports.json''" by (simp_all add: Default_def)
  obtain d where d: "ImportLegacyReports ex_parse (\<lambda>_. [''row'']) (\<lambda>_. None) (Some ''file'') 5 empty_db
      = Inr (\<lparr> li_imported = 1, li_duplicates = 0, li_source_sha256 = hash ''file'', li_legacy_incomplete = True \<rparr>, d)" using ex_import by blast
  obtain res fs' where i: "run_ctl ex_ctl [''import-legacy'', ''--apply''] ex_files = (Inr (Imported res), fs')"
    using d by (simp add: run_ctl_def ex_settings import_legacy_def Open_def migrate_def read_file_def file_bytes_def p ex_ctl_sel ex_files_sel)
  from dry_run_predicts [OF v(1) i ex_settings(1)] v i show ?thesis by (auto simp: p)
qed

end
