(* ===== verification/Rerank.thy ===== *)
theory Rerank
  imports Judge
begin

text \<open>
  Re-ranking of candidates by a language model (\<open>src/internal/rag/rerank.go\<close>), used by the evaluation.

  The model is reached through \<open>je_post\<close>; \<open>decode_stream\<close> reads the first JSON value of a text and \<open>num\<close> a number as a float.
  Scores are real numbers. A result is a list together with the error, if any, that made the function keep the order.
\<close>

record ranker =
  rk_base :: string
  rk_model :: string
  rk_key :: string

definition NewRanker :: "string \<Rightarrow> string \<Rightarrow> string \<Rightarrow> ranker" where
  "NewRanker baseURL model key =
     \<lparr> rk_base = trim_slashes (if trim_space baseURL = [] then ''http://localhost:1234/v1'' else baseURL),
       rk_model = (if trim_space model = [] then ''qwen/qwen3-vl-8b'' else model), rk_key = key \<rparr>"

definition truncateRunes :: "string \<Rightarrow> nat \<Rightarrow> string" where
  "truncateRunes s n = (let r = runes s in if length r \<le> n then s else concat (map snd (take n r)) @ ellipsis)"

section \<open>Scores\<close>

record rank_entry =
  re_id :: int
  re_score :: real

definition set_real :: "(string \<Rightarrow> real option) \<Rightarrow> json \<Rightarrow> real \<Rightarrow> real ws" where
  "set_real num j x = (case j of JNull \<Rightarrow> Inr x | JNum t \<Rightarrow> res_of ErrJSON (num t) | _ \<Rightarrow> Inl ErrJSON)"

definition decode_entry :: "(string \<Rightarrow> real option) \<Rightarrow> json \<Rightarrow> rank_entry ws" where
  "decode_entry num j =
     (case j of
        JNull \<Rightarrow> Inr \<lparr> re_id = 0, re_score = 0 \<rparr>
      | JObj kvs \<Rightarrow>
          res_bind (int_field ''id'' kvs) (\<lambda>i.
          res_bind (fold_res (set_real num) (jvalues ''score'' kvs) 0) (\<lambda>s. Inr \<lparr> re_id = i, re_score = s \<rparr>))
      | _ \<Rightarrow> Inl ErrJSON)"

definition clamp_score :: "real \<Rightarrow> real" where
  "clamp_score s = (let t = (if s < 0 then 0 else s) in if t > 10 then 10 else t)"

definition add_score :: "nat \<Rightarrow> rank_entry \<Rightarrow> (nat \<times> real) list \<Rightarrow> (nat \<times> real) list" where
  "add_score n e m =
     (if re_id e < 0 \<or> int n \<le> re_id e \<or> map_of m (nat (re_id e)) \<noteq> None then m
      else m @ [(nat (re_id e), clamp_score (re_score e))])"

definition last_index_of :: "char \<Rightarrow> string \<Rightarrow> nat option" where
  "last_index_of c s = (case index_of [c] (rev s) of None \<Rightarrow> None | Some i \<Rightarrow> Some (length s - 1 - i))"

definition parseRerankScores :: "(string \<Rightarrow> json option) \<Rightarrow> (string \<Rightarrow> real option) \<Rightarrow> string \<Rightarrow> nat \<Rightarrow> (nat \<times> real) list ws" where
  "parseRerankScores decode_stream num content n =
     (case (index_of ''['' content, last_index_of (CHR '']'') content) of
        (Some a, Some b) \<Rightarrow>
          ensure (a < b) (ErrMsg ''rerank: no json array in reply'')
          (case decode_stream (take (b + 1 - a) (drop a content)) of
             Some JNull \<Rightarrow> Inl (ErrMsg ''rerank: zero valid scores'')
           | Some (JArr js) \<Rightarrow>
               res_bind (map_res (decode_entry num) js) (\<lambda>es.
                 let m = fold (add_score n) es [] in ensure (m \<noteq> []) (ErrMsg ''rerank: zero valid scores'') (Inr m))
           | _ \<Rightarrow> Inl ErrJSON)
      | _ \<Rightarrow> Inl (ErrMsg ''rerank: no json array in reply''))"

definition rank_head :: string where
  "rank_head =
     bytes [0xE4, 0xBD, 0xA0, 0xE6, 0x98, 0xAF, 0xE6, 0x95, 0x85, 0xE9, 0x9A, 0x9C, 0xE7, 0x9F, 0xA5, 0xE8, 0xAF,
     0x86, 0xE5, 0xBA, 0x93, 0xE6, 0x8E, 0x92, 0xE5, 0xBA, 0x8F, 0xE5, 0x99, 0xA8, 0xE3, 0x80, 0x82, 0xE5, 0xAF, 0xB9,
     0xE4, 0xB8, 0x8B, 0xE5, 0x88, 0x97, 0xE5, 0x80, 0x99, 0xE9, 0x80, 0x89, 0xE6, 0x8C, 0x89, 0xE4, 0xB8, 0x8E, 0xE7,
     0x94, 0xA8, 0xE6, 0x88, 0xB7, 0xE9, 0x97, 0xAE, 0xE9, 0xA2, 0x98, 0xE7, 0x9A, 0x84, 0xE7, 0x9B, 0xB8, 0xE5, 0x85,
     0xB3, 0xE5, 0xBA, 0xA6, 0xE6, 0x89, 0x93, 0xE5, 0x88, 0x86] @ '' 0-10'' @ bytes [0xEF, 0xBC, 0x88] @ ''10='' @
     bytes [0xE7, 0x9B, 0xB4, 0xE6, 0x8E, 0xA5, 0xE5, 0x91, 0xBD, 0xE4, 0xB8, 0xAD, 0xE6, 0x95, 0x85, 0xE9, 0x9A,
     0x9C, 0xEF, 0xBC, 0x89, 0xE3, 0x80, 0x82, 0x0A, 0xE5, 0x8F, 0xAA, 0xE8, 0xBF, 0x94, 0xE5, 0x9B, 0x9E] @ '' JSON
     '' @ bytes [0xE6, 0x95, 0xB0, 0xE7, 0xBB, 0x84, 0xEF, 0xBC, 0x8C, 0xE4, 0xB8, 0x8D, 0xE8, 0xA6, 0x81, 0xE5, 0x85,
     0xB6, 0xE4, 0xBB, 0x96, 0xE6, 0x96, 0x87, 0xE5, 0xAD, 0x97, 0xEF, 0xBC, 0x8C, 0xE6, 0xA0, 0xBC, 0xE5, 0xBC, 0x8F,
     0xEF, 0xBC, 0x9A] @ ''[{'' @ bytes [0x22] @ ''id'' @ bytes [0x22] @ '':0,'' @ bytes [0x22] @ ''score'' @ bytes
     [0x22] @ '':8.5},...]'' @ bytes [0xE3, 0x80, 0x82, 0x0A]"

definition rank_question :: "string \<Rightarrow> string" where
  "rank_question query = bytes [0xE9, 0x97, 0xAE, 0xE9, 0xA2, 0x98, 0xEF, 0xBC, 0x9A] @ trim_space query @ newline"

definition rank_item :: "nat \<times> rag_result \<Rightarrow> string" where
  "rank_item ic = (case ic of (i, c) \<Rightarrow>
     ''--- '' @ bytes [0xE5, 0x80, 0x99, 0xE9, 0x80, 0x89] @ '' id='' @ dec i @ '' doc='' @ res_doc c @ '' ---'' @ newline @ truncateRunes (res_snippet c) 300 @ newline)"

definition scoreRemote :: "judge_env \<Rightarrow> (string \<Rightarrow> json option) \<Rightarrow> (string \<Rightarrow> real option) \<Rightarrow> ranker \<Rightarrow> string \<Rightarrow> rag_result list \<Rightarrow>
    (nat \<times> real) list ws" where
  "scoreRemote env decode_stream num rk query cands =
     (case je_post env (rk_base rk @ ''/chat/completions'') (bearer_of (rk_key rk))
             (JObj [(''max_tokens'', JNum ''2048''),
                    (''messages'', JArr [JObj [(''content'', JStr (rank_head @ rank_question query @ concat (map rank_item (enumerate 0 cands)))),
                                               (''role'', JStr ''user'')]]),
                    (''model'', JStr (rk_model rk))]) of
        NoReply e \<Rightarrow> Inl e
      | Reply _ raw \<Rightarrow>
          res_bind (decode_choices (je_decode env raw)) (\<lambda>cs.
          case cs of
            [] \<Rightarrow> Inl (ErrMsg ''rerank: empty choices'')
          | c # _ \<Rightarrow> parseRerankScores decode_stream num c (length cands)))"

section \<open>Ranking\<close>

definition rescored :: "(nat \<times> real) list \<Rightarrow> rag_result list \<Rightarrow> rag_result list" where
  "rescored m cands =
     map (\<lambda>(i, c). case map_of m i of Some s \<Rightarrow> c\<lparr>res_score := s\<rparr> | None \<Rightarrow> c) (enumerate 0 cands)"

definition cut_results :: "int \<Rightarrow> 'a list \<Rightarrow> 'a list" where
  "cut_results topK xs = (if 0 < topK \<and> topK < int (length xs) then take (nat topK) xs else xs)"

definition Rerank :: "judge_env \<Rightarrow> (string \<Rightarrow> json option) \<Rightarrow> (string \<Rightarrow> real option) \<Rightarrow> ranker \<Rightarrow> string \<Rightarrow> rag_result list \<Rightarrow> int \<Rightarrow>
    rag_result list \<times> ws_error option" where
  "Rerank env decode_stream num rk query cands topK =
     (if cands = [] then ([], None)
      else if trim_space query = [] then (cands, Some (ErrMsg ''rerank: empty query''))
      else case scoreRemote env decode_stream num rk query cands of
        Inl e \<Rightarrow> (cands, Some e)
      | Inr m \<Rightarrow>
          if \<not> list_ex (\<lambda>i. map_of m i \<noteq> None) [0..<length cands] then (cands, Some (ErrMsg ''rerank: no valid scores, keep order''))
          else (cut_results topK (sort_key (\<lambda>x. - res_score x) (rescored m cands)), None))"

definition result_key :: "rag_result \<Rightarrow> string" where
  "result_key r = res_doc r @ [char_of (0::nat)] @ res_snippet r"

fun rank_of :: "nat \<Rightarrow> rag_result list \<Rightarrow> string \<Rightarrow> nat option" where
  "rank_of i [] k = None"
| "rank_of i (r # rs) k = (if result_key r = k then Some (i + 1) else rank_of (i + 1) rs k)"

fun union_by_key :: "rag_result list \<Rightarrow> string list \<Rightarrow> rag_result list" where
  "union_by_key [] seen = []"
| "union_by_key (r # rs) seen =
     (if result_key r \<in> set seen then union_by_key rs seen else r # union_by_key rs (result_key r # seen))"

definition reciprocal :: "nat option \<Rightarrow> real" where
  "reciprocal r = (case r of None \<Rightarrow> 0 | Some n \<Rightarrow> 1 / (60 + real n))"

definition RerankFused :: "rag_result list \<Rightarrow> rag_result list \<Rightarrow> int \<Rightarrow> rag_result list" where
  "RerankFused hybrid llm topK =
     (let score = (\<lambda>r. reciprocal (rank_of 0 hybrid (result_key r)) + reciprocal (rank_of 0 llm (result_key r)));
          scored = map (\<lambda>r. r\<lparr>res_score := score r\<rparr>) (union_by_key (hybrid @ llm) [])
      in cut_results topK (sort_key (\<lambda>x. - res_score x) scored))"

section \<open>Properties\<close>

lemma cut_results_facts:
  "set (cut_results k xs) \<subseteq> set xs" "length (cut_results k xs) \<le> length xs" "0 < k \<Longrightarrow> int (length (cut_results k xs)) \<le> k"
  "k \<le> 0 \<Longrightarrow> cut_results k xs = xs" "sorted_wrt R xs \<Longrightarrow> sorted_wrt R (cut_results k xs)"
  by (auto simp: cut_results_def dest: in_set_takeD intro: sorted_wrt_take)

lemma mset_cut: "mset (cut_results k xs) \<subseteq># mset xs"
  unfolding cut_results_def by (metis append_take_drop_id mset_append mset_subset_eq_add_left subset_mset.order_refl)

lemma sorted_by_score: "sorted_wrt (\<lambda>x y. res_score y \<le> res_score x) (sort_key (\<lambda>x. - res_score x) xs)"
  using sorted_sort_key [of "\<lambda>x. - res_score x" xs] by (simp add: sorted_map)

lemma clamp_range: "0 \<le> clamp_score s \<and> clamp_score s \<le> 10"
  by (simp add: clamp_score_def Let_def)

lemma scores_range:
  assumes "list_all (\<lambda>(i, s). i < n \<and> 0 \<le> s \<and> s \<le> 10) m"
  shows "list_all (\<lambda>(i, s). i < n \<and> 0 \<le> s \<and> s \<le> 10) (fold (add_score n) es m)"
  using assms
proof (induction es arbitrary: m)
  case (Cons e es)
  have "list_all (\<lambda>(i, s). i < n \<and> 0 \<le> s \<and> s \<le> 10) (add_score n e m)"
    using Cons.prems clamp_range by (auto simp: add_score_def list_all_iff)
  from Cons.IH [OF this] show ?case by simp
qed simp

lemma parseRerankScores_range:
  assumes "parseRerankScores ds num content n = Inr m"
  shows "m \<noteq> [] \<and> list_all (\<lambda>(i, s). i < n \<and> 0 \<le> s \<and> s \<le> 10) m"
  using assms scores_range [of n "[]"]
  by (auto simp: parseRerankScores_def res_bind_eq_Inr Let_def split: option.splits json.splits)

definition unscored :: "rag_result \<Rightarrow> rag_result" where
  "unscored r = r\<lparr>res_score := 0\<rparr>"

lemma map_unscored_rescored: "map unscored (rescored m cands) = map unscored cands"
proof -
  have "map unscored (map (\<lambda>(i, c). case map_of m i of Some s \<Rightarrow> c\<lparr>res_score := s\<rparr> | None \<Rightarrow> c) (enumerate k cs)) = map unscored cs" for k cs
    by (induction cs arbitrary: k) (auto simp: unscored_def split: option.splits)
  then show ?thesis by (simp add: rescored_def)
qed

text \<open>Re-ranking never loses or invents a candidate. When the model fails, or gives no usable scores, the candidates are
  returned as they were, with the error. Otherwise the results are in order of falling score and are the
  candidates with new scores, all of them unless more than \<open>topK\<close> were given.\<close>

theorem Rerank_sound:
  "case Rerank env ds num rk query cands topK of (out, err) \<Rightarrow>
     if err \<noteq> None then out = cands
     else sorted_wrt (\<lambda>x y. res_score y \<le> res_score x) out
       \<and> mset (map unscored out) \<subseteq># mset (map unscored cands)
       \<and> length out = (if 0 < topK then min (nat topK) (length cands) else length cands)"
proof (cases "snd (Rerank env ds num rk query cands topK)")
  case None
  show ?thesis
  proof (cases "cands = []")
    case False
    with None obtain m where o1: "Rerank env ds num rk query cands topK = (cut_results topK (sort_key (\<lambda>x. - res_score x) (rescored m cands)), None)"
      by (auto simp: Rerank_def split: if_splits sum.splits)
    have l: "length (rescored m cands) = length cands" by (simp add: rescored_def)
    have "mset (map unscored (cut_results topK (sort_key (\<lambda>x. - res_score x) (rescored m cands))))
        \<subseteq># mset (map unscored (sort_key (\<lambda>x. - res_score x) (rescored m cands)))"
      unfolding mset_map by (intro image_mset_subseteq_mono mset_cut)
    also have "\<dots> = mset (map unscored cands)" by (metis map_unscored_rescored mset_map mset_sort)
    finally show ?thesis
      using l by (simp add: o1 cut_results_facts(5) sorted_by_score) (auto simp: cut_results_def)
  qed (simp add: Rerank_def)
next
  case (Some e)
  then have "fst (Rerank env ds num rk query cands topK) = cands"
    by (auto simp: Rerank_def split: if_splits sum.splits)
  with Some show ?thesis by (auto split: prod.splits)
qed

lemma union_by_key_facts:
  "distinct (map result_key (union_by_key rs seen)) \<and> result_key ` set (union_by_key rs seen) = result_key ` set rs - set seen
   \<and> set (union_by_key rs seen) \<subseteq> set rs"
proof (induction rs arbitrary: seen)
  case (Cons r rs)
  show ?case
  proof (cases "result_key r \<in> set seen")
    case False
    from Cons.IH [of "result_key r # seen"] have ih: "distinct (map result_key (union_by_key rs (result_key r # seen)))"
      "result_key ` set (union_by_key rs (result_key r # seen)) = result_key ` set rs - set (result_key r # seen)"
      "set (union_by_key rs (result_key r # seen)) \<subseteq> set rs" by simp_all
    have "result_key r \<notin> result_key ` set (union_by_key rs (result_key r # seen))" unfolding ih(2) by simp
    then show ?thesis using False ih by auto
  qed (use Cons.IH [of seen] in auto)
qed simp

text \<open>The fusion of two rankings keeps every candidate of either, each once, with the sum of its reciprocal ranks, in order of
  falling score.\<close>

lemma RerankFused_complete:
  assumes "topK \<le> 0"
  shows "distinct (map result_key (RerankFused hybrid llm topK))"
    and "result_key ` set (RerankFused hybrid llm topK) = result_key ` (set hybrid \<union> set llm)"
    and "sorted_wrt (\<lambda>x y. res_score y \<le> res_score x) (RerankFused hybrid llm topK)"
    and "x \<in> set (RerankFused hybrid llm topK) \<Longrightarrow>
      res_score x = reciprocal (rank_of 0 hybrid (result_key x)) + reciprocal (rank_of 0 llm (result_key x))"
proof -
  define g where "g r = r\<lparr>res_score := reciprocal (rank_of 0 hybrid (result_key r)) + reciprocal (rank_of 0 llm (result_key r))\<rparr>" for r
  define us where "us = union_by_key (hybrid @ llm) []"
  have key: "result_key (g r) = result_key r" for r by (simp add: g_def result_key_def)
  have out: "RerankFused hybrid llm topK = sort_key (\<lambda>x. - res_score x) (map g us)"
    using assms by (simp add: RerankFused_def cut_results_facts(4) g_def [abs_def] us_def Let_def)
  have u: "distinct (map result_key us)" "result_key ` set us = result_key ` (set hybrid \<union> set llm)"
    using union_by_key_facts [of "hybrid @ llm" "[]"] by (simp_all add: us_def)
  have "mset (map result_key (sort_key (\<lambda>x. - res_score x) (map g us))) = mset (map result_key us)"
    by (simp add: multiset.map_comp comp_def key)
  then show "distinct (map result_key (RerankFused hybrid llm topK))" using u(1) unfolding out by (metis mset_eq_imp_distinct_iff)
  show "result_key ` set (RerankFused hybrid llm topK) = result_key ` (set hybrid \<union> set llm)"
    unfolding out u(2) [symmetric] by (simp add: image_image key)
  show "sorted_wrt (\<lambda>x y. res_score y \<le> res_score x) (RerankFused hybrid llm topK)" unfolding out by (rule sorted_by_score)
  show "x \<in> set (RerankFused hybrid llm topK) \<Longrightarrow>
      res_score x = reciprocal (rank_of 0 hybrid (result_key x)) + reciprocal (rank_of 0 llm (result_key x))"
    unfolding out by (auto simp: g_def result_key_def)
qed

end
