(* ===== verification/Evaluation.thy ===== *)
theory Evaluation
  imports Rerank Planner Web
begin

text \<open>
  The offline evaluation of retrieval (\<open>src/cmd/evalbaseline\<close>): the isolated store, the demo documents, and the three
  runs over a data set of questions or alerts, with their counters and rates.

  The environment variables, the files and the replies of the two models are parameters. What the command prints for
  each question is not modelled, only the counters it ends with; \<open>log.Fatalf\<close> is an error. \<open>ev_qdrant\<close> stands for a
  vector service: the store of the evaluation is in memory and must never ask it.
\<close>

section \<open>The environment\<close>

record eval_env =
  ev_getenv :: "string \<Rightarrow> string"
  ev_dir :: "(string \<times> bool) list ws"
  ev_read :: "string \<Rightarrow> string ws"
  ev_sample :: "string ws"
  ev_alerts :: "string ws"
  ev_parse :: "string \<Rightarrow> json option"
  ev_float :: "string \<Rightarrow> real option"
  ev_model :: judge_env
  ev_stream :: "string \<Rightarrow> json option"
  ev_num :: "string \<Rightarrow> real option"
  ev_uni :: "int \<Rightarrow> bool"
  ev_qdrant :: qdrant_env

text \<open>The provider of \<open>config.Default\<close>: no key and no model.\<close>

definition default_openai :: judge_config where
  "default_openai = \<lparr> jc_api_base = ''https://api.openai.com/v1'', jc_model = [], jc_api_key = [] \<rparr>"

definition low_threshold :: nat where
  "low_threshold = 3"

definition is_on :: "eval_env \<Rightarrow> string \<Rightarrow> bool" where
  "is_on env k \<longleftrightarrow> trim_space (ev_getenv env k) = ''1''"

definition positive_setting :: "eval_env \<Rightarrow> string \<Rightarrow> nat \<Rightarrow> nat" where
  "positive_setting env k def =
     (let v = trim_space (ev_getenv env k) in
      if v = [] then def else case atoi v of Some n \<Rightarrow> if 0 < n then nat n else def | None \<Rightarrow> def)"

section \<open>The store and the documents\<close>

definition evalStore :: "eval_env \<Rightarrow> vector_store ws" where
  "evalStore env =
     (let mode = trim_space (ev_getenv env ''EVAL_STORAGE'') in
      if mode \<noteq> [] \<and> mode \<noteq> ''memory''
      then Inl (ErrMsg ''persistent evaluation refused: no owned-resource provisioner; business configuration is never loaded'')
      else if ev_getenv env ''EVAL_REMOTE'' = ''1''
      then Inl (ErrMsg ''remote legacy evaluation disabled; use isolated production-surface harness'')
      else case EnsureCompatible (ev_qdrant env) None (int Dim) NewMemoryVector of
        (Inl e, _) \<Rightarrow> Inl e
      | (Inr _, s) \<Rightarrow> Inr s)"

fun first_heading :: "string list \<Rightarrow> string option" where
  "first_heading [] = None"
| "first_heading (l # ls) =
     (let t = trim_space l in
      if has_prefix t ''# '' \<and> trim_space (drop 2 t) \<noteq> [] then Some (trim_space (drop 2 t)) else first_heading ls)"

definition heading_or :: "string \<Rightarrow> string \<Rightarrow> string" where
  "heading_or name b =
     (case first_heading (split_at_char (CHR 0x0A) b) of Some t \<Rightarrow> t | None \<Rightarrow> trim_suffix name ''.md'')"

definition docTitle :: "eval_env \<Rightarrow> string \<Rightarrow> string" where
  "docTitle env file = (if file = [] then [] else case ev_read env file of Inl _ \<Rightarrow> [] | Inr b \<Rightarrow> heading_or file b)"

definition hash_embed :: "string \<Rightarrow> real list ws" where
  "hash_embed q = Inr (HashEmbed q)"

fun warm_up :: "eval_env \<Rightarrow> (string \<times> bool) list \<Rightarrow> rag \<Rightarrow> vector_store \<Rightarrow> (rag \<times> vector_store) ws" where
  "warm_up env [] r s = Inr (r, s)"
| "warm_up env ((name, is_dir) # es) r s =
     (if is_dir \<or> \<not> has_suffix name ''.md'' then warm_up env es r s
      else case ev_read env name of
        Inl e \<Rightarrow> Inl e
      | Inr b \<Rightarrow>
          (case AddDocWithContext (ev_qdrant env) hash_embed None (heading_or name b) b ''demo'' r s of
             (Inl e, _, _) \<Rightarrow> Inl e
           | (Inr _, r1, s1) \<Rightarrow> warm_up env es r1 s1))"

definition eval_find :: "eval_env \<Rightarrow> rag \<Rightarrow> vector_store \<Rightarrow> nat \<Rightarrow> string \<Rightarrow> rag_result list ws" where
  "eval_find env r s k q = fst (searchFused_on (ev_qdrant env) hash_embed None q (int k * 2) k r s)"

section \<open>Data sets\<close>

text \<open>\<open>bufio.Scanner\<close> with a buffer of one megabyte: the lines without their end, and whether a line was too long.\<close>

definition chomp :: "string \<Rightarrow> string" where
  "chomp l = (if l \<noteq> [] \<and> last l = CHR 0x0D then butlast l else l)"

fun scanned :: "string list \<Rightarrow> string list \<times> bool" where
  "scanned [] = ([], False)"
| "scanned (l # ls) = (if 2 ^ 20 \<le> length l then ([], True) else map_prod ((#) (chomp l)) id (scanned ls))"

definition drop_last_empty :: "string list \<Rightarrow> string list" where
  "drop_last_empty ls = (if ls \<noteq> [] \<and> last ls = [] then butlast ls else ls)"

definition scan_lines :: "string \<Rightarrow> string list \<times> bool" where
  "scan_lines b = scanned (drop_last_empty (split_at_char (CHR 0x0A) b))"

record sample =
  sm_question :: string
  sm_expect_doc :: string

definition decode_sample :: "json option \<Rightarrow> sample ws" where
  "decode_sample j =
     (case j of
        Some (JObj kvs) \<Rightarrow>
          res_bind (str_field ''question'' kvs) (\<lambda>q. res_bind (str_field ''expect_doc'' kvs) (\<lambda>d.
          res_bind (str_field ''severity'' kvs) (\<lambda>_. Inr \<lparr> sm_question = q, sm_expect_doc = d \<rparr>)))
      | Some JNull \<Rightarrow> Inr \<lparr> sm_question = [], sm_expect_doc = [] \<rparr>
      | _ \<Rightarrow> Inl ErrJSON)"

record alert_sample =
  as_name :: string
  as_severity :: string
  as_description :: string
  as_expect_doc :: string

definition decode_alert_sample :: "json option \<Rightarrow> alert_sample ws" where
  "decode_alert_sample j =
     (case j of
        Some (JObj kvs) \<Rightarrow>
          res_bind (str_field ''alertname'' kvs) (\<lambda>n. res_bind (str_field ''severity'' kvs) (\<lambda>v.
          res_bind (str_field ''description'' kvs) (\<lambda>d. res_bind (str_field ''expect_doc'' kvs) (\<lambda>x.
            Inr \<lparr> as_name = n, as_severity = v, as_description = d, as_expect_doc = x \<rparr>))))
      | Some JNull \<Rightarrow> Inr \<lparr> as_name = [], as_severity = [], as_description = [], as_expect_doc = [] \<rparr>
      | _ \<Rightarrow> Inl ErrJSON)"

section \<open>Refusal by the model\<close>

definition gen_head :: string where
  "gen_head =
     bytes [0xE4, 0xBD, 0xA0, 0xE6, 0x98, 0xAF, 0xE8, 0xBF, 0x90, 0xE7, 0xBB, 0xB4, 0xE8, 0xAF, 0x8A, 0xE6, 0x96,
     0xAD, 0xE5, 0x8A, 0xA9, 0xE6, 0x89, 0x8B, 0xEF, 0xBC, 0x88, 0xE5, 0x8F, 0xAA, 0xE8, 0xAF, 0xBB, 0xEF, 0xBC,
     0x89, 0xE3, 0x80, 0x82, 0xE4, 0xBB, 0x85, 0xE5, 0x8F, 0xAF, 0xE4, 0xBE, 0x9D, 0xE6, 0x8D, 0xAE, 0xE4, 0xB8,
     0x8B, 0xE5, 0x88, 0x97, 0xE7, 0x9F, 0xA5, 0xE8, 0xAF, 0x86, 0xE5, 0xBA, 0x93, 0xE5, 0xBC, 0x95, 0xE7, 0x94,
     0xA8, 0xE4, 0xBD, 0x9C, 0xE7, 0xAD, 0x94, 0xEF, 0xBC, 0x9B, 0xE5, 0xBC, 0x95, 0xE7, 0x94, 0xA8, 0xE4, 0xB8,
     0x8E, 0xE9, 0x97, 0xAE, 0xE9, 0xA2, 0x98, 0xE4, 0xB8, 0x8D, 0xE7, 0x9B, 0xB8, 0xE5, 0x85, 0xB3, 0xE6, 0x88,
     0x96, 0xE4, 0xB8, 0x8D, 0xE8, 0xB6, 0xB3, 0xE4, 0xBB, 0xA5, 0xE6, 0x94, 0xAF, 0xE6, 0x92, 0x91, 0xE8, 0xAF,
     0x8A, 0xE6, 0x96, 0xAD, 0xE6, 0x97, 0xB6, 0xEF, 0xBC, 0x8C, 0xE5, 0xBF, 0x85, 0xE9, 0xA1, 0xBB, 0xE6, 0x98,
     0x8E, 0xE7, 0xA4, 0xBA, 0xE2, 0x80, 0x9C, 0xE6, 0x9C, 0xAA, 0xE6, 0x89, 0xBE, 0xE5, 0x88, 0xB0, 0xE7, 0x9B,
     0xB8, 0xE5, 0x85, 0xB3, 0xE5, 0x8C, 0xB9, 0xE9, 0x85, 0x8D, 0xE2, 0x80, 0x9D, 0xEF, 0xBC, 0x8C, 0xE4, 0xB8,
     0x8D, 0xE5, 0xBE, 0x97, 0xE7, 0xBC, 0x96, 0xE9, 0x80, 0xA0, 0xE5, 0xA4, 0x84, 0xE7, 0xBD, 0xAE, 0xE6, 0xAD,
     0xA5, 0xE9, 0xAA, 0xA4, 0xEF, 0xBC, 0x8C, 0xE4, 0xB8, 0x8D, 0xE5, 0xBE, 0x97, 0xE7, 0xA1, 0xAC, 0xE5, 0x87,
     0x91, 0xE4, 0xB8, 0x8D, 0xE7, 0x9B, 0xB8, 0xE5, 0x85, 0xB3, 0xE5, 0xBC, 0x95, 0xE7, 0x94, 0xA8, 0xE4, 0xBD,
     0x9C, 0xE7, 0xAD, 0x94, 0xE3, 0x80, 0x82, 0x0A, 0x0A, 0xE9, 0x97, 0xAE, 0xE9, 0xA2, 0x98, 0xEF, 0xBC, 0x9A]"

definition gen_empty :: string where
  "gen_empty = bytes [0x0A, 0xE7, 0x9F, 0xA5, 0xE8, 0xAF, 0x86, 0xE5, 0xBA, 0x93, 0xE5, 0xBC, 0x95, 0xE7, 0x94, 0xA8, 0xEF,
     0xBC, 0x9A, 0xEF, 0xBC, 0x88, 0xE6, 0xA3, 0x80, 0xE7, 0xB4, 0xA2, 0xE6, 0x97, 0xA0, 0xE7, 0xBB, 0x93, 0xE6,
     0x9E, 0x9C, 0xEF, 0xBC, 0x89, 0x0A]"

definition refused_mark :: string where
  "refused_mark = bytes [0xE6, 0x9C, 0xAA, 0xE6, 0x89, 0xBE, 0xE5, 0x88, 0xB0, 0xE7, 0x9B, 0xB8, 0xE5, 0x85, 0xB3, 0xE5, 0x8C,
     0xB9, 0xE9, 0x85, 0x8D]"

definition gen_item :: "nat \<times> rag_result \<Rightarrow> string" where
  "gen_item ih = (case ih of (i, h) \<Rightarrow>
     newline @ dec (i + 1) @ ''.'' @ open_bracket @ res_doc h @ close_bracket @ truncateRunes (res_snippet h) 300 @ newline)"

definition genRefusal :: "eval_env \<Rightarrow> string \<Rightarrow> rag_result list \<Rightarrow> (bool \<times> string) ws" where
  "genRefusal env question hits =
     (case je_post (ev_model env) (trim_slashes (jc_api_base default_openai) @ ''/chat/completions'') (bearer_of (jc_api_key default_openai))
             (JObj [(''max_tokens'', JNum ''256''),
                    (''messages'', JArr [JObj [(''content'', JStr (gen_head @ question @ newline
                        @ (if hits = [] then gen_empty else []) @ concat (map gen_item (enumerate 0 hits)))),
                      (''role'', JStr ''user'')]]),
                    (''model'', JStr (jc_model default_openai)), (''temperature'', JNum ''0'')]) of
        NoReply e \<Rightarrow> Inl e
      | Reply _ raw \<Rightarrow>
          res_bind (decode_choices (je_decode (ev_model env) raw)) (\<lambda>cs.
          case cs of [] \<Rightarrow> Inl (ErrMsg ''empty choices'') | c # _ \<Rightarrow> Inr (contains c refused_mark, c)))"

section \<open>Questions\<close>

record eval_counts =
  ec_hit :: nat
  ec_total :: nat
  ec_refused :: nat
  ec_refuse_total :: nat
  ec_rerank_hit :: nat
  ec_rerank_total :: nat
  ec_rerank_err :: nat
  ec_gen_refused :: nat
  ec_gen_total :: nat
  ec_gen_err :: nat

definition zero_counts :: eval_counts where
  "zero_counts = \<lparr> ec_hit = 0, ec_total = 0, ec_refused = 0, ec_refuse_total = 0, ec_rerank_hit = 0, ec_rerank_total = 0,
     ec_rerank_err = 0, ec_gen_refused = 0, ec_gen_total = 0, ec_gen_err = 0 \<rparr>"

definition found :: "string \<Rightarrow> rag_result list \<Rightarrow> bool" where
  "found want hits \<longleftrightarrow> list_ex (\<lambda>h. res_doc h = want) hits"

definition add_if :: "bool \<Rightarrow> nat \<Rightarrow> nat" where
  "add_if b n = (if b then n + 1 else n)"

definition count_gen :: "(bool \<times> string) ws \<Rightarrow> eval_counts \<Rightarrow> eval_counts" where
  "count_gen g c =
     (let c1 = c\<lparr>ec_gen_total := ec_gen_total c + 1\<rparr> in
      case g of
        Inl _ \<Rightarrow> c1\<lparr>ec_gen_err := ec_gen_err c + 1\<rparr>
      | Inr (refused, _) \<Rightarrow> c1\<lparr>ec_gen_refused := add_if refused (ec_gen_refused c)\<rparr>)"

definition count_negative :: "eval_env \<Rightarrow> bool \<Rightarrow> string \<Rightarrow> rag_result list \<Rightarrow> eval_counts \<Rightarrow> eval_counts" where
  "count_negative env genOn q hits c =
     (let c1 = c\<lparr>ec_refuse_total := ec_refuse_total c + 1, ec_refused := add_if (hits = []) (ec_refused c)\<rparr>
      in if genOn then count_gen (genRefusal env q hits) c1 else c1)"

definition count_rerank :: "eval_env \<Rightarrow> bool \<Rightarrow> string \<Rightarrow> string \<Rightarrow> rag_result list ws \<Rightarrow> eval_counts \<Rightarrow> eval_counts" where
  "count_rerank env noRerank q want pool c =
     (case pool of
        Inl _ \<Rightarrow> c\<lparr>ec_rerank_err := ec_rerank_err c + 1\<rparr>
      | Inr p \<Rightarrow>
          if noRerank then c
          else (case Rerank (ev_model env) (ev_stream env) (ev_num env)
                       (NewRanker (ev_getenv env ''RERANK_BASE_URL'') (ev_getenv env ''RERANK_MODEL'') ''lm-studio'') q p 0 of
                  (rr, err) \<Rightarrow>
                    c\<lparr>ec_rerank_err := add_if (err \<noteq> None) (ec_rerank_err c), ec_rerank_total := ec_rerank_total c + 1,
                      ec_rerank_hit := add_if (found want (RerankFused p rr 3)) (ec_rerank_hit c)\<rparr>))"

definition count_positive :: "eval_env \<Rightarrow> bool \<Rightarrow> sample \<Rightarrow> rag_result list \<Rightarrow> rag_result list ws \<Rightarrow> eval_counts \<Rightarrow> eval_counts" where
  "count_positive env noRerank q hits pool c =
     (let want = docTitle env (sm_expect_doc q);
          c1 = c\<lparr>ec_total := ec_total c + 1, ec_hit := add_if (found want hits) (ec_hit c)\<rparr>
      in count_rerank env noRerank (sm_question q) want pool c1)"

definition eval_question :: "eval_env \<Rightarrow> bool \<Rightarrow> bool \<Rightarrow> nat \<Rightarrow> rag \<Rightarrow> vector_store \<Rightarrow> sample \<Rightarrow> eval_counts \<Rightarrow> eval_counts ws" where
  "eval_question env genOn noRerank poolN r s q c =
     res_bind (eval_find env r s 3 (sm_question q)) (\<lambda>hits.
       Inr (if sm_expect_doc q = [] then count_negative env genOn (sm_question q) hits c
            else count_positive env noRerank q hits (eval_find env r s poolN (sm_question q)) c))"

text \<open>\<open>limit\<close> 0 means no limit; \<open>n\<close> questions have been asked.\<close>

fun eval_loop :: "eval_env \<Rightarrow> bool \<Rightarrow> bool \<Rightarrow> nat \<Rightarrow> nat \<Rightarrow> rag \<Rightarrow> vector_store \<Rightarrow> bool \<Rightarrow> string list \<Rightarrow> nat \<Rightarrow> eval_counts \<Rightarrow> eval_counts ws" where
  "eval_loop env genOn noRerank poolN limit r s too_long [] n c = (if too_long then Inl (ErrMsg ''token too long'') else Inr c)"
| "eval_loop env genOn noRerank poolN limit r s too_long (l # ls) n c =
     (let line = trim_space l in
      if line = [] then eval_loop env genOn noRerank poolN limit r s too_long ls n c
      else if 0 < limit \<and> limit \<le> n then Inr c
      else res_bind (decode_sample (ev_parse env line)) (\<lambda>q.
           res_bind (eval_question env genOn noRerank poolN r s q c) (\<lambda>c'.
             eval_loop env genOn noRerank poolN limit r s too_long ls (n + 1) c')))"

section \<open>Alerts\<close>

definition eval_alert :: "eval_env \<Rightarrow> bool \<Rightarrow> rag \<Rightarrow> vector_store \<Rightarrow> alert_sample \<Rightarrow> eval_counts \<Rightarrow> eval_counts ws" where
  "eval_alert env genOn r s a c =
     (let query = trim_space (as_name a @ '' '' @ as_description a) in
      res_bind (eval_find env r s 3 query) (\<lambda>hits.
        Inr (if as_expect_doc a = [] then (if genOn then count_gen (genRefusal env query hits) c else c)
             else c\<lparr>ec_total := ec_total c + 1,
                    ec_hit := add_if (found (docTitle env (as_expect_doc a)) hits) (ec_hit c)\<rparr>)))"

fun alert_loop :: "eval_env \<Rightarrow> (alert_sample \<Rightarrow> 'c \<Rightarrow> 'c ws) \<Rightarrow> bool \<Rightarrow> string list \<Rightarrow> 'c \<Rightarrow> 'c ws" where
  "alert_loop env f too_long [] c = (if too_long then Inl (ErrMsg ''token too long'') else Inr c)"
| "alert_loop env f too_long (l # ls) c =
     (let line = trim_space l in
      if line = [] then alert_loop env f too_long ls c
      else res_bind (decode_alert_sample (ev_parse env line)) (\<lambda>a. res_bind (f a c) (alert_loop env f too_long ls)))"

definition runAlertEval :: "eval_env \<Rightarrow> rag \<Rightarrow> vector_store \<Rightarrow> bool \<Rightarrow> eval_counts ws" where
  "runAlertEval env r s genOn =
     res_bind (ev_alerts env) (\<lambda>b. case scan_lines b of (ls, too_long) \<Rightarrow>
       alert_loop env (eval_alert env genOn r s) too_long ls zero_counts)"

record judge_counts =
  jn_sum :: nat
  jn_total :: nat
  jn_low :: nat
  jn_err :: nat

definition eval_plan_env :: "eval_env \<Rightarrow> rag \<Rightarrow> vector_store \<Rightarrow> plan_env" where
  "eval_plan_env env r s = \<lparr> pe_ctx = (\<lambda>_. None), pe_http = (\<lambda>_. Inl ErrUnavailable), pe_decode = ev_parse env,
     pe_dims = (\<lambda>q. Inr (length (HashEmbed q))),
     pe_vhits = (\<lambda>q k. map_sum id store_hits (fst (SearchFiltered (ev_qdrant env) None (HashEmbed q) k (Some (currentFilter r)) s))),
     pe_uni = ev_uni env \<rparr>"

definition eval_judged :: "eval_env \<Rightarrow> rag \<Rightarrow> vector_store \<Rightarrow> alert_sample \<Rightarrow> judge_counts \<Rightarrow> judge_counts ws" where
  "eval_judged env r s a c =
     (if as_expect_doc a = [] then Inr c
      else let al = \<lparr> al_name = as_name a, al_severity = as_severity a, al_description = as_description a, al_labels = None,
                      al_starts_at = [] \<rparr>;
               x = PlanPushed (eval_plan_env env r s) (NewPlanner None (Some r)) [al]
           in Inr (case Score (ev_model env) default_openai (fst x) (snd x) of
                     Inl _ \<Rightarrow> c\<lparr>jn_err := jn_err c + 1\<rparr>
                   | Inr (score, _) \<Rightarrow> c\<lparr>jn_total := jn_total c + 1, jn_sum := jn_sum c + score,
                                          jn_low := add_if (score < low_threshold) (jn_low c)\<rparr>))"

definition runJudgeEval :: "eval_env \<Rightarrow> rag \<Rightarrow> vector_store \<Rightarrow> judge_counts ws" where
  "runJudgeEval env r s =
     res_bind (ev_alerts env) (\<lambda>b. case scan_lines b of (ls, too_long) \<Rightarrow>
       alert_loop env (eval_judged env r s) too_long ls \<lparr> jn_sum = 0, jn_total = 0, jn_low = 0, jn_err = 0 \<rparr>)"

section \<open>The command\<close>

datatype eval_result = QuestionEval eval_counts nat | AlertEval eval_counts | JudgeEval judge_counts

definition eval_disabled :: ws_error where
  "eval_disabled = ErrMsg ''legacy model evaluation disabled; use isolated production-surface harness''"

definition eval_floor :: "eval_env \<Rightarrow> rag \<Rightarrow> rag" where
  "eval_floor env r =
     (let v = trim_space (ev_getenv env ''EVAL_FLOOR'') in
      if v = [] then r else case ev_float env v of Some f \<Rightarrow> if 0 < f then r\<lparr>rg_floor := f\<rparr> else r | None \<Rightarrow> r)"

definition eval_main :: "eval_env \<Rightarrow> eval_result ws" where
  "eval_main env =
     (if ev_getenv env ''EVAL_GEN'' = ''1'' \<or> ev_getenv env ''EVAL_JUDGE'' = ''1'' then Inl eval_disabled
      else res_bind (evalStore env) (\<lambda>s0.
           res_bind (ev_dir env) (\<lambda>entries.
           res_bind (warm_up env entries new_rag s0) (\<lambda>(r, s).
           res_bind (ev_sample env) (\<lambda>b.
             let poolN = positive_setting env ''RERANK_POOL'' 8; limit = positive_setting env ''EVAL_LIMIT'' 0;
                 noRerank = (\<not> is_on env ''EVAL_REMOTE'' \<or> is_on env ''EVAL_NORERANK''); genOn = is_on env ''EVAL_GEN'' in
             if is_on env ''EVAL_ALERT'' then res_bind (runAlertEval env r s genOn) (\<lambda>c. Inr (AlertEval c))
             else if is_on env ''EVAL_JUDGE'' then res_bind (runJudgeEval env r s) (\<lambda>c. Inr (JudgeEval c))
             else case scan_lines b of (ls, too_long) \<Rightarrow>
               res_bind (eval_loop env genOn noRerank poolN limit (eval_floor env r) s too_long ls 0 zero_counts) (\<lambda>c.
                 Inr (QuestionEval c poolN)))))))"

definition safeDiv :: "nat \<Rightarrow> nat \<Rightarrow> real" where
  "safeDiv a b = (if b = 0 then 0 else real a / real b)"

text \<open>The rates of the printed summary, by the name they are printed under.\<close>

definition eval_summary :: "eval_result \<Rightarrow> (string \<times> real) list" where
  "eval_summary x =
     (case x of
        QuestionEval c poolN \<Rightarrow>
          [(''recall_at_3'', safeDiv (ec_hit c) (ec_total c)), (''hit'', real (ec_hit c)), (''total'', real (ec_total c)),
           (''refusal_rate'', safeDiv (ec_refused c) (ec_refuse_total c)), (''refused'', real (ec_refused c)),
           (''refuse_total'', real (ec_refuse_total c)),
           (''rerank_recall_at_3'', safeDiv (ec_rerank_hit c) (ec_rerank_total c)), (''rerank_hit'', real (ec_rerank_hit c)),
           (''rerank_total'', real (ec_rerank_total c)), (''rerank_fallback_err'', real (ec_rerank_err c)), (''rerank_pool'', real poolN),
           (''gen_refusal_rate'', safeDiv (ec_gen_refused c) (ec_gen_total c)), (''gen_refused'', real (ec_gen_refused c)),
           (''gen_total'', real (ec_gen_total c)), (''gen_err'', real (ec_gen_err c))]
      | AlertEval c \<Rightarrow>
          [(''alert_recall_at_3'', safeDiv (ec_hit c) (ec_total c)), (''alert_hit'', real (ec_hit c)), (''alert_total'', real (ec_total c)),
           (''alert_gen_refused'', real (ec_gen_refused c)), (''alert_gen_total'', real (ec_gen_total c)), (''alert_gen_err'', real (ec_gen_err c))]
      | JudgeEval j \<Rightarrow>
          [(''alert_judge_avg'', safeDiv (jn_sum j) (jn_total j)), (''alert_judge_total'', real (jn_total j)),
           (''alert_judge_low_count'', real (jn_low j)), (''alert_judge_low_threshold'', real low_threshold),
           (''alert_judge_err'', real (jn_err j))])"

section \<open>What the counters count\<close>

definition asked :: "nat \<Rightarrow> nat \<Rightarrow> string list \<Rightarrow> string list" where
  "asked limit n ls =
     (let qs = filter (\<lambda>l. l \<noteq> []) (map trim_space ls) in if limit = 0 then qs else take (limit - n) qs)"

definition answers :: "eval_env \<Rightarrow> rag \<Rightarrow> vector_store \<Rightarrow> sample \<Rightarrow> rag_result list" where
  "answers env r s q = (case eval_find env r s 3 (sm_question q) of Inl _ \<Rightarrow> [] | Inr hits \<Rightarrow> hits)"

definition positive :: "sample \<Rightarrow> bool" where
  "positive q \<longleftrightarrow> sm_expect_doc q \<noteq> []"

definition recalled :: "eval_env \<Rightarrow> rag \<Rightarrow> vector_store \<Rightarrow> sample \<Rightarrow> bool" where
  "recalled env r s q \<longleftrightarrow> positive q \<and> found (docTitle env (sm_expect_doc q)) (answers env r s q)"

definition declined :: "eval_env \<Rightarrow> rag \<Rightarrow> vector_store \<Rightarrow> sample \<Rightarrow> bool" where
  "declined env r s q \<longleftrightarrow> \<not> positive q \<and> answers env r s q = []"

definition counts_ok :: "eval_counts \<Rightarrow> bool" where
  "counts_ok c \<longleftrightarrow> ec_hit c \<le> ec_total c \<and> ec_refused c \<le> ec_refuse_total c \<and> ec_rerank_hit c \<le> ec_rerank_total c
     \<and> ec_rerank_total c \<le> ec_total c \<and> ec_gen_refused c + ec_gen_err c \<le> ec_gen_total c \<and> ec_rerank_err c \<le> ec_total c"

definition counted :: "eval_env \<Rightarrow> rag \<Rightarrow> vector_store \<Rightarrow> sample list \<Rightarrow> eval_counts \<Rightarrow> eval_counts \<Rightarrow> bool" where
  "counted env r s qs c c' \<longleftrightarrow>
     ec_total c' = ec_total c + length (filter positive qs) \<and> ec_hit c' = ec_hit c + length (filter (recalled env r s) qs)
     \<and> ec_refuse_total c' = ec_refuse_total c + length (filter (\<lambda>q. \<not> positive q) qs)
     \<and> ec_refused c' = ec_refused c + length (filter (declined env r s) qs)
     \<and> (counts_ok c \<longrightarrow> counts_ok c')"

lemma counted_Nil [simp]: "counted env r s [] c c"
  by (simp add: counted_def)

lemma counted_Cons: "counted env r s [q] c c1 \<Longrightarrow> counted env r s qs c1 c2 \<Longrightarrow> counted env r s (q # qs) c c2"
  by (auto simp: counted_def)

lemma count_gen_frame [simp]:
  "ec_total (count_gen g c) = ec_total c" "ec_hit (count_gen g c) = ec_hit c" "ec_refuse_total (count_gen g c) = ec_refuse_total c"
  "ec_refused (count_gen g c) = ec_refused c" "counts_ok c \<Longrightarrow> counts_ok (count_gen g c)"
  by (auto simp: count_gen_def Let_def counts_ok_def add_if_def split: sum.splits prod.splits)

lemma count_rerank_frame [simp]:
  "ec_total (count_rerank env no q w p c) = ec_total c" "ec_hit (count_rerank env no q w p c) = ec_hit c"
  "ec_refuse_total (count_rerank env no q w p c) = ec_refuse_total c" "ec_refused (count_rerank env no q w p c) = ec_refused c"
  by (auto simp: count_rerank_def split: sum.splits prod.splits)

lemma counts_ok_rerank:
  assumes "counts_ok c"
  shows "counts_ok (count_rerank env no q w p (c\<lparr>ec_total := ec_total c + 1, ec_hit := add_if b (ec_hit c)\<rparr>))"
  using assms by (auto simp: count_rerank_def counts_ok_def add_if_def split: sum.splits prod.splits)

lemma counted_question:
  assumes "eval_question env genOn noRerank poolN r s q c = Inr c'"
  shows "counted env r s [q] c c'"
proof -
  obtain hits where hits: "eval_find env r s 3 (sm_question q) = Inr hits"
    using assms by (auto simp: eval_question_def res_bind_eq_Inr)
  then have a: "answers env r s q = hits" by (simp add: answers_def)
  show ?thesis
  proof (cases "positive q")
    case True
    then have "c' = count_positive env noRerank q hits (eval_find env r s poolN (sm_question q)) c"
      using assms hits by (simp add: eval_question_def positive_def)
    then show ?thesis using True a counts_ok_rerank [of c]
      by (auto simp: counted_def count_positive_def Let_def recalled_def declined_def add_if_def)
  next
    case False
    then have "c' = count_negative env genOn (sm_question q) hits c"
      using assms hits by (simp add: eval_question_def positive_def)
    moreover have "counts_ok (c\<lparr>ec_refuse_total := ec_refuse_total c + 1, ec_refused := add_if b (ec_refused c)\<rparr>)" if "counts_ok c" for b
      using that by (simp add: counts_ok_def add_if_def)
    ultimately show ?thesis using False a
      by (auto simp: counted_def count_negative_def Let_def recalled_def declined_def add_if_def)
  qed
qed

lemma counted_loop:
  assumes "eval_loop env genOn noRerank poolN limit r s too_long ls n c = Inr c'"
  shows "\<exists>qs. map_res (\<lambda>l. decode_sample (ev_parse env l)) (asked limit n ls) = Inr qs \<and> counted env r s qs c c'"
  using assms
proof (induction ls arbitrary: n c)
  case Nil
  then show ?case by (auto simp: asked_def split: if_splits)
next
  case (Cons l ls)
  consider "trim_space l = []" | "trim_space l \<noteq> []" "0 < limit \<and> limit \<le> n" | "trim_space l \<noteq> []" "\<not> (0 < limit \<and> limit \<le> n)" by blast
  then show ?case
  proof cases
    case 1
    with Cons show ?thesis by (auto simp: asked_def Let_def)
  next
    case 2
    with Cons.prems show ?thesis by (auto simp: asked_def Let_def)
  next
    case 3
    then obtain q c1 where q: "decode_sample (ev_parse env (trim_space l)) = Inr q"
      and e: "eval_question env genOn noRerank poolN r s q c = Inr c1"
      and rest: "eval_loop env genOn noRerank poolN limit r s too_long ls (n + 1) c1 = Inr c'"
      using Cons.prems by (auto simp: Let_def res_bind_eq_Inr)
    from Cons.IH [OF rest] obtain qs where
      qs: "map_res (\<lambda>l. decode_sample (ev_parse env l)) (asked limit (n + 1) ls) = Inr qs" "counted env r s qs c1 c'" by blast
    have "asked limit n (l # ls) = trim_space l # asked limit (n + 1) ls"
      using 3 by (auto simp: asked_def Let_def take_Cons' Suc_diff_le)
    with q qs counted_Cons [OF counted_question [OF e] qs(2)] show ?thesis by auto
  qed
qed

lemma safeDiv_unit: "a \<le> b \<Longrightarrow> 0 \<le> safeDiv a b \<and> safeDiv a b \<le> 1"
  by (simp add: safeDiv_def divide_le_eq)

text \<open>The evaluation counts what it says. When the command ends with the summary of the questions, it has asked the
  lines of the data set that are not blank, up to the limit; the totals are the questions with and without an expected
  document; a hit is a question whose expected document is among the first three results over the demo documents, a refusal a
  question without one that finds nothing; and every rate lies between 0 and 1.\<close>

theorem eval_main_exact:
  assumes "eval_main env = Inr (QuestionEval c poolN)"
  shows "\<exists>entries s0 r s b qs. ev_dir env = Inr entries \<and> evalStore env = Inr s0 \<and> warm_up env entries new_rag s0 = Inr (r, s)
    \<and> ev_sample env = Inr b
    \<and> map_res (\<lambda>l. decode_sample (ev_parse env l)) (asked (positive_setting env ''EVAL_LIMIT'' 0) 0 (fst (scan_lines b))) = Inr qs
    \<and> ec_total c = length (filter positive qs) \<and> ec_hit c = length (filter (recalled env (eval_floor env r) s) qs)
    \<and> ec_refuse_total c = length (filter (\<lambda>q. \<not> positive q) qs)
    \<and> ec_refused c = length (filter (declined env (eval_floor env r) s) qs)
    \<and> list_all (\<lambda>x. 0 \<le> x \<and> x \<le> 1) [safeDiv (ec_hit c) (ec_total c), safeDiv (ec_refused c) (ec_refuse_total c),
        safeDiv (ec_rerank_hit c) (ec_rerank_total c), safeDiv (ec_gen_refused c) (ec_gen_total c)]"
proof -
  obtain s0 entries r s b ls too_long where e: "ev_dir env = Inr entries" "evalStore env = Inr s0" "warm_up env entries new_rag s0 = Inr (r, s)"
      "ev_sample env = Inr b" and ls: "scan_lines b = (ls, too_long)"
    and loop: "eval_loop env (is_on env ''EVAL_GEN'') (\<not> is_on env ''EVAL_REMOTE'' \<or> is_on env ''EVAL_NORERANK'') poolN
      (positive_setting env ''EVAL_LIMIT'' 0) (eval_floor env r) s too_long ls 0 zero_counts = Inr c"
    using assms by (auto simp: eval_main_def res_bind_eq_Inr Let_def split: if_splits prod.splits)
  from counted_loop [OF loop] obtain qs where
    qs: "map_res (\<lambda>l. decode_sample (ev_parse env l)) (asked (positive_setting env ''EVAL_LIMIT'' 0) 0 ls) = Inr qs"
      "counted env (eval_floor env r) s qs zero_counts c" by blast
  have ok: "counts_ok c" using qs(2) by (auto simp: counted_def counts_ok_def zero_counts_def)
  have "list_all (\<lambda>x. 0 \<le> x \<and> x \<le> 1) [safeDiv (ec_hit c) (ec_total c), safeDiv (ec_refused c) (ec_refuse_total c),
        safeDiv (ec_rerank_hit c) (ec_rerank_total c), safeDiv (ec_gen_refused c) (ec_gen_total c)]"
    using ok safeDiv_unit by (simp add: counts_ok_def)
  with e ls qs show ?thesis by (auto simp: counted_def zero_counts_def)
qed

section \<open>Isolation\<close>

text \<open>The same environment with another vector service and another model.\<close>

definition elsewhere :: "qdrant_env \<Rightarrow> judge_env \<Rightarrow> eval_env \<Rightarrow> eval_env" where
  "elsewhere q m env = env\<lparr>ev_qdrant := q, ev_model := m\<rparr>"

lemma elsewhere_simps [simp]:
  "ev_getenv (elsewhere q m env) = ev_getenv env" "ev_dir (elsewhere q m env) = ev_dir env" "ev_read (elsewhere q m env) = ev_read env"
  "ev_sample (elsewhere q m env) = ev_sample env" "ev_alerts (elsewhere q m env) = ev_alerts env" "ev_parse (elsewhere q m env) = ev_parse env"
  "ev_float (elsewhere q m env) = ev_float env" "ev_qdrant (elsewhere q m env) = q"
  by (simp_all add: elsewhere_def)

lemma settings_alone [simp]:
  "is_on (elsewhere q m env) = is_on env" "positive_setting (elsewhere q m env) = positive_setting env"
  "eval_floor (elsewhere q m env) = eval_floor env" "docTitle (elsewhere q m env) = docTitle env"
  unfolding fun_eq_iff is_on_def positive_setting_def eval_floor_def docTitle_def elsewhere_simps by simp_all

lemma add_chunks_memory:
  assumes "vs_mem_only s"
  shows "vs_mem_only (snd (snd (add_chunks q emb None doc source ics r s)))"
    and "add_chunks q emb None doc source ics r s = add_chunks q' emb None doc source ics r s"
  using assms
  by (induction ics arbitrary: r s) (auto simp: UpsertWithContext_def split: sum.splits)

lemma evalStore_alone: "evalStore (elsewhere q m env) = evalStore env" and evalStore_memory: "evalStore env = Inr s \<Longrightarrow> vs_mem_only s"
  by (auto simp: evalStore_def EnsureCompatible_def NewMemoryVector_def Let_def split: if_splits)

lemma warm_up_alone:
  assumes "vs_mem_only s"
  shows "warm_up (elsewhere q m env) es r s = warm_up env es r s \<and> (\<forall>r' s'. warm_up env es r s = Inr (r', s') \<longrightarrow> vs_mem_only s')"
  using assms
proof (induction es arbitrary: r s)
  case (Cons e es)
  obtain name is_dir where e: "e = (name, is_dir)" by fastforce
  show ?case
  proof (cases "is_dir \<or> \<not> has_suffix name ''.md''")
    case False
    show ?thesis
    proof (cases "ev_read env name")
      case (Inr b)
      obtain x r1 s1 where a: "AddDocWithContext (ev_qdrant env) hash_embed None (heading_or name b) b ''demo'' r s = (x, r1, s1)"
        by (metis surj_pair)
      have "AddDocWithContext q hash_embed None (heading_or name b) b ''demo'' r s = (x, r1, s1)"
        unfolding a [symmetric] AddDocWithContext_def by (rule add_chunks_memory(2) [OF Cons.prems])
      moreover have "vs_mem_only s1"
        using add_chunks_memory(1) [OF Cons.prems, of "ev_qdrant env" hash_embed "heading_or name b" "''demo''"
            "enumerate 0 (ChunkMarkdown (heading_or name b) b)" r] a by (simp add: AddDocWithContext_def)
      ultimately show ?thesis using a Inr False e Cons.IH [of s1 r1] by (auto split: sum.splits)
    qed (use False e in auto)
  qed (use Cons e in auto)
qed auto

lemma eval_find_alone:
  assumes "vs_mem_only s"
  shows "eval_find (elsewhere q m env) r s = eval_find env r s"
  using assms by (auto simp: fun_eq_iff eval_find_def searchFused_on_def vst_bind_def SearchFiltered_def Let_def split: sum.splits)

lemma eval_question_alone:
  assumes "vs_mem_only s"
  shows "eval_question (elsewhere q m env) False True p r s = eval_question env False True p r s"
  unfolding fun_eq_iff eval_question_def eval_find_alone [OF assms] count_negative_def count_positive_def count_rerank_def settings_alone
    if_True if_False by simp

lemma eval_loop_alone:
  assumes "vs_mem_only s"
  shows "eval_loop (elsewhere q m env) False True p limit r s t ls n c = eval_loop env False True p limit r s t ls n c"
proof (induction ls arbitrary: n c)
  case (Cons l ls)
  have "eval_loop (elsewhere q m env) False True p limit r s t ls = eval_loop env False True p limit r s t ls"
    using Cons.IH by (simp add: fun_eq_iff)
  then show ?case by (simp only: eval_loop.simps eval_question_alone [OF assms] elsewhere_simps)
qed simp

lemma eval_alert_alone:
  assumes "vs_mem_only s"
  shows "eval_alert (elsewhere q m env) False r s = eval_alert env False r s"
  unfolding fun_eq_iff eval_alert_def eval_find_alone [OF assms] settings_alone if_False by simp

lemma alert_loop_alone: "alert_loop (elsewhere q m env) f t ls c = alert_loop env f t ls c"
proof (induction ls arbitrary: c)
  case (Cons l ls)
  have "alert_loop (elsewhere q m env) f t ls = alert_loop env f t ls" using Cons.IH by (simp add: fun_eq_iff)
  then show ?case by (simp only: alert_loop.simps elsewhere_simps)
qed simp

lemma runAlertEval_alone:
  assumes "vs_mem_only s"
  shows "runAlertEval (elsewhere q m env) r s False = runAlertEval env r s False"
  by (simp add: runAlertEval_def alert_loop_alone eval_alert_alone [OF assms])

lemma bind_warm_up_alone:
  assumes "vs_mem_only s0" and "\<And>r s. vs_mem_only s \<Longrightarrow> F r s = G r s"
  shows "res_bind (warm_up (elsewhere q m env) es r0 s0) (\<lambda>(r, s). F r s) = res_bind (warm_up env es r0 s0) (\<lambda>(r, s). G r s)"
  using warm_up_alone [OF assms(1), of q m env es r0] assms(2) by (cases "warm_up env es r0 s0") auto

text \<open>The evaluation is isolated. As long as none of the three switches of a model is on, whatever a vector service or a
  model would answer, the command gives the same result: it asks neither.\<close>

theorem eval_isolated:
  assumes "\<not> is_on env ''EVAL_GEN''" and "\<not> is_on env ''EVAL_JUDGE''" and "\<not> is_on env ''EVAL_REMOTE''"
  shows "eval_main (env\<lparr>ev_qdrant := q, ev_model := m\<rparr>) = eval_main env"
proof (cases "evalStore env")
  case (Inr s0)
  note mem = evalStore_memory [OF Inr]
  show ?thesis
    unfolding elsewhere_def [symmetric] eval_main_def evalStore_alone Inr res_bind_simps elsewhere_simps settings_alone
    using assms by (auto simp: Let_def runAlertEval_alone eval_loop_alone split: prod.splits
        intro!: arg_cong2 [where f = res_bind] ext bind_warm_up_alone [OF mem])
qed (simp add: eval_main_def elsewhere_def [symmetric] evalStore_alone)

definition ex_eval :: eval_env where
  "ex_eval = \<lparr> ev_getenv = (\<lambda>_. []), ev_dir = Inr [], ev_read = (\<lambda>_. Inl ErrNoRows), ev_sample = Inr ''q'', ev_alerts = Inr ''a'',
     ev_parse = (\<lambda>l. if l = ''q'' then Some (JObj [(''question'', JStr ''disk full''), (''expect_doc'', JStr [])])
                    else Some (JObj [(''alertname'', JStr ''Down''), (''expect_doc'', JStr ''disk.md'')])),
     ev_float = (\<lambda>_. None), ev_model = \<lparr> je_post = (\<lambda>_ _ _. NoReply ErrUnavailable), je_decode = (\<lambda>_. None) \<rparr>,
     ev_stream = (\<lambda>_. None), ev_num = (\<lambda>_. None), ev_uni = (\<lambda>_. False), ev_qdrant = ex_qdrant \<rparr>"

lemma ex_eval_off: "\<not> is_on ex_eval k"
  by (simp add: is_on_def ex_eval_def)

lemma ex_scan: "scan_lines ''q'' = ([''q''], False)" "scan_lines ''a'' = ([''a''], False)"
  by (simp_all add: scan_lines_def drop_last_empty_def chomp_def)

lemma ex_eval_trim: "trim_space ''q'' = ''q''" "trim_space ''a'' = ''a''" "trim_space '' 1'' = ''1''" "trim_space ''disk full'' \<noteq> []"
  by code_simp+

lemma ex_eval_finds_nothing: "\<exists>h. eval_find env new_rag NewMemoryVector k q = Inr h \<and> h = []"
proof -
  have b: "searchFiltered q n f newBM25Index = []" for q n f by (simp add: searchFiltered_def newBM25Index_def)
  show ?thesis
    by (simp add: NewVector_def List.map_filter_def eval_find_def searchFused_on_def hash_embed_def validateSpace_def new_rag_def SearchFiltered_def NewMemoryVector_def
        searchMemFiltered_def mem_scored_def vst_bind_def vst_return_def searchFused_def b ensure_def rrfFuse_def store_hits_def Let_def)
qed

lemma ex_eval_run: "eval_main ex_eval = Inr (QuestionEval (zero_counts\<lparr>ec_refused := 1, ec_refuse_total := 1\<rparr>) 8)"
proof -
  have f: "eval_find ex_eval new_rag NewMemoryVector k q = Inr []" for k q using ex_eval_finds_nothing by auto
  have q: "decode_sample (ev_parse ex_eval ''q'') = Inr \<lparr> sm_question = ''disk full'', sm_expect_doc = [] \<rparr>" by code_simp
  have s: "evalStore ex_eval = Inr NewMemoryVector"
    by (simp add: evalStore_def ex_eval_def EnsureCompatible_def NewMemoryVector_def Dim_def)
  have e: "ev_getenv ex_eval k = []" "ev_dir ex_eval = Inr []" "ev_sample ex_eval = Inr ''q''" for k by (simp_all add: ex_eval_def)
  have p: "positive_setting ex_eval k d = d" "eval_floor ex_eval r = r" for k d r
    by (simp_all add: positive_setting_def eval_floor_def e)
  show ?thesis
    by (simp add: eval_main_def s e p ex_eval_off ex_scan ex_eval_trim q eval_question_def f count_negative_def add_if_def zero_counts_def Let_def)
qed

theorem eval_main_exact_witness:
  "\<exists>c. eval_main ex_eval = Inr (QuestionEval c 8) \<and> ec_refused c = 1 \<and> ec_total c = 0
     \<and> safeDiv (ec_refused c) (ec_refuse_total c) \<le> 1"
  using eval_main_exact [OF ex_eval_run] ex_eval_run by (auto simp: zero_counts_def)

theorem eval_isolated_witness:
  "eval_main (ex_eval\<lparr>ev_qdrant := ex_failing, ev_model := ev_model ex_eval\<rparr>)
     = Inr (QuestionEval (zero_counts\<lparr>ec_refused := 1, ec_refuse_total := 1\<rparr>) 8)"
  by (rule trans [OF eval_isolated [OF ex_eval_off ex_eval_off ex_eval_off] ex_eval_run])

text \<open>The guard of the command compares the switches of the model with \<open>1\<close> as they are, while the switches themselves
  are read without surrounding space: with a space in front of the 1 the disabled evaluation runs and asks the model,
  here one that does not answer.\<close>

lemma eval_guard_missed:
  "eval_main (ex_eval\<lparr>ev_getenv := (\<lambda>k. if k = ''EVAL_JUDGE'' then '' 1'' else [])\<rparr>)
     = Inr (JudgeEval \<lparr> jn_sum = 0, jn_total = 0, jn_low = 0, jn_err = 1 \<rparr>)"
proof -
  let ?e = "ex_eval\<lparr>ev_getenv := (\<lambda>k. if k = ''EVAL_JUDGE'' then '' 1'' else [])\<rparr>"
  have a: "decode_alert_sample (ev_parse ?e ''a'')
      = Inr \<lparr> as_name = ''Down'', as_severity = [], as_description = [], as_expect_doc = ''disk.md'' \<rparr>" by code_simp
  have s: "evalStore ?e = Inr NewMemoryVector"
    by (simp add: evalStore_def ex_eval_def EnsureCompatible_def NewMemoryVector_def Dim_def)
  have e: "ev_dir ?e = Inr []" "ev_sample ?e = Inr ''q''" "ev_alerts ?e = Inr ''a''" by (simp_all add: ex_eval_def)
  have on: "is_on ?e ''EVAL_JUDGE''" "\<not> is_on ?e ''EVAL_ALERT''" by (simp_all add: is_on_def ex_eval_trim)
  have m: "Score (ev_model ?e) cfg x y = Inl ErrUnavailable" for cfg x y by (simp add: Score_def ex_eval_def)
  have "eval_judged ?e new_rag NewMemoryVector \<lparr> as_name = ''Down'', as_severity = [], as_description = [], as_expect_doc = ''disk.md'' \<rparr> c
      = Inr (c\<lparr>jn_err := jn_err c + 1\<rparr>)" for c
    by (simp only: eval_judged_def m Let_def alert_sample.select_convs list.distinct if_False sum.case)
  then have "runJudgeEval ?e new_rag NewMemoryVector = Inr \<lparr> jn_sum = 0, jn_total = 0, jn_low = 0, jn_err = 1 \<rparr>"
    using a e by (simp add: runJudgeEval_def ex_scan ex_eval_trim Let_def del: eval_env.simps)
  with s e on show ?thesis by (simp add: eval_main_def Let_def)
qed

end
