(* ===== verification/Telemetry.thy ===== *)
theory Telemetry
  imports Tools
begin

text \<open>
  Spans and counters: \<open>src/internal/trace/span.go\<close>, the callbacks of the agent (\<open>src/internal/agent/otel_callbacks.go\<close>),
  the spans around a tool call (\<open>src/internal/tool/otel.go\<close>, \<open>exec.go\<close>) and the counters of
  \<open>src/internal/observability/metrics.go\<close>.

  A tracer is the list of the spans it has started, each with the calls the program made on the span of the library; a
  context is the number of its innermost span, if any. Exporters and providers are the library's and not modelled, nor are
  the spans that a tool opens inside its own call. \<open>formatMs\<close> computes with floating-point numbers, which are reals here.
\<close>

section \<open>Spans\<close>

datatype status_code = StatusUnset | StatusOK | StatusError

datatype otel_code = OtelUnset | OtelError | OtelOk

datatype span_call = Attribute string string | SetStatusCall otel_code string | RecordErrorCall string | EndCall

record span =
  sp_name :: string
  sp_parent :: "nat option"
  sp_start :: time
  sp_ended :: bool
  sp_calls :: "span_call list"

type_synonym tracer = "span list"

fun toOTelStatus :: "status_code \<Rightarrow> otel_code" where
  "toOTelStatus StatusOK = OtelOk"
| "toOTelStatus StatusError = OtelError"
| "toOTelStatus StatusUnset = OtelUnset"

definition trace_Start :: "nat option \<Rightarrow> string \<Rightarrow> (string \<times> string) list \<Rightarrow> time \<Rightarrow> tracer \<Rightarrow> nat \<times> tracer" where
  "trace_Start ctx name attrs now st =
     (length st, st @ [\<lparr> sp_name = name, sp_parent = ctx, sp_start = now, sp_ended = False,
        sp_calls = map (\<lambda>(k, v). Attribute k v) (filter (\<lambda>(k, _). k \<noteq> []) attrs) \<rparr>])"

definition span_name :: "nat option \<Rightarrow> tracer \<Rightarrow> string" where
  "span_name s st = (case s of None \<Rightarrow> [] | Some i \<Rightarrow> if i < length st then sp_name (st ! i) else [])"

definition call_span :: "nat \<Rightarrow> span_call list \<Rightarrow> tracer \<Rightarrow> tracer" where
  "call_span i cs st = (if i < length st then st[i := (st ! i)\<lparr>sp_calls := sp_calls (st ! i) @ cs\<rparr>] else st)"

definition SetAttribute :: "nat option \<Rightarrow> string \<Rightarrow> string \<Rightarrow> tracer \<Rightarrow> tracer" where
  "SetAttribute s k v st = (case s of None \<Rightarrow> st | Some i \<Rightarrow> if k = [] then st else call_span i [Attribute k v] st)"

definition SetStatus :: "nat option \<Rightarrow> status_code \<Rightarrow> string \<Rightarrow> tracer \<Rightarrow> tracer" where
  "SetStatus s code msg st = (case s of None \<Rightarrow> st | Some i \<Rightarrow> call_span i [SetStatusCall (toOTelStatus code) msg] st)"

definition RecordError :: "nat option \<Rightarrow> string option \<Rightarrow> tracer \<Rightarrow> tracer" where
  "RecordError s err st =
     (case (s, err) of
        (Some i, Some e) \<Rightarrow> call_span i [RecordErrorCall e, SetStatusCall OtelError e] st
      | _ \<Rightarrow> st)"

definition appendInt :: "string \<Rightarrow> int \<Rightarrow> string" where
  "appendInt b n = (if n = 0 then b @ ''0'' else b @ itoa_loop n [])"

definition formatMs :: "int \<Rightarrow> string" where
  "formatMs d =
     (let ms0 = real_of_int d / 1000000; neg = ms0 < 0; ms = (if neg then - ms0 else ms0);
          i0 = \<lfloor>ms\<rfloor>; f0 = \<lfloor>(ms - real_of_int i0) * 1000 + 1/2\<rfloor>;
          i = (if 1000 \<le> f0 then i0 + 1 else i0); frac = (if 1000 \<le> f0 then f0 - 1000 else f0)
      in appendInt (if neg then ''-'' else []) i @ ''.''
         @ map (\<lambda>n. char_of (48 + nat n)) [frac div 100, (frac div 10) mod 10, frac mod 10])"

definition Elapsed :: "nat option \<Rightarrow> time \<Rightarrow> tracer \<Rightarrow> time" where
  "Elapsed s now st = (case s of None \<Rightarrow> 0 | Some i \<Rightarrow> if i < length st then now - sp_start (st ! i) else 0)"

definition end_span :: "nat option \<Rightarrow> time \<Rightarrow> tracer \<Rightarrow> tracer" where
  "end_span s now st =
     (case s of
        None \<Rightarrow> st
      | Some i \<Rightarrow>
          if i < length st \<and> \<not> sp_ended (st ! i)
          then st[i := (st ! i)\<lparr>sp_ended := True,
                 sp_calls := sp_calls (st ! i) @ [Attribute ''duration_ms'' (formatMs (now - sp_start (st ! i))), EndCall]\<rparr>]
          else st)"

section \<open>The callbacks of the agent\<close>

record callback_info =
  cb_component :: string
  cb_type :: string
  cb_name :: string

definition StartCallbackSpan :: "nat option \<Rightarrow> callback_info \<Rightarrow> time \<Rightarrow> tracer \<Rightarrow> nat \<times> tracer" where
  "StartCallbackSpan ctx info now st =
     (let name = cb_component info @ ''.'' @ cb_type info @ (if cb_name info \<noteq> [] then '':'' @ cb_name info else []) in
      case trace_Start ctx name [(''component'', cb_component info), (''span.type'', cb_type info), (''gen_ai.system'', ''openai'')] now st of
        (i, st') \<Rightarrow> (i, if cb_name info \<noteq> [] then SetAttribute (Some i) ''name'' (cb_name info) st' else st'))"

definition EndCallbackSpan :: "nat option \<Rightarrow> string option \<Rightarrow> int \<Rightarrow> int \<Rightarrow> time \<Rightarrow> tracer \<Rightarrow> tracer" where
  "EndCallbackSpan s err tokensIn tokensOut now st =
     (if s = None then st
      else let st1 = (if 0 < tokensIn then SetAttribute s ''gen_ai.usage.input_tokens'' (tool_itoa tokensIn) st else st);
               st2 = (if 0 < tokensOut then SetAttribute s ''gen_ai.usage.output_tokens'' (tool_itoa tokensOut) st1 else st1);
               st3 = (case err of Some e \<Rightarrow> SetStatus s StatusError e (RecordError s err st2) | None \<Rightarrow> SetStatus s StatusOK [] st2)
           in end_span s now st3)"

definition OnStart :: "nat option \<Rightarrow> callback_info \<Rightarrow> time \<Rightarrow> tracer \<Rightarrow> nat \<times> tracer" where
  "OnStart ctx info now st = StartCallbackSpan ctx info now st"

definition OnEnd :: "nat option \<Rightarrow> int \<Rightarrow> int \<Rightarrow> time \<Rightarrow> tracer \<Rightarrow> tracer" where
  "OnEnd ctx tokensIn tokensOut now st = EndCallbackSpan ctx None tokensIn tokensOut now st"

definition OnError :: "nat option \<Rightarrow> string option \<Rightarrow> time \<Rightarrow> tracer \<Rightarrow> tracer" where
  "OnError ctx err now st = EndCallbackSpan ctx err 0 0 now st"

definition info :: "string \<Rightarrow> string \<Rightarrow> string \<Rightarrow> callback_info" where
  "info component kind name = \<lparr> cb_component = component, cb_type = kind, cb_name = name \<rparr>"

definition StartRunSpan :: "nat option \<Rightarrow> string \<Rightarrow> time \<Rightarrow> tracer \<Rightarrow> nat \<times> tracer" where
  "StartRunSpan ctx sessionID now st = StartCallbackSpan ctx (info ''Run'' ''run'' sessionID) now st"

definition StartPlanSpan :: "nat option \<Rightarrow> time \<Rightarrow> tracer \<Rightarrow> nat \<times> tracer" where
  "StartPlanSpan ctx now st = StartCallbackSpan ctx (info ''Plan'' ''plan'' []) now st"

definition StartChatModelSpan :: "nat option \<Rightarrow> string \<Rightarrow> time \<Rightarrow> tracer \<Rightarrow> nat \<times> tracer" where
  "StartChatModelSpan ctx model now st =
     (case StartCallbackSpan ctx (info ''ChatModel'' ''chat'' model) now st of
        (i, st') \<Rightarrow> (i, SetAttribute (Some i) ''gen_ai.request.model'' model st'))"

text \<open>Long texts are cut to 256 bytes, wherever that falls.\<close>

definition cut256 :: "string \<Rightarrow> string" where
  "cut256 s = (if 256 < length s then take 256 s @ bytes [0xE2, 0x80, 0xA6] else s)"

definition StartToolSpan :: "nat option \<Rightarrow> string \<Rightarrow> string \<Rightarrow> time \<Rightarrow> tracer \<Rightarrow> nat \<times> tracer" where
  "StartToolSpan ctx name args now st =
     (case StartCallbackSpan ctx (info ''Tool'' ''exec'' name) now st of
        (i, st') \<Rightarrow> (i, SetAttribute (Some i) ''tool.args'' (cut256 args) (SetAttribute (Some i) ''tool.name'' name st')))"

definition StartRAGSpan :: "nat option \<Rightarrow> string \<Rightarrow> int \<Rightarrow> time \<Rightarrow> tracer \<Rightarrow> nat \<times> tracer" where
  "StartRAGSpan ctx query topK now st =
     (case StartCallbackSpan ctx (info ''RAG'' ''search'' []) now st of
        (i, st') \<Rightarrow> (i, SetAttribute (Some i) ''rag.top_k'' (tool_itoa topK) (SetAttribute (Some i) ''rag.query'' (cut256 query) st')))"

definition StartPromQuerySpan :: "nat option \<Rightarrow> string \<Rightarrow> time \<Rightarrow> tracer \<Rightarrow> nat \<times> tracer" where
  "StartPromQuerySpan ctx query now st =
     (case StartCallbackSpan ctx (info ''Prom'' ''query'' []) now st of
        (i, st') \<Rightarrow> (i, SetAttribute (Some i) ''prom.query'' (cut256 query) st'))"

definition StartFiringSpan :: "nat option \<Rightarrow> time \<Rightarrow> tracer \<Rightarrow> nat \<times> tracer" where
  "StartFiringSpan ctx now st = StartCallbackSpan ctx (info ''Prom'' ''firing'' []) now st"

section \<open>Counters\<close>

text \<open>A counter has a total per value of its label; before \<open>InitMetrics\<close> there is none.\<close>

type_synonym meter = "string \<Rightarrow> (string \<Rightarrow> int) option"

definition counter_names :: "string list" where
  "counter_names = [''rag_hits_total'', ''alert_diagnoses_total'', ''incident_ingested_total'', ''diagnosis_score_low_total'',
     ''notification_sent_total'', ''notification_failed_total'', ''deploy_events_calls_total'', ''deploy_events_errors_total'',
     ''deploy_events_total'', ''store_fallback_total'', ''embed_fallback_total'', ''chat_fallback_total'', ''reports_persist_errors_total'']"

definition InitMetrics :: meter where
  "InitMetrics name = (if name \<in> set counter_names then Some (\<lambda>_. 0) else None)"

definition add_counter :: "string \<Rightarrow> string \<Rightarrow> int \<Rightarrow> meter \<Rightarrow> meter" where
  "add_counter name lb n m = (case m name of None \<Rightarrow> m | Some f \<Rightarrow> m(name \<mapsto> f(lb := f lb + n)))"

definition AddRagHits :: "int \<Rightarrow> string \<Rightarrow> meter \<Rightarrow> meter" where
  "AddRagHits n caller = add_counter ''rag_hits_total'' caller n"
definition AddAlertDiagnosis :: "int \<Rightarrow> meter \<Rightarrow> meter" where
  "AddAlertDiagnosis n = add_counter ''alert_diagnoses_total'' [] n"
definition AddIncidentIngested :: "int \<Rightarrow> meter \<Rightarrow> meter" where
  "AddIncidentIngested n = add_counter ''incident_ingested_total'' [] n"
definition AddDiagnosisScoreLow :: "meter \<Rightarrow> meter" where
  "AddDiagnosisScoreLow = add_counter ''diagnosis_score_low_total'' [] 1"
definition AddNotificationSent :: "meter \<Rightarrow> meter" where
  "AddNotificationSent = add_counter ''notification_sent_total'' [] 1"
definition AddNotificationFailed :: "meter \<Rightarrow> meter" where
  "AddNotificationFailed = add_counter ''notification_failed_total'' [] 1"
definition AddDeployCalls :: "meter \<Rightarrow> meter" where
  "AddDeployCalls = add_counter ''deploy_events_calls_total'' [] 1"
definition AddDeployErrors :: "meter \<Rightarrow> meter" where
  "AddDeployErrors = add_counter ''deploy_events_errors_total'' [] 1"
definition AddDeployEvents :: "int \<Rightarrow> meter \<Rightarrow> meter" where
  "AddDeployEvents n = add_counter ''deploy_events_total'' [] n"
definition AddStoreFallback :: "meter \<Rightarrow> meter" where
  "AddStoreFallback = add_counter ''store_fallback_total'' [] 1"
definition AddEmbedFallback :: "meter \<Rightarrow> meter" where
  "AddEmbedFallback = add_counter ''embed_fallback_total'' [] 1"
definition AddChatFallback :: "meter \<Rightarrow> meter" where
  "AddChatFallback = add_counter ''chat_fallback_total'' [] 1"
definition AddReportsPersistError :: "meter \<Rightarrow> meter" where
  "AddReportsPersistError = add_counter ''reports_persist_errors_total'' [] 1"

section \<open>Instrumented calls\<close>

definition startToolSpan :: "nat option \<Rightarrow> string \<Rightarrow> string \<Rightarrow> time \<Rightarrow> tracer \<Rightarrow> nat \<times> tracer" where
  "startToolSpan ctx name args now st =
     trace_Start ctx (''Tool.exec:'' @ name)
       [(''component'', ''Tool''), (''span.type'', ''exec''), (''tool.name'', name), (''tool.args'', cut256 args)] now st"

definition endToolSpan :: "nat option \<Rightarrow> string option \<Rightarrow> time \<Rightarrow> tracer \<Rightarrow> tracer" where
  "endToolSpan s err now st =
     (if s = None then st
      else end_span s now (case err of Some e \<Rightarrow> SetStatus s StatusError e (RecordError s err st) | None \<Rightarrow> SetStatus s StatusOK [] st))"

text \<open>A tool call with its span and its counter; \<open>show_err\<close> renders an error.\<close>

definition Exec_traced :: "(tool_error \<Rightarrow> string) \<Rightarrow> tool_env \<Rightarrow> deps option \<Rightarrow> string \<Rightarrow> string \<Rightarrow> nat option \<Rightarrow> time \<Rightarrow> time \<Rightarrow> tracer \<times> meter \<Rightarrow>
    (tool_error + string \<times> rag_result list) \<times> tracer \<times> meter" where
  "Exec_traced show_err env d name argsJSON ctx t0 t1 = (\<lambda>(st, m).
     case startToolSpan ctx name argsJSON t0 st of
       (s, st1) \<Rightarrow>
         (let r = ExecWithContext env d name argsJSON;
              err = (case r of Inl e \<Rightarrow> Some (show_err e) | Inr _ \<Rightarrow> None);
              hits = (case r of Inl _ \<Rightarrow> [] | Inr (_, hs) \<Rightarrow> hs)
          in (r, endToolSpan (Some s) err t1 st1,
              if name = ''rag_search'' then AddRagHits (int (length hits)) ''tool'' m else m)))"

definition Fetch_counted :: "tool_env \<Rightarrow> deploy_source \<Rightarrow> string \<Rightarrow> string \<Rightarrow> meter \<Rightarrow> deploy_event list ws \<times> meter" where
  "Fetch_counted env src since until m =
     (let r = FetchDeployEvents env src since until; m1 = AddDeployCalls m in
      (r, case r of Inl _ \<Rightarrow> AddDeployErrors m1 | Inr evs \<Rightarrow> AddDeployEvents (int (length evs)) m1))"

section \<open>Durations\<close>

text \<open>A duration is printed in milliseconds with three decimals, rounded to the nearest microsecond, half away from zero.\<close>

theorem formatMs_rounds:
  "formatMs d = (if d < 0 then ''-'' else []) @ dec (nat ((\<bar>d\<bar> + 500) div 1000 div 1000)) @ ''.''
     @ map (\<lambda>n. char_of (48 + nat n)) [(\<bar>d\<bar> + 500) div 1000 mod 1000 div 100, (\<bar>d\<bar> + 500) div 1000 mod 100 div 10, (\<bar>d\<bar> + 500) div 1000 mod 10]"
proof -
  define a where "a = \<bar>d\<bar>"
  define i where "i = a div 1000000"
  define f where "f = (a mod 1000000 + 500) div 1000"
  have neg: "real_of_int d / 1000000 < 0 \<longleftrightarrow> d < 0" by simp
  have ms: "(if d < 0 then - (real_of_int d / 1000000) else real_of_int d / 1000000) = real_of_int a / 1000000" by (simp add: a_def)
  have i0: "\<lfloor>real_of_int a / 1000000\<rfloor> = i" unfolding i_def using floor_divide_of_int_eq [of a 1000000] by simp
  have "(real_of_int a / 1000000 - real_of_int i) * 1000 + 1/2 = real_of_int (a mod 1000000 + 500) / real_of_int 1000"
  proof -
    have "real_of_int a = 1000000 * real_of_int i + real_of_int (a mod 1000000)"
      unfolding i_def by (metis mult_div_mod_eq of_int_add of_int_mult of_int_numeral)
    then show ?thesis by (simp add: field_simps)
  qed
  then have f0: "\<lfloor>(real_of_int a / 1000000 - real_of_int i) * 1000 + 1/2\<rfloor> = f" unfolding f_def by (metis floor_divide_of_int_eq)
  have bounds: "0 \<le> a" "0 \<le> i" "0 \<le> f" "f \<le> 1000" unfolding a_def i_def f_def by auto
  have q: "(a + 500) div 1000 = 1000 * i + f"
  proof -
    have "a + 500 = (a mod 1000000 + 500) + (1000 * i) * 1000" unfolding i_def using mult_div_mod_eq [of 1000000 a] by simp
    then show ?thesis unfolding f_def by simp
  qed
  define j where "j = (if 1000 \<le> f then i + 1 else i)"
  define g where "g = (if 1000 \<le> f then f - 1000 else f)"
  have g: "0 \<le> g" "g < 1000" "0 \<le> j" "1000 * i + f = 1000 * j + g" using bounds by (auto simp: g_def j_def)
  have q': "(a + 500) div 1000 = g + j * 1000" using q g(4) by simp
  have "(g + j * 1000) mod 100 = g mod 100" "(g + j * 1000) mod 10 = g mod 10"
    using mod_mult_self1 [of g "10 * j" 100] mod_mult_self1 [of g "100 * j" 10] by (simp_all add: mult.commute)
  then have parts: "(a + 500) div 1000 div 1000 = j" "(a + 500) div 1000 mod 1000 = g" "(a + 500) div 1000 mod 100 = g mod 100"
    "(a + 500) div 1000 mod 10 = g mod 10" unfolding q' using g(1,2) by simp_all
  have digits: "g mod 100 div 10 = g div 10 mod 10" using zmod_zmult2_eq [of 10 g 10] by simp
  have "formatMs d = appendInt (if d < 0 then ''-'' else []) j @ ''.'' @ map (\<lambda>n. char_of (48 + nat n)) [g div 100, g div 10 mod 10, g mod 10]"
    by (simp only: formatMs_def Let_def neg ms i0 f0 j_def g_def)
  moreover have "appendInt b j = b @ dec (nat j)" for b
    using g(3) itoa_loop_dec [of j "[]"] by (cases "j = 0") (simp_all add: appendInt_def dec.simps [of 0] digit_chars)
  ultimately show ?thesis unfolding a_def [symmetric] parts digits by simp
qed

section \<open>Spans are ended once\<close>

definition span_ok :: "span \<Rightarrow> bool" where
  "span_ok s \<longleftrightarrow> (if sp_ended s
     then \<exists>before after d. sp_calls s = before @ [Attribute ''duration_ms'' d, EndCall] @ after \<and> EndCall \<notin> set before \<and> EndCall \<notin> set after
     else EndCall \<notin> set (sp_calls s))"

definition trace_ok :: "tracer \<Rightarrow> bool" where
  "trace_ok st \<longleftrightarrow> (\<forall>i < length st. span_ok (st ! i) \<and> (\<forall>p. sp_parent (st ! i) = Some p \<longrightarrow> p < i))"

lemma span_ok_call: "span_ok s \<Longrightarrow> EndCall \<notin> set cs \<Longrightarrow> span_ok (s\<lparr>sp_calls := sp_calls s @ cs\<rparr>)"
  by (auto simp: span_ok_def) (metis Un_iff append.assoc append_Cons append_Nil set_append)

lemma trace_ok_update:
  assumes "trace_ok st" and "i < length st" and "span_ok x" and "sp_parent x = sp_parent (st ! i)"
  shows "trace_ok (st[i := x])"
  using assms by (auto simp: trace_ok_def nth_list_update)

lemma trace_ok_call: "trace_ok st \<Longrightarrow> EndCall \<notin> set cs \<Longrightarrow> trace_ok (call_span i cs st)"
  unfolding call_span_def by (auto intro!: trace_ok_update span_ok_call) (simp add: trace_ok_def)

lemma span_ok_end:
  assumes "span_ok s" and "\<not> sp_ended s"
  shows "span_ok (s\<lparr>sp_ended := True, sp_calls := sp_calls s @ [Attribute ''duration_ms'' d, EndCall]\<rparr>)"
proof -
  have "EndCall \<notin> set (sp_calls s)" using assms by (simp add: span_ok_def)
  then show ?thesis unfolding span_ok_def by (simp, intro exI [of _ "sp_calls s"] exI [of _ "[]"]) simp
qed

lemma trace_ok_end: "trace_ok st \<Longrightarrow> trace_ok (end_span s now st)"
  unfolding end_span_def by (auto intro!: trace_ok_update span_ok_end split: option.splits) (simp add: trace_ok_def)

lemma trace_ok_start:
  assumes "trace_ok st" and "\<forall>p. ctx = Some p \<longrightarrow> p < length st" and "trace_Start ctx name attrs now st = (i, st')"
  shows "trace_ok st' \<and> i = length st \<and> length st' = Suc i \<and> (\<forall>j < i. st' ! j = st ! j) \<and> \<not> sp_ended (st' ! i)"
proof -
  define x where "x = \<lparr> sp_name = name, sp_parent = ctx, sp_start = now, sp_ended = False,
    sp_calls = map (\<lambda>(k, v). Attribute k v) (filter (\<lambda>(k, _). k \<noteq> []) attrs) \<rparr>"
  have x: "span_ok x" "\<not> sp_ended x" "sp_parent x = ctx" by (auto simp: x_def span_ok_def)
  have "i = length st" "st' = st @ [x]" using assms(3) by (simp_all add: trace_Start_def x_def)
  with x assms(1,2) show ?thesis by (auto simp: trace_ok_def nth_append less_Suc_eq)
qed

lemmas span_op_defs = SetAttribute_def SetStatus_def RecordError_def

lemma trace_ok_ops:
  assumes "trace_ok st"
  shows "trace_ok (SetAttribute s k v st)" "trace_ok (SetStatus s code msg st)" "trace_ok (RecordError s err st)"
  using assms by (auto simp: span_op_defs intro!: trace_ok_call split: option.splits)

text \<open>What the end of a span adds to it: the status of the result, and the duration.\<close>

definition status_calls :: "string option \<Rightarrow> span_call list" where
  "status_calls err = (case err of
     Some e \<Rightarrow> [RecordErrorCall e, SetStatusCall OtelError e, SetStatusCall OtelError e] | None \<Rightarrow> [SetStatusCall OtelOk []])"

definition closed :: "span_call list \<Rightarrow> time \<Rightarrow> span \<Rightarrow> span" where
  "closed cs now s = s\<lparr>sp_ended := True, sp_calls := sp_calls s @ cs @ [Attribute ''duration_ms'' (formatMs (now - sp_start s)), EndCall]\<rparr>"

lemma end_after_calls:
  assumes "i < length st" and "\<not> sp_ended (st ! i)"
  shows "end_span (Some i) now (call_span i cs st) = st[i := closed cs now (st ! i)]"
  using assms by (simp add: end_span_def call_span_def closed_def)

lemma call_span_append: "call_span i ds (call_span i cs st) = call_span i (cs @ ds) st"
  by (simp add: call_span_def)

lemma call_span_Nil: "call_span i [] st = st"
  by (simp add: call_span_def)

lemma status_span:
  "(case err of Some e \<Rightarrow> SetStatus (Some i) StatusError e (RecordError (Some i) err st) | None \<Rightarrow> SetStatus (Some i) StatusOK [] st)
    = call_span i (status_calls err) st"
  by (simp add: SetStatus_def RecordError_def status_calls_def call_span_append split: option.splits)

lemma endToolSpan_closes:
  assumes "i < length st" and "\<not> sp_ended (st ! i)"
  shows "endToolSpan (Some i) err now st = st[i := closed (status_calls err) now (st ! i)]"
  using end_after_calls [OF assms] by (simp add: endToolSpan_def status_span)

definition token_calls :: "int \<Rightarrow> int \<Rightarrow> span_call list" where
  "token_calls tokensIn tokensOut = (if 0 < tokensIn then [Attribute ''gen_ai.usage.input_tokens'' (tool_itoa tokensIn)] else [])
     @ (if 0 < tokensOut then [Attribute ''gen_ai.usage.output_tokens'' (tool_itoa tokensOut)] else [])"

lemma EndCallbackSpan_closes:
  assumes "i < length st" and "\<not> sp_ended (st ! i)"
  shows "EndCallbackSpan (Some i) err tokensIn tokensOut now st = st[i := closed (token_calls tokensIn tokensOut @ status_calls err) now (st ! i)]"
proof -
  have "EndCallbackSpan (Some i) err tokensIn tokensOut now st
      = end_span (Some i) now (call_span i (token_calls tokensIn tokensOut @ status_calls err) st)"
    by (auto simp: EndCallbackSpan_def Let_def status_span SetAttribute_def call_span_append call_span_Nil token_calls_def)
  with end_after_calls [OF assms] show ?thesis by simp
qed

lemma EndCallbackSpan_again: "trace_ok st \<Longrightarrow> trace_ok (EndCallbackSpan s err tokensIn tokensOut now st)"
  by (auto simp: EndCallbackSpan_def Let_def intro!: trace_ok_end trace_ok_ops split: option.splits)

text \<open>A span that the agent starts is a new span under its context, and the callback that ends it says how the call went, once; every
  other span stays as it is, and ending the span again adds no second end.\<close>

theorem callback_span_once:
  assumes ok: "trace_ok st" and ctx: "\<forall>p. ctx = Some p \<longrightarrow> p < length st" and s: "StartCallbackSpan ctx cb now st = (i, st1)"
    and e: "st2 = EndCallbackSpan (Some i) err tokensIn tokensOut later st1"
  shows "trace_ok st2 \<and> trace_ok (EndCallbackSpan (Some i) err' tokensIn' tokensOut' later' st2)
    \<and> i = length st \<and> length st2 = Suc i \<and> (\<forall>j < i. st2 ! j = st ! j) \<and> sp_parent (st2 ! i) = ctx \<and> sp_ended (st2 ! i)
    \<and> (\<forall>code msg. SetStatusCall code msg \<in> set (sp_calls (st2 ! i)) \<longleftrightarrow>
         (case err of Some e \<Rightarrow> code = OtelError \<and> msg = e | None \<Rightarrow> code = OtelOk \<and> msg = []))"
proof -
  define name where "name = cb_component cb @ ''.'' @ cb_type cb @ (if cb_name cb \<noteq> [] then '':'' @ cb_name cb else [])"
  define attrs where "attrs = [(''component'', cb_component cb), (''span.type'', cb_type cb), (''gen_ai.system'', ''openai'')]"
  obtain k st0 where st0: "trace_Start ctx name attrs now st = (k, st0)" by (cases "trace_Start ctx name attrs now st")
  note o = trace_ok_start [OF ok ctx st0]
  have i: "i = length st" and st1: "st1 = (if cb_name cb \<noteq> [] then SetAttribute (Some i) ''name'' (cb_name cb) st0 else st0)"
    using s st0 o by (auto simp: StartCallbackSpan_def Let_def name_def attrs_def)
  have ok1: "trace_ok st1" using o trace_ok_ops st1 by simp
  have len: "i < length st1" "length st1 = Suc i" "\<not> sp_ended (st1 ! i)" "\<forall>j < i. st1 ! j = st ! j" "sp_parent (st1 ! i) = ctx"
    and calls: "SetStatusCall code msg \<notin> set (sp_calls (st1 ! i))" for code msg
    using o st0 i by (auto simp: st1 SetAttribute_def call_span_def trace_Start_def attrs_def nth_append)
  have st2: "st2 = st1[i := closed (token_calls tokensIn tokensOut @ status_calls err) later (st1 ! i)]"
    unfolding e by (rule EndCallbackSpan_closes [OF len(1,3)])
  have "trace_ok st2" using ok1 e EndCallbackSpan_again by simp
  moreover have "SetStatusCall code msg \<in> set (sp_calls (st2 ! i)) \<longleftrightarrow>
      (case err of Some e \<Rightarrow> code = OtelError \<and> msg = e | None \<Rightarrow> code = OtelOk \<and> msg = [])" for code msg
    using len(1) calls by (auto simp: st2 closed_def token_calls_def status_calls_def split: option.splits)
  ultimately show ?thesis using EndCallbackSpan_again i len by (simp add: st2 closed_def)
qed

theorem callback_span_once_witness:
  "\<exists>st1 i. StartRunSpan None ''s'' 0 [] = (i, st1) \<and> sp_ended (EndCallbackSpan (Some i) (Some ''boom'') 0 0 7 st1 ! i)"
proof -
  obtain i st1 where s: "StartCallbackSpan None (info ''Run'' ''run'' ''s'') 0 [] = (i, st1)" by (cases "StartCallbackSpan None (info ''Run'' ''run'' ''s'') 0 []")
  from callback_span_once [OF _ _ s refl, of "Some ''boom''" 0 0 7] s show ?thesis by (auto simp: StartRunSpan_def trace_ok_def)
qed

section \<open>Telemetry does not change results\<close>

text \<open>A tool call with its span and counter answers what the tool answers; it leaves one new span, ended, under its
  context, whose status says whether the call failed, and counts the hits of a search under the label of the tools.\<close>

theorem Exec_traced_faithful:
  assumes ok: "trace_ok st" and ctx: "\<forall>p. ctx = Some p \<longrightarrow> p < length st"
    and run: "Exec_traced show_err env d name args ctx t0 t1 (st, m) = (r, st', m')"
  shows "r = ExecWithContext env d name args \<and> trace_ok st' \<and> length st' = Suc (length st) \<and> (\<forall>j < length st. st' ! j = st ! j)
    \<and> sp_ended (st' ! length st) \<and> (SetStatusCall OtelOk [] \<in> set (sp_calls (st' ! length st)) \<longleftrightarrow> (\<exists>x. r = Inr x))
    \<and> m' = (if name = ''rag_search'' then AddRagHits (case r of Inl _ \<Rightarrow> 0 | Inr (_, hs) \<Rightarrow> int (length hs)) ''tool'' m else m)"
proof -
  obtain i st1 where s: "startToolSpan ctx name args t0 st = (i, st1)" by (cases "startToolSpan ctx name args t0 st")
  note o = trace_ok_start [OF ok ctx s [unfolded startToolSpan_def]]
  let ?err = "case r of Inl e \<Rightarrow> Some (show_err e) | Inr _ \<Rightarrow> None"
  have r: "r = ExecWithContext env d name args" and st': "st' = endToolSpan (Some i) ?err t1 st1"
    and m': "m' = (if name = ''rag_search'' then AddRagHits (case r of Inl _ \<Rightarrow> 0 | Inr (_, hs) \<Rightarrow> int (length hs)) ''tool'' m else m)"
    using run s by (auto simp: Exec_traced_def Let_def split: sum.splits prod.splits)
  have c: "st' = st1[i := closed (status_calls ?err) t1 (st1 ! i)]" unfolding st' by (rule endToolSpan_closes) (use o in auto)
  have "trace_ok st'" unfolding st' endToolSpan_def using o by (auto intro!: trace_ok_end trace_ok_ops split: option.splits sum.splits)
  moreover have "SetStatusCall OtelOk [] \<notin> set (sp_calls (st1 ! i))" using s o by (auto simp: startToolSpan_def trace_Start_def)
  then have "SetStatusCall OtelOk [] \<in> set (sp_calls (st' ! i)) \<longleftrightarrow> (\<exists>x. r = Inr x)"
    using o by (cases r) (auto simp: c closed_def status_calls_def)
  ultimately show ?thesis using r m' o by (simp add: c closed_def)
qed

theorem Exec_traced_faithful_witness:
  "\<exists>r st' m'. Exec_traced (\<lambda>_. []) ex_env (Some (NewDeps None [])) ''shell'' [] None 0 5 ([], InitMetrics) = (r, st', m')
     \<and> sp_ended (st' ! 0) \<and> SetStatusCall OtelOk [] \<notin> set (sp_calls (st' ! 0))"
proof -
  obtain r st' m' where run: "Exec_traced (\<lambda>_. []) ex_env (Some (NewDeps None [])) ''shell'' [] None 0 5 ([], InitMetrics) = (r, st', m')"
    by (cases "Exec_traced (\<lambda>_. []) ex_env (Some (NewDeps None [])) ''shell'' [] None 0 5 ([], InitMetrics)") auto
  have "ExecWithContext ex_env (Some (NewDeps None [])) ''shell'' [] = Inl (errDeny [] ''shell'')"
    by (simp add: ExecWithContext_def IsAllowed_def AllowedFor_def baseTools_def deployRepo_def NewDeps_def)
  with Exec_traced_faithful [OF _ _ run] run show ?thesis by (auto simp: trace_ok_def)
qed

section \<open>Counters count\<close>

definition total :: "string \<Rightarrow> string \<Rightarrow> meter \<Rightarrow> int" where
  "total name lb m = (case m name of None \<Rightarrow> 0 | Some f \<Rightarrow> f lb)"

definition ready :: "meter \<Rightarrow> bool" where
  "ready m \<longleftrightarrow> (\<forall>name \<in> set counter_names. m name \<noteq> None)"

lemma ready_init: "ready InitMetrics" "total name lb InitMetrics = 0"
  by (auto simp: ready_def InitMetrics_def total_def)

lemma add_counter_none: "add_counter name lb n (\<lambda>_. None) = (\<lambda>_. None)"
  by (simp add: add_counter_def)

lemma add_counter_ready: "ready m \<Longrightarrow> ready (add_counter name lb n m)"
  by (auto simp: ready_def add_counter_def split: option.splits)

lemma total_add:
  assumes "ready m" and "name \<in> set counter_names"
  shows "total name' lb' (add_counter name lb n m) = total name' lb' m + (if name' = name \<and> lb' = lb then n else 0)"
  using assms by (auto simp: ready_def total_def add_counter_def split: option.splits)

abbreviation calls_of :: "meter \<Rightarrow> int" where "calls_of \<equiv> total ''deploy_events_calls_total'' []"
abbreviation errors_of :: "meter \<Rightarrow> int" where "errors_of \<equiv> total ''deploy_events_errors_total'' []"
abbreviation events_of :: "meter \<Rightarrow> int" where "events_of \<equiv> total ''deploy_events_total'' []"

definition fetched :: "deploy_event list ws \<Rightarrow> int" where
  "fetched r = (case r of Inl _ \<Rightarrow> 0 | Inr evs \<Rightarrow> int (length evs))"

lemma Fetch_counted_step:
  assumes "ready m" and "Fetch_counted env src since until m = (r, m')"
  shows "ready m' \<and> r = FetchDeployEvents env src since until \<and> calls_of m' = calls_of m + 1
    \<and> errors_of m' = errors_of m + (if \<exists>e. r = Inl e then 1 else 0) \<and> events_of m' = events_of m + fetched r"
proof -
  note a = add_counter_ready [OF assms(1)] and n = counter_names_def
  show ?thesis using assms
    by (cases r) (auto simp: Fetch_counted_def Let_def fetched_def AddDeployCalls_def AddDeployErrors_def AddDeployEvents_def total_add a
        add_counter_ready n split: sum.splits)
qed

type_synonym fetch = "tool_env \<times> deploy_source \<times> string \<times> string"

definition outcome :: "fetch \<Rightarrow> deploy_event list ws" where
  "outcome c = (case c of (env, src, since, until) \<Rightarrow> FetchDeployEvents env src since until)"

definition counted_fetch :: "fetch \<Rightarrow> meter \<Rightarrow> meter" where
  "counted_fetch c m = (case c of (env, src, since, until) \<Rightarrow> snd (Fetch_counted env src since until m))"

lemma counted_fetch_step:
  assumes "ready m"
  shows "ready (counted_fetch c m) \<and> calls_of (counted_fetch c m) = calls_of m + 1
    \<and> errors_of (counted_fetch c m) = errors_of m + (if \<exists>e. outcome c = Inl e then 1 else 0)
    \<and> events_of (counted_fetch c m) = events_of m + fetched (outcome c)"
proof -
  obtain env src since until where c: "c = (env, src, since, until)" by (cases c)
  obtain r m' where "Fetch_counted env src since until m = (r, m')" by (cases "Fetch_counted env src since until m")
  with Fetch_counted_step [OF assms this] show ?thesis by (simp add: c counted_fetch_def outcome_def)
qed

text \<open>After any sequence of fetches the three counters of the deployment source are exact: the calls, the calls that failed, and the
  events of the calls that did not; without \<open>InitMetrics\<close> nothing is counted and nothing fails.\<close>

theorem deploy_counters_exact:
  "calls_of (fold counted_fetch cs InitMetrics) = int (length cs)
    \<and> errors_of (fold counted_fetch cs InitMetrics) = int (length (filter (\<lambda>c. \<exists>e. outcome c = Inl e) cs))
    \<and> events_of (fold counted_fetch cs InitMetrics) = (\<Sum>c\<leftarrow>cs. fetched (outcome c))
    \<and> fold counted_fetch cs (\<lambda>_. None) = (\<lambda>_. None)"
proof -
  have "ready m \<Longrightarrow> calls_of (fold counted_fetch cs m) = calls_of m + int (length cs)
      \<and> errors_of (fold counted_fetch cs m) = errors_of m + int (length (filter (\<lambda>c. \<exists>e. outcome c = Inl e) cs))
      \<and> events_of (fold counted_fetch cs m) = events_of m + (\<Sum>c\<leftarrow>cs. fetched (outcome c))" for m
    by (induction cs arbitrary: m) (use counted_fetch_step in auto)
  moreover have "fold counted_fetch cs (\<lambda>_. None) = (\<lambda>_. None)"
    by (induction cs)
       (auto simp: counted_fetch_def Fetch_counted_def Let_def AddDeployCalls_def AddDeployErrors_def AddDeployEvents_def add_counter_none
          split: prod.splits sum.splits)
  ultimately show ?thesis using ready_init by simp
qed

section \<open>Cut texts\<close>

function valid_utf8 :: "string \<Rightarrow> bool" where
  "valid_utf8 s = (case s of
     [] \<Rightarrow> True
   | c # t \<Rightarrow> if of_char c < (128::nat) then valid_utf8 t else if utf8_len s = 0 then False else valid_utf8 (drop (utf8_len s) s))"
  by pat_completeness auto
termination by (relation "measure length") auto

text \<open>The cut does not look at characters: a valid text can become an attribute that is not valid UTF-8, which the export format requires.\<close>

lemma cut256_breaks_text:
  "valid_utf8 (replicate 255 CHR ''a'' @ bytes [0xE4, 0xB8, 0xAD]) \<and> \<not> valid_utf8 (cut256 (replicate 255 CHR ''a'' @ bytes [0xE4, 0xB8, 0xAD]))"
  by code_simp

end
