(* ===== verification/Spec2Isabelle.thy ===== *)
theory Spec2Isabelle
  imports Clients PlanHttp Queue Startup Control Evaluation Telemetry
begin

text \<open>
  A verification library for \<open>oncall-agent\<close>, a read-only incident workspace written in Go.

  \<^bold>\<open>The program.\<close> An alert arrives at \<open>POST /alert\<close>. One SQLite transaction (\<open>Admit\<close>) turns it into incidents, a
  diagnosis run, its events and an outbox row. The dispatcher hands outbox rows to a Redis queue, and a worker claims
  the run (attempt number, lease), searches the published documents, records every hit and whether it qualifies as a
  citation, and publishes the report together with a notification row in one last transaction. A second worker
  delivers notifications. Documents are published in versions: SQLite holds the facts, and a retrieval projection (a
  BM25 index and a vector collection) holds chunks of the active versions. Around this core stand the HTTP surface with
  its authentication, the chat assistant and the planner with their read-only tools, the metric and topology endpoints,
  the earlier in-memory surface, the import of its reports, and three commands: the server, the maintenance command and the
  offline evaluation of retrieval.

  \<^bold>\<open>The theories\<close>, in the order of the code (paths below \<open>src/\<close>).

  \<^item> \<open>Prelude\<close>: results and errors, the used parts of Go's \<open>strings\<close>, \<open>strconv\<close> and \<open>sort\<close>, shared lemmas and the
    collections \<open>ws_defs\<close>, \<open>ws_frame\<close>, \<open>ws_inv\<close>. \<open>GoTime\<close>, \<open>GoJson\<close>, \<open>GoUrl\<close>, \<open>Base64\<close>: time stamps, JSON, URL quoting
    and base64. \<open>Sha256\<close>, \<open>Md5\<close>: the two digests.
  \<^item> \<open>Tables\<close>: SQLite tables as lists of rows with a key, the locale \<open>rel_table\<close>. \<open>Model\<close>: the records of
    \<open>internal/workspace/model.go\<close> and the tables of \<open>database.go\<close>, with the invariant \<open>ws_ok\<close>: keys are unique,
    references resolve, event numbers of a run are gapless, states of a run fit together.
  \<^item> \<open>Admission\<close> (\<open>admission.go\<close>): reading, validating and canonicalising a delivery, the admission transaction,
    manual re-diagnosis. \<open>Runs\<close> (\<open>service.go\<close>): recovery, \<open>claim\<close>, \<open>owned\<close>, events, \<open>finish\<close>, judge, notification.
    \<open>Diagnosis\<close> (\<open>diagnosis.go\<close>): the worker as the list of its transactions. \<open>Dispatcher\<close> (\<open>service.go\<close>,
    \<open>readiness.go\<close>): the outbox loop and the retrieval probe.
  \<^item> \<open>Bm25\<close>, \<open>Rag\<close>, \<open>Vector\<close>, \<open>Embed\<close>, \<open>Rerank\<close> (\<open>internal/rag\<close>, \<open>internal/store\<close>): tokenizer, sparse index, rank
    fusion; Markdown chunks, versioned projection and fused search; the vector store in memory and over Qdrant; the
    embedding providers; re-ranking by a model. \<open>Knowledge\<close> and \<open>Publication\<close> (\<open>knowledge.go\<close>): putting, deleting,
    re-indexing and cleaning up documents, and the locale \<open>fact_projection\<close> between the facts and the projection.
  \<^item> \<open>Transition\<close> and \<open>System\<close>: the locale \<open>transition_system\<close>, and the workspace as one transition system whose
    steps are the transactions of handlers, workers, dispatcher, clean-up, topology and recovery, interleaved in any order.
  \<^item> \<open>ReadModel\<close> (\<open>readmodel.go\<close>), \<open>Topology\<close> and \<open>TopologyStore\<close> (\<open>topology.go\<close>), \<open>Migration\<close> (\<open>migration.go\<close>): the evidence
    graph and the summary, the declared service graph, its traversal and its storage as evidence, the import of earlier
    reports.
  \<^item> \<open>Tools\<close> (\<open>internal/tool\<close>), \<open>Agent\<close> (\<open>internal/agent/react.go\<close>, \<open>evidence.go\<close>, \<open>rag/qualification.go\<close>,
    \<open>handler/chat.go\<close>), \<open>Planner\<close> (\<open>planner.go\<close>), \<open>Judge\<close> (\<open>internal/judge\<close>, \<open>internal/notify\<close>).
  \<^item> \<open>Web\<close>, \<open>Api\<close>, \<open>Http\<close>, \<open>Clients\<close> (\<open>handler/workspace.go\<close>): request checks and cursors, the handlers, the route table, and
    what a client sees over several requests. \<open>Metrics\<close> (\<open>workspace_metrics.go\<close>). \<open>PlanHttp\<close> (\<open>workspace_plan.go\<close>): the
    synchronous plan, with the other workers as arguments between its reads. \<open>Auth\<close> (\<open>internal/auth\<close>) and \<open>Gateway\<close>
    (\<open>cmd/server\<close>): the middleware in front of the routes.
  \<^item> \<open>Legacy\<close> (\<open>handler/alert.go\<close>, \<open>handler.go\<close>, \<open>docs.go\<close>, \<open>plan.go\<close>, \<open>bind.go\<close>) and \<open>Queue\<close> (\<open>internal/queue\<close>): the earlier
    surface with its ring of reports, and task payloads and identities with the two consumers.
  \<^item> \<open>Config\<close> (\<open>internal/config\<close>): defaults, file and environment. \<open>Startup\<close> (\<open>cmd/server/main.go\<close>, \<open>mcpserver\<close>): the service of
    a configuration, the start on an existing database, the tools over MCP. \<open>Control\<close> (\<open>cmd/workspacectl\<close>, the rest of
    \<open>migration.go\<close>, the opening of \<open>database.go\<close>): flags, inventory, backup and import on a map of files. \<open>Evaluation\<close>
    (\<open>cmd/evalbaseline\<close>): isolation, warm-up and the counters of the three evaluations. \<open>Telemetry\<close> (\<open>internal/trace\<close>,
    \<open>otel_callbacks.go\<close>, \<open>tool/otel.go\<close>, \<open>observability/metrics.go\<close>): spans with the calls made on them, and counters.

  \<^bold>\<open>How the state and the effects are modelled.\<close> A Go struct is a record, an enumeration of strings that the code
  compares is kept as the string. Go strings are HOL strings, read as byte sequences. A transaction is a function
  \<open>\<dots> \<Rightarrow> db \<Rightarrow> (\<dots> \<times> db) ws\<close>: \<open>Inl\<close> is an error and means a rollback, \<open>Inr\<close> carries the committed state. Within a
  transaction \<open>time.Now\<close> is read once and is an argument. A context that is cancelled is an argument or a
  failing call. Services outside the repository (the vector service, the embedding and chat models, Prometheus, the
  queue, the webhook) are functions from requests to replies, gathered in environment records such as
  \<open>dispatch_env\<close>; what is assumed of them is a named predicate in the hypotheses (\<open>honest_queue\<close>: a task
  conflict is answered only for an accepted task) and each such property has a witness at a concrete instance.
  \<open>float64\<close> is \<open>real\<close>. \<open>sort.Slice\<close> leaves ties open and Go maps are ranged over in any order: the model fixes the
  order of the underlying list, and the statements hold for every such list. \<open>strings.ToLower\<close> and \<open>strconv.Quote\<close>
  are modelled on their ASCII part.

  \<^bold>\<open>What is proved.\<close> The interleaved system: reachable states are well formed, at most one live worker owns a
  run, finished runs never change, a queued run is never lost (\<open>System\<close>), every HTTP request, whatever it
  contains, is a path of that system (\<open>Http\<close>), and a start on the database of an earlier process fences its workers,
  requeues its runs and rebuilds the projection (\<open>Startup\<close>). The transactions: what each branch writes, that redelivery is
  idempotent, that a finished run is published with its citations and its notification in one step, that the
  dispatcher delivers or backs off and always ends. Knowledge: the projection is exactly the active part of SQL
  after publishing, deleting and restoring, and a search returns only chunks of it, also over the vector
  service. Citations: whatever a model writes, an answer, a plan or a report cites only qualified hits.
  The surface: unauthenticated requests change nothing, sessions end with a logout, rate windows hold,
  rejected requests change nothing, cursors and event feeds lose and repeat nothing, concurrent edits are
  not lost. Data: topology files, metric matrices, quoted query values, task payloads, snapshots and
  imports are read and written exactly, and a stored topology resolves every reference of it. The commands: the
  maintenance command changes no file it was not told to change, a backup never replaces one, an import does what the dry
  run announced (\<open>Control\<close>); an evaluation asks no service outside the process and counts what it says (\<open>Evaluation\<close>).
  Telemetry changes no result, and a span is ended once, with the status of its call (\<open>Telemetry\<close>).

  \<^bold>\<open>Bounds and fuel.\<close> All loops of the code are bounded by their data, or by the constants of the code:
  three model rounds per question (\<open>MaxRounds\<close>), 256 sessions (\<open>MaxSessions\<close>), 20 reports in the ring, 512
  chunks per document, 100 outbox rows per dispatch. Traversals carry the number of nodes as fuel and are proved to reach their
  fixed point within it. Loops of a client (following cursors, polling events) take the number of requests as an
  argument, and the theorems say that enough requests give the whole list.

  \<^bold>\<open>Not modelled.\<close> The SQLite engine, its log files and pragmas, file permissions, directories and links; signal handling,
  tickers and the listener of \<open>cmd/server\<close>, whose periodic work (probe, dispatch) is a step of \<open>System\<close>; the asynq, gin,
  MCP and OpenTelemetry libraries, which are reached through parameters or only by a call (\<open>observability/trace.go\<close>); the
  static pages; logs and the lines that the evaluation prints for each question; the spans that a tool opens inside its own
  call.
\<close>

end
